(* ===== verification/TS_Prelude.thy ===== *)
theory TS_Prelude
  imports Main "HOL-Library.Word" "HOL-Library.While_Combinator" "HOL-Library.Monad_Syntax"
begin

text \<open>
  The prelude of the development: how C control flow is written in HOL, and the proof
  rules every component uses.

  \<^item> A C function that loops is an option-valued function: \<open>None\<close> means that it does
    not return, \<open>Some r\<close> that it returns \<open>r\<close>.
  \<^item> \<open>flow\<close> is the outcome of a statement block: \<open>Next s\<close> falls through to the code
    after the block with the locals \<open>s\<close>, \<open>Return r\<close> leaves the enclosing function
    with the value \<open>r\<close>.
  \<^item> \<open>c_loop body s\<close> is \<open>for (;;) body\<close>: the body answers \<open>Next s'\<close> to go round
    again and \<open>Return r\<close> to leave the loop.
  \<^item> \<open>runs c Q\<close> is total correctness: \<open>c\<close> returns and its result satisfies \<open>Q\<close>.
    Its rules compute weakest preconditions; the loop rule asks for an invariant and a
    measure that every round decreases.
\<close>

named_theorems wp \<open>weakest-precondition rules of \<open>runs\<close>\<close>
named_theorems wctype_simps \<open>wide-character classification on ASCII\<close>
named_theorems bytes_simps \<open>decoding of encoded fields\<close>

section \<open>Control flow\<close>

datatype ('s, 'r) flow = Next 's | Return 'r

definition and_then :: "('s, 'r) flow option \<Rightarrow> ('s \<Rightarrow> ('t, 'r) flow option) \<Rightarrow> ('t, 'r) flow option" where
  "and_then c f =
     (case c of
        None \<Rightarrow> None
      | Some (Return r) \<Rightarrow> Some (Return r)
      | Some (Next s) \<Rightarrow> f s)"

definition then_return :: "('s, 'r) flow option \<Rightarrow> ('s \<Rightarrow> 'r option) \<Rightarrow> 'r option" where
  "then_return c f =
     (case c of
        None \<Rightarrow> None
      | Some (Return r) \<Rightarrow> Some r
      | Some (Next s) \<Rightarrow> f s)"

partial_function (option) c_loop :: "('s \<Rightarrow> ('s, 'r) flow option) \<Rightarrow> 's \<Rightarrow> 'r option" where
  "c_loop body s =
     (case body s of
        None \<Rightarrow> None
      | Some x \<Rightarrow> (case x of Next s' \<Rightarrow> c_loop body s' | Return r \<Rightarrow> Some r))"

declare c_loop.simps [code]

lemma c_loop_Next: "body s = Some (Next s') \<Longrightarrow> c_loop body s = c_loop body s'"
  by (simp add: c_loop.simps [of body s])

lemma c_loop_Return: "body s = Some (Return r) \<Longrightarrow> c_loop body s = Some r"
  by (simp add: c_loop.simps [of body s])

section \<open>Total correctness\<close>

definition runs :: "'a option \<Rightarrow> ('a \<Rightarrow> bool) \<Rightarrow> bool" where
  "runs c Q \<longleftrightarrow> (\<exists>r. c = Some r \<and> Q r)"

lemma runs_Some [wp, simp]: "runs (Some r) Q \<longleftrightarrow> Q r"
  by (simp add: runs_def)

lemma runs_None [wp, simp]: "\<not> runs None Q"
  by (simp add: runs_def)

lemma runs_bind [wp, simp]: "runs (Option.bind c f) Q \<longleftrightarrow> runs c (\<lambda>x. runs (f x) Q)"
  by (auto simp: runs_def bind_eq_Some_conv)

lemma runs_if [wp]: "runs (if b then c else d) Q \<longleftrightarrow> (b \<longrightarrow> runs c Q) \<and> (\<not> b \<longrightarrow> runs d Q)"
  by simp

lemma runs_ifI: "(b \<Longrightarrow> runs c Q) \<Longrightarrow> (\<not> b \<Longrightarrow> runs d Q) \<Longrightarrow> runs (if b then c else d) Q"
  by simp

lemma runs_prod [wp, simp]: "runs (case_prod f x) Q \<longleftrightarrow> (case x of (a, b) \<Rightarrow> runs (f a b) Q)"
  by (cases x) simp

lemma runs_flow [wp, simp]:
  "runs (case_flow f g x) Q \<longleftrightarrow> (case x of Next s \<Rightarrow> runs (f s) Q | Return r \<Rightarrow> runs (g r) Q)"
  by (cases x) simp_all

lemma runs_and_then [wp, simp]:
  "runs (and_then c f) Q \<longleftrightarrow>
     runs c (\<lambda>x. case x of Next s \<Rightarrow> runs (f s) Q | Return r \<Rightarrow> Q (Return r))"
  by (auto simp: and_then_def runs_def split: option.splits flow.splits)

lemma runs_then_return [wp, simp]:
  "runs (then_return c f) Q \<longleftrightarrow>
     runs c (\<lambda>x. case x of Next s \<Rightarrow> runs (f s) Q | Return r \<Rightarrow> Q r)"
  by (auto simp: then_return_def runs_def split: option.splits flow.splits)

lemma runs_map_option [wp, simp]: "runs (map_option f c) Q \<longleftrightarrow> runs c (\<lambda>r. Q (f r))"
  by (cases c) simp_all

lemma runs_weaken: "runs c Q \<Longrightarrow> (\<And>r. Q r \<Longrightarrow> Q' r) \<Longrightarrow> runs c Q'"
  by (auto simp: runs_def)

lemma runs_conj: "runs c Q \<Longrightarrow> runs c Q' \<Longrightarrow> runs c (\<lambda>r. Q r \<and> Q' r)"
  by (auto simp: runs_def)

lemma runs_total: "runs c Q \<Longrightarrow> \<exists>r. c = Some r"
  by (auto simp: runs_def)

lemma runs_result: "runs c Q \<Longrightarrow> c = Some r \<Longrightarrow> Q r"
  by (auto simp: runs_def)

lemma runs_pairD: "runs c (\<lambda>(b, l). Q b l) \<Longrightarrow> \<exists>b l. c = Some (b, l) \<and> Q b l"
  by (auto simp: runs_def)

lemma runs_tripleD: "runs c (\<lambda>(b, s, l). Q b s l) \<Longrightarrow> \<exists>b s l. c = Some (b, s, l) \<and> Q b s l"
  by (auto simp: runs_def)

text \<open>
  Sequencing with an invariant \<open>I\<close> on the way and a postcondition \<open>Q\<close> for every
  \<^verbatim>\<open>return\<close>: one obligation per block, however many there are.
\<close>

lemma runs_and_then_inv:
  assumes "runs c (case_flow I Q)" and "\<And>s. I s \<Longrightarrow> runs (f s) (case_flow J Q)"
  shows "runs (and_then c f) (case_flow J Q)"
  using assms by (auto elim!: runs_weaken split: flow.splits)

lemma runs_then_return_inv:
  assumes "runs c (case_flow I Q)" and "\<And>s. I s \<Longrightarrow> runs (f s) Q"
  shows "runs (then_return c f) Q"
  using assms by (auto elim!: runs_weaken split: flow.splits)

lemma runs_c_loop_unfold: "runs (c_loop body x) Q \<longleftrightarrow> runs (body x) (case_flow (\<lambda>y. runs (c_loop body y) Q) Q)"
  by (subst c_loop.simps) (simp add: runs_def split: option.splits flow.splits)

lemma runs_c_loop:
  fixes m :: "'s \<Rightarrow> nat"
  assumes inv: "I s"
    and body: "\<And>s. I s \<Longrightarrow>
      runs (body s) (\<lambda>x. case x of Next s' \<Rightarrow> I s' \<and> m s' < m s | Return r \<Rightarrow> Q r)"
  shows "runs (c_loop body s) Q"
  using inv
proof (induction s rule: measure_induct_rule [of m])
  case (less s)
  from body [OF less.prems] obtain x where x: "body s = Some x"
    and post: "case x of Next s' \<Rightarrow> I s' \<and> m s' < m s | Return r \<Rightarrow> Q r"
    by (auto simp: runs_def)
  show ?case
    using x post less.IH by (cases x) (simp_all add: c_loop.simps [of body s])
qed

lemma runs_while_option:
  fixes m :: "'s \<Rightarrow> nat"
  assumes inv: "I s"
    and step: "\<And>s. I s \<Longrightarrow> b s \<Longrightarrow> I (c s) \<and> m (c s) < m s"
    and stop: "\<And>s. I s \<Longrightarrow> \<not> b s \<Longrightarrow> Q s"
  shows "runs (while_option b c s) Q"
proof -
  from measure_while_option_Some [of I b c m s] inv step
  obtain t where t: "while_option b c s = Some t" by blast
  have "I t"
    by (rule while_option_rule [OF _ t]) (use inv step in auto)
  moreover have "\<not> b t" by (rule while_option_stop [OF t])
  ultimately show ?thesis using t stop by (simp add: runs_def)
qed

section \<open>Lists\<close>

declare dropWhile_eq_Nil_conv [simp del]

lemma length_dropWhile_le_simp [simp]: "length (dropWhile p xs) \<le> length xs"
  by (rule length_dropWhile_le)

lemma length_dropWhile_less_Suc [simp]: "length (dropWhile p xs) < Suc (length xs)"
  by (simp add: less_Suc_eq_le)

lemma length_dropWhile_tl [simp]:
  "length (dropWhile p (tl xs)) \<le> length xs" "length (dropWhile p (tl xs)) - n \<le> length xs"
proof -
  show "length (dropWhile p (tl xs)) \<le> length xs"
    using length_dropWhile_le [of p "tl xs"] by simp
  then show "length (dropWhile p (tl xs)) - n \<le> length xs" by simp
qed

lemma length_tl_less [simp]: "tl xs \<noteq> [] \<Longrightarrow> length xs - Suc 0 < length xs"
  by (cases xs) simp_all

lemma length_dropWhile_tl_less: "xs \<noteq> [] \<Longrightarrow> length (dropWhile p (tl xs)) < length xs"
  using length_dropWhile_le [of p "tl xs"] by (cases xs) simp_all

section \<open>Counters\<close>

text \<open>Counters are words of the width of the source; below the wrap-around they count.\<close>

lemma unat_pred: "0 < unat d \<Longrightarrow> unat (d - 1) = unat d - 1" for d :: "'a :: len word"
  by (metis unat_minus_one unat_0 less_irrefl)

lemma unat_succ: "Suc (unat d) < 2 ^ LENGTH('a) \<Longrightarrow> unat (d + 1) = Suc (unat d)" for d :: "'a :: len word"
  by (simp add: unat_word_ariths)

lemma word_eq_1_iff: "d = 1 \<longleftrightarrow> unat d = 1" for d :: "'a :: len word"
  by (metis unat_1 word_unat_eq_iff)

end
