(* ===== verification/TS_Lexer.thy ===== *)
theory TS_Lexer
  imports TS_Prelude
begin

text \<open>
  The interface between an external scanner and the tree-sitter runtime: the C struct
  \<^verbatim>\<open>TSLexer\<close> of \<^verbatim>\<open>tree_sitter/parser.h\<close>, and the wide-character functions
  of \<^verbatim>\<open>wctype.h\<close> the scanners call.

  The runtime that implements the callbacks of the struct is not part of the
  repository. It is a parameter: a value of the record \<open>env\<close> holds the callbacks over
  an unknown lexer state \<open>'l\<close>. What the tree-sitter documentation promises of them is
  the locale \<open>ts_lexer\<close>: there is a view \<open>rest\<close> of the lexer state, the code points
  that are still to be read, such that the lookahead is its first element (0 when there
  is none), \<open>eof\<close> holds exactly when it is empty, and \<open>advance\<close> drops its first
  element whether or not the character is skipped. The locale \<open>ts_lexer_marks\<close> adds
  the documented meaning of \<open>mark_end\<close>: it records the current position as the end of
  the token. The lexer over a list of code points at the end of the theory satisfies
  both.

  The classification of characters of the C library is fixed on ASCII and depends on the
  implementation beyond it; that part is a parameter too (the fields \<open>wide_*\<close>).
\<close>

section \<open>The interface\<close>

record 'l env =
  lexer_lookahead :: "'l \<Rightarrow> int"
  lexer_advance :: "bool \<Rightarrow> 'l \<Rightarrow> 'l"
  lexer_mark_end :: "'l \<Rightarrow> 'l"
  lexer_get_column :: "'l \<Rightarrow> nat"
  lexer_at_range_start :: "'l \<Rightarrow> bool"
  lexer_eof :: "'l \<Rightarrow> bool"
  wide_space :: "int \<Rightarrow> bool"
  wide_alpha :: "int \<Rightarrow> bool"
  wide_digit :: "int \<Rightarrow> bool"
  wide_upper :: "int \<Rightarrow> int"
  wide_is_upper :: "int \<Rightarrow> bool"
  wide_is_lower :: "int \<Rightarrow> bool"

text \<open>
  The struct a scanner gets: the state behind the callbacks and the field the scanner
  writes. A token type \<open>'t\<close> stands for the enumeration each grammar numbers its
  external tokens with; the array \<^verbatim>\<open>valid_symbols\<close> indexed by it is a function
  \<open>'t \<Rightarrow> bool\<close>.
\<close>

record ('l, 't) TSLexer =
  raw :: 'l
  result_symbol :: 't

definition lookahead :: "'l env \<Rightarrow> ('l, 't) TSLexer \<Rightarrow> int" where
  "lookahead E l = lexer_lookahead E (raw l)"

definition eof :: "'l env \<Rightarrow> ('l, 't) TSLexer \<Rightarrow> bool" where
  "eof E l = lexer_eof E (raw l)"

definition get_column :: "'l env \<Rightarrow> ('l, 't) TSLexer \<Rightarrow> nat" where
  "get_column E l = lexer_get_column E (raw l)"

definition is_at_included_range_start :: "'l env \<Rightarrow> ('l, 't) TSLexer \<Rightarrow> bool" where
  "is_at_included_range_start E l = lexer_at_range_start E (raw l)"

definition advance :: "'l env \<Rightarrow> ('l, 't) TSLexer \<Rightarrow> ('l, 't) TSLexer" where
  "advance E l = l\<lparr>raw := lexer_advance E False (raw l)\<rparr>"

definition skip :: "'l env \<Rightarrow> ('l, 't) TSLexer \<Rightarrow> ('l, 't) TSLexer" where
  "skip E l = l\<lparr>raw := lexer_advance E True (raw l)\<rparr>"

definition mark_end :: "'l env \<Rightarrow> ('l, 't) TSLexer \<Rightarrow> ('l, 't) TSLexer" where
  "mark_end E l = l\<lparr>raw := lexer_mark_end E (raw l)\<rparr>"

abbreviation set_symbol :: "'t \<Rightarrow> ('l, 't) TSLexer \<Rightarrow> ('l, 't) TSLexer" where
  "set_symbol t l \<equiv> l\<lparr>result_symbol := t\<rparr>"

text \<open>The two loops every scanner has: advance, or skip, while a condition on the lookahead holds.\<close>

definition advance_while :: "'l env \<Rightarrow> (int \<Rightarrow> bool) \<Rightarrow> ('l, 't) TSLexer \<Rightarrow> ('l, 't) TSLexer option" where
  "advance_while E p l = while_option (\<lambda>l. p (lookahead E l)) (advance E) l"

definition skip_while :: "'l env \<Rightarrow> (int \<Rightarrow> bool) \<Rightarrow> ('l, 't) TSLexer \<Rightarrow> ('l, 't) TSLexer option" where
  "skip_while E p l = while_option (\<lambda>l. p (lookahead E l)) (skip E) l"

lemma advance_while_stop: "\<not> p (lookahead E l) \<Longrightarrow> advance_while E p l = Some l"
  unfolding advance_while_def by (subst while_option_unfold) simp

section \<open>Characters\<close>

text \<open>
  A character constant of the source is its code: \<open>ch c\<close> is the value of the literal.
\<close>

abbreviation ch :: "char \<Rightarrow> int" where
  "ch c \<equiv> of_char c"

definition iswspace :: "'l env \<Rightarrow> int \<Rightarrow> bool" where
  "iswspace E c =
     (if c < 0 then False
      else if c < 128 then c = 32 \<or> 9 \<le> c \<and> c \<le> 13
      else wide_space E c)"

definition iswdigit :: "'l env \<Rightarrow> int \<Rightarrow> bool" where
  "iswdigit E c =
     (if c < 0 then False
      else if c < 128 then 48 \<le> c \<and> c \<le> 57
      else wide_digit E c)"

definition iswalpha :: "'l env \<Rightarrow> int \<Rightarrow> bool" where
  "iswalpha E c =
     (if c < 0 then False
      else if c < 128 then 65 \<le> c \<and> c \<le> 90 \<or> 97 \<le> c \<and> c \<le> 122
      else wide_alpha E c)"

definition iswalnum :: "'l env \<Rightarrow> int \<Rightarrow> bool" where
  "iswalnum E c \<longleftrightarrow> iswalpha E c \<or> iswdigit E c"

definition iswxdigit :: "'l env \<Rightarrow> int \<Rightarrow> bool" where
  "iswxdigit E c \<longleftrightarrow>
     48 \<le> c \<and> c \<le> 57 \<or> 65 \<le> c \<and> c \<le> 70 \<or> 97 \<le> c \<and> c \<le> 102"

definition iswupper :: "'l env \<Rightarrow> int \<Rightarrow> bool" where
  "iswupper E c =
     (if c < 0 then False
      else if c < 128 then 65 \<le> c \<and> c \<le> 90
      else wide_is_upper E c)"

definition iswlower :: "'l env \<Rightarrow> int \<Rightarrow> bool" where
  "iswlower E c =
     (if c < 0 then False
      else if c < 128 then 97 \<le> c \<and> c \<le> 122
      else wide_is_lower E c)"

definition towupper :: "'l env \<Rightarrow> int \<Rightarrow> int" where
  "towupper E c =
     (if c < 0 then c
      else if c < 128 then (if 97 \<le> c \<and> c \<le> 122 then c - 32 else c)
      else wide_upper E c)"

lemma iswspace_ascii [wctype_simps]:
  "0 \<le> c \<Longrightarrow> c < 128 \<Longrightarrow> iswspace E c \<longleftrightarrow> c = 32 \<or> 9 \<le> c \<and> c \<le> 13"
  by (simp add: iswspace_def)

lemma iswclass_0 [simp]:
  "\<not> iswspace E 0" "\<not> iswdigit E 0" "\<not> iswalpha E 0" "\<not> iswalnum E 0" "\<not> iswxdigit E 0"
  "\<not> iswupper E 0" "\<not> iswlower E 0"
  by (simp_all add: iswspace_def iswdigit_def iswalpha_def iswalnum_def iswxdigit_def iswupper_def iswlower_def)

section \<open>What the documentation promises\<close>

locale ts_lexer =
  fixes E :: "'l env"
    and rest :: "'l \<Rightarrow> int list"
  assumes lookahead_rest: "lexer_lookahead E r = (case rest r of [] \<Rightarrow> 0 | c # _ \<Rightarrow> c)"
    and eof_rest: "lexer_eof E r \<longleftrightarrow> rest r = []"
    and rest_advance: "rest (lexer_advance E b r) = tl (rest r)"
    and rest_mark_end: "rest (lexer_mark_end E r) = rest r"
begin

abbreviation remaining :: "('l, 't) TSLexer \<Rightarrow> nat" where
  "remaining l \<equiv> length (rest (raw l))"

lemma rest_ops [simp]:
  "rest (raw (advance E l)) = tl (rest (raw l))"
  "rest (raw (skip E l)) = tl (rest (raw l))"
  "rest (raw (mark_end E l)) = rest (raw l)"
  by (simp_all add: advance_def skip_def mark_end_def rest_advance rest_mark_end)

lemma lookahead_view: "lookahead E l = (case rest (raw l) of [] \<Rightarrow> 0 | c # _ \<Rightarrow> c)"
  by (simp add: lookahead_def lookahead_rest)

lemma lookahead_Cons [simp]: "rest (raw l) = c # cs \<Longrightarrow> lookahead E l = c"
  by (simp add: lookahead_view)

lemma lookahead_Nil [simp]: "rest (raw l) = [] \<Longrightarrow> lookahead E l = 0"
  by (simp add: lookahead_view)

lemma lookahead_set [simp]: "lookahead E (l\<lparr>result_symbol := t\<rparr>) = lookahead E l"
  by (simp add: lookahead_def)

lemma lookahead_mark_end [simp]: "lookahead E (mark_end E l) = lookahead E l"
  by (simp add: lookahead_view)

lemma eof_view [simp]: "eof E l \<longleftrightarrow> rest (raw l) = []"
  by (simp add: eof_def eof_rest)

lemma not_eof: "lookahead E l \<noteq> 0 \<Longrightarrow> rest (raw l) \<noteq> []"
  by auto

lemma remaining_pos: "lookahead E l \<noteq> 0 \<Longrightarrow> 0 < remaining l"
  by (rule length_greater_0_conv [THEN iffD2, OF not_eof])

lemma lookahead_less [simp]: "lookahead E l \<noteq> 0 \<Longrightarrow> remaining l - Suc n < remaining l"
  using remaining_pos [of l] by linarith

lemma iswspace_less [simp]: "iswspace E (lookahead E l) \<Longrightarrow> remaining l - Suc 0 < remaining l"
proof -
  assume "iswspace E (lookahead E l)"
  then have "lookahead E l \<noteq> 0" by (metis iswclass_0(1))
  then have "0 < remaining l" by (rule remaining_pos)
  then show ?thesis by linarith
qed

lemma lookahead_rest_Cons: "lookahead E l \<noteq> 0 \<Longrightarrow> \<exists>cs. rest (raw l) = lookahead E l # cs"
  by (cases "rest (raw l)") simp_all

lemma symbol_ops [simp]:
  "result_symbol (advance E l) = result_symbol l"
  "result_symbol (skip E l) = result_symbol l"
  "result_symbol (mark_end E l) = result_symbol l"
  by (simp_all add: advance_def skip_def mark_end_def)

text \<open>A loop over the lookahead stops when its condition rejects the end of the input.\<close>

lemma runs_lookahead_while:
  fixes l :: "('l, 't) TSLexer"
  assumes p0: "\<not> p 0"
    and st: "\<And>l. rest (raw (st l)) = tl (rest (raw l))" "\<And>l. result_symbol (st l) = result_symbol l"
  shows "runs (while_option (\<lambda>l. p (lookahead E l)) st l)
           (\<lambda>l'. rest (raw l') = dropWhile p (rest (raw l)) \<and> \<not> p (lookahead E l')
              \<and> result_symbol l' = result_symbol l)"
proof (rule runs_while_option [where m = remaining
      and I = "\<lambda>l'. dropWhile p (rest (raw l')) = dropWhile p (rest (raw l))
                \<and> result_symbol l' = result_symbol l"])
  fix s :: "('l, 't) TSLexer"
  assume I: "dropWhile p (rest (raw s)) = dropWhile p (rest (raw l)) \<and> result_symbol s = result_symbol l"
    and c: "p (lookahead E s)"
  from c p0 obtain x xs where "rest (raw s) = x # xs" "p x"
    by (cases "rest (raw s)") simp_all
  with I show "(dropWhile p (rest (raw (st s))) = dropWhile p (rest (raw l))
      \<and> result_symbol (st s) = result_symbol l) \<and> remaining (st s) < remaining s"
    by (simp add: st)
next
  fix s :: "('l, 't) TSLexer"
  assume I: "dropWhile p (rest (raw s)) = dropWhile p (rest (raw l)) \<and> result_symbol s = result_symbol l"
    and c: "\<not> p (lookahead E s)"
  from c have "dropWhile p (rest (raw s)) = rest (raw s)"
    by (cases "rest (raw s)") simp_all
  with I c show "rest (raw s) = dropWhile p (rest (raw l)) \<and> \<not> p (lookahead E s)
      \<and> result_symbol s = result_symbol l" by simp
qed simp

lemma length_dropWhile_less:
  "\<not> p 0 \<Longrightarrow> p (lookahead E l) \<Longrightarrow> length (dropWhile p (rest (raw l))) < remaining l"
  by (cases "rest (raw l)") (simp_all add: le_imp_less_Suc)

text \<open>Rules for using the two loops inside a larger function.\<close>

lemma wp_advance_while:
  assumes "\<not> p 0"
    and "\<And>l'. dropWhile p (rest (raw l)) = rest (raw l') \<Longrightarrow> remaining l' \<le> remaining l \<Longrightarrow>
           (p (lookahead E l) \<Longrightarrow> remaining l' < remaining l) \<Longrightarrow> \<not> p (lookahead E l') \<Longrightarrow>
           result_symbol l' = result_symbol l \<Longrightarrow> Q l'"
  shows "runs (advance_while E p l) Q"
  unfolding advance_while_def
  by (rule runs_weaken [OF runs_lookahead_while [where p = p]])
    (use assms length_dropWhile_less in \<open>auto intro!: assms(2)\<close>)

lemma wp_skip_while:
  assumes "\<not> p 0"
    and "\<And>l'. dropWhile p (rest (raw l)) = rest (raw l') \<Longrightarrow> remaining l' \<le> remaining l \<Longrightarrow>
           (p (lookahead E l) \<Longrightarrow> remaining l' < remaining l) \<Longrightarrow> \<not> p (lookahead E l') \<Longrightarrow>
           result_symbol l' = result_symbol l \<Longrightarrow> Q l'"
  shows "runs (skip_while E p l) Q"
  unfolding skip_while_def
  by (rule runs_weaken [OF runs_lookahead_while [where p = p]])
    (use assms length_dropWhile_less in \<open>auto intro!: assms(2)\<close>)

text \<open>The same, where only the progress matters.\<close>

lemma wp_while_le:
  assumes "\<not> p 0"
    and "\<And>l'. remaining l' \<le> remaining l \<Longrightarrow> result_symbol l' = result_symbol l \<Longrightarrow> Q l'"
  shows "runs (advance_while E p l) Q" and "runs (skip_while E p l) Q"
  by (rule wp_advance_while wp_skip_while; use assms in simp)+

end

text \<open>
  Token extents. \<open>pos\<close> counts the characters read so far, \<open>token_end\<close> is the position
  the last \<open>mark_end\<close> recorded.
\<close>

locale ts_lexer_marks = ts_lexer +
  fixes pos :: "'a \<Rightarrow> nat"
    and token_end :: "'a \<Rightarrow> nat"
  assumes pos_advance: "rest r \<noteq> [] \<Longrightarrow> pos (lexer_advance E b r) = Suc (pos r)"
    and pos_eof: "rest r = [] \<Longrightarrow> pos (lexer_advance E b r) = pos r"
    and pos_mark_end: "pos (lexer_mark_end E r) = pos r"
    and token_end_advance: "token_end (lexer_advance E b r) = token_end r"
    and token_end_mark_end: "token_end (lexer_mark_end E r) = pos r"
begin

lemma pos_ops [simp]:
  "rest (raw l) \<noteq> [] \<Longrightarrow> pos (raw (advance E l)) = Suc (pos (raw l))"
  "rest (raw l) \<noteq> [] \<Longrightarrow> pos (raw (skip E l)) = Suc (pos (raw l))"
  "pos (raw (mark_end E l)) = pos (raw l)"
  "token_end (raw (advance E l)) = token_end (raw l)"
  "token_end (raw (skip E l)) = token_end (raw l)"
  "token_end (raw (mark_end E l)) = pos (raw l)"
  by (simp_all add: advance_def skip_def mark_end_def pos_advance pos_mark_end
      token_end_advance token_end_mark_end)

lemma advance_while_token_end:
  assumes "advance_while E p l = Some l'"
  shows "token_end (raw l') = token_end (raw l)"
  using while_option_rule [where P = "\<lambda>l'. token_end (raw l') = token_end (raw l)", OF _ assms [unfolded advance_while_def]]
  by simp

text \<open>Skipping blanks moves the position over them and leaves the end of the token.\<close>

lemma wp_skip_while_marks:
  assumes "\<not> p 0"
    and "\<And>l'. rest (raw l') = dropWhile p (rest (raw l)) \<Longrightarrow> pos (raw l') = pos (raw l) + length (takeWhile p (rest (raw l))) \<Longrightarrow>
           token_end (raw l') = token_end (raw l) \<Longrightarrow> result_symbol l' = result_symbol l \<Longrightarrow> Q l'"
  shows "runs (skip_while E p l) Q"
  unfolding skip_while_def
proof (rule runs_while_option [where m = remaining and I = "\<lambda>l'. \<exists>xs. rest (raw l) = xs @ rest (raw l') \<and> list_all p xs
      \<and> pos (raw l') = pos (raw l) + length xs \<and> token_end (raw l') = token_end (raw l) \<and> result_symbol l' = result_symbol l"], goal_cases)
  case (2 l')
  then obtain xs where xs: "rest (raw l) = xs @ rest (raw l')" "list_all p xs" "pos (raw l') = pos (raw l) + length xs"
    "token_end (raw l') = token_end (raw l)" "result_symbol l' = result_symbol l" "p (lookahead E l')" by auto
  with assms(1) obtain c cs where c: "rest (raw l') = c # cs" by (cases "rest (raw l')") (auto simp: lookahead_view)
  with xs show ?case by (auto intro!: exI [of _ "xs @ [c]"])
next
  case (3 l')
  then obtain xs where xs: "rest (raw l) = xs @ rest (raw l')" "list_all p xs" "pos (raw l') = pos (raw l) + length xs"
    "token_end (raw l') = token_end (raw l)" "result_symbol l' = result_symbol l" "\<not> p (lookahead E l')" by auto
  then have "takeWhile p (rest (raw l')) = []" "dropWhile p (rest (raw l')) = rest (raw l')"
    by (cases "rest (raw l')"; simp)+
  with xs have "takeWhile p (rest (raw l)) = xs" "dropWhile p (rest (raw l)) = rest (raw l')"
    by (simp_all add: takeWhile_append2 dropWhile_append2 list_all_iff)
  with xs show ?case by (intro assms(2)) simp_all
qed auto

text \<open>What is read and what is left add up.\<close>

lemma pos_remaining [simp]:
  "pos (raw (advance E l)) + (remaining l - Suc 0) = pos (raw l) + remaining l"
  "pos (raw (skip E l)) + (remaining l - Suc 0) = pos (raw l) + remaining l"
  by (cases "rest (raw l)"; simp add: advance_def skip_def pos_eof pos_advance)+

end

section \<open>A lexer over a list of code points\<close>

record list_lexer =
  ll_rest :: "int list"
  ll_pos :: nat
  ll_column :: nat
  ll_end :: nat

definition list_lexer_advance :: "bool \<Rightarrow> list_lexer \<Rightarrow> list_lexer" where
  "list_lexer_advance skipped r =
     (case ll_rest r of
        [] \<Rightarrow> r
      | c # cs \<Rightarrow> r\<lparr>ll_rest := cs, ll_pos := Suc (ll_pos r),
                   ll_column := (if c = 10 then 0 else Suc (ll_column r))\<rparr>)"

definition list_env :: "list_lexer env" where
  "list_env =
     \<lparr>lexer_lookahead = (\<lambda>r. case ll_rest r of [] \<Rightarrow> 0 | c # _ \<Rightarrow> c),
      lexer_advance = list_lexer_advance,
      lexer_mark_end = (\<lambda>r. r\<lparr>ll_end := ll_pos r\<rparr>),
      lexer_get_column = ll_column,
      lexer_at_range_start = (\<lambda>r. False),
      lexer_eof = (\<lambda>r. ll_rest r = []),
      wide_space = (\<lambda>c. False),
      wide_alpha = (\<lambda>c. False),
      wide_digit = (\<lambda>c. False),
      wide_upper = (\<lambda>c. c),
      wide_is_upper = (\<lambda>c. False),
      wide_is_lower = (\<lambda>c. False)\<rparr>"

definition lex_string :: "'t \<Rightarrow> string \<Rightarrow> (list_lexer, 't) TSLexer" where
  "lex_string t s =
     \<lparr>raw = \<lparr>ll_rest = map of_char s, ll_pos = 0, ll_column = 0, ll_end = 0\<rparr>, result_symbol = t\<rparr>"

interpretation list_lexer: ts_lexer_marks list_env ll_rest ll_pos ll_end
  by unfold_locales
    (auto simp: list_env_def list_lexer_advance_def split: list.splits)

lemma ts_lexer_list_env: "ts_lexer list_env ll_rest"
  by (rule list_lexer.ts_lexer_axioms)

end
