(* ===== verification/Toml_Scanner.thy ===== *)
theory Toml_Scanner
  imports TS_Lexer
begin

text \<open>
  The TOML scanner, \<^verbatim>\<open>toml/src/scanner.c\<close>: the ends of multi-line strings and the
  line endings. It keeps no state. Shown here: the scan always returns; which token a
  run of \<open>n\<close> quotes gives, and how much of the run it covers; when a line ending is
  reported.
\<close>

datatype toml_token =
    LINE_ENDING_OR_EOF
  | MULTILINE_BASIC_STRING_CONTENT
  | MULTILINE_BASIC_STRING_END
  | MULTILINE_LITERAL_STRING_CONTENT
  | MULTILINE_LITERAL_STRING_END

type_synonym 'l toml_lexer = "('l, toml_token) TSLexer"

section \<open>Operations\<close>

definition toml_scan_multiline_string_end ::
  "'l env \<Rightarrow> (toml_token \<Rightarrow> bool) \<Rightarrow> int \<Rightarrow> toml_token \<Rightarrow> toml_token \<Rightarrow> 'l toml_lexer \<Rightarrow> bool \<times> 'l toml_lexer" where
  "toml_scan_multiline_string_end E valid_symbols delimiter content_symbol end_symbol l =
     (if \<not> valid_symbols end_symbol \<or> lookahead E l \<noteq> delimiter then (False, l)
      else
        let l = mark_end E (advance E l) in
        if lookahead E l \<noteq> delimiter then (True, set_symbol content_symbol l)
        else
          let l = advance E l in
          if lookahead E l \<noteq> delimiter then (True, set_symbol content_symbol (mark_end E l))
          else
            let l = advance E l in
            if lookahead E l \<noteq> delimiter then (True, set_symbol end_symbol (mark_end E l))
            else (True, set_symbol content_symbol l))"

definition toml_scan_line_ending :: "'l env \<Rightarrow> 'l toml_lexer \<Rightarrow> (bool \<times> 'l toml_lexer) option" where
  "toml_scan_line_ending E l =
     do { l \<leftarrow> skip_while E (\<lambda>c. c = ch CHR '' '' \<or> c = ch CHR 0x09) (set_symbol LINE_ENDING_OR_EOF l);
          if lookahead E l = 0 \<or> lookahead E l = ch CHR 0x0A then Some (True, l)
          else if lookahead E l = ch CHR 0x0D then
            let l = skip E l in
            Some (lookahead E l = ch CHR 0x0A, l)
          else Some (False, l) }"

definition toml_scan :: "'l env \<Rightarrow> (toml_token \<Rightarrow> bool) \<Rightarrow> 'l toml_lexer \<Rightarrow> (bool \<times> 'l toml_lexer) option" where
  "toml_scan E valid_symbols l =
     (case toml_scan_multiline_string_end E valid_symbols (ch CHR 0x22)
             MULTILINE_BASIC_STRING_CONTENT MULTILINE_BASIC_STRING_END l of
        (True, l) \<Rightarrow> Some (True, l)
      | (False, l) \<Rightarrow>
          (case toml_scan_multiline_string_end E valid_symbols (ch CHR 0x27)
                  MULTILINE_LITERAL_STRING_CONTENT MULTILINE_LITERAL_STRING_END l of
             (True, l) \<Rightarrow> Some (True, l)
           | (False, l) \<Rightarrow>
               (if valid_symbols LINE_ENDING_OR_EOF then toml_scan_line_ending E l
                else Some (False, l))))"

section \<open>Properties\<close>

text \<open>
  The token at a run of delimiters. The closing delimiter is the last three quotes of a
  run: one or two quotes are content, exactly three end the string, and of a longer run
  the first quote is content, so that the next call sees a shorter run.
\<close>

definition toml_quote_token :: "nat \<Rightarrow> toml_token \<Rightarrow> toml_token \<Rightarrow> (toml_token \<times> nat)" where
  "toml_quote_token n content_symbol end_symbol =
     (if n = 3 then (end_symbol, 3)
      else if n = 2 then (content_symbol, 2)
      else (content_symbol, 1))"

fun toml_at_line_end :: "int list \<Rightarrow> bool" where
  "toml_at_line_end [] = True"
| "toml_at_line_end [c] = (c = 0 \<or> c = 10)"
| "toml_at_line_end (c # d # _) = (c = 0 \<or> c = 10 \<or> c = 13 \<and> d = 10)"

text \<open>The tokens a call may report: a content token is reported where the string may end.\<close>

fun toml_may_report :: "(toml_token \<Rightarrow> bool) \<Rightarrow> toml_token \<Rightarrow> bool" where
  "toml_may_report v LINE_ENDING_OR_EOF = v LINE_ENDING_OR_EOF"
| "toml_may_report v MULTILINE_BASIC_STRING_CONTENT = v MULTILINE_BASIC_STRING_END"
| "toml_may_report v MULTILINE_BASIC_STRING_END = v MULTILINE_BASIC_STRING_END"
| "toml_may_report v MULTILINE_LITERAL_STRING_CONTENT = v MULTILINE_LITERAL_STRING_END"
| "toml_may_report v MULTILINE_LITERAL_STRING_END = v MULTILINE_LITERAL_STRING_END"

context ts_lexer
begin

lemma toml_scan_multiline_string_end_False:
  "toml_scan_multiline_string_end E v d cs es l = (False, l') \<Longrightarrow> l' = l"
  by (auto simp: toml_scan_multiline_string_end_def Let_def split: if_splits)

lemma runs_toml_scan_line_ending:
  "runs (toml_scan_line_ending E l) (\<lambda>(b, l'). result_symbol l' = LINE_ENDING_OR_EOF
     \<and> (b \<longleftrightarrow> toml_at_line_end (dropWhile (\<lambda>c. c = 32 \<or> c = 9) (rest (raw l)))))"
  unfolding toml_scan_line_ending_def
  apply (simp add: wp)
  apply (rule wp_skip_while)
   apply simp
  subgoal for l'
    by (cases "rest (raw l')" rule: toml_at_line_end.cases) (auto simp: Let_def lookahead_view simp del: dropWhile_eq_Nil_conv)
  done

lemma toml_multiline_symbol:
  "toml_scan_multiline_string_end E v d cs es l = (True, l') \<Longrightarrow>
     v es \<and> (result_symbol l' = cs \<or> result_symbol l' = es)"
  by (auto simp: toml_scan_multiline_string_end_def Let_def split: if_splits)

lemma runs_toml_scan:
  "runs (toml_scan E v l) (\<lambda>(b, l'). b \<longrightarrow> toml_may_report v (result_symbol l'))"
  by (auto simp: toml_scan_def dest!: toml_multiline_symbol
      intro!: runs_weaken [OF runs_toml_scan_line_ending] split: prod.splits bool.splits)

end

context ts_lexer_marks
begin

lemma toml_quote_run:
  assumes "v es" and "d \<noteq> 0" and "0 < length (takeWhile (\<lambda>c. c = d) (rest (raw l)))"
  shows "\<exists>l'. toml_scan_multiline_string_end E v d cs es l = (True, l')
           \<and> (result_symbol l', token_end (raw l') - pos (raw l))
             = toml_quote_token (length (takeWhile (\<lambda>c. c = d) (rest (raw l)))) cs es"
proof -
  from assms(3) obtain r1 where r: "rest (raw l) = d # r1"
    by (cases "rest (raw l)") (auto split: if_splits)
  have "takeWhile (\<lambda>c. c = d) r1 = [] \<or>
      (\<exists>r2. r1 = d # r2 \<and> takeWhile (\<lambda>c. c = d) r2 = []) \<or>
      (\<exists>r3. r1 = d # d # r3 \<and> takeWhile (\<lambda>c. c = d) r3 = []) \<or>
      (\<exists>r4. r1 = d # d # d # r4)"
    by (cases r1; cases "tl r1"; cases "tl (tl r1)") auto
  then show ?thesis
    using r assms(1,2)
    by (elim disjE exE)
      (auto simp: toml_scan_multiline_string_end_def toml_quote_token_def Let_def lookahead_view
        split: list.splits if_splits)
qed

end

text \<open>
  Whatever the input, the TOML scan returns, and a token it reports is one the parser
  asked for (the content of a multi-line string where its end was asked for).\<close>

lemma toml_scan_returns:
  assumes "ts_lexer E rest"
  shows "\<exists>b l'. toml_scan E v l = Some (b, l') \<and> (b \<longrightarrow> toml_may_report v (result_symbol l'))"
  using ts_lexer.runs_toml_scan [OF assms] by (rule runs_pairD)

text \<open>The token at a run of \<open>n\<close> quotes inside a multi-line string: the string ends exactly at
  a run of three, otherwise the scanner reports content that covers both quotes of a run
  of two and the first quote of any other run.\<close>

lemma toml_string_end_at_three_quotes:
  assumes "ts_lexer_marks E rest pos token_end" and "v es" and "d \<noteq> 0"
    and "0 < length (takeWhile (\<lambda>c. c = d) (rest (raw l)))"
  shows "\<exists>l'. toml_scan_multiline_string_end E v d cs es l = (True, l')
           \<and> (result_symbol l', token_end (raw l') - pos (raw l))
             = toml_quote_token (length (takeWhile (\<lambda>c. c = d) (rest (raw l)))) cs es"
  using assms(2-4) by (rule ts_lexer_marks.toml_quote_run [OF assms(1)])

text \<open>Where only a line ending may come, the scan reports one exactly when the rest of the input,
  after blanks, is at its end, at a line feed or at a carriage return and a line feed.\<close>

lemma toml_line_ending_iff:
  assumes "ts_lexer E rest" and "\<And>t. v t \<longleftrightarrow> t = LINE_ENDING_OR_EOF"
  shows "\<exists>l'. toml_scan E v l =
     Some (toml_at_line_end (dropWhile (\<lambda>c. c = 32 \<or> c = 9) (rest (raw l))), l')
       \<and> result_symbol l' = LINE_ENDING_OR_EOF"
proof -
  have "toml_scan E v l = toml_scan_line_ending E l"
    by (simp add: toml_scan_def toml_scan_multiline_string_end_def assms(2))
  with runs_pairD [OF ts_lexer.runs_toml_scan_line_ending [OF assms(1)], of l] show ?thesis
    by auto
qed

end
