(* ===== verification/Css_Scanner.thy ===== *)
theory Css_Scanner
  imports TS_Lexer
begin

text \<open>
  The CSS scanner, \<^verbatim>\<open>css/src/scanner.c\<close>: the descendant combinator (white space that
  separates two selectors) and the colon of a pseudo-class, told apart from the colon of
  a declaration by looking ahead for a brace. It keeps no state. Shown here: the scan
  always returns and reports a token that was asked for; it never reports anything in
  error recovery; the look-ahead after a descendant's colon decides by the first of
  \<open>;\<close>, \<open>}\<close> and \<open>{\<close>.
\<close>

datatype css_token =
    DESCENDANT_OP
  | PSEUDO_CLASS_SELECTOR_COLON
  | ERROR_RECOVERY

type_synonym 'l css_lexer = "('l, css_token) TSLexer"

section \<open>Operations\<close>

text \<open>The \<^verbatim>\<open>for\<close> loop after the colon of a possible descendant.\<close>

definition css_find_brace :: "'l env \<Rightarrow> 'l css_lexer \<Rightarrow> (bool \<times> 'l css_lexer) option" where
  "css_find_brace E l =
     c_loop (\<lambda>l.
       if lookahead E l = ch CHR '';'' \<or> lookahead E l = ch CHR ''}'' \<or> eof E l then Some (Return (False, l))
       else if lookahead E l = ch CHR ''{'' then Some (Return (True, l))
       else Some (Next (advance E l))) l"

definition css_scan_descendant ::
  "'l env \<Rightarrow> (css_token \<Rightarrow> bool) \<Rightarrow> 'l css_lexer \<Rightarrow> ('l css_lexer, bool \<times> 'l css_lexer) flow option" where
  "css_scan_descendant E valid_symbols l =
     (if iswspace E (lookahead E l) \<and> valid_symbols DESCENDANT_OP then
        do { l \<leftarrow> skip_while E (iswspace E) (skip E (set_symbol DESCENDANT_OP l));
             let l = mark_end E l;
             if lookahead E l = ch CHR ''#'' \<or> lookahead E l = ch CHR ''.'' \<or> lookahead E l = ch CHR ''['' \<or>
                lookahead E l = ch CHR ''-'' \<or> lookahead E l = ch CHR ''*'' \<or> iswalnum E (lookahead E l)
             then Some (Return (True, l))
             else if lookahead E l = ch CHR '':'' then
               let l = advance E l in
               if iswspace E (lookahead E l) then Some (Return (False, l))
               else map_option Return (css_find_brace E l)
             else Some (Next l) }
      else Some (Next l))"

text \<open>The \<^verbatim>\<open>while\<close> loop after the colon of a pseudo-class, which skips the braces of comments.\<close>

definition css_pseudo_class_loop :: "'l env \<Rightarrow> bool \<times> 'l css_lexer \<Rightarrow> (bool \<times> 'l css_lexer) option" where
  "css_pseudo_class_loop E s =
     c_loop (\<lambda>(in_comment, l).
       if lookahead E l \<noteq> ch CHR '';'' \<and> lookahead E l \<noteq> ch CHR ''}'' \<and> \<not> eof E l then
         let l = advance E l in
         if lookahead E l = ch CHR ''{'' \<and> \<not> in_comment then Some (Return (True, l))
         else if lookahead E l = ch CHR ''/'' \<and> \<not> in_comment then
           let l = advance E l in
           Some (Next (if lookahead E l = ch CHR ''*'' then True else in_comment, l))
         else if lookahead E l = ch CHR ''*'' \<and> in_comment then
           let l = advance E l in
           Some (Next (if lookahead E l = ch CHR ''/'' then False else in_comment, l))
         else Some (Next (in_comment, l))
       else Some (Return (eof E l, l))) s"

definition css_scan_pseudo_class ::
  "'l env \<Rightarrow> (css_token \<Rightarrow> bool) \<Rightarrow> 'l css_lexer \<Rightarrow> (bool \<times> 'l css_lexer) option" where
  "css_scan_pseudo_class E valid_symbols l =
     (if valid_symbols PSEUDO_CLASS_SELECTOR_COLON then
        do { l \<leftarrow> skip_while E (iswspace E) l;
             if lookahead E l = ch CHR '':'' then
               let l = advance E l in
               if lookahead E l = ch CHR '':'' then Some (False, l)
               else css_pseudo_class_loop E (False, set_symbol PSEUDO_CLASS_SELECTOR_COLON (mark_end E l))
             else Some (False, l) }
      else Some (False, l))"

definition css_scan :: "'l env \<Rightarrow> (css_token \<Rightarrow> bool) \<Rightarrow> 'l css_lexer \<Rightarrow> (bool \<times> 'l css_lexer) option" where
  "css_scan E valid_symbols l =
     (if valid_symbols ERROR_RECOVERY then Some (False, l)
      else then_return (css_scan_descendant E valid_symbols l) (css_scan_pseudo_class E valid_symbols))"

section \<open>Properties\<close>

text \<open>What decides at the colon of a possible descendant: the first semicolon or brace.\<close>

definition css_brace_first :: "int list \<Rightarrow> bool" where
  "css_brace_first xs =
     (case dropWhile (\<lambda>c. c \<noteq> 59 \<and> c \<noteq> 125 \<and> c \<noteq> 123) xs of [] \<Rightarrow> False | c # _ \<Rightarrow> c = 123)"

context ts_lexer
begin

lemma runs_css_find_brace:
  "runs (css_find_brace E l) (\<lambda>(b, l'). b = css_brace_first (rest (raw l))
     \<and> result_symbol l' = result_symbol l)"
  unfolding css_find_brace_def
proof (rule runs_c_loop [where m = remaining
      and I = "\<lambda>l'. css_brace_first (rest (raw l')) = css_brace_first (rest (raw l))
        \<and> result_symbol l' = result_symbol l"])
  fix s :: "'l css_lexer"
  assume "css_brace_first (rest (raw s)) = css_brace_first (rest (raw l)) \<and> result_symbol s = result_symbol l"
  then show "runs (if lookahead E s = ch CHR '';'' \<or> lookahead E s = ch CHR ''}'' \<or> eof E s then Some (Return (False, s))
       else if lookahead E s = ch CHR ''{'' then Some (Return (True, s))
       else Some (Next (advance E s)))
     (\<lambda>x. case x of
        Next l' \<Rightarrow> (css_brace_first (rest (raw l')) = css_brace_first (rest (raw l))
          \<and> result_symbol l' = result_symbol l) \<and> remaining l' < remaining s
      | Return r \<Rightarrow> (case r of (b, l') \<Rightarrow> b = css_brace_first (rest (raw l)) \<and> result_symbol l' = result_symbol l))"
    by (cases "rest (raw s)") (auto simp: css_brace_first_def)
qed simp

lemma runs_css_pseudo_class_loop:
  "runs (css_pseudo_class_loop E (c, l)) (\<lambda>(b, l'). result_symbol l' = result_symbol l)"
  unfolding css_pseudo_class_loop_def
  by (rule runs_c_loop [where m = "\<lambda>(c, l'). remaining l'"
        and I = "\<lambda>(c, l'). result_symbol l' = result_symbol l"])
    (auto simp: Let_def)

lemma runs_css_scan_descendant:
  "runs (css_scan_descendant E v l)
     (\<lambda>x. case x of Next l' \<Rightarrow> True
        | Return (b, l') \<Rightarrow> v DESCENDANT_OP \<and> result_symbol l' = DESCENDANT_OP)"
  unfolding css_scan_descendant_def
  apply (simp add: Let_def runs_map_option)
  apply (intro impI wp_skip_while)
   apply simp
  apply (auto intro!: runs_weaken [OF runs_css_find_brace])
  done

lemma runs_css_scan_pseudo_class:
  "runs (css_scan_pseudo_class E v l)
     (\<lambda>(b, l'). b \<longrightarrow> v PSEUDO_CLASS_SELECTOR_COLON \<and> result_symbol l' = PSEUDO_CLASS_SELECTOR_COLON)"
  unfolding css_scan_pseudo_class_def
  apply (simp add: Let_def)
  apply (intro impI wp_skip_while)
   apply simp
  apply (auto intro!: runs_weaken [OF runs_css_pseudo_class_loop])
  done

lemma runs_css_scan:
  "runs (css_scan E v l) (\<lambda>(b, l'). b \<longrightarrow> v (result_symbol l') \<and> \<not> v ERROR_RECOVERY)"
  unfolding css_scan_def
  by (auto intro!: runs_weaken [OF runs_css_scan_descendant] runs_weaken [OF runs_css_scan_pseudo_class]
      split: flow.splits)

lemma runs_css_descendant_colon:
  assumes "v DESCENDANT_OP" and "\<not> v ERROR_RECOVERY" and "rest (raw l) = ws @ 58 # cs"
    and "ws \<noteq> []" and "\<forall>c \<in> set ws. iswspace E c" and "\<not> iswspace E (case cs of [] \<Rightarrow> 0 | c # _ \<Rightarrow> c)"
  shows "runs (css_scan E v l) (\<lambda>(b, l'). b = css_brace_first cs \<and> result_symbol l' = DESCENDANT_OP)"
proof -
  from assms(4,5) obtain w ws' where ws: "ws = w # ws'" "iswspace E w" "\<forall>c \<in> set ws'. iswspace E c"
    by (cases ws) auto
  have colon: "\<not> iswspace E 58" "\<not> iswalnum E 58"
    by (simp_all add: iswspace_def iswalnum_def iswalpha_def iswdigit_def)
  have drop: "dropWhile (iswspace E) (ws' @ 58 # cs) = 58 # cs"
    using ws(3) colon by (induction ws') auto
  show ?thesis
    unfolding css_scan_def css_scan_descendant_def
    using assms(1-3) ws colon
    apply (simp add: Let_def)
    apply (rule wp_skip_while)
     apply simp
    subgoal for l'
      using drop assms(6)
      by (auto simp: lookahead_view split: list.splits intro!: runs_weaken [OF runs_css_find_brace])
    done
qed

end

text \<open>
  Whatever the input, the CSS scan returns; it reports a token only outside error recovery,
  and only one the parser asked for.\<close>

lemma css_scan_returns:
  assumes "ts_lexer E rest"
  shows "\<exists>b l'. css_scan E v l = Some (b, l') \<and> (b \<longrightarrow> v (result_symbol l') \<and> \<not> v ERROR_RECOVERY)"
  using ts_lexer.runs_css_scan [OF assms] by (rule runs_pairD)

text \<open>White space and a colon that is not followed by white space: the white space is a
  descendant combinator exactly when an opening brace comes before any semicolon, closing
  brace and the end of the input.\<close>

lemma css_descendant_before_pseudo_class:
  assumes "ts_lexer E rest" and "v DESCENDANT_OP" and "\<not> v ERROR_RECOVERY"
    and "rest (raw l) = ws @ 58 # cs" and "ws \<noteq> []" and "\<forall>c \<in> set ws. iswspace E c"
    and "\<not> iswspace E (case cs of [] \<Rightarrow> 0 | c # _ \<Rightarrow> c)"
  shows "\<exists>l'. css_scan E v l = Some (css_brace_first cs, l') \<and> result_symbol l' = DESCENDANT_OP"
  using runs_pairD [OF ts_lexer.runs_css_descendant_colon [OF assms]] by auto

end
