(* ===== verification/TS_Serialize.thy ===== *)
theory TS_Serialize
  imports TS_Lexer
begin

text \<open>
  Saving and restoring a scanner. The runtime calls \<^verbatim>\<open>serialize\<close> after a token to
  copy the scanner's state into a buffer of \<open>TREE_SITTER_SERIALIZATION_BUFFER_SIZE\<close>
  bytes and \<^verbatim>\<open>deserialize\<close> before the next call of \<^verbatim>\<open>scan\<close>, possibly much
  later and at another place of the input. The theory has

  \<^item> the byte encodings the scanners use: \<^verbatim>\<open>memcpy\<close> of an integer is little-endian on
    every release target of the program (AMD64 and ARM64), and a decoder takes the unread bytes and
    returns \<open>None\<close> where the C code would read past \<^verbatim>\<open>length\<close>;
  \<^item> the contract \<open>external_scanner\<close> between a scanner and the runtime, with what the
    runtime can conclude from it, and \<open>resumable_scanner\<close>, which adds the scan function:
    saving and restoring between any two scans changes no result.
\<close>

unbundle bit_operations_syntax

type_synonym byte = "8 word"

type_synonym int16 = "16 word"

definition TREE_SITTER_SERIALIZATION_BUFFER_SIZE :: nat where
  "TREE_SITTER_SERIALIZATION_BUFFER_SIZE = 1024"

section \<open>Encodings\<close>

definition le16 :: "16 word \<Rightarrow> byte list" where
  "le16 w = [ucast w, ucast (drop_bit 8 w)]"

definition le32 :: "32 word \<Rightarrow> byte list" where
  "le32 w = [ucast w, ucast (drop_bit 8 w), ucast (drop_bit 16 w), ucast (drop_bit 24 w)]"

fun get8 :: "byte list \<Rightarrow> (byte \<times> byte list) option" where
  "get8 (a # xs) = Some (a, xs)"
| "get8 [] = None"

fun get16 :: "byte list \<Rightarrow> (16 word \<times> byte list) option" where
  "get16 (a # b # xs) = Some (ucast a OR push_bit 8 (ucast b), xs)"
| "get16 _ = None"

fun get32 :: "byte list \<Rightarrow> (32 word \<times> byte list) option" where
  "get32 (a # b # c # d # xs) =
     Some (ucast a OR push_bit 8 (ucast b) OR push_bit 16 (ucast c) OR push_bit 24 (ucast d), xs)"
| "get32 _ = None"

text \<open>A \<^verbatim>\<open>bool\<close> stored as a \<^verbatim>\<open>char\<close>.\<close>

definition bool_byte :: "bool \<Rightarrow> byte" where
  "bool_byte b = (if b then 1 else 0)"

lemma bool_byte_nonzero [simp]: "bool_byte b \<noteq> 0 \<longleftrightarrow> b"
  by (simp add: bool_byte_def)

definition get_bytes :: "nat \<Rightarrow> byte list \<Rightarrow> (byte list \<times> byte list) option" where
  "get_bytes n xs = (if n \<le> length xs then Some (take n xs, drop n xs) else None)"

text \<open>Reading \<open>n\<close> entries one after the other, the shape of every \<^verbatim>\<open>for\<close> loop of a deserializer.\<close>

fun get_many :: "(byte list \<Rightarrow> ('a \<times> byte list) option) \<Rightarrow> nat \<Rightarrow> byte list \<Rightarrow> ('a list \<times> byte list) option" where
  "get_many get 0 xs = Some ([], xs)"
| "get_many get (Suc n) xs =
     do { (a, xs) \<leftarrow> get xs; (as, xs) \<leftarrow> get_many get n xs; Some (a # as, xs) }"

lemma length_le16 [simp]: "length (le16 w) = 2"
  by (simp add: le16_def)

lemma length_le32 [simp]: "length (le32 w) = 4"
  by (simp add: le32_def)

lemma le_not_Nil [simp]: "le16 v \<noteq> []" "le32 w \<noteq> []"
  by (simp_all add: le16_def le32_def)

lemma get16_le16 [bytes_simps, simp]: "get16 (le16 w @ xs) = Some (w, xs)"
proof -
  have "ucast (ucast w :: byte) OR push_bit 8 (ucast (ucast (drop_bit 8 w) :: byte)) = (w :: 16 word)"
    by (rule bit_word_eqI) (auto simp: bit_simps)
  then show ?thesis by (simp add: le16_def)
qed

lemma get32_le32 [bytes_simps, simp]: "get32 (le32 w @ xs) = Some (w, xs)"
proof -
  have "ucast (ucast w :: byte) OR push_bit 8 (ucast (ucast (drop_bit 8 w) :: byte))
      OR push_bit 16 (ucast (ucast (drop_bit 16 w) :: byte))
      OR push_bit 24 (ucast (ucast (drop_bit 24 w) :: byte)) = (w :: 32 word)"
  proof (rule bit_word_eqI)
    fix n assume n: "n < LENGTH(32)"
    then consider "n < 8" | "8 \<le> n" "n < 16" | "16 \<le> n" "n < 24" | "24 \<le> n" "n < 32"
      by fastforce
    then show "bit (ucast (ucast w :: byte) OR push_bit 8 (ucast (ucast (drop_bit 8 w) :: byte))
      OR push_bit 16 (ucast (ucast (drop_bit 16 w) :: byte))
      OR push_bit 24 (ucast (ucast (drop_bit 24 w) :: byte)) :: 32 word) n = bit w n"
      by cases (auto simp: bit_simps)
  qed
  then show ?thesis by (simp add: le32_def)
qed

lemma get_le_Nil [bytes_simps, simp]: "get16 (le16 v) = Some (v, [])" "get32 (le32 w) = Some (w, [])"
  using get16_le16 [of v "[]"] get32_le32 [of w "[]"] by simp_all

lemma get_bytes_append [bytes_simps, simp]: "get_bytes (length ys) (ys @ xs) = Some (ys, xs)"
  by (simp add: get_bytes_def)

lemma get_bytes_append': "n = length ys \<Longrightarrow> get_bytes n (ys @ xs) = Some (ys, xs)"
  by simp

lemma get_many_concat:
  assumes "\<And>a xs. a \<in> set as \<Longrightarrow> get (put a @ xs) = Some (a, xs)"
  shows "get_many get (length as) (concat (map put as) @ xs) = Some (as, xs)"
  using assms by (induction as) simp_all

lemma unat_of_nat_8: "n < 256 \<Longrightarrow> unat (of_nat n :: 8 word) = n"
  by (simp add: unat_of_nat)

lemma unat_of_nat_16: "n < 65536 \<Longrightarrow> unat (of_nat n :: 16 word) = n"
  by (simp add: unat_of_nat)

lemma unat_of_nat_32: "n < 4294967296 \<Longrightarrow> unat (of_nat n :: 32 word) = n"
  by (simp add: unat_of_nat)

lemmas unat_of_nat_sizes = unat_of_nat_8 unat_of_nat_16 unat_of_nat_32

section \<open>The contract with the runtime\<close>

text \<open>
  \<open>saves s\<close> are the states the scanner can save, \<open>view s\<close> is the part of the state its
  scan function looks at (stale array cells, for instance, are not part of it). The old
  state \<open>t\<close> of the object \<^verbatim>\<open>deserialize\<close> writes into must not matter.
\<close>

locale external_scanner =
  fixes serialize :: "'s \<Rightarrow> byte list"
    and deserialize :: "'s \<Rightarrow> byte list \<Rightarrow> 's option"
    and saves :: "'s \<Rightarrow> bool"
    and view :: "'s \<Rightarrow> 'v"
  assumes serialize_fits: "saves s \<Longrightarrow> length (serialize s) \<le> TREE_SITTER_SERIALIZATION_BUFFER_SIZE"
    and restore: "saves s \<Longrightarrow> \<exists>s'. deserialize t (serialize s) = Some s' \<and> view s' = view s"
begin

text \<open>The runtime compares two states by their saved bytes: equal bytes mean equal behaviour.\<close>

lemma serialize_faithful:
  assumes "saves s" and "saves t" and "serialize s = serialize t"
  shows "view s = view t"
proof -
  from restore [OF assms(1), of s] obtain s' where "deserialize s (serialize s) = Some s'" "view s' = view s"
    by blast
  moreover from restore [OF assms(2), of s] obtain t' where "deserialize s (serialize t) = Some t'" "view t' = view t"
    by blast
  ultimately show ?thesis using assms(3) by simp
qed

lemma restore_independent:
  assumes "saves s" "deserialize t (serialize s) = Some s1" "deserialize u (serialize s) = Some s2"
  shows "view s1 = view s2"
proof -
  have "view s1 = view s" using restore [OF assms(1), of t] assms(2) by auto
  moreover have "view s2 = view s" using restore [OF assms(1), of u] assms(3) by auto
  ultimately show ?thesis by simp
qed

end

text \<open>A scanner that also starts afresh when the runtime has nothing saved.\<close>

locale resettable_scanner = external_scanner +
  fixes create :: 'a
  assumes reset: "\<exists>s'. deserialize t [] = Some s' \<and> view s' = view create"

text \<open>
  A parse is a sequence of scan calls. \<open>direct_run\<close> keeps the scanner in memory,
  \<open>saved_run\<close> saves and restores it before every call, as the runtime does, into an
  object whose old state is whatever the environment left there.
\<close>

fun direct_run :: "('s \<Rightarrow> 'i \<Rightarrow> ('o \<times> 's) option) \<Rightarrow> 's \<Rightarrow> 'i list \<Rightarrow> 'o list option" where
  "direct_run scan s [] = Some []"
| "direct_run scan s (i # is) =
     do { (x, s) \<leftarrow> scan s i; xs \<leftarrow> direct_run scan s is; Some (x # xs) }"

fun saved_run :: "('s \<Rightarrow> byte list) \<Rightarrow> ('s \<Rightarrow> byte list \<Rightarrow> 's option) \<Rightarrow>
    ('s \<Rightarrow> 'i \<Rightarrow> ('o \<times> 's) option) \<Rightarrow> 's \<Rightarrow> ('s \<times> 'i) list \<Rightarrow> 'o list option" where
  "saved_run serialize deserialize scan s [] = Some []"
| "saved_run serialize deserialize scan s ((old, i) # is) =
     do { s \<leftarrow> deserialize old (serialize s);
          (x, s) \<leftarrow> scan s i;
          xs \<leftarrow> saved_run serialize deserialize scan s is;
          Some (x # xs) }"

text \<open>Every state the direct run saves is one the scanner can save.\<close>

fun run_saves :: "('s \<Rightarrow> bool) \<Rightarrow> ('s \<Rightarrow> 'i \<Rightarrow> ('o \<times> 's) option) \<Rightarrow> 's \<Rightarrow> 'i list \<Rightarrow> bool" where
  "run_saves saves scan s [] = True"
| "run_saves saves scan s (i # is) =
     (saves s \<and> (case scan s i of None \<Rightarrow> True | Some (x, s') \<Rightarrow> run_saves saves scan s' is))"

lemma run_saves_always: "(\<And>s. saves s) \<Longrightarrow> run_saves saves scan s is"
  by (induction "is" arbitrary: s) (auto split: option.splits)

locale resumable_scanner = external_scanner +
  fixes scan :: "'a \<Rightarrow> 'i \<Rightarrow> ('o \<times> 'a) option"
  assumes scan_view: "view s = view t \<Longrightarrow>
    map_option (\<lambda>(x, s'). (x, view s')) (scan s i) = map_option (\<lambda>(x, t'). (x, view t')) (scan t i)"
    and saves_view: "view s = view t \<Longrightarrow> saves s = saves t"
    and serialize_view: "view s = view t \<Longrightarrow> serialize s = serialize t"
begin

lemma saved_run_transparent:
  assumes "run_saves saves scan s (map snd is)" and "view s = view t"
  shows "saved_run serialize deserialize scan t is = direct_run scan s (map snd is)"
  using assms
proof (induction "is" arbitrary: s t)
  case Nil
  then show ?case by simp
next
  case (Cons j js)
  obtain old i where j: "j = (old, i)" by (cases j)
  from Cons.prems(1) j have "saves s" by simp
  with saves_view [OF Cons.prems(2)] have "saves t" by simp
  then obtain u where u: "deserialize old (serialize t) = Some u" "view u = view t"
    using restore by blast
  with Cons.prems(2) have vu: "view u = view s" by simp
  show ?case
  proof (cases "scan s i")
    case None
    with scan_view [OF vu, of i] j u show ?thesis by simp
  next
    case (Some y)
    then obtain x s' where s': "scan s i = Some (x, s')" by (cases y) simp
    with Cons.prems(1) j have sv: "run_saves saves scan s' (map snd js)" by simp
    have "map_option (\<lambda>(x, s'). (x, view s')) (scan u i) = Some (x, view s')"
      using scan_view [OF vu, of i] s' by simp
    then obtain u' where u': "scan u i = Some (x, u')" "view u' = view s'"
      by (cases "scan u i") auto
    with Cons.IH [OF sv, of u'] show ?thesis
      using j u s' by simp
  qed
qed

end

end
