(* ===== verification/Cpp_Scanner.thy ===== *)
theory Cpp_Scanner
  imports TS_Serialize
begin

text \<open>
  The C++ scanner, \<^verbatim>\<open>cpp/src/scanner.c\<close>: raw string literals
  \<open>R"delimiter(content)delimiter"\<close>. Its state is the delimiter of the literal it is in.
  The cells of the delimiter array are values of \<^verbatim>\<open>wchar_t\<close>, four bytes on Linux and
  macOS; they are saved as such.

  Shown here: the scan always returns and keeps the state well formed; a saved state is
  restored; which opening delimiters are accepted; the content of a raw string ends at
  the first \<open>)delimiter"\<close>.
\<close>

datatype cpp_token = RAW_STRING_DELIMITER | RAW_STRING_CONTENT

type_synonym 'l cpp_lexer = "('l, cpp_token) TSLexer"

definition MAX_DELIMITER_LENGTH :: nat where
  "MAX_DELIMITER_LENGTH = 16"

record cpp_scanner =
  delimiter_length :: nat
  delimiter :: "int list"

section \<open>Operations\<close>

definition cpp_reset :: "cpp_scanner \<Rightarrow> cpp_scanner" where
  "cpp_reset s = s\<lparr>delimiter_length := 0, delimiter := replicate MAX_DELIMITER_LENGTH 0\<rparr>"

text \<open>The closing delimiter must match the opening one cell by cell.\<close>

definition cpp_scan_closing_delimiter ::
  "'l env \<Rightarrow> cpp_scanner \<Rightarrow> 'l cpp_lexer \<Rightarrow> (bool \<times> cpp_scanner \<times> 'l cpp_lexer) option" where
  "cpp_scan_closing_delimiter E s l =
     c_loop (\<lambda>(i, l).
       if i < delimiter_length s then
         if lookahead E l \<noteq> delimiter s ! i then Some (Return (False, s, l))
         else Some (Next (Suc i, advance E l))
       else Some (Return (True, cpp_reset s, l))) (0, l)"

definition cpp_scan_opening_delimiter ::
  "'l env \<Rightarrow> cpp_scanner \<Rightarrow> 'l cpp_lexer \<Rightarrow> (bool \<times> cpp_scanner \<times> 'l cpp_lexer) option" where
  "cpp_scan_opening_delimiter E s l =
     c_loop (\<lambda>(s, l).
       if MAX_DELIMITER_LENGTH \<le> delimiter_length s \<or> eof E l \<or> lookahead E l = ch CHR 0x5C \<or>
          iswspace E (lookahead E l)
       then Some (Return (False, s, l))
       else if lookahead E l = ch CHR ''('' then Some (Return (0 < delimiter_length s, s, l))
       else Some (Next (s\<lparr>delimiter := (delimiter s)[delimiter_length s := lookahead E l],
                          delimiter_length := Suc (delimiter_length s)\<rparr>, advance E l))) (s, l)"

definition cpp_scan_raw_string_delimiter ::
  "'l env \<Rightarrow> cpp_scanner \<Rightarrow> 'l cpp_lexer \<Rightarrow> (bool \<times> cpp_scanner \<times> 'l cpp_lexer) option" where
  "cpp_scan_raw_string_delimiter E s l =
     (if 0 < delimiter_length s then cpp_scan_closing_delimiter E s l
      else cpp_scan_opening_delimiter E s l)"

text \<open>\<open>delimiter_index\<close> is the progress through the delimiter since the last \<open>)\<close>, -1 for none.\<close>

definition cpp_content_step ::
  "'l env \<Rightarrow> cpp_scanner \<Rightarrow> int \<times> 'l cpp_lexer \<Rightarrow> (int \<times> 'l cpp_lexer, bool \<times> 'l cpp_lexer) flow option" where
  "cpp_content_step E s = (\<lambda>(delimiter_index, l).
     if eof E l then Some (Return (True, mark_end E l))
     else if 0 \<le> delimiter_index \<and> delimiter_index = int (delimiter_length s) \<and> lookahead E l = ch CHR 0x22
     then Some (Return (True, l))
     else
       let delimiter_index =
         (if 0 \<le> delimiter_index then
            if delimiter_index = int (delimiter_length s) then -1
            else if lookahead E l = delimiter s ! nat delimiter_index then delimiter_index + 1
            else -1
          else delimiter_index) in
       if delimiter_index = -1 \<and> lookahead E l = ch CHR '')''
       then Some (Next (0, advance E (mark_end E l)))
       else Some (Next (delimiter_index, advance E l)))"

definition cpp_scan_raw_string_content ::
  "'l env \<Rightarrow> cpp_scanner \<Rightarrow> 'l cpp_lexer \<Rightarrow> (bool \<times> 'l cpp_lexer) option" where
  "cpp_scan_raw_string_content E s l = c_loop (cpp_content_step E s) (-1, l)"

definition cpp_create :: cpp_scanner where
  "cpp_create = \<lparr>delimiter_length = 0, delimiter = replicate MAX_DELIMITER_LENGTH 0\<rparr>"

definition cpp_scan :: "'l env \<Rightarrow> (cpp_token \<Rightarrow> bool) \<Rightarrow> cpp_scanner \<Rightarrow> 'l cpp_lexer \<Rightarrow>
    (bool \<times> cpp_scanner \<times> 'l cpp_lexer) option" where
  "cpp_scan E valid_symbols s l =
     (if valid_symbols RAW_STRING_DELIMITER \<and> valid_symbols RAW_STRING_CONTENT then Some (False, s, l)
      else if valid_symbols RAW_STRING_DELIMITER then
        cpp_scan_raw_string_delimiter E s (set_symbol RAW_STRING_DELIMITER l)
      else if valid_symbols RAW_STRING_CONTENT then
        do { (b, l) \<leftarrow> cpp_scan_raw_string_content E s (set_symbol RAW_STRING_CONTENT l); Some (b, s, l) }
      else Some (False, s, l))"

definition cpp_serialize :: "cpp_scanner \<Rightarrow> byte list" where
  "cpp_serialize s = concat (map (\<lambda>c. le32 (word_of_int c)) (take (delimiter_length s) (delimiter s)))"

text \<open>\<open>None\<close>: the assertion fails, or \<^verbatim>\<open>memcpy\<close> would run over the end of the array.\<close>

definition cpp_deserialize :: "cpp_scanner \<Rightarrow> byte list \<Rightarrow> cpp_scanner option" where
  "cpp_deserialize s buffer =
     (if length buffer mod 4 \<noteq> 0 \<or> 4 * MAX_DELIMITER_LENGTH < length buffer then None
      else do { (cells, _) \<leftarrow> get_many get32 (length buffer div 4) buffer;
                Some (s\<lparr>delimiter_length := length buffer div 4,
                        delimiter := map sint cells @ drop (length cells) (delimiter s)\<rparr>) })"

section \<open>Saving and restoring\<close>

text \<open>The invariant of the state, and the part of it that matters.\<close>

definition cpp_wf :: "cpp_scanner \<Rightarrow> bool" where
  "cpp_wf s \<longleftrightarrow> delimiter_length s \<le> MAX_DELIMITER_LENGTH \<and> length (delimiter s) = MAX_DELIMITER_LENGTH
     \<and> (\<forall>c \<in> set (delimiter s). -2147483648 \<le> c \<and> c < 2147483648)"

definition cpp_view :: "cpp_scanner \<Rightarrow> int list" where
  "cpp_view s = take (delimiter_length s) (delimiter s)"

lemma sint_word_of_int_32: "-2147483648 \<le> c \<Longrightarrow> c < 2147483648 \<Longrightarrow> sint (word_of_int c :: 32 word) = c"
  by (simp add: int_word_sint)

lemma length_concat_le32: "length (concat (map (\<lambda>c. le32 (f c)) xs)) = 4 * length xs"
  by (induction xs) simp_all

lemma cpp_get_cells:
  "n = length cs \<Longrightarrow> get_many get32 n (concat (map (\<lambda>c. le32 (word_of_int c)) cs)) = Some (map word_of_int cs, [])"
  using get_many_concat [of "map word_of_int cs :: 32 word list" get32 le32 "[]"]
  by (simp add: comp_def)

lemma cpp_restore:
  assumes "cpp_wf s"
  shows "\<exists>s'. cpp_deserialize t (cpp_serialize s) = Some s' \<and> cpp_view s' = cpp_view s"
proof -
  let ?cs = "cpp_view s"
  have len: "length ?cs = delimiter_length s" "length ?cs \<le> 16" "delimiter_length s \<le> length (delimiter s)"
    using assms by (auto simp: cpp_wf_def cpp_view_def MAX_DELIMITER_LENGTH_def)
  have "map (sint \<circ> (word_of_int :: int \<Rightarrow> 32 word)) ?cs = ?cs"
    using assms by (intro map_idI) (auto simp: cpp_wf_def cpp_view_def sint_word_of_int_32 dest: in_set_takeD)
  moreover have "cpp_serialize s = concat (map (\<lambda>c. le32 (word_of_int c)) ?cs)"
    by (simp add: cpp_serialize_def cpp_view_def)
  moreover have "length (concat (map (\<lambda>c. le32 (word_of_int c)) ?cs)) = 4 * length ?cs"
    by (rule length_concat_le32)
  ultimately show ?thesis
    using len
    by (simp add: cpp_deserialize_def cpp_get_cells [of _ ?cs] MAX_DELIMITER_LENGTH_def)
      (simp add: cpp_view_def)
qed

interpretation cpp: resettable_scanner cpp_serialize cpp_deserialize cpp_wf cpp_view cpp_create
proof unfold_locales
  fix s assume "cpp_wf s"
  then show "length (cpp_serialize s) \<le> TREE_SITTER_SERIALIZATION_BUFFER_SIZE"
    by (auto simp: cpp_serialize_def length_concat_le32 cpp_wf_def TREE_SITTER_SERIALIZATION_BUFFER_SIZE_def
        MAX_DELIMITER_LENGTH_def)
next
  fix s t assume "cpp_wf s"
  then show "\<exists>s'. cpp_deserialize t (cpp_serialize s) = Some s' \<and> cpp_view s' = cpp_view s"
    by (rule cpp_restore)
next
  fix t show "\<exists>s'. cpp_deserialize t [] = Some s' \<and> cpp_view s' = cpp_view cpp_create"
    by (simp add: cpp_deserialize_def cpp_view_def cpp_create_def)
qed

section \<open>Scanning\<close>

text \<open>\<open>occurs_at pat xs k\<close>: \<open>pat\<close> occurs in \<open>xs\<close> at position \<open>k\<close>.\<close>

definition occurs_at :: "'a list \<Rightarrow> 'a list \<Rightarrow> nat \<Rightarrow> bool" where
  "occurs_at pat xs k \<longleftrightarrow> k + length pat \<le> length xs \<and> (\<forall>i < length pat. xs ! (k + i) = pat ! i)"

definition cpp_closing :: "cpp_scanner \<Rightarrow> int list" where
  "cpp_closing s = 41 # cpp_view s @ [34]"

lemma length_cpp_view: "cpp_wf s \<Longrightarrow> length (cpp_view s) = delimiter_length s"
  by (simp add: cpp_wf_def cpp_view_def)

lemma nth_cpp_view: "cpp_wf s \<Longrightarrow> i < delimiter_length s \<Longrightarrow> cpp_view s ! i = delimiter s ! i"
  by (simp add: cpp_view_def)

lemma occurs_at_mismatch:
  assumes before: "\<forall>j < st. \<not> occurs_at pat xs j"
    and partial_match: "\<forall>m \<le> i. xs ! (st + m) = pat ! m" and "Suc i < length pat"
    and stop: "length xs \<le> st + Suc i \<or> xs ! (st + Suc i) \<noteq> pat ! Suc i"
    and first: "\<forall>m. 0 < m \<longrightarrow> m \<le> i \<longrightarrow> pat ! m \<noteq> pat ! 0"
  shows "\<forall>j < st + Suc i. \<not> occurs_at pat xs j"
proof (intro allI impI notI)
  fix j assume j: "j < st + Suc i" and occ: "occurs_at pat xs j"
  with before have "st \<le> j" by (meson not_le)
  show False
  proof (cases "j = st")
    case True
    with occ stop assms(3) show False by (auto simp: occurs_at_def)
  next
    case False
    with \<open>st \<le> j\<close> j have m: "0 < j - st" "j - st \<le> i" and xj: "xs ! j = pat ! (j - st)"
      using partial_match by (auto dest: spec [of _ "j - st"])
    from occ assms(3) have "xs ! j = pat ! 0" by (auto simp: occurs_at_def dest: spec [of _ 0])
    with first [rule_format, OF m] xj show False by simp
  qed
qed

lemma cpp_closing_nth:
  assumes "cpp_wf s"
  shows "length (cpp_closing s) = delimiter_length s + 2" and "cpp_closing s ! 0 = 41"
    and "i < delimiter_length s \<Longrightarrow> cpp_closing s ! Suc i = delimiter s ! i"
    and "cpp_closing s ! Suc (delimiter_length s) = 34"
  using assms by (simp_all add: cpp_closing_def length_cpp_view nth_append nth_cpp_view)

lemma cpp_closing_first:
  assumes "cpp_wf s" and "41 \<notin> set (cpp_view s)" and "0 < m" and "m \<le> delimiter_length s"
  shows "cpp_closing s ! m \<noteq> cpp_closing s ! 0"
proof -
  from assms(3,4) obtain i where i: "m = Suc i" "i < length (cpp_view s)"
    using assms(1) by (cases m) (auto simp: length_cpp_view)
  then have "cpp_closing s ! m \<in> set (cpp_view s)"
    by (auto simp: cpp_closing_def nth_append)
  with assms(2) show ?thesis by (auto simp: cpp_closing_def)
qed

text \<open>A code point is a value of the type \<^verbatim>\<open>int32_t\<close> of the field \<open>lookahead\<close>.\<close>

definition int32_input :: "int list \<Rightarrow> bool" where
  "int32_input xs \<longleftrightarrow> (\<forall>c \<in> set xs. -2147483648 \<le> c \<and> c < 2147483648)"

lemma int32_input_tl: "int32_input xs \<Longrightarrow> int32_input (tl xs)"
  by (cases xs) (simp_all add: int32_input_def)

lemma cpp_wf_reset [simp]: "cpp_wf (cpp_reset s)"
  by (simp add: cpp_wf_def cpp_reset_def MAX_DELIMITER_LENGTH_def)

lemma cpp_wf_push:
  assumes "cpp_wf s" and "delimiter_length s < MAX_DELIMITER_LENGTH" and "-2147483648 \<le> c" and "c < 2147483648"
  shows "cpp_wf (s\<lparr>delimiter := (delimiter s)[delimiter_length s := c],
                   delimiter_length := Suc (delimiter_length s)\<rparr>)"
    and "cpp_view (s\<lparr>delimiter := (delimiter s)[delimiter_length s := c],
                   delimiter_length := Suc (delimiter_length s)\<rparr>) = cpp_view s @ [c]"
proof -
  have "\<forall>x \<in> set ((delimiter s)[delimiter_length s := c]). -2147483648 \<le> x \<and> x < 2147483648"
    using assms set_update_subset_insert [of "delimiter s" "delimiter_length s" c]
    by (auto simp: cpp_wf_def)
  then show "cpp_wf (s\<lparr>delimiter := (delimiter s)[delimiter_length s := c],
      delimiter_length := Suc (delimiter_length s)\<rparr>)"
    using assms by (simp add: cpp_wf_def)
  show "cpp_view (s\<lparr>delimiter := (delimiter s)[delimiter_length s := c],
      delimiter_length := Suc (delimiter_length s)\<rparr>) = cpp_view s @ [c]"
    using assms by (simp add: cpp_view_def cpp_wf_def take_Suc_conv_app_nth)
qed

context ts_lexer
begin

lemma int32_lookahead: "int32_input (rest (raw l)) \<Longrightarrow> -2147483648 \<le> lookahead E l \<and> lookahead E l < 2147483648"
  by (cases "rest (raw l)") (simp_all add: int32_input_def)

lemma runs_cpp_scan_closing_delimiter:
  assumes "cpp_wf s"
  shows "runs (cpp_scan_closing_delimiter E s l)
     (\<lambda>(b, s', l'). cpp_wf s' \<and> result_symbol l' = result_symbol l)"
  unfolding cpp_scan_closing_delimiter_def
  by (rule runs_c_loop [where m = "\<lambda>(i, l'). delimiter_length s - i"
        and I = "\<lambda>(i, l'). result_symbol l' = result_symbol l"])
    (use assms in auto)

lemma runs_cpp_scan_opening_delimiter:
  assumes "cpp_wf s" and "int32_input (rest (raw l))"
  shows "runs (cpp_scan_opening_delimiter E s l)
     (\<lambda>(b, s', l'). cpp_wf s' \<and> result_symbol l' = result_symbol l)"
  unfolding cpp_scan_opening_delimiter_def
  apply (rule runs_c_loop [where m = "\<lambda>(s, l'). remaining l'"
        and I = "\<lambda>(s, l'). cpp_wf s \<and> int32_input (rest (raw l')) \<and> result_symbol l' = result_symbol l"])
  subgoal using assms by simp
  subgoal for x
    by (cases x) (auto simp: int32_input_tl int32_lookahead intro!: cpp_wf_push)
  done

lemma runs_cpp_scan_raw_string_content:
  "runs (cpp_scan_raw_string_content E s l) (\<lambda>(b, l'). result_symbol l' = result_symbol l)"
  unfolding cpp_scan_raw_string_content_def
  by (rule runs_c_loop [where m = "\<lambda>(i, l'). remaining l'"
        and I = "\<lambda>(i, l'). result_symbol l' = result_symbol l"])
    (auto simp: cpp_content_step_def Let_def)

lemma runs_cpp_scan:
  assumes "cpp_wf s" and "int32_input (rest (raw l))"
  shows "runs (cpp_scan E v s l) (\<lambda>(b, s', l'). cpp_wf s' \<and> (b \<longrightarrow> v (result_symbol l')))"
  using assms
  by (auto simp: cpp_scan_def cpp_scan_raw_string_delimiter_def
      intro!: runs_weaken [OF runs_cpp_scan_closing_delimiter] runs_weaken [OF runs_cpp_scan_opening_delimiter]
        runs_weaken [OF runs_cpp_scan_raw_string_content])

end

text \<open>
  Where the content ends. The invariant says what the loop has found after \<open>k\<close>
  characters: either no closing sequence starts before \<open>k\<close>, or the characters from the
  marked position on are the beginning of one.
\<close>

definition cpp_content_inv ::
  "int list \<Rightarrow> int list \<Rightarrow> nat \<Rightarrow> int \<Rightarrow> nat \<Rightarrow> nat \<Rightarrow> bool" where
  "cpp_content_inv pat xs n di k marked \<longleftrightarrow>
     (di = -1 \<and> (\<forall>j < k. \<not> occurs_at pat xs j)) \<or>
     (\<exists>st i. i \<le> n \<and> di = int i \<and> k = st + Suc i \<and> (\<forall>m \<le> i. xs ! (st + m) = pat ! m)
        \<and> marked = st \<and> (\<forall>j < st. \<not> occurs_at pat xs j))"

lemma cpp_content_inv_none:
  assumes "cpp_content_inv (cpp_closing s) xs (delimiter_length s) di k marked"
    and "cpp_wf s" and "41 \<notin> set (cpp_view s)"
    and "0 \<le> di \<Longrightarrow> length xs \<le> k \<or> xs ! k \<noteq> cpp_closing s ! Suc (nat di)"
  shows "\<forall>j < k. \<not> occurs_at (cpp_closing s) xs j"
  using assms(1) unfolding cpp_content_inv_def
proof (elim disjE exE conjE)
  fix st i
  assume i: "i \<le> delimiter_length s" "di = int i" and k: "k = st + Suc i"
    and "\<forall>m \<le> i. xs ! (st + m) = cpp_closing s ! m" "\<forall>j < st. \<not> occurs_at (cpp_closing s) xs j"
  then show "\<forall>j < k. \<not> occurs_at (cpp_closing s) xs j"
    unfolding k
    by (intro occurs_at_mismatch)
      (use assms(2-4) i k in \<open>auto simp: cpp_closing_nth(1) dest: cpp_closing_first\<close>)
qed simp

lemma occurs_at_extend:
  assumes "\<forall>j < k. \<not> occurs_at pat xs j" and "xs ! k \<noteq> pat ! 0" and "pat \<noteq> []"
  shows "\<forall>j < Suc k. \<not> occurs_at pat xs j"
  using assms by (auto simp: less_Suc_eq occurs_at_def dest: spec [of _ 0])

context ts_lexer_marks
begin

lemma cpp_content_step_inv:
  fixes l :: "'a cpp_lexer"
  assumes wf: "cpp_wf s" and nd: "41 \<notin> set (cpp_view s)" and k: "k \<le> length xs"
    and l: "rest (raw l) = drop k xs" "pos (raw l) = p + k"
    and inv: "cpp_content_inv (cpp_closing s) xs (delimiter_length s) di k (token_end (raw l) - p)"
    and end_ge: "0 \<le> di \<longrightarrow> p \<le> token_end (raw l)"
  shows "runs (cpp_content_step E s (di, l)) (\<lambda>x. case x of
      Next (di', l') \<Rightarrow> k < length xs \<and> rest (raw l') = drop (Suc k) xs \<and> pos (raw l') = p + Suc k
        \<and> (0 \<le> di' \<longrightarrow> p \<le> token_end (raw l'))
        \<and> cpp_content_inv (cpp_closing s) xs (delimiter_length s) di' (Suc k) (token_end (raw l') - p)
    | Return (b, l') \<Rightarrow> b \<and> (\<exists>n. token_end (raw l') = p + n \<and>
        (\<forall>j < n. \<not> occurs_at (cpp_closing s) xs j) \<and>
        (occurs_at (cpp_closing s) xs n \<or> n = length xs)))"
proof (cases "k < length xs")
  case False
  with k have kl: "k = length xs" by simp
  have "\<forall>j < k. \<not> occurs_at (cpp_closing s) xs j"
    by (rule cpp_content_inv_none [OF inv wf nd]) (simp add: kl)
  with kl l show ?thesis by (auto simp: cpp_content_step_def)
next
  case True
  let ?pat = "cpp_closing s" and ?c = "xs ! k"
  from True l have c: "rest (raw l) = ?c # drop (Suc k) xs" by (simp add: Cons_nth_drop_Suc)
  then have la: "lookahead E l = ?c" by simp
  show ?thesis
  proof (cases "0 \<le> di \<and> ?c = ?pat ! Suc (nat di)")
    case True
    then obtain st i where i: "i \<le> delimiter_length s" "di = int i" "k = st + Suc i"
        "\<forall>m \<le> i. xs ! (st + m) = ?pat ! m" "token_end (raw l) - p = st" "\<forall>j < st. \<not> occurs_at ?pat xs j"
      using inv by (auto simp: cpp_content_inv_def)
    with True have match: "\<forall>m \<le> Suc i. xs ! (st + m) = ?pat ! m"
      by (auto simp: le_Suc_eq)
    have te: "token_end (raw l) = p + st" using i(2,5) end_ge by linarith
    show ?thesis
    proof (cases "i = delimiter_length s")
      case full: True
      with match \<open>k < length xs\<close> i(3) wf have "occurs_at ?pat xs st"
        by (auto simp: occurs_at_def cpp_closing_nth(1))
      then show ?thesis
        using full True la c i te wf by (auto simp: cpp_content_step_def cpp_closing_nth(4))
    next
      case False
      with i have "i < delimiter_length s" by simp
      then have "?pat ! Suc i = delimiter s ! i" using wf by (simp add: cpp_closing_nth(3))
      then show ?thesis
        using True la c l(2) i match te \<open>i < delimiter_length s\<close> \<open>k < length xs\<close>
        by (auto simp: cpp_content_step_def cpp_content_inv_def Let_def intro!: exI [of _ st] exI [of _ "Suc i"])
    qed
  next
    case False
    then have none: "\<forall>j < k. \<not> occurs_at ?pat xs j"
      by (intro cpp_content_inv_none [OF inv wf nd]) auto
    have step: "cpp_content_step E s (di, l) =
        (if ?c = 41 then Some (Next (0, advance E (mark_end E l))) else Some (Next (-1, advance E l)))"
      using False inv la c cpp_closing_nth [OF wf]
      by (auto simp: cpp_content_step_def cpp_content_inv_def Let_def)
    show ?thesis
    proof (cases "?c = 41")
      case True
      then show ?thesis
        using step none l c \<open>k < length xs\<close> cpp_closing_nth(2) [OF wf]
        by (auto simp: cpp_content_inv_def drop_Suc tl_drop)
    next
      case False
      have "?pat \<noteq> []" by (simp add: cpp_closing_def)
      with False occurs_at_extend [OF none] cpp_closing_nth(2) [OF wf]
      have "\<forall>j < Suc k. \<not> occurs_at ?pat xs j" by simp
      then show ?thesis
        using False step l c \<open>k < length xs\<close> by (auto simp: cpp_content_inv_def drop_Suc tl_drop)
    qed
  qed
qed

lemma runs_cpp_content:
  assumes wf: "cpp_wf s" and nd: "41 \<notin> set (cpp_view s)"
  shows "runs (cpp_scan_raw_string_content E s l) (\<lambda>(b, l'). b \<and> (\<exists>n. token_end (raw l') = pos (raw l) + n \<and>
        (\<forall>j < n. \<not> occurs_at (cpp_closing s) (rest (raw l)) j) \<and>
        (occurs_at (cpp_closing s) (rest (raw l)) n \<or> n = remaining l)))"
proof -
  define xs where "xs = rest (raw l)"
  define p where "p = pos (raw l)"
  let ?I = "\<lambda>(di, l'). \<exists>k \<le> length xs. rest (raw l') = drop k xs \<and> pos (raw l') = p + k
    \<and> (0 \<le> di \<longrightarrow> p \<le> token_end (raw l'))
    \<and> cpp_content_inv (cpp_closing s) xs (delimiter_length s) di k (token_end (raw l') - p)"
  show ?thesis
    unfolding cpp_scan_raw_string_content_def xs_def [symmetric] p_def [symmetric]
  proof (rule runs_c_loop [where I = ?I and m = "\<lambda>(di, l'). remaining l'"])
    show "?I (-1, l)" by (auto simp: xs_def p_def cpp_content_inv_def intro!: exI [of _ 0])
  next
    fix x :: "int \<times> 'a cpp_lexer" assume "?I x"
    then obtain di l' k where x: "x = (di, l')" and "k \<le> length xs"
        "rest (raw l') = drop k xs" "pos (raw l') = p + k" "0 \<le> di \<longrightarrow> p \<le> token_end (raw l')"
        "cpp_content_inv (cpp_closing s) xs (delimiter_length s) di k (token_end (raw l') - p)"
      by (cases x) auto
    from cpp_content_step_inv [OF wf nd this(2-4,6,5)] \<open>rest (raw l') = drop k xs\<close>
    show "runs (cpp_content_step E s x) (\<lambda>y. case y of
        Next s' \<Rightarrow> ?I s' \<and> (case s' of (di, l') \<Rightarrow> remaining l') < (case x of (di, l') \<Rightarrow> remaining l')
      | Return r \<Rightarrow> case r of (b, l') \<Rightarrow> b \<and> (\<exists>n. token_end (raw l') = p + n \<and>
          (\<forall>j < n. \<not> occurs_at (cpp_closing s) xs j) \<and> (occurs_at (cpp_closing s) xs n \<or> n = length xs)))"
      unfolding x by (elim runs_weaken) (auto split: flow.splits intro: exI [of _ "Suc k"])
  qed
qed

end

text \<open>The opening delimiter: what the loop has recorded after reading a prefix of it.\<close>

context ts_lexer
begin

lemma runs_cpp_opening:
  assumes "cpp_wf s" and "delimiter_length s = 0" and "int32_input ds"
    and "rest (raw l) = ds @ 40 # ys" and "\<forall>c \<in> set ds. c \<noteq> 40 \<and> c \<noteq> 92 \<and> \<not> iswspace E c"
  shows "runs (cpp_scan_opening_delimiter E s l)
     (\<lambda>(b, s', l'). (b \<longleftrightarrow> ds \<noteq> [] \<and> length ds < MAX_DELIMITER_LENGTH) \<and> (b \<longrightarrow> cpp_view s' = ds))"
  unfolding cpp_scan_opening_delimiter_def
proof (rule runs_c_loop [where m = "\<lambda>(s, l'). remaining l'"
      and I = "\<lambda>(s, l'). cpp_wf s \<and> (\<exists>zs. ds = cpp_view s @ zs \<and> rest (raw l') = zs @ 40 # ys)"], goal_cases)
  case 1
  from assms(2,4) \<open>cpp_wf s\<close> show ?case by (simp add: cpp_view_def)
next
  case (2 x)
  then obtain t l' zs where x: "x = (t, l')" and wf: "cpp_wf t" and zs: "ds = cpp_view t @ zs"
      "rest (raw l') = zs @ 40 # ys"
    by (cases x) auto
  have len: "length ds = delimiter_length t + length zs" and le: "delimiter_length t \<le> MAX_DELIMITER_LENGTH"
    using zs(1) wf length_cpp_view [OF wf] by (auto simp: cpp_wf_def)
  have nil: "cpp_view t = [] \<longleftrightarrow> delimiter_length t = 0"
    using length_cpp_view [OF wf] by auto
  show ?case
  proof (cases zs)
    case Nil
    have "\<not> iswspace E 40" by (simp add: iswspace_def)
    with Nil zs wf len le nil show ?thesis by (auto simp: x)
  next
    case (Cons c zs')
    with zs assms(3,5) have c: "c \<noteq> 40" "c \<noteq> 92" "\<not> iswspace E c" "-2147483648 \<le> c" "c < 2147483648"
      by (auto simp: int32_input_def)
    from zs Cons have la: "lookahead E l' = c" by simp
    show ?thesis
      using Cons zs wf len le c la cpp_wf_push [OF wf _ c(4,5)] by (auto simp: x)
  qed
qed

end

text \<open>C29. From a well-formed state and an input of 32-bit code points the C++ scan returns, leaves the
  state well formed (at most 16 cells, all of them inside the array), and reports only a
  token the parser asked for.\<close>

theorem cpp_scan_keeps_state:
  assumes "ts_lexer E rest" and "cpp_wf s" and "int32_input (rest (raw l))"
  shows "\<exists>b s' l'. cpp_scan E v s l = Some (b, s', l') \<and> cpp_wf s' \<and> (b \<longrightarrow> v (result_symbol l'))"
  using ts_lexer.runs_cpp_scan [OF assms] by (rule runs_tripleD)

theorem cpp_scan_keeps_state_witness:
  "\<exists>b s' l'. cpp_scan list_env (\<lambda>t. t = RAW_STRING_DELIMITER) cpp_create (lex_string RAW_STRING_CONTENT ''ab('') = Some (b, s', l')
     \<and> cpp_wf s' \<and> (b \<longrightarrow> result_symbol l' = RAW_STRING_DELIMITER)"
  using cpp_scan_keeps_state [OF ts_lexer_list_env, of cpp_create "lex_string RAW_STRING_CONTENT ''ab(''"
      "\<lambda>t. t = RAW_STRING_DELIMITER"]
  by (simp add: cpp_wf_def cpp_create_def MAX_DELIMITER_LENGTH_def int32_input_def lex_string_def)

text \<open>A saved C++ scanner is restored whatever object it is restored into, it fits the buffer, and
  an empty buffer gives the initial state.\<close>

lemma cpp_serialize_roundtrip:
  assumes "cpp_wf s"
  shows "(\<exists>s'. cpp_deserialize t (cpp_serialize s) = Some s' \<and> cpp_view s' = cpp_view s) \<and>
    length (cpp_serialize s) \<le> TREE_SITTER_SERIALIZATION_BUFFER_SIZE \<and>
    (\<exists>s'. cpp_deserialize t [] = Some s' \<and> cpp_view s' = cpp_view cpp_create)"
  using cpp.restore [OF assms, of t] cpp.serialize_fits [OF assms] cpp.reset [of t] by blast

text \<open>C17. The content of a raw string ends at the first occurrence of the closing parenthesis, the
  delimiter and a double quote, and at the end of the input when there is none; the
  closing sequence is not part of the token. (The delimiter must not contain a closing
  parenthesis.)\<close>

theorem cpp_raw_string_content_end:
  assumes "ts_lexer_marks E rest pos token_end" and "cpp_wf s" and "41 \<notin> set (cpp_view s)"
  shows "\<exists>l' n. cpp_scan_raw_string_content E s l = Some (True, l') \<and> token_end (raw l') = pos (raw l) + n \<and>
     (\<forall>j < n. \<not> occurs_at (cpp_closing s) (rest (raw l)) j) \<and>
     (occurs_at (cpp_closing s) (rest (raw l)) n \<or> n = length (rest (raw l)))"
  using ts_lexer_marks.runs_cpp_content [OF assms, of l] by (auto dest!: runs_pairD)

theorem cpp_raw_string_content_end_witness:
  "\<exists>l'. cpp_scan_raw_string_content list_env \<lparr>delimiter_length = 1, delimiter = 97 # replicate 15 0\<rparr>
        (lex_string RAW_STRING_CONTENT [CHR ''x'', CHR '')'', CHR ''a'', CHR 0x22]) = Some (True, l') \<and> ll_end (raw l') = 1"
proof -
  let ?s = "\<lparr>delimiter_length = 1, delimiter = 97 # replicate 15 0\<rparr>"
  let ?l = "lex_string RAW_STRING_CONTENT [CHR ''x'', CHR '')'', CHR ''a'', CHR 0x22]"
  have "cpp_wf ?s" "41 \<notin> set (cpp_view ?s)"
    by (simp_all add: cpp_wf_def cpp_view_def MAX_DELIMITER_LENGTH_def)
  from cpp_raw_string_content_end [OF list_lexer.ts_lexer_marks_axioms this, of ?l]
  obtain l' n where r: "cpp_scan_raw_string_content list_env ?s ?l = Some (True, l')" "ll_end (raw l') = n"
      "\<forall>j < n. \<not> occurs_at (cpp_closing ?s) [120, 41, 97, 34] j"
      "occurs_at (cpp_closing ?s) [120, 41, 97, 34] n \<or> n = 4"
    by (auto simp: lex_string_def)
  have "occurs_at (cpp_closing ?s) [120, 41, 97, 34] 1" "\<not> occurs_at (cpp_closing ?s) [120, 41, 97, 34] 0"
    by (auto simp: occurs_at_def cpp_closing_def cpp_view_def less_Suc_eq numeral_eq_Suc)
  moreover have "occurs_at (cpp_closing ?s) [120, 41, 97, 34] n \<Longrightarrow> n \<le> 1"
    by (simp add: occurs_at_def cpp_closing_def cpp_view_def)
  ultimately have "n = 1" using r(3,4) by (metis le_neq_implies_less less_one one_less_numeral_iff semiring_norm(76))
  with r show ?thesis by auto
qed

text \<open>Which opening delimiters the scan accepts: one to fifteen characters up to the parenthesis,
  with no backslash and no white space in them. The recorded delimiter is exactly those
  characters. (A delimiter of sixteen characters, the limit the language sets and the
  source cites, is rejected.)\<close>

lemma cpp_opening_delimiter_iff:
  assumes "ts_lexer E rest" and "cpp_wf s" and "delimiter_length s = 0" and "int32_input ds"
    and "rest (raw l) = ds @ 40 # ys" and "\<forall>c \<in> set ds. c \<noteq> 40 \<and> c \<noteq> 92 \<and> \<not> iswspace E c"
  shows "\<exists>s' l'. cpp_scan_raw_string_delimiter E s l = Some (ds \<noteq> [] \<and> length ds < MAX_DELIMITER_LENGTH, s', l')
     \<and> (ds \<noteq> [] \<and> length ds < MAX_DELIMITER_LENGTH \<longrightarrow> cpp_view s' = ds)"
  using runs_tripleD [OF ts_lexer.runs_cpp_opening [OF assms]] assms(3)
  by (auto simp: cpp_scan_raw_string_delimiter_def)

end
