(* ===== verification/Lua_Scanner.thy ===== *)
theory Lua_Scanner
  imports TS_Serialize
begin

text \<open>
  The Lua scanner, \<^verbatim>\<open>lua/src/scanner.c\<close>: long brackets, \<open>[==[ ... ]==]\<close>, of strings
  and of comments. Its state is the level of the bracket it is in, a \<^verbatim>\<open>uint8_t\<close>, and
  a character that ends a line comment.

  Shown here: the scan always returns, reports only what was asked for and never sets
  the ending character; a bracket of level \<open>m\<close> is closed by one of level \<open>n\<close> exactly
  when they agree modulo 256; the content of a block ends at the first such bracket; a
  saved state is restored, while an empty buffer leaves the state as it was.
\<close>

datatype lua_token =
    BLOCK_COMMENT_START | BLOCK_COMMENT_CONTENT | BLOCK_COMMENT_END
  | BLOCK_STRING_START | BLOCK_STRING_CONTENT | BLOCK_STRING_END

type_synonym 'l lua_lexer = "('l, lua_token) TSLexer"

record lua_scanner =
  ending_char :: "8 word"
  level_count :: "8 word"

section \<open>Operations\<close>

definition lua_consume_char :: "int \<Rightarrow> 'l env \<Rightarrow> 'l lua_lexer \<Rightarrow> bool \<times> 'l lua_lexer" where
  "lua_consume_char c E l = (if lookahead E l \<noteq> c then (False, l) else (True, advance E l))"

definition lua_consume_and_count_char :: "int \<Rightarrow> 'l env \<Rightarrow> 'l lua_lexer \<Rightarrow> (8 word \<times> 'l lua_lexer) option" where
  "lua_consume_and_count_char c E l =
     c_loop (\<lambda>(count, l).
       if lookahead E l = c then Some (Next (count + 1, advance E l))
       else Some (Return (count, l))) (0, l)"

definition lua_skip_whitespaces :: "'l env \<Rightarrow> 'l lua_lexer \<Rightarrow> 'l lua_lexer option" where
  "lua_skip_whitespaces E l = skip_while E (iswspace E) l"

definition lua_reset_state :: "lua_scanner \<Rightarrow> lua_scanner" where
  "lua_reset_state s = s\<lparr>ending_char := 0, level_count := 0\<rparr>"

definition lua_create :: lua_scanner where
  "lua_create = \<lparr>ending_char = 0, level_count = 0\<rparr>"

definition lua_serialize :: "lua_scanner \<Rightarrow> byte list" where
  "lua_serialize s = [ending_char s, level_count s]"

definition lua_deserialize :: "lua_scanner \<Rightarrow> byte list \<Rightarrow> lua_scanner option" where
  "lua_deserialize s buffer =
     (case buffer of
        [] \<Rightarrow> Some s
      | [a] \<Rightarrow> Some (s\<lparr>ending_char := a\<rparr>)
      | a # b # _ \<Rightarrow> Some (s\<lparr>ending_char := a, level_count := b\<rparr>))"

definition lua_scan_block_start ::
  "'l env \<Rightarrow> lua_scanner \<Rightarrow> 'l lua_lexer \<Rightarrow> (bool \<times> lua_scanner \<times> 'l lua_lexer) option" where
  "lua_scan_block_start E s l =
     (case lua_consume_char (ch CHR ''['') E l of
        (False, l) \<Rightarrow> Some (False, s, l)
      | (True, l) \<Rightarrow>
          do { (level, l) \<leftarrow> lua_consume_and_count_char (ch CHR ''='') E l;
               (case lua_consume_char (ch CHR ''['') E l of
                  (False, l) \<Rightarrow> Some (False, s, l)
                | (True, l) \<Rightarrow> Some (True, s\<lparr>level_count := level\<rparr>, l)) })"

definition lua_scan_block_end :: "'l env \<Rightarrow> lua_scanner \<Rightarrow> 'l lua_lexer \<Rightarrow> (bool \<times> 'l lua_lexer) option" where
  "lua_scan_block_end E s l =
     (case lua_consume_char (ch CHR '']'') E l of
        (False, l) \<Rightarrow> Some (False, l)
      | (True, l) \<Rightarrow>
          do { (level, l) \<leftarrow> lua_consume_and_count_char (ch CHR ''='') E l;
               if level_count s = level then Some (lua_consume_char (ch CHR '']'') E l)
               else Some (False, l) })"

definition lua_scan_block_content :: "'l env \<Rightarrow> lua_scanner \<Rightarrow> 'l lua_lexer \<Rightarrow> (bool \<times> 'l lua_lexer) option" where
  "lua_scan_block_content E s l =
     c_loop (\<lambda>l.
       if lookahead E l \<noteq> 0 then
         if lookahead E l = ch CHR '']'' then
           do { (b, l) \<leftarrow> lua_scan_block_end E s (mark_end E l);
                Some (if b then Return (True, l) else Next l) }
         else Some (Next (advance E l))
       else Some (Return (False, l))) l"

definition lua_scan_comment_start ::
  "'l env \<Rightarrow> lua_scanner \<Rightarrow> 'l lua_lexer \<Rightarrow> (bool \<times> lua_scanner \<times> 'l lua_lexer) option" where
  "lua_scan_comment_start E s l =
     (case lua_consume_char (ch CHR ''-'') E l of
        (False, l) \<Rightarrow> Some (False, s, l)
      | (True, l) \<Rightarrow>
          (case lua_consume_char (ch CHR ''-'') E l of
             (False, l) \<Rightarrow> Some (False, s, l)
           | (True, l) \<Rightarrow>
               do { (b, s, l) \<leftarrow> lua_scan_block_start E s (mark_end E l);
                    if b then Some (True, s, set_symbol BLOCK_COMMENT_START (mark_end E l))
                    else Some (False, s, l) }))"

definition lua_scan_comment_content ::
  "'l env \<Rightarrow> lua_scanner \<Rightarrow> 'l lua_lexer \<Rightarrow> (bool \<times> lua_scanner \<times> 'l lua_lexer) option" where
  "lua_scan_comment_content E s l =
     (if ending_char s = 0 then
        do { (b, l) \<leftarrow> lua_scan_block_content E s l;
             if b then Some (True, s, set_symbol BLOCK_COMMENT_CONTENT l) else Some (False, s, l) }
      else
        c_loop (\<lambda>l.
          if lookahead E l \<noteq> 0 then
            if lookahead E l = sint (ending_char s)
            then Some (Return (True, lua_reset_state s, set_symbol BLOCK_COMMENT_CONTENT l))
            else Some (Next (advance E l))
          else Some (Return (False, s, l))) l)"

text \<open>The five attempts of the scan function, each of which ends it when it succeeds.\<close>

definition lua_scan :: "'l env \<Rightarrow> (lua_token \<Rightarrow> bool) \<Rightarrow> lua_scanner \<Rightarrow> 'l lua_lexer \<Rightarrow>
    (bool \<times> lua_scanner \<times> 'l lua_lexer) option" where
  "lua_scan E valid_symbols s l =
     then_return
       (and_then (and_then (and_then
          (if valid_symbols BLOCK_STRING_END then
             do { (b, l) \<leftarrow> lua_scan_block_end E s l;
                  Some (if b then Return (True, lua_reset_state s, set_symbol BLOCK_STRING_END l) else Next (s, l)) }
           else Some (Next (s, l)))
        (\<lambda>(s, l).
           if valid_symbols BLOCK_STRING_CONTENT then
             do { (b, l) \<leftarrow> lua_scan_block_content E s l;
                  Some (if b then Return (True, s, set_symbol BLOCK_STRING_CONTENT l) else Next (s, l)) }
           else Some (Next (s, l))))
        (\<lambda>(s, l).
           if valid_symbols BLOCK_COMMENT_END \<and> ending_char s = 0 then
             do { (b, l) \<leftarrow> lua_scan_block_end E s l;
                  Some (if b then Return (True, lua_reset_state s, set_symbol BLOCK_COMMENT_END l) else Next (s, l)) }
           else Some (Next (s, l))))
        (\<lambda>(s, l).
           if valid_symbols BLOCK_COMMENT_CONTENT then
             do { (b, s, l) \<leftarrow> lua_scan_comment_content E s l;
                  Some (if b then Return (True, s, l) else Next (s, l)) }
           else Some (Next (s, l))))
       (\<lambda>(s, l).
          do { l \<leftarrow> lua_skip_whitespaces E l;
               (b, s, l) \<leftarrow>
                 (if valid_symbols BLOCK_STRING_START then lua_scan_block_start E s l else Some (False, s, l));
               if b then Some (True, s, set_symbol BLOCK_STRING_START l)
               else if valid_symbols BLOCK_COMMENT_START then lua_scan_comment_start E s l
               else Some (False, s, l) })"

section \<open>Saving and restoring\<close>

interpretation lua: external_scanner lua_serialize lua_deserialize "\<lambda>_. True" "\<lambda>s. s"
  by unfold_locales
    (simp_all add: lua_serialize_def lua_deserialize_def TREE_SITTER_SERIALIZATION_BUFFER_SIZE_def)

interpretation lua_parse: resumable_scanner lua_serialize lua_deserialize "\<lambda>_. True" "\<lambda>s. s"
  "\<lambda>s (v, l). map_option (\<lambda>(b, s, l). ((b, l), s)) (lua_scan E v s l)" for E :: "'l env"
  by unfold_locales simp_all

section \<open>Scanning\<close>

definition lua_closer :: "8 word \<Rightarrow> int list \<Rightarrow> bool" where
  "lua_closer level xs \<longleftrightarrow> (\<exists>m ys. xs = 93 # replicate m 61 @ 93 # ys \<and> of_nat m = level)"

context ts_lexer
begin

lemma runs_lua_count:
  assumes "c \<noteq> 0"
  shows "runs (lua_consume_and_count_char c E l)
     (\<lambda>(n, l'). n = of_nat (length (takeWhile (\<lambda>x. x = c) (rest (raw l))))
        \<and> rest (raw l') = dropWhile (\<lambda>x. x = c) (rest (raw l)) \<and> result_symbol l' = result_symbol l)"
  unfolding lua_consume_and_count_char_def
proof (rule runs_c_loop [where m = "\<lambda>(n, l'). remaining l'"
      and I = "\<lambda>(n, l'). \<exists>k. n = of_nat k \<and> result_symbol l' = result_symbol l
        \<and> length (takeWhile (\<lambda>x. x = c) (rest (raw l))) = k + length (takeWhile (\<lambda>x. x = c) (rest (raw l')))
        \<and> dropWhile (\<lambda>x. x = c) (rest (raw l)) = dropWhile (\<lambda>x. x = c) (rest (raw l'))"], goal_cases)
  case 1
  show ?case by (auto intro!: exI [of _ 0])
next
  case (2 x)
  then obtain k l' where x: "x = (of_nat k, l')" "result_symbol l' = result_symbol l"
      "length (takeWhile (\<lambda>x. x = c) (rest (raw l))) = k + length (takeWhile (\<lambda>x. x = c) (rest (raw l')))"
      "dropWhile (\<lambda>x. x = c) (rest (raw l)) = dropWhile (\<lambda>x. x = c) (rest (raw l'))"
    by (cases x) auto
  then show ?case
    using assms by (cases "rest (raw l')") (auto intro!: exI [of _ "Suc k"])
qed

lemma runs_lua_scan_block_start:
  "runs (lua_scan_block_start E s l) (\<lambda>(b, s', l'). ending_char s' = ending_char s
     \<and> remaining l' \<le> remaining l \<and> result_symbol l' = result_symbol l)"
  unfolding lua_scan_block_start_def lua_consume_char_def
  by (auto split: prod.splits bool.splits intro!: runs_weaken [OF runs_lua_count])

text \<open>At a bracket, \<open>lua_scan_block_end\<close> reads it and all equals signs after it.\<close>

lemma runs_lua_scan_block_end:
  "runs (lua_scan_block_end E s l) (\<lambda>(b, l'). result_symbol l' = result_symbol l
     \<and> remaining l' \<le> remaining l \<and> (lookahead E l = 93 \<longrightarrow> remaining l' < remaining l)
     \<and> b = lua_closer (level_count s) (rest (raw l))
     \<and> (\<not> b \<longrightarrow> lookahead E l = 93 \<longrightarrow> rest (raw l') = dropWhile (\<lambda>x. x = 61) (tl (rest (raw l)))))"
proof -
  have closer: "lua_closer n (93 # xs) \<longleftrightarrow>
      of_nat (length (takeWhile (\<lambda>x. x = 61) xs)) = n \<and> (\<exists>ys. dropWhile (\<lambda>x. x = 61) xs = 93 # ys)" for n xs
  proof
    assume "lua_closer n (93 # xs)"
    then obtain m ys where m: "xs = replicate m 61 @ 93 # ys" "of_nat m = n"
      by (auto simp: lua_closer_def)
    have "takeWhile (\<lambda>x. x = 61) xs = replicate m 61" "dropWhile (\<lambda>x. x = 61) xs = 93 # ys"
      unfolding m(1) by (induction m) auto
    with m(2) show "of_nat (length (takeWhile (\<lambda>x. x = 61) xs)) = n \<and> (\<exists>ys. dropWhile (\<lambda>x. x = 61) xs = 93 # ys)"
      by simp
  next
    assume r: "of_nat (length (takeWhile (\<lambda>x. x = 61) xs)) = n \<and> (\<exists>ys. dropWhile (\<lambda>x. x = 61) xs = 93 # ys)"
    have "takeWhile (\<lambda>x. x = 61) xs = replicate (length (takeWhile (\<lambda>x. x = 61) xs)) 61"
      by (induction xs) auto
    with r show "lua_closer n (93 # xs)"
      unfolding lua_closer_def by (metis takeWhile_dropWhile_id)
  qed
  show ?thesis
  proof (cases "rest (raw l)")
    case Nil
    then show ?thesis by (simp add: lua_scan_block_end_def lua_consume_char_def lua_closer_def)
  next
    case (Cons c cs)
    show ?thesis
    proof (cases "c = 93")
      case True
      with Cons show ?thesis
        unfolding lua_scan_block_end_def lua_consume_char_def
        apply (simp add: closer)
        apply (rule runs_weaken [OF runs_lua_count])
         apply simp
        subgoal for x
          by (cases "dropWhile (\<lambda>x. x = 61) cs")
            (use length_dropWhile_le [of "\<lambda>x. x = 61" cs] in \<open>auto simp: lookahead_view\<close>)
        done
    next
      case False
      with Cons show ?thesis
        by (auto simp: lua_scan_block_end_def lua_consume_char_def lua_closer_def)
    qed
  qed
qed

lemma runs_lua_scan_block_content:
  "runs (lua_scan_block_content E s l) (\<lambda>(b, l'). remaining l' \<le> remaining l \<and> result_symbol l' = result_symbol l)"
  unfolding lua_scan_block_content_def
  by (rule runs_c_loop [where m = remaining
        and I = "\<lambda>l'. remaining l' \<le> remaining l \<and> result_symbol l' = result_symbol l"])
    (auto intro!: runs_weaken [OF runs_lua_scan_block_end])

lemma runs_lua_scan_comment_start:
  "runs (lua_scan_comment_start E s l) (\<lambda>(b, s', l'). ending_char s' = ending_char s
     \<and> (b \<longrightarrow> result_symbol l' = BLOCK_COMMENT_START))"
  unfolding lua_scan_comment_start_def lua_consume_char_def
  by (auto split: prod.splits bool.splits intro!: runs_weaken [OF runs_lua_scan_block_start])

lemma runs_lua_scan_comment_content:
  "ending_char s = 0 \<Longrightarrow> runs (lua_scan_comment_content E s l) (\<lambda>(b, s', l'). ending_char s' = 0
     \<and> (b \<longrightarrow> result_symbol l' = BLOCK_COMMENT_CONTENT))"
  unfolding lua_scan_comment_content_def
  by (auto intro!: runs_weaken [OF runs_lua_scan_block_content])

lemma runs_lua_skip_whitespaces: "runs (lua_skip_whitespaces E l) (\<lambda>_. True)"
  unfolding lua_skip_whitespaces_def by (rule wp_skip_while) simp_all

lemma lua_reset_ending [simp]: "ending_char (lua_reset_state s) = 0"
  by (simp add: lua_reset_state_def)

lemma runs_lua_scan:
  assumes "ending_char s = 0"
  shows "runs (lua_scan E v s l) (\<lambda>(b, s', l'). ending_char s' = 0 \<and> (b \<longrightarrow> v (result_symbol l')))"
  unfolding lua_scan_def
proof (rule runs_then_return_inv [where I = "\<lambda>(s, l). ending_char s = 0"],
    (rule runs_and_then_inv [where I = "\<lambda>(s, l). ending_char s = 0"])+, goal_cases)
  case 1
  then show ?case by (auto simp: assms intro!: runs_weaken [OF runs_lua_scan_block_end])
next
  case (2 x)
  then show ?case by (auto intro!: runs_weaken [OF runs_lua_scan_block_content])
next
  case (3 x)
  then show ?case by (auto intro!: runs_weaken [OF runs_lua_scan_block_end])
next
  case (4 x)
  then show ?case by (auto intro!: runs_weaken [OF runs_lua_scan_comment_content])
next
  case (5 x)
  then show ?case
    by (auto intro!: runs_weaken [OF runs_lua_skip_whitespaces] runs_weaken [OF runs_lua_scan_block_start]
        runs_weaken [OF runs_lua_scan_comment_start])
qed

text \<open>An opening bracket records its level.\<close>

lemma runs_lua_open:
  assumes "rest (raw l) = 91 # replicate m 61 @ 91 # ys"
  shows "runs (lua_scan_block_start E s l) (\<lambda>(b, s', l'). b \<and> s' = s\<lparr>level_count := of_nat m\<rparr> \<and> rest (raw l') = ys)"
proof -
  have "takeWhile (\<lambda>x. x = 61) (replicate m 61 @ 91 # ys) = replicate m (61 :: int)"
    "dropWhile (\<lambda>x. x = 61) (replicate m 61 @ 91 # ys) = (91 :: int) # ys"
    by (induction m) auto
  with assms show ?thesis
    unfolding lua_scan_block_start_def lua_consume_char_def
    by (auto intro!: runs_weaken [OF runs_lua_count])
qed

end

context ts_lexer_marks
begin

lemma runs_lua_count_marks:
  assumes "c \<noteq> 0"
  shows "runs (lua_consume_and_count_char c E l) (\<lambda>(n, l'). token_end (raw l') = token_end (raw l)
     \<and> pos (raw l') + remaining l' = pos (raw l) + remaining l)"
  unfolding lua_consume_and_count_char_def
  by (rule runs_c_loop [where m = "\<lambda>(n, l'). remaining l'"
        and I = "\<lambda>(n, l'). token_end (raw l') = token_end (raw l)
          \<and> pos (raw l') + remaining l' = pos (raw l) + remaining l"])
    (use assms in \<open>auto simp del: pos_ops(1,2)\<close>)

lemma runs_lua_block_end_marks:
  "runs (lua_scan_block_end E s l) (\<lambda>(b, l'). token_end (raw l') = token_end (raw l)
     \<and> pos (raw l') + remaining l' = pos (raw l) + remaining l)"
  unfolding lua_scan_block_end_def lua_consume_char_def
  by (auto simp del: pos_ops(1,2) split: prod.splits bool.splits intro!: runs_weaken [OF runs_lua_count_marks])

lemma runs_lua_content:
  fixes l :: "'a lua_lexer"
  assumes "0 \<notin> set (rest (raw l))"
  shows "runs (lua_scan_block_content E s l) (\<lambda>(b, l').
     if b then \<exists>k. token_end (raw l') = pos (raw l) + k \<and> lua_closer (level_count s) (drop k (rest (raw l)))
        \<and> (\<forall>j < k. \<not> lua_closer (level_count s) (drop j (rest (raw l))))
     else \<forall>j. \<not> lua_closer (level_count s) (drop j (rest (raw l))))"
proof -
  define xs p where "xs = rest (raw l)" and "p = pos (raw l)"
  let ?closer = "\<lambda>j. lua_closer (level_count s) (drop j xs)"
  let ?I = "\<lambda>l'. \<exists>k \<le> length xs. rest (raw l') = drop k xs \<and> pos (raw l') = p + k \<and> (\<forall>j < k. \<not> ?closer j)"
  have head: "?closer j \<Longrightarrow> j < length xs \<and> xs ! j = 93" for j
    by (cases "j < length xs") (auto simp: lua_closer_def Cons_nth_drop_Suc [symmetric])
  have run: "\<not> ?closer j" if "k < j" "j \<le> k + length (takeWhile (\<lambda>x. x = 61) (drop (Suc k) xs))" for j k
  proof -
    let ?t = "takeWhile (\<lambda>x. x = 61) (drop (Suc k) xs)"
    from that have m: "j - Suc k < length ?t" by simp
    then have "?t ! (j - Suc k) = 61" using nth_mem set_takeWhileD by fastforce
    with m that have "xs ! j = 61"
      using length_takeWhile_le [of "\<lambda>x. x = 61" "drop (Suc k) xs"] by (simp add: takeWhile_nth)
    with head [of j] show ?thesis by auto
  qed
  show ?thesis
    unfolding lua_scan_block_content_def xs_def [symmetric] p_def [symmetric]
  proof (rule runs_c_loop [where I = ?I and m = remaining], goal_cases)
    case 1
    show ?case by (auto simp: xs_def p_def intro!: exI [of _ 0])
  next
    case (2 l')
    then obtain k where k: "k \<le> length xs" "rest (raw l') = drop k xs" "pos (raw l') = p + k" "\<forall>j < k. \<not> ?closer j"
      by auto
    show ?case
    proof (cases "k < length xs")
      case False
      with k head show ?thesis by auto
    next
      case True
      have "0 \<notin> set xs" using assms by (simp add: xs_def)
      with nth_mem [OF True] have nz: "xs ! k \<noteq> 0" by metis
      from True k(2) have c: "rest (raw l') = xs ! k # drop (Suc k) xs"
        by (simp add: Cons_nth_drop_Suc)
      show ?thesis
      proof (cases "xs ! k = 93")
        case False
        with c nz k True head [of k] show ?thesis
          by (auto intro!: exI [of _ "Suc k"] simp: less_Suc_eq)
      next
        case bracket: True
        let ?m = "length (takeWhile (\<lambda>x. x = 61) (drop (Suc k) xs))"
        have m: "Suc k + ?m \<le> length xs"
          using length_takeWhile_le [of "\<lambda>x. x = 61" "drop (Suc k) xs"] True by simp
        have "runs (lua_scan_block_end E s (mark_end E l')) (\<lambda>(b, l''). token_end (raw l'') = p + k
            \<and> b = ?closer k \<and> (\<not> b \<longrightarrow> rest (raw l'') = drop (Suc k + ?m) xs \<and> pos (raw l'') = p + (Suc k + ?m)))"
          using c k m bracket
          by (intro runs_weaken [OF runs_conj [OF runs_lua_block_end_marks runs_lua_scan_block_end]])
            (auto simp: dropWhile_eq_drop algebra_simps)
        moreover have "\<forall>j < Suc k + ?m. \<not> ?closer j" if "\<not> ?closer k"
        proof (intro allI impI)
          fix j assume "j < Suc k + ?m"
          then consider "j < k" | "j = k" | "k < j" "j \<le> k + ?m" by linarith
          then show "\<not> ?closer j" using k(4) that run by cases auto
        qed
        ultimately show ?thesis
          using c bracket m k(4)
          by (auto elim!: runs_weaken intro: exI [of _ k] exI [of _ "Suc k + ?m"])
      qed
    qed
  qed
qed

end

text \<open>From a state with no ending character (the initial state, and every state a scan leaves) the
  Lua scan returns, leaves such a state, and reports only a token the parser asked for.
  So the branch for line comments of \<^verbatim>\<open>scan_comment_content\<close> is never taken.\<close>

lemma lua_scan_returns:
  assumes "ts_lexer E rest" and "ending_char s = 0"
  shows "\<exists>b s' l'. lua_scan E v s l = Some (b, s', l') \<and> ending_char s' = 0 \<and> (b \<longrightarrow> v (result_symbol l'))"
  using ts_lexer.runs_lua_scan [OF assms] by (rule runs_tripleD)

text \<open>A long bracket opened with \<open>m\<close> equals signs is closed by one with \<open>n\<close> equals signs exactly
  when \<open>m\<close> and \<open>n\<close> agree modulo 256: the level is counted in eight bits and wraps
  around.\<close>

lemma lua_brackets_match_mod_256:
  assumes "ts_lexer E rest" and "rest (raw l) = 91 # replicate m 61 @ 91 # ys"
    and "rest (raw l2) = 93 # replicate n 61 @ 93 # zs"
  shows "\<exists>s' l' l2'. lua_scan_block_start E s l = Some (True, s', l') \<and> rest (raw l') = ys \<and>
     lua_scan_block_end E s' l2 = Some (m mod 256 = n mod 256, l2')"
proof -
  let ?s = "s\<lparr>level_count := of_nat m\<rparr>"
  from runs_tripleD [OF ts_lexer.runs_lua_open [OF assms(1,2)], of s]
  obtain l' where "lua_scan_block_start E s l = Some (True, ?s, l')" "rest (raw l') = ys" by auto
  moreover from runs_pairD [OF ts_lexer.runs_lua_scan_block_end [OF assms(1)], of ?s l2]
  obtain b l2' where "lua_scan_block_end E ?s l2 = Some (b, l2')"
      "b = lua_closer (of_nat m) (rest (raw l2))" by auto
  moreover have "lua_closer (of_nat m) (rest (raw l2)) \<longleftrightarrow> (of_nat n :: 8 word) = of_nat m"
  proof -
    have "k = n" if "replicate n 61 @ 93 # zs = replicate k 61 @ (93 :: int) # us" for k us
      using that
    proof (induction n arbitrary: k)
      case 0
      then show ?case by (cases k) simp_all
    next
      case (Suc n)
      then show ?case by (cases k) simp_all
    qed
    then show ?thesis using assms(3) by (auto simp: lua_closer_def)
  qed
  moreover have "(of_nat n :: 8 word) = of_nat m \<longleftrightarrow> m mod 256 = n mod 256"
    by (auto simp: of_nat_eq_iff word_unat_eq_iff unat_of_nat)
  ultimately show ?thesis by auto
qed

text \<open>C18. In an input with no NUL the content of a block ends just before the first closing bracket of
  the block's level; without such a bracket the scan fails.\<close>

theorem lua_block_content_end:
  assumes "ts_lexer_marks E rest pos token_end" and "0 \<notin> set (rest (raw l))"
  shows "\<exists>b l'. lua_scan_block_content E s l = Some (b, l') \<and>
     (if b then \<exists>k. token_end (raw l') = pos (raw l) + k \<and> lua_closer (level_count s) (drop k (rest (raw l)))
        \<and> (\<forall>j < k. \<not> lua_closer (level_count s) (drop j (rest (raw l))))
      else \<forall>j. \<not> lua_closer (level_count s) (drop j (rest (raw l))))"
  using ts_lexer_marks.runs_lua_content [OF assms, of s] by (rule runs_pairD)

theorem lua_block_content_end_witness:
  "\<exists>b l'. lua_scan_block_content list_env lua_create (lex_string BLOCK_STRING_END ''a]=]]'') = Some (b, l') \<and>
     (if b then \<exists>k. ll_end (raw l') = ll_pos (raw (lex_string BLOCK_STRING_END ''a]=]]'')) + k
          \<and> lua_closer (level_count lua_create) (drop k (ll_rest (raw (lex_string BLOCK_STRING_END ''a]=]]''))))
          \<and> (\<forall>j < k. \<not> lua_closer (level_count lua_create) (drop j (ll_rest (raw (lex_string BLOCK_STRING_END ''a]=]]'')))))
      else \<forall>j. \<not> lua_closer (level_count lua_create) (drop j (ll_rest (raw (lex_string BLOCK_STRING_END ''a]=]]'')))))"
  by (rule lua_block_content_end [OF list_lexer.ts_lexer_marks_axioms]) (simp add: lex_string_def)

text \<open>C26. A saved Lua scanner is restored exactly, and saving and restoring it before every scan of a
  parse changes no result; but restoring from an empty buffer leaves the old state in
  place.\<close>

theorem lua_save_restore_transparent:
  "saved_run lua_serialize lua_deserialize (\<lambda>s (v, l). map_option (\<lambda>(b, s, l). ((b, l), s)) (lua_scan E v s l)) s is
     = direct_run (\<lambda>s (v, l). map_option (\<lambda>(b, s, l). ((b, l), s)) (lua_scan E v s l)) s (map snd is)
   \<and> lua_deserialize t (lua_serialize s) = Some s \<and> lua_deserialize t [] = Some t"
  using lua_parse.saved_run_transparent [of E s "is" s]
  by (simp add: run_saves_always lua_serialize_def lua_deserialize_def)

end
