(* ===== verification/Julia_Scanner.thy ===== *)
theory Julia_Scanner
  imports TS_Lexer
begin

text \<open>
  The Julia scanner, \<^verbatim>\<open>julia/src/scanner.c\<close>: the rest of a nested block comment, the
  opening tokens that must follow immediately, and the content and end of string and
  command literals. It keeps no state.

  Shown here: the scan always returns and what it may report; a block comment ends at the
  delimiter that matches its opening, nested comments included; in a triple-quoted literal
  the character after a lone quote is read without being looked at, so an interpolation
  there is missed.
\<close>

datatype julia_token =
    BLOCK_COMMENT_REST
  | IMMEDIATE_PAREN
  | IMMEDIATE_BRACKET
  | IMMEDIATE_BRACE
  | IMMEDIATE_STRING_START
  | IMMEDIATE_COMMAND_START
  | CONTENT_CMD_1
  | CONTENT_CMD_1_RAW
  | CONTENT_CMD_3
  | CONTENT_CMD_3_RAW
  | CONTENT_STR_1
  | CONTENT_STR_1_RAW
  | CONTENT_STR_3
  | CONTENT_STR_3_RAW
  | END_CMD
  | END_STR

type_synonym 'l julia_lexer = "('l, julia_token) TSLexer"

section \<open>Operations\<close>

text \<open>The \<^verbatim>\<open>for\<close> loop over the characters of a possible end delimiter.\<close>

fun julia_end_delimiter :: "'l env \<Rightarrow> int \<Rightarrow> nat \<Rightarrow> 'l julia_lexer \<Rightarrow> bool \<times> 'l julia_lexer" where
  "julia_end_delimiter E end_char 0 l = (True, l)"
| "julia_end_delimiter E end_char (Suc n) l =
     (if lookahead E l = end_char then julia_end_delimiter E end_char n (advance E l) else (False, l))"

definition julia_content_step :: "'l env \<Rightarrow> julia_token \<Rightarrow> int \<Rightarrow> nat \<Rightarrow> bool \<Rightarrow> bool \<times> 'l julia_lexer \<Rightarrow>
    (bool \<times> 'l julia_lexer, bool \<times> 'l julia_lexer) flow option" where
  "julia_content_step E content_symbol end_char n_delim interp = (\<lambda>(has_content, l).
     let next = lookahead E l in
     if next = 0 then Some (Return (False, l))
     else
       let l = mark_end E l in
       if interp \<and> (next = ch CHR ''$'' \<or> next = ch CHR 0x5C)
       then Some (Return (has_content, set_symbol content_symbol l))
       else if next = ch CHR 0x5C then
         let l = advance E l; next = lookahead E l in
         if next = end_char \<or> next = ch CHR 0x5C
         then Some (Return (has_content, set_symbol content_symbol l))
         else Some (Next (True, advance E l))
       else
         (case julia_end_delimiter E end_char n_delim l of
            (True, l) \<Rightarrow>
              if has_content then Some (Return (True, set_symbol content_symbol l))
              else Some (Return (True, set_symbol (if end_char = ch CHR 0x22 then END_STR else END_CMD) (mark_end E l)))
          | (False, l) \<Rightarrow> Some (Next (True, advance E l))))"

definition julia_scan_content :: "'l env \<Rightarrow> 'l julia_lexer \<Rightarrow> julia_token \<Rightarrow> int \<Rightarrow> nat \<Rightarrow> bool \<Rightarrow>
    (bool \<times> 'l julia_lexer) option" where
  "julia_scan_content E l content_symbol end_char n_delim interp =
     c_loop (julia_content_step E content_symbol end_char n_delim interp) (False, l)"

definition julia_comment_step :: "'l env \<Rightarrow> bool \<times> 32 word \<times> 'l julia_lexer \<Rightarrow>
    (bool \<times> 32 word \<times> 'l julia_lexer, bool \<times> 'l julia_lexer) flow option" where
  "julia_comment_step E = (\<lambda>(after_eq, nesting_depth, l).
     if lookahead E l = ch CHR ''='' then Some (Next (True, nesting_depth, advance E l))
     else if lookahead E l = ch CHR ''#'' then
       let l = advance E l in
       if after_eq then
         if nesting_depth - 1 = 0 then Some (Return (True, set_symbol BLOCK_COMMENT_REST l))
         else Some (Next (False, nesting_depth - 1, l))
       else if lookahead E l = ch CHR ''='' then Some (Next (False, nesting_depth + 1, advance E l))
       else Some (Next (False, nesting_depth, l))
     else if lookahead E l = 0 then Some (Return (False, l))
     else Some (Next (False, nesting_depth, advance E l)))"

definition julia_scan_block_comment :: "'l env \<Rightarrow> 'l julia_lexer \<Rightarrow> (bool \<times> 'l julia_lexer) option" where
  "julia_scan_block_comment E l = c_loop (julia_comment_step E) (False, 1, l)"

text \<open>One attempt of the scan function: if the token is valid, try it, and return when it succeeds.\<close>

definition julia_try :: "bool \<Rightarrow> ('l julia_lexer \<Rightarrow> (bool \<times> 'l julia_lexer) option) \<Rightarrow> 'l julia_lexer \<Rightarrow>
    ('l julia_lexer, bool \<times> 'l julia_lexer) flow option" where
  "julia_try valid f l =
     (if valid then do { (b, l) \<leftarrow> f l; Some (if b then Return (True, l) else Next l) } else Some (Next l))"

definition julia_scan_immediate ::
  "'l env \<Rightarrow> (julia_token \<Rightarrow> bool) \<Rightarrow> 'l julia_lexer \<Rightarrow> ('l julia_lexer, bool \<times> 'l julia_lexer) flow" where
  "julia_scan_immediate E valid_symbols l =
     (if valid_symbols IMMEDIATE_PAREN \<and> lookahead E l = ch CHR ''(''
      then Return (True, set_symbol IMMEDIATE_PAREN l)
      else if valid_symbols IMMEDIATE_BRACKET \<and> lookahead E l = ch CHR ''[''
      then Return (True, set_symbol IMMEDIATE_BRACKET l)
      else if valid_symbols IMMEDIATE_BRACE \<and> lookahead E l = ch CHR ''{''
      then Return (True, set_symbol IMMEDIATE_BRACE l)
      else if valid_symbols IMMEDIATE_STRING_START \<and> lookahead E l = ch CHR 0x22
      then Return (True, set_symbol IMMEDIATE_STRING_START l)
      else if valid_symbols IMMEDIATE_COMMAND_START \<and> lookahead E l = ch CHR ''`''
      then Return (True, set_symbol IMMEDIATE_COMMAND_START l)
      else Next l)"

definition julia_scan ::
  "'l env \<Rightarrow> (julia_token \<Rightarrow> bool) \<Rightarrow> 'l julia_lexer \<Rightarrow> (bool \<times> 'l julia_lexer) option" where
  "julia_scan E valid_symbols l =
     (let content = \<lambda>t c n i. julia_try (valid_symbols t) (\<lambda>l. julia_scan_content E l t c n i) in
      then_return
       (and_then (and_then (and_then (and_then (and_then (and_then (and_then (and_then (and_then
          (Some (julia_scan_immediate E valid_symbols l))
          (julia_try (valid_symbols BLOCK_COMMENT_REST) (julia_scan_block_comment E)))
          (content CONTENT_STR_1 (ch CHR 0x22) 1 True))
          (content CONTENT_STR_3 (ch CHR 0x22) 3 True))
          (content CONTENT_CMD_1 (ch CHR ''`'') 1 True))
          (content CONTENT_CMD_3 (ch CHR ''`'') 3 True))
          (content CONTENT_STR_1_RAW (ch CHR 0x22) 1 False))
          (content CONTENT_STR_3_RAW (ch CHR 0x22) 3 False))
          (content CONTENT_CMD_1_RAW (ch CHR ''`'') 1 False))
          (content CONTENT_CMD_3_RAW (ch CHR ''`'') 3 False))
       (\<lambda>l. Some (False, l)))"

section \<open>Properties\<close>

text \<open>The end of a literal is reported where its content was asked for.\<close>

definition julia_may_report :: "(julia_token \<Rightarrow> bool) \<Rightarrow> julia_token \<Rightarrow> bool" where
  "julia_may_report v t =
     (if t = END_STR then v CONTENT_STR_1 \<or> v CONTENT_STR_3 \<or> v CONTENT_STR_1_RAW \<or> v CONTENT_STR_3_RAW
      else if t = END_CMD then v CONTENT_CMD_1 \<or> v CONTENT_CMD_3 \<or> v CONTENT_CMD_1_RAW \<or> v CONTENT_CMD_3_RAW
      else v t)"

context ts_lexer
begin

lemma julia_end_delimiter_rest:
  "julia_end_delimiter E c n l = (b, l') \<Longrightarrow> remaining l' \<le> remaining l \<and> result_symbol l' = result_symbol l"
proof (induction n arbitrary: l)
  case (Suc n)
  show ?case
  proof (cases "lookahead E l = c")
    case True
    with Suc.prems have "julia_end_delimiter E c n (advance E l) = (b, l')" by simp
    from Suc.IH [OF this] show ?thesis by auto
  next
    case False
    with Suc.prems show ?thesis by auto
  qed
qed simp

lemma runs_julia_scan_content:
  "runs (julia_scan_content E l t c n i)
     (\<lambda>(b, l'). b \<longrightarrow> result_symbol l' = t \<or> result_symbol l' = (if c = 34 then END_STR else END_CMD))"
  unfolding julia_scan_content_def
proof (rule runs_c_loop [where m = "\<lambda>(h, l'). remaining l'" and I = "\<lambda>_. True"], goal_cases)
  case (2 x)
  obtain h l' where x: "x = (h, l')" by (cases x)
  show ?case
  proof (cases "lookahead E l' = 0")
    case False
    then have "0 < remaining l'" by (rule remaining_pos)
    moreover obtain b l2 where d: "julia_end_delimiter E c n (mark_end E l') = (b, l2)" by fastforce
    ultimately have "remaining l2 - Suc 0 < remaining l'"
      using julia_end_delimiter_rest [OF d, THEN conjunct1] unfolding rest_ops(3) by linarith
    then show ?thesis
      using False by (cases b) (auto simp: x d julia_content_step_def Let_def)
  qed (simp add: x julia_content_step_def)
qed simp

lemma runs_julia_scan_block_comment:
  "runs (julia_scan_block_comment E l) (\<lambda>(b, l'). b \<longrightarrow> result_symbol l' = BLOCK_COMMENT_REST)"
  unfolding julia_scan_block_comment_def
  by (rule runs_c_loop [where m = "\<lambda>(a, d, l'). remaining l'" and I = "\<lambda>_. True"])
    (auto simp: julia_comment_step_def Let_def)

lemma runs_julia_try:
  assumes "valid \<Longrightarrow> runs (f l) (\<lambda>(b, l'). b \<longrightarrow> Q (result_symbol l'))"
  shows "runs (julia_try valid f l) (case_flow (\<lambda>_. True) (\<lambda>(b, l'). b \<longrightarrow> Q (result_symbol l')))"
  using assms by (auto simp: julia_try_def elim!: runs_weaken)

lemma runs_julia_scan: "runs (julia_scan E v l) (\<lambda>(b, l'). b \<longrightarrow> julia_may_report v (result_symbol l'))"
proof -
  have content: "runs (julia_try (v t) (\<lambda>l. julia_scan_content E l t c n i) l')
      (case_flow (\<lambda>_. True) (\<lambda>(b, l'). b \<longrightarrow> julia_may_report v (result_symbol l')))"
    if "v t \<Longrightarrow> julia_may_report v (if c = 34 then END_STR else END_CMD) \<and> julia_may_report v t" for t c n i l'
    by (rule runs_julia_try) (use that in \<open>auto intro!: runs_weaken [OF runs_julia_scan_content]\<close>)
  show ?thesis
    unfolding julia_scan_def Let_def
    apply (rule runs_then_return_inv [where I = "\<lambda>_. True"])
     apply (rule runs_and_then_inv [where I = "\<lambda>_. True"])+
              apply (simp add: julia_scan_immediate_def julia_may_report_def)
             apply (rule runs_julia_try)
             apply (rule runs_weaken [OF runs_julia_scan_block_comment])
             apply (simp add: julia_may_report_def split_def)
            apply (rule content, simp add: julia_may_report_def)+
    apply simp
    done
qed

end

section \<open>Nested comments\<close>

text \<open>
  The reference for nested comments: what is left of \<open>cs\<close> behind the delimiter that closes the
  outermost of \<open>k\<close> open comments, if there is one in front of the end of the text (or a NUL, which
  the scanner takes for it). Delimiters are read from the left and do not overlap; an equals sign
  or a number sign that is no part of one is text.
\<close>

fun julia_comment_rest :: "nat \<Rightarrow> int list \<Rightarrow> int list option" where
  "julia_comment_rest k (c # d # cs) =
     (if c = 0 then None
      else if c = 61 \<and> d = 35 then if k = 1 then Some cs else julia_comment_rest (k - 1) cs
      else if c = 35 \<and> d = 61 then julia_comment_rest (k + 1) cs
      else julia_comment_rest k (d # cs))"
| "julia_comment_rest k cs = None"

lemma julia_comment_rest_plain:
  "c \<noteq> 61 \<Longrightarrow> c \<noteq> 35 \<Longrightarrow> c \<noteq> 0 \<Longrightarrow> julia_comment_rest k (c # cs) = julia_comment_rest k cs"
  by (cases cs) simp_all

text \<open>Complete comments inside a comment are skipped, whatever is around them.\<close>

inductive julia_comment_body :: "int list \<Rightarrow> bool" where
  empty: "julia_comment_body []"
| plain: "c \<noteq> 61 \<Longrightarrow> c \<noteq> 35 \<Longrightarrow> c \<noteq> 0 \<Longrightarrow> julia_comment_body b \<Longrightarrow> julia_comment_body (c # b)"
| nested: "julia_comment_body a \<Longrightarrow> julia_comment_body b \<Longrightarrow>
    julia_comment_body ([35, 61] @ a @ [61, 35] @ b)"

lemma julia_comment_rest_body:
  "julia_comment_body b \<Longrightarrow> 0 < k \<Longrightarrow> julia_comment_rest k (b @ zs) = julia_comment_rest k zs"
  by (induction b arbitrary: k zs rule: julia_comment_body.induct) (auto simp: julia_comment_rest_plain)

context ts_lexer
begin

text \<open>
  The loop of the scanner computes the reference. Behind an equals sign it still has that sign in
  mind, so the reference is taken of the text with the sign in front of it.
\<close>

lemma runs_julia_comment:
  assumes "remaining l < 2 ^ 32 - 1"
  shows "runs (julia_scan_block_comment E l) (\<lambda>(b, l'). case julia_comment_rest 1 (rest (raw l)) of
     None \<Rightarrow> \<not> b
   | Some zs \<Rightarrow> b \<and> rest (raw l') = zs \<and> result_symbol l' = BLOCK_COMMENT_REST)"
proof -
  define R where "R = julia_comment_rest 1 (rest (raw l))"
  have "runs (c_loop (julia_comment_step E) (False, 1, l)) (\<lambda>(b, l'). case R of None \<Rightarrow> \<not> b
     | Some zs \<Rightarrow> b \<and> rest (raw l') = zs \<and> result_symbol l' = BLOCK_COMMENT_REST)"
  proof (rule runs_c_loop [where m = "\<lambda>(a, d, l'). remaining l'" and I = "\<lambda>(a, d, l').
        0 < unat d \<and> unat d + remaining l' < 2 ^ 32
        \<and> julia_comment_rest (unat d) ((if a then [61] else []) @ rest (raw l')) = R"], goal_cases)
    case 1
    then show ?case using assms by (simp add: R_def)
  next
    case (2 x)
    then obtain a d l' where x: "x = (a, d, l')" and d: "0 < unat d" "unat d + remaining l' < 2 ^ 32"
      and I: "julia_comment_rest (unat d) ((if a then [61] else []) @ rest (raw l')) = R"
      by (cases x) auto
    have up: "unat (d + 1) = Suc (unat d)" if "2 \<le> remaining l'"
      using that d(2) by (intro unat_succ) simp
    consider "rest (raw l') = []" | c where "rest (raw l') = [c]" | c e cs where "rest (raw l') = c # e # cs"
      by (metis neq_Nil_conv)
    then show ?case
    proof cases
      case 1
      with I show ?thesis by (auto simp: x julia_comment_step_def lookahead_view split: if_splits)
    next
      case (2 c)
      consider "c = 61" | "c = 35" | "c = 0" | "c \<noteq> 61 \<and> c \<noteq> 35 \<and> c \<noteq> 0" by blast
      then show ?thesis
        by cases (use I 2 d in \<open>auto simp: x julia_comment_step_def Let_def lookahead_view unat_pred word_eq_1_iff split: if_splits\<close>)
    next
      case (3 c e cs)
      consider "c = 61" | "c = 35" | "c = 0" | "c \<noteq> 61 \<and> c \<noteq> 35 \<and> c \<noteq> 0" by blast
      then show ?thesis
        by cases (use I 3 d up in \<open>auto simp: x julia_comment_step_def Let_def lookahead_view unat_pred word_eq_1_iff split: if_splits\<close>)
    qed
  qed
  then show ?thesis unfolding julia_scan_block_comment_def R_def .
qed

lemma julia_quote_in_triple:
  assumes "rest (raw l) = 34 # c # ys" and "c \<noteq> 34"
  shows "julia_scan_content E l t 34 3 interp =
      c_loop (julia_content_step E t 34 3 interp) (True, advance E (advance E (mark_end E l)))
    \<and> rest (raw (advance E (advance E (mark_end E l)))) = ys"
proof -
  have "lookahead E (advance E (mark_end E l)) = c" "lookahead E (mark_end E l) = 34"
    using assms by (simp_all add: lookahead_view)
  with assms show ?thesis
    by (simp add: julia_scan_content_def c_loop.simps [of _ "(False, l)"] julia_content_step_def Let_def
        numeral_3_eq_3)
qed

end


text \<open>
  Whatever the input, the Julia scan returns, and a token it reports is one the parser
  asked for (the end of a literal where content of the literal was asked for).\<close>

lemma julia_scan_returns:
  assumes "ts_lexer E rest"
  shows "\<exists>b l'. julia_scan E v l = Some (b, l') \<and> (b \<longrightarrow> julia_may_report v (result_symbol l'))"
  using ts_lexer.runs_julia_scan [OF assms] by (rule runs_pairD)

text \<open>C20. Block comments nest, and text that is no delimiter is skipped: where the rest of a block comment
  (and nothing else) is asked for, the scan reports it exactly when the reference finds the delimiter
  that closes it, and then the token goes up to there and the rest of the input is still to be read.
  In particular an equals sign counts for a closing delimiter only directly in front of the number
  sign. The depth is counted in 32 bits, so the input is taken to be shorter than that.\<close>

theorem julia_nested_comment:
  assumes "ts_lexer E rest" and "length (rest (raw l)) < 2 ^ 32 - 1" and "\<And>t. v t \<longleftrightarrow> t = BLOCK_COMMENT_REST"
  shows "\<exists>b l'. julia_scan E v l = Some (b, l') \<and>
     (case julia_comment_rest 1 (rest (raw l)) of
        None \<Rightarrow> \<not> b
      | Some zs \<Rightarrow> b \<and> rest (raw l') = zs \<and> result_symbol l' = BLOCK_COMMENT_REST)"
proof -
  obtain b l' where run: "julia_scan_block_comment E l = Some (b, l')"
    and post: "case julia_comment_rest 1 (rest (raw l)) of None \<Rightarrow> \<not> b
      | Some zs \<Rightarrow> b \<and> rest (raw l') = zs \<and> result_symbol l' = BLOCK_COMMENT_REST"
    using runs_pairD [OF ts_lexer.runs_julia_comment [OF assms(1,2)]] by blast
  have "julia_scan E v l = Some (b, l')"
    using run by (simp add: julia_scan_def Let_def julia_scan_immediate_def julia_try_def assms(3) and_then_def then_return_def)
  with post show ?thesis by blast
qed

theorem julia_nested_comment_witness:
  "\<exists>l'. julia_scan list_env (\<lambda>t. t = BLOCK_COMMENT_REST) (lex_string END_CMD ''a=b#=c# =#=d=#e'') = Some (True, l')
     \<and> ll_rest (raw l') = [101] \<and> result_symbol l' = BLOCK_COMMENT_REST"
  using julia_nested_comment [OF ts_lexer_list_env, of "lex_string END_CMD ''a=b#=c# =#=d=#e''" "\<lambda>t. t = BLOCK_COMMENT_REST"]
  by (auto simp: lex_string_def)

text \<open>In a triple-quoted literal the character after a single quote is read as content without
  being looked at: whether it is a dollar sign or a backslash, the loop goes on behind it,
  so the content swallows an interpolation or an escape sequence that starts there.\<close>

lemma julia_triple_quoted_skips_after_quote:
  assumes "ts_lexer E rest" and "rest (raw l) = 34 # c # ys" and "c \<noteq> 34"
  shows "\<exists>l'. julia_scan_content E l t (ch CHR 0x22) 3 interp
             = c_loop (julia_content_step E t (ch CHR 0x22) 3 interp) (True, l')
           \<and> rest (raw l') = ys"
  using ts_lexer.julia_quote_in_triple [OF assms, of t interp]
  by (intro exI [of _ "advance E (advance E (mark_end E l))"]) simp

end
