(* ===== verification/JavaScript_Scanner.thy ===== *)
theory JavaScript_Scanner
  imports TS_Lexer "HOL-Library.Sublist"
begin

text \<open>
  The JavaScript scanner, \<^verbatim>\<open>javascript/src/scanner.c\<close>: automatic semicolons, the
  question mark of the conditional operator, the characters of template strings, HTML-like
  comments and JSX text. It keeps no state.

  Shown here: the scan always returns and reports only tokens the parser asked for; at
  the end of a line, the semicolon is decided by the first characters of the next
  statement (\<open>js_starts_statement\<close>).
\<close>

datatype js_token =
    AUTOMATIC_SEMICOLON
  | TEMPLATE_CHARS
  | TERNARY_QMARK
  | HTML_COMMENT
  | LOGICAL_OR
  | ESCAPE_SEQUENCE
  | REGEX_PATTERN
  | JSX_TEXT

datatype WhitespaceResult = REJECT | NO_NEWLINE | ACCEPT

type_synonym 'l js_lexer = "('l, js_token) TSLexer"

abbreviation js_newline :: "int \<Rightarrow> bool" where
  "js_newline c \<equiv> c = 10 \<or> c = 0x2028 \<or> c = 0x2029"

section \<open>Operations\<close>

definition js_template_step :: "'l env \<Rightarrow> bool \<times> 'l js_lexer \<Rightarrow>
    (bool \<times> 'l js_lexer, bool \<times> 'l js_lexer) flow option" where
  "js_template_step E = (\<lambda>(has_content, l).
     let l = mark_end E l; c = lookahead E l in
     if c = ch CHR ''`'' then Some (Return (has_content, l))
     else if c = 0 then Some (Return (False, l))
     else if c = ch CHR ''$'' then
       let l = advance E l in
       if lookahead E l = ch CHR ''{'' then Some (Return (has_content, l)) else Some (Next (True, l))
     else if c = ch CHR 0x5C then Some (Return (has_content, l))
     else Some (Next (True, advance E l)))"

definition js_scan_template_chars :: "'l env \<Rightarrow> 'l js_lexer \<Rightarrow> (bool \<times> 'l js_lexer) option" where
  "js_scan_template_chars E l = c_loop (js_template_step E) (False, set_symbol TEMPLATE_CHARS l)"

text \<open>
  The inner loop of a block comment. Its outcome is an outcome of the enclosing loop:
  \<open>Next\<close> when the comment is over (or the input), \<open>Return\<close> when the whole function
  returns.
\<close>

definition js_block_comment :: "'l env \<Rightarrow> bool \<Rightarrow> bool \<times> bool \<times> 'l js_lexer \<Rightarrow>
    (bool \<times> bool \<times> 'l js_lexer, WhitespaceResult \<times> bool \<times> 'l js_lexer) flow option" where
  "js_block_comment E consume s =
     c_loop (\<lambda>(scanned_comment, saw_block_newline, l).
       if lookahead E l \<noteq> 0 then
         if lookahead E l = ch CHR ''*'' then
           let l = skip E l in
           if lookahead E l = ch CHR ''/'' then
             let l = skip E l in
             if lookahead E l \<noteq> ch CHR ''/'' \<and> \<not> consume
             then Some (Return (Return (if saw_block_newline then ACCEPT else NO_NEWLINE, True, l)))
             else Some (Return (Next (True, saw_block_newline, l)))
           else Some (Next (scanned_comment, saw_block_newline, l))
         else if js_newline (lookahead E l) then Some (Next (scanned_comment, True, skip E l))
         else Some (Next (scanned_comment, saw_block_newline, skip E l))
       else Some (Return (Next (scanned_comment, saw_block_newline, l)))) s"

definition js_whitespace_step :: "'l env \<Rightarrow> bool \<Rightarrow> bool \<times> bool \<times> 'l js_lexer \<Rightarrow>
    (bool \<times> bool \<times> 'l js_lexer, WhitespaceResult \<times> bool \<times> 'l js_lexer) flow option" where
  "js_whitespace_step E consume = (\<lambda>(scanned_comment, saw_block_newline, l).
     do { l \<leftarrow> skip_while E (iswspace E) l;
          if lookahead E l = ch CHR ''/'' then
            let l = skip E l in
            if lookahead E l = ch CHR ''/'' then
              do { l \<leftarrow> skip_while E (\<lambda>c. c \<noteq> 0 \<and> \<not> js_newline c) (skip E l);
                   Some (Next (True, saw_block_newline, l)) }
            else if lookahead E l = ch CHR ''*'' then
              js_block_comment E consume (scanned_comment, saw_block_newline, skip E l)
            else Some (Return (REJECT, scanned_comment, l))
          else Some (Return (ACCEPT, scanned_comment, l)) })"

definition js_scan_whitespace_and_comments :: "'l env \<Rightarrow> bool \<Rightarrow> bool \<Rightarrow> 'l js_lexer \<Rightarrow>
    (WhitespaceResult \<times> bool \<times> 'l js_lexer) option" where
  "js_scan_whitespace_and_comments E scanned_comment consume l =
     c_loop (js_whitespace_step E consume) (scanned_comment, False, l)"

fun js_skip_word :: "'l env \<Rightarrow> string \<Rightarrow> 'l js_lexer \<Rightarrow> bool \<times> 'l js_lexer" where
  "js_skip_word E [] l = (True, l)"
| "js_skip_word E (c # cs) l =
     (if lookahead E l \<noteq> ch c then (False, l) else js_skip_word E cs (skip E l))"

text \<open>The final \<^verbatim>\<open>switch\<close> of \<^verbatim>\<open>scan_automatic_semicolon\<close>: does a statement start here?\<close>

definition js_semicolon_switch :: "'l env \<Rightarrow> 'l js_lexer \<Rightarrow> bool \<times> 'l js_lexer" where
  "js_semicolon_switch E l =
     (let c = lookahead E l in
      if c \<in> set (map of_char ''`,:;*%><=[(?^|&/'') then (False, l)
      else if c = ch CHR ''.'' then let l = skip E l in (iswdigit E (lookahead E l), l)
      else if c = ch CHR ''+'' then let l = skip E l in (lookahead E l = ch CHR ''+'', l)
      else if c = ch CHR ''-'' then let l = skip E l in (lookahead E l = ch CHR ''-'', l)
      else if c = ch CHR ''!'' then let l = skip E l in (lookahead E l \<noteq> ch CHR ''='', l)
      else if c = ch CHR ''i'' then
        let l = skip E l in
        if lookahead E l \<noteq> ch CHR ''n'' then (True, l)
        else
          let l = skip E l in
          if \<not> iswalpha E (lookahead E l) then (False, l)
          else
            (case js_skip_word E ''stanceof'' l of
               (False, l) \<Rightarrow> (True, l)
             | (True, l) \<Rightarrow> (iswalpha E (lookahead E l), l))
      else (True, l))"

definition js_semicolon_step :: "'l env \<Rightarrow> bool \<Rightarrow> bool \<times> 'l js_lexer \<Rightarrow>
    (bool \<times> 'l js_lexer, (bool \<times> 'l js_lexer, bool \<times> bool \<times> 'l js_lexer) flow) flow option" where
  "js_semicolon_step E comment_condition = (\<lambda>(scanned_comment, l).
     if lookahead E l = 0 then Some (Return (Return (True, scanned_comment, l)))
     else
       and_then
         (if lookahead E l = ch CHR ''/'' then
            do { (result, scanned_comment, l) \<leftarrow> js_scan_whitespace_and_comments E scanned_comment False l;
                 if result = REJECT then Some (Return (Return (False, scanned_comment, l)))
                 else if result = ACCEPT \<and> comment_condition \<and> lookahead E l \<noteq> ch CHR '','' \<and> lookahead E l \<noteq> ch CHR ''=''
                 then Some (Return (Return (True, scanned_comment, l)))
                 else Some (Next (scanned_comment, l)) }
          else Some (Next (scanned_comment, l)))
         (\<lambda>(scanned_comment, l).
            if lookahead E l = ch CHR ''}'' then Some (Return (Return (True, scanned_comment, l)))
            else if is_at_included_range_start E l then Some (Return (Return (True, scanned_comment, l)))
            else if js_newline (lookahead E l) then Some (Return (Next (scanned_comment, l)))
            else if \<not> iswspace E (lookahead E l) then Some (Return (Return (False, scanned_comment, l)))
            else Some (Next (scanned_comment, skip E l))))"

definition js_scan_automatic_semicolon :: "'l env \<Rightarrow> bool \<Rightarrow> bool \<Rightarrow> 'l js_lexer \<Rightarrow>
    (bool \<times> bool \<times> 'l js_lexer) option" where
  "js_scan_automatic_semicolon E comment_condition scanned_comment l =
     then_return
       (c_loop (js_semicolon_step E comment_condition) (scanned_comment, mark_end E (set_symbol AUTOMATIC_SEMICOLON l)))
       (\<lambda>(scanned_comment, l).
          do { (result, scanned_comment, l) \<leftarrow> js_scan_whitespace_and_comments E scanned_comment True (skip E l);
               if result = REJECT then Some (False, scanned_comment, l)
               else (case js_semicolon_switch E l of (b, l) \<Rightarrow> Some (b, scanned_comment, l)) })"

definition js_scan_ternary_qmark :: "'l env \<Rightarrow> 'l js_lexer \<Rightarrow> (bool \<times> 'l js_lexer) option" where
  "js_scan_ternary_qmark E l =
     do { l \<leftarrow> skip_while E (iswspace E) l;
          Some (if lookahead E l = ch CHR ''?'' then
                  let l = advance E l in
                  if lookahead E l = ch CHR ''?'' then (False, l)
                  else
                    let l = set_symbol TERNARY_QMARK (mark_end E l) in
                    if lookahead E l = ch CHR ''.'' then
                      let l = advance E l in (iswdigit E (lookahead E l), l)
                    else (True, l)
                else (False, l)) }"

fun js_advance_word :: "'l env \<Rightarrow> string \<Rightarrow> 'l js_lexer \<Rightarrow> bool \<times> 'l js_lexer" where
  "js_advance_word E [] l = (True, l)"
| "js_advance_word E (c # cs) l =
     (if lookahead E l \<noteq> ch c then (False, l) else js_advance_word E cs (advance E l))"

definition js_scan_html_comment :: "'l env \<Rightarrow> 'l js_lexer \<Rightarrow> (bool \<times> 'l js_lexer) option" where
  "js_scan_html_comment E l =
     do { l \<leftarrow> skip_while E (\<lambda>c. iswspace E c \<or> c = 0x2028 \<or> c = 0x2029) l;
          (case (if lookahead E l = ch CHR ''<'' then js_advance_word E ''<!--'' l
                 else if lookahead E l = ch CHR ''-'' then js_advance_word E ''-->'' l
                 else (False, l)) of
             (False, l) \<Rightarrow> Some (False, l)
           | (True, l) \<Rightarrow>
               do { l \<leftarrow> advance_while E (\<lambda>c. c \<noteq> 0 \<and> \<not> js_newline c) l;
                    Some (True, mark_end E (set_symbol HTML_COMMENT l)) }) }"

definition js_jsx_stop :: "int \<Rightarrow> bool" where
  "js_jsx_stop c \<longleftrightarrow> c = 0 \<or> c \<in> set (map of_char ''<>{}&'')"

definition js_jsx_step :: "'l env \<Rightarrow> bool \<times> bool \<times> 'l js_lexer \<Rightarrow>
    (bool \<times> bool \<times> 'l js_lexer, bool \<times> 'l js_lexer) flow option" where
  "js_jsx_step E = (\<lambda>(saw_text, at_newline, l).
     if \<not> js_jsx_stop (lookahead E l) then
       let is_wspace = iswspace E (lookahead E l) in
       if lookahead E l = ch CHR 0x0A then Some (Next (saw_text, True, advance E l))
       else
         let at_newline = at_newline \<and> is_wspace in
         Some (Next (saw_text \<or> \<not> at_newline, at_newline, advance E l))
     else Some (Return (saw_text, set_symbol JSX_TEXT l)))"

definition js_scan_jsx_text :: "'l env \<Rightarrow> 'l js_lexer \<Rightarrow> (bool \<times> 'l js_lexer) option" where
  "js_scan_jsx_text E l = c_loop (js_jsx_step E) (False, False, l)"

definition js_scan :: "'l env \<Rightarrow> (js_token \<Rightarrow> bool) \<Rightarrow> 'l js_lexer \<Rightarrow> (bool \<times> 'l js_lexer) option" where
  "js_scan E valid_symbols l =
     (if valid_symbols TEMPLATE_CHARS then
        if valid_symbols AUTOMATIC_SEMICOLON then Some (False, l) else js_scan_template_chars E l
      else
        do { (b, l) \<leftarrow> (if valid_symbols JSX_TEXT then js_scan_jsx_text E l else Some (False, l));
             if b then Some (True, l)
             else if valid_symbols AUTOMATIC_SEMICOLON then
               do { (ret, scanned_comment, l) \<leftarrow>
                      js_scan_automatic_semicolon E (\<not> valid_symbols LOGICAL_OR) False l;
                    if \<not> ret \<and> \<not> scanned_comment \<and> valid_symbols TERNARY_QMARK \<and> lookahead E l = ch CHR ''?''
                    then js_scan_ternary_qmark E l
                    else Some (ret, l) }
             else if valid_symbols TERNARY_QMARK then js_scan_ternary_qmark E l
             else if valid_symbols HTML_COMMENT \<and> \<not> valid_symbols LOGICAL_OR \<and> \<not> valid_symbols ESCAPE_SEQUENCE
                  \<and> \<not> valid_symbols REGEX_PATTERN
             then js_scan_html_comment E l
             else Some (False, l) })"

section \<open>Every scan returns\<close>

context ts_lexer
begin

lemma runs_js_scan_template_chars:
  "runs (js_scan_template_chars E l) (\<lambda>(b, l'). result_symbol l' = TEMPLATE_CHARS)"
  unfolding js_scan_template_chars_def
  by (rule runs_c_loop [where m = "\<lambda>(h, l'). remaining l'" and I = "\<lambda>(h, l'). result_symbol l' = TEMPLATE_CHARS"])
    (auto simp: js_template_step_def Let_def)

text \<open>The rest after blanks and comments is a suffix, and is shorter when a comment was read.\<close>

lemma runs_js_block_comment:
  "runs (js_block_comment E consume (a, n, l))
     (\<lambda>x. case x of Next (a', n', l') \<Rightarrow> remaining l' \<le> remaining l \<and> result_symbol l' = result_symbol l
        | Return (r, a', l') \<Rightarrow> remaining l' \<le> remaining l \<and> result_symbol l' = result_symbol l)"
  unfolding js_block_comment_def
  by (rule runs_c_loop [where m = "\<lambda>(a, n, l'). remaining l'"
        and I = "\<lambda>(a, n, l'). remaining l' \<le> remaining l \<and> result_symbol l' = result_symbol l"])
    (auto simp: Let_def)

lemma runs_js_whitespace:
  "runs (js_scan_whitespace_and_comments E a consume l)
     (\<lambda>(r, a', l'). remaining l' \<le> remaining l \<and> result_symbol l' = result_symbol l)"
  unfolding js_scan_whitespace_and_comments_def
proof (rule runs_c_loop [where m = "\<lambda>(a, n, l'). remaining l'"
      and I = "\<lambda>(a, n, l'). remaining l' \<le> remaining l \<and> result_symbol l' = result_symbol l"], goal_cases)
  case (2 x)
  then obtain a n l1 where x: "x = (a, n, l1)" and I: "remaining l1 \<le> remaining l" "result_symbol l1 = result_symbol l"
    by (cases x) auto
  show ?case
    unfolding x js_whitespace_step_def prod.case runs_bind Let_def
  proof (rule wp_skip_while, goal_cases)
    case (2 l2)
    show ?case
    proof (cases "lookahead E l2 = 47")
      case True
      then have "0 < remaining l2" by (intro remaining_pos) simp
      then have "remaining l2 - Suc 0 < remaining l1" "remaining l2 - Suc 0 < remaining l"
        using 2(2) I by linarith+
      with 2(5) I True show ?thesis
        by (auto intro!: wp_while_le runs_weaken [OF runs_js_block_comment] split: flow.splits)
    qed (use 2 I in auto)
  qed simp
qed simp

lemma js_skip_word_symbol: "result_symbol (snd (js_skip_word E w l)) = result_symbol l"
  by (induction w arbitrary: l) auto

lemma js_semicolon_switch_symbol: "result_symbol (snd (js_semicolon_switch E l)) = result_symbol l"
  unfolding js_semicolon_switch_def Let_def
  by (auto simp del: js_skip_word.simps simp: if_distrib [of snd] split: prod.splits bool.splits
      dest: arg_cong [of "js_skip_word E _ _" _ "\<lambda>x. result_symbol (snd x)"] simp: js_skip_word_symbol)

lemma runs_js_semicolon_step:
  assumes "result_symbol l = AUTOMATIC_SEMICOLON"
  shows "runs (js_semicolon_step E c (a, l))
     (case_flow (\<lambda>(a', l'). remaining l' < remaining l \<and> result_symbol l' = AUTOMATIC_SEMICOLON)
        (case_flow (\<lambda>(a', l'). result_symbol l' = AUTOMATIC_SEMICOLON)
           (\<lambda>(b, a', l'). result_symbol l' = AUTOMATIC_SEMICOLON)))"
proof -
  have tail: "remaining l2 - Suc 0 < remaining l" if "remaining l2 \<le> remaining l" "iswspace E (lookahead E l2)"
    for l2 :: "('l, js_token) TSLexer"
  proof -
    from that(2) have "lookahead E l2 \<noteq> 0" by (metis iswclass_0(1))
    then have "0 < remaining l2" by (rule remaining_pos)
    with that(1) show ?thesis by linarith
  qed
  show ?thesis
  proof (cases "lookahead E l = 0")
    case False
    show ?thesis
      unfolding js_semicolon_step_def prod.case if_not_P [OF False]
    proof (rule runs_and_then_inv [where I = "\<lambda>(a', l'). remaining l' \<le> remaining l \<and> result_symbol l' = AUTOMATIC_SEMICOLON"],
        goal_cases)
      case 1
      show ?case using assms by (auto intro!: runs_weaken [OF runs_js_whitespace])
    next
      case (2 x)
      then show ?case using tail by (auto split: prod.splits)
    qed
  qed (simp add: js_semicolon_step_def assms)
qed

lemma runs_js_scan_automatic_semicolon:
  "runs (js_scan_automatic_semicolon E c a l) (\<lambda>(b, a', l'). result_symbol l' = AUTOMATIC_SEMICOLON)"
  unfolding js_scan_automatic_semicolon_def
proof (rule runs_then_return_inv [where I = "\<lambda>(a, l'). result_symbol l' = AUTOMATIC_SEMICOLON"], goal_cases)
  case 1
  show ?case
    by (rule runs_c_loop [where m = "\<lambda>(a, l'). remaining l'" and I = "\<lambda>(a, l'). result_symbol l' = AUTOMATIC_SEMICOLON"])
      (auto intro!: runs_weaken [OF runs_js_semicolon_step] split: flow.splits)
next
  case (2 x)
  then show ?case
    by (auto simp: split_def js_semicolon_switch_symbol intro!: runs_weaken [OF runs_js_whitespace])
qed

lemma runs_js_scan_ternary_qmark:
  "runs (js_scan_ternary_qmark E l) (\<lambda>(b, l'). b \<longrightarrow> result_symbol l' = TERNARY_QMARK)"
  unfolding js_scan_ternary_qmark_def by (auto simp: Let_def intro!: wp_while_le)

lemma runs_js_scan_html_comment:
  "runs (js_scan_html_comment E l) (\<lambda>(b, l'). b \<longrightarrow> result_symbol l' = HTML_COMMENT)"
  unfolding js_scan_html_comment_def
  by (auto intro!: wp_while_le split: prod.splits bool.splits)

lemma runs_js_scan_jsx_text:
  "runs (js_scan_jsx_text E l) (\<lambda>(b, l'). result_symbol l' = JSX_TEXT)"
  unfolding js_scan_jsx_text_def
  by (rule runs_c_loop [where m = "\<lambda>(s, n, l'). remaining l'" and I = "\<lambda>_. True"])
    (auto simp: js_jsx_step_def js_jsx_stop_def Let_def)

lemma runs_js_scan: "runs (js_scan E v l) (\<lambda>(b, l'). b \<longrightarrow> v (result_symbol l'))"
proof -
  have jsx: "runs (js_scan_jsx_text E l') (\<lambda>(b, l'). b \<longrightarrow> v (result_symbol l'))"
    if "v JSX_TEXT" for l'
    using that by (auto intro!: runs_weaken [OF runs_js_scan_jsx_text])
  have semi: "runs (js_scan_automatic_semicolon E c a l') (\<lambda>(b, a, l'). (b \<longrightarrow> v (result_symbol l')))"
    if "v AUTOMATIC_SEMICOLON" for c a l'
    using that by (auto intro!: runs_weaken [OF runs_js_scan_automatic_semicolon])
  have tern: "runs (js_scan_ternary_qmark E l') (\<lambda>(b, l'). b \<longrightarrow> v (result_symbol l'))"
    if "v TERNARY_QMARK" for l'
    using that by (auto intro!: runs_weaken [OF runs_js_scan_ternary_qmark])
  have html: "runs (js_scan_html_comment E l') (\<lambda>(b, l'). b \<longrightarrow> v (result_symbol l'))"
    if "v HTML_COMMENT" for l'
    using that by (auto intro!: runs_weaken [OF runs_js_scan_html_comment])
  have temp: "runs (js_scan_template_chars E l') (\<lambda>(b, l'). b \<longrightarrow> v (result_symbol l'))"
    if "v TEMPLATE_CHARS" for l'
    using that by (auto intro!: runs_weaken [OF runs_js_scan_template_chars])
  show ?thesis
    unfolding js_scan_def
    by (auto intro!: temp runs_weaken [OF jsx] runs_weaken [OF semi] tern html)
qed

end

section \<open>Automatic semicolons\<close>

abbreviation js_first :: "int list \<Rightarrow> int" where
  "js_first xs \<equiv> (case xs of [] \<Rightarrow> 0 | c # _ \<Rightarrow> c)"

definition js_keyword :: "'l env \<Rightarrow> string \<Rightarrow> int list \<Rightarrow> bool" where
  "js_keyword E w xs \<longleftrightarrow> prefix (map of_char w) xs \<and> \<not> iswalpha E (js_first (drop (length w) xs))"

text \<open>
  The decision, on the text of the next statement: no operator that could continue the
  expression, but \<open>++\<close>, \<open>--\<close>, a decimal literal, a negation or any word other than the
  two operators that are words.
\<close>

definition js_starts_statement :: "'l env \<Rightarrow> int list \<Rightarrow> bool" where
  "js_starts_statement E xs \<longleftrightarrow>
     js_first xs \<notin> set (map of_char ''`,:;*%><=[(?^|&/'')
     \<and> (js_first xs = ch CHR ''.'' \<longrightarrow> iswdigit E (js_first (tl xs)))
     \<and> (js_first xs = ch CHR ''+'' \<longrightarrow> js_first (tl xs) = ch CHR ''+'')
     \<and> (js_first xs = ch CHR ''-'' \<longrightarrow> js_first (tl xs) = ch CHR ''-'')
     \<and> (js_first xs = ch CHR ''!'' \<longrightarrow> js_first (tl xs) \<noteq> ch CHR ''='')
     \<and> \<not> js_keyword E ''in'' xs \<and> \<not> js_keyword E ''instanceof'' xs"

context ts_lexer
begin

lemma js_skip_word_prefix:
  "CHR 0x00 \<notin> set w \<Longrightarrow> js_skip_word E w l = (b, l') \<Longrightarrow>
     b = prefix (map of_char w) (rest (raw l)) \<and> (b \<longrightarrow> rest (raw l') = drop (length w) (rest (raw l)))"
proof (induction w arbitrary: l)
  case (Cons c cs)
  then have "ch c \<noteq> (0 :: int)" using of_char_eq_iff [of c "CHR 0x00", where ?'a = int] by auto
  with Cons show ?case
    by (cases "rest (raw l)") (auto split: if_splits dest!: Cons.IH [rotated])
qed simp

lemma js_semicolon_switch_decides: "fst (js_semicolon_switch E l) = js_starts_statement E (rest (raw l))"
proof (cases "\<exists>xs. rest (raw l) = 105 # 110 # xs")
  case True
  then obtain xs where xs: "rest (raw l) = 105 # 110 # xs" by blast
  let ?l = "skip E (skip E l)"
  obtain b l' where w: "js_skip_word E ''stanceof'' ?l = (b, l')" by fastforce
  have l: "rest (raw ?l) = xs" using xs by simp
  have b: "b = prefix (map of_char ''stanceof'') xs"
    and l': "b \<Longrightarrow> lookahead E l' = js_first (drop 8 xs)"
    using js_skip_word_prefix [OF _ w] l by (simp_all add: lookahead_view eval_nat_numeral)
  have la: "lookahead E l = 105" "lookahead E (skip E l) = 110" "lookahead E ?l = js_first xs"
    using xs l by (simp_all add: lookahead_view)
  have sw: "fst (js_semicolon_switch E l) = (iswalpha E (js_first xs) \<and> (b \<longrightarrow> iswalpha E (js_first (drop 8 xs))))"
    using la w l' by (cases b) (simp_all add: js_semicolon_switch_def Let_def)
  have "b \<Longrightarrow> iswalpha E (js_first xs)"
    using b by (cases xs) (auto simp: iswalpha_def)
  then show ?thesis
    unfolding sw b by (auto simp: js_starts_statement_def js_keyword_def xs eval_nat_numeral)
next
  case False
  then have "\<not> js_keyword E ''in'' (rest (raw l))" "\<not> js_keyword E ''instanceof'' (rest (raw l))"
    by (auto simp: js_keyword_def prefix_def)
  moreover have "lookahead E l = js_first (rest (raw l))" "lookahead E (skip E l) = js_first (tl (rest (raw l)))"
    by (simp_all add: lookahead_view)
  moreover have "js_first (rest (raw l)) = 105 \<Longrightarrow> js_first (tl (rest (raw l))) \<noteq> 110"
    using False by (cases "rest (raw l)"; cases "tl (rest (raw l))") auto
  ultimately show ?thesis
    by (auto simp: js_semicolon_switch_def js_starts_statement_def Let_def)
qed

end

text \<open>A range of the document starts at one of the next \<open>n\<close> characters, or at the current one.\<close>

definition js_range_start :: "'l env \<Rightarrow> nat \<Rightarrow> 'l \<Rightarrow> bool" where
  "js_range_start E n r \<longleftrightarrow> (\<exists>k\<in>set [0..<Suc n]. lexer_at_range_start E ((lexer_advance E True ^^ k) r))"

lemma js_range_start_iff: "js_range_start E n r \<longleftrightarrow> (\<exists>k\<le>n. lexer_at_range_start E ((lexer_advance E True ^^ k) r))"
  by (auto simp: js_range_start_def less_Suc_eq_le atLeastLessThan_iff simp del: upt_Suc)

lemma raw_skips: "raw ((skip E ^^ k) l) = (lexer_advance E True ^^ k) (raw l)"
  by (induction k) (simp_all add: skip_def)

context ts_lexer_marks
begin

lemma js_skips [simp]:
  "token_end (raw ((skip E ^^ k) l)) = token_end (raw l)" "result_symbol ((skip E ^^ k) l) = result_symbol l"
  by (induction k) simp_all

lemma rest_skips: "rest (raw ((skip E ^^ k) l)) = drop k (rest (raw l))"
  by (induction k) (simp_all add: drop_Suc flip: tl_drop)

lemma js_skip_word_end: "token_end (raw (snd (js_skip_word E w l))) = token_end (raw l)"
  by (induction w arbitrary: l) auto

lemma js_semicolon_switch_end: "token_end (raw (snd (js_semicolon_switch E l))) = token_end (raw l)"
  using js_skip_word_end [of "''stanceof''" "skip E (skip E l)"]
  by (auto simp: js_semicolon_switch_def Let_def simp del: js_skip_word.simps split: prod.splits bool.splits)

text \<open>The loop up to the end of the line, unless a range starts on the way.\<close>

lemma runs_js_to_newline:
  assumes "rest (raw l) = bs @ c # zs" and "\<forall>b\<in>set bs. iswspace E b \<and> \<not> js_newline b" and "js_newline c"
  shows "runs (c_loop (js_semicolon_step E cond) (a, l))
     (\<lambda>x. case x of Next (a', l') \<Rightarrow> a' = a \<and> rest (raw l') = c # zs \<and> \<not> js_range_start E (length bs) (raw l)
            \<and> result_symbol l' = result_symbol l \<and> token_end (raw l') = token_end (raw l)
        | Return (b, a', l') \<Rightarrow> b \<and> js_range_start E (length bs) (raw l)
            \<and> result_symbol l' = result_symbol l \<and> token_end (raw l') = token_end (raw l))"
proof (rule runs_c_loop [where m = "\<lambda>(a, l'). remaining l'"
      and I = "\<lambda>(a', l'). a' = a \<and> (\<exists>k\<le>length bs. l' = (skip E ^^ k) l
         \<and> (\<forall>j<k. \<not> lexer_at_range_start E ((lexer_advance E True ^^ j) (raw l))))"],
    goal_cases)
  case (2 x)
  then obtain k where x: "x = (a, (skip E ^^ k) l)" "k \<le> length bs"
    "\<forall>j<k. \<not> lexer_at_range_start E ((lexer_advance E True ^^ j) (raw l))" by (cases x) auto
  let ?l = "(skip E ^^ k) l"
  have r: "rest (raw ?l) = drop k bs @ c # zs" using assms(1) x(2) by (simp add: rest_skips)
  have la: "lookahead E ?l = (if k = length bs then c else bs ! k)"
    using x(2) by (simp add: lookahead_view r Cons_nth_drop_Suc [symmetric])
  have sp: "b \<noteq> 0 \<and> b \<noteq> 47 \<and> b \<noteq> 125" if "iswspace E b" for b using that by (auto simp: iswspace_def)
  have nl: "c \<noteq> 0 \<and> c \<noteq> 47 \<and> c \<noteq> 125" using assms(3) by auto
  have chars: "lookahead E ?l \<noteq> 0" "lookahead E ?l \<noteq> 47" "lookahead E ?l \<noteq> 125"
    "js_newline (lookahead E ?l) \<longleftrightarrow> k = length bs" "k \<noteq> length bs \<Longrightarrow> iswspace E (lookahead E ?l)"
    using x(2) assms(2,3) sp nl by (auto simp: la)
  show ?case
  proof (cases "lexer_at_range_start E (raw ?l)")
    case True
    with x(2) have "js_range_start E (length bs) (raw l)" by (auto simp: js_range_start_iff raw_skips)
    with True chars(1-3) show ?thesis by (simp add: x(1) js_semicolon_step_def is_at_included_range_start_def)
  next
    case False
    with x(3) have no: "\<forall>j<Suc k. \<not> lexer_at_range_start E ((lexer_advance E True ^^ j) (raw l))"
      by (auto simp: raw_skips less_Suc_eq)
    show ?thesis
    proof (cases "k = length bs")
      case True
      then have "\<not> js_range_start E (length bs) (raw l)" using no by (auto simp: js_range_start_iff less_Suc_eq_le)
      with True False chars r show ?thesis by (simp add: x(1) js_semicolon_step_def is_at_included_range_start_def)
    next
      case neq: False
      have "0 < remaining ?l" using r by simp
      with False neq chars no x(2) show ?thesis
        by (auto simp: x(1) js_semicolon_step_def is_at_included_range_start_def intro!: exI [of _ "Suc k"])
    qed
  qed
qed (auto intro!: exI [of _ 0])

text \<open>White space without a comment behind it.\<close>

lemma runs_js_blanks:
  assumes "rest (raw l) = ss @ ys" and "\<forall>s\<in>set ss. iswspace E s" and "\<not> iswspace E (js_first ys)" and "js_first ys \<noteq> 47"
  shows "runs (js_scan_whitespace_and_comments E a True l) (\<lambda>(r, a', l'). r = ACCEPT \<and> a' = a \<and> rest (raw l') = ys
     \<and> result_symbol l' = result_symbol l \<and> token_end (raw l') = token_end (raw l))"
proof -
  have drop: "dropWhile (iswspace E) (ss @ ys) = ys"
    using assms(2,3) by (cases ys) (auto simp: dropWhile_append2)
  show ?thesis
    unfolding js_scan_whitespace_and_comments_def
  proof (rule runs_c_loop [where m = "\<lambda>_. 0" and I = "\<lambda>(a', n, l'). a' = a \<and> l' = l"], goal_cases)
    case (2 x)
    then show ?case
      using assms(1,4) drop
      by (auto simp: js_whitespace_step_def lookahead_view intro!: wp_skip_while_marks)
  qed simp
qed

lemma runs_js_line_end:
  assumes "rest (raw l) = bs @ c # ss @ ys" and "\<forall>b\<in>set bs. iswspace E b \<and> \<not> js_newline b" and "js_newline c"
    and "\<forall>s\<in>set ss. iswspace E s" and "\<not> iswspace E (js_first ys)" and "js_first ys \<noteq> 47"
  shows "runs (js_scan_automatic_semicolon E cond a l) (\<lambda>(b, a', l').
     (b \<longleftrightarrow> js_range_start E (length bs) (lexer_mark_end E (raw l)) \<or> js_starts_statement E ys)
     \<and> result_symbol l' = AUTOMATIC_SEMICOLON \<and> token_end (raw l') = pos (raw l))"
proof -
  let ?l = "mark_end E (set_symbol AUTOMATIC_SEMICOLON l)"
  have l: "raw ?l = lexer_mark_end E (raw l)" "rest (raw ?l) = bs @ c # ss @ ys" "token_end (raw ?l) = pos (raw l)"
    using assms(1) by (simp_all add: mark_end_def rest_mark_end token_end_mark_end)
  show ?thesis
    unfolding js_scan_automatic_semicolon_def
  proof (rule runs_then_return_inv [where I = "\<lambda>(a', l'). rest (raw l') = c # ss @ ys \<and> \<not> js_range_start E (length bs) (raw ?l)
        \<and> result_symbol l' = AUTOMATIC_SEMICOLON \<and> token_end (raw l') = pos (raw l)"], goal_cases)
    case 1
    show ?case
      by (rule runs_weaken [OF runs_js_to_newline [OF l(2) assms(2,3)]]) (use l in \<open>auto split: flow.splits\<close>)
  next
    case (2 x)
    then obtain a' l' where x: "x = (a', l')" "rest (raw (skip E l')) = ss @ ys" "\<not> js_range_start E (length bs) (raw ?l)"
      "result_symbol l' = AUTOMATIC_SEMICOLON" "token_end (raw l') = pos (raw l)" by (cases x) auto
    show ?case
      unfolding x(1) prod.case runs_bind
      by (rule runs_weaken [OF runs_js_blanks [OF x(2) assms(4-6)]])
        (use x l in \<open>auto simp: split_def js_semicolon_switch_decides js_semicolon_switch_symbol js_semicolon_switch_end\<close>)
  qed
qed

end

text \<open>
  Whatever the input, the JavaScript scan returns, and a token it reports is one the parser
  asked for.\<close>

lemma js_scan_returns:
  assumes "ts_lexer E rest"
  shows "\<exists>b l'. js_scan E v l = Some (b, l') \<and> (b \<longrightarrow> v (result_symbol l'))"
  using ts_lexer.runs_js_scan [OF assms] by (rule runs_pairD)

text \<open>C0. Where only an automatic semicolon is valid and nothing but blanks is left on the line, the scan
  reports one exactly when the next text, after blanks and line breaks, starts a statement as the
  code decides it, or when a range of the document starts at one of the blanks or at the line
  break. In particular none is reported before an identifier that is \<open>in\<close> or \<open>instanceof\<close> followed
  by a digit or an underscore. The token is empty. This is for a next text that does not start
  with a slash.\<close>

theorem js_automatic_semicolon_iff:
  assumes "ts_lexer_marks E rest pos token_end" and "\<And>t. v t \<longleftrightarrow> t = AUTOMATIC_SEMICOLON"
    and "rest (raw l) = bs @ c # ss @ ys" and "\<forall>b\<in>set bs. iswspace E b \<and> \<not> js_newline b" and "js_newline c"
    and "\<forall>s\<in>set ss. iswspace E s" and "\<not> iswspace E (js_first ys)" and "js_first ys \<noteq> ch CHR ''/''"
  shows "\<exists>b l'. js_scan E v l = Some (b, l')
     \<and> (b \<longleftrightarrow> js_range_start E (length bs) (lexer_mark_end E (raw l)) \<or> js_starts_statement E ys)
     \<and> result_symbol l' = AUTOMATIC_SEMICOLON \<and> token_end (raw l') = pos (raw l)"
proof -
  from assms(8) have "js_first ys \<noteq> 47" by simp
  from runs_tripleD [OF ts_lexer_marks.runs_js_line_end [OF assms(1,3-7) this], of True False]
  show ?thesis by (auto simp: js_scan_def assms(2))
qed

theorem js_automatic_semicolon_iff_witness:
  "\<exists>l'. js_scan list_env (\<lambda>t. t = AUTOMATIC_SEMICOLON) (lex_string JSX_TEXT ('' '' @ CHR 0x0A # ''in1()'')) = Some (False, l')
     \<and> result_symbol l' = AUTOMATIC_SEMICOLON \<and> ll_end (raw l') = 0"
proof -
  have "\<not> js_range_start list_env n r" for n r by (simp add: js_range_start_def list_env_def)
  with js_automatic_semicolon_iff [OF list_lexer.ts_lexer_marks_axioms, of "\<lambda>t. t = AUTOMATIC_SEMICOLON"
      "lex_string JSX_TEXT ('' '' @ CHR 0x0A # ''in1()'')" "[32]" 10 "[]" "[105, 110, 49, 40, 41]"]
  show ?thesis
    by (simp add: lex_string_def list_env_def iswspace_def iswalpha_def js_starts_statement_def js_keyword_def)
qed

end
