(* ===== verification/Html_Scanner.thy ===== *)
theory Html_Scanner
  imports TS_Serialize "HOL-Library.Sublist"
begin

text \<open>
  The HTML scanner, \<^verbatim>\<open>html/src/scanner.c\<close> with the tag table of \<^verbatim>\<open>html/src/tag.h\<close>:
  the names of start and end tags, implicit end tags, raw text and comments. Its state is
  the stack of open tags; \<open>contents[0]\<close> is the first element of the list and the top of
  the stack is its last.

  The enumeration \<^verbatim>\<open>TagType\<close> is kept as the 32-bit integer C gives it, because the
  scanner stores it in a byte and compares it with \<^verbatim>\<open>END_OF_VOID_TAGS\<close>; the
  enumerators have the prefix \<open>TAG_\<close>. Popping an empty stack (\<^verbatim>\<open>array_pop\<close> would read
  out of bounds) is the outcome \<open>None\<close>, as is a function that does not return.

  Shown here: the scan always returns without popping an empty stack, keeps the tags well
  formed, and changes the stack exactly as the reported token says; what a saved scanner
  is restored to, also when the tags do not fit in the buffer; where comments and raw
  text end, and an end tag that raw text misses.
\<close>

datatype html_token =
    START_TAG_NAME
  | SCRIPT_START_TAG_NAME
  | STYLE_START_TAG_NAME
  | END_TAG_NAME
  | ERRONEOUS_END_TAG_NAME
  | SELF_CLOSING_TAG_DELIMITER
  | IMPLICIT_END_TAG
  | RAW_TEXT
  | COMMENT

section \<open>Tags\<close>

type_synonym TagType = "32 word"

abbreviation TAG_AREA :: TagType where "TAG_AREA \<equiv> 0"
abbreviation TAG_BASE :: TagType where "TAG_BASE \<equiv> 1"
abbreviation TAG_BASEFONT :: TagType where "TAG_BASEFONT \<equiv> 2"
abbreviation TAG_BGSOUND :: TagType where "TAG_BGSOUND \<equiv> 3"
abbreviation TAG_BR :: TagType where "TAG_BR \<equiv> 4"
abbreviation TAG_COL :: TagType where "TAG_COL \<equiv> 5"
abbreviation TAG_COMMAND :: TagType where "TAG_COMMAND \<equiv> 6"
abbreviation TAG_EMBED :: TagType where "TAG_EMBED \<equiv> 7"
abbreviation TAG_FRAME :: TagType where "TAG_FRAME \<equiv> 8"
abbreviation TAG_HR :: TagType where "TAG_HR \<equiv> 9"
abbreviation TAG_IMAGE :: TagType where "TAG_IMAGE \<equiv> 10"
abbreviation TAG_IMG :: TagType where "TAG_IMG \<equiv> 11"
abbreviation TAG_INPUT :: TagType where "TAG_INPUT \<equiv> 12"
abbreviation TAG_ISINDEX :: TagType where "TAG_ISINDEX \<equiv> 13"
abbreviation TAG_KEYGEN :: TagType where "TAG_KEYGEN \<equiv> 14"
abbreviation TAG_LINK :: TagType where "TAG_LINK \<equiv> 15"
abbreviation TAG_MENUITEM :: TagType where "TAG_MENUITEM \<equiv> 16"
abbreviation TAG_META :: TagType where "TAG_META \<equiv> 17"
abbreviation TAG_NEXTID :: TagType where "TAG_NEXTID \<equiv> 18"
abbreviation TAG_PARAM :: TagType where "TAG_PARAM \<equiv> 19"
abbreviation TAG_SOURCE :: TagType where "TAG_SOURCE \<equiv> 20"
abbreviation TAG_TRACK :: TagType where "TAG_TRACK \<equiv> 21"
abbreviation TAG_WBR :: TagType where "TAG_WBR \<equiv> 22"
abbreviation TAG_END_OF_VOID_TAGS :: TagType where "TAG_END_OF_VOID_TAGS \<equiv> 23"
abbreviation TAG_A :: TagType where "TAG_A \<equiv> 24"
abbreviation TAG_ABBR :: TagType where "TAG_ABBR \<equiv> 25"
abbreviation TAG_ADDRESS :: TagType where "TAG_ADDRESS \<equiv> 26"
abbreviation TAG_ARTICLE :: TagType where "TAG_ARTICLE \<equiv> 27"
abbreviation TAG_ASIDE :: TagType where "TAG_ASIDE \<equiv> 28"
abbreviation TAG_AUDIO :: TagType where "TAG_AUDIO \<equiv> 29"
abbreviation TAG_B :: TagType where "TAG_B \<equiv> 30"
abbreviation TAG_BDI :: TagType where "TAG_BDI \<equiv> 31"
abbreviation TAG_BDO :: TagType where "TAG_BDO \<equiv> 32"
abbreviation TAG_BLOCKQUOTE :: TagType where "TAG_BLOCKQUOTE \<equiv> 33"
abbreviation TAG_BODY :: TagType where "TAG_BODY \<equiv> 34"
abbreviation TAG_BUTTON :: TagType where "TAG_BUTTON \<equiv> 35"
abbreviation TAG_CANVAS :: TagType where "TAG_CANVAS \<equiv> 36"
abbreviation TAG_CAPTION :: TagType where "TAG_CAPTION \<equiv> 37"
abbreviation TAG_CITE :: TagType where "TAG_CITE \<equiv> 38"
abbreviation TAG_CODE :: TagType where "TAG_CODE \<equiv> 39"
abbreviation TAG_COLGROUP :: TagType where "TAG_COLGROUP \<equiv> 40"
abbreviation TAG_DATA :: TagType where "TAG_DATA \<equiv> 41"
abbreviation TAG_DATALIST :: TagType where "TAG_DATALIST \<equiv> 42"
abbreviation TAG_DD :: TagType where "TAG_DD \<equiv> 43"
abbreviation TAG_DEL :: TagType where "TAG_DEL \<equiv> 44"
abbreviation TAG_DETAILS :: TagType where "TAG_DETAILS \<equiv> 45"
abbreviation TAG_DFN :: TagType where "TAG_DFN \<equiv> 46"
abbreviation TAG_DIALOG :: TagType where "TAG_DIALOG \<equiv> 47"
abbreviation TAG_DIV :: TagType where "TAG_DIV \<equiv> 48"
abbreviation TAG_DL :: TagType where "TAG_DL \<equiv> 49"
abbreviation TAG_DT :: TagType where "TAG_DT \<equiv> 50"
abbreviation TAG_EM :: TagType where "TAG_EM \<equiv> 51"
abbreviation TAG_FIELDSET :: TagType where "TAG_FIELDSET \<equiv> 52"
abbreviation TAG_FIGCAPTION :: TagType where "TAG_FIGCAPTION \<equiv> 53"
abbreviation TAG_FIGURE :: TagType where "TAG_FIGURE \<equiv> 54"
abbreviation TAG_FOOTER :: TagType where "TAG_FOOTER \<equiv> 55"
abbreviation TAG_FORM :: TagType where "TAG_FORM \<equiv> 56"
abbreviation TAG_H1 :: TagType where "TAG_H1 \<equiv> 57"
abbreviation TAG_H2 :: TagType where "TAG_H2 \<equiv> 58"
abbreviation TAG_H3 :: TagType where "TAG_H3 \<equiv> 59"
abbreviation TAG_H4 :: TagType where "TAG_H4 \<equiv> 60"
abbreviation TAG_H5 :: TagType where "TAG_H5 \<equiv> 61"
abbreviation TAG_H6 :: TagType where "TAG_H6 \<equiv> 62"
abbreviation TAG_HEAD :: TagType where "TAG_HEAD \<equiv> 63"
abbreviation TAG_HEADER :: TagType where "TAG_HEADER \<equiv> 64"
abbreviation TAG_HGROUP :: TagType where "TAG_HGROUP \<equiv> 65"
abbreviation TAG_HTML :: TagType where "TAG_HTML \<equiv> 66"
abbreviation TAG_I :: TagType where "TAG_I \<equiv> 67"
abbreviation TAG_IFRAME :: TagType where "TAG_IFRAME \<equiv> 68"
abbreviation TAG_INS :: TagType where "TAG_INS \<equiv> 69"
abbreviation TAG_KBD :: TagType where "TAG_KBD \<equiv> 70"
abbreviation TAG_LABEL :: TagType where "TAG_LABEL \<equiv> 71"
abbreviation TAG_LEGEND :: TagType where "TAG_LEGEND \<equiv> 72"
abbreviation TAG_LI :: TagType where "TAG_LI \<equiv> 73"
abbreviation TAG_MAIN :: TagType where "TAG_MAIN \<equiv> 74"
abbreviation TAG_MAP :: TagType where "TAG_MAP \<equiv> 75"
abbreviation TAG_MARK :: TagType where "TAG_MARK \<equiv> 76"
abbreviation TAG_MATH :: TagType where "TAG_MATH \<equiv> 77"
abbreviation TAG_MENU :: TagType where "TAG_MENU \<equiv> 78"
abbreviation TAG_METER :: TagType where "TAG_METER \<equiv> 79"
abbreviation TAG_NAV :: TagType where "TAG_NAV \<equiv> 80"
abbreviation TAG_NOSCRIPT :: TagType where "TAG_NOSCRIPT \<equiv> 81"
abbreviation TAG_OBJECT :: TagType where "TAG_OBJECT \<equiv> 82"
abbreviation TAG_OL :: TagType where "TAG_OL \<equiv> 83"
abbreviation TAG_OPTGROUP :: TagType where "TAG_OPTGROUP \<equiv> 84"
abbreviation TAG_OPTION :: TagType where "TAG_OPTION \<equiv> 85"
abbreviation TAG_OUTPUT :: TagType where "TAG_OUTPUT \<equiv> 86"
abbreviation TAG_P :: TagType where "TAG_P \<equiv> 87"
abbreviation TAG_PICTURE :: TagType where "TAG_PICTURE \<equiv> 88"
abbreviation TAG_PRE :: TagType where "TAG_PRE \<equiv> 89"
abbreviation TAG_PROGRESS :: TagType where "TAG_PROGRESS \<equiv> 90"
abbreviation TAG_Q :: TagType where "TAG_Q \<equiv> 91"
abbreviation TAG_RB :: TagType where "TAG_RB \<equiv> 92"
abbreviation TAG_RP :: TagType where "TAG_RP \<equiv> 93"
abbreviation TAG_RT :: TagType where "TAG_RT \<equiv> 94"
abbreviation TAG_RTC :: TagType where "TAG_RTC \<equiv> 95"
abbreviation TAG_RUBY :: TagType where "TAG_RUBY \<equiv> 96"
abbreviation TAG_S :: TagType where "TAG_S \<equiv> 97"
abbreviation TAG_SAMP :: TagType where "TAG_SAMP \<equiv> 98"
abbreviation TAG_SCRIPT :: TagType where "TAG_SCRIPT \<equiv> 99"
abbreviation TAG_SECTION :: TagType where "TAG_SECTION \<equiv> 100"
abbreviation TAG_SELECT :: TagType where "TAG_SELECT \<equiv> 101"
abbreviation TAG_SLOT :: TagType where "TAG_SLOT \<equiv> 102"
abbreviation TAG_SMALL :: TagType where "TAG_SMALL \<equiv> 103"
abbreviation TAG_SPAN :: TagType where "TAG_SPAN \<equiv> 104"
abbreviation TAG_STRONG :: TagType where "TAG_STRONG \<equiv> 105"
abbreviation TAG_STYLE :: TagType where "TAG_STYLE \<equiv> 106"
abbreviation TAG_SUB :: TagType where "TAG_SUB \<equiv> 107"
abbreviation TAG_SUMMARY :: TagType where "TAG_SUMMARY \<equiv> 108"
abbreviation TAG_SUP :: TagType where "TAG_SUP \<equiv> 109"
abbreviation TAG_SVG :: TagType where "TAG_SVG \<equiv> 110"
abbreviation TAG_TABLE :: TagType where "TAG_TABLE \<equiv> 111"
abbreviation TAG_TBODY :: TagType where "TAG_TBODY \<equiv> 112"
abbreviation TAG_TD :: TagType where "TAG_TD \<equiv> 113"
abbreviation TAG_TEMPLATE :: TagType where "TAG_TEMPLATE \<equiv> 114"
abbreviation TAG_TEXTAREA :: TagType where "TAG_TEXTAREA \<equiv> 115"
abbreviation TAG_TFOOT :: TagType where "TAG_TFOOT \<equiv> 116"
abbreviation TAG_TH :: TagType where "TAG_TH \<equiv> 117"
abbreviation TAG_THEAD :: TagType where "TAG_THEAD \<equiv> 118"
abbreviation TAG_TIME :: TagType where "TAG_TIME \<equiv> 119"
abbreviation TAG_TITLE :: TagType where "TAG_TITLE \<equiv> 120"
abbreviation TAG_TR :: TagType where "TAG_TR \<equiv> 121"
abbreviation TAG_U :: TagType where "TAG_U \<equiv> 122"
abbreviation TAG_UL :: TagType where "TAG_UL \<equiv> 123"
abbreviation TAG_VAR :: TagType where "TAG_VAR \<equiv> 124"
abbreviation TAG_VIDEO :: TagType where "TAG_VIDEO \<equiv> 125"
abbreviation TAG_CUSTOM :: TagType where "TAG_CUSTOM \<equiv> 126"
abbreviation TAG_END :: TagType where "TAG_END \<equiv> 127"

record Tag =
  type :: TagType
  custom_tag_name :: "byte list"

definition TAG_TYPES_BY_TAG_NAME :: "(string \<times> TagType) list" where
  "TAG_TYPES_BY_TAG_NAME =
    [(''AREA'', TAG_AREA), (''BASE'', TAG_BASE), (''BASEFONT'', TAG_BASEFONT), (''BGSOUND'', TAG_BGSOUND),
     (''BR'', TAG_BR), (''COL'', TAG_COL), (''COMMAND'', TAG_COMMAND), (''EMBED'', TAG_EMBED),
     (''FRAME'', TAG_FRAME), (''HR'', TAG_HR), (''IMAGE'', TAG_IMAGE), (''IMG'', TAG_IMG),
     (''INPUT'', TAG_INPUT), (''ISINDEX'', TAG_ISINDEX), (''KEYGEN'', TAG_KEYGEN), (''LINK'', TAG_LINK),
     (''MENUITEM'', TAG_MENUITEM), (''META'', TAG_META), (''NEXTID'', TAG_NEXTID), (''PARAM'', TAG_PARAM),
     (''SOURCE'', TAG_SOURCE), (''TRACK'', TAG_TRACK), (''WBR'', TAG_WBR), (''A'', TAG_A),
     (''ABBR'', TAG_ABBR), (''ADDRESS'', TAG_ADDRESS), (''ARTICLE'', TAG_ARTICLE), (''ASIDE'', TAG_ASIDE),
     (''AUDIO'', TAG_AUDIO), (''B'', TAG_B), (''BDI'', TAG_BDI), (''BDO'', TAG_BDO),
     (''BLOCKQUOTE'', TAG_BLOCKQUOTE), (''BODY'', TAG_BODY), (''BUTTON'', TAG_BUTTON), (''CANVAS'', TAG_CANVAS),
     (''CAPTION'', TAG_CAPTION), (''CITE'', TAG_CITE), (''CODE'', TAG_CODE), (''COLGROUP'', TAG_COLGROUP),
     (''DATA'', TAG_DATA), (''DATALIST'', TAG_DATALIST), (''DD'', TAG_DD), (''DEL'', TAG_DEL),
     (''DETAILS'', TAG_DETAILS), (''DFN'', TAG_DFN), (''DIALOG'', TAG_DIALOG), (''DIV'', TAG_DIV),
     (''DL'', TAG_DL), (''DT'', TAG_DT), (''EM'', TAG_EM), (''FIELDSET'', TAG_FIELDSET),
     (''FIGCAPTION'', TAG_FIGCAPTION), (''FIGURE'', TAG_FIGURE), (''FOOTER'', TAG_FOOTER), (''FORM'', TAG_FORM),
     (''H1'', TAG_H1), (''H2'', TAG_H2), (''H3'', TAG_H3), (''H4'', TAG_H4),
     (''H5'', TAG_H5), (''H6'', TAG_H6), (''HEAD'', TAG_HEAD), (''HEADER'', TAG_HEADER),
     (''HGROUP'', TAG_HGROUP), (''HTML'', TAG_HTML), (''I'', TAG_I), (''IFRAME'', TAG_IFRAME),
     (''INS'', TAG_INS), (''KBD'', TAG_KBD), (''LABEL'', TAG_LABEL), (''LEGEND'', TAG_LEGEND),
     (''LI'', TAG_LI), (''MAIN'', TAG_MAIN), (''MAP'', TAG_MAP), (''MARK'', TAG_MARK),
     (''MATH'', TAG_MATH), (''MENU'', TAG_MENU), (''METER'', TAG_METER), (''NAV'', TAG_NAV),
     (''NOSCRIPT'', TAG_NOSCRIPT), (''OBJECT'', TAG_OBJECT), (''OL'', TAG_OL), (''OPTGROUP'', TAG_OPTGROUP),
     (''OPTION'', TAG_OPTION), (''OUTPUT'', TAG_OUTPUT), (''P'', TAG_P), (''PICTURE'', TAG_PICTURE),
     (''PRE'', TAG_PRE), (''PROGRESS'', TAG_PROGRESS), (''Q'', TAG_Q), (''RB'', TAG_RB),
     (''RP'', TAG_RP), (''RT'', TAG_RT), (''RTC'', TAG_RTC), (''RUBY'', TAG_RUBY),
     (''S'', TAG_S), (''SAMP'', TAG_SAMP), (''SCRIPT'', TAG_SCRIPT), (''SECTION'', TAG_SECTION),
     (''SELECT'', TAG_SELECT), (''SLOT'', TAG_SLOT), (''SMALL'', TAG_SMALL), (''SPAN'', TAG_SPAN),
     (''STRONG'', TAG_STRONG), (''STYLE'', TAG_STYLE), (''SUB'', TAG_SUB), (''SUMMARY'', TAG_SUMMARY),
     (''SUP'', TAG_SUP), (''SVG'', TAG_SVG), (''TABLE'', TAG_TABLE), (''TBODY'', TAG_TBODY),
     (''TD'', TAG_TD), (''TEMPLATE'', TAG_TEMPLATE), (''TEXTAREA'', TAG_TEXTAREA), (''TFOOT'', TAG_TFOOT),
     (''TH'', TAG_TH), (''THEAD'', TAG_THEAD), (''TIME'', TAG_TIME), (''TITLE'', TAG_TITLE),
     (''TR'', TAG_TR), (''U'', TAG_U), (''UL'', TAG_UL), (''VAR'', TAG_VAR),
     (''VIDEO'', TAG_VIDEO), (''CUSTOM'', TAG_CUSTOM)]"

definition TAG_TYPES_NOT_ALLOWED_IN_PARAGRAPHS :: "TagType list" where
  "TAG_TYPES_NOT_ALLOWED_IN_PARAGRAPHS =
    [TAG_ADDRESS, TAG_ARTICLE, TAG_ASIDE, TAG_BLOCKQUOTE, TAG_DETAILS, TAG_DIV, TAG_DL,
     TAG_FIELDSET, TAG_FIGCAPTION, TAG_FIGURE, TAG_FOOTER, TAG_FORM, TAG_H1, TAG_H2,
     TAG_H3, TAG_H4, TAG_H5, TAG_H6, TAG_HEADER, TAG_HR, TAG_MAIN,
     TAG_NAV, TAG_OL, TAG_P, TAG_PRE, TAG_SECTION]"

text \<open>The loop over the table: the first entry with the same characters wins.\<close>

fun tag_type_lookup :: "(string \<times> TagType) list \<Rightarrow> byte list \<Rightarrow> TagType" where
  "tag_type_lookup [] tag_name = TAG_CUSTOM"
| "tag_type_lookup ((name, t) # entries) tag_name =
     (if map of_char name = tag_name then t else tag_type_lookup entries tag_name)"

definition tag_type_for_name :: "byte list \<Rightarrow> TagType" where
  "tag_type_for_name tag_name = tag_type_lookup TAG_TYPES_BY_TAG_NAME tag_name"

definition tag_new :: Tag where
  "tag_new = \<lparr>type = TAG_END, custom_tag_name = []\<rparr>"

definition tag_for_name :: "byte list \<Rightarrow> Tag" where
  "tag_for_name name =
     (let tag = tag_new\<lparr>type := tag_type_for_name name\<rparr> in
      if type tag = TAG_CUSTOM then tag\<lparr>custom_tag_name := name\<rparr> else tag)"

definition tag_is_void :: "Tag \<Rightarrow> bool" where
  "tag_is_void self \<longleftrightarrow> type self < TAG_END_OF_VOID_TAGS"

definition tag_eq :: "Tag \<Rightarrow> Tag \<Rightarrow> bool" where
  "tag_eq self other =
     (if type self \<noteq> type other then False
      else if type self = TAG_CUSTOM then custom_tag_name self = custom_tag_name other
      else True)"

definition tag_can_contain :: "Tag \<Rightarrow> Tag \<Rightarrow> bool" where
  "tag_can_contain self other =
     (let child = type other in
      if type self = TAG_LI then child \<noteq> TAG_LI
      else if type self = TAG_DT \<or> type self = TAG_DD then child \<noteq> TAG_DT \<and> child \<noteq> TAG_DD
      else if type self = TAG_P then child \<notin> set TAG_TYPES_NOT_ALLOWED_IN_PARAGRAPHS
      else if type self = TAG_COLGROUP then child = TAG_COL
      else if type self = TAG_RB \<or> type self = TAG_RT \<or> type self = TAG_RP
      then child \<noteq> TAG_RB \<and> child \<noteq> TAG_RT \<and> child \<noteq> TAG_RP
      else if type self = TAG_OPTGROUP then child \<noteq> TAG_OPTGROUP
      else if type self = TAG_TR then child \<noteq> TAG_TR
      else if type self = TAG_TD \<or> type self = TAG_TH then child \<noteq> TAG_TD \<and> child \<noteq> TAG_TH \<and> child \<noteq> TAG_TR
      else True)"

section \<open>State\<close>

record html_scanner =
  tags :: "Tag list"

type_synonym 'l html_lexer = "('l, html_token) TSLexer"

definition html_create :: html_scanner where
  "html_create = \<lparr>tags = []\<rparr>"

definition strncpy :: "nat \<Rightarrow> byte list \<Rightarrow> byte list" where
  "strncpy n src = (let s = takeWhile (\<lambda>c. c \<noteq> 0) (take n src) in s @ replicate (n - length s) 0)"

text \<open>The bytes of one tag, and the loop that writes tags until the buffer is full.\<close>

definition html_serialize_tag :: "Tag \<Rightarrow> byte list" where
  "html_serialize_tag tag =
     (if type tag = TAG_CUSTOM then
        let name_length = min 255 (length (custom_tag_name tag)) in
        [ucast (type tag), of_nat name_length] @ strncpy name_length (custom_tag_name tag)
      else [ucast (type tag)])"

fun html_serialize_tags :: "nat \<Rightarrow> Tag list \<Rightarrow> byte list \<times> nat" where
  "html_serialize_tags sz [] = ([], 0)"
| "html_serialize_tags sz (tag # ts) =
     (let bytes = html_serialize_tag tag in
      if sz + length bytes \<ge> TREE_SITTER_SERIALIZATION_BUFFER_SIZE then ([], 0)
      else (case html_serialize_tags (sz + length bytes) ts of (bs, n) \<Rightarrow> (bytes @ bs, Suc n)))"

definition html_serialize :: "html_scanner \<Rightarrow> byte list" where
  "html_serialize s =
     (let tag_count = min 65535 (length (tags s)) in
      case html_serialize_tags 4 (take tag_count (tags s)) of
        (bs, serialized_tag_count) \<Rightarrow> le16 (of_nat serialized_tag_count) @ le16 (of_nat tag_count) @ bs)"

definition html_get_tag :: "byte list \<Rightarrow> (Tag \<times> byte list) option" where
  "html_get_tag buffer =
     do { (b, buffer) \<leftarrow> get8 buffer;
          let tag = tag_new\<lparr>type := scast b\<rparr> in
          if type tag = TAG_CUSTOM then
            do { (name_length, buffer) \<leftarrow> get8 buffer;
                 (name, buffer) \<leftarrow> get_bytes (unat name_length) buffer;
                 Some (tag\<lparr>custom_tag_name := name\<rparr>, buffer) }
          else Some (tag, buffer) }"

definition html_deserialize :: "html_scanner \<Rightarrow> byte list \<Rightarrow> html_scanner option" where
  "html_deserialize s buffer =
     (let s = s\<lparr>tags := []\<rparr> in
      if buffer \<noteq> [] then
        do { (serialized_tag_count, buffer) \<leftarrow> get16 buffer;
             (tag_count, buffer) \<leftarrow> get16 buffer;
             if tag_count > 0 then
               do { (ts, buffer) \<leftarrow> get_many html_get_tag (unat serialized_tag_count) buffer;
                    Some (s\<lparr>tags := ts @ replicate (unat tag_count - unat serialized_tag_count) tag_new\<rparr>) }
             else Some s }
      else Some s)"

definition html_pop_tag :: "html_scanner \<Rightarrow> html_scanner option" where
  "html_pop_tag s = (if tags s = [] then None else Some (s\<lparr>tags := butlast (tags s)\<rparr>))"

section \<open>Scanning\<close>

definition html_scan_tag_name :: "'l env \<Rightarrow> 'l html_lexer \<Rightarrow> (byte list \<times> 'l html_lexer) option" where
  "html_scan_tag_name E l =
     c_loop (\<lambda>(tag_name, l).
       if iswalnum E (lookahead E l) \<or> lookahead E l = ch CHR ''-'' \<or> lookahead E l = ch CHR '':''
       then Some (Next (tag_name @ [word_of_int (towupper E (lookahead E l))], advance E l))
       else Some (Return (tag_name, l))) ([], l)"

definition html_comment_step :: "'l env \<Rightarrow> 32 word \<times> 'l html_lexer \<Rightarrow>
    (32 word \<times> 'l html_lexer, bool \<times> 'l html_lexer) flow option" where
  "html_comment_step E = (\<lambda>(dashes, l).
     if lookahead E l = 0 then Some (Return (False, l))
     else if lookahead E l = ch CHR ''-'' then Some (Next (dashes + 1, advance E l))
     else if lookahead E l = ch CHR ''>'' \<and> dashes \<ge> 2
     then Some (Return (True, mark_end E (advance E (set_symbol COMMENT l))))
     else Some (Next (0, advance E l)))"

definition html_scan_comment :: "'l env \<Rightarrow> 'l html_lexer \<Rightarrow> (bool \<times> 'l html_lexer) option" where
  "html_scan_comment E l =
     (if lookahead E l \<noteq> ch CHR ''-'' then Some (False, l)
      else
        let l = advance E l in
        if lookahead E l \<noteq> ch CHR ''-'' then Some (False, l)
        else c_loop (html_comment_step E) (0, advance E l))"

definition html_raw_text_step :: "'l env \<Rightarrow> string \<Rightarrow> nat \<times> 'l html_lexer \<Rightarrow>
    (nat \<times> 'l html_lexer, 'l html_lexer) flow option" where
  "html_raw_text_step E end_delimiter = (\<lambda>(delimiter_index, l).
     if lookahead E l = 0 then Some (Return l)
     else if towupper E (lookahead E l) = ch (end_delimiter ! delimiter_index) then
       if delimiter_index + 1 = length end_delimiter then Some (Return l)
       else Some (Next (delimiter_index + 1, advance E l))
     else Some (Next (0, mark_end E (advance E l))))"

definition html_scan_raw_text :: "'l env \<Rightarrow> html_scanner \<Rightarrow> 'l html_lexer \<Rightarrow> (bool \<times> 'l html_lexer) option" where
  "html_scan_raw_text E s l =
     (if tags s = [] then Some (False, l)
      else
        let end_delimiter = (if type (last (tags s)) = TAG_SCRIPT then ''</SCRIPT'' else ''</STYLE'') in
        do { l \<leftarrow> c_loop (html_raw_text_step E end_delimiter) (0, mark_end E l);
             Some (True, set_symbol RAW_TEXT l) })"

definition html_implicit_end :: "html_scanner \<Rightarrow> 'l html_lexer \<Rightarrow> (bool \<times> html_scanner \<times> 'l html_lexer) option" where
  "html_implicit_end s l =
     do { s \<leftarrow> html_pop_tag s; Some (True, s, set_symbol IMPLICIT_END_TAG l) }"

text \<open>The second half of the function, after the tag name has been read.\<close>

definition html_implicit_end_before :: "'l env \<Rightarrow> html_scanner \<Rightarrow> bool \<Rightarrow> Tag \<Rightarrow> 'l html_lexer \<Rightarrow>
    (bool \<times> html_scanner \<times> 'l html_lexer) option" where
  "html_implicit_end_before E s is_closing_tag next_tag l =
     (if is_closing_tag then
        if tags s \<noteq> [] \<and> tag_eq (last (tags s)) next_tag then Some (False, s, l)
        else if list_ex (\<lambda>t. type t = type next_tag) (rev (tags s)) then html_implicit_end s l
        else Some (False, s, l)
      else if tags s \<noteq> [] \<and>
        (\<not> tag_can_contain (last (tags s)) next_tag
         \<or> type (last (tags s)) \<in> {TAG_HTML, TAG_HEAD, TAG_BODY} \<and> eof E l)
      then html_implicit_end s l
      else Some (False, s, l))"

definition html_scan_implicit_end_tag ::
  "'l env \<Rightarrow> html_scanner \<Rightarrow> 'l html_lexer \<Rightarrow> (bool \<times> html_scanner \<times> 'l html_lexer) option" where
  "html_scan_implicit_end_tag E s l =
     (let is_closing_tag = (lookahead E l = ch CHR ''/'') in
      if \<not> is_closing_tag \<and> tags s \<noteq> [] \<and> tag_is_void (last (tags s)) then html_implicit_end s l
      else
        do { (tag_name, l) \<leftarrow> html_scan_tag_name E (if is_closing_tag then advance E l else l);
             if tag_name = [] \<and> \<not> eof E l then Some (False, s, l)
             else html_implicit_end_before E s is_closing_tag (tag_for_name tag_name) l })"

definition html_scan_start_tag_name ::
  "'l env \<Rightarrow> html_scanner \<Rightarrow> 'l html_lexer \<Rightarrow> (bool \<times> html_scanner \<times> 'l html_lexer) option" where
  "html_scan_start_tag_name E s l =
     do { (tag_name, l) \<leftarrow> html_scan_tag_name E l;
          if tag_name = [] then Some (False, s, l)
          else
            let tag = tag_for_name tag_name; s = s\<lparr>tags := tags s @ [tag]\<rparr> in
            Some (True, s, set_symbol (if type tag = TAG_SCRIPT then SCRIPT_START_TAG_NAME
                                       else if type tag = TAG_STYLE then STYLE_START_TAG_NAME
                                       else START_TAG_NAME) l) }"

definition html_scan_end_tag_name ::
  "'l env \<Rightarrow> html_scanner \<Rightarrow> 'l html_lexer \<Rightarrow> (bool \<times> html_scanner \<times> 'l html_lexer) option" where
  "html_scan_end_tag_name E s l =
     do { (tag_name, l) \<leftarrow> html_scan_tag_name E l;
          if tag_name = [] then Some (False, s, l)
          else if tags s \<noteq> [] \<and> tag_eq (last (tags s)) (tag_for_name tag_name)
          then do { s \<leftarrow> html_pop_tag s; Some (True, s, set_symbol END_TAG_NAME l) }
          else Some (True, s, set_symbol ERRONEOUS_END_TAG_NAME l) }"

definition html_scan_self_closing_tag_delimiter ::
  "'l env \<Rightarrow> html_scanner \<Rightarrow> 'l html_lexer \<Rightarrow> (bool \<times> html_scanner \<times> 'l html_lexer) option" where
  "html_scan_self_closing_tag_delimiter E s l =
     (let l = advance E l in
      if lookahead E l = ch CHR ''>'' then
        let l = advance E l in
        if tags s \<noteq> []
        then do { s \<leftarrow> html_pop_tag s; Some (True, s, set_symbol SELF_CLOSING_TAG_DELIMITER l) }
        else Some (True, s, l)
      else Some (False, s, l))"

definition html_scan :: "'l env \<Rightarrow> (html_token \<Rightarrow> bool) \<Rightarrow> html_scanner \<Rightarrow> 'l html_lexer \<Rightarrow>
    (bool \<times> html_scanner \<times> 'l html_lexer) option" where
  "html_scan E valid_symbols s l =
     (if valid_symbols RAW_TEXT \<and> \<not> valid_symbols START_TAG_NAME \<and> \<not> valid_symbols END_TAG_NAME
      then do { (b, l) \<leftarrow> html_scan_raw_text E s l; Some (b, s, l) }
      else
        do { l \<leftarrow> skip_while E (iswspace E) l;
             if lookahead E l = ch CHR ''<'' then
               let l = advance E (mark_end E l) in
               if lookahead E l = ch CHR ''!''
               then do { (b, l) \<leftarrow> html_scan_comment E (advance E l); Some (b, s, l) }
               else if valid_symbols IMPLICIT_END_TAG then html_scan_implicit_end_tag E s l
               else Some (False, s, l)
             else if lookahead E l = 0 then
               if valid_symbols IMPLICIT_END_TAG then html_scan_implicit_end_tag E s l else Some (False, s, l)
             else if lookahead E l = ch CHR ''/'' then
               if valid_symbols SELF_CLOSING_TAG_DELIMITER then html_scan_self_closing_tag_delimiter E s l
               else Some (False, s, l)
             else if (valid_symbols START_TAG_NAME \<or> valid_symbols END_TAG_NAME) \<and> \<not> valid_symbols RAW_TEXT then
               if valid_symbols START_TAG_NAME then html_scan_start_tag_name E s l
               else html_scan_end_tag_name E s l
             else Some (False, s, l) })"

section \<open>Saving and restoring\<close>

text \<open>Well-formed tags: a known type, and a name only where the type is custom.\<close>

definition html_wf_tag :: "Tag \<Rightarrow> bool" where
  "html_wf_tag t \<longleftrightarrow> type t < 128 \<and> (type t \<noteq> TAG_CUSTOM \<longrightarrow> custom_tag_name t = [])"

definition html_wf :: "html_scanner \<Rightarrow> bool" where
  "html_wf s \<longleftrightarrow> (\<forall>t\<in>set (tags s). html_wf_tag t)"

text \<open>The tag that comes back: names are cut at 255 bytes and at a NUL byte.\<close>

definition html_stored_tag :: "Tag \<Rightarrow> Tag" where
  "html_stored_tag t = t\<lparr>custom_tag_name := strncpy (min 255 (length (custom_tag_name t))) (custom_tag_name t)\<rparr>"

lemma length_strncpy [simp]: "length (strncpy n xs) = n"
proof -
  have "length (takeWhile (\<lambda>c. c \<noteq> 0) (take n xs)) \<le> n"
    by (rule order_trans [OF length_takeWhile_le]) simp
  then show ?thesis by (simp add: strncpy_def Let_def)
qed

lemma strncpy_id: "0 \<notin> set xs \<Longrightarrow> strncpy (length xs) xs = xs"
proof -
  assume "0 \<notin> set xs"
  then have tw: "takeWhile (\<lambda>c. c \<noteq> 0) xs = xs" by (auto simp: takeWhile_eq_all_conv)
  show ?thesis unfolding strncpy_def Let_def take_all [OF order_refl] tw by simp
qed

lemma html_type_byte: "t < 128 \<Longrightarrow> scast (ucast (t :: 32 word) :: 8 word) = t"
proof -
  assume "t < 128"
  then have "unat t < 128" by (simp add: word_less_nat_alt)
  then obtain n where n: "t = of_nat n" "n < 128" by (metis of_nat_unat ucast_id)
  have "\<forall>n < 128. scast (ucast (of_nat n :: 32 word) :: 8 word) = (of_nat n :: 32 word)"
    by code_simp
  with n show ?thesis by simp
qed

lemma html_get_tag_serialize:
  assumes "html_wf_tag t"
  shows "html_get_tag (html_serialize_tag t @ xs) = Some (html_stored_tag t, xs)"
proof -
  from assms have ty: "scast (ucast (type t) :: 8 word) = type t" by (intro html_type_byte) (simp add: html_wf_tag_def)
  show ?thesis
  proof (cases "type t = TAG_CUSTOM")
    case True
    let ?n = "min 255 (length (custom_tag_name t))"
    have n: "unat (of_nat ?n :: 8 word) = ?n" by (rule unat_of_nat_8) simp
    have "get_bytes ?n (strncpy ?n (custom_tag_name t) @ xs) = Some (strncpy ?n (custom_tag_name t), xs)"
      by (rule get_bytes_append') simp
    with True ty n show ?thesis
      by (simp add: html_get_tag_def html_serialize_tag_def html_stored_tag_def tag_new_def Let_def)
  next
    case False
    with assms ty show ?thesis
      by (simp add: html_get_tag_def html_serialize_tag_def html_stored_tag_def html_wf_tag_def tag_new_def
          strncpy_def Let_def)
  qed
qed

lemma html_serialize_tags_spec:
  assumes "html_serialize_tags sz ts = (bs, n)" and "sz < 1024"
  shows "n \<le> length ts \<and> bs = concat (map html_serialize_tag (take n ts)) \<and> sz + length bs < 1024
    \<and> (sz + length (concat (map html_serialize_tag ts)) < 1024 \<longrightarrow> n = length ts)"
  using assms
proof (induction sz ts arbitrary: bs n rule: html_serialize_tags.induct)
  case (2 sz t ts)
  show ?case
  proof (cases "sz + length (html_serialize_tag t) \<ge> 1024")
    case True
    with 2 show ?thesis by (simp add: Let_def TREE_SITTER_SERIALIZATION_BUFFER_SIZE_def)
  next
    case False
    obtain bs' n' where r: "html_serialize_tags (sz + length (html_serialize_tag t)) ts = (bs', n')" by fastforce
    with 2(1) [OF refl _ r] False 2(2) show ?thesis
      by (auto simp: Let_def TREE_SITTER_SERIALIZATION_BUFFER_SIZE_def)
  qed
qed simp

definition html_saved_count :: "html_scanner \<Rightarrow> nat" where
  "html_saved_count s = snd (html_serialize_tags 4 (take 65535 (tags s)))"

lemma html_restore:
  assumes "html_wf s"
  shows "html_deserialize t (html_serialize s) =
       Some (t\<lparr>tags := map html_stored_tag (take (html_saved_count s) (tags s))
               @ replicate (min 65535 (length (tags s)) - html_saved_count s) tag_new\<rparr>)
     \<and> length (html_serialize s) < 1024
     \<and> (4 + length (concat (map html_serialize_tag (take 65535 (tags s)))) < 1024 \<longrightarrow>
          html_saved_count s = min 65535 (length (tags s)))"
proof -
  let ?ts = "take 65535 (tags s)"
  have ts: "?ts = take (min 65535 (length (tags s))) (tags s)" by (simp add: min_def)
  obtain bs n where r: "html_serialize_tags 4 ?ts = (bs, n)" by fastforce
  have "(4 :: nat) < 1024" by simp
  note n = html_serialize_tags_spec [OF r this, THEN conjunct1]
    html_serialize_tags_spec [OF r this, THEN conjunct2, THEN conjunct1]
    html_serialize_tags_spec [OF r this, THEN conjunct2, THEN conjunct2, THEN conjunct1]
    html_serialize_tags_spec [OF r this, THEN conjunct2, THEN conjunct2, THEN conjunct2]
  have tk: "take n ?ts = take n (tags s)" using n(1) by (auto simp: min_def split: if_splits)
  have wf: "html_wf_tag t" if "t \<in> set (take n (tags s))" for t
    using assms that by (auto simp: html_wf_def dest: in_set_takeD)
  have many: "get_many html_get_tag n (bs @ []) = Some (map html_stored_tag (take n (tags s)), [])"
  proof -
    have "get_many html_get_tag (length us) (concat (map html_serialize_tag us) @ xs) = Some (map html_stored_tag us, xs)"
      if "\<And>t. t \<in> set us \<Longrightarrow> html_wf_tag t" for us xs
      using that by (induction us) (simp_all add: html_get_tag_serialize)
    from this [of "take n (tags s)" "[]"] wf n(1) show ?thesis unfolding n(2) tk by (simp add: min_def split: if_splits)
  qed
  have u: "unat (of_nat n :: 16 word) = n" "unat (of_nat (min 65535 (length (tags s))) :: 16 word) = min 65535 (length (tags s))"
    using n(1) by (auto intro!: unat_of_nat_16)
  have ser: "html_serialize s = le16 (of_nat n) @ le16 (of_nat (min 65535 (length (tags s)))) @ bs"
    using r by (simp add: html_serialize_def Let_def ts [symmetric])
  have cnt: "html_saved_count s = n" by (simp add: html_saved_count_def r)
  have pos: "(0 :: 16 word) < of_nat (min 65535 (length (tags s))) \<longleftrightarrow> 0 < min 65535 (length (tags s))"
    by (simp add: word_less_nat_alt u)
  have "le16 (of_nat n) @ le16 (of_nat (min 65535 (length (tags s)))) @ bs \<noteq> []" by (simp add: le16_def)
  then have "html_deserialize t (html_serialize s) =
       Some (t\<lparr>tags := map html_stored_tag (take n (tags s)) @ replicate (min 65535 (length (tags s)) - n) tag_new\<rparr>)"
    using many n(1) u pos by (auto simp: ser html_deserialize_def Let_def)
  moreover have "length (html_serialize s) < 1024" using n(3) by (simp add: ser)
  ultimately show ?thesis using n(4) by (simp add: cnt min.commute)
qed

text \<open>The states that come back as they were.\<close>

definition html_saves :: "html_scanner \<Rightarrow> bool" where
  "html_saves s \<longleftrightarrow> html_wf s
     \<and> (\<forall>t\<in>set (tags s). length (custom_tag_name t) \<le> 255 \<and> 0 \<notin> set (custom_tag_name t))
     \<and> 4 + length (concat (map html_serialize_tag (tags s))) < TREE_SITTER_SERIALIZATION_BUFFER_SIZE"

lemma html_saves_restore:
  assumes "html_saves s"
  shows "html_deserialize t (html_serialize s) = Some s"
proof -
  from assms have wf: "html_wf s" by (simp add: html_saves_def)
  have "length ts \<le> length (concat (map html_serialize_tag ts))" for ts
    by (induction ts) (auto simp: html_serialize_tag_def Let_def)
  from this [of "tags s"] assms have n: "length (tags s) \<le> 65535" "take 65535 (tags s) = tags s"
    by (simp_all add: html_saves_def TREE_SITTER_SERIALIZATION_BUFFER_SIZE_def)
  with html_restore [OF wf] assms have cnt: "html_saved_count s = length (tags s)"
    by (simp add: html_saves_def TREE_SITTER_SERIALIZATION_BUFFER_SIZE_def)
  have "map html_stored_tag (tags s) = map (\<lambda>t. t) (tags s)"
    using assms by (intro map_cong) (auto simp: html_stored_tag_def html_saves_def strncpy_id min_absorb2)
  with html_restore [OF wf, of t] cnt n show ?thesis by simp
qed

interpretation html: resettable_scanner html_serialize html_deserialize html_saves "\<lambda>s. s" html_create
proof
  show "length (html_serialize s) \<le> TREE_SITTER_SERIALIZATION_BUFFER_SIZE" if "html_saves s" for s
    using html_restore [of s s] that by (auto simp: html_saves_def TREE_SITTER_SERIALIZATION_BUFFER_SIZE_def)
  show "\<exists>s'. html_deserialize t [] = Some s' \<and> s' = html_create" for t
    by (simp add: html_deserialize_def html_create_def)
qed (simp add: html_saves_restore)

section \<open>The stack of open tags\<close>

text \<open>What a token means for the stack.\<close>

definition html_effect :: "html_token \<Rightarrow> Tag list \<Rightarrow> Tag list \<Rightarrow> bool" where
  "html_effect t ts ts' =
     (case t of
        START_TAG_NAME \<Rightarrow> \<exists>tag. ts' = ts @ [tag] \<and> type tag \<noteq> TAG_SCRIPT \<and> type tag \<noteq> TAG_STYLE
      | SCRIPT_START_TAG_NAME \<Rightarrow> \<exists>tag. ts' = ts @ [tag] \<and> type tag = TAG_SCRIPT
      | STYLE_START_TAG_NAME \<Rightarrow> \<exists>tag. ts' = ts @ [tag] \<and> type tag = TAG_STYLE
      | END_TAG_NAME \<Rightarrow> \<exists>tag. ts = ts' @ [tag]
      | SELF_CLOSING_TAG_DELIMITER \<Rightarrow> \<exists>tag. ts = ts' @ [tag]
      | IMPLICIT_END_TAG \<Rightarrow> \<exists>tag. ts = ts' @ [tag]
      | _ \<Rightarrow> ts' = ts)"

lemma tag_type_for_name_bound: "tag_type_for_name n < 127"
proof -
  have "\<forall>e\<in>set es. snd e < 127 \<Longrightarrow> tag_type_lookup es n < 127" for es
    by (induction es n rule: tag_type_lookup.induct) auto
  moreover have "\<forall>e\<in>set TAG_TYPES_BY_TAG_NAME. snd e < 127" unfolding TAG_TYPES_BY_TAG_NAME_def by simp
  ultimately show ?thesis by (simp add: tag_type_for_name_def)
qed

lemma html_wf_tag_for_name: "html_wf_tag (tag_for_name n)"
  using tag_type_for_name_bound [of n]
  by (auto simp: html_wf_tag_def tag_for_name_def tag_new_def Let_def intro: order.strict_trans)

lemma html_pop_tag_runs [wp]:
  "tags s \<noteq> [] \<Longrightarrow> runs (html_pop_tag s) Q \<longleftrightarrow> Q (s\<lparr>tags := butlast (tags s)\<rparr>)"
  by (simp add: html_pop_tag_def)

lemma html_wf_ops:
  "html_wf s \<Longrightarrow> html_wf (s\<lparr>tags := butlast (tags s)\<rparr>)"
  "html_wf s \<Longrightarrow> html_wf (s\<lparr>tags := tags s @ [tag_for_name n]\<rparr>)"
  by (auto simp: html_wf_def html_wf_tag_for_name dest: in_set_butlastD)

lemma html_last_butlast: "ts \<noteq> [] \<Longrightarrow> \<exists>tag. ts = butlast ts @ [tag]"
  by (metis append_butlast_last_id)

lemma html_effect_start:
  "html_effect (if type tag = TAG_SCRIPT then SCRIPT_START_TAG_NAME
     else if type tag = TAG_STYLE then STYLE_START_TAG_NAME else START_TAG_NAME) ts (ts @ [tag])"
  by (simp add: html_effect_def)

text \<open>What every scan function of the stack guarantees.\<close>

definition html_post :: "html_scanner \<Rightarrow> bool \<times> html_scanner \<times> ('l, html_token) TSLexer \<Rightarrow> bool" where
  "html_post s r \<longleftrightarrow> (case r of (b, s', l') \<Rightarrow>
     html_wf s' \<and> (if b then html_effect (result_symbol l') (tags s) (tags s') else s' = s))"

lemma html_post_False [simp]: "html_post s (False, s', l) \<longleftrightarrow> html_wf s \<and> s' = s"
  by (auto simp: html_post_def)

lemma html_post_True [simp]:
  "html_post s (True, s', l) \<longleftrightarrow> html_wf s' \<and> html_effect (result_symbol l) (tags s) (tags s')"
  by (simp add: html_post_def)

context ts_lexer
begin

lemma runs_html_scan_tag_name:
  "runs (html_scan_tag_name E l) (\<lambda>(n, l').
     n = map (\<lambda>c. word_of_int (towupper E c)) (takeWhile (\<lambda>c. iswalnum E c \<or> c = 45 \<or> c = 58) (rest (raw l)))
     \<and> rest (raw l') = dropWhile (\<lambda>c. iswalnum E c \<or> c = 45 \<or> c = 58) (rest (raw l))
     \<and> result_symbol l' = result_symbol l)"
  unfolding html_scan_tag_name_def
proof (rule runs_c_loop [where m = "\<lambda>(n, l'). remaining l'"
      and I = "\<lambda>(n, l'). n @ map (\<lambda>c. word_of_int (towupper E c)) (takeWhile (\<lambda>c. iswalnum E c \<or> c = 45 \<or> c = 58) (rest (raw l')))
          = map (\<lambda>c. word_of_int (towupper E c)) (takeWhile (\<lambda>c. iswalnum E c \<or> c = 45 \<or> c = 58) (rest (raw l)))
        \<and> dropWhile (\<lambda>c. iswalnum E c \<or> c = 45 \<or> c = 58) (rest (raw l')) = dropWhile (\<lambda>c. iswalnum E c \<or> c = 45 \<or> c = 58) (rest (raw l))
        \<and> result_symbol l' = result_symbol l"], goal_cases)
  case (2 x)
  obtain n l' where x: "x = (n, l')" by (cases x)
  show ?case using 2 unfolding x by (cases "rest (raw l')") auto
qed simp

lemma runs_html_implicit_end:
  "html_wf s \<Longrightarrow> tags s \<noteq> [] \<Longrightarrow> runs (html_implicit_end s l) (html_post s)"
  by (simp add: html_implicit_end_def html_pop_tag_runs html_wf_ops html_effect_def html_last_butlast)

lemma runs_html_scan_implicit_end_tag:
  "html_wf s \<Longrightarrow> runs (html_scan_implicit_end_tag E s l) (html_post s)"
  by (auto simp: html_scan_implicit_end_tag_def html_implicit_end_before_def Let_def list_ex_iff
      intro!: runs_html_implicit_end runs_weaken [OF runs_html_scan_tag_name])

lemma runs_html_scan_start_tag_name:
  "html_wf s \<Longrightarrow> runs (html_scan_start_tag_name E s l) (html_post s)"
  by (auto simp: html_scan_start_tag_name_def Let_def html_effect_start html_wf_ops
      intro!: runs_weaken [OF runs_html_scan_tag_name])

lemma runs_html_scan_end_tag_name:
  "html_wf s \<Longrightarrow> runs (html_scan_end_tag_name E s l) (html_post s)"
  by (auto simp: html_scan_end_tag_name_def html_pop_tag_runs html_effect_def html_wf_ops
      intro!: html_last_butlast runs_weaken [OF runs_html_scan_tag_name])

lemma runs_html_scan_self_closing:
  "html_wf s \<Longrightarrow> runs (html_scan_self_closing_tag_delimiter E s l)
     (\<lambda>(b, s', l'). html_wf s' \<and> (if b \<and> tags s \<noteq> [] then html_effect (result_symbol l') (tags s) (tags s') else s' = s)
        \<and> (b \<and> tags s = [] \<longrightarrow> result_symbol l' = result_symbol l))"
  by (auto simp: html_scan_self_closing_tag_delimiter_def Let_def html_pop_tag_runs html_effect_def html_wf_ops
      html_last_butlast)

lemma runs_html_scan_raw_text:
  "runs (html_scan_raw_text E s l) (\<lambda>(b, l'). b \<longrightarrow> result_symbol l' = RAW_TEXT)"
  unfolding html_scan_raw_text_def Let_def
  by (auto simp: html_raw_text_step_def intro!: runs_c_loop [where m = "\<lambda>(i, l'). remaining l'" and I = "\<lambda>_. True"])

lemma runs_html_scan_comment:
  "runs (html_scan_comment E l) (\<lambda>(b, l'). b \<longrightarrow> result_symbol l' = COMMENT)"
  unfolding html_scan_comment_def Let_def
  by (auto simp: html_comment_step_def intro!: runs_c_loop [where m = "\<lambda>(i, l'). remaining l'" and I = "\<lambda>_. True"])

text \<open>
  The whole scan. The exception is the self-closing delimiter with no open tag: the
  function answers true without naming a token.
\<close>

lemma runs_html_scan:
  assumes "html_wf s"
  shows "runs (html_scan E v s l) (\<lambda>(b, s', l'). html_wf s' \<and>
     (if b then html_effect (result_symbol l') (tags s) (tags s')
         \<or> tags s = [] \<and> s' = s \<and> v SELF_CLOSING_TAG_DELIMITER \<and> result_symbol l' = result_symbol l
      else s' = s))"
proof -
  have post: "runs c (\<lambda>(b, s', l'). html_wf s' \<and>
     (if b then html_effect (result_symbol l') (tags s) (tags s') \<or> Q l' s' else s' = s))"
    if "runs c (html_post s)" for c :: "(bool \<times> html_scanner \<times> ('l, html_token) TSLexer) option" and Q
    using that by (rule runs_weaken) (auto simp: html_post_def split: if_splits)
  have raw: "runs (html_scan_raw_text E s l) (\<lambda>(b, l'). html_post s (b, s, l'))" for l
    by (rule runs_weaken [OF runs_html_scan_raw_text]) (use assms in \<open>auto simp: html_post_def html_effect_def\<close>)
  have com: "runs (html_scan_comment E l) (\<lambda>(b, l'). html_post s (b, s, l'))" for l
    by (rule runs_weaken [OF runs_html_scan_comment]) (use assms in \<open>auto simp: html_post_def html_effect_def\<close>)
  show ?thesis
  proof (cases "v RAW_TEXT \<and> \<not> v START_TAG_NAME \<and> \<not> v END_TAG_NAME")
    case True
    then have "html_scan E v s l = do { (b, l) \<leftarrow> html_scan_raw_text E s l; Some (b, s, l) }"
      by (simp add: html_scan_def)
    with raw [of l] show ?thesis by (intro post) (simp add: split_def)
  next
    case False
    show ?thesis
      unfolding html_scan_def if_not_P [OF False] runs_bind Let_def
    proof (rule wp_while_le(2), goal_cases)
      case (2 l1)
      consider "lookahead E l1 = 60" | "lookahead E l1 = 0" | "lookahead E l1 = 47"
        | "lookahead E l1 \<notin> {60, 0, 47}" by auto
      then show ?case
      proof cases
        case 1
        then show ?thesis
          using com [of "advance E (advance E (mark_end E l1))"] assms
          by (intro post) (simp add: runs_html_scan_implicit_end_tag split_def)
      next
        case 2
        then show ?thesis using assms by (intro post) (simp add: runs_html_scan_implicit_end_tag)
      next
        case 3
        then show ?thesis
          using assms \<open>result_symbol l1 = result_symbol l\<close>
          by (auto intro!: runs_weaken [OF runs_html_scan_self_closing] split: if_splits)
      next
        case 4
        then show ?thesis
          using assms by (intro post) (simp add: runs_html_scan_start_tag_name runs_html_scan_end_tag_name)
      qed
    qed simp
  qed
qed

text \<open>The comment loop counts the dashes before the current character.\<close>

lemma html_dashes: "suffix [45, 45, 62] (p @ [c]) \<longleftrightarrow> c = 62 \<and> 2 \<le> length (takeWhile (\<lambda>x. x = 45) (rev p))" for c :: int
proof -
  have "suffix [45, 45, 62] (p @ [c]) \<longleftrightarrow> c = 62 \<and> prefix [45, 45] (rev p)"
    by (simp add: suffix_to_prefix)
  also have "prefix [45, 45] (rev p) \<longleftrightarrow> 2 \<le> length (takeWhile (\<lambda>x. x = 45) (rev p))"
    by (cases "rev p"; cases "tl (rev p)") auto
  finally show ?thesis .
qed

lemma runs_html_comment_loop:
  assumes "0 \<notin> set (rest (raw l))" and "remaining l < 2 ^ 32"
  shows "runs (c_loop (html_comment_step E) (0, l)) (\<lambda>(b, l').
     if b then \<exists>p. rest (raw l) = p @ rest (raw l') \<and> suffix [45, 45, 62] p
         \<and> (\<forall>q. strict_prefix q p \<longrightarrow> \<not> suffix [45, 45, 62] q)
     else \<forall>q. prefix q (rest (raw l)) \<longrightarrow> \<not> suffix [45, 45, 62] q)"
proof (rule runs_c_loop [where m = "\<lambda>(d, l'). remaining l'"
      and I = "\<lambda>(d, l'). \<exists>p. rest (raw l) = p @ rest (raw l') \<and> unat d = length (takeWhile (\<lambda>x. x = 45) (rev p))
         \<and> (\<forall>q. prefix q p \<longrightarrow> \<not> suffix [45, 45, 62] q)"], goal_cases)
  case (2 x)
  then obtain d l' p where x: "x = (d, l')" and p: "rest (raw l) = p @ rest (raw l')"
      "unat d = length (takeWhile (\<lambda>x. x = 45) (rev p))" "\<forall>q. prefix q p \<longrightarrow> \<not> suffix [45, 45, 62] q"
    by (cases x) auto
  show ?case
  proof (cases "rest (raw l')")
    case Nil
    with p show ?thesis by (simp add: x html_comment_step_def)
  next
    case (Cons c cs)
    then have c: "c \<noteq> 0" "lookahead E l' = c" using assms(1) p(1) by auto
    have two: "2 \<le> d \<longleftrightarrow> 2 \<le> length (takeWhile (\<lambda>x. x = 45) (rev p))" by (simp add: word_le_nat_alt flip: p(2))
    have "length (takeWhile (\<lambda>x. x = 45) (rev p)) \<le> length p" using length_takeWhile_le [of _ "rev p"] by simp
    also have "length p < remaining l" using p(1) Cons by simp
    finally have succ: "unat (d + 1) = Suc (length (takeWhile (\<lambda>x. x = 45) (rev p)))"
      using assms(2) p(2) unat_succ [of d] by simp
    show ?thesis
    proof (cases "c = 62 \<and> d \<ge> 2")
      case True
      with two have "suffix [45, 45, 62] (p @ [c])" using html_dashes [of p c] by blast
      moreover have "\<not> suffix [45, 45, 62] q" if "strict_prefix q (p @ [c])" for q
        using that p(3) by (auto simp: strict_prefix_def prefix_snoc)
      ultimately show ?thesis
        using True c p(1) Cons
        by (auto simp: x html_comment_step_def Let_def intro!: exI [of _ "p @ [62]"])
    next
      case False
      with p two have "\<forall>q. prefix q (p @ [c]) \<longrightarrow> \<not> suffix [45, 45, 62] q"
        using html_dashes [of p c] by (auto simp: prefix_snoc)
      then show ?thesis
        using False c p Cons succ by (auto simp: x html_comment_step_def intro!: exI [of _ "p @ [c]"])
    qed
  qed
qed (auto intro!: exI [of _ "[]"])

end

context ts_lexer_marks
begin

text \<open>Characters that cannot start an end tag are read up to the first that can, or the end.\<close>

lemma html_raw_text_plain:
  assumes "rest (raw l) = b @ zs" and "\<forall>c\<in>set b. c \<noteq> 0 \<and> towupper E c \<noteq> ch CHR ''<''" and "d = CHR ''<'' # d'"
    and "token_end (raw l) = pos (raw l)"
  shows "\<exists>l'. c_loop (html_raw_text_step E d) (0, l) = c_loop (html_raw_text_step E d) (0, l')
     \<and> rest (raw l') = zs \<and> token_end (raw l') = pos (raw l) + length b \<and> pos (raw l') = pos (raw l) + length b"
  using assms(1,2,4)
proof (induction b arbitrary: l)
  case Nil
  then show ?case by auto
next
  case (Cons c b)
  let ?l = "mark_end E (advance E l)"
  from Cons.prems have ne: "rest (raw l) \<noteq> []" and c: "lookahead E l = c" by auto
  have step: "c_loop (html_raw_text_step E d) (0, l) = c_loop (html_raw_text_step E d) (0, ?l)"
  proof (rule c_loop_Next)
    have "c \<noteq> 0" "towupper E c \<noteq> 60" using Cons.prems(2) by simp_all
    then show "html_raw_text_step E d (0, l) = Some (Next (0, ?l))"
      unfolding html_raw_text_step_def assms(3) prod.case c by simp
  qed
  have l: "rest (raw ?l) = b @ zs" "token_end (raw ?l) = pos (raw ?l)" "pos (raw ?l) = Suc (pos (raw l))"
    using Cons.prems(1) ne by simp_all
  have b: "\<forall>c\<in>set b. c \<noteq> 0 \<and> towupper E c \<noteq> ch CHR ''<''" using Cons.prems(2) by simp
  from Cons.IH [OF l(1) b l(2)] obtain l' where
    "c_loop (html_raw_text_step E d) (0, ?l) = c_loop (html_raw_text_step E d) (0, l')" "rest (raw l') = zs"
    "token_end (raw l') = pos (raw ?l) + length b" "pos (raw l') = pos (raw ?l) + length b" by blast
  with step l(3) show ?case by (intro exI [of _ l']) simp
qed

text \<open>At an end tag the loop stops and the text ends in front of it.\<close>

lemma html_raw_text_delimiter:
  assumes "i < length d" and "rest (raw l) = drop i xs @ zs" and "map (towupper E) xs = map of_char d" and "0 \<notin> set xs"
  shows "\<exists>l'. c_loop (html_raw_text_step E d) (i, l) = Some l' \<and> token_end (raw l') = token_end (raw l)"
  using assms(1,2)
proof (induction "length d - i" arbitrary: i l)
  case 0
  then show ?case by simp
next
  case (Suc k)
  have len: "length xs = length d" using assms(3) by (metis length_map)
  with Suc.prems have l: "rest (raw l) = xs ! i # drop (Suc i) xs @ zs" by (simp add: Cons_nth_drop_Suc)
  then have la: "lookahead E l = xs ! i" by simp
  have nz: "xs ! i \<noteq> 0" using assms(4) Suc.prems(1) len by (metis nth_mem)
  have up: "towupper E (xs ! i) = ch (d ! i)"
    using assms(3) Suc.prems(1) len by (metis nth_map)
  show ?case
  proof (cases "i + 1 = length d")
    case True
    with la nz up have "c_loop (html_raw_text_step E d) (i, l) = Some l"
      by (intro c_loop_Return) (simp add: html_raw_text_step_def)
    then show ?thesis by simp
  next
    case False
    with la nz up have "c_loop (html_raw_text_step E d) (i, l) = c_loop (html_raw_text_step E d) (i + 1, advance E l)"
      by (intro c_loop_Next) (simp add: html_raw_text_step_def)
    moreover have "rest (raw (advance E l)) = drop (Suc i) xs @ zs" using l by simp
    ultimately show ?thesis using Suc.hyps(1) [of "Suc i" "advance E l"] Suc.hyps(2) Suc.prems(1) False by auto
  qed
qed

lemma html_raw_text_end:
  assumes "tags s \<noteq> []" and "type (last (tags s)) = TAG_SCRIPT" and "rest (raw l) = b @ xs @ zs"
    and "\<forall>c\<in>set b. c \<noteq> 0 \<and> towupper E c \<noteq> ch CHR ''<''"
    and "map (towupper E) xs = map of_char ''</SCRIPT''" and "0 \<notin> set xs"
  shows "\<exists>l'. html_scan_raw_text E s l = Some (True, l') \<and> result_symbol l' = RAW_TEXT
     \<and> token_end (raw l') = pos (raw l) + length b"
proof -
  from html_raw_text_plain [of "mark_end E l" b "xs @ zs" "''</SCRIPT''" "''/SCRIPT''"] assms(3,4)
  obtain l1 where "c_loop (html_raw_text_step E ''</SCRIPT'') (0, mark_end E l) = c_loop (html_raw_text_step E ''</SCRIPT'') (0, l1)"
      and l1: "rest (raw l1) = xs @ zs" "token_end (raw l1) = pos (raw l) + length b" by auto
  moreover from html_raw_text_delimiter [of 0 "''</SCRIPT''" l1 xs zs] l1(1) assms(5,6)
  obtain l2 where "c_loop (html_raw_text_step E ''</SCRIPT'') (0, l1) = Some l2" "token_end (raw l2) = token_end (raw l1)"
    by auto
  ultimately show ?thesis using assms(1,2) by (simp add: html_scan_raw_text_def Let_def)
qed

text \<open>Two opening brackets: the second one is not taken for the start of the end tag.\<close>

lemma html_raw_text_double:
  assumes "tags s \<noteq> []" and "rest (raw l) = 60 # 60 # ys" and "\<forall>c\<in>set ys. c \<noteq> 0 \<and> towupper E c \<noteq> ch CHR ''<''"
  shows "\<exists>l'. html_scan_raw_text E s l = Some (True, l') \<and> result_symbol l' = RAW_TEXT
     \<and> token_end (raw l') = pos (raw l) + 2 + length ys"
proof -
  obtain d' where d: "(if type (last (tags s)) = TAG_SCRIPT then ''</SCRIPT'' else ''</STYLE'') = CHR ''<'' # CHR ''/'' # d'"
    by (cases "type (last (tags s)) = TAG_SCRIPT") auto
  let ?d = "CHR ''<'' # CHR ''/'' # d'"
  let ?l1 = "advance E (mark_end E l)" and ?l2 = "mark_end E (advance E (advance E (mark_end E l)))"
  have up: "towupper E 60 = 60" by (simp add: towupper_def)
  have "rest (raw ?l2) = ys @ []" "token_end (raw ?l2) = pos (raw ?l2)" and pos: "pos (raw ?l2) = pos (raw l) + 2"
    using assms(2) by simp_all
  from html_raw_text_plain [OF this(1) assms(3) refl this(2), of "CHR ''/'' # d'"]
  obtain l3 where l3: "c_loop (html_raw_text_step E ?d) (0, ?l2) = c_loop (html_raw_text_step E ?d) (0, l3)"
      "rest (raw l3) = []" "token_end (raw l3) = pos (raw l) + 2 + length ys" unfolding pos by blast
  have "c_loop (html_raw_text_step E ?d) (0, mark_end E l) = c_loop (html_raw_text_step E ?d) (1, ?l1)"
    by (rule c_loop_Next) (use assms(2) up in \<open>simp add: html_raw_text_step_def lookahead_view\<close>)
  also have "\<dots> = c_loop (html_raw_text_step E ?d) (0, ?l2)"
    by (rule c_loop_Next) (use assms(2) up in \<open>simp add: html_raw_text_step_def lookahead_view\<close>)
  also have "\<dots> = c_loop (html_raw_text_step E ?d) (0, l3)" by (rule l3(1))
  also have "c_loop (html_raw_text_step E ?d) (0, l3) = Some l3"
    by (rule c_loop_Return) (use l3(2) in \<open>simp add: html_raw_text_step_def\<close>)
  finally show ?thesis using assms(1) l3(3) by (simp add: html_scan_raw_text_def Let_def d)
qed

end

section \<open>Properties\<close>

text \<open>C5. The HTML scan returns on every input and never pops an empty stack. It keeps every tag well
  formed, and a token it reports says what happened to the stack of open tags: a start
  tag was pushed (with the right type for script and style), an end tag, an implicit end
  tag or a self-closing delimiter popped one, other tokens left the stack alone; a scan
  that fails leaves the scanner unchanged. One case names no token: a self-closing
  delimiter with no open tag.\<close>

theorem html_scan_stack:
  assumes "ts_lexer E rest" and "html_wf s"
  shows "\<exists>b s' l'. html_scan E v s l = Some (b, s', l') \<and> html_wf s' \<and>
     (if b then html_effect (result_symbol l') (tags s) (tags s')
         \<or> tags s = [] \<and> s' = s \<and> v SELF_CLOSING_TAG_DELIMITER \<and> result_symbol l' = result_symbol l
      else s' = s)"
  using ts_lexer.runs_html_scan [OF assms] by (rule runs_tripleD)

theorem html_scan_stack_witness:
  "\<exists>b s' l'. html_scan list_env (\<lambda>t. t = START_TAG_NAME) html_create (lex_string COMMENT ''div'') = Some (b, s', l')
     \<and> html_wf s' \<and>
     (if b then html_effect (result_symbol l') (tags html_create) (tags s')
         \<or> tags html_create = [] \<and> s' = html_create \<and> SELF_CLOSING_TAG_DELIMITER = START_TAG_NAME
           \<and> result_symbol l' = result_symbol (lex_string COMMENT ''div'' :: (list_lexer, html_token) TSLexer)
      else s' = html_create)"
  by (rule html_scan_stack [OF ts_lexer_list_env]) (simp add: html_wf_def html_create_def)

text \<open>C22. Saving an HTML scanner writes less than 1024 bytes and restoring it gives back the same
  number of open tags (at most 65535): those that fitted in the buffer as they were, with
  names cut at 255 bytes and at a NUL byte, and for the others a placeholder. When all
  tags fit and their names are short and without NUL, exactly the saved state comes back.\<close>

theorem html_serialize_roundtrip:
  assumes "html_wf s"
  shows "length (html_serialize s) < TREE_SITTER_SERIALIZATION_BUFFER_SIZE
     \<and> html_deserialize t (html_serialize s) =
         Some \<lparr>tags = map html_stored_tag (take (html_saved_count s) (tags s))
               @ replicate (min 65535 (length (tags s)) - html_saved_count s) tag_new\<rparr>
     \<and> (html_saves s \<longrightarrow> html_deserialize t (html_serialize s) = Some s)"
  using html_restore [OF assms, of t] html_saves_restore [of s t]
  by (auto simp: TREE_SITTER_SERIALIZATION_BUFFER_SIZE_def)

theorem html_serialize_roundtrip_witness:
  "html_deserialize html_create
     (html_serialize \<lparr>tags = [tag_for_name (map of_char ''DIV''), tag_for_name (map of_char ''X-Y'')]\<rparr>)
   = Some \<lparr>tags = [\<lparr>type = TAG_DIV, custom_tag_name = []\<rparr>, \<lparr>type = TAG_CUSTOM, custom_tag_name = map of_char ''X-Y''\<rparr>]\<rparr>"
proof -
  have t: "tag_for_name (map of_char ''DIV'') = \<lparr>type = TAG_DIV, custom_tag_name = []\<rparr>"
    "tag_for_name (map of_char ''X-Y'') = \<lparr>type = TAG_CUSTOM, custom_tag_name = map of_char ''X-Y''\<rparr>"
    by code_simp+
  let ?s = "\<lparr>tags = [\<lparr>type = TAG_DIV, custom_tag_name = []\<rparr>, \<lparr>type = TAG_CUSTOM, custom_tag_name = map of_char ''X-Y''\<rparr>]\<rparr>"
  have wf: "html_wf ?s" by (simp add: html_wf_def html_wf_tag_def)
  have "html_saves ?s"
    unfolding html_saves_def using wf by (simp add: html_serialize_tag_def TREE_SITTER_SERIALIZATION_BUFFER_SIZE_def)
  with html_serialize_roundtrip [OF wf, of html_create] show ?thesis unfolding t by blast
qed

text \<open>After \<open><!--\<close>, an HTML comment is reported exactly when \<open>-->\<close> occurs in the rest of the
  input, and it ends at the first occurrence.\<close>

lemma html_comment_end:
  assumes "ts_lexer E rest" and "rest (raw l) = 45 # 45 # xs" and "0 \<notin> set xs" and "length xs < 2 ^ 32"
  shows "\<exists>b l'. html_scan_comment E l = Some (b, l') \<and>
     (if b then \<exists>p. xs = p @ rest (raw l') \<and> suffix [45, 45, 62] p
         \<and> (\<forall>q. strict_prefix q p \<longrightarrow> \<not> suffix [45, 45, 62] q)
      else \<forall>q. prefix q xs \<longrightarrow> \<not> suffix [45, 45, 62] q)"
proof -
  let ?l = "advance E (advance E l)"
  have l: "rest (raw ?l) = xs" and "lookahead E l = 45" "lookahead E (advance E l) = 45"
    using assms(2) by (simp_all add: ts_lexer.rest_ops [OF assms(1)] ts_lexer.lookahead_view [OF assms(1)])
  then have "html_scan_comment E l = c_loop (html_comment_step E) (0, ?l)"
    by (simp add: html_scan_comment_def)
  moreover from assms(3,4) have "0 \<notin> set (rest (raw ?l))" "length (rest (raw ?l)) < 2 ^ 32" unfolding l .
  note runs_pairD [OF ts_lexer.runs_html_comment_loop [OF assms(1) this]]
  ultimately show ?thesis unfolding l by (simp only:)
qed

text \<open>The raw text of a script element ends in front of the first end tag if nothing before it can
  be taken for the start of one (a character with \<open><\<close> as its upper-case form); but an end
  tag directly after another \<open><\<close> is not seen, and the text goes on to the end of the input.\<close>

lemma html_raw_text_ends_at_tag:
  assumes "ts_lexer_marks E rest pos token_end" and "tags s \<noteq> []" and "type (last (tags s)) = TAG_SCRIPT"
    and "\<forall>c\<in>set b. c \<noteq> 0 \<and> towupper E c \<noteq> ch CHR ''<''"
    and "map (towupper E) xs = map of_char ''</SCRIPT''" and "0 \<notin> set xs"
    and "\<forall>c\<in>set zs. c \<noteq> 0 \<and> towupper E c \<noteq> ch CHR ''<''"
  shows "(rest (raw l) = b @ xs @ zs \<longrightarrow>
       (\<exists>l'. html_scan_raw_text E s l = Some (True, l') \<and> result_symbol l' = RAW_TEXT
          \<and> token_end (raw l') = pos (raw l) + length b))
   \<and> (rest (raw l2) = 60 # 60 # zs \<longrightarrow>
       (\<exists>l'. html_scan_raw_text E s l2 = Some (True, l') \<and> result_symbol l' = RAW_TEXT
          \<and> token_end (raw l') = pos (raw l2) + 2 + length zs))"
  using ts_lexer_marks.html_raw_text_end [OF assms(1-3) _ assms(4-6)]
    ts_lexer_marks.html_raw_text_double [OF assms(1,2) _ assms(7)] by blast

end
