(* ===== verification/Xml_Scanner.thy ===== *)
theory Xml_Scanner
  imports TS_Serialize
begin

text \<open>
  The XML scanner, \<^verbatim>\<open>xml/xml/src/scanner.c\<close> with \<^verbatim>\<open>xml/common/scanner.h\<close>: tag
  names, processing instructions, comments, character data and CDATA sections. Its state
  is the stack of the names of the open elements, the top of the stack last.

  \<^verbatim>\<open>serialize\<close> frees the names it has copied (\<^verbatim>\<open>array_delete\<close> leaves an empty
  name), so it returns the bytes and the changed scanner. Popping an empty stack is the
  outcome \<open>None\<close>.

  Shown here: the scan always returns, never pops an empty stack and changes the stack as
  the reported token says; what a saved scanner is restored to, and that saving it twice
  loses the names; where a CDATA section ends, and ends that are missed.
\<close>

datatype xml_token =
    PI_TARGET
  | PI_CONTENT
  | COMMENT
  | CHAR_DATA
  | CDATA
  | XML_MODEL
  | XML_STYLESHEET
  | START_TAG_NAME
  | END_TAG_NAME
  | ERRONEOUS_END_NAME
  | SELF_CLOSING_TAG_DELIMITER

type_synonym 'l xml_lexer = "('l, xml_token) TSLexer"

record xml_scanner =
  tags :: "byte list list"

section \<open>Common functions\<close>

text \<open>\<^verbatim>\<open>advance_if_eq\<close>: advance over the character, or make the enclosing function return false.\<close>

definition xml_advance_if_eq :: "'l env \<Rightarrow> int \<Rightarrow> 'l xml_lexer \<Rightarrow> ('l xml_lexer, bool \<times> 'l xml_lexer) flow option" where
  "xml_advance_if_eq E chr l =
     (if \<not> eof E l \<and> lookahead E l = chr then Some (Next (advance E l)) else Some (Return (False, l)))"

text \<open>
  The parameter of the two tests has the type \<^verbatim>\<open>wchar_t\<close>, taken to be 32 bits wide as on Linux and
  macOS, so that every code point passes unchanged (where it has 16 bits, as on Windows, a code
  point above 65535 would be cut).
\<close>

definition xml_is_valid_name_char :: "'l env \<Rightarrow> int \<Rightarrow> bool" where
  "xml_is_valid_name_char E chr \<longleftrightarrow>
     iswalnum E chr \<or> chr = ch CHR ''_'' \<or> chr = ch CHR '':'' \<or> chr = ch CHR ''.'' \<or> chr = ch CHR ''-'' \<or> chr = 0xB7"

definition xml_is_valid_name_start_char :: "'l env \<Rightarrow> int \<Rightarrow> bool" where
  "xml_is_valid_name_start_char E chr \<longleftrightarrow> iswalpha E chr \<or> chr = ch CHR ''_'' \<or> chr = ch CHR '':''"

fun xml_check_word :: "'l env \<Rightarrow> string \<Rightarrow> 'l xml_lexer \<Rightarrow> (bool \<times> 'l xml_lexer) option" where
  "xml_check_word E [] l = Some (True, l)"
| "xml_check_word E (c # cs) l = then_return (xml_advance_if_eq E (ch c) l) (xml_check_word E cs)"

text \<open>The words after \<open>xml-\<close> that belong to other tokens.\<close>

definition xml_check_reserved :: "'l env \<Rightarrow> bool \<Rightarrow> string \<Rightarrow> 'l xml_lexer \<Rightarrow>
    ('l xml_lexer, bool \<times> 'l xml_lexer) flow option" where
  "xml_check_reserved E valid w l =
     (if valid then do { (b, l) \<leftarrow> xml_check_word E w l; Some (if b then Return (False, l) else Next l) }
      else Some (Next l))"

definition xml_pi_target_step :: "'l env \<Rightarrow> (xml_token \<Rightarrow> bool) \<Rightarrow> bool \<times> 'l xml_lexer \<Rightarrow>
    (bool \<times> 'l xml_lexer, bool \<times> 'l xml_lexer) flow option" where
  "xml_pi_target_step E valid_symbols = (\<lambda>(found_x_first, l).
     if \<not> xml_is_valid_name_char E (lookahead E l)
     then Some (Return (True, set_symbol PI_TARGET (mark_end E l)))
     else
       and_then
         (if found_x_first \<and> (lookahead E l = ch CHR ''m'' \<or> lookahead E l = ch CHR ''M'') then
            let l = advance E l in
            if lookahead E l = ch CHR ''l'' \<or> lookahead E l = ch CHR ''L'' then
              let l = advance E l in
              if xml_is_valid_name_char E (lookahead E l) then
                let last_char_hyphen = (lookahead E l = ch CHR ''-''); l = advance E l in
                if last_char_hyphen then
                  and_then (xml_check_reserved E (valid_symbols XML_MODEL) ''model'' l)
                    (xml_check_reserved E (valid_symbols XML_STYLESHEET) ''stylesheet'')
                else Some (Next l)
              else Some (Return (False, l))
            else Some (Next l)
          else Some (Next l))
         (\<lambda>l. Some (Next (False, advance E l))))"

definition xml_scan_pi_target :: "'l env \<Rightarrow> (xml_token \<Rightarrow> bool) \<Rightarrow> 'l xml_lexer \<Rightarrow> (bool \<times> 'l xml_lexer) option" where
  "xml_scan_pi_target E valid_symbols l =
     (if xml_is_valid_name_start_char E (lookahead E l) then
        let found_x_first = (lookahead E l = ch CHR ''x'' \<or> lookahead E l = ch CHR ''X'');
            l = (if found_x_first then mark_end E l else l)
        in c_loop (xml_pi_target_step E valid_symbols) (found_x_first, advance E l)
      else Some (False, l))"

definition xml_scan_pi_content :: "'l env \<Rightarrow> 'l xml_lexer \<Rightarrow> (bool \<times> 'l xml_lexer) option" where
  "xml_scan_pi_content E l =
     do { l \<leftarrow> while_option (\<lambda>l. \<not> eof E l \<and> lookahead E l \<noteq> ch CHR 0x0A \<and> lookahead E l \<noteq> ch CHR ''?'') (advance E) l;
          if lookahead E l \<noteq> ch CHR ''?'' then Some (False, l)
          else
            let l = advance E (mark_end E l) in
            if lookahead E l = ch CHR ''>'' then
              do { l \<leftarrow> advance_while E (\<lambda>c. c = ch CHR '' '') (advance E l);
                   then_return (xml_advance_if_eq E (ch CHR 0x0A) l) (\<lambda>l. Some (True, set_symbol PI_CONTENT l)) }
            else Some (False, l) }"

definition xml_comment_body :: "'l env \<Rightarrow> 'l xml_lexer \<Rightarrow> 'l xml_lexer option" where
  "xml_comment_body E l =
     c_loop (\<lambda>l.
       if eof E l then Some (Return l)
       else if lookahead E l = ch CHR ''-'' then
         let l = advance E l in
         if lookahead E l = ch CHR ''-'' then Some (Return (advance E l)) else Some (Next l)
       else Some (Next (advance E l))) l"

definition xml_scan_comment :: "'l env \<Rightarrow> 'l xml_lexer \<Rightarrow> (bool \<times> 'l xml_lexer) option" where
  "xml_scan_comment E l =
     then_return (and_then (xml_advance_if_eq E (ch CHR ''-'') l) (xml_advance_if_eq E (ch CHR ''-'')))
       (\<lambda>l. do { l \<leftarrow> xml_comment_body E l;
                 if lookahead E l = ch CHR ''>''
                 then Some (True, set_symbol COMMENT (mark_end E (advance E l)))
                 else Some (False, l) })"

section \<open>The scanner\<close>

definition xml_scan_tag_name :: "'l env \<Rightarrow> 'l xml_lexer \<Rightarrow> (byte list \<times> 'l xml_lexer) option" where
  "xml_scan_tag_name E l =
     (let (tag_name, l) = (if xml_is_valid_name_start_char E (lookahead E l)
                           then ([word_of_int (lookahead E l)], advance E l) else ([], l)) in
      c_loop (\<lambda>(tag_name, l).
        if xml_is_valid_name_char E (lookahead E l)
        then Some (Next (tag_name @ [word_of_int (lookahead E l)], advance E l))
        else Some (Return (tag_name, l))) (tag_name, l))"

definition xml_scan_start_tag_name ::
  "'l env \<Rightarrow> xml_scanner \<Rightarrow> 'l xml_lexer \<Rightarrow> (bool \<times> xml_scanner \<times> 'l xml_lexer) option" where
  "xml_scan_start_tag_name E s l =
     do { (tag_name, l) \<leftarrow> xml_scan_tag_name E l;
          if tag_name = [] then Some (False, s, l)
          else Some (True, s\<lparr>tags := tags s @ [tag_name]\<rparr>, set_symbol START_TAG_NAME l) }"

definition xml_pop_tag :: "xml_scanner \<Rightarrow> xml_scanner option" where
  "xml_pop_tag s = (if tags s = [] then None else Some (s\<lparr>tags := butlast (tags s)\<rparr>))"

definition xml_scan_end_tag_name ::
  "'l env \<Rightarrow> xml_scanner \<Rightarrow> 'l xml_lexer \<Rightarrow> (bool \<times> xml_scanner \<times> 'l xml_lexer) option" where
  "xml_scan_end_tag_name E s l =
     do { (tag_name, l) \<leftarrow> xml_scan_tag_name E l;
          if tag_name = [] then Some (False, s, l)
          else
            do { (s, l) \<leftarrow> (if tags s \<noteq> [] \<and> last (tags s) = tag_name
                           then do { s \<leftarrow> xml_pop_tag s; Some (s, set_symbol END_TAG_NAME l) }
                           else Some (s, set_symbol ERRONEOUS_END_NAME l));
                 Some (result_symbol l = END_TAG_NAME, s, l) } }"

definition xml_scan_self_closing_tag_delimiter ::
  "'l env \<Rightarrow> xml_scanner \<Rightarrow> 'l xml_lexer \<Rightarrow> (bool \<times> xml_scanner \<times> 'l xml_lexer) option" where
  "xml_scan_self_closing_tag_delimiter E s l =
     then_return (map_option (\<lambda>x. case x of Next l \<Rightarrow> Next l | Return (b, l) \<Rightarrow> Return (b, s, l))
                    (xml_advance_if_eq E (ch CHR ''>'') (advance E l)))
       (\<lambda>l. if tags s \<noteq> []
            then do { s \<leftarrow> xml_pop_tag s; Some (True, s, set_symbol SELF_CLOSING_TAG_DELIMITER l) }
            else Some (True, s, l))"

definition xml_in_error_recovery :: "(xml_token \<Rightarrow> bool) \<Rightarrow> bool" where
  "xml_in_error_recovery valid_symbols \<longleftrightarrow>
     valid_symbols PI_TARGET \<and> valid_symbols PI_CONTENT \<and> valid_symbols COMMENT
     \<and> valid_symbols CHAR_DATA \<and> valid_symbols CDATA"

definition xml_in_char_data :: "'l env \<Rightarrow> 'l xml_lexer \<Rightarrow> bool" where
  "xml_in_char_data E l \<longleftrightarrow> \<not> eof E l \<and> lookahead E l \<noteq> ch CHR ''<'' \<and> lookahead E l \<noteq> ch CHR ''&''"

definition xml_char_data_step :: "'l env \<Rightarrow> bool \<times> 'l xml_lexer \<Rightarrow>
    (bool \<times> 'l xml_lexer, bool \<times> 'l xml_lexer) flow option" where
  "xml_char_data_step E = (\<lambda>(advanced_once, l).
     if \<not> xml_in_char_data E l then
       if advanced_once then Some (Return (True, set_symbol CHAR_DATA (mark_end E l)))
       else Some (Return (False, l))
     else
       and_then
         (if lookahead E l = ch CHR '']'' then
            let l = advance E (mark_end E l) in
            if lookahead E l = ch CHR '']'' then
              let l = advance E l in
              if lookahead E l = ch CHR ''>'' then
                let l = advance E l in
                if advanced_once then Some (Return (False, set_symbol CHAR_DATA l)) else Some (Next l)
              else Some (Next l)
            else Some (Next l)
          else Some (Next l))
         (\<lambda>l. Some (Next (True, if xml_in_char_data E l then advance E l else l))))"

definition xml_scan_char_data :: "'l env \<Rightarrow> 'l xml_lexer \<Rightarrow> (bool \<times> 'l xml_lexer) option" where
  "xml_scan_char_data E l = c_loop (xml_char_data_step E) (False, l)"

definition xml_cdata_step :: "'l env \<Rightarrow> bool \<times> 'l xml_lexer \<Rightarrow>
    (bool \<times> 'l xml_lexer, bool \<times> 'l xml_lexer) flow option" where
  "xml_cdata_step E = (\<lambda>(advanced_once, l).
     if eof E l then Some (Return (False, l))
     else
       and_then
         (if lookahead E l = ch CHR '']'' then
            let l = advance E (mark_end E l) in
            if lookahead E l = ch CHR '']'' then
              let l = advance E l in
              if lookahead E l = ch CHR ''>'' \<and> advanced_once
              then Some (Return (True, set_symbol CDATA l))
              else Some (Next l)
            else Some (Next l)
          else Some (Next l))
         (\<lambda>l. Some (Next (True, advance E l))))"

definition xml_scan_cdata :: "'l env \<Rightarrow> 'l xml_lexer \<Rightarrow> (bool \<times> 'l xml_lexer) option" where
  "xml_scan_cdata E l = c_loop (xml_cdata_step E) (False, l)"

definition xml_scan_switch :: "'l env \<Rightarrow> (xml_token \<Rightarrow> bool) \<Rightarrow> xml_scanner \<Rightarrow> 'l xml_lexer \<Rightarrow>
    (bool \<times> xml_scanner \<times> 'l xml_lexer) option" where
  "xml_scan_switch E valid_symbols s l =
     (if lookahead E l = ch CHR ''<'' then
        let l = advance E (mark_end E l) in
        if lookahead E l = ch CHR ''!''
        then do { (b, l) \<leftarrow> xml_scan_comment E (advance E l); Some (b, s, l) }
        else Some (False, s, l)
      else if lookahead E l = ch CHR ''/'' then
        if valid_symbols SELF_CLOSING_TAG_DELIMITER then xml_scan_self_closing_tag_delimiter E s l
        else Some (False, s, l)
      else if lookahead E l = 0 then Some (False, s, l)
      else if valid_symbols START_TAG_NAME then xml_scan_start_tag_name E s l
      else if valid_symbols END_TAG_NAME then xml_scan_end_tag_name E s l
      else Some (False, s, l))"

definition xml_scan :: "'l env \<Rightarrow> (xml_token \<Rightarrow> bool) \<Rightarrow> xml_scanner \<Rightarrow> 'l xml_lexer \<Rightarrow>
    (bool \<times> xml_scanner \<times> 'l xml_lexer) option" where
  "xml_scan E valid_symbols s l =
     (if xml_in_error_recovery valid_symbols then Some (False, s, l)
      else if valid_symbols PI_TARGET
      then do { (b, l) \<leftarrow> xml_scan_pi_target E valid_symbols l; Some (b, s, l) }
      else if valid_symbols PI_CONTENT
      then do { (b, l) \<leftarrow> xml_scan_pi_content E l; Some (b, s, l) }
      else
        do { (b, l) \<leftarrow> (if valid_symbols CHAR_DATA then xml_scan_char_data E l else Some (False, l));
             if b then Some (True, s, l)
             else
               do { (b, l) \<leftarrow> (if valid_symbols CDATA then xml_scan_cdata E l else Some (False, l));
                    if b then Some (True, s, l)
                    else xml_scan_switch E valid_symbols s l } })"

definition xml_create :: xml_scanner where
  "xml_create = \<lparr>tags = []\<rparr>"

definition xml_serialize_tag :: "byte list \<Rightarrow> byte list" where
  "xml_serialize_tag tag = (let name_length = min 255 (length tag) in of_nat name_length # take name_length tag)"

text \<open>The loop over the tags: the bytes, and the tags as the loop leaves them.\<close>

fun xml_serialize_tags :: "nat \<Rightarrow> byte list list \<Rightarrow> byte list \<times> nat" where
  "xml_serialize_tags sz [] = ([], 0)"
| "xml_serialize_tags sz (tag # ts) =
     (if sz + 2 + min 255 (length tag) \<ge> TREE_SITTER_SERIALIZATION_BUFFER_SIZE then ([], 0)
      else (case xml_serialize_tags (sz + length (xml_serialize_tag tag)) ts of
              (bs, n) \<Rightarrow> (xml_serialize_tag tag @ bs, Suc n)))"

definition xml_serialize :: "xml_scanner \<Rightarrow> byte list \<times> xml_scanner" where
  "xml_serialize s =
     (let tag_count = min 65535 (length (tags s)) in
      case xml_serialize_tags 8 (take tag_count (tags s)) of
        (bs, serialized_tag_count) \<Rightarrow>
          (le32 (of_nat serialized_tag_count) @ le32 (of_nat tag_count) @ bs,
           s\<lparr>tags := replicate serialized_tag_count [] @ drop serialized_tag_count (tags s)\<rparr>))"

definition xml_get_tag :: "byte list \<Rightarrow> (byte list \<times> byte list) option" where
  "xml_get_tag buffer = do { (n, buffer) \<leftarrow> get8 buffer; get_bytes (unat n) buffer }"

definition xml_deserialize :: "xml_scanner \<Rightarrow> byte list \<Rightarrow> xml_scanner option" where
  "xml_deserialize s buffer =
     (let s = s\<lparr>tags := []\<rparr> in
      if buffer = [] then Some s
      else
        do { (serialized_tag_count, buffer) \<leftarrow> get32 buffer;
             (tag_count, buffer) \<leftarrow> get32 buffer;
             if tag_count = 0 then Some s
             else
               do { (ts, buffer) \<leftarrow> get_many xml_get_tag (unat serialized_tag_count) buffer;
                    Some (s\<lparr>tags := ts @ replicate (unat tag_count - unat serialized_tag_count) []\<rparr>) } })"

section \<open>The stack of open elements\<close>

definition xml_effect :: "xml_token \<Rightarrow> byte list list \<Rightarrow> byte list list \<Rightarrow> bool" where
  "xml_effect t ts ts' =
     (case t of
        START_TAG_NAME \<Rightarrow> \<exists>n. n \<noteq> [] \<and> ts' = ts @ [n]
      | END_TAG_NAME \<Rightarrow> \<exists>n. n \<noteq> [] \<and> ts = ts' @ [n]
      | SELF_CLOSING_TAG_DELIMITER \<Rightarrow> \<exists>n. ts = ts' @ [n]
      | ERRONEOUS_END_NAME \<Rightarrow> False
      | _ \<Rightarrow> ts' = ts)"

lemma xml_pop_tag_runs [wp]:
  "tags s \<noteq> [] \<Longrightarrow> runs (xml_pop_tag s) Q \<longleftrightarrow> Q (s\<lparr>tags := butlast (tags s)\<rparr>)"
  by (simp add: xml_pop_tag_def)

lemma xml_butlast: "ts \<noteq> [] \<Longrightarrow> ts = butlast ts @ [last ts]"
  by simp

lemma xml_name_0 [simp]: "\<not> xml_is_valid_name_char E 0" "\<not> xml_is_valid_name_start_char E 0"
  by (simp_all add: xml_is_valid_name_char_def xml_is_valid_name_start_char_def)

definition xml_post :: "xml_scanner \<Rightarrow> bool \<times> xml_scanner \<times> ('l, xml_token) TSLexer \<Rightarrow> bool" where
  "xml_post s r \<longleftrightarrow> (case r of (b, s', l') \<Rightarrow>
     if b then xml_effect (result_symbol l') (tags s) (tags s') else s' = s)"

text \<open>The self-closing delimiter with no open element is the case that names no token.\<close>

definition xml_ok :: "(xml_token \<Rightarrow> bool) \<Rightarrow> xml_scanner \<Rightarrow> bool \<times> xml_scanner \<times> ('l, xml_token) TSLexer \<Rightarrow> bool" where
  "xml_ok v s r \<longleftrightarrow> (case r of (b, s', l') \<Rightarrow>
     if b then xml_effect (result_symbol l') (tags s) (tags s')
         \<or> tags s = [] \<and> s' = s \<and> v SELF_CLOSING_TAG_DELIMITER
     else s' = s)"

lemma xml_post_simps [simp]:
  "xml_post s (False, s', l) \<longleftrightarrow> s' = s"
  "xml_post s (True, s', l) \<longleftrightarrow> xml_effect (result_symbol l) (tags s) (tags s')"
  by (simp_all add: xml_post_def)

context ts_lexer
begin

lemma xml_name_char_pos: "xml_is_valid_name_char E (lookahead E l) \<Longrightarrow> 0 < remaining l"
  by (rule remaining_pos) (metis xml_name_0(1))

lemma xml_name_char_less [simp]:
  "xml_is_valid_name_char E (lookahead E l) \<Longrightarrow> remaining l - Suc 0 < remaining l"
  by (drule xml_name_char_pos) linarith

lemma runs_xml_check_word:
  "runs (xml_check_word E w l) (\<lambda>(b, l'). remaining l' \<le> remaining l \<and> result_symbol l' = result_symbol l)"
proof (induction w arbitrary: l)
  case (Cons c w)
  show ?case
    by (auto simp: xml_advance_if_eq_def intro!: runs_weaken [OF Cons.IH])
qed simp

lemma runs_xml_check_reserved:
  "runs (xml_check_reserved E b w l)
     (case_flow (\<lambda>l'. remaining l' \<le> remaining l) (\<lambda>(b, l'). \<not> b))"
  by (auto simp: xml_check_reserved_def intro!: runs_weaken [OF runs_xml_check_word])

lemma runs_xml_scan_pi_target:
  "runs (xml_scan_pi_target E v l) (\<lambda>(b, l'). b \<longrightarrow> result_symbol l' = PI_TARGET)"
proof -
  have "runs (c_loop (xml_pi_target_step E v) (f, l)) (\<lambda>(b, l'). b \<longrightarrow> result_symbol l' = PI_TARGET)" for f l
  proof (rule runs_c_loop [where m = "\<lambda>(f, l'). remaining l'" and I = "\<lambda>_. True"], goal_cases)
    case (2 x)
    obtain g l1 where x: "x = (g, l1)" by (cases x)
    show ?case
    proof (cases "xml_is_valid_name_char E (lookahead E l1)")
      case True
      then have pos: "0 < remaining l1" by (rule xml_name_char_pos)
      have res: "runs (and_then (xml_check_reserved E a ''model'' l2) (xml_check_reserved E b ''stylesheet''))
          (case_flow (\<lambda>l'. remaining l' \<le> remaining l2) (\<lambda>(b, l'). \<not> b))" for a b l2
        by (rule runs_and_then_inv [where I = "\<lambda>l'. remaining l' \<le> remaining l2"])
          (auto intro!: runs_weaken [OF runs_xml_check_reserved] split: flow.splits)
      from True have nn: "\<not> \<not> xml_is_valid_name_char E (lookahead E l1)" by blast
      show ?thesis
        unfolding x xml_pi_target_step_def prod.case Let_def if_not_P [OF nn]
      proof (rule runs_and_then_inv [where I = "\<lambda>l'. remaining l' \<le> remaining l1"], goal_cases)
        case 1
        show ?case by (auto simp del: runs_and_then intro!: runs_weaken [OF res] split: flow.splits)
      next
        case (2 l2)
        with pos show ?case by (simp add: less_eq_Suc_le)
      qed
    qed (simp add: x xml_pi_target_step_def)
  qed simp
  then show ?thesis by (auto simp: xml_scan_pi_target_def Let_def)
qed

lemma runs_xml_scan_pi_content:
  "runs (xml_scan_pi_content E l) (\<lambda>(b, l'). b \<longrightarrow> result_symbol l' = PI_CONTENT)"
  unfolding xml_scan_pi_content_def runs_bind
  by (rule runs_while_option [where m = remaining and I = "\<lambda>_. True"])
    (auto simp: Let_def xml_advance_if_eq_def intro!: wp_while_le)

lemma runs_xml_scan_comment:
  "runs (xml_scan_comment E l) (\<lambda>(b, l'). b \<longrightarrow> result_symbol l' = COMMENT)"
proof -
  have "runs (xml_comment_body E l) (\<lambda>_. True)" for l
    unfolding xml_comment_body_def
    by (rule runs_c_loop [where m = remaining and I = "\<lambda>_. True"]) (auto simp: Let_def)
  then show ?thesis
    by (auto simp: xml_scan_comment_def xml_advance_if_eq_def elim!: runs_weaken)
qed

lemma runs_xml_scan_char_data:
  "runs (xml_scan_char_data E l) (\<lambda>(b, l'). (b \<longrightarrow> result_symbol l' = CHAR_DATA))"
  unfolding xml_scan_char_data_def
proof (rule runs_c_loop [where m = "\<lambda>(a, l'). remaining l'" and I = "\<lambda>_. True"], goal_cases)
  case (2 x)
  obtain a l1 where x: "x = (a, l1)" by (cases x)
  show ?case
  proof (cases "xml_in_char_data E l1")
    case True
    then have pos: "0 < remaining l1" by (simp add: xml_in_char_data_def)
    from True have nn: "\<not> \<not> xml_in_char_data E l1" by blast
    show ?thesis
      unfolding x xml_char_data_step_def prod.case Let_def if_not_P [OF nn]
    proof (rule runs_and_then_inv [where I = "\<lambda>l'. l' = l1 \<or> remaining l' < remaining l1"], goal_cases)
      case 1
      have "remaining l1 - Suc n < remaining l1" for n using pos by linarith
      then show ?case by simp
    next
      case (2 l2)
      have "remaining l2 - Suc 0 < remaining l1" using 2 pos by auto
      then show ?case using 2 True by auto
    qed
  qed (simp add: x xml_char_data_step_def)
qed simp

lemma runs_xml_scan_cdata:
  "runs (xml_scan_cdata E l) (\<lambda>(b, l'). (b \<longrightarrow> result_symbol l' = CDATA))"
  unfolding xml_scan_cdata_def
  by (rule runs_c_loop [where m = "\<lambda>(a, l'). remaining l'" and I = "\<lambda>_. True"])
    (auto simp: xml_cdata_step_def Let_def)

lemma runs_xml_scan_tag_name: "runs (xml_scan_tag_name E l) (\<lambda>_. True)"
  unfolding xml_scan_tag_name_def Let_def runs_prod
  by (auto split: prod.splits intro!: runs_c_loop [where m = "\<lambda>(n, l'). remaining l'" and I = "\<lambda>_. True"])

lemma runs_xml_scan_start_tag_name: "runs (xml_scan_start_tag_name E s l) (xml_post s)"
  by (auto simp: xml_scan_start_tag_name_def xml_effect_def intro!: runs_weaken [OF runs_xml_scan_tag_name])

lemma runs_xml_scan_end_tag_name: "runs (xml_scan_end_tag_name E s l) (xml_post s)"
  by (auto simp: xml_scan_end_tag_name_def xml_effect_def xml_pop_tag_runs
      intro!: runs_weaken [OF runs_xml_scan_tag_name] exI [of _ "last (tags s)"])

lemma runs_xml_scan_self_closing:
  "runs (xml_scan_self_closing_tag_delimiter E s l) (\<lambda>(b, s', l').
     if b \<and> tags s \<noteq> [] then xml_effect (result_symbol l') (tags s) (tags s')
     else s' = s \<and> (b \<longrightarrow> result_symbol l' = result_symbol l))"
  by (auto simp: xml_scan_self_closing_tag_delimiter_def xml_advance_if_eq_def xml_effect_def xml_pop_tag_runs
      intro!: exI [of _ "last (tags s)"])

lemma runs_xml_scan_switch: "runs (xml_scan_switch E v s l) (xml_ok v s)"
proof (cases "lookahead E l = 47 \<and> v SELF_CLOSING_TAG_DELIMITER")
  case True
  then show ?thesis
    by (auto simp: xml_scan_switch_def xml_ok_def intro!: runs_weaken [OF runs_xml_scan_self_closing] split: if_splits)
next
  case False
  have com: "runs (xml_scan_comment E l) (\<lambda>(b, l'). xml_post s (b, s, l'))" for l
    by (rule runs_weaken [OF runs_xml_scan_comment]) (auto simp: xml_post_def xml_effect_def)
  have "runs (xml_scan_switch E v s l) (xml_post s)"
    using False com [of "advance E (advance E (mark_end E l))"]
    by (auto simp: xml_scan_switch_def Let_def split_def runs_xml_scan_start_tag_name runs_xml_scan_end_tag_name)
  then show ?thesis by (rule runs_weaken) (auto simp: xml_post_def xml_ok_def split: if_splits)
qed

lemma runs_xml_scan: "runs (xml_scan E v s l) (xml_ok v s)"
proof -
  have keep: "xml_ok v s (b, s, l)" if "b \<longrightarrow> result_symbol l \<in> {PI_TARGET, PI_CONTENT, CHAR_DATA, CDATA}"
    for b and l :: "('l, xml_token) TSLexer"
    using that by (auto simp: xml_ok_def xml_effect_def)
  show ?thesis
    by (auto simp: xml_scan_def intro!: keep runs_xml_scan_switch
        runs_weaken [OF runs_xml_scan_pi_target] runs_weaken [OF runs_xml_scan_pi_content]
        runs_weaken [OF runs_xml_scan_char_data] runs_weaken [OF runs_xml_scan_cdata])
qed

end

section \<open>CDATA sections\<close>

context ts_lexer_marks
begin

lemma xml_cdata_plain:
  assumes "rest (raw l) = a @ zs" and "93 \<notin> set a"
  shows "\<exists>l'. c_loop (xml_cdata_step E) (h, l) = c_loop (xml_cdata_step E) (h \<or> a \<noteq> [], l')
     \<and> rest (raw l') = zs \<and> pos (raw l') = pos (raw l) + length a"
  using assms
proof (induction a arbitrary: h l)
  case Nil
  then show ?case by auto
next
  case (Cons c a)
  then have l: "rest (raw (advance E l)) = a @ zs" "93 \<notin> set a" "pos (raw (advance E l)) = Suc (pos (raw l))"
    and c: "lookahead E l = c" "rest (raw l) \<noteq> []" "c \<noteq> 93" by auto
  have "c_loop (xml_cdata_step E) (h, l) = c_loop (xml_cdata_step E) (True, advance E l)"
    by (rule c_loop_Next) (simp add: xml_cdata_step_def c and_then_def)
  moreover from Cons.IH [OF l(1,2), of True] obtain l' where
    "c_loop (xml_cdata_step E) (True, advance E l) = c_loop (xml_cdata_step E) (True, l')"
    "rest (raw l') = zs" "pos (raw l') = pos (raw (advance E l)) + length a" by auto
  ultimately show ?case using l(3) by (intro exI [of _ l']) simp
qed

lemma xml_cdata_none:
  assumes "93 \<notin> set (rest (raw l))"
  shows "\<exists>l'. c_loop (xml_cdata_step E) (h, l) = Some (False, l')"
proof -
  from xml_cdata_plain [of l "rest (raw l)" "[]" h] assms obtain h' l' where
    l': "c_loop (xml_cdata_step E) (h, l) = c_loop (xml_cdata_step E) (h', l')" "rest (raw l') = []" by auto
  then show ?thesis by (auto intro!: c_loop_Return simp: xml_cdata_step_def)
qed

lemma xml_cdata_at_bracket:
  assumes "rest (raw l) = 93 # 93 # c # zs"
  shows "c_loop (xml_cdata_step E) (h, l) =
     (if c = 62 \<and> h then Some (True, set_symbol CDATA (advance E (advance E (mark_end E l))))
      else c_loop (xml_cdata_step E) (True, advance E (advance E (advance E (mark_end E l)))))"
proof -
  have "lookahead E l = 93" "lookahead E (advance E (mark_end E l)) = 93"
      "lookahead E (advance E (advance E (mark_end E l))) = c" "rest (raw l) \<noteq> []"
    using assms by (simp_all add: lookahead_view)
  then have "xml_cdata_step E (h, l) =
     Some (if c = 62 \<and> h then Return (True, set_symbol CDATA (advance E (advance E (mark_end E l))))
      else Next (True, advance E (advance E (advance E (mark_end E l)))))"
    by (simp add: xml_cdata_step_def and_then_def Let_def)
  then show ?thesis by (cases "c = 62 \<and> h") (auto simp: c_loop_Next c_loop_Return)
qed

lemma xml_cdata_closed:
  assumes "a \<noteq> []" and "93 \<notin> set a" and "rest (raw l) = a @ [93, 93, 62] @ zs"
  shows "\<exists>l'. xml_scan_cdata E l = Some (True, l') \<and> result_symbol l' = CDATA
     \<and> token_end (raw l') = pos (raw l) + length a"
proof -
  from xml_cdata_plain [OF assms(3,2), of False] assms(1) obtain l' where
    "c_loop (xml_cdata_step E) (False, l) = c_loop (xml_cdata_step E) (True, l')"
    and l': "rest (raw l') = 93 # 93 # 62 # zs" "pos (raw l') = pos (raw l) + length a" by auto
  with xml_cdata_at_bracket [OF l'(1), of True] show ?thesis by (simp add: xml_scan_cdata_def)
qed

lemma xml_cdata_missed:
  assumes "93 \<notin> set a" and "93 \<notin> set zs"
    and "rest (raw l) = a @ [93, 93, 93, 62] @ zs \<or> rest (raw l) = [93, 93, 62] @ zs"
  shows "\<exists>l'. xml_scan_cdata E l = Some (False, l')"
  using assms(3)
proof
  assume "rest (raw l) = a @ [93, 93, 93, 62] @ zs"
  from xml_cdata_plain [OF this assms(1), of False] obtain h l' where
    eq: "c_loop (xml_cdata_step E) (False, l) = c_loop (xml_cdata_step E) (h, l')"
    and l': "rest (raw l') = 93 # 93 # 93 # 62 # zs" by auto
  let ?l = "advance E (advance E (advance E (mark_end E l')))"
  have "93 \<notin> set (rest (raw ?l))" using l' assms(2) by simp
  from xml_cdata_none [OF this, of True] eq xml_cdata_at_bracket [OF l'(1), of h] show ?thesis
    by (simp add: xml_scan_cdata_def)
next
  assume l: "rest (raw l) = [93, 93, 62] @ zs"
  let ?l = "advance E (advance E (advance E (mark_end E l)))"
  have "93 \<notin> set (rest (raw ?l))" using l assms(2) by simp
  from xml_cdata_none [OF this, of True] xml_cdata_at_bracket [of l 62 zs False] l show ?thesis
    by (simp add: xml_scan_cdata_def)
qed

end

section \<open>Saving and restoring\<close>

lemma xml_get_tag_serialize: "xml_get_tag (xml_serialize_tag t @ xs) = Some (take 255 t, xs)"
proof -
  have "unat (of_nat (min 255 (length t)) :: 8 word) = min 255 (length t)" by (rule unat_of_nat_8) simp
  moreover have "get_bytes (min 255 (length t)) (take 255 t @ xs) = Some (take 255 t, xs)"
    by (rule get_bytes_append') simp
  moreover have "take (min 255 (length t)) t = take 255 t" by (simp add: min_def)
  ultimately show ?thesis by (simp add: xml_get_tag_def xml_serialize_tag_def Let_def)
qed

lemma xml_serialize_tags_spec:
  assumes "xml_serialize_tags sz ts = (bs, n)" and "sz < 1024"
  shows "n \<le> length ts \<and> bs = concat (map xml_serialize_tag (take n ts)) \<and> sz + length bs < 1024
    \<and> (sz + 1 + length (concat (map xml_serialize_tag ts)) < 1024 \<longrightarrow> n = length ts)"
  using assms
proof (induction sz ts arbitrary: bs n rule: xml_serialize_tags.induct)
  case (2 sz t ts)
  have len: "length (xml_serialize_tag t) = Suc (min 255 (length t))" by (simp add: xml_serialize_tag_def Let_def)
  show ?case
  proof (cases "sz + 2 + min 255 (length t) \<ge> 1024")
    case True
    with 2 len show ?thesis by (auto simp: TREE_SITTER_SERIALIZATION_BUFFER_SIZE_def)
  next
    case False
    obtain bs' n' where r: "xml_serialize_tags (sz + length (xml_serialize_tag t)) ts = (bs', n')" by fastforce
    have lt: "sz + length (xml_serialize_tag t) < 1024" using False len by linarith
    have "\<not> 1024 \<le> sz + 2 + min 255 (length t)" using False by simp
    with 2(1) [OF _ r lt] r 2(2) show ?thesis
      by (auto simp: TREE_SITTER_SERIALIZATION_BUFFER_SIZE_def split: prod.splits)
  qed
qed simp

definition xml_saved_count :: "xml_scanner \<Rightarrow> nat" where
  "xml_saved_count s = snd (xml_serialize_tags 8 (take 65535 (tags s)))"

lemma xml_serialize_eq:
  "xml_serialize s =
     (le32 (of_nat (xml_saved_count s)) @ le32 (of_nat (min 65535 (length (tags s))))
        @ concat (map xml_serialize_tag (take (xml_saved_count s) (tags s))),
      s\<lparr>tags := replicate (xml_saved_count s) [] @ drop (xml_saved_count s) (tags s)\<rparr>)
   \<and> xml_saved_count s \<le> min 65535 (length (tags s)) \<and> length (fst (xml_serialize s)) < 1024
   \<and> (9 + length (concat (map xml_serialize_tag (take 65535 (tags s)))) < 1024 \<longrightarrow>
        xml_saved_count s = min 65535 (length (tags s)))"
proof -
  let ?ts = "take 65535 (tags s)"
  have ts: "?ts = take (min 65535 (length (tags s))) (tags s)" by (simp add: min_def)
  obtain bs n where r: "xml_serialize_tags 8 ?ts = (bs, n)" by fastforce
  then have cnt: "xml_saved_count s = n" by (simp add: xml_saved_count_def)
  have "(8 :: nat) < 1024" by simp
  note n = xml_serialize_tags_spec [OF r this, THEN conjunct1]
    xml_serialize_tags_spec [OF r this, THEN conjunct2, THEN conjunct1]
    xml_serialize_tags_spec [OF r this, THEN conjunct2, THEN conjunct2, THEN conjunct1]
    xml_serialize_tags_spec [OF r this, THEN conjunct2, THEN conjunct2, THEN conjunct2]
  have tk: "take n ?ts = take n (tags s)" using n(1) by (auto simp: min_def split: if_splits)
  have eq: "xml_serialize s = (le32 (of_nat n) @ le32 (of_nat (min 65535 (length (tags s)))) @ bs,
      s\<lparr>tags := replicate n [] @ drop n (tags s)\<rparr>)"
    using r by (simp add: xml_serialize_def Let_def ts [symmetric])
  have "n \<le> min 65535 (length (tags s))" using n(1) by simp
  moreover have "length (fst (xml_serialize s)) < 1024" using n(3) by (simp add: eq)
  moreover have "9 + length (concat (map xml_serialize_tag ?ts)) < 1024 \<longrightarrow> n = min 65535 (length (tags s))"
    using n(4) by (simp add: min.commute)
  ultimately show ?thesis using eq n(2) unfolding cnt tk by simp
qed

lemmas xml_serialize_pair = xml_serialize_eq [THEN conjunct1]
  and xml_saved_count_le = xml_serialize_eq [THEN conjunct2, THEN conjunct1]
  and xml_serialize_length = xml_serialize_eq [THEN conjunct2, THEN conjunct2, THEN conjunct1]
  and xml_saved_count_all = xml_serialize_eq [THEN conjunct2, THEN conjunct2, THEN conjunct2]

lemma xml_restore:
  "xml_deserialize t (fst (xml_serialize s)) =
     Some \<lparr>tags = map (take 255) (take (xml_saved_count s) (tags s))
             @ replicate (min 65535 (length (tags s)) - xml_saved_count s) []\<rparr>"
proof -
  let ?n = "xml_saved_count s" and ?c = "min 65535 (length (tags s))"
  note n = xml_saved_count_le [of s]
  have u: "unat (of_nat ?n :: 32 word) = ?n" "unat (of_nat ?c :: 32 word) = ?c"
    using n by (auto intro!: unat_of_nat_32)
  have many: "get_many xml_get_tag (length us) (concat (map xml_serialize_tag us) @ xs) = Some (map (take 255) us, xs)" for us xs
    by (induction us) (simp_all add: xml_get_tag_serialize)
  have ts: "get_many xml_get_tag ?n (concat (map xml_serialize_tag (take ?n (tags s))))
      = Some (map (take 255) (take ?n (tags s)), [])"
    using many [of "take ?n (tags s)" "[]"] n by (simp add: min_absorb2)
  have ser: "fst (xml_serialize s) = le32 (of_nat ?n) @ le32 (of_nat ?c) @ concat (map xml_serialize_tag (take ?n (tags s)))"
    by (subst xml_serialize_pair) simp
  have ne: "le32 w @ xs \<noteq> []" for w xs by (simp add: le32_def)
  show ?thesis
  proof (cases "?c = 0")
    case True
    then show ?thesis using n by (simp add: ser ne xml_deserialize_def Let_def le32_def [of 0])
  next
    case False
    then have "(of_nat ?c :: 32 word) \<noteq> 0" using u(2) by (metis unat_0)
    then show ?thesis
      unfolding ser xml_deserialize_def Let_def if_not_P [OF ne] get32_le32 bind.bind_lunit prod.case u ts by simp
  qed
qed

text \<open>The states that come back as they were.\<close>

definition xml_saves :: "xml_scanner \<Rightarrow> bool" where
  "xml_saves s \<longleftrightarrow> (\<forall>t\<in>set (tags s). length t \<le> 255)
     \<and> 9 + length (concat (map xml_serialize_tag (tags s))) < TREE_SITTER_SERIALIZATION_BUFFER_SIZE"

lemma xml_saves_count:
  assumes "xml_saves s"
  shows "xml_saved_count s = length (tags s)" and "length (tags s) \<le> 65535"
proof -
  have "length ts \<le> length (concat (map xml_serialize_tag ts))" for ts
    by (induction ts) (auto simp: xml_serialize_tag_def Let_def)
  from this [of "tags s"] assms show n: "length (tags s) \<le> 65535"
    by (simp add: xml_saves_def TREE_SITTER_SERIALIZATION_BUFFER_SIZE_def)
  then show "xml_saved_count s = length (tags s)"
    using xml_saved_count_all [of s] assms by (simp add: xml_saves_def TREE_SITTER_SERIALIZATION_BUFFER_SIZE_def)
qed

lemma xml_saves_restore:
  assumes "xml_saves s"
  shows "xml_deserialize t (fst (xml_serialize s)) = Some s"
proof -
  have "map (take 255) (tags s) = map (\<lambda>t. t) (tags s)"
    using assms by (intro map_cong) (auto simp: xml_saves_def)
  then show ?thesis using xml_restore [of t s] xml_saves_count [OF assms] by simp
qed

interpretation xml: resettable_scanner "\<lambda>s. fst (xml_serialize s)" xml_deserialize xml_saves "\<lambda>s. s" xml_create
proof
  show "length (fst (xml_serialize s)) \<le> TREE_SITTER_SERIALIZATION_BUFFER_SIZE" for s
    using xml_serialize_length [of s] unfolding TREE_SITTER_SERIALIZATION_BUFFER_SIZE_def by linarith
  show "\<exists>s'. xml_deserialize t [] = Some s' \<and> s' = xml_create" for t
    by (simp add: xml_deserialize_def xml_create_def)
qed (simp add: xml_saves_restore)

section \<open>Properties\<close>

text \<open>C19. The XML scan returns on every input and never pops an empty stack; a token it reports says
  what happened to the stack of open elements (a start tag pushed a name, an end tag and a
  self-closing delimiter popped one, the others left it alone), and a scan that fails
  leaves the scanner unchanged. The token for an erroneous end tag is never reported, and
  a self-closing delimiter with no open element succeeds without naming a token.\<close>

theorem xml_scan_stack:
  assumes "ts_lexer E rest"
  shows "\<exists>b s' l'. xml_scan E v s l = Some (b, s', l') \<and>
     (if b then xml_effect (result_symbol l') (tags s) (tags s')
         \<or> tags s = [] \<and> s' = s \<and> v SELF_CLOSING_TAG_DELIMITER
      else s' = s)"
  by (rule runs_tripleD, rule runs_weaken [OF ts_lexer.runs_xml_scan [OF assms]]) (simp add: xml_ok_def split_def)

theorem xml_scan_stack_witness:
  "\<exists>b s' l'. xml_scan list_env (\<lambda>t. t = END_TAG_NAME) \<lparr>tags = [[97]]\<rparr> (lex_string CDATA ''b>'') = Some (b, s', l') \<and>
     (if b then xml_effect (result_symbol l') (tags \<lparr>tags = [[97]]\<rparr>) (tags s')
         \<or> tags \<lparr>tags = [[97]]\<rparr> = [] \<and> s' = \<lparr>tags = [[97]]\<rparr> \<and> SELF_CLOSING_TAG_DELIMITER = END_TAG_NAME
      else s' = \<lparr>tags = [[97]]\<rparr>)"
  by (rule xml_scan_stack [OF ts_lexer_list_env])

text \<open>Saving an XML scanner writes less than 1024 bytes, and restoring it gives back as many open
  elements (at most 65535), those that fitted with names of at most 255 bytes and the
  others without a name. But saving also empties the names it has saved in the scanner
  itself: a state that is saved twice in a row comes back without them.\<close>

lemma xml_serialize_roundtrip:
  assumes "xml_saves s"
  shows "length (fst (xml_serialize u)) < TREE_SITTER_SERIALIZATION_BUFFER_SIZE
     \<and> xml_deserialize t (fst (xml_serialize u)) =
         Some \<lparr>tags = map (take 255) (take (xml_saved_count u) (tags u))
               @ replicate (min 65535 (length (tags u)) - xml_saved_count u) []\<rparr>
     \<and> xml_deserialize t (fst (xml_serialize s)) = Some s
     \<and> snd (xml_serialize s) = \<lparr>tags = replicate (length (tags s)) []\<rparr>
     \<and> xml_deserialize t (fst (xml_serialize (snd (xml_serialize s)))) = Some \<lparr>tags = replicate (length (tags s)) []\<rparr>"
proof -
  let ?e = "\<lparr>tags = replicate (length (tags s)) []\<rparr> :: xml_scanner"
  have e: "snd (xml_serialize s) = ?e"
    by (subst xml_serialize_pair) (simp add: xml_saves_count [OF assms])
  have "length (concat (map xml_serialize_tag (replicate n []))) = n" for n
    by (induction n) (simp_all add: xml_serialize_tag_def)
  moreover have "length ts \<le> length (concat (map xml_serialize_tag ts))" for ts
    by (induction ts) (auto simp: xml_serialize_tag_def Let_def)
  from this [of "tags s"] assms have "9 + length (tags s) < 1024"
    by (simp add: xml_saves_def TREE_SITTER_SERIALIZATION_BUFFER_SIZE_def)
  ultimately have "xml_saves ?e" by (simp add: xml_saves_def TREE_SITTER_SERIALIZATION_BUFFER_SIZE_def)
  with e xml_saves_restore assms xml_restore [of t u] xml_serialize_length [of u] show ?thesis
    by (simp add: TREE_SITTER_SERIALIZATION_BUFFER_SIZE_def)
qed

text \<open>A CDATA section with some text and no bracket in it ends in front of \<open>]]>\<close>. The end is missed,
  though, when the text itself ends with a bracket and when the section is empty: then,
  with no later \<open>]]\<close>, no CDATA token is reported.\<close>

lemma xml_cdata_end:
  assumes "ts_lexer_marks E rest pos token_end" and "93 \<notin> set a" and "93 \<notin> set zs"
  shows "(a \<noteq> [] \<and> rest (raw l) = a @ [93, 93, 62] @ zs \<longrightarrow>
       (\<exists>l'. xml_scan_cdata E l = Some (True, l') \<and> result_symbol l' = CDATA
          \<and> token_end (raw l') = pos (raw l) + length a))
     \<and> (rest (raw l) = a @ [93, 93, 93, 62] @ zs \<longrightarrow> (\<exists>l'. xml_scan_cdata E l = Some (False, l')))
     \<and> (rest (raw l) = [93, 93, 62] @ zs \<longrightarrow> (\<exists>l'. xml_scan_cdata E l = Some (False, l')))"
  using ts_lexer_marks.xml_cdata_closed [OF assms(1) _ assms(2)] ts_lexer_marks.xml_cdata_missed [OF assms] by blast

end
