(* ===== verification/Python_Scanner.thy ===== *)
theory Python_Scanner
  imports TS_Serialize
begin

text \<open>
  The Python scanner, \<^verbatim>\<open>python/src/scanner.c\<close>: indentation, newlines and string
  literals. Its state is the stack of indentations (16-bit numbers, the innermost last),
  the stack of open string delimiters (a byte of flags each) and whether the scanner is
  inside an interpolated string.

  Shown here: the scan always returns, keeps the indentations strictly increasing from
  zero and changes the stacks as the reported token says; which token a new line gives;
  what is saved and restored, and how far saving can write; an escape at the start of a
  raw string that becomes part of the end token.
\<close>

datatype py_token =
    NEWLINE
  | INDENT
  | DEDENT
  | STRING_START
  | STRING_CONTENT
  | ESCAPE_INTERPOLATION
  | STRING_END
  | COMMENT
  | CLOSE_PAREN
  | CLOSE_BRACKET
  | CLOSE_BRACE
  | EXCEPT

type_synonym 'l py_lexer = "('l, py_token) TSLexer"

section \<open>Delimiters\<close>

type_synonym Delimiter = byte

abbreviation SingleQuote :: Delimiter where "SingleQuote \<equiv> 0x01"
abbreviation DoubleQuote :: Delimiter where "DoubleQuote \<equiv> 0x02"
abbreviation BackQuote :: Delimiter where "BackQuote \<equiv> 0x04"
abbreviation Raw :: Delimiter where "Raw \<equiv> 0x08"
abbreviation Format :: Delimiter where "Format \<equiv> 0x10"
abbreviation Triple :: Delimiter where "Triple \<equiv> 0x20"
abbreviation Bytes :: Delimiter where "Bytes \<equiv> 0x40"

definition new_delimiter :: Delimiter where
  "new_delimiter = 0"

definition is_format :: "Delimiter \<Rightarrow> bool" where
  "is_format flags \<longleftrightarrow> flags AND Format \<noteq> 0"

definition is_raw :: "Delimiter \<Rightarrow> bool" where
  "is_raw flags \<longleftrightarrow> flags AND Raw \<noteq> 0"

definition is_triple :: "Delimiter \<Rightarrow> bool" where
  "is_triple flags \<longleftrightarrow> flags AND Triple \<noteq> 0"

definition is_bytes :: "Delimiter \<Rightarrow> bool" where
  "is_bytes flags \<longleftrightarrow> flags AND Bytes \<noteq> 0"

definition end_character :: "Delimiter \<Rightarrow> int" where
  "end_character flags =
     (if flags AND SingleQuote \<noteq> 0 then ch CHR 0x27
      else if flags AND DoubleQuote \<noteq> 0 then ch CHR 0x22
      else if flags AND BackQuote \<noteq> 0 then ch CHR ''`''
      else 0)"

definition set_format :: "Delimiter \<Rightarrow> Delimiter" where
  "set_format flags = flags OR Format"

definition set_raw :: "Delimiter \<Rightarrow> Delimiter" where
  "set_raw flags = flags OR Raw"

definition set_triple :: "Delimiter \<Rightarrow> Delimiter" where
  "set_triple flags = flags OR Triple"

definition set_bytes :: "Delimiter \<Rightarrow> Delimiter" where
  "set_bytes flags = flags OR Bytes"

text \<open>The default case is an assertion; the scanner only passes the three quotes.\<close>

definition set_end_character :: "Delimiter \<Rightarrow> int \<Rightarrow> Delimiter option" where
  "set_end_character flags character =
     (if character = ch CHR 0x27 then Some (flags OR SingleQuote)
      else if character = ch CHR 0x22 then Some (flags OR DoubleQuote)
      else if character = ch CHR ''`'' then Some (flags OR BackQuote)
      else None)"

section \<open>The scanner\<close>

record py_scanner =
  indents :: "16 word list"
  delimiters :: "Delimiter list"
  inside_interpolated_string :: bool

type_synonym 'l py_result = "bool \<times> py_scanner \<times> 'l py_lexer"

text \<open>The end of a string literal.\<close>

definition py_string_end :: "py_scanner \<Rightarrow> py_scanner" where
  "py_string_end s = s\<lparr>delimiters := butlast (delimiters s), inside_interpolated_string := False\<rparr>"

definition py_scan_escape_interpolation :: "'l env \<Rightarrow> (py_token \<Rightarrow> bool) \<Rightarrow> bool \<Rightarrow> py_scanner \<Rightarrow> 'l py_lexer \<Rightarrow>
    ('l py_lexer, 'l py_result) flow" where
  "py_scan_escape_interpolation E valid_symbols error_recovery_mode s l =
     (if valid_symbols ESCAPE_INTERPOLATION \<and> delimiters s \<noteq> []
         \<and> (lookahead E l = ch CHR ''{'' \<or> lookahead E l = ch CHR ''}'') \<and> \<not> error_recovery_mode
         \<and> is_format (last (delimiters s))
      then
        let is_left_brace = (lookahead E l = ch CHR ''{''); l = advance E (mark_end E l) in
        if lookahead E l = ch CHR ''{'' \<and> is_left_brace \<or> lookahead E l = ch CHR ''}'' \<and> \<not> is_left_brace
        then Return (True, s, set_symbol ESCAPE_INTERPOLATION (mark_end E (advance E l)))
        else Return (False, s, l)
      else Next l)"

text \<open>A backslash in a raw string: the escaped quote or backslash and a line break are stepped over.\<close>

definition py_raw_escape :: "'l env \<Rightarrow> Delimiter \<Rightarrow> 'l py_lexer \<Rightarrow> 'l py_lexer" where
  "py_raw_escape E d l =
     (let l = advance E l;
          l = (if lookahead E l = end_character d \<or> lookahead E l = ch CHR 0x5C then advance E l else l) in
      if lookahead E l = ch CHR 0x0D then
        let l = advance E l in if lookahead E l = ch CHR 0x0A then advance E l else l
      else if lookahead E l = ch CHR 0x0A then advance E l
      else l)"

definition py_triple_quote :: "'l env \<Rightarrow> py_scanner \<Rightarrow> int \<Rightarrow> bool \<Rightarrow> 'l py_lexer \<Rightarrow> 'l py_result" where
  "py_triple_quote E s end_char has_content l =
     (let l = advance E (mark_end E l) in
      if lookahead E l = end_char then
        let l = advance E l in
        if lookahead E l = end_char then
          if has_content then (True, s, set_symbol STRING_CONTENT l)
          else (True, py_string_end s, set_symbol STRING_END (mark_end E (advance E l)))
        else (True, s, set_symbol STRING_CONTENT (mark_end E l))
      else (True, s, set_symbol STRING_CONTENT (mark_end E l)))"

text \<open>
  One round of the content loop. (The local \<^verbatim>\<open>advanced_once\<close> is only set on a path that
  returns, so it is false here.) Leaving the loop at a NUL or the end of the input goes
  on with the code after it (\<open>Next\<close> of the outer outcome).
\<close>

definition py_content_step :: "'l env \<Rightarrow> py_scanner \<Rightarrow> Delimiter \<Rightarrow> bool \<times> 'l py_lexer \<Rightarrow>
    (bool \<times> 'l py_lexer, ('l py_lexer, 'l py_result) flow) flow option" where
  "py_content_step E s d = (\<lambda>(has_content, l).
     let end_char = end_character d in
     if lookahead E l = 0 then Some (Return (Next l))
     else if (lookahead E l = ch CHR ''{'' \<or> lookahead E l = ch CHR ''}'') \<and> is_format d
     then Some (Return (Return (has_content, s, set_symbol STRING_CONTENT (mark_end E l))))
     else if lookahead E l = ch CHR 0x5C then
       if is_raw d then Some (Next (has_content, py_raw_escape E d l))
       else if is_bytes d then
         let l = advance E (mark_end E l) in
         if lookahead E l = ch CHR ''N'' \<or> lookahead E l = ch CHR ''u'' \<or> lookahead E l = ch CHR ''U''
         then Some (Next (True, advance E (advance E l)))
         else Some (Return (Return (has_content, s, set_symbol STRING_CONTENT l)))
       else Some (Return (Return (has_content, s, set_symbol STRING_CONTENT (mark_end E l))))
     else if lookahead E l = end_char then
       if is_triple d then Some (Return (Return (py_triple_quote E s end_char has_content l)))
       else if has_content then Some (Return (Return (True, s, mark_end E (set_symbol STRING_CONTENT l))))
       else Some (Return (Return (True, py_string_end s, mark_end E (set_symbol STRING_END (advance E l)))))
     else if lookahead E l = ch CHR 0x0A \<and> has_content \<and> \<not> is_triple d then Some (Return (Return (False, s, l)))
     else Some (Next (True, advance E l)))"

definition py_scan_string_content :: "'l env \<Rightarrow> (py_token \<Rightarrow> bool) \<Rightarrow> bool \<Rightarrow> py_scanner \<Rightarrow> 'l py_lexer \<Rightarrow>
    ('l py_lexer, 'l py_result) flow option" where
  "py_scan_string_content E valid_symbols error_recovery_mode s l =
     (if valid_symbols STRING_CONTENT \<and> delimiters s \<noteq> [] \<and> \<not> error_recovery_mode
      then c_loop (py_content_step E s (last (delimiters s))) (False, l)
      else Some (Next l))"

text \<open>The loop over blanks, line breaks, comments and line continuations.\<close>

type_synonym 'l py_indentation = "bool \<times> 16 word \<times> int \<times> 'l py_lexer"

definition py_indentation_step :: "'l env \<Rightarrow> (py_token \<Rightarrow> bool) \<Rightarrow> py_scanner \<Rightarrow> 'l py_indentation \<Rightarrow>
    ('l py_indentation, ('l py_indentation, 'l py_result) flow) flow option" where
  "py_indentation_step E valid_symbols s =
     (\<lambda>(found_end_of_line, indent_length, first_comment_indent_length, l).
     if lookahead E l = ch CHR 0x0A then Some (Next (True, 0, first_comment_indent_length, skip E l))
     else if lookahead E l = ch CHR '' ''
     then Some (Next (found_end_of_line, indent_length + 1, first_comment_indent_length, skip E l))
     else if lookahead E l = ch CHR 0x0D \<or> lookahead E l = ch CHR 0x0C
     then Some (Next (found_end_of_line, 0, first_comment_indent_length, skip E l))
     else if lookahead E l = ch CHR 0x09
     then Some (Next (found_end_of_line, indent_length + 8, first_comment_indent_length, skip E l))
     else if lookahead E l = ch CHR ''#''
         \<and> (valid_symbols INDENT \<or> valid_symbols DEDENT \<or> valid_symbols NEWLINE \<or> valid_symbols EXCEPT) then
       if \<not> found_end_of_line then Some (Return (Return (False, s, l)))
       else
         let first_comment_indent_length =
           (if first_comment_indent_length = -1 then uint indent_length else first_comment_indent_length) in
         do { l \<leftarrow> skip_while E (\<lambda>c. c \<noteq> 0 \<and> c \<noteq> ch CHR 0x0A) l;
              Some (Next (found_end_of_line, 0, first_comment_indent_length, skip E l)) }
     else if lookahead E l = ch CHR 0x5C then
       let l = skip E l;
           l = (if lookahead E l = ch CHR 0x0D then skip E l else l) in
       if lookahead E l = ch CHR 0x0A \<or> eof E l
       then Some (Next (found_end_of_line, indent_length, first_comment_indent_length, skip E l))
       else Some (Return (Return (False, s, l)))
     else if eof E l then Some (Return (Next (True, 0, first_comment_indent_length, l)))
     else Some (Return (Next (found_end_of_line, indent_length, first_comment_indent_length, l))))"

definition py_scan_line :: "'l env \<Rightarrow> (py_token \<Rightarrow> bool) \<Rightarrow> bool \<Rightarrow> bool \<Rightarrow> py_scanner \<Rightarrow> 'l py_indentation \<Rightarrow>
    (int \<times> 'l py_lexer, 'l py_result) flow" where
  "py_scan_line E valid_symbols error_recovery_mode within_brackets s =
     (\<lambda>(found_end_of_line, indent_length, first_comment_indent_length, l).
     if found_end_of_line then
       let current_indent_length = last (indents s);
           next_tok_is_string_start =
             (lookahead E l = ch CHR 0x22 \<or> lookahead E l = ch CHR 0x27 \<or> lookahead E l = ch CHR ''`'') in
       if indents s \<noteq> [] \<and> valid_symbols INDENT \<and> indent_length > current_indent_length
       then Return (True, s\<lparr>indents := indents s @ [indent_length]\<rparr>, set_symbol INDENT l)
       else if indents s \<noteq> [] \<and>
         (valid_symbols DEDENT \<or>
          \<not> valid_symbols NEWLINE \<and> \<not> (valid_symbols STRING_START \<and> next_tok_is_string_start) \<and> \<not> within_brackets)
         \<and> indent_length < current_indent_length \<and> \<not> inside_interpolated_string s
         \<and> first_comment_indent_length < uint current_indent_length
       then Return (True, s\<lparr>indents := butlast (indents s)\<rparr>, set_symbol DEDENT l)
       else if valid_symbols NEWLINE \<and> \<not> error_recovery_mode then Return (True, s, set_symbol NEWLINE l)
       else Next (first_comment_indent_length, l)
     else Next (first_comment_indent_length, l))"

definition py_string_flags :: "'l env \<Rightarrow> 'l py_lexer \<Rightarrow> (Delimiter \<times> 'l py_lexer) option" where
  "py_string_flags E l =
     c_loop (\<lambda>(d, l).
       let c = lookahead E l in
       if c = 0 then Some (Return (d, l))
       else if c \<in> {ch CHR ''f'', ch CHR ''F'', ch CHR ''t'', ch CHR ''T''} then Some (Next (set_format d, advance E l))
       else if c \<in> {ch CHR ''r'', ch CHR ''R''} then Some (Next (set_raw d, advance E l))
       else if c \<in> {ch CHR ''b'', ch CHR ''B''} then Some (Next (set_bytes d, advance E l))
       else if c \<noteq> ch CHR ''u'' \<and> c \<noteq> ch CHR ''U'' then Some (Return (d, l))
       else Some (Next (d, advance E l))) (new_delimiter, l)"

text \<open>A quote, or three.\<close>

definition py_opening_quote :: "'l env \<Rightarrow> int \<Rightarrow> Delimiter \<Rightarrow> 'l py_lexer \<Rightarrow> (Delimiter \<times> 'l py_lexer) option" where
  "py_opening_quote E q d l =
     do { d \<leftarrow> set_end_character d q;
          let l = mark_end E (advance E l) in
          if lookahead E l = q then
            let l = advance E l in
            if lookahead E l = q then Some (set_triple d, mark_end E (advance E l)) else Some (d, l)
          else Some (d, l) }"

definition py_scan_string_start :: "'l env \<Rightarrow> py_scanner \<Rightarrow> 'l py_lexer \<Rightarrow> 'l py_result option" where
  "py_scan_string_start E s l =
     do { (d, l) \<leftarrow> py_string_flags E l;
          (d, l) \<leftarrow>
            (if lookahead E l = ch CHR ''`'' then
               do { d \<leftarrow> set_end_character d (ch CHR ''`''); Some (d, mark_end E (advance E l)) }
             else if lookahead E l = ch CHR 0x27 then py_opening_quote E (ch CHR 0x27) d l
             else if lookahead E l = ch CHR 0x22 then py_opening_quote E (ch CHR 0x22) d l
             else Some (d, l));
          if end_character d \<noteq> 0
          then Some (True, s\<lparr>delimiters := delimiters s @ [d], inside_interpolated_string := is_format d\<rparr>,
                     set_symbol STRING_START l)
          else Some (False, s, l) }"

definition py_scan :: "'l env \<Rightarrow> (py_token \<Rightarrow> bool) \<Rightarrow> py_scanner \<Rightarrow> 'l py_lexer \<Rightarrow> 'l py_result option" where
  "py_scan E valid_symbols s l =
     (let error_recovery_mode = (valid_symbols STRING_CONTENT \<and> valid_symbols INDENT);
          within_brackets = (valid_symbols CLOSE_BRACE \<or> valid_symbols CLOSE_PAREN \<or> valid_symbols CLOSE_BRACKET) in
      then_return
        (and_then (and_then (and_then
           (Some (py_scan_escape_interpolation E valid_symbols error_recovery_mode s l))
           (py_scan_string_content E valid_symbols error_recovery_mode s))
           (\<lambda>l. c_loop (py_indentation_step E valid_symbols s) (False, 0, -1, mark_end E l)))
           (\<lambda>x. Some (py_scan_line E valid_symbols error_recovery_mode within_brackets s x)))
        (\<lambda>(first_comment_indent_length, l).
           if first_comment_indent_length = -1 \<and> valid_symbols STRING_START then py_scan_string_start E s l
           else Some (False, s, l)))"

section \<open>Saving\<close>

fun py_serialize_indents :: "nat \<Rightarrow> 16 word list \<Rightarrow> byte list" where
  "py_serialize_indents sz [] = []"
| "py_serialize_indents sz (indent_value # is) =
     (if sz < TREE_SITTER_SERIALIZATION_BUFFER_SIZE
      then le16 indent_value @ py_serialize_indents (sz + 2) is else [])"

definition py_serialize :: "py_scanner \<Rightarrow> byte list" where
  "py_serialize s =
     (let delimiter_count = min 255 (length (delimiters s));
          header = [if inside_interpolated_string s then 1 else 0, of_nat delimiter_count]
            @ take delimiter_count (delimiters s) in
      header @ py_serialize_indents (length header) (tl (indents s)))"

fun py_get_indents :: "byte list \<Rightarrow> 16 word list" where
  "py_get_indents (a # b # buffer) = (ucast a OR push_bit 8 (ucast b)) # py_get_indents buffer"
| "py_get_indents _ = []"

definition py_deserialize :: "py_scanner \<Rightarrow> byte list \<Rightarrow> py_scanner option" where
  "py_deserialize s buffer =
     (let s = s\<lparr>delimiters := [], indents := [0]\<rparr> in
      if buffer \<noteq> [] then
        do { (b, buffer) \<leftarrow> get8 buffer;
             (delimiter_count, buffer) \<leftarrow> get8 buffer;
             (ds, buffer) \<leftarrow> get_bytes (unat delimiter_count) buffer;
             Some (s\<lparr>inside_interpolated_string := (b \<noteq> 0), delimiters := ds, indents := [0] @ py_get_indents buffer\<rparr>) }
      else Some s)"

text \<open>A new scanner: zeroed memory, then \<^verbatim>\<open>deserialize\<close> with nothing to read.\<close>

definition py_create :: py_scanner where
  "py_create = \<lparr>indents = [0], delimiters = [], inside_interpolated_string = False\<rparr>"

lemma py_create_deserialize:
  "py_deserialize \<lparr>indents = [], delimiters = [], inside_interpolated_string = False\<rparr> [] = Some py_create"
  by (simp add: py_deserialize_def py_create_def)

section \<open>The stacks\<close>

definition py_wf :: "py_scanner \<Rightarrow> bool" where
  "py_wf s \<longleftrightarrow> indents s \<noteq> [] \<and> hd (indents s) = 0 \<and> sorted_wrt (<) (indents s)"

text \<open>What a token means for the state, and which tokens a scan may report.\<close>

definition py_effect :: "py_token \<Rightarrow> py_scanner \<Rightarrow> py_scanner \<Rightarrow> bool" where
  "py_effect t s s' =
     (case t of
        INDENT \<Rightarrow> \<exists>i. last (indents s) < i \<and> s' = s\<lparr>indents := indents s @ [i]\<rparr>
      | DEDENT \<Rightarrow> \<exists>i. 0 < i \<and> indents s = indents s' @ [i] \<and> s' = s\<lparr>indents := indents s'\<rparr> \<and> \<not> inside_interpolated_string s
      | STRING_START \<Rightarrow> \<exists>d. end_character d \<noteq> 0 \<and>
          s' = s\<lparr>delimiters := delimiters s @ [d], inside_interpolated_string := is_format d\<rparr>
      | STRING_END \<Rightarrow> delimiters s \<noteq> [] \<and> s' = py_string_end s
      | NEWLINE \<Rightarrow> s' = s
      | STRING_CONTENT \<Rightarrow> s' = s
      | ESCAPE_INTERPOLATION \<Rightarrow> s' = s
      | _ \<Rightarrow> False)"

definition py_may_report :: "(py_token \<Rightarrow> bool) \<Rightarrow> py_token \<Rightarrow> bool" where
  "py_may_report v t =
     (if t = STRING_END then v STRING_CONTENT else if t = DEDENT then v DEDENT \<or> \<not> v NEWLINE else v t)"

definition py_post :: "(py_token \<Rightarrow> bool) \<Rightarrow> py_scanner \<Rightarrow> 'l py_result \<Rightarrow> bool" where
  "py_post v s r \<longleftrightarrow> (case r of (b, s', l') \<Rightarrow>
     if b then py_may_report v (result_symbol l') \<and> py_effect (result_symbol l') s s' else s' = s)"

lemma py_post_simps [simp]:
  "py_post v s (False, s', l) \<longleftrightarrow> s' = s"
  "py_post v s (True, s', l) \<longleftrightarrow> py_may_report v (result_symbol l) \<and> py_effect (result_symbol l) s s'"
  by (simp_all add: py_post_def)

lemma py_post_same: "py_may_report v (result_symbol l) \<Longrightarrow> py_effect (result_symbol l) s s \<Longrightarrow> py_post v s (b, s, l)"
  by (simp add: py_post_def)

lemma py_effect_wf: "py_wf s \<Longrightarrow> py_effect t s s' \<Longrightarrow> py_wf s'"
proof (cases t)
  case INDENT
  assume "py_wf s" "py_effect t s s'"
  with INDENT obtain i where i: "last (indents s) < i" "s' = s\<lparr>indents := indents s @ [i]\<rparr>" by (auto simp: py_effect_def)
  from \<open>py_wf s\<close> have s: "indents s \<noteq> []" "sorted_wrt (<) (indents s)" "hd (indents s) = 0" by (auto simp: py_wf_def)
  from s(1) obtain xs x where xs: "indents s = xs @ [x]" by (cases "indents s" rule: rev_exhaust) auto
  with s i have "\<forall>j\<in>set xs. j < i" by (auto simp: sorted_wrt_append intro: order.strict_trans)
  with s i xs show ?thesis by (cases xs) (auto simp: py_wf_def sorted_wrt_append)
next
  case DEDENT
  assume "py_wf s" "py_effect t s s'"
  with DEDENT obtain i where i: "0 < i" "indents s = indents s' @ [i]" by (auto simp: py_effect_def)
  with \<open>py_wf s\<close> show ?thesis by (cases "indents s'") (auto simp: py_wf_def sorted_wrt_append)
qed (auto simp: py_effect_def py_wf_def py_string_end_def)

context ts_lexer
begin

lemma py_raw_escape_less:
  assumes "lookahead E l \<noteq> 0"
  shows "remaining (py_raw_escape E d l) < remaining l"
  using remaining_pos [OF assms] by (simp add: py_raw_escape_def Let_def)

lemma py_triple_quote_post:
  "delimiters s \<noteq> [] \<Longrightarrow> v STRING_CONTENT \<Longrightarrow> py_post v s (py_triple_quote E s c h l)"
  by (simp add: py_triple_quote_def Let_def py_effect_def py_may_report_def)

lemma runs_py_content:
  assumes "delimiters s \<noteq> []" and "v STRING_CONTENT"
  shows "runs (c_loop (py_content_step E s d) (h, l)) (case_flow (\<lambda>_. True) (py_post v s))"
proof (rule runs_c_loop [where m = "\<lambda>(h, l'). remaining l'" and I = "\<lambda>_. True"], goal_cases)
  case (2 x)
  obtain h l where x: "x = (h, l)" by (cases x)
  have same: "py_post v s (b, s, l)" if "result_symbol l = STRING_CONTENT" for b and l :: "('l, py_token) TSLexer"
    using assms that by (intro py_post_same) (simp_all add: py_effect_def py_may_report_def)
  have fin: "py_post v s (True, py_string_end s, l)" if "result_symbol l = STRING_END" for l :: "('l, py_token) TSLexer"
    using assms that by (simp add: py_effect_def py_may_report_def)
  show ?case
  proof (cases "lookahead E l = 0")
    case False
    then have "0 < remaining l" by (rule remaining_pos)
    then have less: "remaining l - Suc n < remaining l" for n by linarith
    show ?thesis
      using False assms
      by (simp add: x py_content_step_def Let_def less py_raw_escape_less same fin py_triple_quote_post del: py_post_simps(2))
  qed (simp add: x py_content_step_def)
qed simp

lemma runs_py_indentation:
  "runs (c_loop (py_indentation_step E v s) (a, i, f, l)) (case_flow (\<lambda>_. True) (py_post v s))"
proof (rule runs_c_loop [where m = "\<lambda>(a, i, f, l'). remaining l'" and I = "\<lambda>_. True"], goal_cases)
  case (2 x)
  obtain a i f l where x: "x = (a, i, f, l)" by (cases x)
  show ?case
  proof (cases "lookahead E l = 0")
    case False
    then have "0 < remaining l" by (rule remaining_pos)
    then have less: "remaining l - Suc n < remaining l" for n by linarith
    show ?thesis
      using False by (auto simp: x py_indentation_step_def Let_def less intro!: wp_skip_while)
  qed (simp add: x py_indentation_step_def)
qed simp

lemma py_scan_escape_post: "case_flow (\<lambda>_. True) (py_post v s) (py_scan_escape_interpolation E v r s l)"
  by (simp add: py_scan_escape_interpolation_def Let_def py_effect_def py_may_report_def)

lemma py_scan_line_post:
  assumes "py_wf s"
  shows "case_flow (\<lambda>_. True) (py_post v s) (py_scan_line E v r w s x)"
proof -
  obtain f i c l where x: "x = (f, i, c, l)" by (cases x)
  have ne: "indents s \<noteq> []" using assms by (simp add: py_wf_def)
  have ded: "py_effect DEDENT s (s\<lparr>indents := butlast (indents s)\<rparr>)"
    if "i < last (indents s)" "\<not> inside_interpolated_string s"
    using ne that by (auto simp: py_effect_def word_gt_0 intro!: exI [of _ "last (indents s)"])
  have ind: "py_effect INDENT s (s\<lparr>indents := indents s @ [i]\<rparr>)" if "last (indents s) < i"
    using that by (simp add: py_effect_def) blast
  have new: "py_effect NEWLINE s s" by (simp add: py_effect_def)
  show ?thesis
    unfolding x py_scan_line_def prod.case Let_def
    using ne ded ind new by (auto simp: py_may_report_def)
qed

lemma runs_py_string_flags: "runs (py_string_flags E l) (\<lambda>_. True)"
  unfolding py_string_flags_def
proof (rule runs_c_loop [where m = "\<lambda>(d, l'). remaining l'" and I = "\<lambda>_. True"], goal_cases)
  case (2 x)
  obtain d l where x: "x = (d, l)" by (cases x)
  show ?case
  proof (cases "lookahead E l = 0")
    case False
    then have "0 < remaining l" by (rule remaining_pos)
    then have less: "remaining l - Suc n < remaining l" for n by linarith
    then show ?thesis by (simp add: x Let_def)
  qed (simp add: x)
qed simp

lemma runs_py_opening_quote: "q = 39 \<or> q = 34 \<Longrightarrow> runs (py_opening_quote E q d l) (\<lambda>_. True)"
  by (auto simp: py_opening_quote_def set_end_character_def Let_def)

lemma runs_py_scan_string_start:
  assumes "v STRING_START"
  shows "runs (py_scan_string_start E s l) (py_post v s)"
proof -
  have fin: "runs (if end_character d \<noteq> 0
          then Some (True, s\<lparr>delimiters := delimiters s @ [d], inside_interpolated_string := is_format d\<rparr>, set_symbol STRING_START l)
          else Some (False, s, l)) (py_post v s)" for d and l :: "('l, py_token) TSLexer"
    using assms by (simp add: py_effect_def py_may_report_def) blast
  show ?thesis
    unfolding py_scan_string_start_def runs_bind
    by (rule runs_weaken [OF runs_py_string_flags])
      (auto simp del: runs_if simp: fin set_end_character_def split: prod.splits intro!: runs_weaken [OF runs_py_opening_quote] fin)
qed

lemma runs_py_scan:
  assumes "py_wf s"
  shows "runs (py_scan E v s l) (py_post v s)"
  unfolding py_scan_def Let_def
proof (rule runs_then_return_inv [where I = "\<lambda>_. True"], (rule runs_and_then_inv [where I = "\<lambda>_. True"])+, goal_cases)
  case 1
  show ?case unfolding runs_Some by (rule py_scan_escape_post)
next
  case (2 l)
  show ?case using runs_py_content [of s v] by (simp add: py_scan_string_content_def)
next
  case (3 l)
  show ?case by (rule runs_py_indentation)
next
  case (4 x)
  show ?case unfolding runs_Some by (rule py_scan_line_post [OF assms])
next
  case (5 x)
  show ?case using runs_py_scan_string_start [of v s] by (auto split: prod.splits)
qed

end

section \<open>Saving and restoring\<close>

lemma py_serialize_indents_length:
  "length (py_serialize_indents sz is) = 2 * min (length is) ((1025 - sz) div 2)"
proof (induction sz "is" rule: py_serialize_indents.induct)
  case (2 sz i "is")
  show ?case
  proof (cases "sz < 1024")
    case True
    then have "(1025 - sz) div 2 = Suc ((1025 - (sz + 2)) div 2)" by presburger
    with 2 True show ?thesis by (simp add: TREE_SITTER_SERIALIZATION_BUFFER_SIZE_def)
  next
    case False
    then have "(1025 - sz) div 2 = 0" by presburger
    with False show ?thesis by (simp add: TREE_SITTER_SERIALIZATION_BUFFER_SIZE_def)
  qed
qed simp

lemma py_serialize_indents_all:
  "sz + 2 * length is \<le> 1025 \<Longrightarrow> py_serialize_indents sz is = concat (map le16 is)"
  by (induction sz "is" rule: py_serialize_indents.induct) (auto simp: TREE_SITTER_SERIALIZATION_BUFFER_SIZE_def)

lemma py_get_indents_concat: "py_get_indents (concat (map le16 is)) = is"
proof (induction "is")
  case (Cons i "is")
  have "get16 (le16 i @ concat (map le16 is)) = Some (i, concat (map le16 is))" by simp
  then have "ucast (ucast i :: byte) OR push_bit 8 (ucast (ucast (drop_bit 8 i) :: byte)) = i"
    by (simp add: le16_def)
  with Cons show ?case by (simp add: le16_def)
qed simp

text \<open>The states that can be saved in the buffer.\<close>

definition py_saves :: "py_scanner \<Rightarrow> bool" where
  "py_saves s \<longleftrightarrow> py_wf s \<and> length (delimiters s) \<le> 255
     \<and> 2 + length (delimiters s) + 2 * (length (indents s) - 1) \<le> TREE_SITTER_SERIALIZATION_BUFFER_SIZE"

lemma py_restore:
  assumes "py_saves s"
  shows "py_deserialize t (py_serialize s) = Some s"
proof -
  from assms have d: "length (delimiters s) \<le> 255" and ne: "indents s \<noteq> []" "hd (indents s) = 0"
    and sz: "Suc (Suc (length (delimiters s))) + 2 * length (tl (indents s)) \<le> 1025"
    by (auto simp: py_saves_def py_wf_def TREE_SITTER_SERIALIZATION_BUFFER_SIZE_def)
  have u: "unat (of_nat (length (delimiters s)) :: 8 word) = length (delimiters s)"
    using d by (intro unat_of_nat_8) simp
  have "0 # tl (indents s) = indents s" using ne by (metis list.collapse)
  with u d sz show ?thesis
    by (simp add: py_serialize_def py_deserialize_def Let_def py_serialize_indents_all py_get_indents_concat)
qed

interpretation py: external_scanner py_serialize py_deserialize py_saves "\<lambda>s. s"
proof
  show "length (py_serialize s) \<le> TREE_SITTER_SERIALIZATION_BUFFER_SIZE" if "py_saves s" for s
    using that by (auto simp: py_saves_def py_serialize_def Let_def py_serialize_indents_length)
qed (simp add: py_restore)

section \<open>Lines\<close>

context ts_lexer
begin

text \<open>Blanks count, up to the first other character.\<close>

lemma py_indentation_blanks:
  assumes "rest (raw l) = replicate n 32 @ zs"
  shows "\<exists>l'. c_loop (py_indentation_step E v s) (f, i, c, l) = c_loop (py_indentation_step E v s) (f, i + of_nat n, c, l')
     \<and> rest (raw l') = zs"
  using assms
proof (induction n arbitrary: i l)
  case 0
  then show ?case by auto
next
  case (Suc n)
  then have l: "rest (raw (skip E l)) = replicate n 32 @ zs" and la: "lookahead E l = 32" by simp_all
  have "c_loop (py_indentation_step E v s) (f, i, c, l) = c_loop (py_indentation_step E v s) (f, i + 1, c, skip E l)"
    by (rule c_loop_Next) (simp add: py_indentation_step_def la)
  moreover from Suc.IH [OF l, of "i + 1"] obtain l' where
    "c_loop (py_indentation_step E v s) (f, i + 1, c, skip E l) = c_loop (py_indentation_step E v s) (f, i + 1 + of_nat n, c, l')"
    "rest (raw l') = zs" by blast
  ultimately show ?case by (intro exI [of _ l']) (simp add: ac_simps)
qed

lemma py_indentation_line:
  assumes "rest (raw l) = 10 # replicate n 32 @ c # ys" and "c \<notin> {0, 10, 32, 13, 12, 9, 35, 92}"
  shows "\<exists>l'. c_loop (py_indentation_step E v s) (False, 0, -1, l) = Some (Next (True, of_nat n, -1, l'))
     \<and> rest (raw l') = c # ys"
proof -
  have "c_loop (py_indentation_step E v s) (False, 0, -1, l) = c_loop (py_indentation_step E v s) (True, 0, -1, skip E l)"
    by (rule c_loop_Next) (use assms(1) in \<open>simp add: py_indentation_step_def\<close>)
  moreover from assms(1) have "rest (raw (skip E l)) = replicate n 32 @ c # ys" by simp
  from py_indentation_blanks [OF this, of v s True 0 "-1"] obtain l' where
    "c_loop (py_indentation_step E v s) (True, 0, -1, skip E l) = c_loop (py_indentation_step E v s) (True, of_nat n, -1, l')"
    and l': "rest (raw l') = c # ys" by auto
  moreover have "c_loop (py_indentation_step E v s) (True, of_nat n, -1, l') = Some (Next (True, of_nat n, -1, l'))"
    by (rule c_loop_Return) (use assms(2) l' in \<open>simp add: py_indentation_step_def\<close>)
  ultimately show ?thesis using l' by simp
qed

text \<open>The token at the start of a line, where indents, dedents and newlines may come.\<close>

lemma py_scan_new_line:
  assumes "rest (raw l) = 10 # replicate n 32 @ c # ys" and "c \<notin> {0, 10, 32, 13, 12, 9, 35, 92}"
    and "v INDENT" "v DEDENT" "v NEWLINE" "\<not> v STRING_CONTENT" and "indents s \<noteq> []" "\<not> inside_interpolated_string s"
  shows "\<exists>s' l'. py_scan E v s l = Some (True, s', l') \<and>
     result_symbol l' = (if last (indents s) < of_nat n then INDENT else if of_nat n < last (indents s) then DEDENT else NEWLINE)"
proof -
  have "lookahead E l = 10" using assms(1) by simp
  then have b: "py_scan_escape_interpolation E v r s l = Next l" for r by (simp add: py_scan_escape_interpolation_def)
  have c: "py_scan_string_content E v r s l = Some (Next l)" for r using assms(6) by (simp add: py_scan_string_content_def)
  have "rest (raw (mark_end E l)) = 10 # replicate n 32 @ c # ys" using assms(1) by simp
  from py_indentation_line [OF this assms(2), of v s] obtain l' where
    i: "c_loop (py_indentation_step E v s) (False, 0, -1, mark_end E l) = Some (Next (True, of_nat n, -1, l'))" by blast
  have neg: "(-1 :: int) < uint (w :: 16 word)" for w
    using uint_ge_0 [of w] by linarith
  show ?thesis
    using assms(3-8) neg by (simp add: py_scan_def Let_def b c i and_then_def then_return_def py_scan_line_def)
qed

end

context ts_lexer_marks
begin

text \<open>An escaped backslash at the start of a raw string does not count as content.\<close>

lemma py_raw_string_escape:
  assumes "rest (raw l) = 92 # 92 # end_character d # ys" and "delimiters s \<noteq> []" and "d = last (delimiters s)"
    and "is_raw d" "\<not> is_triple d" "end_character d \<notin> {0, 10, 13}"
    and "v STRING_CONTENT" "\<not> v INDENT"
  shows "\<exists>l'. py_scan E v s l = Some (True, py_string_end s, l') \<and> result_symbol l' = STRING_END
     \<and> token_end (raw l') = pos (raw l) + 3"
proof -
  let ?q = "end_character d" and ?l2 = "advance E (advance E l)"
  have q: "?q = 39 \<or> ?q = 34 \<or> ?q = 96" using assms(6) by (auto simp: end_character_def split: if_splits)
  have la: "lookahead E l = 92" "lookahead E (advance E l) = 92" "lookahead E ?l2 = ?q"
    using assms(1) by (simp_all add: lookahead_view)
  have esc: "py_raw_escape E d l = ?l2" using la q by (auto simp: py_raw_escape_def Let_def)
  have "c_loop (py_content_step E s d) (False, l) = c_loop (py_content_step E s d) (False, ?l2)"
    by (rule c_loop_Next) (use la q assms(4) esc in \<open>simp add: py_content_step_def Let_def\<close>)
  also have "\<dots> = Some (Return (True, py_string_end s, mark_end E (set_symbol STRING_END (advance E ?l2))))"
    by (rule c_loop_Return) (use la q assms(5) in \<open>auto simp: py_content_step_def Let_def\<close>)
  finally have "py_scan E v s l = Some (True, py_string_end s, mark_end E (set_symbol STRING_END (advance E ?l2)))"
    using assms(2,3,7,8) la
    by (simp add: py_scan_def py_scan_escape_interpolation_def py_scan_string_content_def Let_def and_then_def then_return_def)
  moreover have "pos (raw (set_symbol STRING_END (advance E ?l2))) = pos (raw l) + 3" using assms(1) by simp
  ultimately show ?thesis by (simp del: pos_ops(1))
qed

end

section \<open>Properties\<close>

text \<open>C4. The Python scan returns on every input. It keeps the stack of indentations strictly increasing
  from zero, reports only tokens that may come, and a reported token says what happened to
  the state: an indent pushed a larger indentation, a dedent popped one (never inside an
  interpolated string and never the first), the start and the end of a string pushed and
  popped a delimiter, the others changed nothing; nor does a scan that fails.\<close>

theorem py_scan_stacks:
  assumes "ts_lexer E rest" and "py_wf s"
  shows "\<exists>b s' l'. py_scan E v s l = Some (b, s', l') \<and> py_wf s' \<and>
     (if b then py_may_report v (result_symbol l') \<and> py_effect (result_symbol l') s s' else s' = s)"
  by (rule runs_tripleD, rule runs_weaken [OF ts_lexer.runs_py_scan [OF assms]])
    (use assms(2) py_effect_wf in \<open>auto simp: py_post_def split: if_splits\<close>)

theorem py_scan_stacks_witness:
  "\<exists>b s' l'. py_scan list_env (\<lambda>t. t = NEWLINE) py_create (lex_string COMMENT (CHR 0x0A # '' x'')) = Some (b, s', l')
     \<and> py_wf s' \<and> (if b then py_may_report (\<lambda>t. t = NEWLINE) (result_symbol l') \<and> py_effect (result_symbol l') py_create s'
        else s' = py_create)"
  by (rule py_scan_stacks [OF ts_lexer_list_env]) (simp add: py_wf_def py_create_def)

text \<open>C0. At a line break followed by \<open>n\<close> blanks and a character that starts code, where indents, dedents
  and newlines may come, the token compares \<open>n\<close>, taken modulo 65536, with the innermost
  indentation: more is an indent, less a dedent, and as much is a newline.\<close>

theorem py_line_token:
  assumes "ts_lexer E rest" and "rest (raw l) = 10 # replicate n 32 @ c # ys" and "c \<notin> {0, 10, 32, 13, 12, 9, 35, 92}"
    and "v INDENT" "v DEDENT" "v NEWLINE" "\<not> v STRING_CONTENT" and "indents s \<noteq> []" "\<not> inside_interpolated_string s"
  shows "\<exists>s' l'. py_scan E v s l = Some (True, s', l') \<and>
     result_symbol l' = (if unat (last (indents s)) < n mod 65536 then INDENT
       else if n mod 65536 < unat (last (indents s)) then DEDENT else NEWLINE)"
proof -
  have w: "last (indents s) < of_nat n \<longleftrightarrow> unat (last (indents s)) < n mod 65536"
    "of_nat n < last (indents s) \<longleftrightarrow> n mod 65536 < unat (last (indents s))"
    by (simp_all add: word_less_nat_alt unat_of_nat)
  from ts_lexer.py_scan_new_line [OF assms] show ?thesis unfolding w .
qed

theorem py_line_token_witness:
  "\<exists>s' l'. py_scan list_env (\<lambda>t. t \<noteq> STRING_CONTENT) py_create (lex_string COMMENT (CHR 0x0A # ''  x'')) = Some (True, s', l')
     \<and> result_symbol l' = INDENT"
proof -
  have "ll_rest (raw (lex_string COMMENT (CHR 0x0A # ''  x''))) = 10 # replicate 2 32 @ 120 # []"
    by (simp add: lex_string_def numeral_2_eq_2)
  from py_line_token [OF ts_lexer_list_env this, of "\<lambda>t. t \<noteq> STRING_CONTENT" py_create]
  show ?thesis by (simp add: py_create_def)
qed

text \<open>C23. A Python scanner that fits in the buffer is restored exactly. Saving never writes more than 1025
  bytes, but with an odd number of open delimiters and enough indentations it does write
  the 1025th, one past the end of the buffer. And restoring from an empty buffer keeps the
  old flag for interpolated strings.\<close>

theorem py_serialize_roundtrip:
  assumes "py_saves s"
  shows "py_deserialize t (py_serialize s) = Some s
     \<and> length (py_serialize u) \<le> TREE_SITTER_SERIALIZATION_BUFFER_SIZE + 1
     \<and> (odd (min 255 (length (delimiters u))) \<and> 512 \<le> length (tl (indents u)) \<longrightarrow>
          length (py_serialize u) = TREE_SITTER_SERIALIZATION_BUFFER_SIZE + 1)
     \<and> py_deserialize u [] = Some (py_create\<lparr>inside_interpolated_string := inside_interpolated_string u\<rparr>)"
proof (intro conjI impI)
  let ?d = "min 255 (length (delimiters u))"
  have len: "length (py_serialize u) = 2 + ?d + 2 * min (length (tl (indents u))) ((1025 - (2 + ?d)) div 2)"
    by (simp add: py_serialize_def Let_def py_serialize_indents_length min.commute)
  have "2 * min m ((1025 - (2 + d)) div 2) \<le> 1025 - (2 + d)" for m d :: nat by linarith
  moreover have "2 + ?d \<le> 1025" by simp
  ultimately show "length (py_serialize u) \<le> TREE_SITTER_SERIALIZATION_BUFFER_SIZE + 1"
    unfolding len TREE_SITTER_SERIALIZATION_BUFFER_SIZE_def by linarith
  assume a: "odd ?d \<and> 512 \<le> length (tl (indents u))"
  then obtain k where k: "?d = 2 * k + 1" by (blast elim: oddE)
  then have "(1025 - (2 + ?d)) div 2 = 511 - k" "2 * k + 1 \<le> 255" by auto
  moreover have "min (length (tl (indents u))) (511 - k) = 511 - k"
    using a unfolding length_tl by (intro min_absorb2) linarith
  ultimately show "length (py_serialize u) = TREE_SITTER_SERIALIZATION_BUFFER_SIZE + 1"
    unfolding len k TREE_SITTER_SERIALIZATION_BUFFER_SIZE_def by simp
next
  show "py_deserialize t (py_serialize s) = Some s" by (rule py_restore [OF assms])
  show "py_deserialize u [] = Some (py_create\<lparr>inside_interpolated_string := inside_interpolated_string u\<rparr>)"
    by (simp add: py_deserialize_def py_create_def)
qed

theorem py_serialize_roundtrip_witness:
  "length (py_serialize \<lparr>indents = replicate 513 0, delimiters = [SingleQuote], inside_interpolated_string = False\<rparr>) = 1025"
proof -
  have "py_saves py_create"
    by (simp add: py_saves_def py_wf_def py_create_def TREE_SITTER_SERIALIZATION_BUFFER_SIZE_def)
  from py_serialize_roundtrip [OF this, of py_create "\<lparr>indents = replicate 513 0, delimiters = [SingleQuote], inside_interpolated_string = False\<rparr>"]
  show ?thesis by (simp add: TREE_SITTER_SERIALIZATION_BUFFER_SIZE_def tl_replicate)
qed

text \<open>In a raw string that starts with an escaped backslash and ends after it, the end token covers the
  two backslashes as well as the quote: the escape is stepped over without being counted
  as content, and the string has no content token.\<close>

lemma py_raw_string_loses_escape:
  assumes "ts_lexer_marks E rest pos token_end"
    and "rest (raw l) = 92 # 92 # end_character d # ys" and "delimiters s \<noteq> []" and "d = last (delimiters s)"
    and "is_raw d" "\<not> is_triple d" "end_character d \<notin> {0, 10, 13}"
    and "v STRING_CONTENT" "\<not> v INDENT"
  shows "\<exists>l'. py_scan E v s l = Some (True, py_string_end s, l') \<and> result_symbol l' = STRING_END
     \<and> token_end (raw l') = pos (raw l) + 3"
  using assms(2-) by (rule ts_lexer_marks.py_raw_string_escape [OF assms(1)])

end
