(* ===== verification/CSharp_Scanner.thy ===== *)
theory CSharp_Scanner
  imports TS_Serialize
begin

text \<open>
  The C# scanner, \<^verbatim>\<open>c-sharp/src/scanner.c\<close>: optional semicolons, raw strings and
  interpolated strings. Its state is the number of quotes of the raw string it is in and
  a stack of interpolated strings, the innermost last; every counter is a
  \<^verbatim>\<open>uint8_t\<close> and wraps.

  Shown here: the scan always returns, keeps the kinds of the open strings among the
  three that occur, and changes the state as the reported token says; a raw string that
  starts with \<open>m\<close> quotes is ended by \<open>n\<close> quotes exactly when they agree modulo 256; up to
  255 open strings are saved and restored exactly, more are lost.
\<close>

datatype cs_token =
    OPT_SEMI
  | INTERPOLATION_REGULAR_START
  | INTERPOLATION_VERBATIM_START
  | INTERPOLATION_RAW_START
  | INTERPOLATION_START_QUOTE
  | INTERPOLATION_END_QUOTE
  | INTERPOLATION_OPEN_BRACE
  | INTERPOLATION_CLOSE_BRACE
  | INTERPOLATION_STRING_CONTENT
  | RAW_STRING_START
  | RAW_STRING_END
  | RAW_STRING_CONTENT

type_synonym StringType = "32 word"

abbreviation REGULAR :: StringType where "REGULAR \<equiv> 1"
abbreviation VERBATIM :: StringType where "VERBATIM \<equiv> 2"
abbreviation RAW :: StringType where "RAW \<equiv> 4"

record Interpolation =
  dollar_count :: byte
  open_brace_count :: byte
  quote_count :: byte
  string_type :: StringType

definition cs_is_regular :: "Interpolation \<Rightarrow> bool" where
  "cs_is_regular interpolation \<longleftrightarrow> string_type interpolation AND REGULAR \<noteq> 0"

definition cs_is_verbatim :: "Interpolation \<Rightarrow> bool" where
  "cs_is_verbatim interpolation \<longleftrightarrow> string_type interpolation AND VERBATIM \<noteq> 0"

definition cs_is_raw :: "Interpolation \<Rightarrow> bool" where
  "cs_is_raw interpolation \<longleftrightarrow> string_type interpolation AND RAW \<noteq> 0"

text \<open>The field \<^verbatim>\<open>quote_count\<close> of the scanner is \<open>raw_quote_count\<close> here.\<close>

record cs_scanner =
  raw_quote_count :: byte
  interpolation_stack :: "Interpolation list"

type_synonym 'l cs_lexer = "('l, cs_token) TSLexer"
type_synonym 'l cs_result = "bool \<times> cs_scanner \<times> 'l cs_lexer"

section \<open>Saving\<close>

definition cs_create :: cs_scanner where
  "cs_create = \<lparr>raw_quote_count = 0, interpolation_stack = []\<rparr>"

definition cs_put_interpolation :: "Interpolation \<Rightarrow> byte list" where
  "cs_put_interpolation i = [dollar_count i, open_brace_count i, quote_count i, ucast (string_type i)]"

definition cs_serialize :: "cs_scanner \<Rightarrow> byte list" where
  "cs_serialize s =
     (if length (interpolation_stack s) * 4 + 2 > TREE_SITTER_SERIALIZATION_BUFFER_SIZE then []
      else [raw_quote_count s, of_nat (length (interpolation_stack s))]
        @ concat (map cs_put_interpolation (interpolation_stack s)))"

definition cs_get_interpolation :: "byte list \<Rightarrow> (Interpolation \<times> byte list) option" where
  "cs_get_interpolation buffer =
     do { (d, buffer) \<leftarrow> get8 buffer;
          (b, buffer) \<leftarrow> get8 buffer;
          (q, buffer) \<leftarrow> get8 buffer;
          (t, buffer) \<leftarrow> get8 buffer;
          Some (\<lparr>dollar_count = d, open_brace_count = b, quote_count = q, string_type = ucast t\<rparr>, buffer) }"

definition cs_deserialize :: "cs_scanner \<Rightarrow> byte list \<Rightarrow> cs_scanner option" where
  "cs_deserialize s buffer =
     (let s = s\<lparr>raw_quote_count := 0, interpolation_stack := []\<rparr> in
      if buffer \<noteq> [] then
        do { (q, buffer) \<leftarrow> get8 buffer;
             (n, buffer) \<leftarrow> get8 buffer;
             (is, buffer) \<leftarrow> get_many cs_get_interpolation (unat n) buffer;
             if buffer = [] then Some (s\<lparr>raw_quote_count := q, interpolation_stack := is\<rparr>) else None }
      else Some s)"

section \<open>Scanning\<close>

text \<open>\<^verbatim>\<open>while (lookahead == c) { advance; count++; }\<close>, and the same with a bound.\<close>

definition cs_count :: "'l env \<Rightarrow> int \<Rightarrow> byte \<Rightarrow> 'l cs_lexer \<Rightarrow> (byte \<times> 'l cs_lexer) option" where
  "cs_count E c n l =
     c_loop (\<lambda>(n, l). if lookahead E l = c then Some (Next (n + 1, advance E l)) else Some (Return (n, l))) (n, l)"

definition cs_count_below :: "'l env \<Rightarrow> int \<Rightarrow> byte \<Rightarrow> byte \<Rightarrow> 'l cs_lexer \<Rightarrow> (byte \<times> 'l cs_lexer) option" where
  "cs_count_below E c limit n l =
     c_loop (\<lambda>(n, l). if lookahead E l = c \<and> n < limit then Some (Next (n + 1, advance E l))
                     else Some (Return (n, l))) (n, l)"

definition cs_set_top :: "Interpolation \<Rightarrow> cs_scanner \<Rightarrow> cs_scanner" where
  "cs_set_top i s = s\<lparr>interpolation_stack := butlast (interpolation_stack s) @ [i]\<rparr>"

definition cs_push :: "Interpolation \<Rightarrow> cs_scanner \<Rightarrow> cs_scanner" where
  "cs_push i s = s\<lparr>interpolation_stack := interpolation_stack s @ [i]\<rparr>"

definition cs_pop :: "cs_scanner \<Rightarrow> cs_scanner" where
  "cs_pop s = s\<lparr>interpolation_stack := butlast (interpolation_stack s)\<rparr>"

text \<open>The locals the blocks of the scan function pass on: quotes, braces, did-advance and the lexer.\<close>

type_synonym 'l cs_locals = "byte \<times> byte \<times> bool \<times> 'l cs_lexer"
type_synonym 'l cs_block = "'l cs_locals \<Rightarrow> ('l cs_locals, 'l cs_result) flow option"

definition cs_optional_semi :: "'l env \<Rightarrow> (cs_token \<Rightarrow> bool) \<Rightarrow> cs_scanner \<Rightarrow> 'l cs_block" where
  "cs_optional_semi E valid_symbols s = (\<lambda>(q, b, d, l).
     if valid_symbols OPT_SEMI \<and> valid_symbols INTERPOLATION_REGULAR_START then Some (Return (False, s, l))
     else if valid_symbols OPT_SEMI then
       let l = set_symbol OPT_SEMI l in
       Some (Return (True, s, if lookahead E l = ch CHR '';'' then advance E l else l))
     else Some (Next (q, b, d, l)))"

definition cs_raw_string_start :: "'l env \<Rightarrow> (cs_token \<Rightarrow> bool) \<Rightarrow> cs_scanner \<Rightarrow> 'l cs_block" where
  "cs_raw_string_start E valid_symbols s = (\<lambda>(q, b, d, l).
     if valid_symbols RAW_STRING_START then
       do { l \<leftarrow> skip_while E (iswspace E) l;
            if lookahead E l = ch CHR 0x22 then
              do { (q, l) \<leftarrow> cs_count E (ch CHR 0x22) q l;
                   if q \<ge> 3 then Some (Return (True, s\<lparr>raw_quote_count := q\<rparr>, set_symbol RAW_STRING_START l))
                   else Some (Next (q, b, d, l)) }
            else Some (Next (q, b, d, l)) }
     else Some (Next (q, b, d, l)))"

definition cs_raw_string_end :: "'l env \<Rightarrow> (cs_token \<Rightarrow> bool) \<Rightarrow> cs_scanner \<Rightarrow> 'l cs_block" where
  "cs_raw_string_end E valid_symbols s = (\<lambda>(q, b, d, l).
     if valid_symbols RAW_STRING_END \<and> lookahead E l = ch CHR 0x22 then
       do { (q, l) \<leftarrow> cs_count E (ch CHR 0x22) q l;
            if q = raw_quote_count s
            then Some (Return (True, s\<lparr>raw_quote_count := 0\<rparr>, set_symbol RAW_STRING_END l))
            else Some (Next (q, b, q > 0, l)) }
     else Some (Next (q, b, d, l)))"

definition cs_raw_content_step :: "'l env \<Rightarrow> cs_scanner \<Rightarrow> 'l cs_lexer \<Rightarrow> ('l cs_lexer, 'l cs_result) flow option" where
  "cs_raw_content_step E s l =
     (if lookahead E l = 0 then Some (Return (True, s, set_symbol RAW_STRING_CONTENT (mark_end E l)))
      else if lookahead E l = ch CHR 0x22 then
        do { (q, l) \<leftarrow> cs_count E (ch CHR 0x22) 0 (mark_end E l);
             if q = raw_quote_count s then Some (Return (True, s, set_symbol RAW_STRING_CONTENT l))
             else Some (Next (advance E l)) }
      else Some (Next (advance E l)))"

definition cs_raw_string_content :: "'l env \<Rightarrow> (cs_token \<Rightarrow> bool) \<Rightarrow> cs_scanner \<Rightarrow> 'l cs_block" where
  "cs_raw_string_content E valid_symbols s = (\<lambda>(q, b, d, l).
     if valid_symbols RAW_STRING_CONTENT then map_option Return (c_loop (cs_raw_content_step E s) l)
     else Some (Next (q, b, d, l)))"

text \<open>The quotes after \<open>$\<close>: one opens a regular or verbatim string, three a raw one, two are an empty string.\<close>

definition cs_interpolation_quotes :: "'l env \<Rightarrow> cs_scanner \<Rightarrow> bool \<Rightarrow> byte \<Rightarrow> 'l cs_lexer \<Rightarrow> 'l cs_result" where
  "cs_interpolation_quotes E s is_verbatim dollar_advanced l =
     (let l = set_symbol INTERPOLATION_REGULAR_START l;
          interpolation = \<lparr>dollar_count = dollar_advanced, open_brace_count = 0, quote_count = 0, string_type = 0\<rparr>;
          at = (lookahead E l = ch CHR ''@'');
          (is_verbatim, interpolation, l) =
            (if is_verbatim \<or> at
             then (is_verbatim \<or> at, interpolation\<lparr>string_type := VERBATIM\<rparr>,
                   set_symbol INTERPOLATION_VERBATIM_START (if at then advance E l else l))
             else (is_verbatim, interpolation, l));
          l = advance E (mark_end E l) in
      if lookahead E l = ch CHR 0x22 \<and> \<not> is_verbatim then
        let l = advance E l in
        if lookahead E l = ch CHR 0x22
        then (True, cs_push (interpolation\<lparr>string_type := string_type interpolation OR RAW\<rparr>) s,
              set_symbol INTERPOLATION_RAW_START l)
        else (True, s, l)
      else (True, cs_push (interpolation\<lparr>string_type := string_type interpolation OR REGULAR\<rparr>) s, l))"

definition cs_interpolation_start :: "'l env \<Rightarrow> (cs_token \<Rightarrow> bool) \<Rightarrow> cs_scanner \<Rightarrow> 'l cs_block" where
  "cs_interpolation_start E valid_symbols s = (\<lambda>(q, b, d, l).
     if valid_symbols INTERPOLATION_REGULAR_START \<or> valid_symbols INTERPOLATION_VERBATIM_START
        \<or> valid_symbols INTERPOLATION_RAW_START then
       do { l \<leftarrow> skip_while E (iswspace E) l;
            let is_verbatim = (lookahead E l = ch CHR ''@'');
                l = (if is_verbatim then advance E l else l) in
            do { (dollar_advanced, l) \<leftarrow> (if q = 0 then cs_count E (ch CHR ''$'') 0 l else Some (0, l));
                 if dollar_advanced > 0 \<and> (lookahead E l = ch CHR 0x22 \<or> lookahead E l = ch CHR ''@'')
                 then Some (Return (cs_interpolation_quotes E s is_verbatim dollar_advanced l))
                 else Some (Next (q, b, d, l)) } }
     else Some (Next (q, b, d, l)))"

definition cs_interpolation_start_quote :: "'l env \<Rightarrow> (cs_token \<Rightarrow> bool) \<Rightarrow> cs_scanner \<Rightarrow> 'l cs_block" where
  "cs_interpolation_start_quote E valid_symbols s = (\<lambda>(q, b, d, l).
     if valid_symbols INTERPOLATION_START_QUOTE \<and> interpolation_stack s \<noteq> [] then
       let current = last (interpolation_stack s) in
       do { (n, l) \<leftarrow>
              (if cs_is_verbatim current \<or> cs_is_regular current then
                 Some (if lookahead E l = ch CHR 0x22 then (quote_count current + 1, advance E l) else (quote_count current, l))
               else cs_count E (ch CHR 0x22) (quote_count current) l);
            Some (Return (n > 0, cs_set_top (current\<lparr>quote_count := n\<rparr>) s, set_symbol INTERPOLATION_START_QUOTE l)) }
     else Some (Next (q, b, d, l)))"

definition cs_interpolation_end_quote :: "'l env \<Rightarrow> (cs_token \<Rightarrow> bool) \<Rightarrow> cs_scanner \<Rightarrow> 'l cs_block" where
  "cs_interpolation_end_quote E valid_symbols s = (\<lambda>(q, b, d, l).
     if valid_symbols INTERPOLATION_END_QUOTE \<and> interpolation_stack s \<noteq> [] then
       do { (q, l) \<leftarrow> cs_count E (ch CHR 0x22) q l;
            if q = quote_count (last (interpolation_stack s))
            then Some (Return (True, cs_pop s, set_symbol INTERPOLATION_END_QUOTE l))
            else Some (Next (q, b, q > 0, l)) }
     else Some (Next (q, b, d, l)))"

definition cs_interpolation_open_brace :: "'l env \<Rightarrow> (cs_token \<Rightarrow> bool) \<Rightarrow> cs_scanner \<Rightarrow> 'l cs_block" where
  "cs_interpolation_open_brace E valid_symbols s = (\<lambda>(q, b, d, l).
     if valid_symbols INTERPOLATION_OPEN_BRACE \<and> interpolation_stack s \<noteq> [] then
       let current = last (interpolation_stack s) in
       do { (b, l) \<leftarrow> cs_count_below E (ch CHR ''{'') (dollar_count current) b l;
            if b > 0 \<and> b = dollar_count current \<and> (b = 0 \<or> lookahead E l \<noteq> ch CHR ''{'')
            then Some (Return (True, cs_set_top (current\<lparr>open_brace_count := b\<rparr>) s,
                               set_symbol INTERPOLATION_OPEN_BRACE l))
            else Some (Next (q, b, d, l)) }
     else Some (Next (q, b, d, l)))"

definition cs_close_braces :: "'l env \<Rightarrow> cs_scanner \<Rightarrow> 'l cs_lexer \<Rightarrow> 'l cs_result option" where
  "cs_close_braces E s l =
     (let current = last (interpolation_stack s) in
      c_loop (\<lambda>(n, l).
        if lookahead E l = ch CHR ''}'' then
          let l = advance E l; n = n + 1 in
          if n = open_brace_count current
          then Some (Return (True, cs_set_top (current\<lparr>open_brace_count := 0\<rparr>) s, set_symbol INTERPOLATION_CLOSE_BRACE l))
          else Some (Next (n, l))
        else Some (Return (False, s, l))) (0 :: byte, l))"

definition cs_interpolation_close_brace :: "'l env \<Rightarrow> (cs_token \<Rightarrow> bool) \<Rightarrow> cs_scanner \<Rightarrow> 'l cs_block" where
  "cs_interpolation_close_brace E valid_symbols s = (\<lambda>(q, b, d, l).
     if valid_symbols INTERPOLATION_CLOSE_BRACE \<and> interpolation_stack s \<noteq> [] then
       do { l \<leftarrow> advance_while E (iswspace E) l; r \<leftarrow> cs_close_braces E s l; Some (Return r) }
     else Some (Next (q, b, d, l)))"

text \<open>Braces inside the content: stop the content in front of them, or go on behind them.\<close>

definition cs_content_braces :: "'l env \<Rightarrow> Interpolation \<Rightarrow> byte \<times> bool \<times> 'l cs_lexer \<Rightarrow>
    (byte \<times> bool \<times> 'l cs_lexer, bool \<times> 'l cs_lexer) flow option" where
  "cs_content_braces E current = (\<lambda>(b, d, l).
     if lookahead E l = ch CHR ''{'' then
       do { (b, l) \<leftarrow> cs_count_below E (ch CHR ''{'') (open_brace_count current) b (mark_end E l);
            if b = open_brace_count current \<and> (b = 0 \<or> lookahead E l \<noteq> ch CHR ''{'')
            then Some (Return (d, l)) else Some (Next (b, d, l)) }
     else Some (Next (b, d, l)))"

definition cs_content_raw_quotes :: "'l env \<Rightarrow> Interpolation \<Rightarrow> byte \<times> bool \<times> 'l cs_lexer \<Rightarrow>
    (byte \<times> bool \<times> 'l cs_lexer, bool \<times> 'l cs_lexer) flow option" where
  "cs_content_raw_quotes E current = (\<lambda>(b, d, l).
     if lookahead E l = ch CHR 0x22 then
       let l = advance E (mark_end E l) in
       if lookahead E l = ch CHR 0x22 then
         do { (n, l) \<leftarrow> cs_count E (ch CHR 0x22) 2 (advance E l);
              if n = quote_count current then Some (Return (d, l)) else Some (Next (b, d, l)) }
       else Some (Next (b, d, l))
     else Some (Next (b, d, l)))"

definition cs_content_advance :: "'l env \<Rightarrow> byte \<times> bool \<times> 'l cs_lexer \<Rightarrow>
    (byte \<times> bool \<times> 'l cs_lexer, bool \<times> 'l cs_lexer) flow option" where
  "cs_content_advance E = (\<lambda>(b, d, l).
     Some (Next (if lookahead E l \<noteq> ch CHR ''{'' then 0 else b, True, advance E l)))"

definition cs_content_step :: "'l env \<Rightarrow> Interpolation \<Rightarrow> byte \<times> bool \<times> 'l cs_lexer \<Rightarrow>
    (byte \<times> bool \<times> 'l cs_lexer, bool \<times> 'l cs_lexer) flow option" where
  "cs_content_step E current = (\<lambda>(b, d, l).
     if lookahead E l = 0 then Some (Return (d, mark_end E l))
     else if cs_is_raw current then
       and_then (and_then (cs_content_raw_quotes E current (b, d, l)) (cs_content_braces E current)) (cs_content_advance E)
     else if cs_is_verbatim current then
       if lookahead E l = ch CHR 0x22 then
         let l = advance E (mark_end E l) in
         if lookahead E l = ch CHR 0x22 then Some (Next (b, d, advance E l)) else Some (Return (d, l))
       else and_then (cs_content_braces E current (b, d, l)) (cs_content_advance E)
     else if cs_is_regular current then
       if lookahead E l = ch CHR 0x5C \<or> lookahead E l = ch CHR 0x0A \<or> lookahead E l = ch CHR 0x22
       then Some (Return (d, mark_end E l))
       else and_then (cs_content_braces E current (b, d, l)) (cs_content_advance E)
     else cs_content_advance E (b, d, l))"

definition cs_interpolation_content :: "'l env \<Rightarrow> (cs_token \<Rightarrow> bool) \<Rightarrow> cs_scanner \<Rightarrow> 'l cs_block" where
  "cs_interpolation_content E valid_symbols s = (\<lambda>(q, b, d, l).
     if valid_symbols INTERPOLATION_STRING_CONTENT \<and> interpolation_stack s \<noteq> [] then
       do { (d, l) \<leftarrow> c_loop (cs_content_step E (last (interpolation_stack s)))
                       (b, d, set_symbol INTERPOLATION_STRING_CONTENT l);
            Some (Return (d, s, l)) }
     else Some (Next (q, b, d, l)))"

definition cs_scan :: "'l env \<Rightarrow> (cs_token \<Rightarrow> bool) \<Rightarrow> cs_scanner \<Rightarrow> 'l cs_lexer \<Rightarrow> 'l cs_result option" where
  "cs_scan E valid_symbols s l =
     then_return
       (and_then (and_then (and_then (and_then (and_then (and_then (and_then (and_then (and_then
          (cs_optional_semi E valid_symbols s (0, 0, False, l))
          (cs_raw_string_start E valid_symbols s))
          (cs_raw_string_end E valid_symbols s))
          (cs_raw_string_content E valid_symbols s))
          (cs_interpolation_start E valid_symbols s))
          (cs_interpolation_start_quote E valid_symbols s))
          (cs_interpolation_end_quote E valid_symbols s))
          (cs_interpolation_open_brace E valid_symbols s))
          (cs_interpolation_close_brace E valid_symbols s))
          (cs_interpolation_content E valid_symbols s))
       (\<lambda>(q, b, d, l). Some (False, s, l))"

section \<open>The stack of interpolated strings\<close>

text \<open>Three kinds of strings occur; verbatim ones are marked regular as well.\<close>

definition cs_wf_interpolation :: "Interpolation \<Rightarrow> bool" where
  "cs_wf_interpolation i \<longleftrightarrow> string_type i \<in> {REGULAR, VERBATIM OR REGULAR, RAW}
     \<and> dollar_count i \<noteq> 0 \<and> open_brace_count i \<in> {0, dollar_count i}"

definition cs_wf :: "cs_scanner \<Rightarrow> bool" where
  "cs_wf s \<longleftrightarrow> (\<forall>i\<in>set (interpolation_stack s). cs_wf_interpolation i)"

definition cs_new :: "StringType \<Rightarrow> Interpolation \<Rightarrow> bool" where
  "cs_new t i \<longleftrightarrow> string_type i = t \<and> dollar_count i \<noteq> 0 \<and> open_brace_count i = 0 \<and> quote_count i = 0"

text \<open>What a token means for the state, and which tokens a scan may report.\<close>

definition cs_effect :: "cs_token \<Rightarrow> cs_scanner \<Rightarrow> cs_scanner \<Rightarrow> bool" where
  "cs_effect t s s' =
     (case t of
        RAW_STRING_START \<Rightarrow> \<exists>q\<ge>3. s' = s\<lparr>raw_quote_count := q\<rparr>
      | RAW_STRING_END \<Rightarrow> s' = s\<lparr>raw_quote_count := 0\<rparr>
      | INTERPOLATION_REGULAR_START \<Rightarrow> s' = s \<or> (\<exists>i. cs_new REGULAR i \<and> s' = cs_push i s)
      | INTERPOLATION_VERBATIM_START \<Rightarrow> \<exists>i. cs_new (VERBATIM OR REGULAR) i \<and> s' = cs_push i s
      | INTERPOLATION_RAW_START \<Rightarrow> \<exists>i. cs_new RAW i \<and> s' = cs_push i s
      | INTERPOLATION_START_QUOTE \<Rightarrow> interpolation_stack s \<noteq> [] \<and>
          (\<exists>n>0. s' = cs_set_top ((last (interpolation_stack s))\<lparr>quote_count := n\<rparr>) s)
      | INTERPOLATION_END_QUOTE \<Rightarrow> interpolation_stack s \<noteq> [] \<and> s' = cs_pop s
      | INTERPOLATION_OPEN_BRACE \<Rightarrow> interpolation_stack s \<noteq> [] \<and>
          s' = cs_set_top ((last (interpolation_stack s))\<lparr>open_brace_count := dollar_count (last (interpolation_stack s))\<rparr>) s
      | INTERPOLATION_CLOSE_BRACE \<Rightarrow> interpolation_stack s \<noteq> [] \<and>
          s' = cs_set_top ((last (interpolation_stack s))\<lparr>open_brace_count := 0\<rparr>) s
      | _ \<Rightarrow> s' = s)"

definition cs_may_report :: "(cs_token \<Rightarrow> bool) \<Rightarrow> cs_token \<Rightarrow> bool" where
  "cs_may_report v t =
     (if t \<in> {INTERPOLATION_REGULAR_START, INTERPOLATION_VERBATIM_START, INTERPOLATION_RAW_START}
      then v INTERPOLATION_REGULAR_START \<or> v INTERPOLATION_VERBATIM_START \<or> v INTERPOLATION_RAW_START
      else v t)"

text \<open>What a scan leaves that reports no token: the state as it was, or the state with the quotes of the
  innermost string counted as zero.\<close>

definition cs_unreported :: "(cs_token \<Rightarrow> bool) \<Rightarrow> cs_scanner \<Rightarrow> cs_scanner \<Rightarrow> bool" where
  "cs_unreported v s s' \<longleftrightarrow> s' = s
     \<or> v INTERPOLATION_START_QUOTE \<and> interpolation_stack s \<noteq> []
       \<and> s' = cs_set_top ((last (interpolation_stack s))\<lparr>quote_count := 0\<rparr>) s"

definition cs_post :: "(cs_token \<Rightarrow> bool) \<Rightarrow> cs_scanner \<Rightarrow> 'l cs_result \<Rightarrow> bool" where
  "cs_post v s r \<longleftrightarrow> (case r of (b, s', l') \<Rightarrow>
     if b then cs_may_report v (result_symbol l') \<and> cs_effect (result_symbol l') s s' else cs_unreported v s s')"

lemma cs_unreported_refl [simp]: "cs_unreported v s s"
  by (simp add: cs_unreported_def)

lemma cs_post_simps [simp]:
  "cs_post v s (False, s', l) \<longleftrightarrow> cs_unreported v s s'"
  "cs_post v s (True, s', l) \<longleftrightarrow> cs_may_report v (result_symbol l) \<and> cs_effect (result_symbol l) s s'"
  by (simp_all add: cs_post_def)

lemma cs_wf_interpolation_ops [simp]:
  "cs_wf_interpolation (i\<lparr>quote_count := n\<rparr>) = cs_wf_interpolation i"
  "cs_wf_interpolation i \<Longrightarrow> cs_wf_interpolation (i\<lparr>open_brace_count := 0\<rparr>)"
  "cs_wf_interpolation i \<Longrightarrow> cs_wf_interpolation (i\<lparr>open_brace_count := dollar_count i\<rparr>)"
  "cs_new t i \<Longrightarrow> t \<in> {REGULAR, VERBATIM OR REGULAR, RAW} \<Longrightarrow> cs_wf_interpolation i"
  by (auto simp: cs_wf_interpolation_def cs_new_def)

lemma cs_wf_ops [simp]:
  "cs_wf s \<Longrightarrow> cs_wf_interpolation i \<Longrightarrow> cs_wf (cs_push i s)"
  "cs_wf s \<Longrightarrow> cs_wf_interpolation i \<Longrightarrow> cs_wf (cs_set_top i s)"
  "cs_wf s \<Longrightarrow> cs_wf (cs_pop s)"
  "cs_wf (s\<lparr>raw_quote_count := q\<rparr>) = cs_wf s"
  "cs_wf s \<Longrightarrow> interpolation_stack s \<noteq> [] \<Longrightarrow> cs_wf_interpolation (last (interpolation_stack s))"
  by (auto simp: cs_wf_def cs_push_def cs_set_top_def cs_pop_def dest: in_set_butlastD)

lemma cs_effect_wf: "cs_wf s \<Longrightarrow> cs_effect t s s' \<Longrightarrow> cs_wf s'"
  by (cases t) (auto simp: cs_effect_def)

lemma cs_unreported_wf: "cs_wf s \<Longrightarrow> cs_unreported v s s' \<Longrightarrow> cs_wf s'"
  by (auto simp: cs_unreported_def)

context ts_lexer
begin

lemma runs_cs_count:
  assumes "c \<noteq> 0"
  shows "runs (cs_count E c n l) (\<lambda>(n', l').
     n' = n + of_nat (length (takeWhile (\<lambda>x. x = c) (rest (raw l))))
     \<and> rest (raw l') = dropWhile (\<lambda>x. x = c) (rest (raw l))
     \<and> remaining l' \<le> remaining l \<and> result_symbol l' = result_symbol l)"
  unfolding cs_count_def
proof (rule runs_c_loop [where m = "\<lambda>(n, l'). remaining l'"
      and I = "\<lambda>(n', l'). n' + of_nat (length (takeWhile (\<lambda>x. x = c) (rest (raw l'))))
           = n + of_nat (length (takeWhile (\<lambda>x. x = c) (rest (raw l))))
         \<and> dropWhile (\<lambda>x. x = c) (rest (raw l')) = dropWhile (\<lambda>x. x = c) (rest (raw l))
         \<and> remaining l' \<le> remaining l \<and> result_symbol l' = result_symbol l"], goal_cases)
  case (2 x)
  obtain n' l' where x: "x = (n', l')" by (cases x)
  show ?case using 2 assms unfolding x by (cases "rest (raw l')") (auto simp: ac_simps)
qed simp

lemma runs_cs_count_le:
  assumes "c \<noteq> 0"
  shows "runs (cs_count E c n l) (\<lambda>(n', l'). remaining l' \<le> remaining l \<and> result_symbol l' = result_symbol l)"
  by (rule runs_weaken [OF runs_cs_count [OF assms]]) auto

lemma runs_cs_count_below:
  assumes "c \<noteq> 0"
  shows "runs (cs_count_below E c k n l) (\<lambda>(n', l'). remaining l' \<le> remaining l \<and> result_symbol l' = result_symbol l)"
  unfolding cs_count_below_def
  by (rule runs_c_loop [where m = "\<lambda>(n, l'). remaining l'"
        and I = "\<lambda>(n', l'). remaining l' \<le> remaining l \<and> result_symbol l' = result_symbol l"])
    (use assms in auto)

lemma runs_cs_optional_semi:
  "runs (cs_optional_semi E v s x) (case_flow (\<lambda>_. True) (cs_post v s))"
  by (auto simp: cs_optional_semi_def Let_def cs_may_report_def cs_effect_def split: prod.splits)

lemma runs_cs_raw_string_start:
  "runs (cs_raw_string_start E v s x) (case_flow (\<lambda>_. True) (cs_post v s))"
  by (auto simp: cs_raw_string_start_def cs_may_report_def cs_effect_def split: prod.splits
      intro!: wp_while_le runs_weaken [OF runs_cs_count_le])

lemma runs_cs_raw_string_end:
  "runs (cs_raw_string_end E v s x) (case_flow (\<lambda>_. True) (cs_post v s))"
  by (auto simp: cs_raw_string_end_def cs_may_report_def cs_effect_def split: prod.splits
      intro!: runs_weaken [OF runs_cs_count_le])

lemma runs_cs_raw_content_loop:
  "runs (c_loop (cs_raw_content_step E s) l) (\<lambda>(b, s', l'). b \<and> s' = s \<and> result_symbol l' = RAW_STRING_CONTENT)"
proof (rule runs_c_loop [where m = remaining and I = "\<lambda>_. True"], goal_cases)
  case (2 l)
  show ?case
  proof (cases "lookahead E l = 0")
    case False
    then have pos: "0 < remaining l" by (rule remaining_pos)
    then have less: "remaining l' \<le> remaining l \<Longrightarrow> remaining l' - Suc 0 < remaining l" for l' :: "('l, cs_token) TSLexer"
      by linarith
    then show ?thesis
      using False by (auto simp: cs_raw_content_step_def intro!: runs_weaken [OF runs_cs_count_le])
  qed (simp add: cs_raw_content_step_def)
qed simp

lemma runs_cs_raw_string_content:
  "runs (cs_raw_string_content E v s x) (case_flow (\<lambda>_. True) (cs_post v s))"
  by (auto simp: cs_raw_string_content_def cs_may_report_def cs_effect_def split: prod.splits
      intro!: runs_weaken [OF runs_cs_raw_content_loop])

lemma cs_interpolation_quotes_post:
  assumes "d \<noteq> 0" and "v INTERPOLATION_REGULAR_START \<or> v INTERPOLATION_VERBATIM_START \<or> v INTERPOLATION_RAW_START"
  shows "cs_post v s (cs_interpolation_quotes E s is_verbatim d l)"
proof -
  have new: "cs_new t \<lparr>dollar_count = d, open_brace_count = 0, quote_count = 0, string_type = t\<rparr>" for t
    using assms(1) by (simp add: cs_new_def)
  show ?thesis
    using assms(2) new [of REGULAR] new [of "VERBATIM OR REGULAR"] new [of RAW]
    by (auto simp: cs_interpolation_quotes_def Let_def cs_may_report_def cs_effect_def)
qed

lemma runs_cs_interpolation_start:
  "runs (cs_interpolation_start E v s x) (case_flow (\<lambda>_. True) (cs_post v s))"
proof -
  have q: "cs_post v s (cs_interpolation_quotes E s iv d l)"
    if "0 < d" "v INTERPOLATION_REGULAR_START \<or> v INTERPOLATION_VERBATIM_START \<or> v INTERPOLATION_RAW_START" for iv d l
    using that by (intro cs_interpolation_quotes_post) auto
  show ?thesis
    by (auto simp: cs_interpolation_start_def Let_def split: prod.splits
        intro!: wp_while_le runs_weaken [OF runs_cs_count_le] q)
qed

lemma runs_cs_interpolation_start_quote:
  "runs (cs_interpolation_start_quote E v s x) (case_flow (\<lambda>_. True) (cs_post v s))"
proof -
  have post: "cs_post v s (0 < n, cs_set_top ((last (interpolation_stack s))\<lparr>quote_count := n\<rparr>) s, set_symbol INTERPOLATION_START_QUOTE l)"
    if "v INTERPOLATION_START_QUOTE" "interpolation_stack s \<noteq> []" for n and l :: "('l, cs_token) TSLexer"
    using that by (auto simp: cs_post_def cs_unreported_def cs_may_report_def cs_effect_def word_neq_0_conv [symmetric])
  show ?thesis
    by (auto simp: cs_interpolation_start_quote_def Let_def post split: prod.splits
        intro!: runs_weaken [OF runs_cs_count_le])
qed

lemma runs_cs_interpolation_end_quote:
  "runs (cs_interpolation_end_quote E v s x) (case_flow (\<lambda>_. True) (cs_post v s))"
  by (auto simp: cs_interpolation_end_quote_def cs_may_report_def cs_effect_def split: prod.splits
      intro!: runs_weaken [OF runs_cs_count_le])

lemma runs_cs_interpolation_open_brace:
  "runs (cs_interpolation_open_brace E v s x) (case_flow (\<lambda>_. True) (cs_post v s))"
  by (auto simp: cs_interpolation_open_brace_def Let_def cs_may_report_def cs_effect_def split: prod.splits
      intro!: runs_weaken [OF runs_cs_count_below])

lemma runs_cs_close_braces:
  "v INTERPOLATION_CLOSE_BRACE \<Longrightarrow> interpolation_stack s \<noteq> [] \<Longrightarrow> runs (cs_close_braces E s l) (cs_post v s)"
  unfolding cs_close_braces_def Let_def
  by (rule runs_c_loop [where m = "\<lambda>(n, l'). remaining l'" and I = "\<lambda>_. True"])
    (auto simp: cs_may_report_def cs_effect_def)

lemma runs_cs_interpolation_close_brace:
  "runs (cs_interpolation_close_brace E v s x) (case_flow (\<lambda>_. True) (cs_post v s))"
  by (auto simp: cs_interpolation_close_brace_def split: prod.splits
      intro!: wp_while_le runs_weaken [OF runs_cs_close_braces [of v]])

text \<open>The content loop: every part reads on and leaves the token alone.\<close>

lemma runs_cs_content_parts:
  "runs (cs_content_braces E i (b, d, l)) (case_flow
     (\<lambda>(b', d', l'). remaining l' \<le> remaining l \<and> result_symbol l' = result_symbol l)
     (\<lambda>(d', l'). result_symbol l' = result_symbol l))"
  "runs (cs_content_raw_quotes E i (b, d, l)) (case_flow
     (\<lambda>(b', d', l'). remaining l' \<le> remaining l \<and> result_symbol l' = result_symbol l)
     (\<lambda>(d', l'). result_symbol l' = result_symbol l))"
  by (auto simp: cs_content_braces_def cs_content_raw_quotes_def Let_def
      intro!: runs_weaken [OF runs_cs_count_below] runs_weaken [OF runs_cs_count_le])

lemma runs_cs_content_step:
  "runs (cs_content_step E i (b, d, l)) (case_flow
     (\<lambda>(b', d', l'). remaining l' < remaining l \<and> result_symbol l' = result_symbol l)
     (\<lambda>(d', l'). result_symbol l' = result_symbol l))"
proof (cases "lookahead E l = 0")
  case False
  then have "0 < remaining l" by (rule remaining_pos)
  then have less: "remaining l' \<le> remaining l \<Longrightarrow> remaining l' - Suc n < remaining l" for n and l' :: "('l, cs_token) TSLexer"
    by linarith
  let ?I = "\<lambda>(b', d', l'). remaining l' \<le> remaining l \<and> result_symbol l' = result_symbol l"
  let ?Q = "\<lambda>(d' :: bool, l'). result_symbol l' = result_symbol l"
  let ?J = "\<lambda>(b', d', l'). remaining l' < remaining l \<and> result_symbol l' = result_symbol l"
  have adv: "runs (cs_content_advance E y) (case_flow ?J ?Q)" if "?I y" for y
    using that less by (auto simp: cs_content_advance_def split: prod.splits)
  have braces: "runs (cs_content_braces E i y) (case_flow ?I ?Q)" if "?I y" for y
    using that by (cases y) (auto intro!: runs_weaken [OF runs_cs_content_parts(1)] split: flow.splits)
  have quotes: "runs (cs_content_raw_quotes E i (b, d, l)) (case_flow ?I ?Q)"
    by (rule runs_cs_content_parts(2))
  have raw: "runs (and_then (and_then (cs_content_raw_quotes E i (b, d, l)) (cs_content_braces E i)) (cs_content_advance E)) (case_flow ?J ?Q)"
    by (rule runs_and_then_inv [OF runs_and_then_inv [OF quotes braces] adv])
  have other: "runs (and_then (cs_content_braces E i (b, d, l)) (cs_content_advance E)) (case_flow ?J ?Q)"
    by (rule runs_and_then_inv [OF runs_cs_content_parts(1) adv])
  show ?thesis
    using False raw other adv [of "(b, d, l)"] less [of l]
    by (simp add: cs_content_step_def Let_def del: runs_and_then)
qed (simp add: cs_content_step_def)

lemma runs_cs_interpolation_content:
  "runs (cs_interpolation_content E v s x) (case_flow (\<lambda>_. True) (cs_post v s))"
proof -
  have loop: "runs (c_loop (cs_content_step E i) (b, d, l)) (\<lambda>(d', l'). result_symbol l' = result_symbol l)" for i b d l
  proof (rule runs_c_loop [where m = "\<lambda>(b, d, l'). remaining l'" and I = "\<lambda>(b, d, l'). result_symbol l' = result_symbol l"], goal_cases)
    case (2 y)
    then show ?case by (cases y) (auto intro!: runs_weaken [OF runs_cs_content_step] split: flow.splits)
  qed simp
  show ?thesis
    by (auto simp: cs_interpolation_content_def cs_post_def cs_may_report_def cs_effect_def split: prod.splits
        intro!: runs_weaken [OF loop])
qed

lemma runs_cs_scan: "runs (cs_scan E v s l) (cs_post v s)"
  unfolding cs_scan_def
  by (rule runs_then_return_inv [where I = "\<lambda>_. True"], (rule runs_and_then_inv [where I = "\<lambda>_. True"])+,
      rule runs_cs_optional_semi, rule runs_cs_raw_string_start, rule runs_cs_raw_string_end,
      rule runs_cs_raw_string_content, rule runs_cs_interpolation_start, rule runs_cs_interpolation_start_quote,
      rule runs_cs_interpolation_end_quote, rule runs_cs_interpolation_open_brace,
      rule runs_cs_interpolation_close_brace, rule runs_cs_interpolation_content) (auto split: prod.splits)

text \<open>Opening and closing quotes of a raw string.\<close>

lemma runs_cs_raw_open:
  assumes "rest (raw l) = replicate m 34 @ ys" and "ys = [] \<or> hd ys \<noteq> 34" and "3 \<le> m mod 256" and "v RAW_STRING_START" "\<not> v OPT_SEMI"
  shows "runs (cs_scan E v s l) (\<lambda>(b, s', l'). b \<and> s' = s\<lparr>raw_quote_count := of_nat m\<rparr>
     \<and> result_symbol l' = RAW_STRING_START \<and> rest (raw l') = ys)"
proof -
  have tw: "takeWhile (\<lambda>x. x = 34) (replicate m 34 @ ys) = replicate m 34" "dropWhile (\<lambda>x. x = 34) (replicate m 34 @ ys) = ys"
    using assms(2) by (cases ys; simp add: takeWhile_append dropWhile_append)+
  obtain k where k: "m = Suc k" using assms(3) by (cases m) auto
  have sp: "dropWhile (iswspace E) (replicate m 34 @ ys) = replicate m 34 @ ys" by (simp add: k iswspace_def)
  have q: "(3 :: byte) \<le> of_nat m" using assms(3) by (simp add: word_le_nat_alt unat_of_nat)
  have cnt: "runs (cs_count E 34 0 l') (\<lambda>(n, l2). n = of_nat m \<and> rest (raw l2) = ys)" if "rest (raw l') = replicate m 34 @ ys" for l'
    by (rule runs_weaken [OF runs_cs_count]) (use that tw in auto)
  have start: "runs (cs_raw_string_start E v s (0, b, d, l)) (\<lambda>x. case x of Next _ \<Rightarrow> False
      | Return (r, s', l') \<Rightarrow> r \<and> s' = s\<lparr>raw_quote_count := of_nat m\<rparr> \<and> result_symbol l' = RAW_STRING_START \<and> rest (raw l') = ys)" for b d
    unfolding cs_raw_string_start_def prod.case if_P [OF assms(4)] runs_bind
  proof (rule wp_skip_while, goal_cases)
    case (2 l')
    then have l': "rest (raw l') = replicate m 34 @ ys" unfolding assms(1) sp by simp
    then have "lookahead E l' = 34" by (simp add: k)
    then show ?case using q by (auto intro!: runs_weaken [OF cnt [OF l']])
  qed simp
  show ?thesis
    unfolding cs_scan_def using assms(5)
    by (auto simp: cs_optional_semi_def intro!: runs_weaken [OF start] split: flow.splits)
qed

lemma runs_cs_raw_close:
  assumes "rest (raw l) = replicate n 34 @ zs" and "zs = [] \<or> hd zs \<noteq> 34" and "0 < n"
    and "\<And>t. v t \<longleftrightarrow> t = RAW_STRING_END"
  shows "runs (cs_scan E v s l) (\<lambda>(b, s', l'). b \<longleftrightarrow> of_nat n = raw_quote_count s)"
proof -
  have tw: "takeWhile (\<lambda>x. x = 34) (replicate n 34 @ zs) = replicate n 34"
    using assms(2) by (cases zs) (simp_all add: takeWhile_append)
  have cnt: "runs (cs_count E 34 0 l) (\<lambda>(k, l2). k = of_nat n)"
    by (rule runs_weaken [OF runs_cs_count]) (use assms(1) tw in auto)
  have la: "lookahead E l = 34" using assms(1,3) by (cases n) simp_all
  show ?thesis
    unfolding cs_scan_def
    by (auto simp: cs_optional_semi_def cs_raw_string_start_def cs_raw_string_end_def cs_raw_string_content_def
        cs_interpolation_start_def cs_interpolation_start_quote_def cs_interpolation_end_quote_def
        cs_interpolation_open_brace_def cs_interpolation_close_brace_def cs_interpolation_content_def assms(4) la
        intro!: runs_weaken [OF cnt])
qed

end

section \<open>Saving and restoring\<close>

definition cs_saves :: "cs_scanner \<Rightarrow> bool" where
  "cs_saves s \<longleftrightarrow> cs_wf s \<and> length (interpolation_stack s) \<le> 255"

lemma cs_get_put: "cs_wf_interpolation i \<Longrightarrow> cs_get_interpolation (cs_put_interpolation i @ xs) = Some (i, xs)"
  by (cases i) (auto simp: cs_get_interpolation_def cs_put_interpolation_def cs_wf_interpolation_def)

lemma cs_restore:
  assumes "cs_saves s"
  shows "cs_deserialize t (cs_serialize s) = Some s"
proof -
  let ?is = "interpolation_stack s"
  from assms have n: "length ?is \<le> 255" and wf: "\<And>i. i \<in> set ?is \<Longrightarrow> cs_wf_interpolation i"
    by (auto simp: cs_saves_def cs_wf_def)
  have u: "unat (of_nat (length ?is) :: 8 word) = length ?is" using n by (intro unat_of_nat_8) simp
  have "get_many cs_get_interpolation (length ?is) (concat (map cs_put_interpolation ?is)) = Some (?is, [])"
    using get_many_concat [of ?is cs_get_interpolation cs_put_interpolation "[]"] cs_get_put wf by simp
  with n u show ?thesis
    by (simp add: cs_serialize_def cs_deserialize_def Let_def TREE_SITTER_SERIALIZATION_BUFFER_SIZE_def)
qed

interpretation cs: resettable_scanner cs_serialize cs_deserialize cs_saves "\<lambda>s. s" cs_create
proof
  have "length (concat (map cs_put_interpolation is)) = 4 * length is" for "is"
    by (induction "is") (simp_all add: cs_put_interpolation_def)
  then show "length (cs_serialize s) \<le> TREE_SITTER_SERIALIZATION_BUFFER_SIZE" for s
    by (simp add: cs_serialize_def TREE_SITTER_SERIALIZATION_BUFFER_SIZE_def)
  show "\<exists>s'. cs_deserialize t [] = Some s' \<and> s' = cs_create" for t
    by (simp add: cs_deserialize_def cs_create_def)
qed (simp add: cs_restore)

section \<open>Properties\<close>

text \<open>C15. The C# scan returns on every input and keeps the stack of interpolated strings well formed:
  each string is regular, verbatim (and regular) or raw, never verbatim and raw, and its
  count of open braces is zero or its number of dollar signs. A reported token may come
  there and says what happened to the state. A scan that reports nothing leaves the state as it was,
  except that, where the opening quotes of an interpolated string are valid, it may have counted
  those of the innermost one as zero.\<close>

theorem cs_scan_stack:
  assumes "ts_lexer E rest" and "cs_wf s"
  shows "\<exists>b s' l'. cs_scan E v s l = Some (b, s', l') \<and> cs_wf s' \<and>
     (if b then cs_may_report v (result_symbol l') \<and> cs_effect (result_symbol l') s s' else cs_unreported v s s')"
  by (rule runs_tripleD, rule runs_weaken [OF ts_lexer.runs_cs_scan [OF assms(1)]])
    (use assms(2) in \<open>auto simp: cs_post_def dest: cs_effect_wf cs_unreported_wf split: if_splits\<close>)

theorem cs_scan_stack_witness:
  "\<exists>b s' l'. cs_scan list_env (\<lambda>t. t = INTERPOLATION_REGULAR_START) cs_create (lex_string OPT_SEMI [CHR ''$'', CHR 0x22])
      = Some (b, s', l') \<and> cs_wf s' \<and>
     (if b then cs_may_report (\<lambda>t. t = INTERPOLATION_REGULAR_START) (result_symbol l')
        \<and> cs_effect (result_symbol l') cs_create s'
      else cs_unreported (\<lambda>t. t = INTERPOLATION_REGULAR_START) cs_create s')"
  by (rule cs_scan_stack [OF ts_lexer_list_env]) (simp add: cs_wf_def cs_create_def)

text \<open>A raw string that starts with \<open>m\<close> quotes is ended by a run of \<open>n\<close> quotes exactly when \<open>m\<close> and \<open>n\<close>
  agree modulo 256, because the counters are bytes. (The start is recognised when \<open>m\<close>
  modulo 256 is at least three.)\<close>

lemma cs_raw_quotes_match_mod_256:
  assumes "ts_lexer E rest" and "rest (raw l) = replicate m 34 @ ys" and "ys = [] \<or> hd ys \<noteq> 34" and "3 \<le> m mod 256"
    and "v RAW_STRING_START" "\<not> v OPT_SEMI"
    and "rest (raw l2) = replicate n 34 @ zs" and "zs = [] \<or> hd zs \<noteq> 34" and "0 < n"
    and "\<And>t. v2 t \<longleftrightarrow> t = RAW_STRING_END"
  shows "\<exists>s' l' s2 l2'. cs_scan E v s l = Some (True, s', l') \<and> result_symbol l' = RAW_STRING_START \<and>
     cs_scan E v2 s' l2 = Some (m mod 256 = n mod 256, s2, l2')"
proof -
  let ?s = "s\<lparr>raw_quote_count := of_nat m\<rparr>"
  from runs_tripleD [OF ts_lexer.runs_cs_raw_open [OF assms(1-6)], of s]
  obtain l' where "cs_scan E v s l = Some (True, ?s, l')" "result_symbol l' = RAW_STRING_START" by auto
  moreover from runs_tripleD [OF ts_lexer.runs_cs_raw_close [OF assms(1,7-10)], of ?s]
  obtain b s2 l2' where "cs_scan E v2 ?s l2 = Some (b, s2, l2')" "b \<longleftrightarrow> of_nat n = (of_nat m :: byte)" by auto
  moreover have "of_nat n = (of_nat m :: byte) \<longleftrightarrow> m mod 256 = n mod 256"
    by (auto simp: word_unat_eq_iff unat_of_nat)
  ultimately show ?thesis by auto
qed

text \<open>A C# scanner with at most 255 open interpolated strings is restored exactly; with more, nothing
  is saved and the restored scanner is a new one.\<close>

lemma cs_serialize_roundtrip:
  assumes "cs_wf s"
  shows "cs_deserialize t (cs_serialize s) = Some (if length (interpolation_stack s) \<le> 255 then s else cs_create)"
proof (cases "length (interpolation_stack s) \<le> 255")
  case True
  with assms show ?thesis by (simp add: cs_restore cs_saves_def)
next
  case False
  then have "cs_serialize s = []" by (simp add: cs_serialize_def TREE_SITTER_SERIALIZATION_BUFFER_SIZE_def)
  with False show ?thesis by (simp add: cs_deserialize_def cs_create_def)
qed

end
