(* ===== verification/Hcl_Scanner.thy ===== *)
theory Hcl_Scanner
  imports TS_Serialize
begin

text \<open>
  The HCL (Terraform) scanner, \<^verbatim>\<open>hcl/src/scanner.c\<close>: quoted templates, heredocs and
  the interpolations and directives inside them. Its state is a stack of contexts, the
  innermost last; a heredoc context holds the bytes of its identifier.

  Shown here: the scan always returns, pops only contexts of the kind the token closes
  and changes the stack as the reported token says; a heredoc is closed by its identifier
  exactly when the identifier is ASCII; contexts that fit in the buffer are saved and
  restored, otherwise all of them are lost.
\<close>

datatype hcl_token =
    QUOTED_TEMPLATE_START
  | QUOTED_TEMPLATE_END
  | TEMPLATE_LITERAL_CHUNK
  | TEMPLATE_INTERPOLATION_START
  | TEMPLATE_INTERPOLATION_END
  | TEMPLATE_DIRECTIVE_START
  | TEMPLATE_DIRECTIVE_END
  | HEREDOC_IDENTIFIER

datatype ContextType = TEMPLATE_INTERPOLATION | TEMPLATE_DIRECTIVE | QUOTED_TEMPLATE | HEREDOC_TEMPLATE

record Context =
  type :: ContextType
  heredoc_identifier :: "byte list"

record hcl_scanner =
  context_stack :: "Context list"

type_synonym 'l hcl_lexer = "('l, hcl_token) TSLexer"
type_synonym 'l hcl_result = "bool \<times> hcl_scanner \<times> 'l hcl_lexer"

definition hcl_create :: hcl_scanner where
  "hcl_create = \<lparr>context_stack = []\<rparr>"

section \<open>Saving\<close>

text \<open>The values of the enumeration; a value outside it is the outcome \<open>None\<close> of the decoder.\<close>

fun context_code :: "ContextType \<Rightarrow> 32 word" where
  "context_code TEMPLATE_INTERPOLATION = 0"
| "context_code TEMPLATE_DIRECTIVE = 1"
| "context_code QUOTED_TEMPLATE = 2"
| "context_code HEREDOC_TEMPLATE = 3"

definition context_of_code :: "32 word \<Rightarrow> ContextType option" where
  "context_of_code w =
     (if w = 0 then Some TEMPLATE_INTERPOLATION else if w = 1 then Some TEMPLATE_DIRECTIVE
      else if w = 2 then Some QUOTED_TEMPLATE else if w = 3 then Some HEREDOC_TEMPLATE else None)"

definition hcl_put_context :: "Context \<Rightarrow> byte list" where
  "hcl_put_context c =
     le32 (context_code (type c)) @ le32 (of_nat (length (heredoc_identifier c))) @ heredoc_identifier c"

text \<open>The loop over the contexts; \<open>None\<close> where the function returns 0.\<close>

fun hcl_put_contexts :: "nat \<Rightarrow> Context list \<Rightarrow> byte list option" where
  "hcl_put_contexts sz [] = Some []"
| "hcl_put_contexts sz (c # cs) =
     (if sz + 4 + 4 + length (heredoc_identifier c) \<ge> TREE_SITTER_SERIALIZATION_BUFFER_SIZE then None
      else if length (heredoc_identifier c) > 127 then None
      else do { bs \<leftarrow> hcl_put_contexts (sz + length (hcl_put_context c)) cs; Some (hcl_put_context c @ bs) })"

definition hcl_serialize :: "hcl_scanner \<Rightarrow> byte list" where
  "hcl_serialize s =
     (if length (context_stack s) > 127 then []
      else
        (case hcl_put_contexts 4 (context_stack s) of
           None \<Rightarrow> []
         | Some bs \<Rightarrow> le32 (of_nat (length (context_stack s))) @ bs))"

definition hcl_get_context :: "byte list \<Rightarrow> (Context \<times> byte list) option" where
  "hcl_get_context buffer =
     do { (t, buffer) \<leftarrow> get32 buffer;
          t \<leftarrow> context_of_code t;
          (n, buffer) \<leftarrow> get32 buffer;
          (identifier, buffer) \<leftarrow> get_bytes (unat n) buffer;
          Some (\<lparr>type = t, heredoc_identifier = identifier\<rparr>, buffer) }"

definition hcl_deserialize :: "hcl_scanner \<Rightarrow> byte list \<Rightarrow> hcl_scanner option" where
  "hcl_deserialize s buffer =
     (let s = s\<lparr>context_stack := []\<rparr> in
      if buffer = [] then Some s
      else
        do { (n, buffer) \<leftarrow> get32 buffer;
             (cs, buffer) \<leftarrow> get_many hcl_get_context (unat n) buffer;
             if buffer = [] then Some (s\<lparr>context_stack := cs\<rparr>) else None })"

section \<open>Scanning\<close>

definition hcl_accept_and_advance :: "'l env \<Rightarrow> 'l hcl_lexer \<Rightarrow> hcl_token \<Rightarrow> 'l hcl_lexer" where
  "hcl_accept_and_advance E l token = set_symbol token (advance E l)"

text \<open>Advance and look for a hexadecimal digit, \<open>n\<close> times.\<close>

fun hcl_consume_wxdigits :: "'l env \<Rightarrow> nat \<Rightarrow> 'l hcl_lexer \<Rightarrow> bool \<times> 'l hcl_lexer" where
  "hcl_consume_wxdigits E 0 l = (True, l)"
| "hcl_consume_wxdigits E (Suc n) l =
     (let l = advance E l in
      if iswxdigit E (lookahead E l) then hcl_consume_wxdigits E n l else (False, l))"

definition hcl_skip_comment :: "'l env \<Rightarrow> 'l hcl_lexer \<Rightarrow> (bool \<times> 'l hcl_lexer) option" where
  "hcl_skip_comment E l =
     do { l \<leftarrow> skip_while E (iswspace E) l;
          if lookahead E l \<noteq> ch CHR ''#'' then Some (False, l)
          else
            c_loop (\<lambda>l.
              if lookahead E l \<noteq> ch CHR 0x0A then
                let l = skip E l in if eof E l then Some (Return (False, l)) else Some (Next l)
              else Some (Return (True, l))) (skip E l) }"

definition hcl_in_context_type :: "hcl_scanner \<Rightarrow> ContextType \<Rightarrow> bool" where
  "hcl_in_context_type s t \<longleftrightarrow> context_stack s \<noteq> [] \<and> type (last (context_stack s)) = t"

abbreviation hcl_in_quoted_context :: "hcl_scanner \<Rightarrow> bool" where
  "hcl_in_quoted_context s \<equiv> hcl_in_context_type s QUOTED_TEMPLATE"

abbreviation hcl_in_heredoc_context :: "hcl_scanner \<Rightarrow> bool" where
  "hcl_in_heredoc_context s \<equiv> hcl_in_context_type s HEREDOC_TEMPLATE"

definition hcl_in_template_context :: "hcl_scanner \<Rightarrow> bool" where
  "hcl_in_template_context s \<longleftrightarrow> hcl_in_quoted_context s \<or> hcl_in_heredoc_context s"

definition hcl_push :: "ContextType \<Rightarrow> byte list \<Rightarrow> hcl_scanner \<Rightarrow> hcl_scanner" where
  "hcl_push t identifier s =
     s\<lparr>context_stack := context_stack s @ [\<lparr>type = t, heredoc_identifier = identifier\<rparr>]\<rparr>"

definition hcl_pop :: "hcl_scanner \<Rightarrow> hcl_scanner option" where
  "hcl_pop s = (if context_stack s = [] then None else Some (s\<lparr>context_stack := butlast (context_stack s)\<rparr>))"

text \<open>The loop over leading white space, which notes line feeds.\<close>

definition hcl_skip_whitespace :: "'l env \<Rightarrow> 'l hcl_lexer \<Rightarrow> (bool \<times> 'l hcl_lexer) option" where
  "hcl_skip_whitespace E l =
     c_loop (\<lambda>(newline, l).
       if iswspace E (lookahead E l)
       then Some (Next (newline \<or> lookahead E l = ch CHR 0x0A, skip E l))
       else Some (Return (newline, l))) (False, l)"

text \<open>An opening brace after a dollar or per cent sign, or an escaped one.\<close>

definition hcl_scan_template_start ::
  "'l env \<Rightarrow> int \<Rightarrow> ContextType \<Rightarrow> hcl_token \<Rightarrow> hcl_scanner \<Rightarrow> 'l hcl_lexer \<Rightarrow> 'l hcl_result" where
  "hcl_scan_template_start E c t token s l =
     (let l = advance E l in
      if lookahead E l = ch CHR ''{'' then (True, hcl_push t [] s, hcl_accept_and_advance E l token)
      else if lookahead E l = c then
        let l = advance E l in
        if lookahead E l = ch CHR ''{'' then (True, s, hcl_accept_and_advance E l TEMPLATE_LITERAL_CHUNK)
        else (True, s, set_symbol TEMPLATE_LITERAL_CHUNK l)
      else (True, s, set_symbol TEMPLATE_LITERAL_CHUNK l))"

definition hcl_close :: "'l env \<Rightarrow> hcl_token \<Rightarrow> hcl_scanner \<Rightarrow> 'l hcl_lexer \<Rightarrow> 'l hcl_result option" where
  "hcl_close E token s l = do { s \<leftarrow> hcl_pop s; Some (True, s, hcl_accept_and_advance E l token) }"

definition hcl_scan_brackets :: "'l env \<Rightarrow> (hcl_token \<Rightarrow> bool) \<Rightarrow> hcl_scanner \<Rightarrow> 'l hcl_lexer \<Rightarrow>
    ('l hcl_lexer, 'l hcl_result) flow option" where
  "hcl_scan_brackets E valid_symbols s l =
     (if valid_symbols QUOTED_TEMPLATE_START \<and> \<not> hcl_in_quoted_context s \<and> lookahead E l = ch CHR 0x22
      then Some (Return (True, hcl_push QUOTED_TEMPLATE [] s, hcl_accept_and_advance E l QUOTED_TEMPLATE_START))
      else if valid_symbols QUOTED_TEMPLATE_END \<and> hcl_in_quoted_context s \<and> lookahead E l = ch CHR 0x22
      then map_option Return (hcl_close E QUOTED_TEMPLATE_END s l)
      else if valid_symbols TEMPLATE_INTERPOLATION_START \<and> valid_symbols TEMPLATE_LITERAL_CHUNK
           \<and> \<not> hcl_in_context_type s TEMPLATE_INTERPOLATION \<and> lookahead E l = ch CHR ''$''
      then Some (Return (hcl_scan_template_start E (ch CHR ''$'') TEMPLATE_INTERPOLATION TEMPLATE_INTERPOLATION_START s l))
      else if valid_symbols TEMPLATE_INTERPOLATION_END \<and> hcl_in_context_type s TEMPLATE_INTERPOLATION
           \<and> lookahead E l = ch CHR ''}''
      then map_option Return (hcl_close E TEMPLATE_INTERPOLATION_END s l)
      else if valid_symbols TEMPLATE_DIRECTIVE_START \<and> valid_symbols TEMPLATE_LITERAL_CHUNK
           \<and> \<not> hcl_in_context_type s TEMPLATE_DIRECTIVE \<and> lookahead E l = ch CHR ''%''
      then Some (Return (hcl_scan_template_start E (ch CHR ''%'') TEMPLATE_DIRECTIVE TEMPLATE_DIRECTIVE_START s l))
      else if valid_symbols TEMPLATE_DIRECTIVE_END \<and> hcl_in_context_type s TEMPLATE_DIRECTIVE
           \<and> lookahead E l = ch CHR ''}''
      then map_option Return (hcl_close E TEMPLATE_DIRECTIVE_END s l)
      else Some (Next l))"

definition hcl_scan_identifier :: "'l env \<Rightarrow> 'l hcl_lexer \<Rightarrow> (byte list \<times> 'l hcl_lexer) option" where
  "hcl_scan_identifier E l =
     c_loop (\<lambda>(identifier, l).
       if iswalnum E (lookahead E l) \<or> lookahead E l = ch CHR ''_'' \<or> lookahead E l = ch CHR ''-''
       then Some (Next (identifier @ [word_of_int (lookahead E l)], advance E l))
       else Some (Return (identifier, l))) ([], l)"

text \<open>A byte of the identifier is a signed \<^verbatim>\<open>char\<close> when it is compared.\<close>

fun hcl_match_identifier :: "'l env \<Rightarrow> byte list \<Rightarrow> 'l hcl_lexer \<Rightarrow> bool \<times> 'l hcl_lexer" where
  "hcl_match_identifier E [] l = (True, l)"
| "hcl_match_identifier E (b # bs) l =
     (if lookahead E l = sint b then hcl_match_identifier E bs (advance E l) else (False, l))"

definition hcl_scan_heredoc_end :: "'l env \<Rightarrow> hcl_scanner \<Rightarrow> 'l hcl_lexer \<Rightarrow> 'l hcl_result option" where
  "hcl_scan_heredoc_end E s l =
     (case hcl_match_identifier E (heredoc_identifier (last (context_stack s))) l of
        (False, l) \<Rightarrow> Some (True, s, set_symbol TEMPLATE_LITERAL_CHUNK l)
      | (True, l) \<Rightarrow>
          do { l \<leftarrow> advance_while E (\<lambda>c. iswspace E c \<and> c \<noteq> ch CHR 0x0A) (mark_end E l);
               if lookahead E l = ch CHR 0x0A
               then do { s \<leftarrow> hcl_pop s; Some (True, s, set_symbol HEREDOC_IDENTIFIER l) }
               else Some (True, s, set_symbol TEMPLATE_LITERAL_CHUNK (mark_end E (advance E l))) })"

definition hcl_scan_heredoc :: "'l env \<Rightarrow> (hcl_token \<Rightarrow> bool) \<Rightarrow> bool \<Rightarrow> hcl_scanner \<Rightarrow> 'l hcl_lexer \<Rightarrow>
    ('l hcl_lexer, 'l hcl_result) flow option" where
  "hcl_scan_heredoc E valid_symbols newline s l =
     (if valid_symbols HEREDOC_IDENTIFIER \<and> \<not> hcl_in_heredoc_context s
      then do { (identifier, l) \<leftarrow> hcl_scan_identifier E l;
                Some (Return (True, hcl_push HEREDOC_TEMPLATE identifier s, set_symbol HEREDOC_IDENTIFIER l)) }
      else if valid_symbols HEREDOC_IDENTIFIER \<and> hcl_in_heredoc_context s \<and> newline
      then map_option Return (hcl_scan_heredoc_end E s l)
      else Some (Next l))"

text \<open>An escape sequence of a quoted template, behind the backslash.\<close>

definition hcl_scan_escape :: "'l env \<Rightarrow> hcl_scanner \<Rightarrow> 'l hcl_lexer \<Rightarrow> 'l hcl_result" where
  "hcl_scan_escape E s l =
     (let c = lookahead E l;
          digits = (\<lambda>n. case hcl_consume_wxdigits E n l of
            (b, l) \<Rightarrow> if b then (True, s, hcl_accept_and_advance E l TEMPLATE_LITERAL_CHUNK) else (False, s, l)) in
      if c = ch CHR 0x22 \<or> c = ch CHR ''n'' \<or> c = ch CHR ''r'' \<or> c = ch CHR ''t'' \<or> c = ch CHR 0x5C
      then (True, s, hcl_accept_and_advance E l TEMPLATE_LITERAL_CHUNK)
      else if c = ch CHR ''u'' then digits 4
      else if c = ch CHR ''U'' then digits 8
      else (False, s, l))"

definition hcl_scan_literal :: "'l env \<Rightarrow> (hcl_token \<Rightarrow> bool) \<Rightarrow> hcl_scanner \<Rightarrow> 'l hcl_lexer \<Rightarrow> 'l hcl_result" where
  "hcl_scan_literal E valid_symbols s l =
     (if valid_symbols TEMPLATE_LITERAL_CHUNK \<and> hcl_in_quoted_context s \<and> lookahead E l = ch CHR 0x5C
      then hcl_scan_escape E s (advance E l)
      else if valid_symbols TEMPLATE_LITERAL_CHUNK \<and> hcl_in_template_context s
      then (True, s, hcl_accept_and_advance E l TEMPLATE_LITERAL_CHUNK)
      else (False, s, l))"

definition hcl_scan :: "'l env \<Rightarrow> (hcl_token \<Rightarrow> bool) \<Rightarrow> hcl_scanner \<Rightarrow> 'l hcl_lexer \<Rightarrow> 'l hcl_result option" where
  "hcl_scan E valid_symbols s l =
     do { (newline, l) \<leftarrow> hcl_skip_whitespace E l;
          if lookahead E l = 0 then Some (False, s, l)
          else
            then_return
              (and_then (hcl_scan_brackets E valid_symbols s l) (hcl_scan_heredoc E valid_symbols newline s))
              (\<lambda>l. Some (hcl_scan_literal E valid_symbols s l)) }"

section \<open>The stack of contexts\<close>

definition hcl_pops :: "ContextType \<Rightarrow> hcl_scanner \<Rightarrow> hcl_scanner \<Rightarrow> bool" where
  "hcl_pops t s s' \<longleftrightarrow> (\<exists>c. type c = t \<and> context_stack s = context_stack s' @ [c])"

definition hcl_effect :: "hcl_token \<Rightarrow> hcl_scanner \<Rightarrow> hcl_scanner \<Rightarrow> bool" where
  "hcl_effect t s s' =
     (case t of
        QUOTED_TEMPLATE_START \<Rightarrow> s' = hcl_push QUOTED_TEMPLATE [] s \<and> \<not> hcl_in_quoted_context s
      | QUOTED_TEMPLATE_END \<Rightarrow> hcl_pops QUOTED_TEMPLATE s s'
      | TEMPLATE_INTERPOLATION_START \<Rightarrow> s' = hcl_push TEMPLATE_INTERPOLATION [] s
      | TEMPLATE_INTERPOLATION_END \<Rightarrow> hcl_pops TEMPLATE_INTERPOLATION s s'
      | TEMPLATE_DIRECTIVE_START \<Rightarrow> s' = hcl_push TEMPLATE_DIRECTIVE [] s
      | TEMPLATE_DIRECTIVE_END \<Rightarrow> hcl_pops TEMPLATE_DIRECTIVE s s'
      | HEREDOC_IDENTIFIER \<Rightarrow>
          if hcl_in_heredoc_context s then hcl_pops HEREDOC_TEMPLATE s s'
          else \<exists>identifier. s' = hcl_push HEREDOC_TEMPLATE identifier s
      | TEMPLATE_LITERAL_CHUNK \<Rightarrow> s' = s)"

text \<open>A literal chunk is also what a failed end of a heredoc gives.\<close>

definition hcl_may_report :: "(hcl_token \<Rightarrow> bool) \<Rightarrow> hcl_token \<Rightarrow> bool" where
  "hcl_may_report v t \<longleftrightarrow> v t \<or> t = TEMPLATE_LITERAL_CHUNK \<and> v HEREDOC_IDENTIFIER"

definition hcl_post :: "(hcl_token \<Rightarrow> bool) \<Rightarrow> hcl_scanner \<Rightarrow> 'l hcl_result \<Rightarrow> bool" where
  "hcl_post v s r \<longleftrightarrow> (case r of (b, s', l') \<Rightarrow>
     if b then hcl_may_report v (result_symbol l') \<and> hcl_effect (result_symbol l') s s' else s' = s)"

lemma hcl_post_simps [simp]:
  "hcl_post v s (False, s', l) \<longleftrightarrow> s' = s"
  "hcl_post v s (True, s', l) \<longleftrightarrow> hcl_may_report v (result_symbol l) \<and> hcl_effect (result_symbol l) s s'"
  by (simp_all add: hcl_post_def)

lemma hcl_pop_runs:
  "hcl_in_context_type s t \<Longrightarrow> (\<And>s'. hcl_pops t s s' \<Longrightarrow> Q s') \<Longrightarrow> runs (hcl_pop s) Q"
proof -
  assume "hcl_in_context_type s t" and Q: "\<And>s'. hcl_pops t s s' \<Longrightarrow> Q s'"
  then have ne: "context_stack s \<noteq> []" and "hcl_pops t s (s\<lparr>context_stack := butlast (context_stack s)\<rparr>)"
    by (auto simp: hcl_in_context_type_def hcl_pops_def intro!: exI [of _ "last (context_stack s)"])
  with Q show ?thesis by (simp add: hcl_pop_def)
qed

context ts_lexer
begin

lemma hcl_accept_symbol [simp]: "result_symbol (hcl_accept_and_advance E l t) = t"
  by (simp add: hcl_accept_and_advance_def)

lemma runs_hcl_skip_whitespace:
  "runs (hcl_skip_whitespace E l) (\<lambda>(n, l'). n = (10 \<in> set (takeWhile (iswspace E) (rest (raw l))))
     \<and> rest (raw l') = dropWhile (iswspace E) (rest (raw l)))"
  unfolding hcl_skip_whitespace_def
proof (rule runs_c_loop [where m = "\<lambda>(n, l'). remaining l'"
      and I = "\<lambda>(n, l'). (n \<or> 10 \<in> set (takeWhile (iswspace E) (rest (raw l')))) = (10 \<in> set (takeWhile (iswspace E) (rest (raw l))))
         \<and> dropWhile (iswspace E) (rest (raw l')) = dropWhile (iswspace E) (rest (raw l))"], goal_cases)
  case (2 x)
  obtain n l' where x: "x = (n, l')" by (cases x)
  show ?case using 2 unfolding x by (cases "rest (raw l')") auto
qed simp

lemma runs_hcl_scan_identifier:
  "runs (hcl_scan_identifier E l) (\<lambda>(w, l').
     w = map word_of_int (takeWhile (\<lambda>c. iswalnum E c \<or> c = 95 \<or> c = 45) (rest (raw l)))
     \<and> rest (raw l') = dropWhile (\<lambda>c. iswalnum E c \<or> c = 95 \<or> c = 45) (rest (raw l)))"
  unfolding hcl_scan_identifier_def
proof (rule runs_c_loop [where m = "\<lambda>(n, l'). remaining l'"
      and I = "\<lambda>(n, l'). n @ map word_of_int (takeWhile (\<lambda>c. iswalnum E c \<or> c = 95 \<or> c = 45) (rest (raw l')))
          = map word_of_int (takeWhile (\<lambda>c. iswalnum E c \<or> c = 95 \<or> c = 45) (rest (raw l)))
        \<and> dropWhile (\<lambda>c. iswalnum E c \<or> c = 95 \<or> c = 45) (rest (raw l')) = dropWhile (\<lambda>c. iswalnum E c \<or> c = 95 \<or> c = 45) (rest (raw l))"], goal_cases)
  case (2 x)
  obtain n l' where x: "x = (n, l')" by (cases x)
  show ?case using 2 unfolding x by (cases "rest (raw l')") auto
qed simp

lemma runs_hcl_skip_comment: "runs (hcl_skip_comment E l) (\<lambda>_. True)"
  unfolding hcl_skip_comment_def runs_bind
proof (rule wp_skip_while, goal_cases)
  case (2 l1)
  show ?case
    by (auto simp: Let_def intro!: runs_c_loop [where m = remaining and I = "\<lambda>_. True"])
qed simp

lemma runs_hcl_scan_brackets:
  "runs (hcl_scan_brackets E v s l) (case_flow (\<lambda>_. True) (hcl_post v s))"
proof -
  have start: "hcl_post v s (hcl_scan_template_start E c t token s l)"
    if "v token" "v TEMPLATE_LITERAL_CHUNK"
      "(t, token) \<in> {(TEMPLATE_INTERPOLATION, TEMPLATE_INTERPOLATION_START), (TEMPLATE_DIRECTIVE, TEMPLATE_DIRECTIVE_START)}" for c t token
    using that by (auto simp: hcl_scan_template_start_def Let_def hcl_may_report_def hcl_effect_def)
  have close: "runs (hcl_close E token s l) (hcl_post v s)"
    if "v token" "hcl_in_context_type s t" "(t, token) \<in> {(TEMPLATE_INTERPOLATION, TEMPLATE_INTERPOLATION_END),
        (TEMPLATE_DIRECTIVE, TEMPLATE_DIRECTIVE_END), (QUOTED_TEMPLATE, QUOTED_TEMPLATE_END)}" for t token
    using that by (auto simp: hcl_close_def hcl_may_report_def hcl_effect_def intro: hcl_pop_runs)
  have quote: "hcl_post v s (True, hcl_push QUOTED_TEMPLATE [] s, hcl_accept_and_advance E l QUOTED_TEMPLATE_START)"
    if "v QUOTED_TEMPLATE_START" "\<not> hcl_in_quoted_context s"
    using that by (simp add: hcl_may_report_def hcl_effect_def)
  show ?thesis
    unfolding hcl_scan_brackets_def runs_if runs_map_option runs_Some flow.case
    by (intro conjI impI TrueI; (elim conjE)?; (rule quote start close)?; (assumption | simp)?)
qed

lemma runs_hcl_scan_heredoc_end:
  assumes "hcl_in_heredoc_context s" and "v HEREDOC_IDENTIFIER"
  shows "runs (hcl_scan_heredoc_end E s l) (hcl_post v s)"
proof -
  have chunk: "hcl_post v s (True, s, l)" if "result_symbol l = TEMPLATE_LITERAL_CHUNK" for l :: "('l, hcl_token) TSLexer"
    using that assms by (simp add: hcl_may_report_def hcl_effect_def)
  have pop: "runs (hcl_pop s) (\<lambda>s'. hcl_post v s (True, s', l))" if "result_symbol l = HEREDOC_IDENTIFIER"
    for l :: "('l, hcl_token) TSLexer"
    by (rule hcl_pop_runs [OF assms(1)]) (use that assms in \<open>simp add: hcl_may_report_def hcl_effect_def\<close>)
  show ?thesis
    unfolding hcl_scan_heredoc_end_def
    by (auto simp del: hcl_post_simps simp: chunk pop split: prod.splits bool.splits intro!: wp_while_le)
qed

lemma runs_hcl_scan_heredoc:
  "runs (hcl_scan_heredoc E v n s l) (case_flow (\<lambda>_. True) (hcl_post v s))"
  using runs_hcl_scan_heredoc_end [of s v l]
  by (auto simp: hcl_scan_heredoc_def hcl_may_report_def hcl_effect_def intro!: runs_weaken [OF runs_hcl_scan_identifier])

lemma hcl_scan_literal_post: "hcl_post v s (hcl_scan_literal E v s l)"
  by (auto simp: hcl_scan_literal_def hcl_scan_escape_def Let_def hcl_may_report_def hcl_effect_def split: prod.splits
      simp del: hcl_consume_wxdigits.simps)

lemma runs_hcl_scan: "runs (hcl_scan E v s l) (hcl_post v s)"
proof -
  have "runs (then_return (and_then (hcl_scan_brackets E v s l) (hcl_scan_heredoc E v n s))
      (\<lambda>l. Some (hcl_scan_literal E v s l))) (hcl_post v s)" for n l
    by (rule runs_then_return_inv [where I = "\<lambda>_. True"], rule runs_and_then_inv [where I = "\<lambda>_. True"],
        rule runs_hcl_scan_brackets, rule runs_hcl_scan_heredoc) (simp add: hcl_scan_literal_post)
  then show ?thesis
    unfolding hcl_scan_def runs_bind
    by (intro runs_weaken [OF runs_hcl_skip_whitespace]) (simp add: split_def del: runs_then_return)
qed

text \<open>The identifier of a heredoc is compared byte by byte as signed characters.\<close>

lemma hcl_match_identifier_spec:
  assumes "rest (raw l) = w @ zs" and "\<forall>c\<in>set w. 0 < c"
  shows "\<exists>l'. hcl_match_identifier E (map word_of_int w) l = (\<forall>c\<in>set w. c < 128, l')
     \<and> ((\<forall>c\<in>set w. c < 128) \<longrightarrow> rest (raw l') = zs)"
  using assms
proof (induction w arbitrary: l)
  case (Cons c w)
  have la: "lookahead E l = c" and l: "rest (raw (advance E l)) = w @ zs" using Cons.prems by simp_all
  have s: "sint (word_of_int c :: byte) = c \<longleftrightarrow> c < 128"
  proof
    assume "sint (word_of_int c :: byte) = c"
    moreover have "sint (b :: byte) < 128" for b using sint_lt [of b] by simp
    ultimately show "c < 128" by metis
  next
    assume "c < 128"
    moreover have "0 < c" using Cons.prems(2) by simp
    ultimately show "sint (word_of_int c :: byte) = c"
      by (simp add: signed_of_int signed_take_bit_int_eq_self_iff)
  qed
  show ?case
  proof (cases "c < 128")
    case True
    with Cons.IH [OF l] Cons.prems(2) la s show ?thesis by auto
  next
    case False
    with la s have "hcl_match_identifier E (map word_of_int (c # w)) l = (False, l)" by auto
    with False show ?thesis by auto
  qed
qed simp

lemma runs_hcl_heredoc_end:
  assumes "rest (raw l) = 10 # w @ 10 # ys" and "w \<noteq> []" and "\<forall>c\<in>set w. 0 < c \<and> \<not> iswspace E c"
    and "c = \<lparr>type = HEREDOC_TEMPLATE, heredoc_identifier = map word_of_int w\<rparr>" and "context_stack s = cs @ [c]"
    and "\<And>t. v t \<longleftrightarrow> t = HEREDOC_IDENTIFIER \<or> t = TEMPLATE_LITERAL_CHUNK"
  shows "runs (hcl_scan E v s l) (\<lambda>(b, s', l'). b \<and>
     (if \<forall>c\<in>set w. c < 128 then result_symbol l' = HEREDOC_IDENTIFIER \<and> context_stack s' = cs
      else result_symbol l' = TEMPLATE_LITERAL_CHUNK \<and> s' = s))"
proof -
  obtain x xs where w: "w = x # xs" using assms(2) by (cases w) auto
  have sp: "iswspace E 10" by (simp add: iswspace_def)
  have drop: "dropWhile (iswspace E) (rest (raw l)) = w @ 10 # ys" "10 \<in> set (takeWhile (iswspace E) (rest (raw l)))"
    using assms(1,3) w sp by simp_all
  have here: "hcl_in_heredoc_context s" "\<not> hcl_in_quoted_context s" "last (context_stack s) = c"
    using assms(4,5) by (simp_all add: hcl_in_context_type_def)
  have fin: "runs (hcl_scan_heredoc_end E s l1) (\<lambda>(b, s', l'). b \<and>
     (if \<forall>c\<in>set w. c < 128 then result_symbol l' = HEREDOC_IDENTIFIER \<and> context_stack s' = cs
      else result_symbol l' = TEMPLATE_LITERAL_CHUNK \<and> s' = s))" if l1: "rest (raw l1) = w @ 10 # ys" for l1
  proof -
    from hcl_match_identifier_spec [OF l1] assms(3) obtain l2 where
      l2: "hcl_match_identifier E (map word_of_int w) l1 = (\<forall>c\<in>set w. c < 128, l2)"
        "(\<forall>c\<in>set w. c < 128) \<longrightarrow> rest (raw l2) = 10 # ys" by auto
    show ?thesis
    proof (cases "\<forall>c\<in>set w. c < 128")
      case True
      with l2 have "rest (raw l2) = 10 # ys" by simp
      then have "runs (advance_while E (\<lambda>c. iswspace E c \<and> c \<noteq> ch CHR 0x0A) (mark_end E l2))
          (\<lambda>l3. lookahead E l3 = 10)"
        by (intro wp_advance_while) (auto intro: lookahead_Cons sym)
      with True l2(1) here(3) assms(4,5) show ?thesis
        by (auto simp: hcl_scan_heredoc_end_def hcl_pop_def elim!: runs_weaken)
    next
      case False
      with l2(1) here(3) assms(4) show ?thesis by (simp add: hcl_scan_heredoc_end_def)
    qed
  qed
  show ?thesis
    unfolding hcl_scan_def runs_bind
  proof (rule runs_weaken [OF runs_hcl_skip_whitespace])
    fix r :: "bool \<times> ('l, hcl_token) TSLexer"
    assume "case r of (n, l') \<Rightarrow> n = (10 \<in> set (takeWhile (iswspace E) (rest (raw l))))
        \<and> rest (raw l') = dropWhile (iswspace E) (rest (raw l))"
    then obtain l1 where r: "r = (True, l1)" "rest (raw l1) = w @ 10 # ys" using drop by (cases r) auto
    then have "lookahead E l1 \<noteq> 0" using w assms(3) by auto
    with r fin [OF r(2)] here assms(6) show "runs (case r of (newline, l) \<Rightarrow> if lookahead E l = 0 then Some (False, s, l)
        else then_return (and_then (hcl_scan_brackets E v s l) (hcl_scan_heredoc E v newline s))
          (\<lambda>l. Some (hcl_scan_literal E v s l))) (\<lambda>(b, s', l'). b \<and>
     (if \<forall>c\<in>set w. c < 128 then result_symbol l' = HEREDOC_IDENTIFIER \<and> context_stack s' = cs
      else result_symbol l' = TEMPLATE_LITERAL_CHUNK \<and> s' = s))"
      by (simp add: hcl_scan_brackets_def hcl_scan_heredoc_def)
  qed
qed

end

section \<open>Saving and restoring\<close>

lemma hcl_put_contexts_spec:
  assumes "sz < 1024"
  shows "hcl_put_contexts sz cs =
     (if sz + length (concat (map hcl_put_context cs)) < 1024 \<and> (\<forall>c\<in>set cs. length (heredoc_identifier c) \<le> 127)
      then Some (concat (map hcl_put_context cs)) else None)"
  using assms
proof (induction sz cs rule: hcl_put_contexts.induct)
  case (2 sz c cs)
  have len: "length (hcl_put_context c) = 8 + length (heredoc_identifier c)" by (simp add: hcl_put_context_def)
  show ?case
  proof (cases "sz + 4 + 4 + length (heredoc_identifier c) \<ge> 1024 \<or> length (heredoc_identifier c) > 127")
    case True
    then have "hcl_put_contexts sz (c # cs) = None" by (auto simp: TREE_SITTER_SERIALIZATION_BUFFER_SIZE_def)
    moreover have "\<not> (sz + length (concat (map hcl_put_context (c # cs))) < 1024
        \<and> (\<forall>c\<in>set (c # cs). length (heredoc_identifier c) \<le> 127))" using True len by auto
    ultimately show ?thesis by (simp only: if_False)
  next
    case False
    then have f: "\<not> sz + 4 + 4 + length (heredoc_identifier c) \<ge> 1024" "\<not> length (heredoc_identifier c) > 127" by auto
    have "hcl_put_contexts (sz + length (hcl_put_context c)) cs =
       (if sz + length (hcl_put_context c) + length (concat (map hcl_put_context cs)) < 1024
           \<and> (\<forall>c\<in>set cs. length (heredoc_identifier c) \<le> 127)
        then Some (concat (map hcl_put_context cs)) else None)"
      by (rule 2(1)) (use f len in \<open>simp_all add: TREE_SITTER_SERIALIZATION_BUFFER_SIZE_def\<close>)
    with f show ?thesis by (auto simp: TREE_SITTER_SERIALIZATION_BUFFER_SIZE_def)
  qed
qed simp

definition hcl_fits :: "hcl_scanner \<Rightarrow> bool" where
  "hcl_fits s \<longleftrightarrow> length (context_stack s) \<le> 127
     \<and> (\<forall>c\<in>set (context_stack s). length (heredoc_identifier c) \<le> 127)
     \<and> 4 + length (concat (map hcl_put_context (context_stack s))) < TREE_SITTER_SERIALIZATION_BUFFER_SIZE"

lemma hcl_serialize_eq:
  "hcl_serialize s = (if hcl_fits s then le32 (of_nat (length (context_stack s))) @ concat (map hcl_put_context (context_stack s)) else [])"
  by (auto simp: hcl_serialize_def hcl_fits_def hcl_put_contexts_spec TREE_SITTER_SERIALIZATION_BUFFER_SIZE_def)

lemma hcl_get_put: "length (heredoc_identifier c) \<le> 127 \<Longrightarrow> hcl_get_context (hcl_put_context c @ xs) = Some (c, xs)"
proof -
  assume "length (heredoc_identifier c) \<le> 127"
  then have "unat (of_nat (length (heredoc_identifier c)) :: 32 word) = length (heredoc_identifier c)"
    by (intro unat_of_nat_32) simp
  moreover have "context_of_code (context_code t) = Some t" for t by (cases t) (simp_all add: context_of_code_def)
  ultimately show ?thesis by (cases c) (simp add: hcl_get_context_def hcl_put_context_def)
qed

lemma hcl_restore: "hcl_deserialize t (hcl_serialize s) = Some (if hcl_fits s then s else hcl_create)"
proof (cases "hcl_fits s")
  case True
  let ?cs = "context_stack s"
  have n: "unat (of_nat (length ?cs) :: 32 word) = length ?cs" using True by (intro unat_of_nat_32) (simp add: hcl_fits_def)
  have "get_many hcl_get_context (length ?cs) (concat (map hcl_put_context ?cs) @ []) = Some (?cs, [])"
    using True by (intro get_many_concat hcl_get_put) (simp add: hcl_fits_def)
  then show ?thesis using True n by (simp add: hcl_serialize_eq hcl_deserialize_def Let_def)
next
  case False
  then show ?thesis by (simp add: hcl_serialize_eq hcl_deserialize_def hcl_create_def)
qed

interpretation hcl: resettable_scanner hcl_serialize hcl_deserialize hcl_fits "\<lambda>s. s" hcl_create
proof
  show "length (hcl_serialize s) \<le> TREE_SITTER_SERIALIZATION_BUFFER_SIZE" for s
    by (simp add: hcl_serialize_eq) (simp add: hcl_fits_def)
  show "\<exists>s'. hcl_deserialize t [] = Some s' \<and> s' = hcl_create" for t
    by (simp add: hcl_deserialize_def hcl_create_def)
qed (simp add: hcl_restore)

section \<open>Properties\<close>

text \<open>C16. The HCL scan returns on every input and never pops an empty stack; a reported token opens a
  context of its kind, closes the innermost one, which is of its kind, or leaves the stack
  alone, and a scan that fails changes nothing.\<close>

theorem hcl_scan_contexts:
  assumes "ts_lexer E rest"
  shows "\<exists>b s' l'. hcl_scan E v s l = Some (b, s', l') \<and>
     (if b then hcl_may_report v (result_symbol l') \<and> hcl_effect (result_symbol l') s s' else s' = s)"
  by (rule runs_tripleD, rule runs_weaken [OF ts_lexer.runs_hcl_scan [OF assms]]) (simp add: hcl_post_def split_def)

theorem hcl_scan_contexts_witness:
  "\<exists>b s' l'. hcl_scan list_env (\<lambda>t. t = QUOTED_TEMPLATE_START) hcl_create (lex_string HEREDOC_IDENTIFIER [CHR 0x22]) = Some (b, s', l') \<and>
     (if b then hcl_may_report (\<lambda>t. t = QUOTED_TEMPLATE_START) (result_symbol l') \<and> hcl_effect (result_symbol l') hcl_create s'
      else s' = hcl_create)"
  by (rule hcl_scan_contexts [OF ts_lexer_list_env])

text \<open>A line that consists of the identifier of the innermost heredoc closes it exactly when the
  identifier is ASCII: a byte above 127 is a negative \<^verbatim>\<open>char\<close> and differs from the
  character it was read from, so such a heredoc is never closed.\<close>

lemma hcl_heredoc_closed_iff_ascii:
  assumes "ts_lexer E rest" and "rest (raw l) = 10 # w @ 10 # ys" and "w \<noteq> []" and "\<forall>c\<in>set w. 0 < c \<and> \<not> iswspace E c"
    and "c = \<lparr>type = HEREDOC_TEMPLATE, heredoc_identifier = map word_of_int w\<rparr>" and "context_stack s = cs @ [c]"
    and "\<And>t. v t \<longleftrightarrow> t = HEREDOC_IDENTIFIER \<or> t = TEMPLATE_LITERAL_CHUNK"
  shows "\<exists>s' l'. hcl_scan E v s l = Some (True, s', l') \<and>
     (if \<forall>c\<in>set w. c < 128 then result_symbol l' = HEREDOC_IDENTIFIER \<and> context_stack s' = cs
      else result_symbol l' = TEMPLATE_LITERAL_CHUNK \<and> s' = s)"
proof -
  from runs_tripleD [OF ts_lexer.runs_hcl_heredoc_end [OF assms]] obtain s' l' where
    "hcl_scan E v s l = Some (True, s', l')"
    "if \<forall>c\<in>set w. c < 128 then result_symbol l' = HEREDOC_IDENTIFIER \<and> context_stack s' = cs
      else result_symbol l' = TEMPLATE_LITERAL_CHUNK \<and> s' = s" by auto
  then show ?thesis by blast
qed

text \<open>An HCL scanner whose contexts fit in the buffer (at most 127 of them, identifiers of at most 127
  bytes, less than 1024 bytes in all) is restored exactly; any other one comes back
  without contexts.\<close>

lemma hcl_serialize_roundtrip:
  "hcl_deserialize t (hcl_serialize s) = Some (if hcl_fits s then s else hcl_create)
   \<and> length (hcl_serialize s) < TREE_SITTER_SERIALIZATION_BUFFER_SIZE"
  using hcl_restore [of t s]
  by (simp add: hcl_serialize_eq TREE_SITTER_SERIALIZATION_BUFFER_SIZE_def)
    (simp add: hcl_fits_def TREE_SITTER_SERIALIZATION_BUFFER_SIZE_def)

end
