(* ===== verification/Scala_Scanner.thy ===== *)
theory Scala_Scanner
  imports TS_Serialize
begin

text \<open>
  The Scala scanner, \<^verbatim>\<open>scala/src/scanner.c\<close>: indentation, automatic semicolons and
  string literals. Its state is a stack of indentations, the innermost last, and what
  the last outdent saw (indentation, number of line feeds, column), all of them
  \<^verbatim>\<open>int16_t\<close>: they are 16-bit words here, compared as signed numbers.

  Shown here: the scan always returns, keeps the indentations increasing and changes the
  stack as the reported token says; a state with at most 509 indentations is saved and
  restored exactly, a larger one is lost; where a multi-line string ends.
\<close>

datatype scala_token =
    AUTOMATIC_SEMICOLON
  | INDENT
  | OUTDENT
  | COMMA_OUTDENT
  | SIMPLE_STRING_START
  | SIMPLE_STRING_MIDDLE
  | SIMPLE_MULTILINE_STRING_START
  | INTERPOLATED_STRING_MIDDLE
  | INTERPOLATED_MULTILINE_STRING_MIDDLE
  | RAW_STRING_START
  | RAW_STRING_MIDDLE
  | RAW_STRING_MULTILINE_MIDDLE
  | SINGLE_LINE_STRING_END
  | MULTILINE_STRING_END
  | ELSE
  | CATCH
  | FINALLY
  | EXTENDS
  | DERIVES
  | WITH
  | ERROR_SENTINEL

datatype StringMode = STRING_MODE_SIMPLE | STRING_MODE_INTERPOLATED | STRING_MODE_RAW

record scala_scanner =
  indents :: "int16 list"
  last_indentation_size :: int16
  last_newline_count :: int16
  last_column :: int16

type_synonym 'l scala_lexer = "('l, scala_token) TSLexer"
type_synonym 'l scala_result = "bool \<times> scala_scanner \<times> 'l scala_lexer"

definition scala_create :: scala_scanner where
  "scala_create = \<lparr>indents = [], last_indentation_size = -1, last_newline_count = 0, last_column = -1\<rparr>"

section \<open>Saving\<close>

definition scala_serialize :: "scala_scanner \<Rightarrow> byte list" where
  "scala_serialize s =
     (if (length (indents s) + 3) * 2 > TREE_SITTER_SERIALIZATION_BUFFER_SIZE then []
      else le16 (last_indentation_size s) @ le16 (last_newline_count s) @ le16 (last_column s)
        @ concat (map le16 (indents s)))"

text \<open>The loop reads two bytes at a time; one byte left over is read past the end.\<close>

fun scala_get_indents :: "byte list \<Rightarrow> int16 list option" where
  "scala_get_indents [] = Some []"
| "scala_get_indents [a] = None"
| "scala_get_indents (a # b # buffer) =
     map_option (\<lambda>is. (ucast a OR push_bit 8 (ucast b)) # is) (scala_get_indents buffer)"

definition scala_deserialize :: "scala_scanner \<Rightarrow> byte list \<Rightarrow> scala_scanner option" where
  "scala_deserialize s buffer =
     (let s = s\<lparr>indents := [], last_indentation_size := -1, last_column := -1, last_newline_count := 0\<rparr> in
      if buffer = [] then Some s
      else
        do { (i, buffer) \<leftarrow> get16 buffer;
             (n, buffer) \<leftarrow> get16 buffer;
             (c, buffer) \<leftarrow> get16 buffer;
             is \<leftarrow> scala_get_indents buffer;
             Some (s\<lparr>last_indentation_size := i, last_newline_count := n, last_column := c, indents := is\<rparr>) })"

section \<open>Strings\<close>

definition scala_is_op_char :: "int \<Rightarrow> bool" where
  "scala_is_op_char c \<longleftrightarrow> c \<in> set (map of_char [CHR ''!'', CHR ''#'', CHR ''%'', CHR ''&'', CHR ''*'', CHR ''+'', CHR ''-'',
     CHR ''<'', CHR ''='', CHR ''>'', CHR ''?'', CHR ''@'', CHR 0x5C, CHR ''^'', CHR ''|'', CHR ''~'', CHR '':''])"

definition scala_middle_symbol :: "bool \<Rightarrow> StringMode \<Rightarrow> scala_token" where
  "scala_middle_symbol is_multiline string_mode =
     (if string_mode = STRING_MODE_INTERPOLATED
      then (if is_multiline then INTERPOLATED_MULTILINE_STRING_MIDDLE else INTERPOLATED_STRING_MIDDLE)
      else (if is_multiline then RAW_STRING_MULTILINE_MIDDLE else RAW_STRING_MIDDLE))"

definition scala_string_step :: "'l env \<Rightarrow> bool \<Rightarrow> StringMode \<Rightarrow> 32 word \<times> 'l scala_lexer \<Rightarrow>
    (32 word \<times> 'l scala_lexer, bool \<times> 'l scala_lexer) flow option" where
  "scala_string_step E is_multiline string_mode = (\<lambda>(closing_quote_count, l).
     if lookahead E l = ch CHR 0x22 then
       let l = advance E l; closing_quote_count = closing_quote_count + 1 in
       if \<not> is_multiline then Some (Return (True, mark_end E (set_symbol SINGLE_LINE_STRING_END l)))
       else if closing_quote_count \<ge> 3 \<and> lookahead E l \<noteq> ch CHR 0x22
       then Some (Return (True, mark_end E (set_symbol MULTILINE_STRING_END l)))
       else Some (Next (closing_quote_count, l))
     else if lookahead E l = ch CHR ''$'' \<and> string_mode \<noteq> STRING_MODE_SIMPLE
     then Some (Return (True, mark_end E (set_symbol (scala_middle_symbol is_multiline string_mode) l)))
     else if lookahead E l = ch CHR 0x5C then
       if is_multiline \<or> string_mode = STRING_MODE_RAW then
         let l = advance E l in
         Some (Next (0, if \<not> is_multiline \<and> string_mode = STRING_MODE_RAW
                           \<and> (lookahead E l = ch CHR 0x22 \<or> lookahead E l = ch CHR 0x5C)
                        then advance E l else l))
       else Some (Return (True, mark_end E (set_symbol
         (if string_mode = STRING_MODE_SIMPLE then SIMPLE_STRING_MIDDLE else INTERPOLATED_STRING_MIDDLE) l)))
     else if lookahead E l = ch CHR 0x0A \<and> \<not> is_multiline then Some (Return (False, l))
     else if eof E l then Some (Return (False, l))
     else Some (Next (0, advance E l)))"

definition scala_scan_string_content :: "'l env \<Rightarrow> 'l scala_lexer \<Rightarrow> bool \<Rightarrow> StringMode \<Rightarrow>
    (bool \<times> 'l scala_lexer) option" where
  "scala_scan_string_content E l is_multiline string_mode =
     c_loop (scala_string_step E is_multiline string_mode) (0, l)"

definition scala_detect_comment_start :: "'l env \<Rightarrow> 'l scala_lexer \<Rightarrow> bool \<times> 'l scala_lexer" where
  "scala_detect_comment_start E l =
     (let l = mark_end E l in
      if lookahead E l = ch CHR ''/'' then
        let l = advance E l in (lookahead E l = ch CHR ''/'' \<or> lookahead E l = ch CHR ''*'', l)
      else (False, l))"

fun scala_scan_word :: "'l env \<Rightarrow> string \<Rightarrow> 'l scala_lexer \<Rightarrow> bool \<times> 'l scala_lexer" where
  "scala_scan_word E [] l = (\<not> iswalnum E (lookahead E l), l)"
| "scala_scan_word E (c # cs) l =
     (if lookahead E l \<noteq> ch c then (False, l) else scala_scan_word E cs (advance E l))"

section \<open>Indentation\<close>

definition scala_whitespace :: "'l env \<Rightarrow> 'l scala_lexer \<Rightarrow> (int16 \<times> int16 \<times> 'l scala_lexer) option" where
  "scala_whitespace E l =
     c_loop (\<lambda>(newline_count, indentation_size, l).
       if iswspace E (lookahead E l) then
         if lookahead E l = ch CHR 0x0A then Some (Next (newline_count + 1, 0, skip E l))
         else Some (Next (newline_count, indentation_size + 1, skip E l))
       else Some (Return (newline_count, indentation_size, l))) (0, 0, l)"

definition scala_prev :: "scala_scanner \<Rightarrow> int16" where
  "scala_prev s = (if indents s \<noteq> [] then last (indents s) else -1)"

text \<open>\<^verbatim>\<open>if (size > 0) array_pop\<close>.\<close>

definition scala_pop :: "scala_scanner \<Rightarrow> scala_scanner" where
  "scala_pop s = (if indents s \<noteq> [] then s\<lparr>indents := butlast (indents s)\<rparr> else s)"

definition scala_early_outdent :: "'l env \<Rightarrow> (scala_token \<Rightarrow> bool) \<Rightarrow> scala_scanner \<Rightarrow> 'l scala_lexer \<Rightarrow>
    (scala_scanner, 'l scala_result) flow" where
  "scala_early_outdent E valid_symbols s l =
     (let prev = scala_prev s in
      if valid_symbols COMMA_OUTDENT \<and> lookahead E l = ch CHR '','' \<and> prev \<noteq> -1
      then Return (True, scala_pop s, set_symbol COMMA_OUTDENT (mark_end E l))
      else if valid_symbols OUTDENT \<and>
        (lookahead E l = 0
         \<or> prev \<noteq> -1 \<and> (lookahead E l = ch CHR '')'' \<or> lookahead E l = ch CHR '']'' \<or> lookahead E l = ch CHR ''}'')
         \<or> last_indentation_size s \<noteq> -1 \<and> prev \<noteq> -1 \<and> sint (last_indentation_size s) < sint prev)
      then Return (True, scala_pop s, set_symbol OUTDENT l)
      else Next (s\<lparr>last_indentation_size := -1\<rparr>))"

definition scala_indent :: "'l env \<Rightarrow> (scala_token \<Rightarrow> bool) \<Rightarrow> int16 \<Rightarrow> int16 \<Rightarrow> scala_scanner \<Rightarrow> 'l scala_lexer \<Rightarrow>
    (scala_scanner, 'l scala_result) flow" where
  "scala_indent E valid_symbols newline_count indentation_size s l =
     (if valid_symbols INDENT \<and> sint newline_count > 0
         \<and> (indents s = [] \<or> sint indentation_size > sint (last (indents s)))
      then
        (case scala_detect_comment_start E l of
           (True, l) \<Rightarrow> Return (False, s, l)
         | (False, l) \<Rightarrow> Return (True, s\<lparr>indents := indents s @ [indentation_size]\<rparr>, set_symbol INDENT l))
      else Next s)"

definition scala_outdent :: "'l env \<Rightarrow> (scala_token \<Rightarrow> bool) \<Rightarrow> int16 \<Rightarrow> int16 \<Rightarrow> int16 \<Rightarrow> scala_scanner \<Rightarrow> 'l scala_lexer \<Rightarrow>
    (scala_scanner, 'l scala_result) flow" where
  "scala_outdent E valid_symbols prev newline_count indentation_size s l =
     (if valid_symbols OUTDENT \<and>
        (lookahead E l = 0 \<or> sint newline_count > 0 \<and> prev \<noteq> -1 \<and> sint indentation_size < sint prev)
      then
        let s = scala_pop s in
        (case scala_detect_comment_start E (mark_end E (set_symbol OUTDENT l)) of
           (True, l) \<Rightarrow> Return (False, s, l)
         | (False, l) \<Rightarrow> Return (True, s\<lparr>last_indentation_size := indentation_size, last_newline_count := newline_count,
             last_column := (if eof E l then -1 else of_nat (get_column E l))\<rparr>, l))
      else Next s)"

definition scala_recover_newlines :: "'l env \<Rightarrow> int16 \<Rightarrow> scala_scanner \<Rightarrow> 'l scala_lexer \<Rightarrow> int16 \<times> scala_scanner" where
  "scala_recover_newlines E newline_count s l =
     (let is_eof = eof E l in
      (if sint (last_newline_count s) > 0 \<and> is_eof \<and> last_column s = -1
          \<or> \<not> is_eof \<and> (of_nat (get_column E l) :: 32 word) = scast (last_column s)
       then newline_count + last_newline_count s else newline_count,
       s\<lparr>last_newline_count := 0\<rparr>))"

section \<open>Automatic semicolons\<close>

definition scala_block_comment :: "'l env \<Rightarrow> 'l scala_lexer \<Rightarrow> 'l scala_lexer option" where
  "scala_block_comment E l =
     c_loop (\<lambda>l.
       if eof E l then Some (Return l)
       else if lookahead E l = ch CHR ''*'' then
         let l = advance E l in
         if lookahead E l = ch CHR ''/'' then Some (Return (advance E l)) else Some (Next l)
       else Some (Next (advance E l))) l"

definition scala_after_comment :: "'l env \<Rightarrow> 'l scala_lexer \<Rightarrow> (bool \<times> 'l scala_lexer) option" where
  "scala_after_comment E l =
     c_loop (\<lambda>l.
       if iswspace E (lookahead E l) then
         if lookahead E l = ch CHR 0x0A \<or> lookahead E l = ch CHR 0x0D then Some (Return (False, l))
         else Some (Next (skip E l))
       else Some (Return (True, l))) l"

definition scala_semicolon_comment :: "'l env \<Rightarrow> 'l scala_lexer \<Rightarrow> ('l scala_lexer, bool \<times> 'l scala_lexer) flow option" where
  "scala_semicolon_comment E l =
     (if lookahead E l = ch CHR ''/'' then
        let l = advance E l in
        if lookahead E l = ch CHR ''/'' then Some (Return (False, l))
        else if lookahead E l = ch CHR ''*'' then
          do { l \<leftarrow> scala_block_comment E (advance E l); r \<leftarrow> scala_after_comment E l; Some (Return r) }
        else Some (Next l)
      else Some (Next l))"

text \<open>The words that continue an expression; a word that does not match may have been read in part.\<close>

fun scala_continuation_words :: "'l env \<Rightarrow> (scala_token \<Rightarrow> bool) \<Rightarrow> (scala_token \<times> string) list \<Rightarrow> 'l scala_lexer \<Rightarrow>
    ('l scala_lexer, bool \<times> 'l scala_lexer) flow" where
  "scala_continuation_words E valid_symbols [] l = Next l"
| "scala_continuation_words E valid_symbols ((t, w) # ws) l =
     (if valid_symbols t then
        (case scala_scan_word E w l of
           (True, l) \<Rightarrow> Return (False, l)
         | (False, l) \<Rightarrow> scala_continuation_words E valid_symbols ws l)
      else scala_continuation_words E valid_symbols ws l)"

text \<open>Horizontal space and an operand on the same line suppress the semicolon.\<close>

definition scala_operand_follows :: "'l env \<Rightarrow> 'l scala_lexer \<Rightarrow> (bool \<times> 'l scala_lexer) option" where
  "scala_operand_follows E l =
     (let space = (\<lambda>c. c = ch CHR '' '' \<or> c = ch CHR 0x09); found_space = space (lookahead E l) in
      do { l \<leftarrow> advance_while E space l;
           Some (if found_space \<and> \<not> iswspace E (lookahead E l) \<and> \<not> eof E l then (False, l) else (True, l)) })"

definition scala_leading_operator :: "'l env \<Rightarrow> 'l scala_lexer \<Rightarrow> (bool \<times> 'l scala_lexer) option" where
  "scala_leading_operator E l =
     (if scala_is_op_char (lookahead E l) then
        do { l \<leftarrow> advance_while E scala_is_op_char (advance E l); scala_operand_follows E l }
      else if lookahead E l = ch CHR ''`'' then
        do { l \<leftarrow> while_option (\<lambda>l. lookahead E l \<noteq> ch CHR ''`'' \<and> \<not> eof E l) (advance E) (advance E l);
             if lookahead E l = ch CHR ''`'' then scala_operand_follows E (advance E l) else Some (True, l) }
      else Some (True, l))"

definition scala_automatic_semicolon :: "'l env \<Rightarrow> (scala_token \<Rightarrow> bool) \<Rightarrow> int16 \<Rightarrow> 'l scala_lexer \<Rightarrow>
    (bool \<times> 'l scala_lexer) option" where
  "scala_automatic_semicolon E valid_symbols newline_count l =
     (let l = set_symbol AUTOMATIC_SEMICOLON (mark_end E l) in
      if lookahead E l = ch CHR ''.'' then Some (False, l)
      else
        then_return (scala_semicolon_comment E l) (\<lambda>l.
          if valid_symbols ELSE then (case scala_scan_word E ''else'' l of (b, l) \<Rightarrow> Some (\<not> b, l))
          else
            then_return
              (Some (scala_continuation_words E valid_symbols
                [(CATCH, ''catch''), (FINALLY, ''finally''), (EXTENDS, ''extends''), (WITH, ''with''), (DERIVES, ''derives'')] l))
              (\<lambda>l. if sint newline_count > 1 then Some (True, l) else scala_leading_operator E l)))"

section \<open>The scan function\<close>

definition scala_string_start :: "'l env \<Rightarrow> (scala_token \<Rightarrow> bool) \<Rightarrow> 'l scala_lexer \<Rightarrow>
    ('l scala_lexer, bool \<times> 'l scala_lexer) flow" where
  "scala_string_start E valid_symbols l =
     (if valid_symbols SIMPLE_STRING_START \<and> lookahead E l = ch CHR 0x22 then
        let l = mark_end E (advance E l) in
        if lookahead E l = ch CHR 0x22 then
          let l = advance E l in
          if lookahead E l = ch CHR 0x22
          then Return (True, mark_end E (set_symbol SIMPLE_MULTILINE_STRING_START (advance E l)))
          else Return (True, set_symbol SIMPLE_STRING_START l)
        else Return (True, set_symbol SIMPLE_STRING_START l)
      else Next l)"

definition scala_raw_start :: "'l env \<Rightarrow> (scala_token \<Rightarrow> bool) \<Rightarrow> 'l scala_lexer \<Rightarrow>
    ('l scala_lexer, bool \<times> 'l scala_lexer) flow" where
  "scala_raw_start E valid_symbols l =
     (if valid_symbols RAW_STRING_START \<and> lookahead E l = ch CHR ''r'' then
        let l = advance E l in
        if lookahead E l = ch CHR ''a'' then
          let l = advance E l in
          if lookahead E l = ch CHR ''w'' then
            let l = advance E l in
            if lookahead E l = ch CHR 0x22
            then Return (True, set_symbol RAW_STRING_START (mark_end E l)) else Next l
          else Next l
        else Next l
      else Next l)"

definition scala_scan_strings :: "'l env \<Rightarrow> (scala_token \<Rightarrow> bool) \<Rightarrow> 'l scala_lexer \<Rightarrow> (bool \<times> 'l scala_lexer) option" where
  "scala_scan_strings E valid_symbols l =
     do { l \<leftarrow> skip_while E (iswspace E) l;
          then_return
            (and_then (Some (scala_string_start E valid_symbols l)) (\<lambda>l. Some (scala_raw_start E valid_symbols l)))
            (\<lambda>l. if valid_symbols SIMPLE_STRING_MIDDLE then scala_scan_string_content E l False STRING_MODE_SIMPLE
                 else if valid_symbols INTERPOLATED_STRING_MIDDLE then scala_scan_string_content E l False STRING_MODE_INTERPOLATED
                 else if valid_symbols RAW_STRING_MIDDLE then scala_scan_string_content E l False STRING_MODE_RAW
                 else if valid_symbols RAW_STRING_MULTILINE_MIDDLE then scala_scan_string_content E l True STRING_MODE_RAW
                 else if valid_symbols INTERPOLATED_MULTILINE_STRING_MIDDLE
                 then scala_scan_string_content E l True STRING_MODE_INTERPOLATED
                 else if valid_symbols MULTILINE_STRING_END then scala_scan_string_content E l True STRING_MODE_SIMPLE
                 else Some (False, l)) }"

definition scala_scan :: "'l env \<Rightarrow> (scala_token \<Rightarrow> bool) \<Rightarrow> scala_scanner \<Rightarrow> 'l scala_lexer \<Rightarrow>
    'l scala_result option" where
  "scala_scan E valid_symbols s l =
     do { (newline_count, indentation_size, l) \<leftarrow> scala_whitespace E l;
          let prev = scala_prev s in
          then_return
            (and_then (and_then
               (Some (scala_early_outdent E valid_symbols s l))
               (\<lambda>s. Some (scala_indent E valid_symbols newline_count indentation_size s l)))
               (\<lambda>s. Some (scala_outdent E valid_symbols prev newline_count indentation_size s l)))
            (\<lambda>s. let (newline_count, s) = scala_recover_newlines E newline_count s l in
                 do { (b, l) \<leftarrow>
                        (if valid_symbols AUTOMATIC_SEMICOLON \<and> sint newline_count > 0
                         then scala_automatic_semicolon E valid_symbols newline_count l
                         else scala_scan_strings E valid_symbols l);
                      Some (b, s, l) }) }"

section \<open>The stack of indentations\<close>

definition scala_wf :: "scala_scanner \<Rightarrow> bool" where
  "scala_wf s \<longleftrightarrow> sorted_wrt (\<lambda>i j. sint i < sint j) (indents s)"

definition scala_effect :: "scala_token \<Rightarrow> int16 list \<Rightarrow> int16 list \<Rightarrow> bool" where
  "scala_effect t is is' =
     (case t of
        INDENT \<Rightarrow> \<exists>i. is' = is @ [i] \<and> (is \<noteq> [] \<longrightarrow> sint (last is) < sint i)
      | OUTDENT \<Rightarrow> is' = butlast is
      | COMMA_OUTDENT \<Rightarrow> is \<noteq> [] \<and> is' = butlast is
      | _ \<Rightarrow> is' = is)"

definition scala_may_report :: "(scala_token \<Rightarrow> bool) \<Rightarrow> scala_token \<Rightarrow> bool" where
  "scala_may_report v t =
     (if t = SIMPLE_MULTILINE_STRING_START then v SIMPLE_STRING_START
      else if t = SINGLE_LINE_STRING_END then v SIMPLE_STRING_MIDDLE \<or> v INTERPOLATED_STRING_MIDDLE \<or> v RAW_STRING_MIDDLE
      else if t = MULTILINE_STRING_END
      then v RAW_STRING_MULTILINE_MIDDLE \<or> v INTERPOLATED_MULTILINE_STRING_MIDDLE \<or> v MULTILINE_STRING_END
      else v t)"

text \<open>Tokens that leave the stack alone.\<close>

definition scala_plain :: "scala_token \<Rightarrow> bool" where
  "scala_plain t \<longleftrightarrow> t \<notin> {INDENT, OUTDENT, COMMA_OUTDENT}"

lemma scala_effect_wf:
  assumes "sorted_wrt (\<lambda>i j. sint i < sint j) is" and "scala_effect t is is'"
  shows "sorted_wrt (\<lambda>i j. sint i < sint j) is'"
proof -
  have but: "sorted_wrt (\<lambda>i j. sint i < sint j) (butlast is)"
    using assms(1) by (metis append_butlast_last_id butlast.simps(1) sorted_wrt_append)
  have app: "sorted_wrt (\<lambda>i j. sint i < sint j) (is @ [i])" if "is \<noteq> [] \<longrightarrow> sint (last is) < sint i" for i
  proof (cases "is" rule: rev_exhaust)
    case (snoc js j)
    with assms(1) that show ?thesis by (auto simp: sorted_wrt_append)
  qed simp
  show ?thesis using assms but app by (cases t) (auto simp: scala_effect_def)
qed

lemma scala_butlast_wf: "scala_wf s \<Longrightarrow> indents s' = butlast (indents s) \<Longrightarrow> scala_wf s'"
  using scala_effect_wf [of "indents s" OUTDENT "indents s'"] by (simp add: scala_wf_def scala_effect_def)

text \<open>What a scan leaves that reports no token: the stack as it was, or, where an outdent is followed by
  the start of a comment, the stack with its last indentation popped.\<close>

definition scala_unreported :: "'l env \<Rightarrow> (scala_token \<Rightarrow> bool) \<Rightarrow> scala_scanner \<Rightarrow> scala_scanner \<Rightarrow> 'l scala_lexer \<Rightarrow> bool" where
  "scala_unreported E v s s' l' \<longleftrightarrow> indents s' = indents s
     \<or> v OUTDENT \<and> indents s' = butlast (indents s) \<and> result_symbol l' = OUTDENT
       \<and> (lookahead E l' = ch CHR ''/'' \<or> lookahead E l' = ch CHR ''*'')"

text \<open>What the whole scan guarantees.\<close>

definition scala_post :: "'l env \<Rightarrow> (scala_token \<Rightarrow> bool) \<Rightarrow> scala_scanner \<Rightarrow> 'l scala_result \<Rightarrow> bool" where
  "scala_post E v s r \<longleftrightarrow> (case r of (b, s', l') \<Rightarrow>
     if b then scala_may_report v (result_symbol l') \<and> scala_effect (result_symbol l') (indents s) (indents s')
     else scala_unreported E v s s' l')"

lemma scala_post_wf: "scala_post E v s (b, s', l') \<Longrightarrow> scala_wf s \<Longrightarrow> scala_wf s'"
  using scala_effect_wf [of "indents s" _ "indents s'"] scala_butlast_wf [of s s']
  by (auto simp: scala_post_def scala_unreported_def scala_wf_def split: if_splits)

lemma scala_plain_post:
  assumes "indents s' = indents s" and "b \<longrightarrow> scala_plain (result_symbol l) \<and> scala_may_report v (result_symbol l)"
  shows "scala_post E v s (b, s', l)"
  using assms by (cases "result_symbol l") (auto simp: scala_post_def scala_unreported_def scala_effect_def scala_plain_def)

lemma scala_pop_indents [simp]: "indents (scala_pop s) = butlast (indents s)"
  by (simp add: scala_pop_def)

context ts_lexer
begin

lemma runs_scala_whitespace: "runs (scala_whitespace E l) (\<lambda>_. True)"
  unfolding scala_whitespace_def
  by (rule runs_c_loop [where m = "\<lambda>(n, i, l'). remaining l'" and I = "\<lambda>_. True"]) auto

lemma runs_scala_string_content:
  "runs (scala_scan_string_content E l m mode) (\<lambda>(b, l'). b \<longrightarrow> result_symbol l' \<in>
     {if m then MULTILINE_STRING_END else SINGLE_LINE_STRING_END,
      if mode = STRING_MODE_SIMPLE then (if m then MULTILINE_STRING_END else SIMPLE_STRING_MIDDLE)
      else scala_middle_symbol m mode})"
  unfolding scala_scan_string_content_def
proof (rule runs_c_loop [where m = "\<lambda>(n, l'). remaining l'" and I = "\<lambda>_. True"], goal_cases)
  case (2 x)
  obtain n l where x: "x = (n, l)" by (cases x)
  show ?case
  proof (cases "rest (raw l)")
    case Nil
    then show ?thesis by (simp add: x scala_string_step_def)
  next
    case (Cons c cs)
    then have "lookahead E l = c" "remaining l - Suc k < remaining l" for k by auto
    then show ?thesis
      by (cases mode) (simp_all add: x scala_string_step_def Let_def scala_middle_symbol_def Cons)
  qed
qed simp

lemma runs_scala_after_comment: "runs (scala_after_comment E l) (\<lambda>(b, l'). result_symbol l' = result_symbol l)"
  unfolding scala_after_comment_def
  by (rule runs_c_loop [where m = remaining and I = "\<lambda>l'. result_symbol l' = result_symbol l"]) auto

lemma runs_scala_block_comment: "runs (scala_block_comment E l) (\<lambda>l'. result_symbol l' = result_symbol l)"
  unfolding scala_block_comment_def
  by (rule runs_c_loop [where m = remaining and I = "\<lambda>l'. result_symbol l' = result_symbol l"]) (auto simp: Let_def)

lemma runs_scala_semicolon_comment:
  "runs (scala_semicolon_comment E l) (case_flow (\<lambda>l'. result_symbol l' = result_symbol l) (\<lambda>(b, l'). result_symbol l' = result_symbol l))"
  by (auto simp: scala_semicolon_comment_def Let_def intro!: runs_weaken [OF runs_scala_block_comment]
      runs_weaken [OF runs_scala_after_comment])

lemma scala_scan_word_symbol [simp]: "result_symbol (snd (scala_scan_word E w l)) = result_symbol l"
  by (induction w arbitrary: l) auto

lemma scala_continuation_words_symbol:
  "result_symbol l = u \<Longrightarrow> case_flow (\<lambda>l'. result_symbol l' = u) (\<lambda>(b, l'). result_symbol l' = u)
     (scala_continuation_words E v ws l)"
proof (induction ws arbitrary: l)
  case (Cons x ws)
  obtain t w where x: "x = (t, w)" by (cases x)
  obtain b l1 where w: "scala_scan_word E w l = (b, l1)" by fastforce
  with scala_scan_word_symbol [of w l] Cons.prems have "result_symbol l1 = u" by simp
  with Cons.IH [of l] Cons.IH [of l1] Cons.prems show ?case by (cases b) (simp_all add: x w)
qed simp

lemma scala_is_op_char_0 [simp]: "\<not> scala_is_op_char 0"
  by (simp add: scala_is_op_char_def)

lemma runs_scala_operand_follows: "runs (scala_operand_follows E l) (\<lambda>(b, l'). result_symbol l' = result_symbol l)"
  by (auto simp: scala_operand_follows_def Let_def intro!: wp_while_le)

lemma runs_scala_leading_operator: "runs (scala_leading_operator E l) (\<lambda>(b, l'). result_symbol l' = result_symbol l)"
  unfolding scala_leading_operator_def
  by (auto intro!: wp_while_le runs_weaken [OF runs_scala_operand_follows]
      runs_while_option [where m = remaining and I = "\<lambda>l'. result_symbol l' = result_symbol l"])

lemma runs_scala_automatic_semicolon:
  "runs (scala_automatic_semicolon E v n l) (\<lambda>(b, l'). result_symbol l' = AUTOMATIC_SEMICOLON)"
proof -
  have words: "runs (then_return (Some (scala_continuation_words E v ws l1))
      (\<lambda>l. if sint n > 1 then Some (True, l) else scala_leading_operator E l)) (\<lambda>(b, l'). result_symbol l' = AUTOMATIC_SEMICOLON)"
    if "result_symbol l1 = AUTOMATIC_SEMICOLON" for ws l1
    by (rule runs_then_return_inv [where I = "\<lambda>l'. result_symbol l' = AUTOMATIC_SEMICOLON"])
      (use scala_continuation_words_symbol [OF that, of v ws] in \<open>auto intro!: runs_weaken [OF runs_scala_leading_operator]\<close>)
  have sym: "result_symbol l' = AUTOMATIC_SEMICOLON"
    if "scala_scan_word E ''else'' l1 = (b, l')" "result_symbol l1 = AUTOMATIC_SEMICOLON" for b l' l1
    using scala_scan_word_symbol [of "''else''" l1] that by simp
  let ?l = "set_symbol AUTOMATIC_SEMICOLON (mark_end E l)"
  show ?thesis
    unfolding scala_automatic_semicolon_def Let_def
  proof (subst runs_if, intro conjI impI, simp, rule runs_then_return_inv [where I = "\<lambda>l'. result_symbol l' = AUTOMATIC_SEMICOLON"], goal_cases)
    case 1
    show ?case by (rule runs_weaken [OF runs_scala_semicolon_comment]) (auto split: flow.splits)
  next
    case (2 l1)
    then show ?case
      by (auto simp del: runs_then_return scala_continuation_words.simps scala_scan_word.simps simp: words sym split: prod.splits)
  qed
qed

lemma runs_scala_scan_strings:
  "runs (scala_scan_strings E v l) (\<lambda>(b, l'). b \<longrightarrow> scala_plain (result_symbol l') \<and> scala_may_report v (result_symbol l'))"
proof -
  let ?Q = "\<lambda>(b :: bool, l' :: ('l, scala_token) TSLexer). b \<longrightarrow> scala_plain (result_symbol l') \<and> scala_may_report v (result_symbol l')"
  have content: "runs (scala_scan_string_content E l1 m mode) ?Q"
    if "\<And>t. t \<in> {if m then MULTILINE_STRING_END else SINGLE_LINE_STRING_END,
      if mode = STRING_MODE_SIMPLE then (if m then MULTILINE_STRING_END else SIMPLE_STRING_MIDDLE)
      else scala_middle_symbol m mode} \<Longrightarrow> scala_plain t \<and> scala_may_report v t" for l1 m mode
    by (rule runs_weaken [OF runs_scala_string_content]) (use that in auto)
  have start: "case_flow (\<lambda>_. True) ?Q (scala_string_start E v l1)" "case_flow (\<lambda>_. True) ?Q (scala_raw_start E v l1)" for l1
    by (simp_all add: scala_string_start_def scala_raw_start_def Let_def scala_plain_def scala_may_report_def)
  show ?thesis
    unfolding scala_scan_strings_def runs_bind
  proof (rule wp_while_le(2), simp, rule runs_then_return_inv [where I = "\<lambda>_. True"],
      rule runs_and_then_inv [where I = "\<lambda>_. True"], goal_cases)
    case (1 l1)
    show ?case unfolding runs_Some by (rule start)
  next
    case (2 l1 l2)
    show ?case unfolding runs_Some by (rule start)
  next
    case (3 l1 l2)
    show ?case
      unfolding runs_if
      by (intro conjI impI content; simp add: scala_plain_def scala_may_report_def scala_middle_symbol_def) auto
  qed
qed

lemma scala_blocks_post:
  "case_flow (\<lambda>s'. indents s' = indents s) (scala_post E v s) (scala_early_outdent E v s l)"
  "indents s1 = indents s \<Longrightarrow> case_flow (\<lambda>s'. indents s' = indents s) (scala_post E v s) (scala_indent E v n i s1 l)"
  "indents s1 = indents s \<Longrightarrow> case_flow (\<lambda>s'. indents s' = indents s) (scala_post E v s) (scala_outdent E v p n i s1 l)"
  subgoal
    by (auto simp: scala_early_outdent_def Let_def scala_post_def scala_unreported_def scala_may_report_def scala_effect_def scala_prev_def split: if_splits)
  subgoal
    by (auto simp: scala_indent_def scala_detect_comment_start_def Let_def scala_post_def scala_unreported_def scala_may_report_def scala_effect_def
        split: bool.splits)
  subgoal
    by (auto simp: scala_outdent_def scala_detect_comment_start_def Let_def scala_post_def scala_unreported_def scala_may_report_def scala_effect_def
        split: bool.splits)
  done

lemma runs_scala_scan: "runs (scala_scan E v s l) (scala_post E v s)"
proof -
  have semi: "runs (scala_automatic_semicolon E v n l1) (\<lambda>(b, l'). b \<longrightarrow> scala_plain (result_symbol l') \<and> scala_may_report v (result_symbol l'))"
    if "v AUTOMATIC_SEMICOLON" for n l1
    by (rule runs_weaken [OF runs_scala_automatic_semicolon]) (use that in \<open>auto simp: scala_plain_def scala_may_report_def\<close>)
  have fin: "runs (let (n, s2) = scala_recover_newlines E n s1 l1 in
        do { (b, l) \<leftarrow> (if v AUTOMATIC_SEMICOLON \<and> sint n > 0 then scala_automatic_semicolon E v n l1 else scala_scan_strings E v l1);
             Some (b, s2, l) }) (scala_post E v s)" if "indents s1 = indents s" for n s1 l1
  proof -
    obtain n' s2 where r: "scala_recover_newlines E n s1 l1 = (n', s2)" by fastforce
    then have s2: "indents s2 = indents s" using that by (auto simp: scala_recover_newlines_def Let_def)
    have "runs (if v AUTOMATIC_SEMICOLON \<and> sint n' > 0 then scala_automatic_semicolon E v n' l1 else scala_scan_strings E v l1)
        (\<lambda>(b, l'). b \<longrightarrow> scala_plain (result_symbol l') \<and> scala_may_report v (result_symbol l'))"
      using semi runs_scala_scan_strings by simp
    then show ?thesis unfolding r Let_def prod.case runs_bind
      by (rule runs_weaken) (auto intro!: scala_plain_post s2)
  qed
  show ?thesis
    unfolding scala_scan_def runs_bind Let_def
  proof (rule runs_weaken [OF runs_scala_whitespace], goal_cases)
    case (1 x)
    obtain n i l1 where x: "x = (n, i, l1)" by (cases x)
    show ?case
      unfolding x prod.case
    proof (rule runs_then_return_inv [where I = "\<lambda>s'. indents s' = indents s"],
        (rule runs_and_then_inv [where I = "\<lambda>s'. indents s' = indents s"])+, goal_cases)
      case 1
      show ?case unfolding runs_Some by (rule scala_blocks_post)
    next
      case (2 s1)
      then show ?case unfolding runs_Some by (rule scala_blocks_post)
    next
      case (3 s1)
      then show ?case unfolding runs_Some by (rule scala_blocks_post)
    next
      case (4 s1)
      then show ?case using fin [of s1 n l1] unfolding Let_def by simp
    qed
  qed
qed

text \<open>The end of a multi-line string: text without quotes, then a run of at least three quotes.\<close>

lemma scala_multiline_text:
  assumes "rest (raw l) = a @ zs" and "34 \<notin> set a" and "mode = STRING_MODE_SIMPLE \<or> 36 \<notin> set a"
  shows "\<exists>l' k. c_loop (scala_string_step E True mode) (n, l) = c_loop (scala_string_step E True mode) (k, l')
     \<and> rest (raw l') = zs \<and> (a = [] \<longrightarrow> k = n) \<and> (a \<noteq> [] \<longrightarrow> k = 0)"
  using assms
proof (induction a arbitrary: n l)
  case Nil
  then show ?case by auto
next
  case (Cons c a)
  then have l: "rest (raw (advance E l)) = a @ zs" and c: "lookahead E l = c" "rest (raw l) \<noteq> []" "c \<noteq> 34"
    "c \<noteq> 36 \<or> mode = STRING_MODE_SIMPLE" by auto
  have step: "c_loop (scala_string_step E True mode) (n, l) = c_loop (scala_string_step E True mode) (0, advance E l)"
    by (rule c_loop_Next) (use c in \<open>auto simp: scala_string_step_def Let_def\<close>)
  from Cons.IH [OF l, of 0] Cons.prems obtain l' k where
    "c_loop (scala_string_step E True mode) (0, advance E l) = c_loop (scala_string_step E True mode) (k, l')"
    "rest (raw l') = zs" "k = 0" by (cases "a = []") auto
  with step show ?case by auto
qed

lemma scala_multiline_quotes:
  assumes "rest (raw l) = replicate (Suc m) 34 @ zs" and "zs = [] \<or> hd zs \<noteq> 34" and "3 \<le> unat n + Suc m" and "unat n + Suc m < 2 ^ 32"
  shows "\<exists>l'. c_loop (scala_string_step E True mode) (n, l) = Some (True, l') \<and> result_symbol l' = MULTILINE_STRING_END
     \<and> rest (raw l') = zs"
  using assms
proof (induction m arbitrary: n l)
  case 0
  then have "rest (raw (advance E l)) = zs" "lookahead E l = 34" by simp_all
  moreover from this(1) 0(2) have "lookahead E (advance E l) \<noteq> 34" by (cases zs) auto
  ultimately have "c_loop (scala_string_step E True mode) (n, l) = Some (True, mark_end E (set_symbol MULTILINE_STRING_END (advance E l)))"
    using 0(3,4) unat_succ [of n] by (intro c_loop_Return) (simp add: scala_string_step_def Let_def word_le_nat_alt)
  with \<open>rest (raw (advance E l)) = zs\<close> show ?case by simp
next
  case (Suc m)
  then have l: "rest (raw (advance E l)) = replicate (Suc m) 34 @ zs" and la: "lookahead E l = 34" "lookahead E (advance E l) = 34"
    by (simp_all add: lookahead_view)
  have "c_loop (scala_string_step E True mode) (n, l) = c_loop (scala_string_step E True mode) (n + 1, advance E l)"
    by (rule c_loop_Next) (use la in \<open>simp add: scala_string_step_def Let_def\<close>)
  with Suc.IH [OF l Suc.prems(2), of "n + 1"] Suc.prems(3,4) unat_succ [of n] show ?case by simp
qed

lemma scala_multiline_end:
  assumes "rest (raw l) = a @ replicate m 34 @ zs" and "34 \<notin> set a" and "mode = STRING_MODE_SIMPLE \<or> 36 \<notin> set a"
    and "3 \<le> m" and "m < 2 ^ 32"
    and "zs = [] \<or> hd zs \<noteq> 34"
  shows "\<exists>l'. scala_scan_string_content E l True mode = Some (True, l') \<and> result_symbol l' = MULTILINE_STRING_END
     \<and> rest (raw l') = zs"
proof -
  obtain k where m: "m = Suc k" using assms(4) by (cases m) auto
  from scala_multiline_text [OF assms(1-3), of 0] obtain l1 where
    "c_loop (scala_string_step E True mode) (0, l) = c_loop (scala_string_step E True mode) (0, l1)"
    and l1: "rest (raw l1) = replicate m 34 @ zs" by (cases "a = []") auto
  with scala_multiline_quotes [of l1 k zs 0 mode] assms(4-) show ?thesis
    by (simp add: scala_scan_string_content_def m)
qed

end

section \<open>Saving and restoring\<close>

definition scala_fits :: "scala_scanner \<Rightarrow> bool" where
  "scala_fits s \<longleftrightarrow> length (indents s) \<le> 509"

lemma scala_get_indents_concat: "scala_get_indents (concat (map le16 is)) = Some is"
proof (induction "is")
  case (Cons i "is")
  have "get16 (le16 i @ concat (map le16 is)) = Some (i, concat (map le16 is))" by simp
  then have "ucast (ucast i :: byte) OR push_bit 8 (ucast (ucast (drop_bit 8 i) :: byte)) = i"
    by (simp add: le16_def)
  with Cons show ?case by (simp add: le16_def)
qed simp

lemma scala_restore: "scala_deserialize t (scala_serialize s) = Some (if scala_fits s then s else scala_create)"
proof (cases "scala_fits s")
  case True
  then have "scala_serialize s = le16 (last_indentation_size s) @ le16 (last_newline_count s) @ le16 (last_column s)
      @ concat (map le16 (indents s))"
    by (simp add: scala_serialize_def scala_fits_def TREE_SITTER_SERIALIZATION_BUFFER_SIZE_def)
  with True show ?thesis by (simp add: scala_deserialize_def Let_def scala_get_indents_concat)
next
  case False
  then have "scala_serialize s = []"
    by (simp add: scala_serialize_def scala_fits_def TREE_SITTER_SERIALIZATION_BUFFER_SIZE_def)
  with False show ?thesis by (simp add: scala_deserialize_def scala_create_def)
qed

lemma length_concat_le16 [simp]: "length (concat (map le16 is)) = 2 * length is"
  by (induction "is") simp_all

interpretation scala: resettable_scanner scala_serialize scala_deserialize scala_fits "\<lambda>s. s" scala_create
proof
  show "length (scala_serialize s) \<le> TREE_SITTER_SERIALIZATION_BUFFER_SIZE" for s
    by (simp add: scala_serialize_def TREE_SITTER_SERIALIZATION_BUFFER_SIZE_def)
  show "\<exists>s'. scala_deserialize t [] = Some s' \<and> s' = scala_create" for t
    by (simp add: scala_deserialize_def scala_create_def)
qed (simp add: scala_restore)

section \<open>Properties\<close>

text \<open>C14. The Scala scan returns on every input. It keeps the stack of indentations increasing, whether it
  reports a token or not; an indent pushes a larger indentation, an outdent pops one if there is
  one, an outdent before a comma pops one, and no other token touches the stack. A reported token
  is one that may come there. A scan that reports nothing leaves the stack as it was, with one
  exception: where an outdent is valid but a comment follows, it has popped the last indentation,
  and it stands in the start of that comment.\<close>

theorem scala_scan_indents:
  assumes "ts_lexer E rest" and "scala_wf s"
  shows "\<exists>b s' l'. scala_scan E v s l = Some (b, s', l') \<and> scala_wf s' \<and>
     (if b then scala_may_report v (result_symbol l') \<and> scala_effect (result_symbol l') (indents s) (indents s')
      else scala_unreported E v s s' l')"
  by (rule runs_tripleD, rule runs_weaken [OF ts_lexer.runs_scala_scan [OF assms(1)]])
    (use assms(2) scala_post_wf in \<open>fastforce simp: scala_post_def\<close>)

theorem scala_scan_indents_witness:
  "\<exists>b s' l'. scala_scan list_env (\<lambda>t. t = INDENT) scala_create (lex_string ELSE (CHR 0x0A # ''  x'')) = Some (b, s', l')
     \<and> scala_wf s' \<and>
     (if b then scala_may_report (\<lambda>t. t = INDENT) (result_symbol l')
        \<and> scala_effect (result_symbol l') (indents scala_create) (indents s')
      else scala_unreported list_env (\<lambda>t. t = INDENT) scala_create s' l')"
  by (rule scala_scan_indents [OF ts_lexer_list_env]) (simp add: scala_wf_def scala_create_def)

text \<open>A Scala scanner with at most 509 indentations is restored exactly; a larger one comes back as a
  new scanner.\<close>

lemma scala_serialize_roundtrip:
  "scala_deserialize t (scala_serialize s) = Some (if scala_fits s then s else scala_create)
   \<and> length (scala_serialize s) \<le> TREE_SITTER_SERIALIZATION_BUFFER_SIZE"
  using scala_restore [of t s] by (simp add: scala_serialize_def TREE_SITTER_SERIALIZATION_BUFFER_SIZE_def)

text \<open>A multi-line string (with no quote in it, and no interpolation where the kind of string has them)
  ends behind the whole run of three or more quotes that closes it.\<close>

lemma scala_multiline_string_end:
  assumes "ts_lexer E rest" and "rest (raw l) = a @ replicate m 34 @ zs" and "34 \<notin> set a"
    and "mode = STRING_MODE_SIMPLE \<or> 36 \<notin> set a" and "3 \<le> m" and "m < 2 ^ 32"
    and "zs = [] \<or> hd zs \<noteq> 34"
  shows "\<exists>l'. scala_scan_string_content E l True mode = Some (True, l') \<and> result_symbol l' = MULTILINE_STRING_END
     \<and> rest (raw l') = zs"
  using assms(2-) by (rule ts_lexer.scala_multiline_end [OF assms(1)])

end
