(* ===== verification/Yaml_Schema.thy ===== *)
theory Yaml_Schema
  imports TS_Lexer
begin

text \<open>
  The type of a YAML plain scalar, \<^verbatim>\<open>yaml/src/schema.core.c\<close>: a state machine the
  YAML scanner feeds with the characters of a scalar, which keeps the type the scalar has
  if it ends there. The comparison of the source is with the core schema of the YAML
  specification (YAML 1.2, section 10.3.2), written below as languages: the machine and
  the languages give the same type, and the characters that may follow a scalar do not
  change it.

  A state of the machine is an \<^verbatim>\<open>int8_t\<close>; the machine only ever computes the constants
  \<open>-1\<close> to \<open>43\<close>, so \<open>int\<close> stands for it. The result \<open>None\<close> is the call of \<^verbatim>\<open>abort\<close> in
  state 34.
\<close>

datatype ResultSchema = RS_STR | RS_INT | RS_NULL | RS_BOOL | RS_FLOAT

section \<open>The machine\<close>

definition SCH_STT_FRZ :: int where
  "SCH_STT_FRZ = -1"

text \<open>The last two statements of the function, which every \<^verbatim>\<open>break\<close> of the switch reaches.\<close>

definition sch_freeze :: "int \<Rightarrow> ResultSchema \<Rightarrow> int \<times> ResultSchema" where
  "sch_freeze cur_chr rlt_sch =
     (SCH_STT_FRZ,
      if cur_chr \<noteq> ch CHR 0x0D \<and> cur_chr \<noteq> ch CHR 0x0A \<and> cur_chr \<noteq> ch CHR '' '' \<and> cur_chr \<noteq> 0 then RS_STR
      else rlt_sch)"

definition adv_sch_stt :: "int \<Rightarrow> int \<Rightarrow> ResultSchema \<Rightarrow> (int \<times> ResultSchema) option" where
  "adv_sch_stt sch_stt cur_chr rlt_sch =
    (if sch_stt = SCH_STT_FRZ then
      Some (sch_freeze cur_chr rlt_sch)
     else if sch_stt = 0 then
      if cur_chr = ch CHR ''.'' then Some (6, RS_STR)
      else if cur_chr = ch CHR ''0'' then Some (37, RS_INT)
      else if cur_chr = ch CHR ''F'' then Some (2, RS_STR)
      else if cur_chr = ch CHR ''N'' then Some (16, RS_STR)
      else if cur_chr = ch CHR ''T'' then Some (13, RS_STR)
      else if cur_chr = ch CHR ''f'' then Some (17, RS_STR)
      else if cur_chr = ch CHR ''n'' then Some (29, RS_STR)
      else if cur_chr = ch CHR ''t'' then Some (26, RS_STR)
      else if cur_chr = ch CHR ''~'' then Some (35, RS_NULL)
      else if cur_chr = ch CHR ''+'' then Some (1, RS_STR)
      else if cur_chr = ch CHR ''-'' then Some (1, RS_STR)
      else if ch CHR ''1'' \<le> cur_chr \<and> cur_chr \<le> ch CHR ''9'' then Some (38, RS_INT)
      else Some (sch_freeze cur_chr rlt_sch)
     else if sch_stt = 1 then
      if cur_chr = ch CHR ''.'' then Some (7, RS_STR)
      else if ch CHR ''0'' \<le> cur_chr \<and> cur_chr \<le> ch CHR ''9'' then Some (38, RS_INT)
      else Some (sch_freeze cur_chr rlt_sch)
     else if sch_stt = 2 then
      if cur_chr = ch CHR ''A'' then Some (9, RS_STR)
      else if cur_chr = ch CHR ''a'' then Some (22, RS_STR)
      else Some (sch_freeze cur_chr rlt_sch)
     else if sch_stt = 3 then
      if cur_chr = ch CHR ''A'' then Some (12, RS_STR)
      else if cur_chr = ch CHR ''a'' then Some (12, RS_STR)
      else Some (sch_freeze cur_chr rlt_sch)
     else if sch_stt = 4 then
      if cur_chr = ch CHR ''E'' then Some (36, RS_BOOL)
      else Some (sch_freeze cur_chr rlt_sch)
     else if sch_stt = 5 then
      if cur_chr = ch CHR ''F'' then Some (41, RS_FLOAT)
      else Some (sch_freeze cur_chr rlt_sch)
     else if sch_stt = 6 then
      if cur_chr = ch CHR ''I'' then Some (11, RS_STR)
      else if cur_chr = ch CHR ''N'' then Some (3, RS_STR)
      else if cur_chr = ch CHR ''i'' then Some (24, RS_STR)
      else if cur_chr = ch CHR ''n'' then Some (18, RS_STR)
      else if ch CHR ''0'' \<le> cur_chr \<and> cur_chr \<le> ch CHR ''9'' then Some (42, RS_FLOAT)
      else Some (sch_freeze cur_chr rlt_sch)
     else if sch_stt = 7 then
      if cur_chr = ch CHR ''I'' then Some (11, RS_STR)
      else if cur_chr = ch CHR ''i'' then Some (24, RS_STR)
      else if ch CHR ''0'' \<le> cur_chr \<and> cur_chr \<le> ch CHR ''9'' then Some (42, RS_FLOAT)
      else Some (sch_freeze cur_chr rlt_sch)
     else if sch_stt = 8 then
      if cur_chr = ch CHR ''L'' then Some (35, RS_NULL)
      else Some (sch_freeze cur_chr rlt_sch)
     else if sch_stt = 9 then
      if cur_chr = ch CHR ''L'' then Some (14, RS_STR)
      else Some (sch_freeze cur_chr rlt_sch)
     else if sch_stt = 10 then
      if cur_chr = ch CHR ''L'' then Some (8, RS_STR)
      else Some (sch_freeze cur_chr rlt_sch)
     else if sch_stt = 11 then
      if cur_chr = ch CHR ''N'' then Some (5, RS_STR)
      else if cur_chr = ch CHR ''n'' then Some (20, RS_STR)
      else Some (sch_freeze cur_chr rlt_sch)
     else if sch_stt = 12 then
      if cur_chr = ch CHR ''N'' then Some (41, RS_FLOAT)
      else Some (sch_freeze cur_chr rlt_sch)
     else if sch_stt = 13 then
      if cur_chr = ch CHR ''R'' then Some (15, RS_STR)
      else if cur_chr = ch CHR ''r'' then Some (28, RS_STR)
      else Some (sch_freeze cur_chr rlt_sch)
     else if sch_stt = 14 then
      if cur_chr = ch CHR ''S'' then Some (4, RS_STR)
      else Some (sch_freeze cur_chr rlt_sch)
     else if sch_stt = 15 then
      if cur_chr = ch CHR ''U'' then Some (4, RS_STR)
      else Some (sch_freeze cur_chr rlt_sch)
     else if sch_stt = 16 then
      if cur_chr = ch CHR ''U'' then Some (10, RS_STR)
      else if cur_chr = ch CHR ''u'' then Some (23, RS_STR)
      else Some (sch_freeze cur_chr rlt_sch)
     else if sch_stt = 17 then
      if cur_chr = ch CHR ''a'' then Some (22, RS_STR)
      else Some (sch_freeze cur_chr rlt_sch)
     else if sch_stt = 18 then
      if cur_chr = ch CHR ''a'' then Some (25, RS_STR)
      else Some (sch_freeze cur_chr rlt_sch)
     else if sch_stt = 19 then
      if cur_chr = ch CHR ''e'' then Some (36, RS_BOOL)
      else Some (sch_freeze cur_chr rlt_sch)
     else if sch_stt = 20 then
      if cur_chr = ch CHR ''f'' then Some (41, RS_FLOAT)
      else Some (sch_freeze cur_chr rlt_sch)
     else if sch_stt = 21 then
      if cur_chr = ch CHR ''l'' then Some (35, RS_NULL)
      else Some (sch_freeze cur_chr rlt_sch)
     else if sch_stt = 22 then
      if cur_chr = ch CHR ''l'' then Some (27, RS_STR)
      else Some (sch_freeze cur_chr rlt_sch)
     else if sch_stt = 23 then
      if cur_chr = ch CHR ''l'' then Some (21, RS_STR)
      else Some (sch_freeze cur_chr rlt_sch)
     else if sch_stt = 24 then
      if cur_chr = ch CHR ''n'' then Some (20, RS_STR)
      else Some (sch_freeze cur_chr rlt_sch)
     else if sch_stt = 25 then
      if cur_chr = ch CHR ''n'' then Some (41, RS_FLOAT)
      else Some (sch_freeze cur_chr rlt_sch)
     else if sch_stt = 26 then
      if cur_chr = ch CHR ''r'' then Some (28, RS_STR)
      else Some (sch_freeze cur_chr rlt_sch)
     else if sch_stt = 27 then
      if cur_chr = ch CHR ''s'' then Some (19, RS_STR)
      else Some (sch_freeze cur_chr rlt_sch)
     else if sch_stt = 28 then
      if cur_chr = ch CHR ''u'' then Some (19, RS_STR)
      else Some (sch_freeze cur_chr rlt_sch)
     else if sch_stt = 29 then
      if cur_chr = ch CHR ''u'' then Some (23, RS_STR)
      else Some (sch_freeze cur_chr rlt_sch)
     else if sch_stt = 30 then
      if cur_chr = ch CHR ''+'' \<or> cur_chr = ch CHR ''-'' then Some (32, RS_STR)
      else if ch CHR ''0'' \<le> cur_chr \<and> cur_chr \<le> ch CHR ''9'' then Some (43, RS_FLOAT)
      else Some (sch_freeze cur_chr rlt_sch)
     else if sch_stt = 31 then
      if ch CHR ''0'' \<le> cur_chr \<and> cur_chr \<le> ch CHR ''7'' then Some (39, RS_INT)
      else Some (sch_freeze cur_chr rlt_sch)
     else if sch_stt = 32 then
      if ch CHR ''0'' \<le> cur_chr \<and> cur_chr \<le> ch CHR ''9'' then Some (43, RS_FLOAT)
      else Some (sch_freeze cur_chr rlt_sch)
     else if sch_stt = 33 then
      if ch CHR ''0'' \<le> cur_chr \<and> cur_chr \<le> ch CHR ''9'' \<or>
         ch CHR ''A'' \<le> cur_chr \<and> cur_chr \<le> ch CHR ''F'' \<or>
         ch CHR ''a'' \<le> cur_chr \<and> cur_chr \<le> ch CHR ''f'' then Some (40, RS_INT)
      else Some (sch_freeze cur_chr rlt_sch)
     else if sch_stt = 34 then
      None
     else if sch_stt = 35 then
      Some (sch_freeze cur_chr RS_NULL)
     else if sch_stt = 36 then
      Some (sch_freeze cur_chr RS_BOOL)
     else if sch_stt = 37 then
      if cur_chr = ch CHR ''.'' then Some (42, RS_FLOAT)
      else if cur_chr = ch CHR ''o'' then Some (31, RS_STR)
      else if cur_chr = ch CHR ''x'' then Some (33, RS_STR)
      else if cur_chr = ch CHR ''E'' \<or> cur_chr = ch CHR ''e'' then Some (30, RS_STR)
      else if ch CHR ''0'' \<le> cur_chr \<and> cur_chr \<le> ch CHR ''9'' then Some (38, RS_INT)
      else Some (sch_freeze cur_chr RS_INT)
     else if sch_stt = 38 then
      if cur_chr = ch CHR ''.'' then Some (42, RS_FLOAT)
      else if cur_chr = ch CHR ''E'' \<or> cur_chr = ch CHR ''e'' then Some (30, RS_STR)
      else if ch CHR ''0'' \<le> cur_chr \<and> cur_chr \<le> ch CHR ''9'' then Some (38, RS_INT)
      else Some (sch_freeze cur_chr RS_INT)
     else if sch_stt = 39 then
      if ch CHR ''0'' \<le> cur_chr \<and> cur_chr \<le> ch CHR ''7'' then Some (39, RS_INT)
      else Some (sch_freeze cur_chr RS_INT)
     else if sch_stt = 40 then
      if ch CHR ''0'' \<le> cur_chr \<and> cur_chr \<le> ch CHR ''9'' \<or>
         ch CHR ''A'' \<le> cur_chr \<and> cur_chr \<le> ch CHR ''F'' \<or>
         ch CHR ''a'' \<le> cur_chr \<and> cur_chr \<le> ch CHR ''f'' then Some (40, RS_INT)
      else Some (sch_freeze cur_chr RS_INT)
     else if sch_stt = 41 then
      Some (sch_freeze cur_chr RS_FLOAT)
     else if sch_stt = 42 then
      if cur_chr = ch CHR ''E'' \<or> cur_chr = ch CHR ''e'' then Some (30, RS_STR)
      else if ch CHR ''0'' \<le> cur_chr \<and> cur_chr \<le> ch CHR ''9'' then Some (42, RS_FLOAT)
      else Some (sch_freeze cur_chr RS_FLOAT)
     else if sch_stt = 43 then
      if ch CHR ''0'' \<le> cur_chr \<and> cur_chr \<le> ch CHR ''9'' then Some (43, RS_FLOAT)
      else Some (sch_freeze cur_chr RS_FLOAT)
     else Some (SCH_STT_FRZ, RS_STR))"

text \<open>The machine fed with the characters of a scalar, from the state \<^verbatim>\<open>init\<close> sets.\<close>

fun adv_sch_stts :: "int list \<Rightarrow> int \<Rightarrow> ResultSchema \<Rightarrow> ResultSchema option" where
  "adv_sch_stts [] sch_stt rlt_sch = Some rlt_sch"
| "adv_sch_stts (c # w) sch_stt rlt_sch =
     (case adv_sch_stt sch_stt c rlt_sch of
        None \<Rightarrow> None
      | Some (sch_stt, rlt_sch) \<Rightarrow> adv_sch_stts w sch_stt rlt_sch)"

definition yaml_schema :: "int list \<Rightarrow> ResultSchema option" where
  "yaml_schema w = adv_sch_stts w 0 RS_STR"

section \<open>The core schema\<close>

definition conc :: "'a list set \<Rightarrow> 'a list set \<Rightarrow> 'a list set" where
  "conc A B = {u @ v | u v. u \<in> A \<and> v \<in> B}"

definition is_dec :: "int \<Rightarrow> bool" where
  "is_dec c = (ch CHR ''0'' \<le> c \<and> c \<le> ch CHR ''9'')"

definition is_oct :: "int \<Rightarrow> bool" where
  "is_oct c = (ch CHR ''0'' \<le> c \<and> c \<le> ch CHR ''7'')"

definition is_hex :: "int \<Rightarrow> bool" where
  "is_hex c = (is_dec c \<or> ch CHR ''A'' \<le> c \<and> c \<le> ch CHR ''F'' \<or> ch CHR ''a'' \<le> c \<and> c \<le> ch CHR ''f'')"

definition many :: "('a \<Rightarrow> bool) \<Rightarrow> 'a list set" where
  "many P = {w. list_all P w}"

definition many1 :: "('a \<Rightarrow> bool) \<Rightarrow> 'a list set" where
  "many1 P = {w. w \<noteq> [] \<and> list_all P w}"

definition yaml_sign :: "int list set" where
  "yaml_sign = {[], map ch ''+'', map ch ''-''}"

text \<open>The specification types the empty scalar as null, too; it is left out, because the scanner never types one.\<close>

definition yaml_null :: "int list set" where
  "yaml_null = map ch ` {''null'', ''Null'', ''NULL'', ''~''}"

definition yaml_bool :: "int list set" where
  "yaml_bool = map ch ` {''true'', ''True'', ''TRUE'', ''false'', ''False'', ''FALSE''}"

definition yaml_int :: "int list set" where
  "yaml_int = conc yaml_sign (many1 is_dec) \<union> conc {map ch ''0o''} (many1 is_oct) \<union> conc {map ch ''0x''} (many1 is_hex)"

definition yaml_exponent :: "int list set" where
  "yaml_exponent = {[]} \<union> conc {map ch ''e'', map ch ''E''} (conc yaml_sign (many1 is_dec))"

definition yaml_mantissa :: "int list set" where
  "yaml_mantissa = conc {map ch ''.''} (many1 is_dec) \<union>
     conc (many1 is_dec) ({[]} \<union> conc {map ch ''.''} (many is_dec))"

definition yaml_float :: "int list set" where
  "yaml_float = conc yaml_sign (conc yaml_mantissa yaml_exponent) \<union>
     conc yaml_sign (map ch ` {''.inf'', ''.Inf'', ''.INF''}) \<union>
     map ch ` {''.nan'', ''.NaN'', ''.NAN''}"

definition yaml_core :: "int list \<Rightarrow> ResultSchema" where
  "yaml_core w =
     (if w \<in> yaml_null then RS_NULL
      else if w \<in> yaml_bool then RS_BOOL
      else if w \<in> yaml_int then RS_INT
      else if w \<in> yaml_float then RS_FLOAT
      else RS_STR)"

section \<open>Membership in the languages\<close>

lemma conc_Un: "conc (A \<union> B) C = conc A C \<union> conc B C" "conc C (A \<union> B) = conc C A \<union> conc C B"
  by (auto simp: conc_def)

lemma conc_assoc: "conc (conc A B) C = conc A (conc B C)"
  unfolding conc_def by (auto simp flip: append_assoc) (metis append_assoc)+

lemma conc_eps [simp]: "conc {[]} B = B" "conc B {[]} = B"
  by (auto simp: conc_def)

lemma conc_empty [simp]: "conc {} B = {}"
  by (simp add: conc_def)

lemma in_conc_insert: "w \<in> conc (insert u A) B \<longleftrightarrow> (\<exists>v. w = u @ v \<and> v \<in> B) \<or> w \<in> conc A B"
  by (auto simp: conc_def)

lemma in_many [simp]: "[] \<in> many P" "c # w \<in> many P \<longleftrightarrow> P c \<and> w \<in> many P"
  by (simp_all add: many_def)

lemma in_many1: "w \<in> many1 P \<longleftrightarrow> (\<exists>c v. w = c # v \<and> P c \<and> v \<in> many P)"
  by (cases w) (simp_all add: many1_def many_def)

lemma conc_many:
  "w \<in> conc (many P) B \<longleftrightarrow> w \<in> B \<or> (\<exists>c v. w = c # v \<and> P c \<and> v \<in> conc (many P) B)"
proof
  assume "w \<in> conc (many P) B"
  then obtain u v where "w = u @ v" "u \<in> many P" "v \<in> B" by (auto simp: conc_def)
  then show "w \<in> B \<or> (\<exists>c v. w = c # v \<and> P c \<and> v \<in> conc (many P) B)"
    by (cases u) (auto simp: conc_def)
next
  assume "w \<in> B \<or> (\<exists>c v. w = c # v \<and> P c \<and> v \<in> conc (many P) B)"
  then show "w \<in> conc (many P) B"
  proof
    assume "w \<in> B"
    then show ?thesis by (force simp: conc_def)
  next
    assume "\<exists>c v. w = c # v \<and> P c \<and> v \<in> conc (many P) B"
    then obtain c u v where "w = (c # u) @ v" "P c" "u \<in> many P" "v \<in> B" by (auto simp: conc_def)
    then show ?thesis unfolding conc_def by (intro CollectI exI [of _ "c # u"] exI [of _ v]) simp
  qed
qed

lemma conc_many1: "w \<in> conc (many1 P) B \<longleftrightarrow> (\<exists>c v. w = c # v \<and> P c \<and> v \<in> conc (many P) B)"
proof
  assume "w \<in> conc (many1 P) B"
  then obtain u v where "w = u @ v" "u \<in> many1 P" "v \<in> B" by (auto simp: conc_def)
  then show "\<exists>c v. w = c # v \<and> P c \<and> v \<in> conc (many P) B" by (cases u) (auto simp: conc_def in_many1)
next
  assume "\<exists>c v. w = c # v \<and> P c \<and> v \<in> conc (many P) B"
  then obtain c u v where "w = (c # u) @ v" "P c" "u \<in> many P" "v \<in> B" by (auto simp: conc_def)
  then show "w \<in> conc (many1 P) B" unfolding conc_def by (intro CollectI exI [of _ "c # u"] exI [of _ v]) (simp add: in_many1)
qed

lemma conc_many_step:
  "[] \<in> conc (many P) B \<longleftrightarrow> [] \<in> B"
  "c # w \<in> conc (many P) B \<longleftrightarrow> c # w \<in> B \<or> P c \<and> w \<in> conc (many P) B"
  by (subst conc_many; simp)+

lemma many1_step: "[] \<notin> many1 P" "c # w \<in> many1 P \<longleftrightarrow> P c \<and> w \<in> many P"
  by (simp_all add: in_many1)

lemma conc_many1_step: "[] \<notin> conc (many1 P) B" "c # w \<in> conc (many1 P) B \<longleftrightarrow> P c \<and> w \<in> conc (many P) B"
  by (simp_all add: conc_many1)

lemma conc_insert_step:
  "w \<in> conc (insert [] A) B \<longleftrightarrow> w \<in> B \<or> w \<in> conc A B"
  "[] \<notin> conc {[a]} B"
  "c # w \<in> conc {[a]} B \<longleftrightarrow> c = a \<and> w \<in> B"
  "[] \<in> conc (insert (a # u) A) B \<longleftrightarrow> [] \<in> conc A B"
  "c # w \<in> conc (insert (a # u) A) B \<longleftrightarrow> c = a \<and> w \<in> conc {u} B \<or> c # w \<in> conc A B"
  by (auto simp: in_conc_insert)

lemmas lang_steps = conc_many_step many1_step conc_many1_step conc_insert_step

text \<open>In a proof about a state, the comparisons of the source fold to the digit classes.\<close>

lemma digit_fold: "(48 \<le> c \<and> c \<le> 57) = is_dec c" "is_dec (numeral k) \<longleftrightarrow> 48 \<le> (numeral k :: int) \<and> (numeral k :: int) \<le> 57"
  by (simp_all add: is_dec_def)

lemmas number_defs = yaml_sign_def yaml_exponent_def is_dec_def is_oct_def is_hex_def

section \<open>What each state accepts\<close>

text \<open>A scalar has no blank or line break at its end, and none of these is fed before it.\<close>

definition is_terminator :: "int \<Rightarrow> bool" where
  "is_terminator c = (c \<in> {ch CHR 0x0D, ch CHR 0x0A, ch CHR '' '', 0})"

abbreviation solid :: "int list \<Rightarrow> bool" where
  "solid \<equiv> list_all (\<lambda>c. \<not> is_terminator c)"

named_theorems sch_state \<open>the type a scalar gets from each state of the machine\<close>

lemmas machine = adv_sch_stt_def sch_freeze_def SCH_STT_FRZ_def is_terminator_def

lemma state_frozen [sch_state]: "solid w \<Longrightarrow> adv_sch_stts w (-1) r = Some (if w = [] then r else RS_STR)"
proof (induction w arbitrary: r)
  case (Cons c w)
  then show ?case by (simp add: machine)
qed simp

text \<open>The words: the states behind each prefix, from the last character to the first.\<close>

lemma states_complete [sch_state]:
  assumes "solid w"
  shows "adv_sch_stts w 35 RS_NULL = Some (if w = [] then RS_NULL else RS_STR)"
    "adv_sch_stts w 36 RS_BOOL = Some (if w = [] then RS_BOOL else RS_STR)"
    "adv_sch_stts w 41 RS_FLOAT = Some (if w = [] then RS_FLOAT else RS_STR)"
   using assms by (cases w; simp add: machine sch_state [unfolded machine])+

lemma states_last [sch_state]:
  assumes "solid w"
  shows "adv_sch_stts w 21 RS_STR = Some (if w = map ch ''l'' then RS_NULL else RS_STR)"
    "adv_sch_stts w 8 RS_STR = Some (if w = map ch ''L'' then RS_NULL else RS_STR)"
    "adv_sch_stts w 19 RS_STR = Some (if w = map ch ''e'' then RS_BOOL else RS_STR)"
    "adv_sch_stts w 4 RS_STR = Some (if w = map ch ''E'' then RS_BOOL else RS_STR)"
    "adv_sch_stts w 20 RS_STR = Some (if w = map ch ''f'' then RS_FLOAT else RS_STR)"
    "adv_sch_stts w 5 RS_STR = Some (if w = map ch ''F'' then RS_FLOAT else RS_STR)"
    "adv_sch_stts w 12 RS_STR = Some (if w = map ch ''N'' then RS_FLOAT else RS_STR)"
    "adv_sch_stts w 25 RS_STR = Some (if w = map ch ''n'' then RS_FLOAT else RS_STR)"
   using assms by (cases w; simp add: machine sch_state [unfolded machine])+

lemma states_second_last [sch_state]:
  assumes "solid w"
  shows "adv_sch_stts w 23 RS_STR = Some (if w = map ch ''ll'' then RS_NULL else RS_STR)"
    "adv_sch_stts w 10 RS_STR = Some (if w = map ch ''LL'' then RS_NULL else RS_STR)"
    "adv_sch_stts w 27 RS_STR = Some (if w = map ch ''se'' then RS_BOOL else RS_STR)"
    "adv_sch_stts w 28 RS_STR = Some (if w = map ch ''ue'' then RS_BOOL else RS_STR)"
    "adv_sch_stts w 14 RS_STR = Some (if w = map ch ''SE'' then RS_BOOL else RS_STR)"
    "adv_sch_stts w 15 RS_STR = Some (if w = map ch ''UE'' then RS_BOOL else RS_STR)"
    "adv_sch_stts w 24 RS_STR = Some (if w = map ch ''nf'' then RS_FLOAT else RS_STR)"
    "adv_sch_stts w 11 RS_STR = Some (if w = map ch ''nf'' \<or> w = map ch ''NF'' then RS_FLOAT else RS_STR)"
    "adv_sch_stts w 3 RS_STR = Some (if w = map ch ''aN'' \<or> w = map ch ''AN'' then RS_FLOAT else RS_STR)"
    "adv_sch_stts w 18 RS_STR = Some (if w = map ch ''an'' then RS_FLOAT else RS_STR)"
   using assms by (cases w; simp add: machine sch_state [unfolded machine])+

lemma states_third_last [sch_state]:
  assumes "solid w"
  shows "adv_sch_stts w 29 RS_STR = Some (if w = map ch ''ull'' then RS_NULL else RS_STR)"
    "adv_sch_stts w 16 RS_STR = Some (if w = map ch ''ull'' \<or> w = map ch ''ULL'' then RS_NULL else RS_STR)"
    "adv_sch_stts w 22 RS_STR = Some (if w = map ch ''lse'' then RS_BOOL else RS_STR)"
    "adv_sch_stts w 26 RS_STR = Some (if w = map ch ''rue'' then RS_BOOL else RS_STR)"
    "adv_sch_stts w 9 RS_STR = Some (if w = map ch ''LSE'' then RS_BOOL else RS_STR)"
    "adv_sch_stts w 13 RS_STR = Some (if w = map ch ''rue'' \<or> w = map ch ''RUE'' then RS_BOOL else RS_STR)"
   using assms by (cases w; simp add: machine sch_state [unfolded machine])+

lemma states_fourth_last [sch_state]:
  assumes "solid w"
  shows "adv_sch_stts w 17 RS_STR = Some (if w = map ch ''alse'' then RS_BOOL else RS_STR)"
    "adv_sch_stts w 2 RS_STR = Some (if w = map ch ''alse'' \<or> w = map ch ''ALSE'' then RS_BOOL else RS_STR)"
   using assms by (cases w; simp add: machine sch_state [unfolded machine])+

text \<open>The numbers.\<close>

lemma state_exponent_digits [sch_state]:
  "solid w \<Longrightarrow> adv_sch_stts w 43 RS_FLOAT = Some (if w \<in> many is_dec then RS_FLOAT else RS_STR)"
proof (induction w)
  case (Cons c w)
  then show ?case by (simp add: machine state_frozen [unfolded machine] is_dec_def)
qed simp

lemma state_exponent_first [sch_state]:
  "solid w \<Longrightarrow> adv_sch_stts w 32 RS_STR = Some (if w \<in> many1 is_dec then RS_FLOAT else RS_STR)"
  by (cases w) (simp_all add: machine sch_state [unfolded machine] lang_steps number_defs)

lemma state_exponent [sch_state]:
  "solid w \<Longrightarrow> adv_sch_stts w 30 RS_STR = Some (if w \<in> conc yaml_sign (many1 is_dec) then RS_FLOAT else RS_STR)"
  by (cases w) (simp_all add: machine sch_state [unfolded machine] lang_steps number_defs)

lemma state_fraction [sch_state]:
  "solid w \<Longrightarrow> adv_sch_stts w 42 RS_FLOAT = Some (if w \<in> conc (many is_dec) yaml_exponent then RS_FLOAT else RS_STR)"
proof (induction w)
  case (Cons c w)
  then show ?case by (simp add: machine sch_state [unfolded machine] lang_steps number_defs)
qed (simp add: lang_steps number_defs)

lemma states_octal [sch_state]:
  assumes "solid w"
  shows "adv_sch_stts w 39 RS_INT = Some (if w \<in> many is_oct then RS_INT else RS_STR)"
  using assms
proof (induction w)
  case (Cons c w)
  then show ?case by (simp add: machine sch_state [unfolded machine] lang_steps number_defs)
qed simp

lemma states_hexadecimal [sch_state]:
  assumes "solid w"
  shows "adv_sch_stts w 40 RS_INT = Some (if w \<in> many is_hex then RS_INT else RS_STR)"
  using assms
proof (induction w)
  case (Cons c w)
  then show ?case by (simp add: machine sch_state [unfolded machine] lang_steps number_defs)
qed simp

lemma states_based [sch_state]:
  assumes "solid w"
  shows "adv_sch_stts w 31 RS_STR = Some (if w \<in> many1 is_oct then RS_INT else RS_STR)"
    and "adv_sch_stts w 33 RS_STR = Some (if w \<in> many1 is_hex then RS_INT else RS_STR)"
  using assms by (cases w; simp add: machine sch_state [unfolded machine] lang_steps number_defs)+

text \<open>What may follow the digits before the point of a number that is not an integer.\<close>

definition after_digits :: "int list set" where
  "after_digits = conc ({[]} \<union> conc {map ch ''.''} (many is_dec)) yaml_exponent"

lemma after_digits_step:
  "[] \<in> after_digits"
  "c # w \<in> after_digits \<longleftrightarrow>
     c = ch CHR ''.'' \<and> w \<in> conc (many is_dec) yaml_exponent \<or> c # w \<in> yaml_exponent"
  by (auto simp: after_digits_def conc_Un conc_assoc lang_steps yaml_exponent_def)

lemma state_integer [sch_state]:
  "solid w \<Longrightarrow> adv_sch_stts w 38 RS_INT =
     Some (if w \<in> many is_dec then RS_INT
           else if w \<in> conc (many is_dec) after_digits then RS_FLOAT else RS_STR)"
proof (induction w)
  case (Cons c w)
  then show ?case
    by (auto simp: machine sch_state [unfolded machine] lang_steps after_digits_step yaml_exponent_def digit_fold)
qed (simp add: lang_steps after_digits_step)

lemma state_sign_point [sch_state]:
  "solid w \<Longrightarrow> adv_sch_stts w 7 RS_STR =
     Some (if w \<in> conc (many1 is_dec) yaml_exponent \<or> w \<in> map ch ` {''inf'', ''Inf'', ''INF''} then RS_FLOAT else RS_STR)"
  by (cases w) (simp_all add: machine sch_state [unfolded machine] lang_steps number_defs)

lemma state_point [sch_state]:
  "solid w \<Longrightarrow> adv_sch_stts w 6 RS_STR =
     Some (if w \<in> conc (many1 is_dec) yaml_exponent
              \<or> w \<in> map ch ` {''inf'', ''Inf'', ''INF'', ''nan'', ''NaN'', ''NAN''} then RS_FLOAT else RS_STR)"
  by (cases w) (simp_all add: machine sch_state [unfolded machine] lang_steps number_defs)

text \<open>The first characters of a number.\<close>

lemma state_zero [sch_state]:
  assumes "solid w"
  shows "adv_sch_stts w 37 RS_INT =
     Some (if w \<in> many is_dec \<or> w \<in> conc {map ch ''o''} (many1 is_oct) \<or> w \<in> conc {map ch ''x''} (many1 is_hex) then RS_INT
           else if w \<in> conc (many is_dec) after_digits then RS_FLOAT else RS_STR)"
  using assms
  by (cases w) (auto simp: machine sch_state [unfolded machine] lang_steps after_digits_step yaml_exponent_def digit_fold)

definition yaml_inf :: "int list set" where
  "yaml_inf = map ch ` {''.inf'', ''.Inf'', ''.INF''}"

definition unsigned_float :: "int list set" where
  "unsigned_float = conc yaml_mantissa yaml_exponent \<union> yaml_inf"

lemma unsigned_float_step:
  "[] \<notin> unsigned_float"
  "c # w \<in> unsigned_float \<longleftrightarrow>
     c = ch CHR ''.'' \<and> (w \<in> conc (many1 is_dec) yaml_exponent \<or> w \<in> map ch ` {''inf'', ''Inf'', ''INF''}) \<or>
     is_dec c \<and> w \<in> conc (many is_dec) after_digits"
  by (auto simp: unsigned_float_def yaml_mantissa_def yaml_inf_def after_digits_def conc_Un conc_assoc lang_steps)

lemma state_sign [sch_state]:
  assumes "solid w"
  shows "adv_sch_stts w 1 RS_STR =
     Some (if w \<in> many1 is_dec then RS_INT else if w \<in> unsigned_float then RS_FLOAT else RS_STR)"
  using assms
  by (cases w) (auto simp: machine sch_state [unfolded machine] lang_steps unsigned_float_step digit_fold)

lemma state_start:
  assumes "solid w"
  shows "adv_sch_stts w 0 RS_STR = Some (yaml_core w)"
proof -
  have int: "[] \<notin> yaml_int"
    "c # v \<in> yaml_int \<longleftrightarrow> (c = ch CHR ''+'' \<or> c = ch CHR ''-'') \<and> v \<in> many1 is_dec \<or> is_dec c \<and> v \<in> many is_dec \<or>
       c = ch CHR ''0'' \<and> (v \<in> conc {map ch ''o''} (many1 is_oct) \<or> v \<in> conc {map ch ''x''} (many1 is_hex))" for c v
    by (auto simp: yaml_int_def yaml_sign_def lang_steps)
  have eq: "yaml_float = conc yaml_sign unsigned_float \<union> map ch ` {''.nan'', ''.NaN'', ''.NAN''}"
    unfolding yaml_float_def unsigned_float_def yaml_inf_def conc_Un by (rule refl)
  have "x \<in> yaml_float \<longleftrightarrow> x \<in> conc yaml_sign unsigned_float \<or> x \<in> map ch ` {''.nan'', ''.NaN'', ''.NAN''}" for x
    unfolding eq by (rule Un_iff)
  then have float: "[] \<notin> yaml_float"
    "c # v \<in> yaml_float \<longleftrightarrow> c # v \<in> unsigned_float \<or> (c = ch CHR ''+'' \<or> c = ch CHR ''-'') \<and> v \<in> unsigned_float \<or>
       c = ch CHR ''.'' \<and> v \<in> map ch ` {''nan'', ''NaN'', ''NAN''}" for c v
    by (auto simp: yaml_sign_def conc_insert_step unsigned_float_step(1))
  have digit: "(49 \<le> c \<and> c \<le> 57) = (is_dec c \<and> c \<noteq> 48)" for c
    by (auto simp: is_dec_def)
  show ?thesis
    using assms
    by (cases w)
      (auto simp: machine sch_state [unfolded machine] yaml_core_def yaml_null_def yaml_bool_def int float
        unsigned_float_step lang_steps digit digit_fold)
qed

section \<open>What follows a scalar\<close>

text \<open>
  The type the machine keeps in each state it can be in; the frozen state keeps the type
  it was entered with. State 34, which aborts, is not among them.
\<close>

definition sch_ok :: "int \<Rightarrow> ResultSchema \<Rightarrow> bool" where
  "sch_ok s r = (s = SCH_STT_FRZ \<or> 0 \<le> s \<and> s \<le> 43 \<and> s \<noteq> 34 \<and>
     r = (if s = 35 then RS_NULL else if s = 36 then RS_BOOL else if 37 \<le> s \<and> s \<le> 40 then RS_INT
          else if 41 \<le> s then RS_FLOAT else RS_STR))"

lemma sch_states: "{0..43::int} = {0, 1, 2, 3, 4, 5, 6, 7, 8, 9, 10, 11, 12, 13, 14, 15, 16, 17, 18, 19, 20, 21, 22, 23, 24, 25, 26, 27,
     28, 29, 30, 31, 32, 33, 34, 35, 36, 37, 38, 39, 40, 41, 42, 43}"
  by (simp add: upto_rec1 flip: set_upto)

lemma sch_ok_cases: "sch_ok s r \<Longrightarrow> s \<in> insert (-1) {0..43}"
  unfolding sch_ok_def SCH_STT_FRZ_def insert_iff atLeastAtMost_iff by blast

lemmas sch_ok_elim = sch_ok_cases [unfolded sch_states]

lemma adv_sch_stt_ok:
  assumes "sch_ok s r"
  shows "case adv_sch_stt s c r of None \<Rightarrow> False | Some (s', r') \<Rightarrow> sch_ok s' r'"
    and "is_terminator c \<Longrightarrow> adv_sch_stt s c r = Some (SCH_STT_FRZ, r)"
proof -
  show "case adv_sch_stt s c r of None \<Rightarrow> False | Some (s', r') \<Rightarrow> sch_ok s' r'"
    using sch_ok_elim [OF assms] assms by (elim insertE emptyE; simp add: machine sch_ok_def)
  show "adv_sch_stt s c r = Some (SCH_STT_FRZ, r)" if "is_terminator c"
    using sch_ok_elim [OF assms] assms that by (elim insertE emptyE; auto simp: machine sch_ok_def)
qed

lemma adv_sch_stts_frozen:
  "adv_sch_stts t SCH_STT_FRZ r = Some (if list_all is_terminator t then r else RS_STR)"
  by (induction t arbitrary: r) (auto simp: machine)

lemma adv_sch_stts_end:
  assumes "sch_ok s r" "is_terminator c"
  shows "adv_sch_stts (w @ c # t) s r =
    map_option (\<lambda>r. if list_all is_terminator t then r else RS_STR) (adv_sch_stts w s r)"
  using assms
proof (induction w arbitrary: s r)
  case Nil
  then show ?case by (simp add: adv_sch_stt_ok adv_sch_stts_frozen)
next
  case (Cons d w)
  then obtain s' r' where "adv_sch_stt s d r = Some (s', r')" "sch_ok s' r'"
    using adv_sch_stt_ok(1) [of s r d] by (auto split: option.splits)
  with Cons show ?case by simp
qed

lemma conc_lists: "A \<subseteq> lists S \<Longrightarrow> B \<subseteq> lists S \<Longrightarrow> conc A B \<subseteq> lists S"
  unfolding conc_def lists_eq_set by (simp add: subset_iff) (metis Un_iff set_append)

lemma many_lists: "(\<And>c. P c \<Longrightarrow> c \<in> S) \<Longrightarrow> many P \<subseteq> lists S" "(\<And>c. P c \<Longrightarrow> c \<in> S) \<Longrightarrow> many1 P \<subseteq> lists S"
  by (auto simp: many_def many1_def list_all_iff)

lemma yaml_core_alphabet:
  fixes S :: "int set"
  defines "S \<equiv> {c. c \<noteq> ch CHR 0x09}"
  shows "yaml_null \<union> yaml_bool \<union> yaml_int \<union> yaml_float \<subseteq> lists S"
  unfolding yaml_null_def yaml_bool_def yaml_int_def yaml_float_def yaml_mantissa_def yaml_exponent_def yaml_sign_def
  by (intro Un_least conc_lists many_lists) (auto simp: S_def is_dec_def is_oct_def is_hex_def)

lemma yaml_schema_trailing:
  "yaml_schema x =
     Some (if list_all is_terminator (dropWhile (\<lambda>c. \<not> is_terminator c) x)
           then yaml_core (takeWhile (\<lambda>c. \<not> is_terminator c) x) else RS_STR)"
proof -
  define w t where "w = takeWhile (\<lambda>c. \<not> is_terminator c) x" and "t = dropWhile (\<lambda>c. \<not> is_terminator c) x"
  have x: "x = w @ t" by (simp add: w_def t_def)
  have "solid w" by (auto simp: w_def list_all_iff dest: set_takeWhileD)
  note start = state_start [OF this]
  have "yaml_schema (w @ t) = Some (if list_all is_terminator t then yaml_core w else RS_STR)"
  proof (cases t)
    case Nil
    with start show ?thesis by (simp add: yaml_schema_def)
  next
    case (Cons c u)
    then have "is_terminator c" using hd_dropWhile [of "\<lambda>c. \<not> is_terminator c" x] by (simp add: t_def)
    moreover have "sch_ok 0 RS_STR" by (simp add: sch_ok_def)
    ultimately show ?thesis using start Cons by (simp add: yaml_schema_def adv_sch_stts_end)
  qed
  then show ?thesis by (simp add: x [symmetric] flip: w_def t_def)
qed

section \<open>Properties\<close>

text \<open>C6.
  The state machine computes the core schema of YAML. On every sequence of characters it
  returns, without reaching the state that aborts. The characters before the first line
  break, blank or NUL decide the type, which is the type the languages of the
  specification give: null, boolean, integer, floating-point number or string. Line
  breaks, blanks and NULs behind them leave the type as it is, and anything else behind
  them makes the scalar a string.
\<close>
theorem yaml_schema_core:
  "yaml_schema x =
     Some (if list_all is_terminator (dropWhile (\<lambda>c. \<not> is_terminator c) x)
           then yaml_core (takeWhile (\<lambda>c. \<not> is_terminator c) x) else RS_STR)"
  by (rule yaml_schema_trailing)

text \<open>
  A tab makes a scalar a string, also when it only follows the scalar: the machine is fed
  the blanks behind a scalar, and a tab is not among the characters that leave the type as
  it is.
\<close>
lemma yaml_tab_makes_string:
  assumes "ch CHR 0x09 \<in> set x"
  shows "yaml_schema x = Some RS_STR"
proof -
  define w t where "w = takeWhile (\<lambda>c. \<not> is_terminator c) x" and "t = dropWhile (\<lambda>c. \<not> is_terminator c) x"
  have "set x = set w \<union> set t" by (simp add: w_def t_def flip: set_append)
  then consider "ch CHR 0x09 \<in> set w" | "ch CHR 0x09 \<in> set t" using assms by blast
  then have "list_all is_terminator t \<Longrightarrow> yaml_core w = RS_STR"
  proof cases
    case 1
    then have "w \<notin> yaml_null \<union> yaml_bool \<union> yaml_int \<union> yaml_float" using yaml_core_alphabet by blast
    then show ?thesis by (simp add: yaml_core_def)
  next
    assume "list_all is_terminator t"
    moreover case 2
    ultimately show ?thesis by (auto simp: list_all_iff is_terminator_def)
  qed
  then show ?thesis by (simp add: yaml_schema_trailing flip: w_def t_def)
qed

end
