(* ===== verification/Yaml_Scanner.thy ===== *)
theory Yaml_Scanner
  imports Yaml_Schema TS_Serialize
begin

text \<open>
  The YAML scanner, \<^verbatim>\<open>yaml/src/scanner.c\<close>: block structure by indentation, directives,
  tags, anchors, quoted, block and plain scalars. Its state is the position behind the
  last token, the position of the last node that may turn out to be an implicit key, and
  two stacks that grow and shrink together: the kinds of the open blocks and their
  indentations, the innermost last. Rows, columns and indentations are \<^verbatim>\<open>int16_t\<close>. The
  temporary part of the state counts rows and columns while a token is read and runs the
  machine of \<open>Yaml_Schema\<close> over plain scalars.

  The tokens keep the numbers the enumeration gives them. The functions \<^verbatim>\<open>scn_*\<close> have
  the prefix \<open>yaml_\<close>; \<^verbatim>\<open>scan\<close> is split into its blocks.

  The theory holds the model; what is shown of it is in \<open>Yaml_Blocks\<close>, \<open>Yaml_Scan\<close>,
  \<open>Yaml_Scalars\<close> and \<open>Yaml_Save\<close>.
\<close>

section \<open>Tokens and state\<close>

type_synonym yaml_token = nat

abbreviation END_OF_FILE :: yaml_token where "END_OF_FILE \<equiv> 0"
abbreviation S_DIR_YML_BGN :: yaml_token where "S_DIR_YML_BGN \<equiv> 1"
abbreviation R_DIR_YML_VER :: yaml_token where "R_DIR_YML_VER \<equiv> 2"
abbreviation S_DIR_TAG_BGN :: yaml_token where "S_DIR_TAG_BGN \<equiv> 3"
abbreviation R_DIR_TAG_HDL :: yaml_token where "R_DIR_TAG_HDL \<equiv> 4"
abbreviation R_DIR_TAG_PFX :: yaml_token where "R_DIR_TAG_PFX \<equiv> 5"
abbreviation S_DIR_RSV_BGN :: yaml_token where "S_DIR_RSV_BGN \<equiv> 6"
abbreviation R_DIR_RSV_PRM :: yaml_token where "R_DIR_RSV_PRM \<equiv> 7"
abbreviation S_DRS_END :: yaml_token where "S_DRS_END \<equiv> 8"
abbreviation S_DOC_END :: yaml_token where "S_DOC_END \<equiv> 9"
abbreviation R_BLK_SEQ_BGN :: yaml_token where "R_BLK_SEQ_BGN \<equiv> 10"
abbreviation BR_BLK_SEQ_BGN :: yaml_token where "BR_BLK_SEQ_BGN \<equiv> 11"
abbreviation B_BLK_SEQ_BGN :: yaml_token where "B_BLK_SEQ_BGN \<equiv> 12"
abbreviation R_BLK_KEY_BGN :: yaml_token where "R_BLK_KEY_BGN \<equiv> 13"
abbreviation BR_BLK_KEY_BGN :: yaml_token where "BR_BLK_KEY_BGN \<equiv> 14"
abbreviation B_BLK_KEY_BGN :: yaml_token where "B_BLK_KEY_BGN \<equiv> 15"
abbreviation R_BLK_VAL_BGN :: yaml_token where "R_BLK_VAL_BGN \<equiv> 16"
abbreviation BR_BLK_VAL_BGN :: yaml_token where "BR_BLK_VAL_BGN \<equiv> 17"
abbreviation B_BLK_VAL_BGN :: yaml_token where "B_BLK_VAL_BGN \<equiv> 18"
abbreviation R_BLK_IMP_BGN :: yaml_token where "R_BLK_IMP_BGN \<equiv> 19"
abbreviation R_BLK_LIT_BGN :: yaml_token where "R_BLK_LIT_BGN \<equiv> 20"
abbreviation BR_BLK_LIT_BGN :: yaml_token where "BR_BLK_LIT_BGN \<equiv> 21"
abbreviation R_BLK_FLD_BGN :: yaml_token where "R_BLK_FLD_BGN \<equiv> 22"
abbreviation BR_BLK_FLD_BGN :: yaml_token where "BR_BLK_FLD_BGN \<equiv> 23"
abbreviation BR_BLK_STR_CTN :: yaml_token where "BR_BLK_STR_CTN \<equiv> 24"
abbreviation R_FLW_SEQ_BGN :: yaml_token where "R_FLW_SEQ_BGN \<equiv> 25"
abbreviation BR_FLW_SEQ_BGN :: yaml_token where "BR_FLW_SEQ_BGN \<equiv> 26"
abbreviation B_FLW_SEQ_BGN :: yaml_token where "B_FLW_SEQ_BGN \<equiv> 27"
abbreviation R_FLW_SEQ_END :: yaml_token where "R_FLW_SEQ_END \<equiv> 28"
abbreviation BR_FLW_SEQ_END :: yaml_token where "BR_FLW_SEQ_END \<equiv> 29"
abbreviation B_FLW_SEQ_END :: yaml_token where "B_FLW_SEQ_END \<equiv> 30"
abbreviation R_FLW_MAP_BGN :: yaml_token where "R_FLW_MAP_BGN \<equiv> 31"
abbreviation BR_FLW_MAP_BGN :: yaml_token where "BR_FLW_MAP_BGN \<equiv> 32"
abbreviation B_FLW_MAP_BGN :: yaml_token where "B_FLW_MAP_BGN \<equiv> 33"
abbreviation R_FLW_MAP_END :: yaml_token where "R_FLW_MAP_END \<equiv> 34"
abbreviation BR_FLW_MAP_END :: yaml_token where "BR_FLW_MAP_END \<equiv> 35"
abbreviation B_FLW_MAP_END :: yaml_token where "B_FLW_MAP_END \<equiv> 36"
abbreviation R_FLW_SEP_BGN :: yaml_token where "R_FLW_SEP_BGN \<equiv> 37"
abbreviation BR_FLW_SEP_BGN :: yaml_token where "BR_FLW_SEP_BGN \<equiv> 38"
abbreviation R_FLW_KEY_BGN :: yaml_token where "R_FLW_KEY_BGN \<equiv> 39"
abbreviation BR_FLW_KEY_BGN :: yaml_token where "BR_FLW_KEY_BGN \<equiv> 40"
abbreviation R_FLW_JSV_BGN :: yaml_token where "R_FLW_JSV_BGN \<equiv> 41"
abbreviation BR_FLW_JSV_BGN :: yaml_token where "BR_FLW_JSV_BGN \<equiv> 42"
abbreviation R_FLW_NJV_BGN :: yaml_token where "R_FLW_NJV_BGN \<equiv> 43"
abbreviation BR_FLW_NJV_BGN :: yaml_token where "BR_FLW_NJV_BGN \<equiv> 44"
abbreviation R_DQT_STR_BGN :: yaml_token where "R_DQT_STR_BGN \<equiv> 45"
abbreviation BR_DQT_STR_BGN :: yaml_token where "BR_DQT_STR_BGN \<equiv> 46"
abbreviation B_DQT_STR_BGN :: yaml_token where "B_DQT_STR_BGN \<equiv> 47"
abbreviation R_DQT_STR_CTN :: yaml_token where "R_DQT_STR_CTN \<equiv> 48"
abbreviation BR_DQT_STR_CTN :: yaml_token where "BR_DQT_STR_CTN \<equiv> 49"
abbreviation R_DQT_ESC_NWL :: yaml_token where "R_DQT_ESC_NWL \<equiv> 50"
abbreviation BR_DQT_ESC_NWL :: yaml_token where "BR_DQT_ESC_NWL \<equiv> 51"
abbreviation R_DQT_ESC_SEQ :: yaml_token where "R_DQT_ESC_SEQ \<equiv> 52"
abbreviation BR_DQT_ESC_SEQ :: yaml_token where "BR_DQT_ESC_SEQ \<equiv> 53"
abbreviation R_DQT_STR_END :: yaml_token where "R_DQT_STR_END \<equiv> 54"
abbreviation BR_DQT_STR_END :: yaml_token where "BR_DQT_STR_END \<equiv> 55"
abbreviation R_SQT_STR_BGN :: yaml_token where "R_SQT_STR_BGN \<equiv> 56"
abbreviation BR_SQT_STR_BGN :: yaml_token where "BR_SQT_STR_BGN \<equiv> 57"
abbreviation B_SQT_STR_BGN :: yaml_token where "B_SQT_STR_BGN \<equiv> 58"
abbreviation R_SQT_STR_CTN :: yaml_token where "R_SQT_STR_CTN \<equiv> 59"
abbreviation BR_SQT_STR_CTN :: yaml_token where "BR_SQT_STR_CTN \<equiv> 60"
abbreviation R_SQT_ESC_SQT :: yaml_token where "R_SQT_ESC_SQT \<equiv> 61"
abbreviation BR_SQT_ESC_SQT :: yaml_token where "BR_SQT_ESC_SQT \<equiv> 62"
abbreviation R_SQT_STR_END :: yaml_token where "R_SQT_STR_END \<equiv> 63"
abbreviation BR_SQT_STR_END :: yaml_token where "BR_SQT_STR_END \<equiv> 64"
abbreviation R_SGL_PLN_NUL_BLK :: yaml_token where "R_SGL_PLN_NUL_BLK \<equiv> 65"
abbreviation BR_SGL_PLN_NUL_BLK :: yaml_token where "BR_SGL_PLN_NUL_BLK \<equiv> 66"
abbreviation B_SGL_PLN_NUL_BLK :: yaml_token where "B_SGL_PLN_NUL_BLK \<equiv> 67"
abbreviation R_SGL_PLN_NUL_FLW :: yaml_token where "R_SGL_PLN_NUL_FLW \<equiv> 68"
abbreviation BR_SGL_PLN_NUL_FLW :: yaml_token where "BR_SGL_PLN_NUL_FLW \<equiv> 69"
abbreviation R_SGL_PLN_BOL_BLK :: yaml_token where "R_SGL_PLN_BOL_BLK \<equiv> 70"
abbreviation BR_SGL_PLN_BOL_BLK :: yaml_token where "BR_SGL_PLN_BOL_BLK \<equiv> 71"
abbreviation B_SGL_PLN_BOL_BLK :: yaml_token where "B_SGL_PLN_BOL_BLK \<equiv> 72"
abbreviation R_SGL_PLN_BOL_FLW :: yaml_token where "R_SGL_PLN_BOL_FLW \<equiv> 73"
abbreviation BR_SGL_PLN_BOL_FLW :: yaml_token where "BR_SGL_PLN_BOL_FLW \<equiv> 74"
abbreviation R_SGL_PLN_INT_BLK :: yaml_token where "R_SGL_PLN_INT_BLK \<equiv> 75"
abbreviation BR_SGL_PLN_INT_BLK :: yaml_token where "BR_SGL_PLN_INT_BLK \<equiv> 76"
abbreviation B_SGL_PLN_INT_BLK :: yaml_token where "B_SGL_PLN_INT_BLK \<equiv> 77"
abbreviation R_SGL_PLN_INT_FLW :: yaml_token where "R_SGL_PLN_INT_FLW \<equiv> 78"
abbreviation BR_SGL_PLN_INT_FLW :: yaml_token where "BR_SGL_PLN_INT_FLW \<equiv> 79"
abbreviation R_SGL_PLN_FLT_BLK :: yaml_token where "R_SGL_PLN_FLT_BLK \<equiv> 80"
abbreviation BR_SGL_PLN_FLT_BLK :: yaml_token where "BR_SGL_PLN_FLT_BLK \<equiv> 81"
abbreviation B_SGL_PLN_FLT_BLK :: yaml_token where "B_SGL_PLN_FLT_BLK \<equiv> 82"
abbreviation R_SGL_PLN_FLT_FLW :: yaml_token where "R_SGL_PLN_FLT_FLW \<equiv> 83"
abbreviation BR_SGL_PLN_FLT_FLW :: yaml_token where "BR_SGL_PLN_FLT_FLW \<equiv> 84"
abbreviation R_SGL_PLN_TMS_BLK :: yaml_token where "R_SGL_PLN_TMS_BLK \<equiv> 85"
abbreviation BR_SGL_PLN_TMS_BLK :: yaml_token where "BR_SGL_PLN_TMS_BLK \<equiv> 86"
abbreviation B_SGL_PLN_TMS_BLK :: yaml_token where "B_SGL_PLN_TMS_BLK \<equiv> 87"
abbreviation R_SGL_PLN_TMS_FLW :: yaml_token where "R_SGL_PLN_TMS_FLW \<equiv> 88"
abbreviation BR_SGL_PLN_TMS_FLW :: yaml_token where "BR_SGL_PLN_TMS_FLW \<equiv> 89"
abbreviation R_SGL_PLN_STR_BLK :: yaml_token where "R_SGL_PLN_STR_BLK \<equiv> 90"
abbreviation BR_SGL_PLN_STR_BLK :: yaml_token where "BR_SGL_PLN_STR_BLK \<equiv> 91"
abbreviation B_SGL_PLN_STR_BLK :: yaml_token where "B_SGL_PLN_STR_BLK \<equiv> 92"
abbreviation R_SGL_PLN_STR_FLW :: yaml_token where "R_SGL_PLN_STR_FLW \<equiv> 93"
abbreviation BR_SGL_PLN_STR_FLW :: yaml_token where "BR_SGL_PLN_STR_FLW \<equiv> 94"
abbreviation R_MTL_PLN_STR_BLK :: yaml_token where "R_MTL_PLN_STR_BLK \<equiv> 95"
abbreviation BR_MTL_PLN_STR_BLK :: yaml_token where "BR_MTL_PLN_STR_BLK \<equiv> 96"
abbreviation R_MTL_PLN_STR_FLW :: yaml_token where "R_MTL_PLN_STR_FLW \<equiv> 97"
abbreviation BR_MTL_PLN_STR_FLW :: yaml_token where "BR_MTL_PLN_STR_FLW \<equiv> 98"
abbreviation R_TAG :: yaml_token where "R_TAG \<equiv> 99"
abbreviation BR_TAG :: yaml_token where "BR_TAG \<equiv> 100"
abbreviation B_TAG :: yaml_token where "B_TAG \<equiv> 101"
abbreviation R_ACR_BGN :: yaml_token where "R_ACR_BGN \<equiv> 102"
abbreviation BR_ACR_BGN :: yaml_token where "BR_ACR_BGN \<equiv> 103"
abbreviation B_ACR_BGN :: yaml_token where "B_ACR_BGN \<equiv> 104"
abbreviation R_ACR_CTN :: yaml_token where "R_ACR_CTN \<equiv> 105"
abbreviation R_ALS_BGN :: yaml_token where "R_ALS_BGN \<equiv> 106"
abbreviation BR_ALS_BGN :: yaml_token where "BR_ALS_BGN \<equiv> 107"
abbreviation B_ALS_BGN :: yaml_token where "B_ALS_BGN \<equiv> 108"
abbreviation R_ALS_CTN :: yaml_token where "R_ALS_CTN \<equiv> 109"
abbreviation BL :: yaml_token where "BL \<equiv> 110"
abbreviation COMMENT :: yaml_token where "COMMENT \<equiv> 111"
abbreviation ERR_REC :: yaml_token where "ERR_REC \<equiv> 112"

abbreviation IND_ROT :: int16 where "IND_ROT \<equiv> of_char CHR ''r''"
abbreviation IND_MAP :: int16 where "IND_MAP \<equiv> of_char CHR ''m''"
abbreviation IND_SEQ :: int16 where "IND_SEQ \<equiv> of_char CHR ''q''"
abbreviation IND_STR :: int16 where "IND_STR \<equiv> of_char CHR ''s''"

datatype scn = SCN_SUCC | SCN_STOP | SCN_FAIL

record yaml_scanner =
  row :: int16
  col :: int16
  blk_imp_row :: int16
  blk_imp_col :: int16
  blk_imp_tab :: int16
  ind_typ_stk :: "int16 list"
  ind_len_stk :: "int16 list"
  end_row :: int16
  end_col :: int16
  cur_row :: int16
  cur_col :: int16
  cur_chr :: int
  sch_stt :: int
  rlt_sch :: ResultSchema

text \<open>The two objects every function gets: the scanner and the lexer.\<close>

record 'l yaml_state =
  sc :: yaml_scanner
  lx :: "('l, yaml_token) TSLexer"

type_synonym 'l yaml_result = "bool \<times> 'l yaml_state"

section \<open>Saving and restoring\<close>

text \<open>
  The loop that writes the two stacks behind their first element. It tests the size
  before each pair, so the last pair may be written behind the end of the buffer; the
  bytes here are all those that are written.
\<close>

fun yaml_serialize_inds :: "nat \<Rightarrow> int16 list \<Rightarrow> int16 list \<Rightarrow> byte list" where
  "yaml_serialize_inds sz (typ # typs) (len # lens) =
     (if sz < TREE_SITTER_SERIALIZATION_BUFFER_SIZE
      then le16 typ @ le16 len @ yaml_serialize_inds (sz + 4) typs lens else [])"
| "yaml_serialize_inds sz _ _ = []"

definition yaml_serialize :: "yaml_scanner \<Rightarrow> byte list" where
  "yaml_serialize s =
     le16 (row s) @ le16 (col s) @ le16 (blk_imp_row s) @ le16 (blk_imp_col s) @ le16 (blk_imp_tab s)
     @ yaml_serialize_inds 10 (tl (ind_typ_stk s)) (tl (ind_len_stk s))"

fun yaml_get_inds :: "byte list \<Rightarrow> (int16 list \<times> int16 list) option" where
  "yaml_get_inds [] = Some ([], [])"
| "yaml_get_inds (a # b # c # d # buffer) =
     do { (typs, lens) \<leftarrow> yaml_get_inds buffer;
          Some ((ucast a OR push_bit 8 (ucast b)) # typs, (ucast c OR push_bit 8 (ucast d)) # lens) }"
| "yaml_get_inds _ = None"

definition yaml_reset :: "yaml_scanner \<Rightarrow> yaml_scanner" where
  "yaml_reset s = s\<lparr>row := 0, col := 0, blk_imp_row := -1, blk_imp_col := -1, blk_imp_tab := 0,
     ind_typ_stk := [IND_ROT], ind_len_stk := [-1]\<rparr>"

definition yaml_deserialize :: "yaml_scanner \<Rightarrow> byte list \<Rightarrow> yaml_scanner option" where
  "yaml_deserialize s buffer =
     (let s = yaml_reset s in
      if buffer = [] then Some s
      else
        do { (r, buffer) \<leftarrow> get16 buffer;
             (c, buffer) \<leftarrow> get16 buffer;
             (ir, buffer) \<leftarrow> get16 buffer;
             (ic, buffer) \<leftarrow> get16 buffer;
             (it, buffer) \<leftarrow> get16 buffer;
             (typs, lens) \<leftarrow> yaml_get_inds buffer;
             Some (s\<lparr>row := r, col := c, blk_imp_row := ir, blk_imp_col := ic, blk_imp_tab := it,
               ind_typ_stk := ind_typ_stk s @ typs, ind_len_stk := ind_len_stk s @ lens\<rparr>) })"

definition yaml_create :: yaml_scanner where
  "yaml_create = yaml_reset \<lparr>row = 0, col = 0, blk_imp_row = 0, blk_imp_col = 0, blk_imp_tab = 0,
     ind_typ_stk = [], ind_len_stk = [], end_row = 0, end_col = 0, cur_row = 0, cur_col = 0, cur_chr = 0,
     sch_stt = 0, rlt_sch = RS_STR\<rparr>"

section \<open>Moving\<close>

abbreviation la :: "'l env \<Rightarrow> 'l yaml_state \<Rightarrow> int" where
  "la E x \<equiv> lookahead E (lx x)"

definition yaml_adv :: "'l env \<Rightarrow> 'l yaml_state \<Rightarrow> 'l yaml_state" where
  "yaml_adv E x = x\<lparr>sc := (sc x)\<lparr>cur_col := cur_col (sc x) + 1, cur_chr := la E x\<rparr>, lx := advance E (lx x)\<rparr>"

definition yaml_adv_nwl :: "'l env \<Rightarrow> 'l yaml_state \<Rightarrow> 'l yaml_state" where
  "yaml_adv_nwl E x =
     x\<lparr>sc := (sc x)\<lparr>cur_row := cur_row (sc x) + 1, cur_col := 0, cur_chr := la E x\<rparr>, lx := advance E (lx x)\<rparr>"

definition yaml_skp :: "'l env \<Rightarrow> 'l yaml_state \<Rightarrow> 'l yaml_state" where
  "yaml_skp E x = x\<lparr>sc := (sc x)\<lparr>cur_col := cur_col (sc x) + 1, cur_chr := la E x\<rparr>, lx := skip E (lx x)\<rparr>"

definition yaml_skp_nwl :: "'l env \<Rightarrow> 'l yaml_state \<Rightarrow> 'l yaml_state" where
  "yaml_skp_nwl E x =
     x\<lparr>sc := (sc x)\<lparr>cur_row := cur_row (sc x) + 1, cur_col := 0, cur_chr := la E x\<rparr>, lx := skip E (lx x)\<rparr>"

definition yaml_mrk_end :: "'l env \<Rightarrow> 'l yaml_state \<Rightarrow> 'l yaml_state" where
  "yaml_mrk_end E x = x\<lparr>sc := (sc x)\<lparr>end_row := cur_row (sc x), end_col := cur_col (sc x)\<rparr>, lx := mark_end E (lx x)\<rparr>"

definition yaml_init :: "yaml_scanner \<Rightarrow> yaml_scanner" where
  "yaml_init s = s\<lparr>cur_row := row s, cur_col := col s, cur_chr := 0, sch_stt := 0, rlt_sch := RS_STR\<rparr>"

definition yaml_flush :: "yaml_scanner \<Rightarrow> yaml_scanner" where
  "yaml_flush s = s\<lparr>row := end_row s, col := end_col s\<rparr>"

text \<open>\<^verbatim>\<open>RET_SYM\<close>\<close>

definition yaml_ret :: "yaml_token \<Rightarrow> 'l yaml_state \<Rightarrow> 'l yaml_result" where
  "yaml_ret t x = (True, x\<lparr>sc := yaml_flush (sc x), lx := set_symbol t (lx x)\<rparr>)"

definition yaml_pop_ind :: "yaml_scanner \<Rightarrow> yaml_scanner option" where
  "yaml_pop_ind s =
     (if ind_len_stk s = [] \<or> ind_typ_stk s = [] then None
      else Some (s\<lparr>ind_len_stk := butlast (ind_len_stk s), ind_typ_stk := butlast (ind_typ_stk s)\<rparr>))"

definition yaml_push_ind :: "int16 \<Rightarrow> int16 \<Rightarrow> 'l yaml_state \<Rightarrow> 'l yaml_state" where
  "yaml_push_ind typ len x =
     x\<lparr>sc := (sc x)\<lparr>ind_len_stk := ind_len_stk (sc x) @ [len], ind_typ_stk := ind_typ_stk (sc x) @ [typ]\<rparr>\<rparr>"

text \<open>\<^verbatim>\<open>POP_IND(); RET_SYM(BL)\<close>: the end of the innermost block, unless it is the document.\<close>

definition yaml_pop_bl :: "'l yaml_state \<Rightarrow> 'l yaml_result option" where
  "yaml_pop_bl x =
     (if length (ind_typ_stk (sc x)) = 1 then Some (False, x)
      else do { s \<leftarrow> yaml_pop_ind (sc x); Some (yaml_ret BL (x\<lparr>sc := s\<rparr>)) })"

definition yaml_adv_while :: "'l env \<Rightarrow> (int \<Rightarrow> bool) \<Rightarrow> 'l yaml_state \<Rightarrow> 'l yaml_state option" where
  "yaml_adv_while E p x = while_option (\<lambda>x. p (la E x)) (yaml_adv E) x"

text \<open>The same loop with a counter of the type \<^verbatim>\<open>uint16_t\<close>.\<close>

definition yaml_adv_count :: "'l env \<Rightarrow> (int \<Rightarrow> bool) \<Rightarrow> 'l yaml_state \<Rightarrow> (16 word \<times> 'l yaml_state) option" where
  "yaml_adv_count E p x = while_option (\<lambda>(n, x). p (la E x)) (\<lambda>(n, x). (n + 1, yaml_adv E x)) (0, x)"

text \<open>Nested conditions that read the characters of a word one after the other.\<close>

fun yaml_word :: "'l env \<Rightarrow> string \<Rightarrow> 'l yaml_state \<Rightarrow> bool \<times> 'l yaml_state" where
  "yaml_word E [] x = (True, x)"
| "yaml_word E (c # w) x = (if la E x = ch c then yaml_word E w (yaml_adv E x) else (False, x))"

section \<open>Characters\<close>

definition is_wsp :: "int \<Rightarrow> bool" where
  "is_wsp c \<longleftrightarrow> c = ch CHR '' '' \<or> c = ch CHR 0x09"

definition is_nwl :: "int \<Rightarrow> bool" where
  "is_nwl c \<longleftrightarrow> c = ch CHR 0x0D \<or> c = ch CHR 0x0A"

definition is_wht :: "int \<Rightarrow> bool" where
  "is_wht c \<longleftrightarrow> is_wsp c \<or> is_nwl c \<or> c = 0"

definition is_ns_dec_digit :: "int \<Rightarrow> bool" where
  "is_ns_dec_digit c \<longleftrightarrow> c \<ge> ch CHR ''0'' \<and> c \<le> ch CHR ''9''"

definition is_ns_hex_digit :: "int \<Rightarrow> bool" where
  "is_ns_hex_digit c \<longleftrightarrow> is_ns_dec_digit c \<or> c \<ge> ch CHR ''a'' \<and> c \<le> ch CHR ''f'' \<or> c \<ge> ch CHR ''A'' \<and> c \<le> ch CHR ''F''"

definition is_ns_word_char :: "int \<Rightarrow> bool" where
  "is_ns_word_char c \<longleftrightarrow> c = ch CHR ''-'' \<or> c \<ge> ch CHR ''0'' \<and> c \<le> ch CHR ''9''
     \<or> c \<ge> ch CHR ''a'' \<and> c \<le> ch CHR ''z'' \<or> c \<ge> ch CHR ''A'' \<and> c \<le> ch CHR ''Z''"

definition is_nb_json :: "int \<Rightarrow> bool" where
  "is_nb_json c \<longleftrightarrow> c = 0x09 \<or> c \<ge> 0x20 \<and> c \<le> 0x10ffff"

definition is_nb_double_char :: "int \<Rightarrow> bool" where
  "is_nb_double_char c \<longleftrightarrow> is_nb_json c \<and> c \<noteq> ch CHR 0x5C \<and> c \<noteq> ch CHR 0x22"

definition is_nb_single_char :: "int \<Rightarrow> bool" where
  "is_nb_single_char c \<longleftrightarrow> is_nb_json c \<and> c \<noteq> ch CHR 0x27"

definition is_ns_char :: "int \<Rightarrow> bool" where
  "is_ns_char c \<longleftrightarrow> c \<ge> 0x21 \<and> c \<le> 0x7e \<or> c = 0x85 \<or> c \<ge> 0xa0 \<and> c \<le> 0xd7ff \<or> c \<ge> 0xe000 \<and> c \<le> 0xfefe
     \<or> c \<ge> 0xff00 \<and> c \<le> 0xfffd \<or> c \<ge> 0x10000 \<and> c \<le> 0x10ffff"

definition is_c_indicator :: "int \<Rightarrow> bool" where
  "is_c_indicator c \<longleftrightarrow> c \<in> set (map ch (''-?:,[]{}#&*!|>'' @ [CHR 0x27, CHR 0x22] @ ''%@`''))"

definition is_c_flow_indicator :: "int \<Rightarrow> bool" where
  "is_c_flow_indicator c \<longleftrightarrow> c \<in> set (map ch '',[]{}'')"

definition is_plain_safe_in_block :: "int \<Rightarrow> bool" where
  "is_plain_safe_in_block c \<longleftrightarrow> is_ns_char c"

definition is_plain_safe_in_flow :: "int \<Rightarrow> bool" where
  "is_plain_safe_in_flow c \<longleftrightarrow> is_ns_char c \<and> \<not> is_c_flow_indicator c"

definition is_ns_uri_char :: "int \<Rightarrow> bool" where
  "is_ns_uri_char c \<longleftrightarrow> is_ns_word_char c \<or> c \<in> set (map ch (''#;/?:@&=+$,_.!~*'' @ [CHR 0x27] @ ''()[]''))"

definition is_ns_tag_char :: "int \<Rightarrow> bool" where
  "is_ns_tag_char c \<longleftrightarrow> is_ns_word_char c \<or> c \<in> set (map ch (''#;/?:@&=+$_.~*'' @ [CHR 0x27] @ ''()''))"

definition is_ns_anchor_char :: "int \<Rightarrow> bool" where
  "is_ns_anchor_char c \<longleftrightarrow> is_ns_char c \<and> \<not> is_c_flow_indicator c"

section \<open>Directives, tags, anchors\<close>

definition yaml_scn_uri_esc :: "'l env \<Rightarrow> 'l yaml_state \<Rightarrow> scn \<times> 'l yaml_state" where
  "yaml_scn_uri_esc E x =
     (if la E x \<noteq> ch CHR ''%'' then (SCN_STOP, x)
      else
        let x = yaml_adv E (yaml_mrk_end E x) in
        if \<not> is_ns_hex_digit (la E x) then (SCN_FAIL, x)
        else
          let x = yaml_adv E x in
          if \<not> is_ns_hex_digit (la E x) then (SCN_FAIL, x) else (SCN_SUCC, yaml_adv E x))"

definition yaml_scn_ns_uri_char :: "'l env \<Rightarrow> 'l yaml_state \<Rightarrow> scn \<times> 'l yaml_state" where
  "yaml_scn_ns_uri_char E x = (if is_ns_uri_char (la E x) then (SCN_SUCC, yaml_adv E x) else yaml_scn_uri_esc E x)"

definition yaml_scn_ns_tag_char :: "'l env \<Rightarrow> 'l yaml_state \<Rightarrow> scn \<times> 'l yaml_state" where
  "yaml_scn_ns_tag_char E x = (if is_ns_tag_char (la E x) then (SCN_SUCC, yaml_adv E x) else yaml_scn_uri_esc E x)"

definition yaml_scn_dir_bgn :: "'l env \<Rightarrow> 'l yaml_state \<Rightarrow> 'l yaml_result option" where
  "yaml_scn_dir_bgn E x =
     (let x = yaml_adv E x;
          (t, found, x) =
            (if la E x = ch CHR ''Y'' then (S_DIR_YML_BGN, yaml_word E ''YAML'' x)
             else if la E x = ch CHR ''T'' then (S_DIR_TAG_BGN, yaml_word E ''TAG'' x)
             else (S_DIR_RSV_BGN, False, x)) in
      if found \<and> is_wht (la E x) then Some (yaml_ret t (yaml_mrk_end E x))
      else
        do { x \<leftarrow> yaml_adv_while E is_ns_char x;
             Some (if sint (cur_col (sc x)) > 1 \<and> is_wht (la E x)
                   then yaml_ret S_DIR_RSV_BGN (yaml_mrk_end E x) else (False, x)) })"

definition yaml_scn_dir_yml_ver :: "'l env \<Rightarrow> yaml_token \<Rightarrow> 'l yaml_state \<Rightarrow> 'l yaml_result option" where
  "yaml_scn_dir_yml_ver E t x =
     do { (n1, x) \<leftarrow> yaml_adv_count E is_ns_dec_digit x;
          if la E x \<noteq> ch CHR ''.'' then Some (False, x)
          else
            do { (n2, x) \<leftarrow> yaml_adv_count E is_ns_dec_digit (yaml_adv E x);
                 Some (if n1 = 0 \<or> n2 = 0 then (False, x) else yaml_ret t (yaml_mrk_end E x)) } }"

definition yaml_scn_tag_hdl_tal :: "'l env \<Rightarrow> 'l yaml_state \<Rightarrow> 'l yaml_result option" where
  "yaml_scn_tag_hdl_tal E x =
     (if la E x = ch CHR ''!'' then Some (True, yaml_adv E x)
      else
        do { (n, x) \<leftarrow> yaml_adv_count E is_ns_word_char x;
             Some (if n = 0 then (True, x)
                   else if la E x = ch CHR ''!'' then (True, yaml_adv E x)
                   else (False, x)) })"

definition yaml_scn_dir_tag_hdl :: "'l env \<Rightarrow> yaml_token \<Rightarrow> 'l yaml_state \<Rightarrow> 'l yaml_result option" where
  "yaml_scn_dir_tag_hdl E t x =
     (if la E x = ch CHR ''!'' then
        do { (b, x) \<leftarrow> yaml_scn_tag_hdl_tal E (yaml_adv E x);
             Some (if b then yaml_ret t (yaml_mrk_end E x) else (False, x)) }
      else Some (False, x))"

text \<open>The loop that reads characters of a URI or of a tag to their end, which is two functions' last statement.\<close>

definition yaml_char_loop :: "'l env \<Rightarrow> ('l yaml_state \<Rightarrow> scn \<times> 'l yaml_state) \<Rightarrow> yaml_token \<Rightarrow> 'l yaml_state \<Rightarrow>
    'l yaml_result option" where
  "yaml_char_loop E f t =
     c_loop (\<lambda>x. case f x of
         (SCN_STOP, x) \<Rightarrow> Some (Return (yaml_ret t (yaml_mrk_end E x)))
       | (SCN_FAIL, x) \<Rightarrow> Some (Return (yaml_ret t x))
       | (SCN_SUCC, x) \<Rightarrow> Some (Next x))"

definition yaml_scn_dir_tag_pfx :: "'l env \<Rightarrow> yaml_token \<Rightarrow> 'l yaml_state \<Rightarrow> 'l yaml_result option" where
  "yaml_scn_dir_tag_pfx E t x =
     (let (ok, x) = (if la E x = ch CHR ''!'' then (True, yaml_adv E x)
                     else case yaml_scn_ns_tag_char E x of (r, x) \<Rightarrow> (r = SCN_SUCC, x)) in
      if ok then yaml_char_loop E (yaml_scn_ns_uri_char E) t x else Some (False, x))"

definition yaml_scn_dir_rsv_prm :: "'l env \<Rightarrow> yaml_token \<Rightarrow> 'l yaml_state \<Rightarrow> 'l yaml_result option" where
  "yaml_scn_dir_rsv_prm E t x =
     (if \<not> is_ns_char (la E x) then Some (False, x)
      else
        do { x \<leftarrow> yaml_adv_while E is_ns_char (yaml_adv E x);
             Some (yaml_ret t (yaml_mrk_end E x)) })"

text \<open>A verbatim tag behind its opening angle bracket: at least one character of a URI, then the closing bracket.\<close>

definition yaml_verbatim_tag :: "'l env \<Rightarrow> yaml_token \<Rightarrow> 'l yaml_state \<Rightarrow> 'l yaml_result option" where
  "yaml_verbatim_tag E t x =
     (case yaml_scn_ns_uri_char E x of
        (SCN_SUCC, x) \<Rightarrow>
          c_loop (\<lambda>x. case yaml_scn_ns_uri_char E x of
              (SCN_STOP, x) \<Rightarrow>
                Some (Return (if la E x = ch CHR ''>'' then yaml_ret t (yaml_mrk_end E (yaml_adv E x)) else (False, x)))
            | (SCN_FAIL, x) \<Rightarrow> Some (Return (False, x))
            | (SCN_SUCC, x) \<Rightarrow> Some (Next x)) x
      | (_, x) \<Rightarrow> Some (False, x))"

definition yaml_scn_tag :: "'l env \<Rightarrow> yaml_token \<Rightarrow> 'l yaml_state \<Rightarrow> 'l yaml_result option" where
  "yaml_scn_tag E t x =
     (if la E x \<noteq> ch CHR ''!'' then Some (False, x)
      else
        let x = yaml_adv E x in
        if is_wht (la E x) then Some (yaml_ret t (yaml_mrk_end E x))
        else if la E x = ch CHR ''<'' then yaml_verbatim_tag E t (yaml_adv E x)
        else
          do { (b, x) \<leftarrow> yaml_scn_tag_hdl_tal E x;
               let (ok, x) = (if b then case yaml_scn_ns_tag_char E x of (r, x) \<Rightarrow> (r = SCN_SUCC, x) else (True, x)) in
               if ok then yaml_char_loop E (yaml_scn_ns_tag_char E) t x else Some (False, x) })"

definition yaml_scn_acr_bgn :: "'l env \<Rightarrow> yaml_token \<Rightarrow> 'l yaml_state \<Rightarrow> 'l yaml_result option" where
  "yaml_scn_acr_bgn E t x =
     (if la E x \<noteq> ch CHR ''&'' then Some (False, x)
      else
        let x = yaml_adv E x in
        Some (if \<not> is_ns_anchor_char (la E x) then (False, x) else yaml_ret t (yaml_mrk_end E x)))"

definition yaml_scn_acr_ctn :: "'l env \<Rightarrow> yaml_token \<Rightarrow> 'l yaml_state \<Rightarrow> 'l yaml_result option" where
  "yaml_scn_acr_ctn E t x =
     do { x \<leftarrow> yaml_adv_while E is_ns_anchor_char x; Some (yaml_ret t (yaml_mrk_end E x)) }"

definition yaml_scn_als_bgn :: "'l env \<Rightarrow> yaml_token \<Rightarrow> 'l yaml_state \<Rightarrow> 'l yaml_result option" where
  "yaml_scn_als_bgn E t x =
     (if la E x \<noteq> ch CHR ''*'' then Some (False, x)
      else
        let x = yaml_adv E x in
        Some (if \<not> is_ns_anchor_char (la E x) then (False, x) else yaml_ret t (yaml_mrk_end E x)))"

definition yaml_scn_als_ctn :: "'l env \<Rightarrow> yaml_token \<Rightarrow> 'l yaml_state \<Rightarrow> 'l yaml_result option" where
  "yaml_scn_als_ctn E t x =
     do { x \<leftarrow> yaml_adv_while E is_ns_anchor_char x; Some (yaml_ret t (yaml_mrk_end E x)) }"

section \<open>Quoted and block scalars\<close>

fun yaml_hex_digits :: "'l env \<Rightarrow> nat \<Rightarrow> 'l yaml_state \<Rightarrow> bool \<times> 'l yaml_state" where
  "yaml_hex_digits E 0 x = (True, x)"
| "yaml_hex_digits E (Suc n) x =
     (if is_ns_hex_digit (la E x) then yaml_hex_digits E n (yaml_adv E x) else (False, x))"

definition yaml_scn_dqt_esc_seq :: "'l env \<Rightarrow> yaml_token \<Rightarrow> 'l yaml_state \<Rightarrow> 'l yaml_result" where
  "yaml_scn_dqt_esc_seq E t x =
     (let (b, x) =
        (if la E x \<in> set (map ch (''0abt'' @ [CHR 0x09] @ ''nvref '' @ [CHR 0x22] @ ''/'' @ [CHR 0x5C] @ ''N_LP''))
         then (True, yaml_adv E x)
         else if la E x = ch CHR ''U'' then yaml_hex_digits E 8 (yaml_adv E x)
         else if la E x = ch CHR ''u'' then yaml_hex_digits E 4 (yaml_adv E x)
         else if la E x = ch CHR ''x'' then yaml_hex_digits E 2 (yaml_adv E x)
         else (False, x)) in
      if b then yaml_ret t (yaml_mrk_end E x) else (False, x))"

definition yaml_scn_drs_doc_end :: "'l env \<Rightarrow> 'l yaml_state \<Rightarrow> bool \<times> 'l yaml_state" where
  "yaml_scn_drs_doc_end E x =
     (if la E x \<noteq> ch CHR ''-'' \<and> la E x \<noteq> ch CHR ''.'' then (False, x)
      else
        let delimeter = la E x;
            x = yaml_adv E x in
        if la E x \<noteq> delimeter then (False, yaml_mrk_end E x)
        else
          let x = yaml_adv E x in
          if la E x \<noteq> delimeter then (False, yaml_mrk_end E x)
          else
            let x = yaml_adv E x in
            if is_wht (la E x) then (True, x) else (False, yaml_mrk_end E x))"

text \<open>The content of a quoted scalar; the two functions differ in the characters they accept.\<close>

definition yaml_str_cnt :: "'l env \<Rightarrow> (int \<Rightarrow> bool) \<Rightarrow> yaml_token \<Rightarrow> 'l yaml_state \<Rightarrow> 'l yaml_result option" where
  "yaml_str_cnt E p t x =
     (if \<not> p (la E x) then Some (False, x)
      else
        let (doc_end, x) = (if cur_col (sc x) = 0 then yaml_scn_drs_doc_end E x else (False, x)) in
        if doc_end
        then let x = yaml_mrk_end E x in
          Some (yaml_ret (if cur_chr (sc x) = ch CHR ''-'' then S_DRS_END else S_DOC_END) x)
        else
          do { x \<leftarrow> yaml_adv_while E p (yaml_adv E x);
               Some (yaml_ret t (yaml_mrk_end E x)) })"

definition yaml_scn_dqt_str_cnt :: "'l env \<Rightarrow> yaml_token \<Rightarrow> 'l yaml_state \<Rightarrow> 'l yaml_result option" where
  "yaml_scn_dqt_str_cnt E = yaml_str_cnt E is_nb_double_char"

definition yaml_scn_sqt_str_cnt :: "'l env \<Rightarrow> yaml_token \<Rightarrow> 'l yaml_state \<Rightarrow> 'l yaml_result option" where
  "yaml_scn_sqt_str_cnt E = yaml_str_cnt E is_nb_single_char"

text \<open>The header of a block scalar: an indentation and a chomping indicator in either order.\<close>

definition yaml_blk_header :: "'l env \<Rightarrow> 'l yaml_state \<Rightarrow> int16 \<times> 'l yaml_state" where
  "yaml_blk_header E x =
     (let digit = (\<lambda>x. la E x \<ge> ch CHR ''1'' \<and> la E x \<le> ch CHR ''9'');
          chomp = (\<lambda>x. la E x = ch CHR ''+'' \<or> la E x = ch CHR ''-'') in
      if digit x then
        let ind = word_of_int (la E x - ch CHR ''1''); x = yaml_adv E x in
        (ind, if chomp x then yaml_adv E x else x)
      else if chomp x then
        let x = yaml_adv E x in
        if digit x then (word_of_int (la E x - ch CHR ''1''), yaml_adv E x) else (-1, x)
      else (-1, x))"

text \<open>Without an indentation indicator, the indentation is found by looking ahead at the lines.\<close>

definition yaml_blk_detect :: "'l env \<Rightarrow> int16 \<times> 'l yaml_state \<Rightarrow> (int16 \<times> 'l yaml_state) option" where
  "yaml_blk_detect E =
     c_loop (\<lambda>(ind, x).
       if la E x \<noteq> 0 then
         if la E x = ch CHR '' '' then Some (Next (ind, yaml_adv E x))
         else if is_nwl (la E x) then
           if sint (cur_col (sc x)) - 1 < sint ind then Some (Return (ind, x))
           else Some (Next (cur_col (sc x) - 1, yaml_adv_nwl E x))
         else Some (Return (if sint (cur_col (sc x)) - 1 > sint ind then cur_col (sc x) - 1 else ind, x))
       else Some (Return (ind, x)))"

text \<open>The indentation of the content: given in the header or found behind the blanks and the comment.\<close>

definition yaml_blk_indent :: "'l env \<Rightarrow> int16 \<Rightarrow> int16 \<Rightarrow> 'l yaml_state \<Rightarrow> (int16 \<times> 'l yaml_state) option" where
  "yaml_blk_indent E ind cur_ind x =
     (if ind \<noteq> -1 then Some (ind + cur_ind, x)
      else
        do { x \<leftarrow> yaml_adv_while E is_wsp x;
             x \<leftarrow> (if la E x = ch CHR ''#''
                  then yaml_adv_while E (\<lambda>c. \<not> is_nwl c \<and> c \<noteq> 0) (yaml_adv E x) else Some x);
             let x = (if is_nwl (la E x) then yaml_adv_nwl E x else x) in
             yaml_blk_detect E (cur_ind, x) })"

definition yaml_scn_blk_str_bgn :: "'l env \<Rightarrow> yaml_token \<Rightarrow> 'l yaml_state \<Rightarrow> 'l yaml_result option" where
  "yaml_scn_blk_str_bgn E t x =
     (if la E x \<noteq> ch CHR ''|'' \<and> la E x \<noteq> ch CHR ''>'' then Some (False, x)
      else if ind_len_stk (sc x) = [] then None
      else
        let x = yaml_adv E x;
            cur_ind = last (ind_len_stk (sc x));
            (ind, x) = yaml_blk_header E x in
        if \<not> is_wht (la E x) then Some (False, x)
        else
          do { (ind, x) \<leftarrow> yaml_blk_indent E ind cur_ind (yaml_mrk_end E x);
               Some (yaml_ret t (yaml_push_ind IND_STR ind x)) })"

text \<open>The lines of a block scalar: runs of characters and blanks; blanks at the end are not part of the token.\<close>

definition yaml_blk_line :: "'l env \<Rightarrow> 'l yaml_state \<Rightarrow> 'l yaml_state option" where
  "yaml_blk_line E =
     c_loop (\<lambda>x.
       do { x \<leftarrow> (if is_ns_char (la E x)
                 then do { x \<leftarrow> yaml_adv_while E is_ns_char (yaml_adv E x); Some (yaml_mrk_end E x) } else Some x);
            if is_wsp (la E x)
            then do { x \<leftarrow> yaml_adv_while E is_wsp (yaml_adv E x); Some (Next x) }
            else Some (Return x) })"

definition yaml_scn_blk_str_cnt :: "'l env \<Rightarrow> yaml_token \<Rightarrow> 'l yaml_state \<Rightarrow> 'l yaml_result option" where
  "yaml_scn_blk_str_cnt E t x =
     (if \<not> is_ns_char (la E x) then Some (False, x)
      else
        let (doc_end, x) = (if cur_col (sc x) = 0 then yaml_scn_drs_doc_end E x else (False, x)) in
        if doc_end then yaml_pop_bl x
        else
          do { x \<leftarrow> yaml_blk_line E (yaml_mrk_end E (yaml_adv E x));
               Some (yaml_ret t x) })"

section \<open>Plain scalars\<close>

definition yaml_upd_sch :: "'l yaml_state \<Rightarrow> 'l yaml_state option" where
  "yaml_upd_sch x =
     do { (stt, rlt) \<leftarrow> adv_sch_stt (sch_stt (sc x)) (cur_chr (sc x)) (rlt_sch (sc x));
          Some (x\<lparr>sc := (sc x)\<lparr>sch_stt := stt, rlt_sch := rlt\<rparr>\<rparr>) }"

definition yaml_pln_step :: "'l env \<Rightarrow> (int \<Rightarrow> bool) \<Rightarrow> bool \<times> 'l yaml_state \<Rightarrow>
    (bool \<times> 'l yaml_state, scn \<times> 'l yaml_state) flow option" where
  "yaml_pln_step E is_plain_safe = (\<lambda>(is_cur_saf, x).
     let c = la E x;
         is_lka_wsp = is_wsp c;
         is_lka_saf = is_plain_safe c in
     and_then
       (if is_lka_saf \<and> c \<noteq> ch CHR ''#'' \<and> c \<noteq> ch CHR '':''
        then map_option Next (yaml_upd_sch (yaml_mrk_end E (yaml_adv E x)))
        else if is_cur_saf \<and> c = ch CHR ''#''
        then map_option Next (yaml_upd_sch (yaml_mrk_end E (yaml_adv E x)))
        else if is_lka_wsp then map_option Next (yaml_upd_sch (yaml_adv E x))
        else if c = ch CHR '':'' then Some (Next (yaml_adv E x))
        else Some (Return (SCN_SUCC, x)))
       (\<lambda>x. if cur_chr (sc x) = ch CHR '':'' then
              if is_plain_safe (la E x)
              then map_option (\<lambda>x. Next (is_lka_saf, x)) (yaml_upd_sch (yaml_mrk_end E x))
              else Some (Return (SCN_FAIL, x))
            else Some (Next (is_lka_saf, x))))"

definition yaml_scn_pln_cnt :: "'l env \<Rightarrow> (int \<Rightarrow> bool) \<Rightarrow> 'l yaml_state \<Rightarrow> (scn \<times> 'l yaml_state) option" where
  "yaml_scn_pln_cnt E is_plain_safe x =
     (if is_plain_safe (la E x) \<or> is_wsp (la E x)
      then c_loop (yaml_pln_step E is_plain_safe) (is_plain_safe (cur_chr (sc x)), x)
      else Some (SCN_STOP, x))"

section \<open>The scan function\<close>

text \<open>The local variables of \<^verbatim>\<open>scan\<close> that its blocks share.\<close>

record yaml_locals =
  cur_ind :: int16
  prt_ind :: int16
  cur_ind_typ :: int16
  has_tab_ind :: bool
  bgn_row :: int16
  bgn_col :: int16
  bgn_chr :: int
  is_r :: bool
  is_br :: bool
  is_b :: bool
  is_s :: bool

text \<open>\<^verbatim>\<open>MAY_UPD_IMP_COL\<close>, \<^verbatim>\<open>PUSH_BGN_IND\<close> and the two macros that may push an indentation\<close>

definition yaml_may_upd_imp_col :: "yaml_locals \<Rightarrow> 'l yaml_state \<Rightarrow> 'l yaml_state" where
  "yaml_may_upd_imp_col L x =
     (if blk_imp_row (sc x) \<noteq> bgn_row L
      then x\<lparr>sc := (sc x)\<lparr>blk_imp_row := bgn_row L, blk_imp_col := bgn_col L, blk_imp_tab := (if has_tab_ind L then 1 else 0)\<rparr>\<rparr>
      else x)"

definition yaml_push_bgn_ind :: "yaml_locals \<Rightarrow> int16 \<Rightarrow> 'l yaml_state \<Rightarrow> ('l yaml_state, 'l yaml_result) flow" where
  "yaml_push_bgn_ind L typ x = (if has_tab_ind L then Return (False, x) else Next (yaml_push_ind typ (bgn_col L) x))"

definition yaml_may_push_imp_ind :: "yaml_locals \<Rightarrow> 'l yaml_state \<Rightarrow> ('l yaml_state, 'l yaml_result) flow" where
  "yaml_may_push_imp_ind L x =
     (if cur_ind L \<noteq> blk_imp_col (sc x) then
        if blk_imp_tab (sc x) \<noteq> 0 then Return (False, x)
        else Next (yaml_push_ind IND_MAP (blk_imp_col (sc x)) x)
      else Next x)"

definition yaml_may_push_spc_seq_ind :: "yaml_locals \<Rightarrow> 'l yaml_state \<Rightarrow> 'l yaml_state" where
  "yaml_may_push_spc_seq_ind L x = (if cur_ind_typ L = IND_MAP then yaml_push_ind IND_SEQ (bgn_col L) x else x)"

text \<open>
  Blanks, line breaks and comments in front of a token. The loop ends with the local
  variables that describe them, or the function returns.
\<close>

definition yaml_blank_step :: "'l env \<Rightarrow> (yaml_token \<Rightarrow> bool) \<Rightarrow> int16 \<Rightarrow> bool \<times> int16 \<times> 'l yaml_state \<Rightarrow>
    (bool \<times> int16 \<times> 'l yaml_state, (bool \<times> int16 \<times> 'l yaml_state, 'l yaml_result) flow) flow option" where
  "yaml_blank_step E valid_symbols ind = (\<lambda>(tab, leading_spaces, x).
     let s = sc x;
         allow_comment = (\<not> (valid_symbols R_DQT_STR_CTN \<or> valid_symbols BR_DQT_STR_CTN
                             \<or> valid_symbols R_SQT_STR_CTN \<or> valid_symbols BR_SQT_STR_CTN)) in
     if la E x = ch CHR '' ''
     then Some (Next (tab, if tab then leading_spaces else leading_spaces + 1, yaml_skp E x))
     else if la E x = ch CHR 0x09 then Some (Next (True, leading_spaces, yaml_skp E x))
     else if is_nwl (la E x) then Some (Next (False, 0, yaml_skp_nwl E x))
     else if allow_comment \<and> la E x = ch CHR ''#'' then
       if valid_symbols BR_BLK_STR_CTN \<and> valid_symbols BL \<and> sint (cur_col s) \<le> sint ind
       then map_option (\<lambda>r. Return (Return r)) (yaml_pop_bl x)
       else if (if valid_symbols BR_BLK_STR_CTN then cur_row s = row s
                else cur_col s = 0 \<or> cur_row s \<noteq> row s \<or> sint (cur_col s) > sint (col s))
       then
         do { x \<leftarrow> yaml_adv_while E (\<lambda>c. \<not> is_nwl c \<and> c \<noteq> 0) (yaml_adv E x);
              Some (Return (Return (yaml_ret COMMENT (yaml_mrk_end E x)))) }
       else Some (Return (Next (tab, leading_spaces, x)))
     else Some (Return (Next (tab, leading_spaces, x))))"

text \<open>The end of the input.\<close>

definition yaml_scan_eof :: "'l env \<Rightarrow> (yaml_token \<Rightarrow> bool) \<Rightarrow> 'l yaml_state \<Rightarrow> ('l yaml_state, 'l yaml_result) flow option" where
  "yaml_scan_eof E valid_symbols x =
     (if la E x = 0 then
        if valid_symbols BL then map_option Return (yaml_pop_bl (yaml_mrk_end E x))
        else if valid_symbols END_OF_FILE then Some (Return (yaml_ret END_OF_FILE (yaml_mrk_end E x)))
        else Some (Return (False, x))
      else Some (Next x))"

text \<open>The end of a block: a line that is not indented far enough.\<close>

definition yaml_scan_bl :: "'l env \<Rightarrow> (yaml_token \<Rightarrow> bool) \<Rightarrow> yaml_locals \<Rightarrow> 'l yaml_state \<Rightarrow>
    ('l yaml_state, 'l yaml_result) flow option" where
  "yaml_scan_bl E valid_symbols L x =
     (if valid_symbols BL \<and> sint (bgn_col L) \<le> sint (cur_ind L) \<and> \<not> has_tab_ind L
         \<and> (if cur_ind L = prt_ind L \<and> cur_ind_typ L = IND_SEQ
            then sint (bgn_col L) < sint (cur_ind L) \<or> la E x \<noteq> ch CHR ''-''
            else sint (bgn_col L) \<le> sint (prt_ind L) \<or> cur_ind_typ L = IND_STR)
      then map_option Return (yaml_pop_bl x)
      else Some (Next x))"

text \<open>A block that ends the function if the token may come, and one that ends it only when it succeeds.\<close>

definition yaml_case :: "bool \<Rightarrow> ('l yaml_state \<Rightarrow> 'l yaml_result option) \<Rightarrow> 'l yaml_state \<Rightarrow>
    ('l yaml_state, 'l yaml_result) flow option" where
  "yaml_case c f x = (if c then map_option Return (f x) else Some (Next x))"

definition yaml_try :: "bool \<Rightarrow> ('l yaml_state \<Rightarrow> 'l yaml_result option) \<Rightarrow> 'l yaml_state \<Rightarrow>
    ('l yaml_state, 'l yaml_result) flow option" where
  "yaml_try c f x =
     (if c then map_option (\<lambda>(b, x). if b then Return (True, x) else Next x) (f x) else Some (Next x))"

text \<open>Tokens that continue what the parser is in: parameters of directives, contents of scalars, names of anchors.\<close>

definition yaml_scan_continued :: "'l env \<Rightarrow> (yaml_token \<Rightarrow> bool) \<Rightarrow> yaml_locals \<Rightarrow> 'l yaml_state \<Rightarrow>
    ('l yaml_state, 'l yaml_result) flow option" where
  "yaml_scan_continued E v L x =
     fold (\<lambda>f c. and_then c f)
       [yaml_case (v R_DIR_YML_VER \<and> is_r L) (yaml_scn_dir_yml_ver E R_DIR_YML_VER),
        yaml_case (v R_DIR_TAG_HDL \<and> is_r L) (yaml_scn_dir_tag_hdl E R_DIR_TAG_HDL),
        yaml_case (v R_DIR_TAG_PFX \<and> is_r L) (yaml_scn_dir_tag_pfx E R_DIR_TAG_PFX),
        yaml_case (v R_DIR_RSV_PRM \<and> is_r L) (yaml_scn_dir_rsv_prm E R_DIR_RSV_PRM),
        yaml_try (v BR_BLK_STR_CTN \<and> is_br L) (yaml_scn_blk_str_cnt E BR_BLK_STR_CTN),
        yaml_try (v R_DQT_STR_CTN \<and> is_r L) (yaml_scn_dqt_str_cnt E R_DQT_STR_CTN),
        yaml_try (v BR_DQT_STR_CTN \<and> is_br L) (yaml_scn_dqt_str_cnt E BR_DQT_STR_CTN),
        yaml_try (v R_SQT_STR_CTN \<and> is_r L) (yaml_scn_sqt_str_cnt E R_SQT_STR_CTN),
        yaml_try (v BR_SQT_STR_CTN \<and> is_br L) (yaml_scn_sqt_str_cnt E BR_SQT_STR_CTN),
        yaml_case (v R_ACR_CTN \<and> is_r L) (yaml_scn_acr_ctn E R_ACR_CTN),
        yaml_case (v R_ALS_CTN \<and> is_r L) (yaml_scn_als_ctn E R_ALS_CTN)]
       (Some (Next x))"

text \<open>
  Most tokens come in variants for the rest of a line (\<open>R\<close>), for a deeper line (\<open>BR\<close>) and
  for a line at the indentation of the block (\<open>B\<close>). \<open>yaml_pick\<close> is the sequence of
  conditions that chooses among them: the first token that is valid and whose position
  fits decides which token is reported.
\<close>

fun yaml_pick :: "(yaml_token \<Rightarrow> bool) \<Rightarrow> (yaml_token \<times> bool \<times> yaml_token) list \<Rightarrow> yaml_token option" where
  "yaml_pick v [] = None"
| "yaml_pick v ((valid, position, reported) # ts) =
     (if v valid \<and> position then Some reported else yaml_pick v ts)"

abbreviation yaml_pick3 :: "(yaml_token \<Rightarrow> bool) \<Rightarrow> yaml_locals \<Rightarrow> yaml_token \<Rightarrow> yaml_token \<Rightarrow> yaml_token \<Rightarrow> yaml_token option" where
  "yaml_pick3 v L r br b \<equiv> yaml_pick v [(r, is_r L, r), (br, is_br L, br), (b, is_b L, b)]"

abbreviation yaml_pick2 :: "(yaml_token \<Rightarrow> bool) \<Rightarrow> yaml_locals \<Rightarrow> yaml_token \<Rightarrow> yaml_token \<Rightarrow> yaml_token option" where
  "yaml_pick2 v L r br \<equiv> yaml_pick v [(r, is_r L, r), (br, is_br L, br)]"

definition yaml_with :: "yaml_token option \<Rightarrow> (yaml_token \<Rightarrow> 'l yaml_state \<Rightarrow> 'l yaml_result option) \<Rightarrow> 'l yaml_state \<Rightarrow>
    ('l yaml_state, 'l yaml_result) flow option" where
  "yaml_with t f x = (case t of Some t \<Rightarrow> map_option Return (f t x) | None \<Rightarrow> Some (Next x))"

text \<open>A token of one character.\<close>

definition yaml_single :: "'l env \<Rightarrow> yaml_token \<Rightarrow> 'l yaml_state \<Rightarrow> 'l yaml_result option" where
  "yaml_single E t x = Some (yaml_ret t (yaml_mrk_end E (yaml_adv E x)))"

definition yaml_scan_quote :: "'l env \<Rightarrow> (yaml_token \<Rightarrow> bool) \<Rightarrow> yaml_locals \<Rightarrow> 'l yaml_state \<Rightarrow>
    ('l yaml_state, 'l yaml_result) flow option" where
  "yaml_scan_quote E v L x =
     and_then
       (yaml_with (yaml_pick3 v L R_SQT_STR_BGN BR_SQT_STR_BGN B_SQT_STR_BGN)
          (\<lambda>t x. yaml_single E t (yaml_may_upd_imp_col L x)) x)
       (\<lambda>x. case yaml_pick2 v L R_SQT_STR_END BR_SQT_STR_END of
          None \<Rightarrow> Some (Next x)
        | Some t \<Rightarrow>
            let x = yaml_adv E x in
            Some (Return (if la E x = ch CHR 0x27
              then yaml_ret (if t = R_SQT_STR_END then R_SQT_ESC_SQT else BR_SQT_ESC_SQT) (yaml_mrk_end E (yaml_adv E x))
              else yaml_ret t (yaml_mrk_end E x))))"

definition yaml_scan_key :: "'l env \<Rightarrow> (yaml_token \<Rightarrow> bool) \<Rightarrow> yaml_locals \<Rightarrow> 'l yaml_state \<Rightarrow>
    ('l yaml_state, 'l yaml_result) flow option" where
  "yaml_scan_key E v L x =
     (case yaml_pick v [(R_BLK_KEY_BGN, is_r L, R_BLK_KEY_BGN), (BR_BLK_KEY_BGN, is_br L, BR_BLK_KEY_BGN),
         (B_BLK_KEY_BGN, is_b L, B_BLK_KEY_BGN), (R_FLW_KEY_BGN, is_r L, R_FLW_KEY_BGN),
         (BR_FLW_KEY_BGN, is_br L, BR_FLW_KEY_BGN)] of
        None \<Rightarrow> Some (Next x)
      | Some t \<Rightarrow>
          let x = yaml_adv E x in
          if is_wht (la E x) then
            let x = yaml_mrk_end E x in
            Some (if t = R_BLK_KEY_BGN \<or> t = BR_BLK_KEY_BGN
                  then (case yaml_push_bgn_ind L IND_MAP x of Next x \<Rightarrow> Return (yaml_ret t x) | Return r \<Rightarrow> Return r)
                  else Return (yaml_ret t x))
          else Some (Next x))"

definition yaml_value_blk :: "'l env \<Rightarrow> yaml_locals \<Rightarrow> yaml_token \<Rightarrow> 'l yaml_state \<Rightarrow> 'l yaml_result" where
  "yaml_value_blk E L t x =
     (case (if t = R_BLK_VAL_BGN \<or> t = BR_BLK_VAL_BGN then yaml_push_bgn_ind L IND_MAP x
            else if t = B_BLK_VAL_BGN then Next x
            else yaml_may_push_imp_ind L x) of
        Next x \<Rightarrow> yaml_ret t (yaml_mrk_end E x)
      | Return r \<Rightarrow> r)"

definition yaml_scan_value :: "'l env \<Rightarrow> (yaml_token \<Rightarrow> bool) \<Rightarrow> yaml_locals \<Rightarrow> 'l yaml_state \<Rightarrow>
    ('l yaml_state, 'l yaml_result) flow option" where
  "yaml_scan_value E v L x =
     and_then
       (yaml_with (yaml_pick2 v L R_FLW_JSV_BGN BR_FLW_JSV_BGN) (yaml_single E) x)
       (\<lambda>x. let blk = yaml_pick v [(R_BLK_VAL_BGN, is_r L, R_BLK_VAL_BGN), (BR_BLK_VAL_BGN, is_br L, BR_BLK_VAL_BGN),
                   (B_BLK_VAL_BGN, is_b L, B_BLK_VAL_BGN), (R_BLK_IMP_BGN, is_r L, R_BLK_IMP_BGN)];
                njv = yaml_pick2 v L R_FLW_NJV_BGN BR_FLW_NJV_BGN in
            if blk = None \<and> njv = None then Some (Next x)
            else
              let x = yaml_adv E x;
                  is_lka_wht = is_wht (la E x) in
              and_then
                (if is_lka_wht then yaml_with blk (\<lambda>t x. Some (yaml_value_blk E L t x)) x else Some (Next x))
                (\<lambda>x. if is_lka_wht \<or> la E x = ch CHR '','' \<or> la E x = ch CHR '']'' \<or> la E x = ch CHR ''}''
                     then yaml_with njv (\<lambda>t x. Some (yaml_ret t (yaml_mrk_end E x))) x
                     else Some (Next x)))"

text \<open>The third character of a document marker was read: report the end of a block or the marker.\<close>

definition yaml_marker :: "'l env \<Rightarrow> (yaml_token \<Rightarrow> bool) \<Rightarrow> yaml_token \<Rightarrow> 'l yaml_state \<Rightarrow>
    ('l yaml_state, 'l yaml_result) flow option" where
  "yaml_marker E v t x =
     (if is_wht (la E x) then
        if v BL then map_option Return (yaml_pop_bl x)
        else Some (Return (yaml_ret t (yaml_mrk_end E x)))
      else Some (Next x))"

definition yaml_sequence_blk :: "'l env \<Rightarrow> yaml_locals \<Rightarrow> yaml_token \<Rightarrow> 'l yaml_state \<Rightarrow> 'l yaml_result" where
  "yaml_sequence_blk E L t x =
     (case (if t = B_BLK_SEQ_BGN then Next (yaml_may_push_spc_seq_ind L x) else yaml_push_bgn_ind L IND_SEQ x) of
        Next x \<Rightarrow> yaml_ret t (yaml_mrk_end E x)
      | Return r \<Rightarrow> r)"

definition yaml_scan_dash :: "'l env \<Rightarrow> (yaml_token \<Rightarrow> bool) \<Rightarrow> yaml_locals \<Rightarrow> 'l yaml_state \<Rightarrow>
    ('l yaml_state, 'l yaml_result) flow option" where
  "yaml_scan_dash E v L x =
     (let blk = yaml_pick3 v L R_BLK_SEQ_BGN BR_BLK_SEQ_BGN B_BLK_SEQ_BGN in
      if blk = None \<and> \<not> is_s L then Some (Next x)
      else
        let x = yaml_adv E x in
        if is_wht (la E x) then yaml_with blk (\<lambda>t x. Some (yaml_sequence_blk E L t x)) x
        else if la E x = ch CHR ''-'' \<and> is_s L then
          let x = yaml_adv E x in
          if la E x = ch CHR ''-'' then yaml_marker E v S_DRS_END (yaml_adv E x) else Some (Next x)
        else Some (Next x))"

definition yaml_scan_dot :: "'l env \<Rightarrow> (yaml_token \<Rightarrow> bool) \<Rightarrow> yaml_locals \<Rightarrow> 'l yaml_state \<Rightarrow>
    ('l yaml_state, 'l yaml_result) flow option" where
  "yaml_scan_dot E v L x =
     (if is_s L then
        (case yaml_word E ''...'' x of
           (True, x) \<Rightarrow> yaml_marker E v S_DOC_END x
         | (False, x) \<Rightarrow> Some (Next x))
      else Some (Next x))"

definition yaml_scan_escape :: "'l env \<Rightarrow> (yaml_token \<Rightarrow> bool) \<Rightarrow> yaml_locals \<Rightarrow> 'l yaml_state \<Rightarrow>
    ('l yaml_state, 'l yaml_result) flow option" where
  "yaml_scan_escape E v L x =
     (let nwl = yaml_pick2 v L R_DQT_ESC_NWL BR_DQT_ESC_NWL;
          esc = yaml_pick2 v L R_DQT_ESC_SEQ BR_DQT_ESC_SEQ in
      if nwl = None \<and> esc = None then Some (Next x)
      else
        let x = yaml_adv E x in
        and_then
          (if is_nwl (la E x) then yaml_with nwl (\<lambda>t x. Some (yaml_ret t (yaml_mrk_end E x))) x else Some (Next x))
          (\<lambda>x. Some (Return (case esc of Some t \<Rightarrow> yaml_scn_dqt_esc_seq E t x | None \<Rightarrow> (False, x)))))"

text \<open>The chain of conditions on the first character of a token.\<close>

definition yaml_scan_indicator :: "'l env \<Rightarrow> (yaml_token \<Rightarrow> bool) \<Rightarrow> yaml_locals \<Rightarrow> 'l yaml_state \<Rightarrow>
    ('l yaml_state, 'l yaml_result) flow option" where
  "yaml_scan_indicator E v L x =
     (let c = la E x;
          imp = (\<lambda>f t x. f t (yaml_may_upd_imp_col L x)) in
      if c = ch CHR ''%'' then yaml_case (v S_DIR_YML_BGN \<and> is_s L) (yaml_scn_dir_bgn E) x
      else if c = ch CHR ''*'' then yaml_with (yaml_pick3 v L R_ALS_BGN BR_ALS_BGN B_ALS_BGN) (imp (yaml_scn_als_bgn E)) x
      else if c = ch CHR ''&'' then yaml_with (yaml_pick3 v L R_ACR_BGN BR_ACR_BGN B_ACR_BGN) (imp (yaml_scn_acr_bgn E)) x
      else if c = ch CHR ''!'' then yaml_with (yaml_pick3 v L R_TAG BR_TAG B_TAG) (imp (yaml_scn_tag E)) x
      else if c = ch CHR ''['' then
        yaml_with (yaml_pick3 v L R_FLW_SEQ_BGN BR_FLW_SEQ_BGN B_FLW_SEQ_BGN) (imp (yaml_single E)) x
      else if c = ch CHR '']'' then
        yaml_with (yaml_pick v [(R_FLW_SEQ_END, is_r L, R_FLW_SEQ_END), (BR_FLW_SEQ_END, is_br L, BR_FLW_SEQ_END),
          (B_FLW_SEQ_END, is_b L, BR_FLW_SEQ_END)]) (yaml_single E) x
      else if c = ch CHR ''{'' then
        yaml_with (yaml_pick3 v L R_FLW_MAP_BGN BR_FLW_MAP_BGN B_FLW_MAP_BGN) (imp (yaml_single E)) x
      else if c = ch CHR ''}'' then
        yaml_with (yaml_pick v [(R_FLW_MAP_END, is_r L, R_FLW_MAP_END), (BR_FLW_MAP_END, is_br L, BR_FLW_MAP_END),
          (B_FLW_MAP_END, is_b L, BR_FLW_MAP_END)]) (yaml_single E) x
      else if c = ch CHR '','' then yaml_with (yaml_pick2 v L R_FLW_SEP_BGN BR_FLW_SEP_BGN) (yaml_single E) x
      else if c = ch CHR 0x22 then
        and_then
          (yaml_with (yaml_pick3 v L R_DQT_STR_BGN BR_DQT_STR_BGN B_DQT_STR_BGN) (imp (yaml_single E)) x)
          (yaml_with (yaml_pick2 v L R_DQT_STR_END BR_DQT_STR_END) (yaml_single E))
      else if c = ch CHR 0x27 then yaml_scan_quote E v L x
      else if c = ch CHR ''?'' then yaml_scan_key E v L x
      else if c = ch CHR '':'' then yaml_scan_value E v L x
      else if c = ch CHR ''-'' then yaml_scan_dash E v L x
      else if c = ch CHR ''.'' then yaml_scan_dot E v L x
      else if c = ch CHR 0x5C then yaml_scan_escape E v L x
      else if c = ch CHR ''|'' then yaml_with (yaml_pick2 v L R_BLK_LIT_BGN BR_BLK_LIT_BGN) (yaml_scn_blk_str_bgn E) x
      else if c = ch CHR ''>'' then yaml_with (yaml_pick2 v L R_BLK_FLD_BGN BR_BLK_FLD_BGN) (yaml_scn_blk_str_bgn E) x
      else Some (Next x))"

text \<open>\<^verbatim>\<open>SGL_PLN_SYM\<close>: the token of a plain scalar of one line, by its type.\<close>

definition yaml_sgl_pln_sym :: "ResultSchema \<Rightarrow> yaml_token list \<Rightarrow> yaml_token" where
  "yaml_sgl_pln_sym r ts =
     (case r of RS_NULL \<Rightarrow> ts ! 0 | RS_BOOL \<Rightarrow> ts ! 1 | RS_INT \<Rightarrow> ts ! 2 | RS_FLOAT \<Rightarrow> ts ! 3 | RS_STR \<Rightarrow> ts ! 4)"

text \<open>The first character of a plain scalar, which the block for its indicator may have read already.\<close>

definition yaml_plain_first :: "'l env \<Rightarrow> yaml_locals \<Rightarrow> (int \<Rightarrow> bool) \<Rightarrow> 'l yaml_state \<Rightarrow>
    ('l yaml_state, 'l yaml_result) flow option" where
  "yaml_plain_first E L is_plain_safe x =
     (let x = (if cur_col (sc x) = bgn_col L then yaml_adv E x else x) in
      if sint (cur_col (sc x)) - sint (bgn_col L) = 1 then
        if \<not> (is_ns_char (bgn_chr L) \<and> \<not> is_c_indicator (bgn_chr L)
              \<or> (bgn_chr L = ch CHR ''-'' \<or> bgn_chr L = ch CHR ''?'' \<or> bgn_chr L = ch CHR '':'') \<and> is_plain_safe (la E x))
        then Some (Return (False, x))
        else map_option Next (yaml_upd_sch x)
      else Some (Next (x\<lparr>sc := (sc x)\<lparr>sch_stt := SCH_STT_FRZ\<rparr>\<rparr>)))"

text \<open>Line breaks and blanks between the lines of a plain scalar, and the loop over its lines.\<close>

definition yaml_plain_blanks :: "'l env \<Rightarrow> 'l yaml_state \<Rightarrow> 'l yaml_state option" where
  "yaml_plain_blanks E =
     c_loop (\<lambda>x. if is_nwl (la E x) then Some (Next (yaml_adv_nwl E x))
                 else if is_wsp (la E x) then Some (Next (yaml_adv E x))
                 else Some (Return x))"

definition yaml_plain_step :: "'l env \<Rightarrow> int16 \<Rightarrow> (int \<Rightarrow> bool) \<Rightarrow> 'l yaml_state \<Rightarrow> ('l yaml_state, 'l yaml_state) flow option" where
  "yaml_plain_step E ind is_plain_safe x =
     and_then
       (if \<not> is_nwl (la E x)
        then map_option (\<lambda>(r, x). if r \<noteq> SCN_SUCC then Return x else Next x) (yaml_scn_pln_cnt E is_plain_safe x)
        else Some (Next x))
       (\<lambda>x. if la E x = 0 \<or> \<not> is_nwl (la E x) then Some (Return x)
            else
              do { x \<leftarrow> yaml_plain_blanks E x;
                   if la E x = 0 \<or> sint (cur_col (sc x)) \<le> sint ind then Some (Return x)
                   else
                     let (doc_end, x) = (if cur_col (sc x) = 0 then yaml_scn_drs_doc_end E x else (False, x)) in
                     Some (if doc_end then Return x else Next x) })"

definition maybe_sgl_pln_blk :: "(yaml_token \<Rightarrow> bool) \<Rightarrow> yaml_locals \<Rightarrow> bool" where
  "maybe_sgl_pln_blk v L \<longleftrightarrow> v R_SGL_PLN_STR_BLK \<and> is_r L \<or> v BR_SGL_PLN_STR_BLK \<and> is_br L \<or> v B_SGL_PLN_STR_BLK \<and> is_b L"

definition maybe_sgl_pln_flw :: "(yaml_token \<Rightarrow> bool) \<Rightarrow> yaml_locals \<Rightarrow> bool" where
  "maybe_sgl_pln_flw v L \<longleftrightarrow> v R_SGL_PLN_STR_FLW \<and> is_r L \<or> v BR_SGL_PLN_STR_FLW \<and> is_br L"

definition maybe_mtl_pln_blk :: "(yaml_token \<Rightarrow> bool) \<Rightarrow> yaml_locals \<Rightarrow> bool" where
  "maybe_mtl_pln_blk v L \<longleftrightarrow> v R_MTL_PLN_STR_BLK \<and> is_r L \<or> v BR_MTL_PLN_STR_BLK \<and> is_br L"

definition maybe_mtl_pln_flw :: "(yaml_token \<Rightarrow> bool) \<Rightarrow> yaml_locals \<Rightarrow> bool" where
  "maybe_mtl_pln_flw v L \<longleftrightarrow> v R_MTL_PLN_STR_FLW \<and> is_r L \<or> v BR_MTL_PLN_STR_FLW \<and> is_br L"

text \<open>The token of a plain scalar, by its number of lines, its type and its position.\<close>

definition yaml_plain_report :: "(yaml_token \<Rightarrow> bool) \<Rightarrow> yaml_locals \<Rightarrow> 'l yaml_state \<Rightarrow> 'l yaml_result" where
  "yaml_plain_report v L x =
     (let r = rlt_sch (sc x) in
      if end_row (sc x) = bgn_row L then
        if maybe_sgl_pln_blk v L then
          yaml_ret (yaml_sgl_pln_sym r
            (if is_r L then [R_SGL_PLN_NUL_BLK, R_SGL_PLN_BOL_BLK, R_SGL_PLN_INT_BLK, R_SGL_PLN_FLT_BLK, R_SGL_PLN_STR_BLK]
             else if is_br L then [BR_SGL_PLN_NUL_BLK, BR_SGL_PLN_BOL_BLK, BR_SGL_PLN_INT_BLK, BR_SGL_PLN_FLT_BLK, BR_SGL_PLN_STR_BLK]
             else [B_SGL_PLN_NUL_BLK, B_SGL_PLN_BOL_BLK, B_SGL_PLN_INT_BLK, B_SGL_PLN_FLT_BLK, B_SGL_PLN_STR_BLK]))
            (yaml_may_upd_imp_col L x)
        else if maybe_sgl_pln_flw v L then
          yaml_ret (yaml_sgl_pln_sym r
            (if is_r L then [R_SGL_PLN_NUL_FLW, R_SGL_PLN_BOL_FLW, R_SGL_PLN_INT_FLW, R_SGL_PLN_FLT_FLW, R_SGL_PLN_STR_FLW]
             else [BR_SGL_PLN_NUL_FLW, BR_SGL_PLN_BOL_FLW, BR_SGL_PLN_INT_FLW, BR_SGL_PLN_FLT_FLW, BR_SGL_PLN_STR_FLW])) x
        else (False, x)
      else if maybe_mtl_pln_blk v L then
        yaml_ret (if is_r L then R_MTL_PLN_STR_BLK else BR_MTL_PLN_STR_BLK) (yaml_may_upd_imp_col L x)
      else if maybe_mtl_pln_flw v L then yaml_ret (if is_r L then R_MTL_PLN_STR_FLW else BR_MTL_PLN_STR_FLW) x
      else (False, x))"

definition yaml_scan_plain :: "'l env \<Rightarrow> (yaml_token \<Rightarrow> bool) \<Rightarrow> yaml_locals \<Rightarrow> 'l yaml_state \<Rightarrow> 'l yaml_result option" where
  "yaml_scan_plain E v L x =
     (if maybe_sgl_pln_blk v L \<or> maybe_sgl_pln_flw v L \<or> maybe_mtl_pln_blk v L \<or> maybe_mtl_pln_flw v L then
        let is_in_blk = (maybe_sgl_pln_blk v L \<or> maybe_mtl_pln_blk v L);
            is_plain_safe = (if is_in_blk then is_plain_safe_in_block else is_plain_safe_in_flow) in
        then_return (yaml_plain_first E L is_plain_safe x)
          (\<lambda>x. do { x \<leftarrow> c_loop (yaml_plain_step E (cur_ind L) is_plain_safe) (yaml_mrk_end E x);
                    Some (yaml_plain_report v L x) })
      else Some (\<not> v ERR_REC, x))"

text \<open>The position of the token, once the blanks in front of it are read.\<close>

definition yaml_position :: "'l env \<Rightarrow> yaml_scanner \<Rightarrow> bool \<Rightarrow> int16 \<Rightarrow> 'l yaml_state \<Rightarrow> yaml_locals" where
  "yaml_position E s0 tab leading_spaces x =
     (let s = sc x;
          ind = last (ind_len_stk s0);
          has_nwl = (sint (cur_row s) > sint (row s)) in
      \<lparr>cur_ind = ind,
       prt_ind = (if butlast (ind_len_stk s0) = [] then -1 else last (butlast (ind_len_stk s0))),
       cur_ind_typ = last (ind_typ_stk s0), has_tab_ind = tab,
       bgn_row = cur_row s, bgn_col = cur_col s, bgn_chr = la E x,
       is_r = (\<not> has_nwl), is_br = (has_nwl \<and> sint leading_spaces > sint ind),
       is_b = (has_nwl \<and> leading_spaces = ind \<and> \<not> tab), is_s = (cur_col s = 0)\<rparr>)"

definition yaml_scan :: "'l env \<Rightarrow> (yaml_token \<Rightarrow> bool) \<Rightarrow> 'l yaml_state \<Rightarrow> 'l yaml_result option" where
  "yaml_scan E v x =
     (let s0 = yaml_init (sc x);
          x = yaml_mrk_end E (x\<lparr>sc := s0\<rparr>) in
      if ind_len_stk s0 = [] \<or> ind_typ_stk s0 = [] then None
      else
        do { r \<leftarrow> c_loop (yaml_blank_step E v (last (ind_len_stk s0))) (False, 0, x);
             then_return (Some r)
               (\<lambda>(tab, leading_spaces, x).
                  let L = yaml_position E s0 tab leading_spaces x in
                  then_return
                    (and_then (and_then (and_then
                       (yaml_scan_eof E v x)
                       (yaml_scan_bl E v L))
                       (yaml_scan_continued E v L))
                       (yaml_scan_indicator E v L))
                    (yaml_scan_plain E v L)) })"

end
