(* ===== verification/Yaml_Blocks.thy ===== *)
theory Yaml_Blocks
  imports Yaml_Scanner
begin

text \<open>
  What the YAML scanner promises: the scan always returns, never pops the block of the
  document and changes the stacks as the reported token says.
\<close>

section \<open>The stacks of blocks\<close>

definition yaml_wf :: "yaml_scanner \<Rightarrow> bool" where
  "yaml_wf s \<longleftrightarrow> length (ind_typ_stk s) = length (ind_len_stk s) \<and> ind_typ_stk s \<noteq> []
     \<and> hd (ind_typ_stk s) = IND_ROT \<and> hd (ind_len_stk s) = -1"

text \<open>What a token says about the stacks: an end of block pops, the start of a collection or block scalar pushes.\<close>

definition yaml_pushes :: "int16 \<Rightarrow> yaml_scanner \<Rightarrow> yaml_scanner \<Rightarrow> bool" where
  "yaml_pushes typ s s' \<longleftrightarrow> ind_typ_stk s' = ind_typ_stk s @ [typ] \<and> (\<exists>n. ind_len_stk s' = ind_len_stk s @ [n])"

definition yaml_same :: "yaml_scanner \<Rightarrow> yaml_scanner \<Rightarrow> bool" where
  "yaml_same s s' \<longleftrightarrow> ind_typ_stk s' = ind_typ_stk s \<and> ind_len_stk s' = ind_len_stk s"

definition yaml_effect :: "yaml_token \<Rightarrow> yaml_scanner \<Rightarrow> yaml_scanner \<Rightarrow> bool" where
  "yaml_effect t s s' =
     (if t = BL then 1 < length (ind_typ_stk s) \<and> ind_typ_stk s' = butlast (ind_typ_stk s)
        \<and> ind_len_stk s' = butlast (ind_len_stk s)
      else if t \<in> {R_BLK_SEQ_BGN, BR_BLK_SEQ_BGN} then yaml_pushes IND_SEQ s s'
      else if t = B_BLK_SEQ_BGN then
        if last (ind_typ_stk s) = IND_MAP then yaml_pushes IND_SEQ s s' else yaml_same s s'
      else if t \<in> {R_BLK_KEY_BGN, BR_BLK_KEY_BGN, R_BLK_VAL_BGN, BR_BLK_VAL_BGN} then yaml_pushes IND_MAP s s'
      else if t = R_BLK_IMP_BGN then
        if last (ind_len_stk s) = blk_imp_col s then yaml_same s s'
        else yaml_pushes IND_MAP s s' \<and> last (ind_len_stk s') = blk_imp_col s
      else if t \<in> {R_BLK_LIT_BGN, BR_BLK_LIT_BGN, R_BLK_FLD_BGN, BR_BLK_FLD_BGN} then yaml_pushes IND_STR s s'
      else yaml_same s s')"

lemma yaml_effect_wf: "yaml_wf s \<Longrightarrow> yaml_effect t s s' \<Longrightarrow> yaml_wf s'"
proof -
  assume wf: "yaml_wf s" and eff: "yaml_effect t s s'"
  have push: "yaml_wf s'" if "yaml_pushes k s s'" for k
    using wf that by (auto simp: yaml_wf_def yaml_pushes_def hd_append)
  have same: "yaml_wf s'" if "yaml_same s s'"
    using wf that by (simp add: yaml_wf_def yaml_same_def)
  have pop: "yaml_wf s'" if len: "1 < length (ind_typ_stk s)" and "ind_typ_stk s' = butlast (ind_typ_stk s)" "ind_len_stk s' = butlast (ind_len_stk s)"
  proof -
    obtain a b ts where "ind_typ_stk s = a # b # ts" using len by (cases "ind_typ_stk s"; cases "tl (ind_typ_stk s)") auto
    moreover obtain c d ls where "ind_len_stk s = c # d # ls"
      using len wf by (cases "ind_len_stk s"; cases "tl (ind_len_stk s)") (auto simp: yaml_wf_def)
    ultimately show ?thesis using wf that by (auto simp: yaml_wf_def)
  qed
  show ?thesis using eff push same pop unfolding yaml_effect_def by (auto split: if_splits)
qed

text \<open>
  The tokens that may be reported: those asked for, and some that come in their place. A
  plain scalar is asked for as a string, the kinds of directives by the first of them, a
  doubled quote by the end of the scalar. Comments and document markers are reported
  whether or not they are asked for, and so is the end of a block scalar at a marker. At
  the indentation of the block, the end of a flow collection is reported as the token for
  a deeper line.
\<close>

definition yaml_instead :: "(yaml_token \<times> yaml_token list) list" where
  "yaml_instead =
     [(S_DIR_YML_BGN, [S_DIR_TAG_BGN, S_DIR_RSV_BGN]), (BR_BLK_STR_CTN, [BL]),
      (R_SQT_STR_END, [R_SQT_ESC_SQT]), (BR_SQT_STR_END, [BR_SQT_ESC_SQT]),
      (B_FLW_SEQ_END, [BR_FLW_SEQ_END]), (B_FLW_MAP_END, [BR_FLW_MAP_END]),
      (R_SGL_PLN_STR_BLK, [R_SGL_PLN_NUL_BLK, R_SGL_PLN_BOL_BLK, R_SGL_PLN_INT_BLK, R_SGL_PLN_FLT_BLK]),
      (BR_SGL_PLN_STR_BLK, [BR_SGL_PLN_NUL_BLK, BR_SGL_PLN_BOL_BLK, BR_SGL_PLN_INT_BLK, BR_SGL_PLN_FLT_BLK]),
      (B_SGL_PLN_STR_BLK, [B_SGL_PLN_NUL_BLK, B_SGL_PLN_BOL_BLK, B_SGL_PLN_INT_BLK, B_SGL_PLN_FLT_BLK]),
      (R_SGL_PLN_STR_FLW, [R_SGL_PLN_NUL_FLW, R_SGL_PLN_BOL_FLW, R_SGL_PLN_INT_FLW, R_SGL_PLN_FLT_FLW]),
      (BR_SGL_PLN_STR_FLW, [BR_SGL_PLN_NUL_FLW, BR_SGL_PLN_BOL_FLW, BR_SGL_PLN_INT_FLW, BR_SGL_PLN_FLT_FLW])]"

definition yaml_may_report :: "(yaml_token \<Rightarrow> bool) \<Rightarrow> yaml_token \<Rightarrow> bool" where
  "yaml_may_report v t \<longleftrightarrow>
     v t \<or> t \<in> {COMMENT, S_DRS_END, S_DOC_END} \<or> (\<exists>(u, ts) \<in> set yaml_instead. v u \<and> t \<in> set ts)"

section \<open>What each function keeps\<close>

definition yaml_stk :: "'l yaml_state \<Rightarrow> int16 list \<times> int16 list \<times> int16 \<times> int16" where
  "yaml_stk x = (ind_typ_stk (sc x), ind_len_stk (sc x), blk_imp_col (sc x), blk_imp_tab (sc x))"

definition yaml_sch :: "'l yaml_state \<Rightarrow> int \<times> ResultSchema" where
  "yaml_sch x = (sch_stt (sc x), rlt_sch (sc x))"

abbreviation yaml_sym :: "'l yaml_state \<Rightarrow> yaml_token" where
  "yaml_sym x \<equiv> result_symbol (lx x)"

abbreviation yaml_keeps :: "'l yaml_state \<Rightarrow> 'l yaml_state \<Rightarrow> bool" where
  "yaml_keeps x x' \<equiv> yaml_stk x' = yaml_stk x \<and> yaml_sch x' = yaml_sch x \<and> yaml_sym x' = yaml_sym x"

text \<open>A function that reads one of the tokens \<open>T\<close> and does not touch the stacks.\<close>

definition yaml_reads :: "yaml_token set \<Rightarrow> 'l yaml_state \<Rightarrow> 'l yaml_result \<Rightarrow> bool" where
  "yaml_reads T x r \<longleftrightarrow> (case r of (b, x') \<Rightarrow>
     yaml_stk x' = yaml_stk x \<and> yaml_sch x' = yaml_sch x \<and> (if b then yaml_sym x' \<in> T else yaml_sym x' = yaml_sym x))"

lemma yaml_reads_False [simp]:
  "yaml_reads T x (False, x') \<longleftrightarrow> yaml_stk x' = yaml_stk x \<and> yaml_sch x' = yaml_sch x \<and> yaml_sym x' = yaml_sym x"
  by (simp add: yaml_reads_def)

lemma yaml_reads_ret [simp]:
  "yaml_reads T x (yaml_ret t x') \<longleftrightarrow> yaml_stk x' = yaml_stk x \<and> yaml_sch x' = yaml_sch x \<and> t \<in> T"
  by (simp add: yaml_reads_def yaml_ret_def yaml_flush_def yaml_stk_def yaml_sch_def)

text \<open>What the scan promises of its result, and the tokens that say nothing about the stacks.\<close>

definition yaml_post :: "(yaml_token \<Rightarrow> bool) \<Rightarrow> 'l yaml_state \<Rightarrow> 'l yaml_result \<Rightarrow> bool" where
  "yaml_post v x r \<longleftrightarrow> (case r of (b, x') \<Rightarrow>
     if b then yaml_may_report v (yaml_sym x') \<and> yaml_effect (yaml_sym x') (sc x) (sc x')
       \<or> yaml_sym x' = yaml_sym x \<and> yaml_same (sc x) (sc x') \<and> \<not> v ERR_REC
     else yaml_same (sc x) (sc x'))"

text \<open>The same for a function that is only tried: when it fails, the scan goes on.\<close>

definition yaml_tried :: "(yaml_token \<Rightarrow> bool) \<Rightarrow> 'l yaml_state \<Rightarrow> 'l yaml_state \<Rightarrow> 'l yaml_result \<Rightarrow> bool" where
  "yaml_tried v x0 x r \<longleftrightarrow> (case r of (b, x') \<Rightarrow> if b then yaml_post v x0 (True, x') else yaml_keeps x x')"

definition yaml_neutral :: "yaml_token \<Rightarrow> bool" where
  "yaml_neutral t \<longleftrightarrow> t \<notin> {BL, R_BLK_SEQ_BGN, BR_BLK_SEQ_BGN, B_BLK_SEQ_BGN, R_BLK_KEY_BGN, BR_BLK_KEY_BGN, R_BLK_VAL_BGN,
     BR_BLK_VAL_BGN, R_BLK_IMP_BGN, R_BLK_LIT_BGN, BR_BLK_LIT_BGN, R_BLK_FLD_BGN, BR_BLK_FLD_BGN}"

lemma yaml_neutral_effect: "yaml_neutral t \<Longrightarrow> yaml_effect t s s' \<longleftrightarrow> yaml_same s s'"
  by (simp add: yaml_neutral_def yaml_effect_def)

lemma yaml_stk_same: "yaml_stk x' = yaml_stk x \<Longrightarrow> yaml_same (sc x) (sc x')"
  by (simp add: yaml_stk_def yaml_same_def)

lemma yaml_reads_post:
  assumes "yaml_reads T x r" and "yaml_stk x = yaml_stk x0" and "\<And>t. t \<in> T \<Longrightarrow> yaml_neutral t \<and> yaml_may_report v t"
  shows "yaml_post v x0 r"
proof -
  obtain b x' where r: "r = (b, x')" by (cases r)
  have "yaml_stk x' = yaml_stk x0" using assms(1,2) by (simp add: r yaml_reads_def)
  then have "yaml_same (sc x0) (sc x')" by (rule yaml_stk_same)
  with assms(1) assms(3) [of "yaml_sym x'"] show ?thesis
    by (auto simp: r yaml_post_def yaml_reads_def yaml_neutral_effect split: if_splits)
qed

context ts_lexer
begin

lemma yaml_ops [simp]:
  "yaml_stk (yaml_adv E x) = yaml_stk x" "yaml_stk (yaml_adv_nwl E x) = yaml_stk x" "yaml_stk (yaml_skp E x) = yaml_stk x"
  "yaml_stk (yaml_skp_nwl E x) = yaml_stk x" "yaml_stk (yaml_mrk_end E x) = yaml_stk x"
  "yaml_sch (yaml_adv E x) = yaml_sch x" "yaml_sch (yaml_adv_nwl E x) = yaml_sch x" "yaml_sch (yaml_skp E x) = yaml_sch x"
  "yaml_sch (yaml_skp_nwl E x) = yaml_sch x" "yaml_sch (yaml_mrk_end E x) = yaml_sch x"
  "yaml_sym (yaml_adv E x) = yaml_sym x" "yaml_sym (yaml_adv_nwl E x) = yaml_sym x" "yaml_sym (yaml_skp E x) = yaml_sym x"
  "yaml_sym (yaml_skp_nwl E x) = yaml_sym x" "yaml_sym (yaml_mrk_end E x) = yaml_sym x"
  by (simp_all add: yaml_adv_def yaml_adv_nwl_def yaml_skp_def yaml_skp_nwl_def yaml_mrk_end_def yaml_stk_def yaml_sch_def)

abbreviation yaml_rest :: "'l yaml_state \<Rightarrow> int list" where
  "yaml_rest x \<equiv> rest (raw (lx x))"

lemma yaml_rest_ops [simp]:
  "yaml_rest (yaml_adv E x) = tl (yaml_rest x)" "yaml_rest (yaml_adv_nwl E x) = tl (yaml_rest x)"
  "yaml_rest (yaml_skp E x) = tl (yaml_rest x)" "yaml_rest (yaml_skp_nwl E x) = tl (yaml_rest x)"
  "yaml_rest (yaml_mrk_end E x) = yaml_rest x"
  by (simp_all add: yaml_adv_def yaml_adv_nwl_def yaml_skp_def yaml_skp_nwl_def yaml_mrk_end_def)

lemma yaml_la_mrk_end [simp]: "la E (yaml_mrk_end E x) = la E x"
  by (simp add: yaml_mrk_end_def)

lemma yaml_less: "la E x \<noteq> 0 \<Longrightarrow> length (tl (yaml_rest x)) < length (yaml_rest x)"
  using remaining_pos [of "lx x"] by simp

lemma yaml_class_0 [simp]:
  "\<not> is_wsp 0" "\<not> is_nwl 0" "is_wht 0" "\<not> is_ns_dec_digit 0" "\<not> is_ns_hex_digit 0" "\<not> is_ns_word_char 0" "\<not> is_nb_double_char 0"
  "\<not> is_nb_single_char 0" "\<not> is_ns_char 0" "\<not> is_ns_uri_char 0" "\<not> is_ns_tag_char 0" "\<not> is_ns_anchor_char 0"
  "\<not> is_plain_safe_in_block 0" "\<not> is_plain_safe_in_flow 0"
  by (simp_all add: is_wsp_def is_nwl_def is_wht_def is_ns_dec_digit_def is_ns_hex_digit_def is_ns_word_char_def is_nb_double_char_def
      is_nb_single_char_def is_nb_json_def is_ns_char_def is_ns_uri_char_def is_ns_tag_char_def is_ns_anchor_char_def
      is_plain_safe_in_block_def is_plain_safe_in_flow_def)

lemma wp_yaml_adv_while:
  assumes "\<not> p 0"
    and "\<And>x'. yaml_keeps x x' \<Longrightarrow>
           length (yaml_rest x') \<le> length (yaml_rest x) \<Longrightarrow> Q x'"
  shows "runs (yaml_adv_while E p x) Q"
  unfolding yaml_adv_while_def
proof (rule runs_while_option [where m = "\<lambda>x. length (yaml_rest x)" and I = "\<lambda>x'. yaml_keeps x x' \<and> length (yaml_rest x') \<le> length (yaml_rest x)"], goal_cases)
  case (2 y)
  then have "la E y \<noteq> 0" using assms(1) by metis
  with 2 yaml_less [OF this] show ?case by auto
qed (use assms(2) in auto)

lemma wp_yaml_adv_count:
  assumes "\<not> p 0"
    and "\<And>n x'. yaml_keeps x x' \<Longrightarrow> Q (n, x')"
  shows "runs (yaml_adv_count E p x) Q"
  unfolding yaml_adv_count_def
proof (rule runs_while_option [where m = "\<lambda>(n, x). length (yaml_rest x)" and I = "\<lambda>(n, x'). yaml_keeps x x'"], goal_cases)
  case (2 y)
  obtain n z where y: "y = (n, z)" by (cases y)
  with 2 have "la E z \<noteq> 0" using assms(1) by auto
  with 2 yaml_less [OF this] show ?case by (simp add: y)
qed (use assms(2) in auto)

lemma runs_yaml_reads_weaken: "runs c (yaml_reads T x) \<Longrightarrow> T \<subseteq> T' \<Longrightarrow> runs c (yaml_reads T' x)"
  by (erule runs_weaken) (auto simp: yaml_reads_def split: if_splits)

lemma yaml_scn_uri_esc_keeps:
  "yaml_scn_uri_esc E x = (r, x') \<Longrightarrow> yaml_keeps x x' \<and> (r = SCN_SUCC \<longrightarrow> length (yaml_rest x') < length (yaml_rest x))"
proof -
  assume "yaml_scn_uri_esc E x = (r, x')"
  moreover have "length (tl (yaml_rest x)) < length (yaml_rest x)" if "la E x = ch CHR ''%''"
    by (rule yaml_less) (use that in simp)
  ultimately show ?thesis by (auto simp: yaml_scn_uri_esc_def Let_def split: if_splits)
qed

lemma yaml_uri_chars:
  assumes "f \<in> {yaml_scn_ns_uri_char E, yaml_scn_ns_tag_char E}" and "f x = (r, x')"
  shows "yaml_keeps x x' \<and> (r = SCN_SUCC \<longrightarrow> length (yaml_rest x') < length (yaml_rest x))"
proof -
  have "length (tl (yaml_rest x)) < length (yaml_rest x)" if "is_ns_uri_char (la E x) \<or> is_ns_tag_char (la E x)"
    by (rule yaml_less) (use that in auto)
  with assms yaml_scn_uri_esc_keeps [of x r x'] show ?thesis
    by (auto simp: yaml_scn_ns_uri_char_def yaml_scn_ns_tag_char_def split: if_splits)
qed

lemmas yaml_uri_char_cases = yaml_uri_chars [of "yaml_scn_ns_uri_char E", simplified] yaml_uri_chars [of "yaml_scn_ns_tag_char E", simplified]

lemma runs_yaml_char_loop:
  assumes "f \<in> {yaml_scn_ns_uri_char E, yaml_scn_ns_tag_char E}"
  shows "runs (yaml_char_loop E f t x) (yaml_reads {t} x)"
  unfolding yaml_char_loop_def
proof (rule runs_c_loop [where m = "\<lambda>x. length (yaml_rest x)" and I = "\<lambda>x'. yaml_keeps x x'"], goal_cases)
  case (2 y)
  obtain r z where f: "f y = (r, z)" by fastforce
  from 2 yaml_uri_chars [OF assms f] show ?case unfolding f by (cases r) auto
qed simp

lemma yaml_word_keeps: "yaml_word E w x = (b, x') \<Longrightarrow> yaml_keeps x x'"
  by (induction w arbitrary: x) (fastforce split: if_splits)+

lemma yaml_hex_digits_keeps: "yaml_hex_digits E n x = (b, x') \<Longrightarrow> yaml_keeps x x'"
  by (induction n arbitrary: x) (fastforce split: if_splits)+

lemma runs_yaml_scn_tag_hdl_tal:
  "runs (yaml_scn_tag_hdl_tal E x) (\<lambda>(b, x'). yaml_keeps x x')"
  by (auto simp: yaml_scn_tag_hdl_tal_def intro!: wp_yaml_adv_count)

lemma runs_yaml_directives:
  "runs (yaml_scn_dir_yml_ver E t x) (yaml_reads {t} x)"
  "runs (yaml_scn_dir_tag_hdl E t x) (yaml_reads {t} x)"
  "runs (yaml_scn_dir_rsv_prm E t x) (yaml_reads {t} x)"
  by (auto simp: yaml_scn_dir_yml_ver_def yaml_scn_dir_tag_hdl_def yaml_scn_dir_rsv_prm_def
      intro!: wp_yaml_adv_count wp_yaml_adv_while runs_weaken [OF runs_yaml_scn_tag_hdl_tal])

lemma runs_yaml_scn_dir_bgn:
  "runs (yaml_scn_dir_bgn E x) (yaml_reads {S_DIR_YML_BGN, S_DIR_TAG_BGN, S_DIR_RSV_BGN} x)"
  by (auto simp: yaml_scn_dir_bgn_def Let_def simp del: yaml_word.simps dest!: yaml_word_keeps split: prod.splits intro!: wp_yaml_adv_while)

lemma runs_yaml_anchors:
  "runs (yaml_scn_acr_bgn E t x) (yaml_reads {t} x)" "runs (yaml_scn_acr_ctn E t x) (yaml_reads {t} x)"
  "runs (yaml_scn_als_bgn E t x) (yaml_reads {t} x)" "runs (yaml_scn_als_ctn E t x) (yaml_reads {t} x)"
  by (auto simp: yaml_scn_acr_bgn_def yaml_scn_acr_ctn_def yaml_scn_als_bgn_def yaml_scn_als_ctn_def Let_def intro!: wp_yaml_adv_while)

lemma runs_yaml_scn_dir_tag_pfx: "runs (yaml_scn_dir_tag_pfx E t x) (yaml_reads {t} x)"
proof -
  have loop: "runs (yaml_char_loop E (yaml_scn_ns_uri_char E) t y) (yaml_reads {t} x)"
    if "yaml_keeps x y" for y
    by (rule runs_weaken [OF runs_yaml_char_loop]) (use that in \<open>auto simp: yaml_reads_def\<close>)
  show ?thesis
    using loop by (auto simp: yaml_scn_dir_tag_pfx_def Let_def split: prod.splits dest!: yaml_uri_char_cases(2))
qed

lemma runs_yaml_verbatim_tag: "runs (yaml_verbatim_tag E t x) (yaml_reads {t} x)"
proof -
  have loop: "runs (c_loop (\<lambda>x. case yaml_scn_ns_uri_char E x of
              (SCN_STOP, x) \<Rightarrow>
                Some (Return (if la E x = ch CHR ''>'' then yaml_ret t (yaml_mrk_end E (yaml_adv E x)) else (False, x)))
            | (SCN_FAIL, x) \<Rightarrow> Some (Return (False, x))
            | (SCN_SUCC, x) \<Rightarrow> Some (Next x)) y) (yaml_reads {t} x)"
    if "yaml_keeps x y" for y
  proof (rule runs_c_loop [where m = "\<lambda>x. length (yaml_rest x)" and I = "\<lambda>x'. yaml_keeps x x'"], goal_cases)
    case (2 z)
    obtain r u where f: "yaml_scn_ns_uri_char E z = (r, u)" by fastforce
    from 2 yaml_uri_char_cases(1) [OF f] show ?case unfolding f by (cases r) auto
  qed (use that in simp)
  show ?thesis
    using loop by (auto simp: yaml_verbatim_tag_def split: prod.splits scn.splits dest!: yaml_uri_char_cases(1))
qed

lemma runs_yaml_scn_tag: "runs (yaml_scn_tag E t x) (yaml_reads {t} x)"
proof -
  have loop: "runs (yaml_char_loop E (yaml_scn_ns_tag_char E) t y) (yaml_reads {t} x)"
    if "yaml_keeps x y" for y
    by (rule runs_weaken [OF runs_yaml_char_loop]) (use that in \<open>auto simp: yaml_reads_def\<close>)
  have tal: "runs (let (ok, z) = (if b then case yaml_scn_ns_tag_char E y of (r, x) \<Rightarrow> (r = SCN_SUCC, x) else (True, y)) in
               if ok then yaml_char_loop E (yaml_scn_ns_tag_char E) t z else Some (False, z)) (yaml_reads {t} x)"
    if "yaml_keeps x y" for b y
    using loop that by (auto split: prod.splits dest!: yaml_uri_char_cases(2))
  have verb: "runs (yaml_verbatim_tag E t (yaml_adv E (yaml_adv E x))) (yaml_reads {t} x)"
    by (rule runs_weaken [OF runs_yaml_verbatim_tag]) (auto simp: yaml_reads_def)
  have "runs (yaml_scn_tag_hdl_tal E (yaml_adv E x)) (\<lambda>(b, x'). yaml_keeps x x')"
    by (rule runs_weaken [OF runs_yaml_scn_tag_hdl_tal]) simp
  then have "runs (yaml_scn_tag_hdl_tal E (yaml_adv E x)) (\<lambda>r. runs (case r of (b, y) \<Rightarrow>
      let (ok, z) = (if b then case yaml_scn_ns_tag_char E y of (r, x) \<Rightarrow> (r = SCN_SUCC, x) else (True, y)) in
      if ok then yaml_char_loop E (yaml_scn_ns_tag_char E) t z else Some (False, z)) (yaml_reads {t} x))"
  proof (rule runs_weaken, goal_cases)
    case (1 r)
    then obtain b y where "r = (b, y)" "yaml_keeps x y" by (cases r) simp
    with tal [of y b] show ?case by (simp only: prod.case)
  qed
  then show ?thesis
    unfolding yaml_scn_tag_def Let_def [of "yaml_adv E x"] runs_if runs_bind by (simp add: verb)
qed

lemma yaml_scn_dqt_esc_seq_reads: "yaml_reads {t} x (yaml_scn_dqt_esc_seq E t x)"
  by (auto simp: yaml_scn_dqt_esc_seq_def Let_def simp del: yaml_hex_digits.simps dest!: yaml_hex_digits_keeps split: prod.splits)

lemma yaml_scn_drs_doc_end_keeps:
  "yaml_scn_drs_doc_end E x = (b, x') \<Longrightarrow> yaml_keeps x x' \<and> length (yaml_rest x') \<le> length (yaml_rest x)"
  by (auto simp: yaml_scn_drs_doc_end_def Let_def split: if_splits)

lemma runs_yaml_str_cnt: "\<not> p 0 \<Longrightarrow> runs (yaml_str_cnt E p t x) (yaml_reads {t, S_DRS_END, S_DOC_END} x)"
  by (auto simp: yaml_str_cnt_def Let_def dest!: yaml_scn_drs_doc_end_keeps split: prod.splits if_splits intro!: wp_yaml_adv_while)

lemma runs_yaml_pop_bl:
  assumes "yaml_wf (sc x)"
  shows "runs (yaml_pop_bl x) (\<lambda>(b, x'). if b then yaml_sym x' = BL \<and> yaml_effect BL (sc x) (sc x') else x' = x)"
proof (cases "length (ind_typ_stk (sc x)) = 1")
  case False
  with assms have "ind_typ_stk (sc x) \<noteq> []" "ind_len_stk (sc x) \<noteq> []" "1 < length (ind_typ_stk (sc x))"
    by (auto simp: yaml_wf_def) (metis One_nat_def length_greater_0_conv length_0_conv nat_neq_iff less_one)
  with False show ?thesis by (simp add: yaml_pop_bl_def yaml_pop_ind_def yaml_ret_def yaml_flush_def yaml_effect_def)
qed (simp add: yaml_pop_bl_def)

lemma yaml_effect_stk: "yaml_stk x = yaml_stk x0 \<Longrightarrow> yaml_effect t (sc x) s' = yaml_effect t (sc x0) s'"
  by (simp add: yaml_effect_def yaml_stk_def yaml_pushes_def yaml_same_def)

lemma yaml_wf_stk: "yaml_stk x = yaml_stk x0 \<Longrightarrow> yaml_wf (sc x0) \<Longrightarrow> yaml_wf (sc x)"
  by (simp add: yaml_wf_def yaml_stk_def)

lemma runs_yaml_pop_bl_post:
  assumes "yaml_wf (sc x0)" and "yaml_stk x = yaml_stk x0" and "yaml_may_report v BL"
  shows "runs (yaml_pop_bl x) (yaml_post v x0)"
proof (rule runs_weaken [OF runs_yaml_pop_bl [OF yaml_wf_stk [OF assms(2,1)]]], goal_cases)
  case (1 r)
  obtain b x' where r: "r = (b, x')" by (cases r)
  show ?case
    using 1 yaml_effect_stk [OF assms(2), of BL "sc x'"] yaml_stk_same [OF assms(2)] assms(3)
    by (auto simp: r yaml_post_def split: if_splits)
qed

lemma runs_yaml_blk_line: "runs (yaml_blk_line E x) (\<lambda>x'. yaml_keeps x x')"
  unfolding yaml_blk_line_def
proof (rule runs_c_loop [where m = "\<lambda>x. length (yaml_rest x)" and I = "\<lambda>x'. yaml_keeps x x'"], goal_cases)
  case (2 y)
  have "runs (if is_ns_char (la E y) then do { z \<leftarrow> yaml_adv_while E is_ns_char (yaml_adv E y); Some (yaml_mrk_end E z) } else Some y)
      (\<lambda>z. yaml_keeps x z \<and> length (yaml_rest z) \<le> length (yaml_rest y))"
    using 2 by (auto intro!: wp_yaml_adv_while)
  then show ?case
    unfolding runs_bind
  proof (rule runs_weaken, goal_cases)
    case (1 z)
    moreover have "length (tl (yaml_rest z)) < length (yaml_rest z)" if "is_wsp (la E z)"
      by (rule yaml_less) (use that in auto)
    ultimately show ?case by (auto intro!: wp_yaml_adv_while)
  qed
qed simp

lemma runs_yaml_scn_blk_str_cnt:
  assumes "yaml_wf (sc x0)" and "yaml_stk x = yaml_stk x0" and "v BR_BLK_STR_CTN"
  shows "runs (yaml_scn_blk_str_cnt E BR_BLK_STR_CTN x) (yaml_tried v x0 x)"
proof -
  have may: "yaml_may_report v BL" using assms(3) by (auto simp: yaml_may_report_def yaml_instead_def)
  have pop: "runs (yaml_pop_bl y) (yaml_tried v x0 x)" if "yaml_keeps x y" for y
    by (rule runs_weaken [OF runs_conj [OF runs_yaml_pop_bl runs_yaml_pop_bl_post [OF assms(1) _ may]]])
      (use that assms in \<open>auto simp: yaml_tried_def intro: yaml_wf_stk split: if_splits\<close>)
  have line: "runs (do { z \<leftarrow> yaml_blk_line E y; Some (yaml_ret BR_BLK_STR_CTN z) })
      (yaml_tried v x0 x)" if "yaml_keeps x y" for y
    unfolding runs_bind runs_Some
  proof (rule runs_weaken [OF runs_yaml_blk_line], goal_cases)
    case (1 z)
    then have "yaml_reads {BR_BLK_STR_CTN} x (yaml_ret BR_BLK_STR_CTN z)" using that by simp
    from yaml_reads_post [OF this assms(2), of v] assms(3) show ?case
      by (simp add: yaml_tried_def yaml_ret_def yaml_neutral_def yaml_may_report_def)
  qed
  have same: "yaml_tried v x0 x (False, x)" by (simp add: yaml_tried_def)
  show ?thesis
    using pop line same
    by (auto simp: yaml_scn_blk_str_cnt_def Let_def simp del: runs_bind dest!: yaml_scn_drs_doc_end_keeps split: prod.splits if_splits)
qed

lemma yaml_blk_header_keeps: "yaml_blk_header E x = (ind, x') \<Longrightarrow> yaml_keeps x x'"
  by (auto simp: yaml_blk_header_def Let_def split: if_splits)

lemma runs_yaml_blk_detect: "runs (yaml_blk_detect E (ind, x)) (\<lambda>(ind, x'). yaml_keeps x x')"
  unfolding yaml_blk_detect_def
proof (rule runs_c_loop [where m = "\<lambda>(ind, x). length (yaml_rest x)" and I = "\<lambda>(ind, x'). yaml_keeps x x'"], goal_cases)
  case (2 y)
  obtain i z where "y = (i, z)" by (cases y)
  with 2 yaml_less [of z] show ?case by auto
qed simp

lemma yaml_push_post:
  assumes "yaml_stk x = yaml_stk x0" and "yaml_may_report v t"
    and "(t, k) \<in> {R_BLK_SEQ_BGN, BR_BLK_SEQ_BGN} \<times> {IND_SEQ} \<union> {R_BLK_KEY_BGN, BR_BLK_KEY_BGN, R_BLK_VAL_BGN, BR_BLK_VAL_BGN} \<times> {IND_MAP}
       \<union> {R_BLK_LIT_BGN, BR_BLK_LIT_BGN, R_BLK_FLD_BGN, BR_BLK_FLD_BGN} \<times> {IND_STR}"
  shows "yaml_post v x0 (yaml_ret t (yaml_push_ind k n x))" "yaml_post v x0 (yaml_ret t (yaml_mrk_end E (yaml_push_ind k n x)))"
  using assms
  by (auto simp: yaml_post_def yaml_ret_def yaml_flush_def yaml_push_ind_def yaml_mrk_end_def yaml_stk_def yaml_effect_def yaml_pushes_def)

lemma runs_yaml_scn_blk_str_bgn:
  assumes "yaml_wf (sc x0)" and "yaml_stk x = yaml_stk x0" and "v t"
    and "t \<in> {R_BLK_LIT_BGN, BR_BLK_LIT_BGN, R_BLK_FLD_BGN, BR_BLK_FLD_BGN}"
  shows "runs (yaml_scn_blk_str_bgn E t x) (yaml_post v x0)"
proof -
  have ne: "ind_len_stk (sc x) \<noteq> []" using yaml_wf_stk [OF assms(2,1)] by (auto simp: yaml_wf_def)
  have push: "yaml_post v x0 (yaml_ret t (yaml_push_ind IND_STR n y))" if "yaml_stk y = yaml_stk x0" for n y
    by (rule yaml_push_post) (use that assms in \<open>auto simp: yaml_may_report_def\<close>)
  have detect: "runs (yaml_blk_detect E (ind, y)) (\<lambda>(ind, z). yaml_stk z = yaml_stk x0)" if "yaml_stk y = yaml_stk x0" for ind y
    by (rule runs_weaken [OF runs_yaml_blk_detect]) (use that in auto)
  have fail: "yaml_post v x0 (False, y)" if "yaml_stk y = yaml_stk x0" for y
    using yaml_stk_same [OF that] by (simp add: yaml_post_def)
  have find: "runs (yaml_blk_indent E ind i y) (\<lambda>(ind, z). yaml_stk z = yaml_stk x0)" if "yaml_stk y = yaml_stk x0" for ind i y
    by (auto simp: yaml_blk_indent_def that intro!: wp_yaml_adv_while detect)
  obtain ind y where h: "yaml_blk_header E (yaml_adv E x) = (ind, y)" by fastforce
  from yaml_blk_header_keeps [OF h] assms(2) have y: "yaml_stk y = yaml_stk x0" by simp
  show ?thesis
    using ne assms(2) y by (auto simp: yaml_scn_blk_str_bgn_def Let_def h fail push [simplified] intro!: runs_weaken [OF find])
qed

end

end
