(* ===== verification/Yaml_Scan.thy ===== *)
theory Yaml_Scan
  imports Yaml_Blocks
begin

text \<open>
  The plain scalars of the YAML scanner, its blocks put together, and the properties of
  the whole scan.
\<close>

lemma yaml_reads_same_post:
  assumes "yaml_reads T x r" and "yaml_same (sc x0) (sc x)" and "\<And>t. t \<in> T \<Longrightarrow> yaml_neutral t \<and> yaml_may_report v t"
  shows "yaml_post v x0 r"
proof -
  obtain b x' where r: "r = (b, x')" by (cases r)
  have "yaml_stk x' = yaml_stk x" using assms(1) by (simp add: r yaml_reads_def)
  with assms(2) have "yaml_same (sc x0) (sc x')" by (simp add: yaml_same_def yaml_stk_def)
  with assms(1) assms(3) [of "yaml_sym x'"] show ?thesis
    by (auto simp: r yaml_post_def yaml_reads_def yaml_neutral_effect split: if_splits)
qed

lemma yaml_upd_imp_same [simp]: "yaml_same s (sc (yaml_may_upd_imp_col L x)) = yaml_same s (sc x)"
  by (simp add: yaml_may_upd_imp_col_def yaml_same_def)

lemma yaml_ret_post:
  assumes "yaml_neutral t" and "yaml_may_report v t" and "yaml_same (sc x0) (sc x)"
  shows "yaml_post v x0 (yaml_ret t x)"
  using assms by (simp add: yaml_post_def yaml_ret_def yaml_flush_def yaml_same_def yaml_neutral_effect)

lemma yaml_fail_post [simp]: "yaml_post v x0 (False, x) \<longleftrightarrow> yaml_same (sc x0) (sc x)"
  by (simp add: yaml_post_def)

section \<open>Plain scalars\<close>

text \<open>What reading a plain scalar keeps: the stacks, and a state of the machine that does not abort.\<close>

definition yaml_pln :: "'l yaml_state \<Rightarrow> 'l yaml_state \<Rightarrow> bool" where
  "yaml_pln x0 x \<longleftrightarrow> yaml_stk x = yaml_stk x0 \<and> yaml_sym x = yaml_sym x0 \<and> sch_ok (sch_stt (sc x)) (rlt_sch (sc x))"

lemma yaml_pln_keeps: "yaml_pln x0 x \<Longrightarrow> yaml_keeps x y \<Longrightarrow> yaml_pln x0 y"
  by (simp add: yaml_pln_def yaml_sch_def)

lemma runs_yaml_upd_sch:
  assumes "yaml_pln x0 x"
  shows "runs (yaml_upd_sch x) (\<lambda>y. yaml_pln x0 y \<and> lx y = lx x \<and> cur_chr (sc y) = cur_chr (sc x))"
  using assms adv_sch_stt_ok(1) [of "sch_stt (sc x)" "rlt_sch (sc x)" "cur_chr (sc x)"]
  by (auto simp: yaml_upd_sch_def yaml_pln_def yaml_stk_def split: option.splits)

context ts_lexer
begin

lemma yaml_pln_ops [simp]:
  "yaml_pln x0 (yaml_adv E x) = yaml_pln x0 x" "yaml_pln x0 (yaml_adv_nwl E x) = yaml_pln x0 x"
  "yaml_pln x0 (yaml_mrk_end E x) = yaml_pln x0 x"
  by (simp_all add: yaml_pln_def yaml_adv_def yaml_adv_nwl_def yaml_mrk_end_def yaml_stk_def)

lemma runs_yaml_scn_pln_cnt:
  assumes "\<not> p 0" and "yaml_pln x0 x"
  shows "runs (yaml_scn_pln_cnt E p x) (\<lambda>(r, y). yaml_pln x0 y \<and> length (yaml_rest y) \<le> length (yaml_rest x))"
proof -
  let ?I = "\<lambda>(saf :: bool, y). yaml_pln x0 y \<and> length (yaml_rest y) \<le> length (yaml_rest x)"
  have "runs (c_loop (yaml_pln_step E p) (b, x)) (\<lambda>(r, y). yaml_pln x0 y \<and> length (yaml_rest y) \<le> length (yaml_rest x))" for b
  proof (rule runs_c_loop [where m = "\<lambda>(saf, y). length (yaml_rest y)" and I = ?I], goal_cases)
    case (2 s)
    obtain saf y where s: "s = (saf, y)" by (cases s)
    with 2 have I: "yaml_pln x0 y" "length (yaml_rest y) \<le> length (yaml_rest x)" by auto
    have upd: "runs (yaml_upd_sch z) (\<lambda>u. yaml_pln x0 u \<and> lx u = lx z)" if "yaml_pln x0 z" for z
      by (rule runs_weaken [OF runs_yaml_upd_sch [OF that]]) simp
    have less: "length (tl (yaml_rest y)) < length (yaml_rest y)"
      if "p (la E y) \<or> la E y = ch CHR ''#'' \<or> is_wsp (la E y) \<or> la E y = ch CHR '':''"
      by (rule yaml_less) (use that assms(1) in auto)
    have first: "runs (if p (la E y) \<and> la E y \<noteq> ch CHR ''#'' \<and> la E y \<noteq> ch CHR '':''
        then map_option Next (yaml_upd_sch (yaml_mrk_end E (yaml_adv E y)))
        else if saf \<and> la E y = ch CHR ''#'' then map_option Next (yaml_upd_sch (yaml_mrk_end E (yaml_adv E y)))
        else if is_wsp (la E y) then map_option Next (yaml_upd_sch (yaml_adv E y))
        else if la E y = ch CHR '':'' then Some (Next (yaml_adv E y))
        else Some (Return (SCN_SUCC, y)))
      (case_flow (\<lambda>z. yaml_pln x0 z \<and> yaml_rest z = tl (yaml_rest y) \<and> length (yaml_rest z) < length (yaml_rest y)) (\<lambda>r. r = (SCN_SUCC, y)))"
      (is "runs ?c ?Q")
    proof -
      have "runs (map_option Next (yaml_upd_sch z)) ?Q"
        if "z = yaml_mrk_end E (yaml_adv E y) \<or> z = yaml_adv E y" "length (tl (yaml_rest y)) < length (yaml_rest y)" for z
        unfolding runs_map_option by (rule runs_weaken [OF upd]) (use that I in \<open>elim disjE; simp\<close>)+
      with less I(1) show ?thesis by (simp del: runs_map_option length_tl)
    qed
    show ?case
      unfolding s yaml_pln_step_def prod.case Let_def runs_and_then
      by (rule runs_weaken [OF first]) (use I in \<open>auto simp del: length_tl split: flow.splits intro!: runs_weaken [OF upd]\<close>)
  qed (use assms in auto)
  then show ?thesis using assms by (auto simp: yaml_scn_pln_cnt_def)
qed

lemma runs_yaml_plain_blanks:
  "runs (yaml_plain_blanks E x) (\<lambda>y. yaml_keeps x y \<and> length (yaml_rest y) \<le> length (yaml_rest x)
     \<and> (is_nwl (la E x) \<longrightarrow> length (yaml_rest y) < length (yaml_rest x)))"
  unfolding yaml_plain_blanks_def
proof (rule runs_c_loop [where m = "\<lambda>y. length (yaml_rest y)" and I = "\<lambda>y. yaml_keeps x y \<and> length (yaml_rest y) \<le> length (yaml_rest x)
    \<and> (y = x \<or> length (yaml_rest y) < length (yaml_rest x))"], goal_cases)
  case (2 y)
  have "length (tl (yaml_rest y)) < length (yaml_rest y)" if "is_nwl (la E y) \<or> is_wsp (la E y)"
    by (rule yaml_less) (use that in auto)
  with 2 show ?case by (auto simp del: length_tl)
qed simp

lemma runs_yaml_plain_step:
  assumes "\<not> p 0" and "yaml_pln x0 x"
  shows "runs (yaml_plain_step E ind p x) (case_flow (\<lambda>y. yaml_pln x0 y \<and> length (yaml_rest y) < length (yaml_rest x)) (yaml_pln x0))"
proof -
  have blanks: "runs (yaml_plain_blanks E y) (\<lambda>z. yaml_pln x0 z \<and> length (yaml_rest z) < length (yaml_rest x))"
    if "yaml_pln x0 y" "is_nwl (la E y)" "length (yaml_rest y) \<le> length (yaml_rest x)" for y
    by (rule runs_weaken [OF runs_yaml_plain_blanks]) (use that in \<open>auto intro: yaml_pln_keeps\<close>)
  have doc: "yaml_pln x0 z \<and> length (yaml_rest z) < length (yaml_rest x)"
    if "yaml_scn_drs_doc_end E y = (b, z)" "yaml_pln x0 y" "length (yaml_rest y) < length (yaml_rest x)" for b y z
    using yaml_scn_drs_doc_end_keeps [OF that(1)] that(2,3) by (auto intro: yaml_pln_keeps)
  have cnt: "runs (yaml_scn_pln_cnt E p x) (\<lambda>(r, y). yaml_pln x0 y \<and> length (yaml_rest y) \<le> length (yaml_rest x))"
    by (rule runs_yaml_scn_pln_cnt [where p = p, OF assms])
  show ?thesis
    unfolding yaml_plain_step_def
    using assms(2)
    by (auto simp del: length_tl split: flow.splits prod.splits if_splits dest: doc intro!: runs_weaken [OF cnt] runs_weaken [OF blanks])
qed

lemma runs_yaml_plain_first:
  assumes "yaml_pln x0 x"
  shows "runs (yaml_plain_first E L p x) (case_flow (yaml_pln x0) (\<lambda>(b, y). \<not> b \<and> yaml_pln x0 y))"
proof -
  have upd: "runs (yaml_upd_sch z) (yaml_pln x0)" if "yaml_pln x0 z" for z
    by (rule runs_weaken [OF runs_yaml_upd_sch [OF that]]) simp
  have frz: "yaml_pln x0 (z\<lparr>sc := (sc z)\<lparr>sch_stt := SCH_STT_FRZ\<rparr>\<rparr>)" if "yaml_pln x0 z" for z
    using that by (simp add: yaml_pln_def yaml_stk_def sch_ok_def)
  show ?thesis using assms by (simp add: yaml_plain_first_def Let_def upd frz)
qed

lemma runs_yaml_plain_lines:
  assumes "\<not> p 0" and "yaml_pln x0 x"
  shows "runs (c_loop (yaml_plain_step E ind p) x) (yaml_pln x0)"
proof (rule runs_c_loop [where m = "\<lambda>y. length (yaml_rest y)" and I = "yaml_pln x0"], goal_cases)
  case (2 y)
  show ?case by (rule runs_yaml_plain_step [where p = p, OF assms(1) 2])
qed (rule assms(2))

text \<open>The token of a plain scalar is neutral and stands for the string token that was asked for.\<close>

definition yaml_plain_tokens :: "yaml_token list list" where
  "yaml_plain_tokens =
     [[R_SGL_PLN_NUL_BLK, R_SGL_PLN_BOL_BLK, R_SGL_PLN_INT_BLK, R_SGL_PLN_FLT_BLK, R_SGL_PLN_STR_BLK],
      [BR_SGL_PLN_NUL_BLK, BR_SGL_PLN_BOL_BLK, BR_SGL_PLN_INT_BLK, BR_SGL_PLN_FLT_BLK, BR_SGL_PLN_STR_BLK],
      [B_SGL_PLN_NUL_BLK, B_SGL_PLN_BOL_BLK, B_SGL_PLN_INT_BLK, B_SGL_PLN_FLT_BLK, B_SGL_PLN_STR_BLK],
      [R_SGL_PLN_NUL_FLW, R_SGL_PLN_BOL_FLW, R_SGL_PLN_INT_FLW, R_SGL_PLN_FLT_FLW, R_SGL_PLN_STR_FLW],
      [BR_SGL_PLN_NUL_FLW, BR_SGL_PLN_BOL_FLW, BR_SGL_PLN_INT_FLW, BR_SGL_PLN_FLT_FLW, BR_SGL_PLN_STR_FLW]]"

lemma yaml_plain_tokens_ok:
  "list_all (\<lambda>ts. length ts = 5 \<and> list_all yaml_neutral ts \<and> (last ts, butlast ts) \<in> set yaml_instead) yaml_plain_tokens"
  by code_simp

lemma yaml_sgl_pln_report:
  assumes "ts \<in> set yaml_plain_tokens" and "v (last ts)"
  shows "yaml_neutral (yaml_sgl_pln_sym r ts)" "yaml_may_report v (yaml_sgl_pln_sym r ts)"
proof -
  have ts: "length ts = 5" "list_all yaml_neutral ts" "(last ts, butlast ts) \<in> set yaml_instead"
    using yaml_plain_tokens_ok assms(1) by (auto simp: list_all_iff)
  then have "yaml_sgl_pln_sym r ts \<in> set ts" by (cases r) (auto simp: yaml_sgl_pln_sym_def)
  moreover have "set ts = insert (last ts) (set (butlast ts))"
    using ts(1) by (cases ts rule: rev_cases) auto
  ultimately show "yaml_neutral (yaml_sgl_pln_sym r ts)" "yaml_may_report v (yaml_sgl_pln_sym r ts)"
    using ts(2,3) assms(2) by (auto simp: list_all_iff yaml_may_report_def)
qed

end

section \<open>The blocks of the scan\<close>

text \<open>The local variables describe the innermost block and one position of the token.\<close>

definition yaml_at :: "'l yaml_state \<Rightarrow> yaml_locals \<Rightarrow> bool" where
  "yaml_at x0 L \<longleftrightarrow> cur_ind L = last (ind_len_stk (sc x0)) \<and> cur_ind_typ L = last (ind_typ_stk (sc x0))
     \<and> (is_r L \<longrightarrow> \<not> is_br L \<and> \<not> is_b L) \<and> (is_br L \<longrightarrow> \<not> is_b L)"

lemma yaml_at_position: "yaml_stk x0 = yaml_stk (x\<lparr>sc := s\<rparr>) \<Longrightarrow> yaml_at x0 (yaml_position E s tab n y)"
  by (auto simp: yaml_at_def yaml_position_def Let_def yaml_stk_def)

context ts_lexer
begin

lemma yaml_post_if: "(b \<Longrightarrow> yaml_post v x0 r) \<Longrightarrow> (\<not> b \<Longrightarrow> yaml_post v x0 r') \<Longrightarrow> yaml_post v x0 (if b then r else r')"
  by simp

lemma runs_yaml_scan_plain:
  assumes "yaml_pln x0 x" and "yaml_at x0 L"
  shows "runs (yaml_scan_plain E v L x) (yaml_post v x0)"
proof -
  have same: "yaml_same (sc x0) (sc y)" if "yaml_pln x0 y" for y
    by (rule yaml_stk_same) (use that in \<open>simp add: yaml_pln_def\<close>)
  have sgl: "yaml_post v x0 (yaml_ret (yaml_sgl_pln_sym r ts) y)"
    if "ts \<in> set yaml_plain_tokens" "v (last ts)" "yaml_same (sc x0) (sc y)" for r ts y
    by (rule yaml_ret_post) (use that yaml_sgl_pln_report in auto)
  have mtl: "yaml_post v x0 (yaml_ret t y)"
    if "t \<in> {R_MTL_PLN_STR_BLK, BR_MTL_PLN_STR_BLK, R_MTL_PLN_STR_FLW, BR_MTL_PLN_STR_FLW}" "v t" "yaml_same (sc x0) (sc y)" for t y
    by (rule yaml_ret_post) (use that in \<open>auto simp: yaml_neutral_def yaml_may_report_def\<close>)
  have first: "runs (yaml_plain_first E L p x) (case_flow (yaml_pln x0) (\<lambda>(b, y). \<not> b \<and> yaml_pln x0 y))" for p
    by (rule runs_yaml_plain_first [OF assms(1)])
  have lines: "runs (c_loop (yaml_plain_step E ind p) (yaml_mrk_end E y)) (yaml_pln x0)"
    if "p = is_plain_safe_in_block \<or> p = is_plain_safe_in_flow" "yaml_pln x0 y" for ind p y
    by (rule runs_yaml_plain_lines) (use that in auto)
  have fail: "yaml_post v x0 r" if "case r of (b, y) \<Rightarrow> \<not> b \<and> yaml_pln x0 y" for r
    using that same by (cases r) simp
  have report: "yaml_post v x0 (yaml_plain_report v L y)" if "yaml_pln x0 y" for y
    unfolding yaml_plain_report_def Let_def
  proof (intro yaml_post_if, goal_cases)
    case 1
    then show ?case using same [OF that] assms(2)
      by (intro sgl) (simp_all add: yaml_plain_tokens_def maybe_sgl_pln_blk_def yaml_at_def, auto)
  next
    case 2
    then show ?case using same [OF that] assms(2)
      by (intro sgl) (simp_all add: yaml_plain_tokens_def maybe_sgl_pln_flw_def yaml_at_def, auto)
  next
    case 4
    then show ?case using same [OF that] assms(2)
      by (intro mtl) (simp_all add: maybe_mtl_pln_blk_def yaml_at_def, auto)
  next
    case 5
    then show ?case using same [OF that] assms(2)
      by (intro mtl) (simp_all add: maybe_mtl_pln_flw_def yaml_at_def, auto)
  qed (use same [OF that] in simp_all)
  have plain: "runs (then_return (yaml_plain_first E L p x)
      (\<lambda>x. do { x \<leftarrow> c_loop (yaml_plain_step E (cur_ind L) p) (yaml_mrk_end E x); Some (yaml_plain_report v L x) })) (yaml_post v x0)"
    if "p = is_plain_safe_in_block \<or> p = is_plain_safe_in_flow" for p
    unfolding runs_then_return runs_bind runs_Some
    by (rule runs_weaken [OF first])
      (auto simp: same report split: flow.splits intro!: runs_weaken [OF lines [OF that]])
  show ?thesis
    using same [OF assms(1)] assms(1)
    by (simp add: yaml_scan_plain_def plain yaml_post_def yaml_pln_def del: runs_then_return)
qed

lemma runs_yaml_blanks:
  assumes "yaml_wf (sc x0)" and "yaml_stk x = yaml_stk x0"
  shows "runs (c_loop (yaml_blank_step E v ind) (tab, n, x)) (case_flow (\<lambda>(tab, n, y). yaml_keeps x y) (yaml_post v x0))"
proof (rule runs_c_loop [where m = "\<lambda>(tab, n, y). length (yaml_rest y)" and I = "\<lambda>(tab, n, y). yaml_keeps x y"], goal_cases)
  case (2 s)
  obtain b k y where s: "s = (b, k, y)" by (cases s)
  with 2 have y: "yaml_keeps x y" by simp
  have less: "length (tl (yaml_rest y)) < length (yaml_rest y)" if "la E y = ch CHR '' '' \<or> la E y = ch CHR 0x09 \<or> is_nwl (la E y)"
    by (rule yaml_less) (use that in auto)
  have pop: "runs (yaml_pop_bl y) (yaml_post v x0)" if "v BL"
    by (rule runs_yaml_pop_bl_post) (use that assms y in \<open>auto simp: yaml_may_report_def\<close>)
  have comment: "runs (do { z \<leftarrow> yaml_adv_while E (\<lambda>c. \<not> is_nwl c \<and> c \<noteq> 0) (yaml_adv E y);
      Some (Return (Return (yaml_ret COMMENT (yaml_mrk_end E z)))) })
      (\<lambda>r. case r of Next s' \<Rightarrow> I s' | Return r \<Rightarrow> (case r of Next z \<Rightarrow> J z | Return r \<Rightarrow> yaml_post v x0 r))" for I J
    unfolding runs_bind by (rule wp_yaml_adv_while)
      (use assms y in \<open>auto intro!: yaml_ret_post yaml_stk_same simp: yaml_neutral_def yaml_may_report_def\<close>)
  show ?case
    unfolding s yaml_blank_step_def prod.case Let_def runs_if
    using less y comment by (auto simp del: length_tl runs_bind intro!: runs_weaken [OF pop])
qed simp

lemma runs_yaml_scan_eof:
  assumes "yaml_wf (sc x0)" and "yaml_stk x = yaml_stk x0"
  shows "runs (yaml_scan_eof E v x) (case_flow (\<lambda>y. y = x) (yaml_post v x0))"
proof -
  have pop: "runs (yaml_pop_bl (yaml_mrk_end E x)) (yaml_post v x0)" if "v BL"
    by (rule runs_yaml_pop_bl_post) (use that assms in \<open>auto simp: yaml_may_report_def\<close>)
  show ?thesis
    using assms(2) by (auto simp: yaml_scan_eof_def yaml_neutral_def yaml_may_report_def intro!: runs_weaken [OF pop] yaml_ret_post yaml_stk_same)
qed

lemma runs_yaml_scan_bl:
  assumes "yaml_wf (sc x0)" and "yaml_stk x = yaml_stk x0"
  shows "runs (yaml_scan_bl E v L x) (case_flow (\<lambda>y. y = x) (yaml_post v x0))"
proof -
  have pop: "runs (yaml_pop_bl x) (yaml_post v x0)" if "v BL"
    by (rule runs_yaml_pop_bl_post) (use that assms in \<open>auto simp: yaml_may_report_def\<close>)
  show ?thesis
    by (auto simp: yaml_scan_bl_def intro!: runs_weaken [OF pop])
qed

lemma runs_yaml_case:
  assumes "c \<Longrightarrow> runs (f x) (yaml_post v x0)"
  shows "runs (yaml_case c f x) (case_flow (\<lambda>y. y = x) (yaml_post v x0))"
  using assms by (auto simp: yaml_case_def elim!: runs_weaken)

lemma runs_yaml_try:
  assumes "c \<Longrightarrow> runs (f x) (yaml_tried v x0 x)"
  shows "runs (yaml_try c f x) (case_flow (yaml_keeps x) (yaml_post v x0))"
  using assms by (auto simp: yaml_try_def yaml_tried_def elim!: runs_weaken split: if_splits)

lemma runs_yaml_with:
  assumes "\<And>u. t = Some u \<Longrightarrow> runs (f u x) (yaml_post v x0)"
  shows "runs (yaml_with t f x) (case_flow (\<lambda>y. y = x) (yaml_post v x0))"
  using assms by (auto simp: yaml_with_def elim!: runs_weaken split: option.splits)

lemma yaml_pick_Some: "yaml_pick v ts = Some t \<Longrightarrow> \<exists>u p. (u, p, t) \<in> set ts \<and> v u \<and> p"
  by (induction v ts rule: yaml_pick.induct) (auto split: if_splits)

lemma runs_yaml_reads_post:
  assumes "runs c (yaml_reads T x)" and "yaml_same (sc x0) (sc x)" and "\<And>t. t \<in> T \<Longrightarrow> yaml_neutral t \<and> yaml_may_report v t"
  shows "runs c (yaml_post v x0)"
  using assms(1) by (rule runs_weaken) (rule yaml_reads_same_post [OF _ assms(2,3)])

lemma runs_fold_and_then:
  assumes "list_all (\<lambda>f. \<forall>s. I s \<longrightarrow> runs (f s) (case_flow I Q)) fs" and "runs c (case_flow I Q)"
  shows "runs (fold (\<lambda>f c. and_then c f) fs c) (case_flow I Q)"
  using assms
proof (induction fs arbitrary: c)
  case (Cons f fs)
  have "runs (and_then c f) (case_flow I Q)"
    by (rule runs_and_then_inv [OF Cons.prems(2)]) (use Cons.prems(1) in simp)
  with Cons.IH Cons.prems(1) show ?case by simp
qed simp

lemma runs_yaml_scan_continued:
  assumes "yaml_wf (sc x0)" and "yaml_stk x = yaml_stk x0"
  shows "runs (yaml_scan_continued E v L x) (case_flow (yaml_keeps x) (yaml_post v x0))"
proof -
  have same: "yaml_same (sc x0) (sc y)" if "yaml_keeps x y" for y
    by (rule yaml_stk_same) (use that assms in simp)
  have case_ok: "runs (yaml_case c F y) (case_flow (yaml_keeps x) (yaml_post v x0))"
    if "\<And>y. runs (F y) (yaml_reads {t} y)" "yaml_neutral t" "c \<Longrightarrow> v t" "yaml_keeps x y" for c F t y
  proof -
    have "runs (F y) (yaml_post v x0)" if c
      by (rule runs_yaml_reads_post [OF \<open>\<And>y. runs (F y) (yaml_reads {t} y)\<close> same])
        (use that \<open>yaml_neutral t\<close> \<open>c \<Longrightarrow> v t\<close> \<open>yaml_keeps x y\<close> in \<open>auto simp: yaml_may_report_def\<close>)
    from runs_yaml_case [where c = c and f = F and x = y, OF this] show ?thesis
      by (rule runs_weaken) (use \<open>yaml_keeps x y\<close> in \<open>auto split: flow.splits\<close>)
  qed
  have try_ok: "runs (yaml_try c F y) (case_flow (yaml_keeps x) (yaml_post v x0))"
    if "c \<Longrightarrow> runs (F y) (yaml_tried v x0 y)" "yaml_keeps x y" for c F y
    by (rule runs_weaken [OF runs_yaml_try [where c = c and f = F and x = y, OF that(1)]]) (use that(2) in \<open>auto split: flow.splits\<close>)
  have str: "runs (yaml_str_cnt E p t y) (yaml_tried v x0 y)" if "\<not> p 0" "v t" "yaml_neutral t" "yaml_keeps x y" for p t y
  proof -
    have "yaml_neutral u \<and> yaml_may_report v u" if "u \<in> {t, S_DRS_END, S_DOC_END}" for u
      using that \<open>v t\<close> \<open>yaml_neutral t\<close> by (auto simp: yaml_may_report_def yaml_neutral_def)
    with runs_yaml_str_cnt [where p = p, OF that(1), of t y] same [OF that(4)] show ?thesis
      by (elim runs_weaken) (fastforce simp: yaml_tried_def yaml_reads_def split: if_splits prod.splits intro: yaml_reads_same_post)
  qed
  note blk = runs_yaml_scn_blk_str_cnt [OF assms(1)]
  show ?thesis
    unfolding yaml_scan_continued_def
  proof (rule runs_fold_and_then, goal_cases)
    case 1
    note rules = case_ok [OF runs_yaml_directives(1)] case_ok [OF runs_yaml_directives(2)] case_ok [OF runs_yaml_scn_dir_tag_pfx]
      case_ok [OF runs_yaml_directives(3)] try_ok [OF blk] try_ok [OF str] case_ok [OF runs_yaml_anchors(2)] case_ok [OF runs_yaml_anchors(4)]
    show ?case
      unfolding list.pred_inject yaml_scn_dqt_str_cnt_def yaml_scn_sqt_str_cnt_def
      by (intro conjI allI impI list.pred_inject(1)) (rule rules; use assms(2) in \<open>simp add: yaml_neutral_def\<close>)+
  qed simp
qed

section \<open>The tokens by their first character\<close>

lemma runs_flow_keeps: "runs c (case_flow (\<lambda>y. y = x) Q) \<Longrightarrow> runs c (case_flow (yaml_keeps x) Q)"
  by (erule runs_weaken) (auto split: flow.splits)

lemma runs_yaml_with_reads:
  assumes "\<And>t y. runs (F t y) (yaml_reads {t} y)" and "yaml_same (sc x0) (sc x)"
    and "list_all (\<lambda>(u, p, t). yaml_neutral t \<and> (v u \<longrightarrow> yaml_may_report v t)) ts"
  shows "runs (yaml_with (yaml_pick v ts) (\<lambda>t x. F t (yaml_may_upd_imp_col L x)) x) (case_flow (yaml_keeps x) (yaml_post v x0))"
    and "runs (yaml_with (yaml_pick v ts) F x) (case_flow (yaml_keeps x) (yaml_post v x0))"
proof -
  have "runs (F t y) (yaml_post v x0)" if "yaml_pick v ts = Some t" "yaml_same (sc x0) (sc y)" for t y
  proof (rule runs_yaml_reads_post [OF assms(1) that(2)])
    fix u assume "u \<in> {t}"
    with yaml_pick_Some [OF that(1)] assms(3) show "yaml_neutral u \<and> yaml_may_report v u"
      by (auto simp: list_all_iff)
  qed
  with assms(2) show "runs (yaml_with (yaml_pick v ts) (\<lambda>t x. F t (yaml_may_upd_imp_col L x)) x) (case_flow (yaml_keeps x) (yaml_post v x0))"
    "runs (yaml_with (yaml_pick v ts) F x) (case_flow (yaml_keeps x) (yaml_post v x0))"
    by (auto intro!: runs_flow_keeps runs_yaml_with)
qed

lemma runs_yaml_single: "runs (yaml_single E t x) (yaml_reads {t} x)"
  by (simp add: yaml_single_def)

text \<open>A sequence of blocks that keep the state when they fall through.\<close>

lemma runs_and_then_keeps:
  assumes "runs c (case_flow (yaml_keeps x) Q)" and "\<And>y. yaml_keeps x y \<Longrightarrow> runs (f y) (case_flow (yaml_keeps y) Q)"
  shows "runs (and_then c f) (case_flow (yaml_keeps x) Q)"
  by (rule runs_and_then_inv [OF assms(1)]) (auto intro: runs_weaken [OF assms(2)] split: flow.splits)

lemma runs_yaml_scan_quote:
  assumes "yaml_stk x = yaml_stk x0"
  shows "runs (yaml_scan_quote E v L x) (case_flow (yaml_keeps x) (yaml_post v x0))"
  unfolding yaml_scan_quote_def
proof (rule runs_and_then_keeps, goal_cases)
  case 1
  show ?case
    by (rule runs_yaml_with_reads(1) [OF runs_yaml_single]) (use yaml_stk_same [OF assms] in \<open>simp_all add: yaml_neutral_def yaml_may_report_def\<close>)
next
  case (2 y)
  then have same: "yaml_same (sc x0) (sc (yaml_mrk_end E (yaml_adv E y)))" "yaml_same (sc x0) (sc (yaml_mrk_end E (yaml_adv E (yaml_adv E y))))"
    using assms by (auto intro: yaml_stk_same)
  show ?case
    using same by (auto simp: Let_def yaml_neutral_def yaml_may_report_def yaml_instead_def split: option.splits dest!: yaml_pick_Some intro!: yaml_ret_post)
qed

lemma yaml_push_bgn_post:
  assumes "yaml_stk x = yaml_stk x0" and "v t"
    and "(t, k) \<in> {R_BLK_SEQ_BGN, BR_BLK_SEQ_BGN} \<times> {IND_SEQ} \<union> {R_BLK_KEY_BGN, BR_BLK_KEY_BGN, R_BLK_VAL_BGN, BR_BLK_VAL_BGN} \<times> {IND_MAP}"
  shows "yaml_post v x0 (case yaml_push_bgn_ind L k x of Next x \<Rightarrow> yaml_ret t x | Return r \<Rightarrow> r)"
    and "yaml_post v x0 (case yaml_push_bgn_ind L k x of Next x \<Rightarrow> yaml_ret t (yaml_mrk_end E x) | Return r \<Rightarrow> r)"
  using yaml_push_post [OF assms(1), of v t k "bgn_col L"] yaml_stk_same [OF assms(1)] assms(2,3)
  by (auto simp: yaml_push_bgn_ind_def yaml_may_report_def)

lemma runs_yaml_scan_key:
  assumes "yaml_stk x = yaml_stk x0"
  shows "runs (yaml_scan_key E v L x) (case_flow (yaml_keeps x) (yaml_post v x0))"
proof -
  let ?y = "yaml_mrk_end E (yaml_adv E x)"
  have y: "yaml_stk ?y = yaml_stk x0" using assms by simp
  have push: "case_flow (yaml_keeps x) (yaml_post v x0)
      (case yaml_push_bgn_ind L IND_MAP ?y of Next x \<Rightarrow> Return (yaml_ret t x) | Return r \<Rightarrow> Return r)"
    if "v t" "t = R_BLK_KEY_BGN \<or> t = BR_BLK_KEY_BGN" for t
    using yaml_push_bgn_post(1) [OF y, of v t IND_MAP L] that by (auto split: flow.splits)
  have ret: "yaml_post v x0 (yaml_ret t ?y)" if "v t" "t = B_BLK_KEY_BGN \<or> t = R_FLW_KEY_BGN \<or> t = BR_FLW_KEY_BGN" for t
    by (rule yaml_ret_post) (use that yaml_stk_same [OF y] in \<open>auto simp: yaml_neutral_def yaml_may_report_def\<close>)
  have "v t \<and> t \<in> {R_BLK_KEY_BGN, BR_BLK_KEY_BGN, B_BLK_KEY_BGN, R_FLW_KEY_BGN, BR_FLW_KEY_BGN}"
    if "yaml_pick v [(R_BLK_KEY_BGN, is_r L, R_BLK_KEY_BGN), (BR_BLK_KEY_BGN, is_br L, BR_BLK_KEY_BGN),
         (B_BLK_KEY_BGN, is_b L, B_BLK_KEY_BGN), (R_FLW_KEY_BGN, is_r L, R_FLW_KEY_BGN),
         (BR_FLW_KEY_BGN, is_br L, BR_FLW_KEY_BGN)] = Some t" for t
    using yaml_pick_Some [OF that] by auto
  then show ?thesis
    unfolding yaml_scan_key_def Let_def
    by (split option.split) (use push ret in \<open>fastforce simp del: yaml_pick.simps\<close>)
qed

lemma yaml_value_blk_post:
  assumes "yaml_stk x = yaml_stk x0" and "yaml_at x0 L" and "v t"
    and "t \<in> {R_BLK_VAL_BGN, BR_BLK_VAL_BGN, B_BLK_VAL_BGN, R_BLK_IMP_BGN}"
  shows "yaml_post v x0 (yaml_value_blk E L t x)"
proof -
  consider "t = R_BLK_VAL_BGN \<or> t = BR_BLK_VAL_BGN" | "t = B_BLK_VAL_BGN" | "t = R_BLK_IMP_BGN" using assms(4) by blast
  then show ?thesis
  proof cases
    case 1
    with yaml_push_bgn_post(2) [OF assms(1), of v t IND_MAP L] assms(3) show ?thesis by (auto simp: yaml_value_blk_def)
  next
    case 2
    have "yaml_post v x0 (yaml_ret B_BLK_VAL_BGN (yaml_mrk_end E x))"
      by (rule yaml_ret_post) (use 2 assms in \<open>auto simp: yaml_neutral_def yaml_may_report_def intro: yaml_stk_same\<close>)
    with 2 show ?thesis by (simp add: yaml_value_blk_def)
  next
    case 3
    with assms show ?thesis
      by (auto simp: yaml_value_blk_def yaml_may_push_imp_ind_def yaml_at_def yaml_post_def yaml_ret_def yaml_flush_def yaml_push_ind_def
          yaml_mrk_end_def yaml_may_report_def yaml_effect_def yaml_stk_def yaml_pushes_def yaml_same_def)
  qed
qed

lemma yaml_sequence_blk_post:
  assumes "yaml_stk x = yaml_stk x0" and "yaml_at x0 L" and "v t"
    and "t \<in> {R_BLK_SEQ_BGN, BR_BLK_SEQ_BGN, B_BLK_SEQ_BGN}"
  shows "yaml_post v x0 (yaml_sequence_blk E L t x)"
proof (cases "t = B_BLK_SEQ_BGN")
  case True
  with assms show ?thesis
    by (auto simp: yaml_sequence_blk_def yaml_may_push_spc_seq_ind_def yaml_at_def yaml_post_def yaml_ret_def yaml_flush_def yaml_push_ind_def
        yaml_mrk_end_def yaml_may_report_def yaml_effect_def yaml_stk_def yaml_pushes_def yaml_same_def)
next
  case False
  with yaml_push_bgn_post(2) [OF assms(1), of v t IND_SEQ L] assms(3,4) show ?thesis by (auto simp: yaml_sequence_blk_def)
qed

lemma runs_yaml_with_ret:
  assumes "yaml_same (sc x0) (sc x)" and "list_all (\<lambda>(u, p, t). yaml_neutral t \<and> (v u \<longrightarrow> yaml_may_report v t)) ts"
  shows "runs (yaml_with (yaml_pick v ts) (\<lambda>t x. Some (yaml_ret t (yaml_mrk_end E x))) x) (case_flow (yaml_keeps x) (yaml_post v x0))"
  by (rule runs_yaml_with_reads(2)) (use assms in simp_all)

lemma runs_yaml_scan_value:
  assumes "yaml_stk x = yaml_stk x0" and "yaml_at x0 L"
  shows "runs (yaml_scan_value E v L x) (case_flow (yaml_keeps x) (yaml_post v x0))"
  unfolding yaml_scan_value_def
proof (rule runs_and_then_keeps, goal_cases)
  case 1
  show ?case
    by (rule runs_yaml_with_reads(2) [OF runs_yaml_single]) (use yaml_stk_same [OF assms(1)] in \<open>simp_all add: yaml_neutral_def yaml_may_report_def\<close>)
next
  case (2 y)
  let ?z = "yaml_adv E y"
  have z: "yaml_stk ?z = yaml_stk x0" using 2 assms(1) by simp
  let ?blk = "yaml_pick v [(R_BLK_VAL_BGN, is_r L, R_BLK_VAL_BGN), (BR_BLK_VAL_BGN, is_br L, BR_BLK_VAL_BGN),
                   (B_BLK_VAL_BGN, is_b L, B_BLK_VAL_BGN), (R_BLK_IMP_BGN, is_r L, R_BLK_IMP_BGN)]"
  have blk: "runs (yaml_with ?blk (\<lambda>t x. Some (yaml_value_blk E L t x)) ?z) (case_flow (yaml_keeps ?z) (yaml_post v x0))"
  proof (rule runs_flow_keeps, rule runs_yaml_with)
    fix t assume "?blk = Some t"
    from yaml_pick_Some [OF this] have "v t" "t \<in> {R_BLK_VAL_BGN, BR_BLK_VAL_BGN, B_BLK_VAL_BGN, R_BLK_IMP_BGN}" by auto
    from yaml_value_blk_post [where v = v, OF z assms(2) this] show "runs (Some (yaml_value_blk E L t ?z)) (yaml_post v x0)" by simp
  qed
  have njv: "runs (yaml_with (yaml_pick2 v L R_FLW_NJV_BGN BR_FLW_NJV_BGN) (\<lambda>t x. Some (yaml_ret t (yaml_mrk_end E x))) u)
      (case_flow (yaml_keeps u) (yaml_post v x0))" if "yaml_keeps ?z u" for u
    by (rule runs_yaml_with_ret) (use that z yaml_stk_same [of u x0] in \<open>simp_all add: yaml_neutral_def yaml_may_report_def\<close>)
  have "runs (and_then (if is_wht (la E ?z) then yaml_with ?blk (\<lambda>t x. Some (yaml_value_blk E L t x)) ?z else Some (Next ?z))
      (\<lambda>x. if is_wht (la E ?z) \<or> la E x = ch CHR '','' \<or> la E x = ch CHR '']'' \<or> la E x = ch CHR ''}''
           then yaml_with (yaml_pick2 v L R_FLW_NJV_BGN BR_FLW_NJV_BGN) (\<lambda>t x. Some (yaml_ret t (yaml_mrk_end E x))) x
           else Some (Next x))) (case_flow (yaml_keeps ?z) (yaml_post v x0))"
    by (rule runs_and_then_keeps) (use blk njv in \<open>simp_all del: yaml_pick.simps\<close>)
  then show ?case
    unfolding Let_def runs_if by (intro conjI impI) (simp_all del: yaml_pick.simps runs_and_then)
qed

lemma runs_yaml_marker:
  assumes "yaml_wf (sc x0)" and "yaml_stk x = yaml_stk x0" and "t = S_DRS_END \<or> t = S_DOC_END"
  shows "runs (yaml_marker E v t x) (case_flow (yaml_keeps x) (yaml_post v x0))"
proof -
  have pop: "runs (yaml_pop_bl x) (yaml_post v x0)" if "v BL"
    by (rule runs_yaml_pop_bl_post) (use that assms in \<open>auto simp: yaml_may_report_def\<close>)
  have ret: "yaml_post v x0 (yaml_ret t (yaml_mrk_end E x))"
    by (rule yaml_ret_post) (use assms in \<open>auto simp: yaml_neutral_def yaml_may_report_def intro: yaml_stk_same\<close>)
  show ?thesis by (simp add: yaml_marker_def pop ret)
qed

lemma runs_yaml_scan_dash:
  assumes "yaml_wf (sc x0)" and "yaml_stk x = yaml_stk x0" and "yaml_at x0 L"
  shows "runs (yaml_scan_dash E v L x) (case_flow (yaml_keeps x) (yaml_post v x0))"
proof -
  let ?y = "yaml_adv E x" and ?blk = "yaml_pick3 v L R_BLK_SEQ_BGN BR_BLK_SEQ_BGN B_BLK_SEQ_BGN"
  have y: "yaml_stk ?y = yaml_stk x0" using assms(2) by simp
  have "runs (yaml_with ?blk (\<lambda>t x. Some (yaml_sequence_blk E L t x)) ?y) (case_flow (yaml_keeps ?y) (yaml_post v x0))"
  proof (rule runs_flow_keeps, rule runs_yaml_with)
    fix t assume "?blk = Some t"
    from yaml_pick_Some [OF this] have "v t" "t \<in> {R_BLK_SEQ_BGN, BR_BLK_SEQ_BGN, B_BLK_SEQ_BGN}" by auto
    from yaml_sequence_blk_post [where v = v, OF y assms(3) this] show "runs (Some (yaml_sequence_blk E L t ?y)) (yaml_post v x0)" by simp
  qed
  moreover have "runs (yaml_marker E v S_DRS_END (yaml_adv E (yaml_adv E ?y))) (case_flow (yaml_keeps x) (yaml_post v x0))"
    by (rule runs_weaken [OF runs_yaml_marker [OF assms(1)]]) (use assms(2) in \<open>auto split: flow.splits\<close>)
  ultimately show ?thesis by (simp add: yaml_scan_dash_def Let_def del: yaml_pick.simps)
qed

lemma runs_yaml_scan_dot:
  assumes "yaml_wf (sc x0)" and "yaml_stk x = yaml_stk x0"
  shows "runs (yaml_scan_dot E v L x) (case_flow (yaml_keeps x) (yaml_post v x0))"
proof -
  obtain b y where w: "yaml_word E ''...'' x = (b, y)" by fastforce
  have y: "yaml_keeps x y" by (rule yaml_word_keeps [OF w])
  then have "runs (yaml_marker E v S_DOC_END y) (case_flow (yaml_keeps x) (yaml_post v x0))"
    by (intro runs_weaken [OF runs_yaml_marker [OF assms(1)]]) (use assms(2) in \<open>auto split: flow.splits\<close>)
  with y show ?thesis by (simp add: yaml_scan_dot_def w del: yaml_word.simps split: bool.splits)
qed

lemma runs_yaml_scan_escape:
  assumes "yaml_stk x = yaml_stk x0"
  shows "runs (yaml_scan_escape E v L x) (case_flow (yaml_keeps x) (yaml_post v x0))"
proof -
  let ?y = "yaml_adv E x" and ?esc = "yaml_pick2 v L R_DQT_ESC_SEQ BR_DQT_ESC_SEQ"
  have nwl: "runs (if is_nwl (la E ?y) then yaml_with (yaml_pick2 v L R_DQT_ESC_NWL BR_DQT_ESC_NWL) (\<lambda>t x. Some (yaml_ret t (yaml_mrk_end E x))) ?y
      else Some (Next ?y)) (case_flow (yaml_keeps ?y) (yaml_post v x0))"
    unfolding runs_if
    by (intro conjI impI runs_yaml_with_ret) (use assms yaml_stk_same [of ?y x0] in \<open>simp_all add: yaml_neutral_def yaml_may_report_def\<close>)
  have esc: "yaml_post v x0 (case ?esc of Some t \<Rightarrow> yaml_scn_dqt_esc_seq E t z | None \<Rightarrow> (False, z))" if "yaml_keeps ?y z" for z
  proof (cases ?esc)
    case (Some t)
    from yaml_pick_Some [OF this] have "v t" "yaml_neutral t" by (auto simp: yaml_neutral_def)
    then show ?thesis
      unfolding Some option.case
      by (intro yaml_reads_same_post [OF yaml_scn_dqt_esc_seq_reads]) (use that assms in \<open>auto simp: yaml_may_report_def intro: yaml_stk_same\<close>)
  qed (use that assms in \<open>auto intro: yaml_stk_same\<close>)
  have "runs (and_then (if is_nwl (la E ?y) then yaml_with (yaml_pick2 v L R_DQT_ESC_NWL BR_DQT_ESC_NWL) (\<lambda>t x. Some (yaml_ret t (yaml_mrk_end E x))) ?y
      else Some (Next ?y)) (\<lambda>x. Some (Return (case ?esc of Some t \<Rightarrow> yaml_scn_dqt_esc_seq E t x | None \<Rightarrow> (False, x)))))
      (case_flow (yaml_keeps ?y) (yaml_post v x0))"
    by (rule runs_and_then_keeps [OF nwl]) (simp add: esc del: yaml_pick.simps)
  then show ?thesis by (simp add: yaml_scan_escape_def Let_def del: yaml_pick.simps runs_and_then)
qed

lemma runs_yaml_scan_indicator:
  assumes "yaml_wf (sc x0)" and "yaml_stk x = yaml_stk x0" and "yaml_at x0 L"
  shows "runs (yaml_scan_indicator E v L x) (case_flow (yaml_keeps x) (yaml_post v x0))"
proof -
  have same: "yaml_same (sc x0) (sc x)" by (rule yaml_stk_same [OF assms(2)])
  have dir: "runs (yaml_case (v S_DIR_YML_BGN \<and> is_s L) (yaml_scn_dir_bgn E) x) (case_flow (yaml_keeps x) (yaml_post v x0))"
    by (rule runs_flow_keeps, rule runs_yaml_case, rule runs_yaml_reads_post [OF runs_yaml_scn_dir_bgn same])
      (auto simp: yaml_neutral_def yaml_may_report_def yaml_instead_def)
  have blk: "runs (yaml_with (yaml_pick2 v L r br) (yaml_scn_blk_str_bgn E) x) (case_flow (yaml_keeps x) (yaml_post v x0))"
    if "(r, br) \<in> {(R_BLK_LIT_BGN, BR_BLK_LIT_BGN), (R_BLK_FLD_BGN, BR_BLK_FLD_BGN)}" for r br
  proof (rule runs_flow_keeps, rule runs_yaml_with)
    fix t assume "yaml_pick2 v L r br = Some t"
    with that have "v t" "t \<in> {R_BLK_LIT_BGN, BR_BLK_LIT_BGN, R_BLK_FLD_BGN, BR_BLK_FLD_BGN}" by (auto split: if_splits)
    then show "runs (yaml_scn_blk_str_bgn E t x) (yaml_post v x0)" by (intro runs_yaml_scn_blk_str_bgn [OF assms(1,2)])
  qed
  note with_imp = runs_yaml_with_reads(1) [where L = L] and with_plain = runs_yaml_with_reads(2)
  have quotes: "runs (and_then
      (yaml_with (yaml_pick3 v L R_DQT_STR_BGN BR_DQT_STR_BGN B_DQT_STR_BGN) (\<lambda>t x. yaml_single E t (yaml_may_upd_imp_col L x)) x)
      (yaml_with (yaml_pick2 v L R_DQT_STR_END BR_DQT_STR_END) (yaml_single E))) (case_flow (yaml_keeps x) (yaml_post v x0))"
  proof (rule runs_and_then_keeps, goal_cases)
    case 1
    show ?case by (rule with_imp [OF runs_yaml_single same]) (simp add: yaml_neutral_def yaml_may_report_def)
  next
    case (2 y)
    show ?case
      by (rule with_plain [OF runs_yaml_single]) (use 2 assms(2) yaml_stk_same [of y x0] in \<open>simp_all add: yaml_neutral_def yaml_may_report_def\<close>)
  qed
  note rules = runs_yaml_scan_quote [OF assms(2)] runs_yaml_scan_key [OF assms(2)] runs_yaml_scan_value [OF assms(2,3)]
    runs_yaml_scan_dash [OF assms] runs_yaml_scan_dot [OF assms(1,2)] runs_yaml_scan_escape [OF assms(2)] dir quotes
  note reads = with_imp [OF runs_yaml_anchors(1) same] with_imp [OF runs_yaml_anchors(3) same] with_imp [OF runs_yaml_scn_tag same]
    with_imp [OF runs_yaml_single same] with_plain [OF runs_yaml_single same]
  show ?thesis
    unfolding yaml_scan_indicator_def Let_def
    by (intro runs_ifI; (rule rules | (rule blk, simp) | (rule reads, simp add: yaml_neutral_def yaml_may_report_def yaml_instead_def) | simp))
qed

lemma runs_yaml_scan:
  assumes "yaml_wf (sc x)"
  shows "runs (yaml_scan E v x) (yaml_post v x)"
proof -
  let ?s = "yaml_init (sc x)"
  let ?x = "yaml_mrk_end E (x\<lparr>sc := ?s\<rparr>)"
  have stk: "yaml_stk ?x = yaml_stk x" and sym: "yaml_sym ?x = yaml_sym x" and sch: "yaml_sch ?x = (0, RS_STR)"
    by (simp_all add: yaml_init_def yaml_stk_def yaml_sch_def yaml_mrk_end_def)
  have at: "yaml_at x (yaml_position E ?s tab n y)" for tab n y
    by (rule yaml_at_position [where x = x]) (simp add: yaml_stk_def yaml_init_def)
  have tail: "runs (then_return
      (and_then (and_then (and_then (yaml_scan_eof E v y) (yaml_scan_bl E v L)) (yaml_scan_continued E v L)) (yaml_scan_indicator E v L))
      (yaml_scan_plain E v L)) (yaml_post v x)"
    if y: "yaml_keeps ?x y" and L: "yaml_at x L" for y L
  proof -
    have st: "yaml_stk z = yaml_stk x" if "yaml_keeps y z" for z using that y stk by simp
    have "runs (and_then (and_then (and_then (yaml_scan_eof E v y) (yaml_scan_bl E v L)) (yaml_scan_continued E v L)) (yaml_scan_indicator E v L))
        (case_flow (yaml_keeps y) (yaml_post v x))"
      by (intro runs_and_then_keeps runs_flow_keeps [OF runs_yaml_scan_eof] runs_flow_keeps [OF runs_yaml_scan_bl]
          runs_yaml_scan_continued runs_yaml_scan_indicator assms L st) simp
    then show ?thesis
    proof (rule runs_then_return_inv)
      fix z assume "yaml_keeps y z"
      with y stk sym sch have "yaml_pln x z" by (simp add: yaml_pln_def yaml_sch_def sch_ok_def)
      from runs_yaml_scan_plain [OF this L] show "runs (yaml_scan_plain E v L z) (yaml_post v x)" .
    qed
  qed
  have ne: "ind_len_stk ?s \<noteq> []" "ind_typ_stk ?s \<noteq> []" using assms by (auto simp: yaml_init_def yaml_wf_def)
  have steps: "then_return (Some (Next s)) f = f s" "then_return (Some (Return r)) f = Some r" for s f and r :: "'l yaml_result"
    by (simp_all add: then_return_def)
  show ?thesis
    unfolding yaml_scan_def Let_def runs_bind
    using ne
  proof (simp only: simp_thms if_False runs_bind, intro runs_weaken [OF runs_yaml_blanks [OF assms stk]], goal_cases)
    case (1 r)
    show ?case
    proof (cases r)
      case (Next s)
      obtain tab n y where "s = (tab, n, y)" by (cases s)
      with Next 1 tail [OF _ at] show ?thesis by (simp only: steps prod.case flow.case)
    next
      case (Return r)
      with 1 show ?thesis by (simp only: steps flow.case runs_Some)
    qed
  qed
qed

end

section \<open>Properties\<close>

text \<open>C7.
  The scan of the YAML scanner returns on every input, keeps the two stacks of equal
  length with the document at their bottom, and changes them exactly as the token it
  reports says: the end of a block pops one entry and never the document, the start of a
  sequence, of a mapping with explicit key or value, or of a block scalar pushes an entry
  of its kind, the value of an implicit key pushes the column of the key unless the
  mapping is open already, and every other token leaves the stacks alone. The reported
  token is one that was asked for, or one of the few that come in their place. The one
  other answer is true without naming a token; it leaves the stacks alone too, and is not
  given when the parser is recovering from an error. A scan that reports nothing leaves the
  stacks as they were.
\<close>
theorem yaml_scan_stack:
  assumes "ts_lexer E rest" and "yaml_wf (sc x)"
  shows "\<exists>b x'. yaml_scan E v x = Some (b, x') \<and> yaml_wf (sc x') \<and>
     (if b then yaml_may_report v (yaml_sym x') \<and> yaml_effect (yaml_sym x') (sc x) (sc x')
          \<or> yaml_sym x' = yaml_sym x \<and> yaml_same (sc x) (sc x') \<and> \<not> v ERR_REC
      else yaml_same (sc x) (sc x'))"
proof -
  from ts_lexer.runs_yaml_scan [OF assms, of v] obtain b x' where scan: "yaml_scan E v x = Some (b, x')" and post: "yaml_post v x (b, x')"
    by (auto simp: runs_def)
  have wf: "yaml_wf s'" if "yaml_same (sc x) s'" for s'
    using that assms(2) by (simp add: yaml_wf_def yaml_same_def)
  have "yaml_wf (sc x')"
    using post yaml_effect_wf [OF assms(2)] wf by (auto simp: yaml_post_def split: if_splits)
  with scan post show ?thesis by (auto simp: yaml_post_def)
qed

definition yaml_start :: "string \<Rightarrow> list_lexer yaml_state" where
  "yaml_start w = \<lparr>sc = yaml_create, lx = lex_string ERR_REC w\<rparr>"

lemma yaml_wf_create: "yaml_wf (sc (yaml_start w))"
  by (simp add: yaml_start_def yaml_create_def yaml_reset_def yaml_wf_def)

theorem yaml_scan_stack_witness:
  "\<exists>x'. yaml_scan list_env (\<lambda>t. t = R_BLK_SEQ_BGN) (yaml_start ''- a'') = Some (True, x')
     \<and> yaml_sym x' = R_BLK_SEQ_BGN \<and> ind_typ_stk (sc x') = [IND_ROT, IND_SEQ] \<and> yaml_wf (sc x')"
proof -
  have "map_option (\<lambda>(b, x'). (b, yaml_sym x', ind_typ_stk (sc x'))) (yaml_scan list_env (\<lambda>t. t = R_BLK_SEQ_BGN) (yaml_start ''- a''))
      = Some (True, R_BLK_SEQ_BGN, [IND_ROT, IND_SEQ])"
    by code_simp
  with yaml_scan_stack [OF ts_lexer_list_env yaml_wf_create, of "\<lambda>t. t = R_BLK_SEQ_BGN" "''- a''"]
  show ?thesis by auto
qed

end
