(* ===== verification/Yaml_Scalars.thy ===== *)
theory Yaml_Scalars
  imports Yaml_Scan
begin

text \<open>
  What the YAML scanner reads of scalars: a plain scalar of one line gets the type of the
  core schema and ends behind its last character; the content of a quoted scalar that
  starts a line with the first characters of a document marker may run over the closing
  quote.
\<close>

section \<open>The type of a plain scalar\<close>

abbreviation is_solid_char :: "int \<Rightarrow> bool" where
  "is_solid_char c \<equiv> is_ns_char c \<and> c \<noteq> ch CHR '':'' \<and> c \<noteq> ch CHR ''#''"

lemma is_ns_char_not_blank: "is_ns_char c \<Longrightarrow> \<not> is_wsp c \<and> \<not> is_nwl c \<and> c \<noteq> 0 \<and> \<not> is_terminator c"
  by (auto simp: is_ns_char_def is_wsp_def is_nwl_def is_terminator_def)

lemma sint_Suc16: "sint (w :: int16) < 32767 \<Longrightarrow> sint (w + 1) = sint w + 1"
  using sint_greater_eq [of w]
  by (simp add: sint_word_ariths signed_take_bit_int_eq_self_iff)

text \<open>The column of the first character that is no blank, counted from column \<open>k\<close> and over any number of
  empty lines; none when only blanks are left.\<close>

fun text_column :: "nat \<Rightarrow> int list \<Rightarrow> nat option" where
  "text_column k [] = None"
| "text_column k (c # z) = (if is_nwl c then text_column 0 z else if is_wsp c then text_column (Suc k) z else Some k)"

text \<open>What ends a plain scalar here: the end of the input, the colon of a key, or a line break before a line that
  is not indented further than the block.\<close>

definition plain_stop :: "int16 \<Rightarrow> int list \<Rightarrow> bool" where
  "plain_stop ind z \<longleftrightarrow>
     (case z of [] \<Rightarrow> True
      | c # z' \<Rightarrow> c = ch CHR '':'' \<and> (z' = [] \<or> is_wht (hd z'))
          \<or> is_nwl c \<and> (case text_column 0 z' of None \<Rightarrow> True | Some k \<Rightarrow> int k \<le> sint ind))"

context ts_lexer_marks
begin

text \<open>The end of the token is the current position.\<close>

abbreviation marked :: "'a yaml_state \<Rightarrow> bool" where
  "marked x \<equiv> end_row (sc x) = cur_row (sc x) \<and> end_col (sc x) = cur_col (sc x) \<and> token_end (raw (lx x)) = pos (raw (lx x))"

lemma yaml_upd_sch_Some:
  assumes "sch_ok (sch_stt (sc x)) (rlt_sch (sc x))"
  obtains y where "yaml_upd_sch x = Some y" "lx y = lx x" "sc y = (sc x)\<lparr>sch_stt := sch_stt (sc y), rlt_sch := rlt_sch (sc y)\<rparr>"
    "sch_ok (sch_stt (sc y)) (rlt_sch (sc y))"
    "\<And>t. adv_sch_stts t (sch_stt (sc y)) (rlt_sch (sc y)) = adv_sch_stts (cur_chr (sc x) # t) (sch_stt (sc x)) (rlt_sch (sc x))"
  using assms adv_sch_stt_ok(1) [of "sch_stt (sc x)" "rlt_sch (sc x)" "cur_chr (sc x)"]
  by (auto simp: yaml_upd_sch_def split: option.splits)

lemma yaml_pln_chars:
  assumes "yaml_rest x = u @ t" and "list_all is_solid_char u" and "marked x" and "sch_ok (sch_stt (sc x)) (rlt_sch (sc x))"
  shows "\<exists>saf' y. c_loop (yaml_pln_step E is_plain_safe_in_block) (saf, x) = c_loop (yaml_pln_step E is_plain_safe_in_block) (saf', y)
     \<and> yaml_rest y = t \<and> marked y \<and> cur_row (sc y) = cur_row (sc x) \<and> cur_col (sc y) = cur_col (sc x) + of_nat (length u)
     \<and> pos (raw (lx y)) = pos (raw (lx x)) + length u \<and> yaml_stk y = yaml_stk x \<and> blk_imp_row (sc y) = blk_imp_row (sc x)
     \<and> sch_ok (sch_stt (sc y)) (rlt_sch (sc y))
     \<and> (\<forall>v. adv_sch_stts (u @ v) (sch_stt (sc x)) (rlt_sch (sc x)) = adv_sch_stts v (sch_stt (sc y)) (rlt_sch (sc y)))"
  using assms
proof (induction u arbitrary: x saf)
  case (Cons c u)
  let ?x = "yaml_mrk_end E (yaml_adv E x)"
  have c: "la E x = c" "is_ns_char c" "c \<noteq> ch CHR ''#''" "c \<noteq> ch CHR '':''" and cur: "cur_chr (sc ?x) = c"
    using Cons.prems(1,2) by (auto simp: yaml_adv_def yaml_mrk_end_def)
  have "sch_ok (sch_stt (sc ?x)) (rlt_sch (sc ?x))" using Cons.prems(4) by (simp add: yaml_adv_def yaml_mrk_end_def)
  then obtain y where y: "yaml_upd_sch ?x = Some y" "lx y = lx ?x" "sc y = (sc ?x)\<lparr>sch_stt := sch_stt (sc y), rlt_sch := rlt_sch (sc y)\<rparr>"
    "sch_ok (sch_stt (sc y)) (rlt_sch (sc y))"
    "\<And>t. adv_sch_stts t (sch_stt (sc y)) (rlt_sch (sc y)) = adv_sch_stts (cur_chr (sc ?x) # t) (sch_stt (sc ?x)) (rlt_sch (sc ?x))"
    using yaml_upd_sch_Some by blast
  have f: "cur_row (sc y) = cur_row (sc x)" "cur_col (sc y) = cur_col (sc x) + 1" "end_row (sc y) = cur_row (sc x)"
    "end_col (sc y) = cur_col (sc x) + 1" "ind_typ_stk (sc y) = ind_typ_stk (sc x)" "ind_len_stk (sc y) = ind_len_stk (sc x)"
    "blk_imp_row (sc y) = blk_imp_row (sc x)" "blk_imp_col (sc y) = blk_imp_col (sc x)" "blk_imp_tab (sc y) = blk_imp_tab (sc x)" "cur_chr (sc y) = c"
    using c(1) by (subst y(3), simp add: yaml_adv_def yaml_mrk_end_def)+
  have step: "yaml_pln_step E is_plain_safe_in_block (saf, x) = Some (Next (is_plain_safe_in_block c, y))"
    using c f(10) by (simp add: yaml_pln_step_def Let_def y(1) and_then_def is_plain_safe_in_block_def)
  have l: "yaml_rest y = u @ t" "marked y" "pos (raw (lx y)) = Suc (pos (raw (lx x)))"
    using Cons.prems(1) f(1-4) by (simp_all add: y(2) yaml_adv_def yaml_mrk_end_def)
  have sch: "adv_sch_stts (c # v) (sch_stt (sc x)) (rlt_sch (sc x)) = adv_sch_stts v (sch_stt (sc y)) (rlt_sch (sc y))" for v
    unfolding y(5) cur by (simp add: yaml_adv_def yaml_mrk_end_def)
  from Cons.IH [OF l(1) _ l(2) y(4), of "is_plain_safe_in_block c"] Cons.prems(2)
  obtain saf' z where z: "c_loop (yaml_pln_step E is_plain_safe_in_block) (is_plain_safe_in_block c, y) = c_loop (yaml_pln_step E is_plain_safe_in_block) (saf', z)"
     "yaml_rest z = t" "marked z" "cur_row (sc z) = cur_row (sc y)" "cur_col (sc z) = cur_col (sc y) + of_nat (length u)"
     "pos (raw (lx z)) = pos (raw (lx y)) + length u" "yaml_stk z = yaml_stk y" "blk_imp_row (sc z) = blk_imp_row (sc y)"
     "sch_ok (sch_stt (sc z)) (rlt_sch (sc z))"
     "\<forall>v. adv_sch_stts (u @ v) (sch_stt (sc y)) (rlt_sch (sc y)) = adv_sch_stts v (sch_stt (sc z)) (rlt_sch (sc z))"
    by auto
  show ?case
    unfolding c_loop_Next [where body = "yaml_pln_step E is_plain_safe_in_block", OF step]
    by (rule exI [of _ saf'], rule exI [of _ z])
      (use z f l in \<open>simp add: sch yaml_stk_def del: adv_sch_stts.simps\<close>)
qed auto

lemma yaml_pln_blanks:
  assumes "yaml_rest x = replicate n (ch CHR '' '') @ t" and "sch_ok (sch_stt (sc x)) (rlt_sch (sc x))"
  shows "\<exists>saf' y. c_loop (yaml_pln_step E is_plain_safe_in_block) (saf, x) = c_loop (yaml_pln_step E is_plain_safe_in_block) (saf', y)
     \<and> yaml_rest y = t \<and> end_row (sc y) = end_row (sc x) \<and> end_col (sc y) = end_col (sc x) \<and> token_end (raw (lx y)) = token_end (raw (lx x))
     \<and> yaml_stk y = yaml_stk x \<and> sch_ok (sch_stt (sc y)) (rlt_sch (sc y))
     \<and> adv_sch_stts (replicate n (ch CHR '' '')) (sch_stt (sc x)) (rlt_sch (sc x)) = Some (rlt_sch (sc y))"
  using assms
proof (induction n arbitrary: x saf)
  case (Suc n)
  let ?x = "yaml_adv E x" and ?c = "ch CHR '' ''"
  have c: "la E x = ?c" "\<not> is_ns_char ?c" "is_wsp ?c" and cur: "cur_chr (sc ?x) = ?c"
    using Suc.prems(1) by (auto simp: yaml_adv_def is_ns_char_def is_wsp_def)
  have "sch_ok (sch_stt (sc ?x)) (rlt_sch (sc ?x))" using Suc.prems(2) by (simp add: yaml_adv_def)
  then obtain y where y: "yaml_upd_sch ?x = Some y" "lx y = lx ?x" "sc y = (sc ?x)\<lparr>sch_stt := sch_stt (sc y), rlt_sch := rlt_sch (sc y)\<rparr>"
    "sch_ok (sch_stt (sc y)) (rlt_sch (sc y))"
    "\<And>t. adv_sch_stts t (sch_stt (sc y)) (rlt_sch (sc y)) = adv_sch_stts (cur_chr (sc ?x) # t) (sch_stt (sc ?x)) (rlt_sch (sc ?x))"
    using yaml_upd_sch_Some by blast
  have f: "end_row (sc y) = end_row (sc x)" "end_col (sc y) = end_col (sc x)" "cur_chr (sc y) = ?c" "yaml_stk y = yaml_stk x"
    using c(1) unfolding yaml_stk_def by (subst y(3), simp add: yaml_adv_def)+
  have step: "yaml_pln_step E is_plain_safe_in_block (saf, x) = Some (Next (is_plain_safe_in_block ?c, y))"
    using c f(3) by (simp add: yaml_pln_step_def Let_def y(1) and_then_def is_plain_safe_in_block_def)
  have l: "yaml_rest y = replicate n ?c @ t" "token_end (raw (lx y)) = token_end (raw (lx x))"
    using Suc.prems(1) by (simp_all add: y(2) yaml_adv_def)
  have sch: "adv_sch_stts (?c # v) (sch_stt (sc x)) (rlt_sch (sc x)) = adv_sch_stts v (sch_stt (sc y)) (rlt_sch (sc y))" for v
    unfolding y(5) cur by (simp add: yaml_adv_def)
  from Suc.IH [OF l(1) y(4), of "is_plain_safe_in_block ?c"] show ?case
    unfolding c_loop_Next [where body = "yaml_pln_step E is_plain_safe_in_block", OF step] f l replicate_Suc sch .
qed auto

lemma yaml_pln_stop:
  assumes "yaml_rest x = z" and "plain_stop ind z"
  shows "\<exists>y r. c_loop (yaml_pln_step E is_plain_safe_in_block) (saf, x) = Some (r, y)
     \<and> end_row (sc y) = end_row (sc x) \<and> end_col (sc y) = end_col (sc x) \<and> token_end (raw (lx y)) = token_end (raw (lx x))
     \<and> yaml_stk y = yaml_stk x \<and> yaml_sch y = yaml_sch x \<and> (r \<noteq> SCN_SUCC \<or> y = x \<and> (z = [] \<or> is_nwl (hd z)))"
proof (cases "z \<noteq> [] \<and> hd z = ch CHR '':''")
  case True
  then obtain z' where z: "z = ch CHR '':'' # z'" by (cases z) auto
  have c: "la E x = ch CHR '':''" using assms(1) z by simp
  have "la E (yaml_adv E x) = (case z' of [] \<Rightarrow> 0 | c # _ \<Rightarrow> c)" using assms(1) z lookahead_view [of "lx (yaml_adv E x)"] by simp
  with assms(2) z have "is_wht (la E (yaml_adv E x))" by (cases z') (auto simp: plain_stop_def is_nwl_def)
  then have ns: "\<not> is_plain_safe_in_block (la E (yaml_adv E x))"
    by (auto simp: is_wht_def is_plain_safe_in_block_def dest: is_ns_char_not_blank)
  have "yaml_pln_step E is_plain_safe_in_block (saf, x) = Some (Return (SCN_FAIL, yaml_adv E x))"
    using c ns by (simp add: yaml_pln_step_def Let_def and_then_def is_wsp_def yaml_adv_def)
  from c_loop_Return [where body = "yaml_pln_step E is_plain_safe_in_block", OF this] show ?thesis
    by (auto simp: yaml_adv_def yaml_stk_def yaml_sch_def)
next
  case False
  with assms(2) have z: "z = [] \<or> is_nwl (hd z)" by (auto simp: plain_stop_def split: list.splits)
  have "la E x = (case z of [] \<Rightarrow> 0 | c # _ \<Rightarrow> c)" using assms(1) lookahead_view [of "lx x"] by simp
  with z have "\<not> is_ns_char (la E x)" "\<not> is_wsp (la E x)" "la E x \<noteq> ch CHR ''#''" "la E x \<noteq> ch CHR '':''"
    by (auto simp: is_nwl_def is_ns_char_def is_wsp_def split: list.splits)
  then have "yaml_pln_step E is_plain_safe_in_block (saf, x) = Some (Return (SCN_SUCC, x))"
    by (simp add: yaml_pln_step_def Let_def and_then_def is_plain_safe_in_block_def)
  from c_loop_Return [where body = "yaml_pln_step E is_plain_safe_in_block", OF this] show ?thesis using z by auto
qed

text \<open>The rest of the line: characters, blanks, and what ends the scalar.\<close>

abbreviation line_read :: "int list \<Rightarrow> nat \<Rightarrow> 'a yaml_state \<Rightarrow> 'a yaml_state \<Rightarrow> bool" where
  "line_read u n x y \<equiv> end_row (sc y) = cur_row (sc x) \<and> end_col (sc y) = cur_col (sc x) + of_nat (length u)
     \<and> token_end (raw (lx y)) = pos (raw (lx x)) + length u \<and> yaml_stk y = yaml_stk x
     \<and> adv_sch_stts (u @ replicate n (ch CHR '' '')) (sch_stt (sc x)) (rlt_sch (sc x)) = Some (rlt_sch (sc y))"

lemma yaml_pln_line:
  assumes "yaml_rest x = u @ replicate n (ch CHR '' '') @ z" and "list_all is_solid_char u" and "plain_stop ind z"
    and "marked x" and "sch_ok (sch_stt (sc x)) (rlt_sch (sc x))"
  shows "\<exists>r y. yaml_scn_pln_cnt E is_plain_safe_in_block x = Some (r, y) \<and> line_read u n x y
     \<and> (r \<noteq> SCN_SUCC \<or> yaml_rest y = z \<and> (z = [] \<or> is_nwl (hd z)))"
proof (cases "is_plain_safe_in_block (la E x) \<or> is_wsp (la E x)")
  case True
  let ?body = "yaml_pln_step E is_plain_safe_in_block"
  obtain saf1 x1 where x1: "c_loop ?body (is_plain_safe_in_block (cur_chr (sc x)), x) = c_loop ?body (saf1, x1)"
      "yaml_rest x1 = replicate n (ch CHR '' '') @ z" "marked x1" "cur_row (sc x1) = cur_row (sc x)"
      "cur_col (sc x1) = cur_col (sc x) + of_nat (length u)" "pos (raw (lx x1)) = pos (raw (lx x)) + length u" "yaml_stk x1 = yaml_stk x"
      "sch_ok (sch_stt (sc x1)) (rlt_sch (sc x1))"
      "\<forall>v. adv_sch_stts (u @ v) (sch_stt (sc x)) (rlt_sch (sc x)) = adv_sch_stts v (sch_stt (sc x1)) (rlt_sch (sc x1))"
    using yaml_pln_chars [OF assms(1,2,4,5), of "is_plain_safe_in_block (cur_chr (sc x))"] by blast
  obtain saf2 x2 where x2: "c_loop ?body (saf1, x1) = c_loop ?body (saf2, x2)"
      "yaml_rest x2 = z" "end_row (sc x2) = end_row (sc x1)" "end_col (sc x2) = end_col (sc x1)"
      "token_end (raw (lx x2)) = token_end (raw (lx x1))" "yaml_stk x2 = yaml_stk x1"
      "adv_sch_stts (replicate n (ch CHR '' '')) (sch_stt (sc x1)) (rlt_sch (sc x1)) = Some (rlt_sch (sc x2))"
    using yaml_pln_blanks [OF x1(2,8), of saf1] by blast
  obtain r y where y: "c_loop ?body (saf2, x2) = Some (r, y)"
      "end_row (sc y) = end_row (sc x2)" "end_col (sc y) = end_col (sc x2)" "token_end (raw (lx y)) = token_end (raw (lx x2))"
      "yaml_stk y = yaml_stk x2" "yaml_sch y = yaml_sch x2" "r \<noteq> SCN_SUCC \<or> y = x2 \<and> (z = [] \<or> is_nwl (hd z))"
    using yaml_pln_stop [OF x2(2) assms(3), of saf2] by blast
  show ?thesis
    by (rule exI [of _ r], rule exI [of _ y])
      (use True x1 x2 y in \<open>auto simp: yaml_scn_pln_cnt_def yaml_sch_def\<close>)
next
  case False
  have la: "la E x = (case u @ replicate n (ch CHR '' '') @ z of [] \<Rightarrow> 0 | c # _ \<Rightarrow> c)"
    using assms(1) lookahead_view [of "lx x"] by simp
  have "u = []" using la False assms(2) by (cases u) (auto simp: is_plain_safe_in_block_def)
  moreover have "n = 0" using la False \<open>u = []\<close> by (cases n) (auto simp: is_wsp_def)
  ultimately show ?thesis using False assms(4) by (simp add: yaml_scn_pln_cnt_def)
qed

text \<open>Reading over blanks and line breaks moves the position and nothing else that the token depends on.\<close>

abbreviation blanks_read :: "'a yaml_state \<Rightarrow> 'a yaml_state \<Rightarrow> bool" where
  "blanks_read x y \<equiv> end_row (sc y) = end_row (sc x) \<and> end_col (sc y) = end_col (sc x)
     \<and> token_end (raw (lx y)) = token_end (raw (lx x)) \<and> yaml_stk y = yaml_stk x \<and> rlt_sch (sc y) = rlt_sch (sc x)"

lemma yaml_blanks_column:
  assumes "cur_col (sc x) = of_nat k"
  shows "\<exists>y. yaml_plain_blanks E x = Some y \<and> blanks_read x y
     \<and> (case text_column k (yaml_rest x) of None \<Rightarrow> la E y = 0 | Some j \<Rightarrow> cur_col (sc y) = of_nat j)"
  using assms
proof (induction "yaml_rest x" arbitrary: x k)
  case Nil
  then have "la E x = 0" using lookahead_view [of "lx x"] by simp
  with Nil(1) [symmetric] show ?case by (simp add: yaml_plain_blanks_def c_loop_Return is_nwl_def is_wsp_def)
next
  case (Cons c z)
  have la: "la E x = c" using Cons.hyps(2) by (metis lookahead_Cons)
  consider "is_nwl c" | "\<not> is_nwl c" "is_wsp c" | "\<not> is_nwl c" "\<not> is_wsp c" by blast
  then show ?case
  proof cases
    case 1
    have "yaml_plain_blanks E x = yaml_plain_blanks E (yaml_adv_nwl E x)"
      unfolding yaml_plain_blanks_def by (rule c_loop_Next) (use 1 la in simp)
    moreover have "yaml_rest (yaml_adv_nwl E x) = z" using Cons.hyps(2) [symmetric] by simp
    moreover have "cur_col (sc (yaml_adv_nwl E x)) = of_nat 0" by (simp add: yaml_adv_nwl_def)
    moreover have "blanks_read x (yaml_adv_nwl E x)" by (simp add: yaml_adv_nwl_def yaml_stk_def)
    ultimately show ?thesis using Cons.hyps(1) [of "yaml_adv_nwl E x" 0] 1 by (auto simp flip: Cons.hyps(2))
  next
    case 2
    have "yaml_plain_blanks E x = yaml_plain_blanks E (yaml_adv E x)"
      unfolding yaml_plain_blanks_def by (rule c_loop_Next) (use 2 la in simp)
    moreover have "yaml_rest (yaml_adv E x) = z" using Cons.hyps(2) [symmetric] by simp
    moreover have "cur_col (sc (yaml_adv E x)) = of_nat (Suc k)" using Cons.prems by (simp add: yaml_adv_def)
    moreover have "blanks_read x (yaml_adv E x)" by (simp add: yaml_adv_def yaml_stk_def)
    ultimately show ?thesis using Cons.hyps(1) [of "yaml_adv E x" "Suc k"] 2 by (auto simp flip: Cons.hyps(2))
  next
    case 3
    have "yaml_plain_blanks E x = Some x"
      unfolding yaml_plain_blanks_def by (rule c_loop_Return) (use 3 la in simp)
    with 3 Cons.prems show ?thesis by (simp flip: Cons.hyps(2))
  qed
qed

lemma sint_of_nat16: "int k \<le> sint (w :: int16) \<Longrightarrow> sint (of_nat k :: int16) = int k"
  using sint_less [of w] by (simp add: signed_of_nat signed_take_bit_int_eq_self_iff)

lemma yaml_plain_newline:
  assumes "yaml_rest x = z" and "plain_stop ind z" and "z \<noteq> []" and "is_nwl (hd z)"
  shows "\<exists>y. yaml_plain_blanks E x = Some y \<and> blanks_read x y \<and> (la E y = 0 \<or> sint (cur_col (sc y)) \<le> sint ind)"
proof -
  obtain c z' where z: "z = c # z'" "is_nwl c" using assms(3,4) by (cases z) auto
  have la: "la E x = c" using assms(1) z by simp
  have "yaml_plain_blanks E x = yaml_plain_blanks E (yaml_adv_nwl E x)"
    unfolding yaml_plain_blanks_def by (rule c_loop_Next) (use z la in simp)
  moreover have "yaml_rest (yaml_adv_nwl E x) = z'" using assms(1) z by simp
  moreover have "cur_col (sc (yaml_adv_nwl E x)) = of_nat 0" by (simp add: yaml_adv_nwl_def)
  moreover have "blanks_read x (yaml_adv_nwl E x)" by (simp add: yaml_adv_nwl_def yaml_stk_def)
  moreover have "case text_column 0 z' of None \<Rightarrow> True | Some k \<Rightarrow> int k \<le> sint ind"
    using assms(2) z by (auto simp: plain_stop_def is_nwl_def)
  ultimately show ?thesis
    using yaml_blanks_column [of "yaml_adv_nwl E x" 0] sint_of_nat16 [of _ ind] by (auto split: option.splits)
qed

lemma yaml_plain_line:
  assumes "yaml_rest x = u @ replicate n (ch CHR '' '') @ z" and "list_all is_solid_char u" and "plain_stop ind z"
    and "marked x" and "sch_ok (sch_stt (sc x)) (rlt_sch (sc x))"
  shows "\<exists>y. c_loop (yaml_plain_step E ind is_plain_safe_in_block) x = Some y \<and> line_read u n x y"
proof -
  let ?body = "yaml_plain_step E ind is_plain_safe_in_block"
  have nl: "line_read u n x y'" if "line_read u n x y" "blanks_read y y'" for y y'
    using that by simp
  obtain r y where y: "(if \<not> is_nwl (la E x) then yaml_scn_pln_cnt E is_plain_safe_in_block x else Some (SCN_SUCC, x)) = Some (r, y)"
      "line_read u n x y" "r \<noteq> SCN_SUCC \<or> yaml_rest y = z \<and> (z = [] \<or> is_nwl (hd z))"
  proof (cases "is_nwl (la E x)")
    case True
    have la: "la E x = (case u @ replicate n (ch CHR '' '') @ z of [] \<Rightarrow> 0 | c # _ \<Rightarrow> c)"
      using assms(1) lookahead_view [of "lx x"] by simp
    have "u = []" using la True assms(2) by (cases u) (auto dest: is_ns_char_not_blank)
    moreover have "n = 0" using la True \<open>u = []\<close> by (cases n) (auto simp: is_nwl_def)
    ultimately show ?thesis using that [of SCN_SUCC x] True assms la by (cases z) auto
  next
    case False
    with yaml_pln_line [OF assms] that show ?thesis by auto
  qed
  have "\<exists>y. ?body x = Some (Return y) \<and> line_read u n x y"
  proof (cases "r = SCN_SUCC \<and> z \<noteq> []")
    case True
    then have z: "yaml_rest y = z" "z \<noteq> []" "is_nwl (hd z)" using y(3) by auto
    then have la: "is_nwl (la E y)" "la E y \<noteq> 0" by (cases z; auto simp: is_nwl_def)+
    obtain y' where y': "yaml_plain_blanks E y = Some y'" "blanks_read y y'" "la E y' = 0 \<or> sint (cur_col (sc y')) \<le> sint ind"
      using yaml_plain_newline [OF z(1) assms(3) z(2,3)] by auto
    show ?thesis
      using y(1) True la y'(1,3) nl [OF y(2) y'(2)]
      by (intro exI [of _ y']) (auto simp: yaml_plain_step_def and_then_def split: if_splits)
  next
    case False
    then have "r \<noteq> SCN_SUCC \<or> la E y = 0" using y(3) lookahead_view [of "lx y"] by auto
    with y(1,2) show ?thesis
      by (intro exI [of _ y]) (auto simp: yaml_plain_step_def and_then_def split: if_splits)
  qed
  then show ?thesis using c_loop_Return [where body = ?body] by blast
qed

lemma yaml_plain_start:
  assumes "yaml_rest x = c # t" and "is_solid_char c" and "\<not> is_c_indicator c \<or> c = ch CHR ''-'' \<and> t \<noteq> [] \<and> is_ns_char (hd t)"
    and "cur_col (sc x) = bgn_col L" and "bgn_chr L = c" and "sint (bgn_col L) < 32767" and "sch_stt (sc x) = 0" and "rlt_sch (sc x) = RS_STR"
  shows "\<exists>y. yaml_plain_first E L is_plain_safe_in_block x = Some (Next y) \<and> lx y = advance E (lx x)
     \<and> cur_row (sc y) = cur_row (sc x) \<and> cur_col (sc y) = cur_col (sc x) + 1 \<and> yaml_stk y = yaml_stk x
     \<and> sch_ok (sch_stt (sc y)) (rlt_sch (sc y))
     \<and> (\<forall>v. adv_sch_stts (c # v) 0 RS_STR = adv_sch_stts v (sch_stt (sc y)) (rlt_sch (sc y)))"
proof -
  let ?x = "yaml_adv E x"
  have "sch_ok (sch_stt (sc ?x)) (rlt_sch (sc ?x))" using assms(7,8) by (simp add: yaml_adv_def sch_ok_def)
  then obtain y where y: "yaml_upd_sch ?x = Some y" "lx y = lx ?x" "sc y = (sc ?x)\<lparr>sch_stt := sch_stt (sc y), rlt_sch := rlt_sch (sc y)\<rparr>"
    "sch_ok (sch_stt (sc y)) (rlt_sch (sc y))"
    "\<And>t. adv_sch_stts t (sch_stt (sc y)) (rlt_sch (sc y)) = adv_sch_stts (cur_chr (sc ?x) # t) (sch_stt (sc ?x)) (rlt_sch (sc ?x))"
    using yaml_upd_sch_Some by blast
  have f: "cur_row (sc y) = cur_row (sc x)" "cur_col (sc y) = cur_col (sc x) + 1" "yaml_stk y = yaml_stk x" "lx y = advance E (lx x)"
    unfolding yaml_stk_def y(2) by (subst y(3), simp add: yaml_adv_def)+ (simp add: yaml_adv_def)
  have sch: "adv_sch_stts (c # v) 0 RS_STR = adv_sch_stts v (sch_stt (sc y)) (rlt_sch (sc y))" for v
    unfolding y(5) using assms(1,7,8) by (simp add: yaml_adv_def)
  have "la E ?x = (case t of [] \<Rightarrow> 0 | d # _ \<Rightarrow> d)" using assms(1) lookahead_view [of "lx ?x"] by simp
  with assms(2,3) have first: "is_ns_char c \<and> \<not> is_c_indicator c \<or> c = ch CHR ''-'' \<and> is_plain_safe_in_block (la E ?x)"
    by (cases t) (auto simp: is_plain_safe_in_block_def)
  have "sint (cur_col (sc ?x)) - sint (bgn_col L) = 1"
    using sint_Suc16 [OF assms(6)] assms(4) by (simp add: yaml_adv_def)
  with first have "yaml_plain_first E L is_plain_safe_in_block x = Some (Next y)"
    using assms(4,5) y(1) by (auto simp: yaml_plain_first_def Let_def)
  with f sch y(4) show ?thesis by (intro exI [of _ y]) (simp del: adv_sch_stts.simps)
qed

lemma yaml_scan_only_plain:
  assumes "yaml_wf (sc x)" and "la E x = c" and "is_solid_char c" and "col (sc x) \<noteq> 0"
  defines "x1 \<equiv> yaml_mrk_end E (x\<lparr>sc := yaml_init (sc x)\<rparr>)"
  shows "yaml_scan E (\<lambda>t. t = R_SGL_PLN_STR_BLK) x
     = yaml_scan_plain E (\<lambda>t. t = R_SGL_PLN_STR_BLK) (yaml_position E (yaml_init (sc x)) False 0 x1) x1"
proof -
  let ?v = "\<lambda>t :: yaml_token. t = R_SGL_PLN_STR_BLK" and ?L = "yaml_position E (yaml_init (sc x)) False 0 x1"
  have ne: "ind_len_stk (yaml_init (sc x)) \<noteq> []" "ind_typ_stk (yaml_init (sc x)) \<noteq> []"
    using assms(1) by (auto simp: yaml_init_def yaml_wf_def)
  have la: "la E x1 = c" using assms(2) by (simp add: x1_def)
  have "\<not> is_s ?L" using assms(4) by (simp add: yaml_position_def Let_def x1_def yaml_mrk_end_def yaml_init_def)
  have "yaml_blank_step E ?v ind (False, 0, x1) = Some (Return (Next (False, 0, x1)))" for ind
    using la assms(3) by (auto simp: yaml_blank_step_def Let_def is_ns_char_def is_nwl_def)
  then have blanks: "c_loop (yaml_blank_step E ?v ind) (False, 0, x1) = Some (Next (False, 0, x1))" for ind
    by (rule c_loop_Return)
  have "yaml_scan_eof E ?v x1 = Some (Next x1)" using la assms(3) is_ns_char_not_blank [of c] by (simp add: yaml_scan_eof_def)
  moreover have "yaml_scan_bl E ?v ?L x1 = Some (Next x1)" by (simp add: yaml_scan_bl_def)
  moreover have "yaml_scan_continued E ?v ?L x1 = Some (Next x1)"
    by (simp add: yaml_scan_continued_def yaml_case_def yaml_try_def and_then_def)
  moreover have "yaml_scan_indicator E ?v ?L x1 = Some (Next x1)"
    using \<open>\<not> is_s ?L\<close>
    by (simp add: yaml_scan_indicator_def Let_def yaml_case_def yaml_with_def and_then_def yaml_scan_quote_def yaml_scan_key_def
        yaml_scan_value_def yaml_scan_dash_def yaml_scan_dot_def yaml_scan_escape_def)
  ultimately show ?thesis
    using ne blanks by (simp add: yaml_scan_def Let_def then_return_def and_then_def flip: x1_def)
qed

lemma yaml_plain_scalar:
  assumes "yaml_wf (sc x)" and "yaml_rest x = (c # u) @ replicate n (ch CHR '' '') @ z" and "list_all is_solid_char (c # u)"
    and "\<not> is_c_indicator c \<or> c = ch CHR ''-'' \<and> u \<noteq> []" and "plain_stop (last (ind_len_stk (sc x))) z"
    and "0 < sint (col (sc x))" and "sint (col (sc x)) < 32767"
  shows "\<exists>x'. yaml_scan E (\<lambda>t. t = R_SGL_PLN_STR_BLK) x = Some (True, x') \<and>
     yaml_sym x' = yaml_sgl_pln_sym (yaml_core (c # u))
       [R_SGL_PLN_NUL_BLK, R_SGL_PLN_BOL_BLK, R_SGL_PLN_INT_BLK, R_SGL_PLN_FLT_BLK, R_SGL_PLN_STR_BLK] \<and>
     token_end (raw (lx x')) = pos (raw (lx x)) + length (c # u) \<and>
     row (sc x') = row (sc x) \<and> col (sc x') = col (sc x) + of_nat (length (c # u))"
proof -
  let ?v = "\<lambda>t :: yaml_token. t = R_SGL_PLN_STR_BLK"
  define x1 where "x1 = yaml_mrk_end E (x\<lparr>sc := yaml_init (sc x)\<rparr>)"
  define L where "L = yaml_position E (yaml_init (sc x)) False 0 x1"
  have x1: "yaml_rest x1 = c # u @ replicate n (ch CHR '' '') @ z" "cur_row (sc x1) = row (sc x)" "cur_col (sc x1) = col (sc x)"
    "sch_stt (sc x1) = 0" "rlt_sch (sc x1) = RS_STR" "pos (raw (lx x1)) = pos (raw (lx x))" "row (sc x1) = row (sc x)"
    using assms(2) by (simp_all add: x1_def yaml_init_def yaml_mrk_end_def)
  then have L: "is_r L" "\<not> is_br L" "\<not> is_b L" "bgn_row L = row (sc x)" "bgn_col L = col (sc x)" "bgn_chr L = c" "cur_ind L = last (ind_len_stk (sc x))"
    by (simp_all add: L_def yaml_position_def Let_def yaml_init_def)
  have scan: "yaml_scan E ?v x = yaml_scan_plain E ?v L x1"
    unfolding L_def x1_def by (rule yaml_scan_only_plain [where c = c]) (use assms in \<open>auto\<close>)
  obtain y where y: "yaml_plain_first E L is_plain_safe_in_block x1 = Some (Next y)" "lx y = advance E (lx x1)"
     "cur_row (sc y) = row (sc x)" "cur_col (sc y) = col (sc x) + 1" "sch_ok (sch_stt (sc y)) (rlt_sch (sc y))"
     "\<And>v. adv_sch_stts (c # v) 0 RS_STR = adv_sch_stts v (sch_stt (sc y)) (rlt_sch (sc y))"
    using yaml_plain_start [OF x1(1), of L] x1 L assms(3,4,7) by (cases u) auto
  let ?y = "yaml_mrk_end E y"
  have "yaml_rest ?y = u @ replicate n (ch CHR '' '') @ z" "marked ?y" "sch_ok (sch_stt (sc ?y)) (rlt_sch (sc ?y))"
    using x1(1) y(2,5) by (simp_all add: yaml_mrk_end_def)
  with yaml_plain_line [of ?y u n z "cur_ind L"] assms(3,5) L(7)
  obtain q where q: "c_loop (yaml_plain_step E (cur_ind L) is_plain_safe_in_block) ?y = Some q" "line_read u n ?y q" by auto
  have pos: "pos (raw (lx ?y)) = Suc (pos (raw (lx x)))" using x1(1,6) y(2) by (simp add: yaml_mrk_end_def)
  have rlt: "rlt_sch (sc q) = yaml_core (c # u)"
  proof -
    have "solid (c # u)" using assms(3) by (auto simp: list_all_iff dest: is_ns_char_not_blank)
    then have tw: "takeWhile (\<lambda>c. \<not> is_terminator c) ((c # u) @ replicate n (ch CHR '' '')) = c # u"
      "dropWhile (\<lambda>c. \<not> is_terminator c) ((c # u) @ replicate n (ch CHR '' '')) = replicate n (ch CHR '' '')"
      by (auto simp: takeWhile_append dropWhile_append list_all_iff is_terminator_def takeWhile_replicate dropWhile_replicate)
    have "yaml_schema ((c # u) @ replicate n (ch CHR '' '')) = Some (yaml_core (c # u))"
      unfolding yaml_schema_trailing tw by (simp add: list_all_iff is_terminator_def)
    moreover have "yaml_schema ((c # u) @ replicate n (ch CHR '' '')) = Some (rlt_sch (sc q))"
      unfolding yaml_schema_def append_Cons y(6) using q(2) by (simp add: yaml_mrk_end_def)
    ultimately show ?thesis by simp
  qed
  have maybe: "maybe_sgl_pln_blk ?v L" "\<not> maybe_sgl_pln_flw ?v L" using L(1-3) by (simp_all add: maybe_sgl_pln_blk_def maybe_sgl_pln_flw_def)
  have "end_row (sc q) = bgn_row L" using q(2) y(3) L(4) by (simp add: yaml_mrk_end_def)
  with maybe L(1) rlt q(1) y(1) have "yaml_scan E ?v x = Some (yaml_ret (yaml_sgl_pln_sym (yaml_core (c # u))
      [R_SGL_PLN_NUL_BLK, R_SGL_PLN_BOL_BLK, R_SGL_PLN_INT_BLK, R_SGL_PLN_FLT_BLK, R_SGL_PLN_STR_BLK]) (yaml_may_upd_imp_col L q))"
    unfolding scan by (simp add: yaml_scan_plain_def then_return_def yaml_plain_report_def Let_def)
  then show ?thesis
    using q(2) pos y(3,4) by (auto simp: yaml_ret_def yaml_flush_def yaml_may_upd_imp_col_def yaml_mrk_end_def)
qed

lemma yaml_adv_while_Some:
  assumes "\<not> p 0"
  shows "\<exists>y. yaml_adv_while E p x = Some y \<and> yaml_rest y = dropWhile p (yaml_rest x)
     \<and> pos (raw (lx y)) = pos (raw (lx x)) + length (takeWhile p (yaml_rest x)) \<and> yaml_sym y = yaml_sym x"
proof (induction "yaml_rest x" arbitrary: x)
  case Nil
  then have "\<not> p (la E x)" using assms lookahead_view [of "lx x"] by simp
  with Nil show ?case by (simp add: yaml_adv_while_def while_option_unfold)
next
  case (Cons c cs)
  have la: "la E x = c" using Cons.hyps(2) by (metis lookahead_Cons)
  show ?case
  proof (cases "p c")
    case True
    have "yaml_rest (yaml_adv E x) = cs" using Cons.hyps(2) by simp (metis list.sel(3))
    moreover have "pos (raw (lx (yaml_adv E x))) = Suc (pos (raw (lx x)))"
      unfolding yaml_adv_def by (simp, rule pos_ops(1)) (simp flip: Cons.hyps(2))
    moreover have "yaml_adv_while E p x = yaml_adv_while E p (yaml_adv E x)"
      using True la by (simp add: yaml_adv_while_def while_option_unfold [of _ _ x])
    ultimately show ?thesis using Cons.hyps(1) [of "yaml_adv E x"] True by (auto simp flip: Cons.hyps(2))
  next
    case False
    then show ?thesis using la by (simp add: yaml_adv_while_def while_option_unfold flip: Cons.hyps(2))
  qed
qed

lemma yaml_str_swallows:
  assumes "yaml_rest x = d # q # t" and "d = ch CHR ''-'' \<or> d = ch CHR ''.''" and "q \<noteq> d" and "cur_col (sc x) = 0"
    and "p d" and "\<not> p 0"
  shows "\<exists>x'. yaml_str_cnt E p T x = Some (True, x') \<and> yaml_sym x' = T
     \<and> token_end (raw (lx x')) = pos (raw (lx x)) + 2 + length (takeWhile p t)"
proof -
  let ?x1 = "yaml_mrk_end E (yaml_adv E x)"
  have doc: "yaml_scn_drs_doc_end E x = (False, ?x1)"
    using assms(1-3) by (auto simp: yaml_scn_drs_doc_end_def Let_def lookahead_view [of "lx (yaml_adv E x)"] lookahead_view [of "lx x"])
  have rest: "yaml_rest (yaml_adv E ?x1) = t" "pos (raw (lx (yaml_adv E ?x1))) = pos (raw (lx x)) + 2"
    using assms(1) by (simp_all add: yaml_adv_def yaml_mrk_end_def)
  obtain y where "yaml_adv_while E p (yaml_adv E ?x1) = Some y" "pos (raw (lx y)) = pos (raw (lx x)) + 2 + length (takeWhile p t)"
    using yaml_adv_while_Some [where p = p and x = "yaml_adv E ?x1"] assms(6) rest by auto
  moreover have "la E x = d" using assms(1) by simp
  ultimately show ?thesis
    using assms(4,5) doc by (simp add: yaml_str_cnt_def yaml_ret_def yaml_mrk_end_def)
qed

end

section \<open>Properties\<close>

text \<open>C8.
  A plain scalar on one line gets the type the core schema gives its characters, and the
  token is exactly the scalar: blanks behind it are read but left out. This is for a scan
  that is asked for a plain scalar in a block and for nothing else, in the middle of a line
  (a column between 1 and 32766); for a scalar without colon and number sign that starts
  with a character that is no indicator, or with a hyphen in front of another character;
  and for a scalar that ends, after any number of spaces, at the end of the input, at the
  colon of a key (one before a blank, a line break or the end), or at a line break after
  which, over any number of empty lines, comes the end of the input or a line that is not
  indented further than the innermost block.
\<close>
theorem yaml_plain_scalar_type:
  assumes "ts_lexer_marks E rest pos token_end" and "yaml_wf (sc x)"
    and "rest (raw (lx x)) = (c # u) @ replicate n (ch CHR '' '') @ z"
    and "list_all (\<lambda>c. is_ns_char c \<and> c \<noteq> ch CHR '':'' \<and> c \<noteq> ch CHR ''#'') (c # u)"
    and "\<not> is_c_indicator c \<or> c = ch CHR ''-'' \<and> u \<noteq> []" and "plain_stop (last (ind_len_stk (sc x))) z"
    and "0 < sint (col (sc x))" and "sint (col (sc x)) < 32767"
  shows "\<exists>x'. yaml_scan E (\<lambda>t. t = R_SGL_PLN_STR_BLK) x = Some (True, x') \<and>
     yaml_sym x' = yaml_sgl_pln_sym (yaml_core (c # u))
       [R_SGL_PLN_NUL_BLK, R_SGL_PLN_BOL_BLK, R_SGL_PLN_INT_BLK, R_SGL_PLN_FLT_BLK, R_SGL_PLN_STR_BLK] \<and>
     token_end (raw (lx x')) = pos (raw (lx x)) + length (c # u) \<and>
     row (sc x') = row (sc x) \<and> col (sc x') = col (sc x) + of_nat (length (c # u))"
  by (rule ts_lexer_marks.yaml_plain_scalar [OF assms])

theorem yaml_plain_scalar_type_witness:
  "\<exists>x'. yaml_scan list_env (\<lambda>t. t = R_SGL_PLN_STR_BLK) \<lparr>sc = yaml_create\<lparr>col := 5\<rparr>, lx = lex_string ERR_REC ''-12 : b''\<rparr> = Some (True, x')
     \<and> yaml_sym x' = R_SGL_PLN_INT_BLK \<and> ll_end (raw (lx x')) = 3 \<and> col (sc x') = 8"
proof -
  have "yaml_wf (sc \<lparr>sc = yaml_create\<lparr>col := 5\<rparr>, lx = lex_string ERR_REC ''-12 : b''\<rparr>)"
    by (simp add: yaml_create_def yaml_reset_def yaml_wf_def)
  note ex = yaml_plain_scalar_type [OF list_lexer.ts_lexer_marks_axioms this, of "ch CHR ''-''" "map ch ''12''" 1 "map ch '': b''"]
  have core: "yaml_core (ch CHR ''-'' # map ch ''12'') = RS_INT"
    using yaml_schema_trailing [of "map ch ''-12''"] by (simp add: yaml_schema_def machine)
  show ?thesis
    using ex unfolding core
    by (simp add: lex_string_def is_ns_char_def plain_stop_def is_wht_def is_wsp_def yaml_create_def yaml_reset_def yaml_sgl_pln_sym_def)
      (auto simp: numeral_3_eq_3)
qed

text \<open>C38.
  The content of a double-quoted scalar runs over the closing quote when a line of it
  starts with a single hyphen or dot that is followed by the quote: the test for a document
  marker reads the first character, finds none, and the content goes on by reading one
  more character without looking at it. The token then ends behind the quote, at the next
  character that cannot be in a double-quoted scalar.
\<close>
theorem yaml_dqt_swallows_quote:
  assumes "ts_lexer_marks E rest pos token_end"
    and "rest (raw (lx x)) = d # ch CHR 0x22 # t" and "d = ch CHR ''-'' \<or> d = ch CHR ''.''" and "cur_col (sc x) = 0"
  shows "\<exists>x'. yaml_scn_dqt_str_cnt E T x = Some (True, x') \<and> yaml_sym x' = T
     \<and> token_end (raw (lx x')) = pos (raw (lx x)) + 2 + length (takeWhile is_nb_double_char t)"
  unfolding yaml_scn_dqt_str_cnt_def
  by (rule ts_lexer_marks.yaml_str_swallows [OF assms(1,2,3) _ assms(4)])
    (use assms(3) in \<open>auto simp: is_nb_double_char_def is_nb_json_def\<close>)

theorem yaml_dqt_swallows_quote_witness:
  "\<exists>x'. yaml_scn_dqt_str_cnt list_env BR_DQT_STR_CTN \<lparr>sc = yaml_create, lx = lex_string ERR_REC (''-'' @ [CHR 0x22] @ '': b'')\<rparr> = Some (True, x')
     \<and> yaml_sym x' = BR_DQT_STR_CTN \<and> ll_end (raw (lx x')) = 5"
proof -
  have "ll_rest (raw (lx \<lparr>sc = yaml_create, lx = lex_string ERR_REC (''-'' @ [CHR 0x22] @ '': b'')\<rparr>)) = ch CHR ''-'' # ch CHR 0x22 # map ch '': b''"
    by (simp add: lex_string_def)
  note ex = yaml_dqt_swallows_quote [OF list_lexer.ts_lexer_marks_axioms this, of BR_DQT_STR_CTN]
  have "length (takeWhile is_nb_double_char (map ch '': b'')) = 3"
    by (simp add: is_nb_double_char_def is_nb_json_def)
  then show ?thesis using ex by (simp add: lex_string_def yaml_create_def yaml_reset_def)
qed

end
