(* ===== verification/Yaml_Save.thy ===== *)
theory Yaml_Save
  imports Yaml_Scan
begin

text \<open>
  Saving and restoring the YAML scanner: what the saved bytes hold, when they fit the
  buffer, and that saving and restoring between the scans of a parse changes nothing as
  long as they fit.
\<close>

text \<open>What is saved; the scan overwrites the rest before it reads it.\<close>

definition yaml_view :: "yaml_scanner \<Rightarrow> (int16 \<times> int16) \<times> (int16 \<times> int16 \<times> int16) \<times> int16 list \<times> int16 list" where
  "yaml_view s = ((row s, col s), (blk_imp_row s, blk_imp_col s, blk_imp_tab s), ind_typ_stk s, ind_len_stk s)"

text \<open>The document and at most 253 open blocks.\<close>

definition yaml_saves :: "yaml_scanner \<Rightarrow> bool" where
  "yaml_saves s \<longleftrightarrow> yaml_wf s \<and> length (ind_typ_stk s) \<le> 254"

lemma yaml_serialize_inds_take:
  assumes "length typs = length lens" and "n \<le> 254"
  shows "yaml_serialize_inds (10 + 4 * n) typs lens
     = concat (map (\<lambda>(t, l). le16 t @ le16 l) (take (254 - n) (zip typs lens)))"
  using assms
proof (induction typs lens arbitrary: n rule: list_induct2)
  case (Cons t typs l lens)
  show ?case
  proof (cases "n = 254")
    case False
    with Cons.prems obtain k where "254 - n = Suc k" "253 - n = k" by (cases "254 - n") auto
    with False Cons.prems Cons.IH [of "Suc n"] show ?thesis
      by (auto simp: TREE_SITTER_SERIALIZATION_BUFFER_SIZE_def)
  qed (simp add: TREE_SITTER_SERIALIZATION_BUFFER_SIZE_def)
qed simp

lemma yaml_get_inds_concat:
  "yaml_get_inds (concat (map (\<lambda>(t, l). le16 t @ le16 l) ps)) = Some (map fst ps, map snd ps)"
proof (induction ps)
  case (Cons p ps)
  obtain t l where "p = (t, l)" by (cases p)
  moreover have "ucast (ucast w :: byte) OR push_bit 8 (ucast (ucast (drop_bit 8 w) :: byte)) = w" for w :: int16
    using get16_le16 [of w "[]"] by (simp add: le16_def)
  ultimately show ?case using Cons.IH by (simp add: le16_def)
qed simp

lemma yaml_wf_stacks:
  assumes "yaml_wf s"
  obtains typs lens where "ind_typ_stk s = IND_ROT # typs" "ind_len_stk s = -1 # lens" "length typs = length lens"
  using assms by (cases "ind_typ_stk s"; cases "ind_len_stk s") (auto simp: yaml_wf_def)

lemma yaml_restore_take:
  assumes "yaml_wf s"
  shows "length (yaml_serialize s) = 10 + 4 * min 254 (length (ind_typ_stk s) - 1)"
    and "\<exists>s'. yaml_deserialize t (yaml_serialize s) = Some s' \<and>
       yaml_view s' = ((row s, col s), (blk_imp_row s, blk_imp_col s, blk_imp_tab s), take 255 (ind_typ_stk s), take 255 (ind_len_stk s))"
proof -
  obtain typs lens where s: "ind_typ_stk s = IND_ROT # typs" "ind_len_stk s = -1 # lens" "length typs = length lens"
    using yaml_wf_stacks [OF assms] .
  have ser: "yaml_serialize s = le16 (row s) @ le16 (col s) @ le16 (blk_imp_row s) @ le16 (blk_imp_col s) @ le16 (blk_imp_tab s)
      @ concat (map (\<lambda>(t, l). le16 t @ le16 l) (take 254 (zip typs lens)))"
    using yaml_serialize_inds_take [of typs lens 0] s by (simp add: yaml_serialize_def)
  have "length (concat (map (\<lambda>(t :: int16, l). le16 t @ le16 l) ps)) = 4 * length ps" for ps
    by (induction ps) auto
  with s show "length (yaml_serialize s) = 10 + 4 * min 254 (length (ind_typ_stk s) - 1)"
    unfolding ser by (simp add: min_def)
  have "map fst (take 254 (zip typs lens)) = take 254 typs" "map snd (take 254 (zip typs lens)) = take 254 lens"
    using s(3) by (simp_all add: take_map [symmetric])
  then show "\<exists>s'. yaml_deserialize t (yaml_serialize s) = Some s' \<and>
       yaml_view s' = ((row s, col s), (blk_imp_row s, blk_imp_col s, blk_imp_tab s), take 255 (ind_typ_stk s), take 255 (ind_len_stk s))"
    by (simp add: ser yaml_deserialize_def Let_def yaml_reset_def yaml_get_inds_concat yaml_view_def s(1,2))
qed

lemma yaml_restore_full:
  assumes "yaml_saves s"
  shows "\<exists>s'. yaml_deserialize t (yaml_serialize s) = Some s' \<and> yaml_view s' = yaml_view s"
  using yaml_restore_take(2) [of s t] assms by (simp add: yaml_saves_def yaml_view_def yaml_wf_def)

text \<open>The scan depends on what is saved only.\<close>

lemma yaml_init_view:
  assumes "yaml_view s = yaml_view t"
  shows "yaml_scan E v \<lparr>sc = s, lx = l\<rparr> = yaml_scan E v \<lparr>sc = t, lx = l\<rparr>"
proof -
  have "yaml_mrk_end E \<lparr>sc = yaml_init s, lx = l\<rparr> = yaml_mrk_end E \<lparr>sc = yaml_init t, lx = l\<rparr>"
    using assms by (simp add: yaml_mrk_end_def yaml_init_def yaml_view_def)
  moreover have "ind_len_stk (yaml_init s) = ind_len_stk (yaml_init t)" "ind_typ_stk (yaml_init s) = ind_typ_stk (yaml_init t)"
    using assms by (simp_all add: yaml_init_def yaml_view_def)
  ultimately show ?thesis by (simp add: yaml_scan_def Let_def yaml_position_def)
qed

definition yaml_call :: "'l env \<Rightarrow> yaml_scanner \<Rightarrow> (yaml_token \<Rightarrow> bool) \<times> ('l, yaml_token) TSLexer \<Rightarrow>
    ((bool \<times> ('l, yaml_token) TSLexer) \<times> yaml_scanner) option" where
  "yaml_call E s = (\<lambda>(v, l). map_option (\<lambda>(b, x). ((b, lx x), sc x)) (yaml_scan E v \<lparr>sc = s, lx = l\<rparr>))"

interpretation yaml: resettable_scanner yaml_serialize yaml_deserialize yaml_saves yaml_view yaml_create
proof
  show "length (yaml_serialize s) \<le> TREE_SITTER_SERIALIZATION_BUFFER_SIZE" if "yaml_saves s" for s
    using that yaml_restore_take(1) [of s] by (auto simp: yaml_saves_def TREE_SITTER_SERIALIZATION_BUFFER_SIZE_def min_def)
  show "\<exists>s'. yaml_deserialize t (yaml_serialize s) = Some s' \<and> yaml_view s' = yaml_view s" if "yaml_saves s" for s t
    by (rule yaml_restore_full [OF that])
  show "\<exists>s'. yaml_deserialize t [] = Some s' \<and> yaml_view s' = yaml_view yaml_create" for t
    by (simp add: yaml_deserialize_def yaml_create_def yaml_reset_def yaml_view_def)
qed

interpretation yaml_parse: resumable_scanner yaml_serialize yaml_deserialize yaml_saves yaml_view "yaml_call E" for E :: "'l env"
proof
  fix s t assume view: "yaml_view s = yaml_view t"
  show "map_option (\<lambda>(x, s'). (x, yaml_view s')) (yaml_call E s i) = map_option (\<lambda>(x, t'). (x, yaml_view t')) (yaml_call E t i)" for i
    by (simp add: yaml_call_def yaml_init_view [OF view] split: prod.splits)
  show "yaml_saves s = yaml_saves t" using view by (simp add: yaml_saves_def yaml_wf_def yaml_view_def)
  show "yaml_serialize s = yaml_serialize t" using view by (simp add: yaml_serialize_def yaml_view_def)
qed

section \<open>Properties\<close>

text \<open>C27.
  A saved YAML scanner is restored with all of its positions and with the document and
  the first 254 open blocks. The bytes fit the buffer exactly when at most 253 blocks are
  open: the 254th is written two bytes past its end, because the size is tested once for
  the two fields of a block.
\<close>
theorem yaml_serialize_roundtrip:
  assumes "yaml_wf s"
  shows "(length (yaml_serialize s) \<le> TREE_SITTER_SERIALIZATION_BUFFER_SIZE \<longleftrightarrow> length (ind_typ_stk s) \<le> 254) \<and>
     (254 < length (ind_typ_stk s) \<longrightarrow> length (yaml_serialize s) = TREE_SITTER_SERIALIZATION_BUFFER_SIZE + 2) \<and>
     (\<exists>s'. yaml_deserialize t (yaml_serialize s) = Some s' \<and>
        row s' = row s \<and> col s' = col s \<and> blk_imp_row s' = blk_imp_row s \<and> blk_imp_col s' = blk_imp_col s \<and> blk_imp_tab s' = blk_imp_tab s \<and>
        ind_typ_stk s' = take 255 (ind_typ_stk s) \<and> ind_len_stk s' = take 255 (ind_len_stk s))"
  using yaml_restore_take(1) [OF assms] yaml_restore_take(2) [OF assms, of t]
  by (auto simp: TREE_SITTER_SERIALIZATION_BUFFER_SIZE_def yaml_view_def min_def)

theorem yaml_serialize_roundtrip_witness:
  "length (yaml_serialize (yaml_create\<lparr>ind_typ_stk := IND_ROT # replicate 300 IND_SEQ, ind_len_stk := -1 # replicate 300 0\<rparr>)) = 1026 \<and>
   (\<exists>s'. yaml_deserialize yaml_create (yaml_serialize (yaml_create\<lparr>row := 7, ind_typ_stk := [IND_ROT, IND_MAP], ind_len_stk := [-1, 0]\<rparr>)) = Some s'
     \<and> row s' = 7 \<and> ind_typ_stk s' = [IND_ROT, IND_MAP] \<and> ind_len_stk s' = [-1, 0])"
proof
  have "yaml_wf (yaml_create\<lparr>ind_typ_stk := IND_ROT # replicate 300 IND_SEQ, ind_len_stk := -1 # replicate 300 0\<rparr>)"
    by (simp add: yaml_wf_def)
  from yaml_serialize_roundtrip [OF this, of yaml_create]
  show "length (yaml_serialize (yaml_create\<lparr>ind_typ_stk := IND_ROT # replicate 300 IND_SEQ, ind_len_stk := -1 # replicate 300 0\<rparr>)) = 1026"
    by (simp add: TREE_SITTER_SERIALIZATION_BUFFER_SIZE_def)
  have "yaml_wf (yaml_create\<lparr>row := 7, ind_typ_stk := [IND_ROT, IND_MAP], ind_len_stk := [-1, 0]\<rparr>)"
    by (simp add: yaml_wf_def)
  from yaml_serialize_roundtrip [OF this, of yaml_create]
  show "\<exists>s'. yaml_deserialize yaml_create (yaml_serialize (yaml_create\<lparr>row := 7, ind_typ_stk := [IND_ROT, IND_MAP], ind_len_stk := [-1, 0]\<rparr>)) = Some s'
     \<and> row s' = 7 \<and> ind_typ_stk s' = [IND_ROT, IND_MAP] \<and> ind_len_stk s' = [-1, 0]"
    by auto
qed

text \<open>C28.
  Saving the YAML scanner and restoring it into an object with any old state before every
  scan of a parse changes no result of the parse, as long as every state on the way
  is well formed (two stacks of equal length with the document at their bottom) and has at most
  253 open blocks.
\<close>
theorem yaml_save_restore_transparent:
  assumes "run_saves yaml_saves (yaml_call E) s (map snd is)"
  shows "saved_run yaml_serialize yaml_deserialize (yaml_call E) s is = direct_run (yaml_call E) s (map snd is)"
  by (rule yaml_parse.saved_run_transparent [OF assms refl])

theorem yaml_save_restore_transparent_witness:
  "saved_run yaml_serialize yaml_deserialize (yaml_call list_env) yaml_create
       [(yaml_create\<lparr>row := 5\<rparr>, \<lambda>t. t = R_BLK_SEQ_BGN, lex_string ERR_REC ''- a'')] =
     direct_run (yaml_call list_env) yaml_create [(\<lambda>t. t = R_BLK_SEQ_BGN, lex_string ERR_REC ''- a'')]
   \<and> direct_run (yaml_call list_env) yaml_create [(\<lambda>t. t = R_BLK_SEQ_BGN, lex_string ERR_REC ''- a'')] \<noteq> None"
proof
  have "run_saves yaml_saves (yaml_call list_env) yaml_create
      (map snd [(yaml_create\<lparr>row := 5\<rparr>, \<lambda>t. t = R_BLK_SEQ_BGN, lex_string ERR_REC ''- a'')])"
    by code_simp
  from yaml_save_restore_transparent [OF this]
  show "saved_run yaml_serialize yaml_deserialize (yaml_call list_env) yaml_create
       [(yaml_create\<lparr>row := 5\<rparr>, \<lambda>t. t = R_BLK_SEQ_BGN, lex_string ERR_REC ''- a'')] =
     direct_run (yaml_call list_env) yaml_create [(\<lambda>t. t = R_BLK_SEQ_BGN, lex_string ERR_REC ''- a'')]"
    by simp
  show "direct_run (yaml_call list_env) yaml_create [(\<lambda>t. t = R_BLK_SEQ_BGN, lex_string ERR_REC ''- a'')] \<noteq> None"
    by code_simp
qed

end
