(* ===== verification/Ruby_Scanner.thy ===== *)
theory Ruby_Scanner
  imports TS_Serialize
begin

text \<open>
  The Ruby scanner, \<^verbatim>\<open>ruby/src/scanner.c\<close>: literals with their delimiters, heredocs,
  operators that depend on the blanks around them, symbols and line breaks. Its state is
  the stack of open literals, the innermost last, and the queue of heredocs whose bodies
  are still to come. The flag \<^verbatim>\<open>has_leading_whitespace\<close> lives within one scan only.

  The tokens keep the numbers the enumeration gives them, because the type of a literal is
  saved as one byte. \<^verbatim>\<open>char\<close> values are bytes; a comparison of a code point with one reads
  it as signed, a cast of a code point to \<^verbatim>\<open>char\<close> keeps its last eight bits.

  The theory holds the model; what is shown of it is in \<open>Ruby_Scan\<close>.
\<close>

section \<open>Tokens and state\<close>

type_synonym ruby_token = nat

abbreviation (input) LINE_BREAK :: ruby_token where "LINE_BREAK \<equiv> 0"
abbreviation (input) NO_LINE_BREAK :: ruby_token where "NO_LINE_BREAK \<equiv> 1"
abbreviation (input) SIMPLE_SYMBOL :: ruby_token where "SIMPLE_SYMBOL \<equiv> 2"
abbreviation (input) STRING_START :: ruby_token where "STRING_START \<equiv> 3"
abbreviation (input) SYMBOL_START :: ruby_token where "SYMBOL_START \<equiv> 4"
abbreviation (input) SUBSHELL_START :: ruby_token where "SUBSHELL_START \<equiv> 5"
abbreviation (input) REGEX_START :: ruby_token where "REGEX_START \<equiv> 6"
abbreviation (input) STRING_ARRAY_START :: ruby_token where "STRING_ARRAY_START \<equiv> 7"
abbreviation (input) SYMBOL_ARRAY_START :: ruby_token where "SYMBOL_ARRAY_START \<equiv> 8"
abbreviation (input) HEREDOC_BODY_START :: ruby_token where "HEREDOC_BODY_START \<equiv> 9"
abbreviation (input) STRING_CONTENT :: ruby_token where "STRING_CONTENT \<equiv> 10"
abbreviation (input) HEREDOC_CONTENT :: ruby_token where "HEREDOC_CONTENT \<equiv> 11"
abbreviation (input) STRING_END :: ruby_token where "STRING_END \<equiv> 12"
abbreviation (input) HEREDOC_BODY_END :: ruby_token where "HEREDOC_BODY_END \<equiv> 13"
abbreviation (input) HEREDOC_START :: ruby_token where "HEREDOC_START \<equiv> 14"
abbreviation (input) FORWARD_SLASH :: ruby_token where "FORWARD_SLASH \<equiv> 15"
abbreviation (input) BLOCK_AMPERSAND :: ruby_token where "BLOCK_AMPERSAND \<equiv> 16"
abbreviation (input) SPLAT_STAR :: ruby_token where "SPLAT_STAR \<equiv> 17"
abbreviation (input) UNARY_MINUS :: ruby_token where "UNARY_MINUS \<equiv> 18"
abbreviation (input) UNARY_MINUS_NUM :: ruby_token where "UNARY_MINUS_NUM \<equiv> 19"
abbreviation (input) BINARY_MINUS :: ruby_token where "BINARY_MINUS \<equiv> 20"
abbreviation (input) BINARY_STAR :: ruby_token where "BINARY_STAR \<equiv> 21"
abbreviation (input) SINGLETON_CLASS_LEFT_ANGLE_LEFT_ANGLE :: ruby_token where "SINGLETON_CLASS_LEFT_ANGLE_LEFT_ANGLE \<equiv> 22"
abbreviation (input) HASH_KEY_SYMBOL :: ruby_token where "HASH_KEY_SYMBOL \<equiv> 23"
abbreviation (input) IDENTIFIER_SUFFIX :: ruby_token where "IDENTIFIER_SUFFIX \<equiv> 24"
abbreviation (input) CONSTANT_SUFFIX :: ruby_token where "CONSTANT_SUFFIX \<equiv> 25"
abbreviation (input) HASH_SPLAT_STAR_STAR :: ruby_token where "HASH_SPLAT_STAR_STAR \<equiv> 26"
abbreviation (input) BINARY_STAR_STAR :: ruby_token where "BINARY_STAR_STAR \<equiv> 27"
abbreviation (input) ELEMENT_REFERENCE_BRACKET :: ruby_token where "ELEMENT_REFERENCE_BRACKET \<equiv> 28"
abbreviation (input) SHORT_INTERPOLATION :: ruby_token where "SHORT_INTERPOLATION \<equiv> 29"
abbreviation (input) NONE :: ruby_token where "NONE \<equiv> 30"

record literal =
  lit_type :: ruby_token
  open_delimiter :: int
  close_delimiter :: int
  nesting_depth :: "32 word"
  lit_interpolation :: bool

record heredoc =
  hd_word :: "byte list"
  end_word_indentation_allowed :: bool
  hd_interpolation :: bool
  started :: bool

record ruby_scanner =
  has_leading_whitespace :: bool
  literal_stack :: "literal list"
  open_heredocs :: "heredoc list"

type_synonym 'l ruby_lexer = "('l, ruby_token) TSLexer"

type_synonym 'l ruby_result = "bool \<times> ruby_scanner \<times> 'l ruby_lexer"

definition ruby_create :: ruby_scanner where
  "ruby_create = \<lparr>has_leading_whitespace = False, literal_stack = [], open_heredocs = []\<rparr>"

definition ruby_skip :: "'l env \<Rightarrow> ruby_scanner \<Rightarrow> 'l ruby_lexer \<Rightarrow> ruby_scanner \<times> 'l ruby_lexer" where
  "ruby_skip E s l = (s\<lparr>has_leading_whitespace := True\<rparr>, skip E l)"

definition ruby_reset :: "ruby_scanner \<Rightarrow> ruby_scanner" where
  "ruby_reset s = s\<lparr>literal_stack := [], open_heredocs := []\<rparr>"

section \<open>Saving and restoring\<close>

definition ruby_put_literal :: "literal \<Rightarrow> byte list" where
  "ruby_put_literal x =
     [of_nat (lit_type x), word_of_int (open_delimiter x), word_of_int (close_delimiter x), ucast (nesting_depth x),
      bool_byte (lit_interpolation x)]"

text \<open>The loop over the heredocs; \<open>None\<close> when the function gives up and returns 0.\<close>

fun ruby_put_heredocs :: "nat \<Rightarrow> heredoc list \<Rightarrow> byte list option" where
  "ruby_put_heredocs sz [] = Some []"
| "ruby_put_heredocs sz (h # hs) =
     (if sz + 2 + length (hd_word h) \<ge> TREE_SITTER_SERIALIZATION_BUFFER_SIZE then None
      else
        do { bs \<leftarrow> ruby_put_heredocs (sz + 4 + length (hd_word h)) hs;
             Some ([bool_byte (end_word_indentation_allowed h), bool_byte (hd_interpolation h), bool_byte (started h),
                    of_nat (length (hd_word h))] @ hd_word h @ bs) })"

definition ruby_serialize :: "ruby_scanner \<Rightarrow> byte list" where
  "ruby_serialize s =
     (let n = length (literal_stack s) in
      if n * 5 + 2 \<ge> TREE_SITTER_SERIALIZATION_BUFFER_SIZE then []
      else
        case ruby_put_heredocs (n * 5 + 2) (open_heredocs s) of
          None \<Rightarrow> []
        | Some bs \<Rightarrow>
            of_nat n # concat (map ruby_put_literal (literal_stack s)) @ of_nat (length (open_heredocs s)) # bs)"

fun ruby_get_literal :: "byte list \<Rightarrow> (literal \<times> byte list) option" where
  "ruby_get_literal (t # oc # cl # d # i # buffer) =
     Some (\<lparr>lit_type = unat t, open_delimiter = uint oc, close_delimiter = uint cl, nesting_depth = ucast d,
            lit_interpolation = (i \<noteq> 0)\<rparr>, buffer)"
| "ruby_get_literal _ = None"

fun ruby_get_heredoc :: "byte list \<Rightarrow> (heredoc \<times> byte list) option" where
  "ruby_get_heredoc (e # i # st # n # buffer) =
     do { (w, buffer) \<leftarrow> get_bytes (unat n) buffer;
          Some (\<lparr>hd_word = w, end_word_indentation_allowed = (e \<noteq> 0), hd_interpolation = (i \<noteq> 0), started = (st \<noteq> 0)\<rparr>, buffer) }"
| "ruby_get_heredoc _ = None"

definition ruby_deserialize :: "ruby_scanner \<Rightarrow> byte list \<Rightarrow> ruby_scanner option" where
  "ruby_deserialize s buffer =
     (let s = ruby_reset (s\<lparr>has_leading_whitespace := False\<rparr>) in
      if buffer = [] then Some s
      else
        do { (n, buffer) \<leftarrow> get8 buffer;
             (lits, buffer) \<leftarrow> get_many ruby_get_literal (unat n) buffer;
             (k, buffer) \<leftarrow> get8 buffer;
             (hds, buffer) \<leftarrow> get_many ruby_get_heredoc (unat k) buffer;
             if buffer = [] then Some (s\<lparr>literal_stack := lits, open_heredocs := hds\<rparr>) else None })"

section \<open>Blanks and line breaks\<close>

definition ruby_start_body :: "ruby_scanner \<Rightarrow> 'l ruby_lexer \<Rightarrow> 'l ruby_result" where
  "ruby_start_body s l =
     (True, s\<lparr>open_heredocs := (hd (open_heredocs s))\<lparr>started := True\<rparr> # tl (open_heredocs s)\<rparr>, set_symbol HEREDOC_BODY_START l)"

definition ruby_whitespace_step :: "'l env \<Rightarrow> (ruby_token \<Rightarrow> bool) \<Rightarrow> bool \<Rightarrow> bool \<times> ruby_scanner \<times> 'l ruby_lexer \<Rightarrow>
    (bool \<times> ruby_scanner \<times> 'l ruby_lexer, 'l ruby_result) flow option" where
  "ruby_whitespace_step E v heredoc_body_start_is_valid = (\<lambda>(crossed_newline, s, l).
     let line_break = (\<not> v NO_LINE_BREAK \<and> v LINE_BREAK);
         c = lookahead E l in
     if line_break \<and> is_at_included_range_start E l
     then Some (Return (True, s, set_symbol LINE_BREAK (mark_end E l)))
     else if c = ch CHR '' '' \<or> c = ch CHR 0x09 then Some (Next (crossed_newline, ruby_skip E s l))
     else if c = ch CHR 0x0D then
       if heredoc_body_start_is_valid then Some (Return (ruby_start_body s l))
       else Some (Next (crossed_newline, ruby_skip E s l))
     else if c = ch CHR 0x0A then
       if heredoc_body_start_is_valid then Some (Return (ruby_start_body s l))
       else if line_break \<and> \<not> crossed_newline then Some (Next (True, s, advance E (mark_end E l)))
       else Some (Next (crossed_newline, ruby_skip E s l))
     else if c = ch CHR 0x5C then
       let l = advance E l;
           (s, l) = (if lookahead E l = ch CHR 0x0D then ruby_skip E s l else (s, l)) in
       if iswspace E (lookahead E l) then Some (Next (crossed_newline, ruby_skip E s l))
       else Some (Return (False, s, l))
     else if crossed_newline then
       if c \<noteq> ch CHR ''.'' \<and> c \<noteq> ch CHR ''&'' \<and> c \<noteq> ch CHR ''#'' then Some (Return (True, s, set_symbol LINE_BREAK l))
       else if c = ch CHR ''.'' then
         let l = advance E l in
         if \<not> eof E l \<and> lookahead E l = ch CHR ''.'' then Some (Return (True, s, set_symbol LINE_BREAK l))
         else Some (Return (False, s, l))
       else Some (Return (True, s, l))
     else Some (Return (True, s, l)))"

definition ruby_scan_whitespace :: "'l env \<Rightarrow> (ruby_token \<Rightarrow> bool) \<Rightarrow> ruby_scanner \<Rightarrow> 'l ruby_lexer \<Rightarrow> 'l ruby_result option" where
  "ruby_scan_whitespace E v s l =
     c_loop (ruby_whitespace_step E v
       (open_heredocs s \<noteq> [] \<and> \<not> started (hd (open_heredocs s)) \<and> v HEREDOC_BODY_START)) (False, s, l)"

section \<open>Operators and symbols\<close>

text \<open>Advance over the next character if it is one of the given ones.\<close>

definition ruby_opt :: "'l env \<Rightarrow> string \<Rightarrow> 'l ruby_lexer \<Rightarrow> 'l ruby_lexer" where
  "ruby_opt E cs l = (if lookahead E l \<in> set (map ch cs) then advance E l else l)"

definition ruby_scan_operator :: "'l env \<Rightarrow> 'l ruby_lexer \<Rightarrow> bool \<times> 'l ruby_lexer" where
  "ruby_scan_operator E l =
     (let c = lookahead E l in
      if c = ch CHR ''<'' then
        let l = advance E l in
        if lookahead E l = ch CHR ''<'' then (True, advance E l)
        else if lookahead E l = ch CHR ''='' then (True, ruby_opt E ''>'' (advance E l))
        else (True, l)
      else if c = ch CHR ''>'' then (True, ruby_opt E ''>='' (advance E l))
      else if c = ch CHR ''='' then
        let l = advance E l in
        if lookahead E l = ch CHR ''~'' then (True, advance E l)
        else if lookahead E l = ch CHR ''='' then (True, ruby_opt E ''='' (advance E l))
        else (False, l)
      else if c \<in> set (map ch ''+-~'') then (True, ruby_opt E ''@'' (advance E l))
      else if c = ch CHR ''.'' then
        let l = advance E l in
        if lookahead E l = ch CHR ''.'' then (True, advance E l) else (False, l)
      else if c \<in> set (map ch ''&^|/%`'') then (True, advance E l)
      else if c = ch CHR ''!'' then (True, ruby_opt E ''=~'' (advance E l))
      else if c = ch CHR ''*'' then (True, ruby_opt E ''*'' (advance E l))
      else if c = ch CHR ''['' then
        let l = advance E l in
        if lookahead E l = ch CHR '']'' then (True, ruby_opt E ''='' (advance E l)) else (False, l)
      else (False, l))"

text \<open>\<^verbatim>\<open>is_iden_char\<close> applied to a code point that is cast to \<^verbatim>\<open>char\<close>.\<close>

definition NON_IDENTIFIER_CHARS :: "int list" where
  "NON_IDENTIFIER_CHARS =
     map ch ([CHR 0x00, CHR 0x0A, CHR 0x0D, CHR 0x09] @ '' :;`'' @ [CHR 0x22, CHR 0x27] @ ''@$#.,|^&<=>+-*/'' @ [CHR 0x5C] @ ''%?!~()[]{}'')"

definition is_iden_char :: "int \<Rightarrow> bool" where
  "is_iden_char c \<longleftrightarrow> c mod 256 \<notin> set NON_IDENTIFIER_CHARS"

definition ruby_scan_symbol_identifier :: "'l env \<Rightarrow> 'l ruby_lexer \<Rightarrow> (bool \<times> 'l ruby_lexer) option" where
  "ruby_scan_symbol_identifier E l =
     (let l = (if lookahead E l = ch CHR ''@'' then ruby_opt E ''@'' (advance E l)
               else if lookahead E l = ch CHR ''$'' then advance E l else l);
          (ok, l) = (if is_iden_char (lookahead E l) then (True, advance E l) else ruby_scan_operator E l) in
      if \<not> ok then Some (False, l)
      else
        do { l \<leftarrow> advance_while E is_iden_char l;
             let l = ruby_opt E ''?!'' l in
             if lookahead E l = ch CHR ''='' then
               let l = advance E (mark_end E l) in
               Some (True, if lookahead E l \<noteq> ch CHR ''>'' then mark_end E l else l)
             else Some (True, l) })"

section \<open>Openings\<close>

text \<open>The letters behind a percent sign: the token that must be valid, the type of the literal and whether it interpolates.\<close>

definition ruby_percent_kinds :: "(int \<times> ruby_token \<times> ruby_token \<times> bool) list" where
  "ruby_percent_kinds =
     [(ch CHR ''s'', SIMPLE_SYMBOL, SYMBOL_START, False), (ch CHR ''r'', REGEX_START, REGEX_START, True),
      (ch CHR ''x'', SUBSHELL_START, SUBSHELL_START, True), (ch CHR ''q'', STRING_START, STRING_START, False),
      (ch CHR ''Q'', STRING_START, STRING_START, True), (ch CHR ''w'', STRING_ARRAY_START, STRING_ARRAY_START, False),
      (ch CHR ''i'', SYMBOL_ARRAY_START, SYMBOL_ARRAY_START, False), (ch CHR ''W'', STRING_ARRAY_START, STRING_ARRAY_START, True),
      (ch CHR ''I'', SYMBOL_ARRAY_START, SYMBOL_ARRAY_START, True)]"

definition ruby_brackets :: "(int \<times> int) list" where
  "ruby_brackets = [(ch CHR ''('', ch CHR '')''), (ch CHR ''['', ch CHR '']''), (ch CHR ''{'', ch CHR ''}''), (ch CHR ''<'', ch CHR ''>'')]"

definition ruby_unbalanced :: "int list" where
  "ruby_unbalanced = map ch (''|!#/'' @ [CHR 0x5C] @ ''@$%^&*)]}>+-~`,.?:;_'' @ [CHR 0x22, CHR 0x27])"

text \<open>The delimiter of a percent literal; a blank leaves both delimiters 0.\<close>

definition ruby_percent_delimiter :: "'l env \<Rightarrow> (ruby_token \<Rightarrow> bool) \<Rightarrow> literal \<Rightarrow> 'l ruby_lexer \<Rightarrow> bool \<times> literal \<times> 'l ruby_lexer" where
  "ruby_percent_delimiter E v x l =
     (let c = lookahead E l in
      case map_of ruby_brackets c of
        Some cl \<Rightarrow> (True, x\<lparr>open_delimiter := c, close_delimiter := cl\<rparr>, advance E l)
      | None \<Rightarrow>
          if c \<in> set (map ch ([CHR 0x0D, CHR 0x0A] @ '' '' @ [CHR 0x09])) then
            if v FORWARD_SLASH then (False, x, l) else (True, x, advance E l)
          else if c \<in> set ruby_unbalanced then (True, x\<lparr>open_delimiter := c, close_delimiter := c\<rparr>, advance E l)
          else (False, x, l))"

definition ruby_scan_open_delimiter :: "'l env \<Rightarrow> (ruby_token \<Rightarrow> bool) \<Rightarrow> ruby_scanner \<Rightarrow> literal \<Rightarrow> 'l ruby_lexer \<Rightarrow>
    bool \<times> literal \<times> 'l ruby_lexer" where
  "ruby_scan_open_delimiter E v s x l =
     (let c = lookahead E l;
          opened = (\<lambda>t i. x\<lparr>lit_type := t, open_delimiter := c, close_delimiter := c, lit_interpolation := i\<rparr>) in
      if c = ch CHR 0x22 then (True, opened STRING_START True, advance E l)
      else if c = ch CHR 0x27 then (True, opened STRING_START False, advance E l)
      else if c = ch CHR ''`'' then
        if \<not> v SUBSHELL_START then (False, x, l) else (True, opened SUBSHELL_START True, advance E l)
      else if c = ch CHR ''/'' then
        if \<not> v REGEX_START then (False, x, l)
        else
          let l = advance E l in
          if v FORWARD_SLASH \<and>
             (\<not> has_leading_whitespace s
              \<or> lookahead E l \<in> set (map ch ('' '' @ [CHR 0x09, CHR 0x0A, CHR 0x0D]))
              \<or> lookahead E l = ch CHR ''='')
          then (False, opened REGEX_START True, l)
          else (True, opened REGEX_START True, l)
      else if c = ch CHR ''%'' then
        let l = advance E l in
        (case map_of ruby_percent_kinds (lookahead E l) of
           Some (valid, t, i) \<Rightarrow>
             if \<not> v valid then (False, x, l)
             else ruby_percent_delimiter E v (x\<lparr>lit_type := t, lit_interpolation := i\<rparr>) (advance E l)
         | None \<Rightarrow>
             if \<not> v STRING_START then (False, x, l)
             else ruby_percent_delimiter E v (x\<lparr>lit_type := STRING_START, lit_interpolation := True\<rparr>) l)
      else (False, x, l))"

definition ruby_read_word :: "'l env \<Rightarrow> ('l ruby_lexer \<Rightarrow> bool) \<Rightarrow> 'l ruby_lexer \<Rightarrow> (byte list \<times> 'l ruby_lexer) option" where
  "ruby_read_word E p l =
     while_option (\<lambda>(w, l). p l) (\<lambda>(w, l). (w @ [word_of_int (lookahead E l)], advance E l)) ([], l)"

definition ruby_scan_heredoc_word :: "'l env \<Rightarrow> heredoc \<Rightarrow> 'l ruby_lexer \<Rightarrow> (heredoc \<times> 'l ruby_lexer) option" where
  "ruby_scan_heredoc_word E h l =
     (let c = lookahead E l in
      if c = ch CHR 0x27 \<or> c = ch CHR 0x22 \<or> c = ch CHR ''`'' then
        do { (w, l) \<leftarrow> ruby_read_word E (\<lambda>l. lookahead E l \<noteq> c \<and> \<not> eof E l) (advance E l);
             Some (h\<lparr>hd_word := w, hd_interpolation := (c \<noteq> ch CHR 0x27)\<rparr>, advance E l) }
      else
        do { (w, l) \<leftarrow> ruby_read_word E (\<lambda>l. iswalnum E (lookahead E l) \<or> lookahead E l = ch CHR ''_'') l;
             Some (h\<lparr>hd_word := w, hd_interpolation := True\<rparr>, l) })"

section \<open>Contents\<close>

text \<open>
  Behind a number sign: an instance, class or global variable. \<^verbatim>\<open>strchr\<close> also finds the
  NUL that ends the string it searches.
\<close>

definition ruby_short_globals :: "int list" where
  "ruby_short_globals = map ch (''!@&`'' @ [CHR 0x27] @ ''+~=/'' @ [CHR 0x5C] @ '',;.<>*$?:'' @ [CHR 0x22, CHR 0x00])"

definition ruby_short_global :: "'l env \<Rightarrow> 'l ruby_lexer \<Rightarrow> bool \<times> 'l ruby_lexer" where
  "ruby_short_global E l =
     (if lookahead E l mod 256 \<in> set ruby_short_globals then (True, l)
      else if lookahead E l = ch CHR ''-'' then
        let l = advance E l in (iswalpha E (lookahead E l) \<or> lookahead E l = ch CHR ''_'', l)
      else (iswalnum E (lookahead E l) \<or> lookahead E l = ch CHR ''_'', l))"

definition ruby_short_instance :: "'l env \<Rightarrow> 'l ruby_lexer \<Rightarrow> bool \<times> 'l ruby_lexer" where
  "ruby_short_instance E l =
     (let l = ruby_opt E ''@'' l in (is_iden_char (lookahead E l) \<and> \<not> iswdigit E (lookahead E l), l))"

definition ruby_scan_short_interpolation :: "'l env \<Rightarrow> bool \<Rightarrow> ruby_token \<Rightarrow> 'l ruby_lexer \<Rightarrow> bool \<times> 'l ruby_lexer" where
  "ruby_scan_short_interpolation E has_content content_symbol l =
     (let start = lookahead E l mod 256 in
      if start = ch CHR ''@'' \<or> start = ch CHR ''$'' then
        if has_content then (True, set_symbol content_symbol l)
        else
          let l = advance E (mark_end E l);
              (is_short_interpolation, l) = (if start = ch CHR ''$'' then ruby_short_global E l else ruby_short_instance E l) in
          if is_short_interpolation then (True, set_symbol SHORT_INTERPOLATION l) else (False, l)
      else (False, l))"

text \<open>The answer of \<^verbatim>\<open>scan_heredoc_content\<close> at the end word or at the end of the input.\<close>

definition ruby_heredoc_done :: "ruby_scanner \<Rightarrow> bool \<Rightarrow> 'l ruby_lexer \<Rightarrow> 'l ruby_result" where
  "ruby_heredoc_done s has_content l =
     (if has_content then (True, s, set_symbol HEREDOC_CONTENT l)
      else (True, s\<lparr>open_heredocs := tl (open_heredocs s)\<rparr>, set_symbol HEREDOC_BODY_END l))"

abbreviation is_blank :: "int \<Rightarrow> bool" where
  "is_blank c \<equiv> c = ch CHR '' '' \<or> c = ch CHR 0x09"

abbreviation is_newline :: "int \<Rightarrow> bool" where
  "is_newline c \<equiv> c = ch CHR 0x0A \<or> c = ch CHR 0x0D"

text \<open>The first block of the loop: the whole end word was read.\<close>

definition ruby_heredoc_word_end :: "'l env \<Rightarrow> ruby_scanner \<Rightarrow> nat \<times> bool \<times> bool \<times> 'l ruby_lexer \<Rightarrow>
    (nat \<times> bool \<times> bool \<times> 'l ruby_lexer, 'l ruby_result) flow option" where
  "ruby_heredoc_word_end E s = (\<lambda>(position_in_word, look_for_heredoc_end, has_content, l).
     if position_in_word = length (hd_word (hd (open_heredocs s))) then
       do { l \<leftarrow> advance_while E is_blank (if \<not> has_content then mark_end E l else l);
            if is_newline (lookahead E l) then Some (Return (ruby_heredoc_done s has_content l))
            else Some (Next (0, look_for_heredoc_end, True, l)) }
     else Some (Next (position_in_word, look_for_heredoc_end, has_content, l)))"

text \<open>The last block: a character that is not part of the end word.\<close>

definition ruby_heredoc_char :: "'l env \<Rightarrow> ruby_scanner \<Rightarrow> bool \<Rightarrow> 'l ruby_lexer \<Rightarrow>
    (nat \<times> bool \<times> bool \<times> 'l ruby_lexer, 'l ruby_result) flow option" where
  "ruby_heredoc_char E s has_content l =
     (let h = hd (open_heredocs s);
          stop = (\<lambda>l. if has_content then (True, s, set_symbol HEREDOC_CONTENT l) else (False, s, l)) in
      if hd_interpolation h \<and> lookahead E l = ch CHR 0x5C then Some (Return (stop l))
      else if hd_interpolation h \<and> lookahead E l = ch CHR ''#'' then
        let l = advance E (mark_end E l) in
        if lookahead E l = ch CHR ''{'' then Some (Return (stop l))
        else
          (case ruby_scan_short_interpolation E has_content HEREDOC_CONTENT l of
             (True, l) \<Rightarrow> Some (Return (True, s, l))
           | (False, l) \<Rightarrow> Some (Next (0, False, has_content, l)))
      else if is_newline (lookahead E l) then
        let l = (if lookahead E l = ch CHR 0x0D then ruby_opt E [CHR 0x0A] (advance E l) else advance E l);
            look_for_heredoc_end = (\<not> is_blank (lookahead E l) \<or> end_word_indentation_allowed h) in
        do { l \<leftarrow> advance_while E is_blank l;
             Some (Next (0, look_for_heredoc_end, True, mark_end E l)) }
      else Some (Next (0, False, True, mark_end E (advance E l))))"

definition ruby_heredoc_step :: "'l env \<Rightarrow> ruby_scanner \<Rightarrow> nat \<times> bool \<times> bool \<times> 'l ruby_lexer \<Rightarrow>
    (nat \<times> bool \<times> bool \<times> 'l ruby_lexer, 'l ruby_result) flow option" where
  "ruby_heredoc_step E s x =
     and_then (ruby_heredoc_word_end E s x)
       (\<lambda>(position_in_word, look_for_heredoc_end, has_content, l).
          let w = hd_word (hd (open_heredocs s)) in
          if eof E l then Some (Return (ruby_heredoc_done s has_content (mark_end E l)))
          else if length w \<le> position_in_word then None
          else if lookahead E l = sint (w ! position_in_word) \<and> look_for_heredoc_end
          then Some (Next (position_in_word + 1, look_for_heredoc_end, has_content, advance E l))
          else ruby_heredoc_char E s has_content l)"

definition ruby_scan_heredoc_content :: "'l env \<Rightarrow> ruby_scanner \<Rightarrow> 'l ruby_lexer \<Rightarrow> 'l ruby_result option" where
  "ruby_scan_heredoc_content E s l =
     (if open_heredocs s = [] then None else c_loop (ruby_heredoc_step E s) (0, True, False, l))"

text \<open>
  The content of a literal. The loop changes the nesting depth of the innermost literal,
  which is a variable of the loop here and stored when the function returns.
\<close>

definition ruby_set_depth :: "32 word \<Rightarrow> ruby_scanner \<Rightarrow> ruby_scanner" where
  "ruby_set_depth d s =
     s\<lparr>literal_stack := butlast (literal_stack s) @ [(last (literal_stack s))\<lparr>nesting_depth := d\<rparr>]\<rparr>"

definition ruby_literal_close :: "'l env \<Rightarrow> ruby_scanner \<Rightarrow> bool \<times> 32 word \<times> 'l ruby_lexer \<Rightarrow>
    (bool \<times> 32 word \<times> 'l ruby_lexer, 'l ruby_result) flow option" where
  "ruby_literal_close E s = (\<lambda>(has_content, depth, l).
     let l = mark_end E l in
     if depth = 1 then
       if has_content then Some (Return (True, ruby_set_depth depth s, set_symbol STRING_CONTENT l))
       else
         do { l \<leftarrow> (if lit_type (last (literal_stack s)) = REGEX_START then advance_while E (iswlower E) (advance E l)
                    else Some (advance E l));
              Some (Return (True, s\<lparr>literal_stack := butlast (literal_stack s)\<rparr>, mark_end E (set_symbol STRING_END l))) }
     else Some (Next (True, depth - 1, advance E l)))"

definition ruby_literal_step :: "'l env \<Rightarrow> ruby_scanner \<Rightarrow> bool \<times> 32 word \<times> 'l ruby_lexer \<Rightarrow>
    (bool \<times> 32 word \<times> 'l ruby_lexer, 'l ruby_result) flow option" where
  "ruby_literal_step E s = (\<lambda>(has_content, depth, l).
     let x = last (literal_stack s);
         c = lookahead E l;
         content = (\<lambda>l. (True, ruby_set_depth depth s, set_symbol STRING_CONTENT l));
         fail = (\<lambda>l. (False, ruby_set_depth depth s, l)) in
     if (lit_type x = SYMBOL_ARRAY_START \<or> lit_type x = STRING_ARRAY_START) \<and> iswspace E c
     then Some (Return (if has_content then content (mark_end E l) else fail l))
     else if c = close_delimiter x then ruby_literal_close E s (has_content, depth, l)
     else if c = open_delimiter x then Some (Next (True, depth + 1, advance E l))
     else if lit_interpolation x \<and> c = ch CHR ''#'' then
       let l = advance E (mark_end E l) in
       if lookahead E l = ch CHR ''{'' then Some (Return (if has_content then content l else fail l))
       else
         (case ruby_scan_short_interpolation E has_content STRING_CONTENT l of
            (True, l) \<Rightarrow> Some (Return (True, ruby_set_depth depth s, l))
          | (False, l) \<Rightarrow> Some (Next (True, depth, l)))
     else if c = ch CHR 0x5C then
       if lit_interpolation x then Some (Return (if has_content then content (mark_end E l) else fail l))
       else Some (Next (True, depth, advance E (advance E l)))
     else if eof E l then Some (Return (fail (mark_end E (advance E l))))
     else Some (Next (True, depth, advance E l)))"

definition ruby_scan_literal_content :: "'l env \<Rightarrow> ruby_scanner \<Rightarrow> 'l ruby_lexer \<Rightarrow> 'l ruby_result option" where
  "ruby_scan_literal_content E s l =
     (if literal_stack s = [] then None
      else c_loop (ruby_literal_step E s) (False, nesting_depth (last (literal_stack s)), l))"

section \<open>The scan function\<close>

text \<open>
  The cases of the switch on the character behind the blanks. \<open>None\<close> falls through to the
  code behind the switch.
\<close>

definition ruby_scan_ampersand :: "'l env \<Rightarrow> (ruby_token \<Rightarrow> bool) \<Rightarrow> ruby_scanner \<Rightarrow> 'l ruby_lexer \<Rightarrow> 'l ruby_result option" where
  "ruby_scan_ampersand E v s l =
     (if v BLOCK_AMPERSAND then
        let l = advance E l; c = lookahead E l in
        if c \<noteq> ch CHR ''&'' \<and> c \<noteq> ch CHR ''.'' \<and> c \<noteq> ch CHR ''='' \<and> \<not> iswspace E c
        then Some (True, s, set_symbol BLOCK_AMPERSAND l) else Some (False, s, l)
      else None)"

definition ruby_scan_angle :: "'l env \<Rightarrow> (ruby_token \<Rightarrow> bool) \<Rightarrow> ruby_scanner \<Rightarrow> 'l ruby_lexer \<Rightarrow> 'l ruby_result option" where
  "ruby_scan_angle E v s l =
     (if v SINGLETON_CLASS_LEFT_ANGLE_LEFT_ANGLE then
        let l = advance E l in
        if lookahead E l = ch CHR ''<'' then Some (True, s, set_symbol SINGLETON_CLASS_LEFT_ANGLE_LEFT_ANGLE (advance E l))
        else Some (False, s, l)
      else None)"

text \<open>The choice between a binary operator and a splat, for one star and for two.\<close>

definition ruby_star :: "'l env \<Rightarrow> (ruby_token \<Rightarrow> bool) \<Rightarrow> ruby_token \<Rightarrow> ruby_token \<Rightarrow> ruby_scanner \<Rightarrow> 'l ruby_lexer \<Rightarrow> 'l ruby_result" where
  "ruby_star E v binary splat s l =
     (if v binary \<and> \<not> has_leading_whitespace s then (True, s, set_symbol binary l)
      else if v splat \<and> \<not> iswspace E (lookahead E l) then (True, s, set_symbol splat l)
      else if v binary then (True, s, set_symbol binary l)
      else if v splat then (True, s, set_symbol splat l)
      else (False, s, l))"

definition ruby_scan_star :: "'l env \<Rightarrow> (ruby_token \<Rightarrow> bool) \<Rightarrow> ruby_scanner \<Rightarrow> 'l ruby_lexer \<Rightarrow> 'l ruby_result option" where
  "ruby_scan_star E v s l =
     (if v SPLAT_STAR \<or> v BINARY_STAR \<or> v HASH_SPLAT_STAR_STAR \<or> v BINARY_STAR_STAR then
        let l = advance E l in
        Some
          (if lookahead E l = ch CHR ''='' then (False, s, l)
           else if lookahead E l = ch CHR ''*'' then
             if v HASH_SPLAT_STAR_STAR \<or> v BINARY_STAR_STAR then
               let l = advance E l in
               if lookahead E l = ch CHR ''='' then (False, s, l)
               else ruby_star E v BINARY_STAR_STAR HASH_SPLAT_STAR_STAR s l
             else (False, s, l)
           else ruby_star E v BINARY_STAR SPLAT_STAR s l)
      else None)"

definition ruby_scan_minus :: "'l env \<Rightarrow> (ruby_token \<Rightarrow> bool) \<Rightarrow> ruby_scanner \<Rightarrow> 'l ruby_lexer \<Rightarrow> 'l ruby_result option" where
  "ruby_scan_minus E v s l =
     (if v UNARY_MINUS \<or> v UNARY_MINUS_NUM \<or> v BINARY_MINUS then
        let l = advance E l; c = lookahead E l in
        Some
          (if c \<noteq> ch CHR ''='' \<and> c \<noteq> ch CHR ''>'' then
             if v UNARY_MINUS_NUM \<and> (\<not> v BINARY_STAR \<or> has_leading_whitespace s) \<and> iswdigit E c
             then (True, s, set_symbol UNARY_MINUS_NUM l)
             else
               (True, s, set_symbol
                  (if v UNARY_MINUS \<and> has_leading_whitespace s \<and> \<not> iswspace E c then UNARY_MINUS
                   else if v BINARY_MINUS then BINARY_MINUS else UNARY_MINUS) l)
           else (False, s, l))
      else None)"

definition ruby_push_literal :: "literal \<Rightarrow> ruby_scanner \<Rightarrow> ruby_scanner" where
  "ruby_push_literal x s = s\<lparr>literal_stack := literal_stack s @ [x]\<rparr>"

definition ruby_new_literal :: literal where
  "ruby_new_literal =
     \<lparr>lit_type = 0, open_delimiter = 0, close_delimiter = 0, nesting_depth = 1, lit_interpolation = False\<rparr>"

definition ruby_scan_colon :: "'l env \<Rightarrow> (ruby_token \<Rightarrow> bool) \<Rightarrow> ruby_scanner \<Rightarrow> 'l ruby_lexer \<Rightarrow> 'l ruby_result option option" where
  "ruby_scan_colon E v s l =
     (if v SYMBOL_START then
        let l = advance E l;
            c = lookahead E l;
            x = ruby_new_literal\<lparr>lit_type := SYMBOL_START, open_delimiter := c, close_delimiter := c\<rparr> in
        Some
          (if c = ch CHR 0x22 then
             Some (True, ruby_push_literal (x\<lparr>lit_interpolation := True\<rparr>) s, set_symbol SYMBOL_START (advance E l))
           else if c = ch CHR 0x27 then Some (True, ruby_push_literal x s, set_symbol SYMBOL_START (advance E l))
           else
             do { (b, l) \<leftarrow> ruby_scan_symbol_identifier E l;
                  Some (if b then (True, s, set_symbol SIMPLE_SYMBOL l) else (False, s, l)) })
      else None)"

definition ruby_scan_bracket :: "'l env \<Rightarrow> (ruby_token \<Rightarrow> bool) \<Rightarrow> ruby_scanner \<Rightarrow> 'l ruby_lexer \<Rightarrow> 'l ruby_result option" where
  "ruby_scan_bracket E v s l =
     (if v ELEMENT_REFERENCE_BRACKET \<and> (\<not> has_leading_whitespace s \<or> \<not> v STRING_START)
      then Some (True, s, set_symbol ELEMENT_REFERENCE_BRACKET (advance E l)) else None)"

definition ruby_scan_switch :: "'l env \<Rightarrow> (ruby_token \<Rightarrow> bool) \<Rightarrow> ruby_scanner \<times> 'l ruby_lexer \<Rightarrow>
    (ruby_scanner \<times> 'l ruby_lexer, 'l ruby_result) flow option" where
  "ruby_scan_switch E v = (\<lambda>(s, l).
     let c = lookahead E l;
         done = (\<lambda>r. case r of Some r \<Rightarrow> Some (Return r) | None \<Rightarrow> Some (Next (s, l))) in
     if c = ch CHR ''&'' then done (ruby_scan_ampersand E v s l)
     else if c = ch CHR ''<'' then done (ruby_scan_angle E v s l)
     else if c = ch CHR ''*'' then done (ruby_scan_star E v s l)
     else if c = ch CHR ''-'' then done (ruby_scan_minus E v s l)
     else if c = ch CHR '':'' then
       (case ruby_scan_colon E v s l of Some r \<Rightarrow> map_option Return r | None \<Rightarrow> Some (Next (s, l)))
     else if c = ch CHR ''['' then done (ruby_scan_bracket E v s l)
     else Some (Next (s, l)))"

text \<open>Identifiers and constants: a key of a hash, or a name with an exclamation mark.\<close>

definition ruby_scan_identifier :: "'l env \<Rightarrow> (ruby_token \<Rightarrow> bool) \<Rightarrow> ruby_scanner \<times> 'l ruby_lexer \<Rightarrow>
    (ruby_scanner \<times> 'l ruby_lexer, 'l ruby_result) flow option" where
  "ruby_scan_identifier E v = (\<lambda>(s, l).
     let c = lookahead E l in
     if (v HASH_KEY_SYMBOL \<or> v IDENTIFIER_SUFFIX) \<and> (iswalpha E c \<or> c = ch CHR ''_'') \<or> v CONSTANT_SUFFIX \<and> iswupper E c then
       let validIdentifierSymbol = (if iswupper E c then CONSTANT_SUFFIX else IDENTIFIER_SUFFIX) in
       do { l \<leftarrow> advance_while E (\<lambda>c. iswalnum E c \<or> c = ch CHR ''_'') l;
            Some (Return
              (if v HASH_KEY_SYMBOL \<and> lookahead E l = ch CHR '':'' then
                 let l = advance E (mark_end E l) in
                 if lookahead E l \<noteq> ch CHR '':'' then (True, s, set_symbol HASH_KEY_SYMBOL l) else (False, s, l)
               else if v validIdentifierSymbol \<and> lookahead E l = ch CHR ''!'' then
                 let l = advance E l in
                 if lookahead E l \<noteq> ch CHR ''='' then (True, s, set_symbol validIdentifierSymbol l) else (False, s, l)
               else (False, s, l))) }
     else Some (Next (s, l)))"

definition ruby_scan_heredoc_start :: "'l env \<Rightarrow> ruby_scanner \<Rightarrow> 'l ruby_lexer \<Rightarrow> 'l ruby_result option" where
  "ruby_scan_heredoc_start E s l =
     (let l = advance E l in
      if lookahead E l \<noteq> ch CHR ''<'' then Some (False, s, l)
      else
        let l = advance E l;
            indented = (lookahead E l = ch CHR ''-'' \<or> lookahead E l = ch CHR ''~'');
            l = (if indented then advance E l else l) in
        do { (h, l) \<leftarrow> ruby_scan_heredoc_word E
               \<lparr>hd_word = [], end_word_indentation_allowed = indented, hd_interpolation = False, started = False\<rparr> l;
             Some (if hd_word h = [] then (False, s, l)
                   else (True, s\<lparr>open_heredocs := open_heredocs s @ [h]\<rparr>, set_symbol HEREDOC_START l)) })"

definition ruby_scan_start :: "'l env \<Rightarrow> (ruby_token \<Rightarrow> bool) \<Rightarrow> ruby_scanner \<times> 'l ruby_lexer \<Rightarrow> 'l ruby_result option" where
  "ruby_scan_start E v = (\<lambda>(s, l).
     if v STRING_START then
       if lookahead E l = ch CHR ''<'' then ruby_scan_heredoc_start E s l
       else
         (case ruby_scan_open_delimiter E v s ruby_new_literal l of
            (True, x, l) \<Rightarrow> Some (True, ruby_push_literal x s, set_symbol (lit_type x) l)
          | (False, x, l) \<Rightarrow> Some (False, s, l))
     else Some (False, s, l))"

definition ruby_scan :: "'l env \<Rightarrow> (ruby_token \<Rightarrow> bool) \<Rightarrow> ruby_scanner \<Rightarrow> 'l ruby_lexer \<Rightarrow> 'l ruby_result option" where
  "ruby_scan E v s l =
     (let s = s\<lparr>has_leading_whitespace := False\<rparr> in
      if \<not> v STRING_START \<and> (v STRING_CONTENT \<or> v STRING_END) \<and> literal_stack s \<noteq> [] then ruby_scan_literal_content E s l
      else if \<not> v STRING_START \<and> (v HEREDOC_CONTENT \<or> v HEREDOC_BODY_END) \<and> open_heredocs s \<noteq> []
      then ruby_scan_heredoc_content E s l
      else
        do { (b, s, l) \<leftarrow> ruby_scan_whitespace E v s (set_symbol NONE l);
             if \<not> b then Some (False, s, l)
             else if result_symbol l \<noteq> NONE then Some (True, s, l)
             else
               then_return (and_then (ruby_scan_switch E v (s, l)) (ruby_scan_identifier E v))
                 (ruby_scan_start E v) })"

end
