(* ===== verification/Ruby_Scan.thy ===== *)
theory Ruby_Scan
  imports Ruby_Scanner
begin

text \<open>
  What the Ruby scanner promises: the scan returns, keeps the stack of literals and the
  queue of heredocs well formed and changes them as the reported token says; where
  literals and heredocs end; and what saving and restoring keeps.
\<close>

declare length_tl [simp del]

section \<open>The state\<close>

definition ruby_literal_starts :: "ruby_token set" where
  "ruby_literal_starts = {STRING_START, SYMBOL_START, SUBSHELL_START, REGEX_START, STRING_ARRAY_START, SYMBOL_ARRAY_START}"

lemma ruby_literal_starts_simps [simp]:
  "LINE_BREAK \<notin> ruby_literal_starts" "NO_LINE_BREAK \<notin> ruby_literal_starts" "SIMPLE_SYMBOL \<notin> ruby_literal_starts"
  "STRING_START \<in> ruby_literal_starts" "SYMBOL_START \<in> ruby_literal_starts" "SUBSHELL_START \<in> ruby_literal_starts"
  "REGEX_START \<in> ruby_literal_starts" "STRING_ARRAY_START \<in> ruby_literal_starts" "SYMBOL_ARRAY_START \<in> ruby_literal_starts"
  "HEREDOC_BODY_START \<notin> ruby_literal_starts" "STRING_CONTENT \<notin> ruby_literal_starts" "HEREDOC_CONTENT \<notin> ruby_literal_starts"
  "STRING_END \<notin> ruby_literal_starts" "HEREDOC_BODY_END \<notin> ruby_literal_starts" "HEREDOC_START \<notin> ruby_literal_starts"
  "FORWARD_SLASH \<notin> ruby_literal_starts" "BLOCK_AMPERSAND \<notin> ruby_literal_starts" "SPLAT_STAR \<notin> ruby_literal_starts"
  "UNARY_MINUS \<notin> ruby_literal_starts" "UNARY_MINUS_NUM \<notin> ruby_literal_starts" "BINARY_MINUS \<notin> ruby_literal_starts"
  "BINARY_STAR \<notin> ruby_literal_starts" "SINGLETON_CLASS_LEFT_ANGLE_LEFT_ANGLE \<notin> ruby_literal_starts"
  "HASH_KEY_SYMBOL \<notin> ruby_literal_starts" "IDENTIFIER_SUFFIX \<notin> ruby_literal_starts" "CONSTANT_SUFFIX \<notin> ruby_literal_starts"
  "HASH_SPLAT_STAR_STAR \<notin> ruby_literal_starts" "BINARY_STAR_STAR \<notin> ruby_literal_starts"
  "ELEMENT_REFERENCE_BRACKET \<notin> ruby_literal_starts" "SHORT_INTERPOLATION \<notin> ruby_literal_starts" "NONE \<notin> ruby_literal_starts"
  by (simp_all add: ruby_literal_starts_def)

text \<open>
  A literal without delimiters comes from a percent sign in front of a blank; its depth
  stays 1.
\<close>

definition ruby_literal_ok :: "literal \<Rightarrow> bool" where
  "ruby_literal_ok x \<longleftrightarrow> lit_type x \<in> ruby_literal_starts \<and> 0 \<le> open_delimiter x \<and> open_delimiter x < 128
     \<and> 0 \<le> close_delimiter x \<and> close_delimiter x < 128 \<and> (open_delimiter x = 0 \<longleftrightarrow> close_delimiter x = 0)
     \<and> (close_delimiter x = 0 \<longrightarrow> nesting_depth x = 1)"

definition ruby_wf :: "ruby_scanner \<Rightarrow> bool" where
  "ruby_wf s \<longleftrightarrow> list_all ruby_literal_ok (literal_stack s) \<and> list_all (\<lambda>h. hd_word h \<noteq> []) (open_heredocs s)"

definition ruby_same :: "ruby_scanner \<Rightarrow> ruby_scanner \<Rightarrow> bool" where
  "ruby_same s s' \<longleftrightarrow> literal_stack s' = literal_stack s \<and> open_heredocs s' = open_heredocs s"

text \<open>Only the depth of the innermost literal may differ.\<close>

definition ruby_depth_only :: "ruby_scanner \<Rightarrow> ruby_scanner \<Rightarrow> bool" where
  "ruby_depth_only s s' \<longleftrightarrow> open_heredocs s' = open_heredocs s \<and>
     (literal_stack s' = literal_stack s \<or>
      literal_stack s \<noteq> [] \<and> (\<exists>d. literal_stack s' = butlast (literal_stack s) @ [(last (literal_stack s))\<lparr>nesting_depth := d\<rparr>]))"

definition ruby_effect :: "ruby_token \<Rightarrow> ruby_scanner \<Rightarrow> ruby_scanner \<Rightarrow> bool" where
  "ruby_effect t s s' =
     (if t \<in> ruby_literal_starts then
        open_heredocs s' = open_heredocs s \<and> (\<exists>x. literal_stack s' = literal_stack s @ [x] \<and> lit_type x = t \<and> nesting_depth x = 1)
      else if t = STRING_END then
        open_heredocs s' = open_heredocs s \<and> literal_stack s \<noteq> [] \<and> literal_stack s' = butlast (literal_stack s)
      else if t = STRING_CONTENT then ruby_depth_only s s'
      else if t = HEREDOC_START then
        literal_stack s' = literal_stack s \<and> (\<exists>h. open_heredocs s' = open_heredocs s @ [h] \<and> \<not> started h)
      else if t = HEREDOC_BODY_START then
        literal_stack s' = literal_stack s \<and>
        (\<exists>h hs. open_heredocs s = h # hs \<and> \<not> started h \<and> open_heredocs s' = h\<lparr>started := True\<rparr> # hs)
      else if t = HEREDOC_BODY_END then
        literal_stack s' = literal_stack s \<and> open_heredocs s \<noteq> [] \<and> open_heredocs s' = tl (open_heredocs s)
      else ruby_same s s')"

definition ruby_may_report :: "(ruby_token \<Rightarrow> bool) \<Rightarrow> ruby_token \<Rightarrow> bool" where
  "ruby_may_report v t \<longleftrightarrow> v t
     \<or> t \<in> {STRING_CONTENT, STRING_END, SHORT_INTERPOLATION} \<and> (v STRING_CONTENT \<or> v STRING_END)
     \<or> t \<in> {HEREDOC_CONTENT, HEREDOC_BODY_END, SHORT_INTERPOLATION} \<and> (v HEREDOC_CONTENT \<or> v HEREDOC_BODY_END)
     \<or> t = UNARY_MINUS \<and> v UNARY_MINUS_NUM \<or> t = SIMPLE_SYMBOL \<and> v SYMBOL_START
     \<or> t = SYMBOL_START \<and> v SIMPLE_SYMBOL \<and> v STRING_START \<or> t = HEREDOC_START \<and> v STRING_START"

definition ruby_post :: "(ruby_token \<Rightarrow> bool) \<Rightarrow> ruby_scanner \<Rightarrow> 'l ruby_result \<Rightarrow> bool" where
  "ruby_post v s r \<longleftrightarrow> (case r of (b, s', l') \<Rightarrow>
     ruby_wf s' \<and> (if b then ruby_may_report v (result_symbol l') \<and> ruby_effect (result_symbol l') s s' else ruby_depth_only s s'))"

lemma ruby_wf_create: "ruby_wf ruby_create"
  by (simp add: ruby_wf_def ruby_create_def)

lemma ruby_same_depth: "ruby_same s s' \<Longrightarrow> ruby_depth_only s s'"
  by (simp add: ruby_same_def ruby_depth_only_def)

lemma ruby_wf_same: "ruby_wf s \<Longrightarrow> ruby_same s s' \<Longrightarrow> ruby_wf s'"
  by (simp add: ruby_wf_def ruby_same_def)

lemma ruby_same_whitespace [simp]:
  "ruby_same s (s'\<lparr>has_leading_whitespace := b\<rparr>) = ruby_same s s'" "ruby_same s s"
  by (simp_all add: ruby_same_def)

lemma ruby_same_trans: "ruby_same s s' \<Longrightarrow> ruby_same s' s'' \<Longrightarrow> ruby_same s s''"
  by (simp add: ruby_same_def)

text \<open>The tokens that leave the state alone.\<close>

abbreviation ruby_neutral :: "ruby_token \<Rightarrow> bool" where
  "ruby_neutral t \<equiv> t \<notin> ruby_literal_starts \<union> {STRING_END, STRING_CONTENT, HEREDOC_START, HEREDOC_BODY_START, HEREDOC_BODY_END}"

lemma ruby_neutral_effect: "ruby_neutral t \<Longrightarrow> ruby_effect t s s' \<longleftrightarrow> ruby_same s s'"
  by (simp add: ruby_effect_def)

lemma ruby_post_same:
  assumes "ruby_wf s" and "ruby_same s s'" and "b \<Longrightarrow> ruby_neutral (result_symbol l) \<and> ruby_may_report v (result_symbol l)"
  shows "ruby_post v s (b, s', l)"
  using assms by (auto simp: ruby_post_def ruby_neutral_effect intro: ruby_wf_same ruby_same_depth)

lemma ruby_post_fail: "ruby_wf s \<Longrightarrow> ruby_same s s' \<Longrightarrow> ruby_post v s (False, s', l)"
  by (simp add: ruby_post_same)

lemma ruby_may_report_valid: "v t \<Longrightarrow> ruby_may_report v t"
  by (simp add: ruby_may_report_def)

lemma ruby_post_neutral:
  assumes "ruby_wf s" and "ruby_same s s'" and "ruby_neutral t" and "ruby_may_report v t"
  shows "ruby_post v s (True, s', set_symbol t l)"
  by (rule ruby_post_same) (use assms in simp_all)

lemmas ruby_post_valid = ruby_post_neutral [OF _ _ _ ruby_may_report_valid]

section \<open>What each function does\<close>

context ts_lexer
begin

abbreviation ruby_left :: "'l ruby_lexer \<Rightarrow> nat" where
  "ruby_left l \<equiv> length (rest (raw l))"

lemma ruby_less: "lookahead E l \<noteq> 0 \<Longrightarrow> length (tl (rest (raw l))) < ruby_left l"
  using remaining_pos [of l] by (simp add: length_tl)

lemma ruby_left_tl [simp]: "length (tl xs) \<le> length xs"
  by (simp add: length_tl)

lemma ruby_opt_keeps [simp]:
  "result_symbol (ruby_opt E cs l) = result_symbol l" "ruby_left (ruby_opt E cs l) \<le> ruby_left l"
  by (simp_all add: ruby_opt_def)

lemma runs_ruby_whitespace:
  assumes "ruby_wf s" and "result_symbol l = NONE"
  shows "runs (ruby_scan_whitespace E v s l) (\<lambda>(b, s', l').
     if b \<and> result_symbol l' = NONE then ruby_same s s' else ruby_post v s (b, s', l'))"
  unfolding ruby_scan_whitespace_def
proof (rule runs_c_loop [where m = "\<lambda>(n, s', l'). ruby_left l'" and I = "\<lambda>(n, s', l'). ruby_same s s' \<and> result_symbol l' = NONE \<and> (n \<longrightarrow> v LINE_BREAK)"], goal_cases)
  case (2 x)
  obtain n s' l' where x: "x = (n, s', l')" by (cases x)
  with 2 have I: "ruby_same s s'" "result_symbol l' = NONE" "n \<Longrightarrow> v LINE_BREAK" by auto
  have less: "length (tl (rest (raw l'))) < ruby_left l'" "length (tl (tl (rest (raw l')))) < ruby_left l'"
      "length (tl (tl (tl (rest (raw l'))))) < ruby_left l'" if "lookahead E l' \<noteq> 0"
    using ruby_less [OF that] by (auto simp: length_tl)
  have start: "case ruby_start_body s' l' of (b, s', l') \<Rightarrow>
      if b \<and> result_symbol l' = NONE then ruby_same s s' else ruby_post v s (b, s', l')"
    if "open_heredocs s \<noteq> []" "\<not> started (hd (open_heredocs s))" "v HEREDOC_BODY_START"
    using that assms(1) I(1)
    by (cases "open_heredocs s")
      (auto simp: ruby_post_def ruby_start_body_def ruby_wf_def ruby_same_def ruby_effect_def ruby_may_report_def)
  have break: "ruby_post v s (True, s', set_symbol LINE_BREAK l'')" if "v LINE_BREAK" for l''
    by (rule ruby_post_same) (use assms I that in \<open>auto simp: ruby_may_report_def\<close>)
  have fail: "ruby_post v s (False, s'', l'')" if "ruby_same s s''" for s'' l''
    by (rule ruby_post_fail [OF assms(1) that])
  show ?case
    unfolding x ruby_whitespace_step_def prod.case Let_def ruby_skip_def
    by (intro runs_ifI; use I less start in \<open>auto simp: break fail\<close>)
qed (use assms in auto)

lemma ruby_scan_operator_keeps: "result_symbol (snd (ruby_scan_operator E l)) = result_symbol l"
  by (simp add: ruby_scan_operator_def Let_def if_distrib [of snd] if_distrib [of result_symbol] cong: if_cong split del: if_split)

lemma is_iden_char_0 [simp]: "\<not> is_iden_char 0"
  by (simp add: is_iden_char_def NON_IDENTIFIER_CHARS_def)

lemma runs_ruby_symbol_identifier:
  "runs (ruby_scan_symbol_identifier E l) (\<lambda>(b, l'). result_symbol l' = result_symbol l)"
proof -
  have tail: "runs (do { l \<leftarrow> advance_while E is_iden_char l1;
             let l = ruby_opt E ''?!'' l in
             if lookahead E l = ch CHR ''='' then
               let l = advance E (mark_end E l) in
               Some (True, if lookahead E l \<noteq> ch CHR ''>'' then mark_end E l else l)
             else Some (True, l) }) (\<lambda>(b, l'). result_symbol l' = result_symbol l)"
    if "result_symbol l1 = result_symbol l" for l1
    unfolding runs_bind Let_def by (rule wp_while_le(1)) (use that in \<open>simp_all\<close>)
  have op: "runs (let (ok, l) = (if is_iden_char (lookahead E l0) then (True, advance E l0) else ruby_scan_operator E l0) in
        if \<not> ok then Some (False, l)
        else do { l \<leftarrow> advance_while E is_iden_char l;
             let l = ruby_opt E ''?!'' l in
             if lookahead E l = ch CHR ''='' then
               let l = advance E (mark_end E l) in
               Some (True, if lookahead E l \<noteq> ch CHR ''>'' then mark_end E l else l)
             else Some (True, l) }) (\<lambda>(b, l'). result_symbol l' = result_symbol l)"
    if "result_symbol l0 = result_symbol l" for l0
  proof -
    obtain ok l1 where p: "(if is_iden_char (lookahead E l0) then (True, advance E l0) else ruby_scan_operator E l0) = (ok, l1)" by fastforce
    have "result_symbol l1 = result_symbol l"
      using p ruby_scan_operator_keeps [of l0] that by (auto split: if_splits)
    with tail [OF this] show ?thesis unfolding p Let_def [of "(ok, l1)"] prod.case by (intro runs_ifI) simp_all
  qed
  show ?thesis
    unfolding ruby_scan_symbol_identifier_def Let_def [of "if lookahead E l = ch CHR ''@'' then _ else _"] by (rule op) simp
qed

text \<open>Whatever opens a literal gives it a type that may be reported and delimiters that fit.\<close>

lemma ruby_delimiters_ascii:
  "list_all (\<lambda>c. 0 < c \<and> c < 128) ruby_unbalanced" "list_all (\<lambda>(c, d). 0 < c \<and> c < 128 \<and> 0 < d \<and> d < 128) ruby_brackets"
  by (simp_all add: ruby_unbalanced_def ruby_brackets_def)

lemma ruby_percent_delimiter_ok:
  assumes "ruby_percent_delimiter E v x l = (True, y, l')" and "nesting_depth x = 1" and "open_delimiter x = 0" and "close_delimiter x = 0"
    and "lit_type x \<in> ruby_literal_starts"
  shows "ruby_literal_ok y \<and> lit_type y = lit_type x \<and> nesting_depth y = 1"
proof -
  let ?c = "lookahead E l"
  have ok: "ruby_literal_ok (x\<lparr>open_delimiter := a, close_delimiter := b\<rparr>)" if "0 < a" "a < 128" "0 < b" "b < 128" for a b
    using assms(2,5) that by (auto simp: ruby_literal_ok_def)
  show ?thesis
  proof (cases "map_of ruby_brackets ?c")
    case (Some cl)
    then have "0 < ?c" "?c < 128" "0 < cl" "cl < 128" using ruby_delimiters_ascii(2) map_of_SomeD [OF Some] by (auto simp: list_all_iff)
    with Some assms(1,2) ok show ?thesis by (auto simp: ruby_percent_delimiter_def Let_def)
  next
    case None
    have "ruby_literal_ok x" using assms(2-5) by (simp add: ruby_literal_ok_def)
    moreover have "ruby_literal_ok (x\<lparr>open_delimiter := ?c, close_delimiter := ?c\<rparr>)" if "?c \<in> set ruby_unbalanced"
      using that ruby_delimiters_ascii(1) by (intro ok) (auto simp: list_all_iff)
    ultimately show ?thesis
      using assms(1,2) unfolding ruby_percent_delimiter_def Let_def None option.case
      by (simp only: split: if_split_asm) auto
  qed
qed

lemma ruby_open_delimiter_ok:
  assumes "ruby_scan_open_delimiter E v s ruby_new_literal l = (True, y, l')" and "v STRING_START"
  shows "ruby_literal_ok y \<and> nesting_depth y = 1 \<and> lit_type y \<in> ruby_literal_starts \<and> ruby_may_report v (lit_type y)"
proof -
  let ?c = "lookahead E l"
  let ?opened = "\<lambda>t i. ruby_new_literal\<lparr>lit_type := t, open_delimiter := ?c, close_delimiter := ?c, lit_interpolation := i\<rparr>"
  have opened: "\<And>t i. y = ?opened t i \<Longrightarrow> t \<in> ruby_literal_starts \<Longrightarrow> v t \<Longrightarrow> 0 < ?c \<Longrightarrow> ?c < 128 \<Longrightarrow> ?thesis"
    by (simp add: ruby_new_literal_def ruby_literal_ok_def ruby_may_report_valid)
  have percent: ?thesis
    if "ruby_percent_delimiter E v (ruby_new_literal\<lparr>lit_type := t, lit_interpolation := i\<rparr>) l1 = (True, y, l')"
      "t \<in> ruby_literal_starts" "v t \<or> t = SYMBOL_START \<and> v SIMPLE_SYMBOL" for t i l1
  proof -
    have "ruby_literal_ok y" "lit_type y = t" "nesting_depth y = 1"
      using ruby_percent_delimiter_ok [OF that(1)] that(2) by (simp_all add: ruby_new_literal_def)
    moreover have "ruby_may_report v t" using that(3) assms(2) by (auto simp: ruby_may_report_def)
    ultimately show ?thesis using that(2) by simp
  qed
  note scan = assms(1) [unfolded ruby_scan_open_delimiter_def Let_def]
  consider "?c = ch CHR 0x22" | "?c = ch CHR 0x27" | "?c = ch CHR ''`''" | "?c = ch CHR ''/''" | "?c = ch CHR ''%''"
    | "?c \<notin> {ch CHR 0x22, ch CHR 0x27, ch CHR ''`'', ch CHR ''/'', ch CHR ''%''}" by blast
  then show ?thesis
  proof cases
    case 1
    with scan assms(2) show ?thesis by (intro opened [of True STRING_START]) auto
  next
    case 2
    with scan assms(2) show ?thesis by (intro opened [of False STRING_START]) auto
  next
    case 3
    with scan show ?thesis by (intro opened [of True SUBSHELL_START]) (auto split: if_split_asm)
  next
    case 4
    with scan show ?thesis by (intro opened [of True REGEX_START]) (auto split: if_split_asm)
  next
    case 5
    let ?d = "lookahead E (advance E l)"
    show ?thesis
    proof (cases "map_of ruby_percent_kinds ?d")
      case None
      with 5 scan have "ruby_percent_delimiter E v (ruby_new_literal\<lparr>lit_type := STRING_START, lit_interpolation := True\<rparr>) (advance E l) = (True, y, l')"
        by (simp split: if_split_asm)
      from percent [OF this] assms(2) show ?thesis by simp
    next
      case (Some k)
      obtain u t i where k: "k = (u, t, i)" by (cases k)
      have "t \<in> ruby_literal_starts" "u = t \<or> t = SYMBOL_START \<and> u = SIMPLE_SYMBOL"
        using map_of_SomeD [OF Some] by (auto simp: k ruby_percent_kinds_def)
      moreover from Some 5 scan have "v u" "ruby_percent_delimiter E v (ruby_new_literal\<lparr>lit_type := t, lit_interpolation := i\<rparr>) (advance E (advance E l)) = (True, y, l')"
        by (simp_all add: k split: if_split_asm)
      ultimately show ?thesis using percent by blast
    qed
  next
    case 6
    with scan show ?thesis by simp
  qed
qed

lemma runs_ruby_read_word:
  assumes "\<And>l. p l \<Longrightarrow> rest (raw l) \<noteq> []"
  shows "runs (ruby_read_word E p l) (\<lambda>(w, l'). result_symbol l' = result_symbol l)"
  unfolding ruby_read_word_def
proof (rule runs_while_option [where m = "\<lambda>(w, l'). ruby_left l'" and I = "\<lambda>(w, l'). result_symbol l' = result_symbol l"], goal_cases)
  case (2 x)
  obtain w l' where "x = (w, l')" by (cases x)
  with 2 assms [of l'] show ?case by (cases "rest (raw l')") auto
qed auto

lemma runs_ruby_heredoc_word:
  "runs (ruby_scan_heredoc_word E h l) (\<lambda>(h', l'). started h' = started h)"
proof -
  have "runs (ruby_read_word E (\<lambda>l. lookahead E l \<noteq> c \<and> \<not> eof E l) l1) (\<lambda>_. True)" for c l1
    by (rule runs_weaken [OF runs_ruby_read_word]) auto
  moreover have "runs (ruby_read_word E (\<lambda>l. iswalnum E (lookahead E l) \<or> lookahead E l = ch CHR ''_'') l1) (\<lambda>_. True)" for l1
    by (rule runs_weaken [OF runs_ruby_read_word]) (auto intro!: not_eof)
  ultimately show ?thesis
    by (auto simp: ruby_scan_heredoc_word_def Let_def elim!: runs_weaken)
qed

lemma ruby_short_keeps:
  "ruby_left (snd (ruby_short_global E l)) \<le> ruby_left l" "result_symbol (snd (ruby_short_global E l)) = result_symbol l"
  "ruby_left (snd (ruby_short_instance E l)) \<le> ruby_left l" "result_symbol (snd (ruby_short_instance E l)) = result_symbol l"
  by (simp_all add: ruby_short_global_def ruby_short_instance_def Let_def)

lemma ruby_short_interpolation_keeps:
  assumes "ruby_scan_short_interpolation E has t l = (b, l')"
  shows "ruby_left l' \<le> ruby_left l" and "\<not> b \<Longrightarrow> result_symbol l' = result_symbol l"
    and "b \<Longrightarrow> if has then result_symbol l' = t else result_symbol l' = SHORT_INTERPOLATION"
proof -
  let ?m = "advance E (mark_end E l)"
  obtain c l1 where p: "(if lookahead E l mod 256 = ch CHR ''$'' then ruby_short_global E ?m else ruby_short_instance E ?m) = (c, l1)"
    by fastforce
  have l1: "ruby_left l1 \<le> ruby_left l" "result_symbol l1 = result_symbol l"
    using ruby_short_keeps [of ?m] p by (auto simp: length_tl split: if_splits)
  have "ruby_left l' \<le> ruby_left l \<and> (\<not> b \<longrightarrow> result_symbol l' = result_symbol l)
      \<and> (b \<longrightarrow> (if has then result_symbol l' = t else result_symbol l' = SHORT_INTERPOLATION))"
    using assms l1 unfolding ruby_scan_short_interpolation_def Let_def p prod.case by (auto split: if_split_asm)
  then show "ruby_left l' \<le> ruby_left l" "\<not> b \<Longrightarrow> result_symbol l' = result_symbol l"
    "b \<Longrightarrow> if has then result_symbol l' = t else result_symbol l' = SHORT_INTERPOLATION" by blast+
qed

lemma runs_ruby_heredoc_char:
  assumes "ruby_wf s" and "v HEREDOC_CONTENT \<or> v HEREDOC_BODY_END" and "rest (raw l) \<noteq> []"
  shows "runs (ruby_heredoc_char E s has l)
     (case_flow (\<lambda>(n, look, has', l'). n = 0 \<and> ruby_left l' < ruby_left l) (ruby_post v s))"
proof -
  let ?Q = "case_flow (\<lambda>(n :: nat, look :: bool, has' :: bool, l'). n = 0 \<and> ruby_left l' < ruby_left l) (ruby_post v s)"
  have less: "length (tl (rest (raw l))) < ruby_left l" using assms(3) by (cases "rest (raw l)") auto
  have tok: "ruby_post v s (True, s, l')" if "result_symbol l' = HEREDOC_CONTENT \<or> result_symbol l' = SHORT_INTERPOLATION" for l'
    by (rule ruby_post_same) (use assms that in \<open>auto simp: ruby_may_report_def\<close>)
  have stop: "ruby_post v s (if has then (True, s, set_symbol HEREDOC_CONTENT l') else (False, s, l'))" for l'
    by (simp add: tok ruby_post_fail [OF assms(1)])
  have short: "runs (case ruby_scan_short_interpolation E has HEREDOC_CONTENT l1 of
      (True, l) \<Rightarrow> Some (Return (True, s, l)) | (False, l) \<Rightarrow> Some (Next (0, False, has, l))) ?Q"
    if "ruby_left l1 < ruby_left l" for l1
  proof -
    obtain b l2 where p: "ruby_scan_short_interpolation E has HEREDOC_CONTENT l1 = (b, l2)" by fastforce
    from ruby_short_interpolation_keeps [OF p] that tok [of l2] show ?thesis
      unfolding p by (cases b) (auto split: if_splits)
  qed
  have opt: "ruby_left (ruby_opt E cs (advance E l)) < ruby_left l" for cs
    using ruby_opt_keeps(2) [of cs "advance E l"] less by simp
  have newline: "ruby_left (if lookahead E l = ch CHR 0x0D then ruby_opt E [CHR 0x0A] (advance E l) else advance E l) < ruby_left l" (is "ruby_left ?l < _")
    using opt less by simp
  show ?thesis
    unfolding ruby_heredoc_char_def Let_def
  proof (intro runs_ifI, goal_cases)
    case 3
    show ?case by (rule short) (use less in simp)
  next
    case 4
    show ?case
      unfolding runs_bind
    proof (rule wp_while_le(1), goal_cases)
      case (2 l')
      with newline have "ruby_left l' < ruby_left l" by linarith
      then show ?case unfolding runs_Some flow.case prod.case rest_ops by (rule conjI [OF refl])
    qed simp
  qed (use less in \<open>simp_all add: stop\<close>)
qed

lemma runs_ruby_heredoc_content:
  assumes "ruby_wf s" and "v HEREDOC_CONTENT \<or> v HEREDOC_BODY_END" and "open_heredocs s \<noteq> []"
  shows "runs (ruby_scan_heredoc_content E s l) (ruby_post v s)"
proof -
  let ?w = "hd_word (hd (open_heredocs s))"
  have w: "?w \<noteq> []" using assms(1,3) by (cases "open_heredocs s") (auto simp: ruby_wf_def)
  have fin: "ruby_post v s (ruby_heredoc_done s has l')" for has l'
    using assms
    by (cases "open_heredocs s")
      (auto simp: ruby_heredoc_done_def ruby_post_def ruby_effect_def ruby_may_report_def ruby_wf_def ruby_same_def)
  have "runs (c_loop (ruby_heredoc_step E s) (0, True, False, l)) (ruby_post v s)"
  proof (rule runs_c_loop [where m = "\<lambda>(n, look, has, l'). ruby_left l'" and I = "\<lambda>(n, look, has, l'). n \<le> length ?w"], goal_cases)
    case (2 x)
    obtain n look has l' where x: "x = (n, look, has, l')" by (cases x)
    with 2 have n: "n \<le> length ?w" by simp
    have first: "runs (ruby_heredoc_word_end E s x) (case_flow (\<lambda>(n, look, has, l''). n < length ?w \<and> ruby_left l'' \<le> ruby_left l') (ruby_post v s))"
      unfolding x ruby_heredoc_word_end_def prod.case
      by (intro runs_ifI) (use n w in \<open>auto simp: fin intro!: wp_while_le(1)\<close>)
    have char: "runs (ruby_heredoc_char E s has'' l'')
        (case_flow (\<lambda>(n, look, has, l''). n \<le> length ?w \<and> ruby_left l'' < ruby_left l') (ruby_post v s))"
      if "ruby_left l'' \<le> ruby_left l'" "rest (raw l'') \<noteq> []" for has'' l''
      by (rule runs_weaken [OF runs_ruby_heredoc_char [where v = v, OF assms(1,2) that(2)]]) (use that in \<open>auto split: flow.splits\<close>)
    have "runs (ruby_heredoc_step E s x) (case_flow (\<lambda>(n, look, has, l''). n \<le> length ?w \<and> ruby_left l'' < ruby_left l') (ruby_post v s))"
      unfolding ruby_heredoc_step_def
    proof (rule runs_and_then_inv [OF first], goal_cases)
      case (1 y)
      obtain n' look' has' l'' where y: "y = (n', look', has', l'')" by (cases y)
      have less: "length (tl (rest (raw l''))) < ruby_left l'" if "rest (raw l'') \<noteq> []"
        using that 1 y by (cases "rest (raw l'')") auto
      show ?case
        unfolding y prod.case Let_def
        by (intro runs_ifI) (use 1 y less fin char in \<open>auto\<close>)
    qed
    then show ?case unfolding x by (rule runs_weaken) (auto split: flow.splits)
  qed simp
  then show ?thesis using assms(3) by (simp add: ruby_scan_heredoc_content_def)
qed

lemma ruby_set_depth_wf:
  assumes "ruby_wf s" and "literal_stack s \<noteq> []" and "close_delimiter (last (literal_stack s)) = 0 \<longrightarrow> d = 1"
  shows "ruby_wf (ruby_set_depth d s)" and "ruby_depth_only s (ruby_set_depth d s)"
    and "d = nesting_depth (last (literal_stack s)) \<Longrightarrow> ruby_set_depth d s = s"
proof -
  have split: "literal_stack s = butlast (literal_stack s) @ [last (literal_stack s)]" using assms(2) by simp
  then have "list_all ruby_literal_ok (butlast (literal_stack s))" "ruby_literal_ok (last (literal_stack s))"
    using assms(1,2) by (auto simp: ruby_wf_def list_all_iff dest: in_set_butlastD)
  with assms show "ruby_wf (ruby_set_depth d s)" by (simp add: ruby_wf_def ruby_set_depth_def ruby_literal_ok_def)
  show "ruby_depth_only s (ruby_set_depth d s)" using assms(2) by (auto simp: ruby_depth_only_def ruby_set_depth_def)
  show "ruby_set_depth d s = s" if "d = nesting_depth (last (literal_stack s))"
    using split that by (simp add: ruby_set_depth_def)
qed

lemma runs_ruby_literal_content:
  assumes "ruby_wf s" and "v STRING_CONTENT \<or> v STRING_END" and "literal_stack s \<noteq> []"
  shows "runs (ruby_scan_literal_content E s l) (ruby_post v s)"
proof -
  let ?x = "last (literal_stack s)"
  have ok: "ruby_literal_ok ?x" using assms(1,3) by (auto simp: ruby_wf_def list_all_iff)
  note wf = ruby_set_depth_wf [OF assms(1,3)]
  have content: "ruby_post v s (True, ruby_set_depth d s, set_symbol STRING_CONTENT l')" if "close_delimiter ?x = 0 \<longrightarrow> d = 1" for d l'
    using wf [OF that] assms(2) by (auto simp: ruby_post_def ruby_effect_def ruby_may_report_def)
  have fail: "ruby_post v s (False, ruby_set_depth d s, l')" if "close_delimiter ?x = 0 \<longrightarrow> d = 1" for d l'
    using wf [OF that] by (simp add: ruby_post_def)
  have wf': "ruby_wf (s\<lparr>literal_stack := butlast (literal_stack s)\<rparr>)"
    using assms(1) by (auto simp: ruby_wf_def list_all_iff dest: in_set_butlastD)
  have fin: "ruby_post v s (True, s\<lparr>literal_stack := butlast (literal_stack s)\<rparr>, mark_end E (set_symbol STRING_END l'))" for l'
    using wf' assms(2,3) by (auto simp: ruby_post_def ruby_effect_def ruby_may_report_def)
  let ?I = "\<lambda>(has, d, l' :: 'l ruby_lexer). (close_delimiter ?x = 0 \<longrightarrow> d = 1) \<and> (has \<or> d = nesting_depth ?x)"
  have "runs (c_loop (ruby_literal_step E s) (False, nesting_depth ?x, l)) (ruby_post v s)"
  proof (rule runs_c_loop [where m = "\<lambda>(has, d, l'). ruby_left l'" and I = ?I], goal_cases)
    case 1
    show ?case using ok by (simp add: ruby_literal_ok_def)
  next
    case (2 y)
    obtain has d l' where y: "y = (has, d, l')" by (cases y)
    with 2 have d: "close_delimiter ?x = 0 \<longrightarrow> d = 1" and h: "has \<or> d = nesting_depth ?x" by auto
    let ?Q = "case_flow (\<lambda>z. ?I z \<and> (case z of (has, d, l'') \<Rightarrow> ruby_left l'' < ruby_left l')) (ruby_post v s)"
    have less: "length (tl (rest (raw l'))) < ruby_left l'" if "rest (raw l') \<noteq> []"
      using that by (cases "rest (raw l')") auto
    have ne: "rest (raw l') \<noteq> []" if "lookahead E l' \<noteq> 0" by (rule not_eof [OF that])
    have close: "runs (ruby_literal_close E s (has, d, l')) ?Q" if "lookahead E l' = close_delimiter ?x"
    proof (cases "d = 1")
      case True
      have end_ok: "runs (if lit_type ?x = REGEX_START then advance_while E (iswlower E) (advance E (mark_end E l')) else Some (advance E (mark_end E l'))) (\<lambda>_. True)"
        by (intro runs_ifI wp_while_le(1)) simp_all
      show ?thesis
        unfolding ruby_literal_close_def prod.case Let_def if_P [OF True]
      proof (intro runs_ifI, goal_cases)
        case 1
        show ?case using content [OF d] by simp
      next
        case 2
        show ?case unfolding runs_bind runs_Some flow.case by (rule runs_weaken [OF end_ok]) (rule fin)
      qed
    next
      case False
      with d that have "lookahead E l' \<noteq> 0" by auto
      from less [OF ne [OF this]] False d show ?thesis
        unfolding ruby_literal_close_def prod.case Let_def if_not_P [OF False] by simp
    qed
    have short: "runs (case ruby_scan_short_interpolation E has STRING_CONTENT l1 of
        (True, l) \<Rightarrow> Some (Return (True, ruby_set_depth d s, l)) | (False, l) \<Rightarrow> Some (Next (True, d, l))) ?Q"
      if "ruby_left l1 < ruby_left l'" for l1
    proof -
      obtain b l2 where p: "ruby_scan_short_interpolation E has STRING_CONTENT l1 = (b, l2)" by fastforce
      note k = ruby_short_interpolation_keeps [OF p]
      show ?thesis
      proof (cases b)
        case True
        show ?thesis
        proof (cases has)
          case True
          with k(3) \<open>b\<close> have "set_symbol STRING_CONTENT l2 = l2" by simp
          with content [OF d, of l2] \<open>b\<close> show ?thesis unfolding p by simp
        next
          case False
          with h wf(3) [OF d] have "ruby_set_depth d s = s" by simp
          moreover have "ruby_post v s (True, s, l2)"
            by (rule ruby_post_same) (use False k(3) \<open>b\<close> assms in \<open>auto simp: ruby_may_report_def\<close>)
          ultimately show ?thesis using \<open>b\<close> unfolding p by simp
        qed
      next
        case False
        with k(1) that d show ?thesis unfolding p by simp
      qed
    qed
    have "runs (ruby_literal_step E s y) ?Q"
      unfolding y ruby_literal_step_def prod.case Let_def
    proof (intro runs_ifI, goal_cases)
      case 2
      show ?case by (rule close [OF 2(2)])
    next
      case 3
      then have "lookahead E l' \<noteq> 0" "close_delimiter ?x \<noteq> 0" using ok by (auto simp: ruby_literal_ok_def)
      with less ne show ?case by auto
    next
      case 5
      show ?case by (rule short) (use 5 less ne in simp)
    next
      case 7
      with less ne d have "length (tl (tl (rest (raw l')))) < ruby_left l'" by (auto simp: length_tl)
      with d show ?case by simp
    qed (use content [OF d] fail [OF d] less d in auto)
    then show ?case unfolding y by (rule runs_weaken) (auto split: flow.splits)
  qed
  then show ?thesis using assms(3) by (simp add: ruby_scan_literal_content_def)
qed

lemma ruby_star_post:
  assumes "ruby_wf s0" and "ruby_same s0 s" and "ruby_neutral binary" and "ruby_neutral splat"
  shows "ruby_post v s0 (ruby_star E v binary splat s l)"
  using ruby_post_valid [OF assms(1-3)] ruby_post_valid [OF assms(1,2,4)] ruby_post_fail [OF assms(1,2)]
  by (auto simp: ruby_star_def)

lemma runs_ruby_switch:
  assumes "ruby_wf s0" and "ruby_same s0 s"
  shows "runs (ruby_scan_switch E v (s, l)) (case_flow (\<lambda>y. y = (s, l)) (ruby_post v s0))"
proof -
  note neutral = ruby_post_neutral [OF assms, where v = v]
  note valid = ruby_post_valid [OF assms, where v = v]
  note fail = ruby_post_fail [OF assms, of v]
  let ?Q = "case_flow (\<lambda>y. y = (s, l)) (ruby_post v s0)"
  have fin: "runs (case r of Some r \<Rightarrow> Some (Return r) | None \<Rightarrow> Some (Next (s, l))) ?Q"
    if "\<And>x. r = Some x \<Longrightarrow> ruby_post v s0 x" for r
    using that by (auto split: option.splits)
  have amp: "ruby_post v s0 x" if "ruby_scan_ampersand E v s l = Some x" for x
    using that by (auto simp: ruby_scan_ampersand_def Let_def valid fail split: if_splits)
  have angle: "ruby_post v s0 x" if "ruby_scan_angle E v s l = Some x" for x
    using that by (auto simp: ruby_scan_angle_def Let_def valid fail split: if_splits)
  have star: "ruby_post v s0 x" if "ruby_scan_star E v s l = Some x" for x
    using that ruby_star_post [OF assms, of BINARY_STAR SPLAT_STAR] ruby_star_post [OF assms, of BINARY_STAR_STAR HASH_SPLAT_STAR_STAR]
    by (auto simp: ruby_scan_star_def Let_def fail split: if_splits)
  have unary: "ruby_may_report v UNARY_MINUS" if "v UNARY_MINUS_NUM" using that by (simp add: ruby_may_report_def)
  have minus: "ruby_post v s0 x" if "ruby_scan_minus E v s l = Some x" for x
    using that by (auto simp: ruby_scan_minus_def Let_def valid neutral unary fail split: if_splits)
  have bracket: "ruby_post v s0 x" if "ruby_scan_bracket E v s l = Some x" for x
    using that by (auto simp: ruby_scan_bracket_def valid split: if_splits)
  have push: "ruby_post v s0 (True, ruby_push_literal x s, set_symbol SYMBOL_START l')"
    if "v SYMBOL_START" "ruby_literal_ok x" "lit_type x = SYMBOL_START" "nesting_depth x = 1" for x l'
    using that assms by (auto simp: ruby_post_def ruby_push_literal_def ruby_effect_def ruby_may_report_valid ruby_wf_def ruby_same_def)
  have symbol: "runs (do { (b, l) \<leftarrow> ruby_scan_symbol_identifier E l';
      Some (if b then (True, s, set_symbol SIMPLE_SYMBOL l) else (False, s, l)) }) (ruby_post v s0)" if "v SYMBOL_START" for l'
    unfolding runs_bind
    by (rule runs_weaken [OF runs_ruby_symbol_identifier]) (use that in \<open>auto simp: fail ruby_may_report_def intro!: neutral\<close>)
  have colon: "runs r (ruby_post v s0)" if "ruby_scan_colon E v s l = Some r" for r
    using that
    by (auto simp: ruby_scan_colon_def Let_def ruby_new_literal_def ruby_literal_ok_def push symbol split: if_splits simp del: runs_bind)
  show ?thesis
    unfolding ruby_scan_switch_def prod.case Let_def
    by (intro runs_ifI; (rule fin)?) (auto simp: amp angle star minus bracket split: option.splits intro: runs_weaken [OF colon])
qed

lemma runs_ruby_identifier:
  assumes "ruby_wf s0" and "ruby_same s0 s"
  shows "runs (ruby_scan_identifier E v (s, l)) (case_flow (\<lambda>y. y = (s, l)) (ruby_post v s0))"
proof -
  note valid = ruby_post_valid [OF assms, where v = v]
  note fail = ruby_post_fail [OF assms, of v]
  show ?thesis
    unfolding ruby_scan_identifier_def prod.case Let_def
    by (intro runs_ifI) (auto simp: valid fail intro!: wp_while_le(1))
qed

lemma runs_ruby_start:
  assumes "ruby_wf s0" and "ruby_same s0 s"
  shows "runs (ruby_scan_start E v (s, l)) (ruby_post v s0)"
proof (cases "v STRING_START")
  case False
  then show ?thesis by (simp add: ruby_scan_start_def ruby_post_fail [OF assms])
next
  case True
  have new: "ruby_post v s0 (True, s\<lparr>open_heredocs := open_heredocs s @ [h]\<rparr>, set_symbol HEREDOC_START l')"
    if "hd_word h \<noteq> []" "\<not> started h" for h l'
    using that assms True by (auto simp: ruby_post_def ruby_wf_def ruby_same_def ruby_effect_def ruby_may_report_def)
  have heredoc: "runs (ruby_scan_heredoc_start E s l) (ruby_post v s0)"
    unfolding ruby_scan_heredoc_start_def Let_def
    by (intro runs_ifI) (auto simp: ruby_post_fail [OF assms] intro!: runs_weaken [OF runs_ruby_heredoc_word] new)
  obtain b x l1 where p: "ruby_scan_open_delimiter E v s ruby_new_literal l = (b, x, l1)" by (cases "ruby_scan_open_delimiter E v s ruby_new_literal l")
  have lit: "ruby_post v s0 (True, ruby_push_literal x s, set_symbol (lit_type x) l1)" if b
    using ruby_open_delimiter_ok [of v s l x l1] p that True assms
    by (auto simp: ruby_post_def ruby_push_literal_def ruby_effect_def ruby_wf_def ruby_same_def)
  show ?thesis
    using True heredoc lit by (cases b) (auto simp: ruby_scan_start_def p ruby_post_fail [OF assms])
qed

lemma runs_ruby_scan:
  assumes "ruby_wf s"
  shows "runs (ruby_scan E v s l) (ruby_post v s)"
proof -
  let ?s = "s\<lparr>has_leading_whitespace := False\<rparr>"
  have wf: "ruby_wf ?s" using assms by (simp add: ruby_wf_def)
  have post: "ruby_post v s = ruby_post v ?s"
    by (simp add: fun_eq_iff ruby_post_def ruby_effect_def ruby_depth_only_def ruby_same_def)
  have tail: "runs (then_return (and_then (ruby_scan_switch E v (s', l')) (ruby_scan_identifier E v)) (ruby_scan_start E v)) (ruby_post v ?s)"
    if "ruby_same ?s s'" for s' l'
  proof (rule runs_then_return_inv [where I = "\<lambda>y. y = (s', l')"])
    show "runs (and_then (ruby_scan_switch E v (s', l')) (ruby_scan_identifier E v)) (case_flow (\<lambda>y. y = (s', l')) (ruby_post v ?s))"
      by (rule runs_and_then_inv [OF runs_ruby_switch [OF wf that]]) (use runs_ruby_identifier [OF wf that] in simp)
  qed (use runs_ruby_start [OF wf that] in simp)
  have white: "runs (do { (b, s, l) \<leftarrow> ruby_scan_whitespace E v ?s (set_symbol NONE l);
             if \<not> b then Some (False, s, l)
             else if result_symbol l \<noteq> NONE then Some (True, s, l)
             else then_return (and_then (ruby_scan_switch E v (s, l)) (ruby_scan_identifier E v)) (ruby_scan_start E v) }) (ruby_post v ?s)"
    unfolding runs_bind
  proof (rule runs_weaken [OF runs_ruby_whitespace [OF wf, of "set_symbol NONE l" v]], goal_cases)
    case (2 r)
    obtain b s' l' where r: "r = (b, s', l')" by (cases r)
    show ?case unfolding r prod.case by (intro runs_ifI tail) (use 2 r in auto)
  qed simp
  show ?thesis
    unfolding post ruby_scan_def Let_def
    by (intro runs_ifI white runs_ruby_literal_content runs_ruby_heredoc_content wf) simp_all
qed

end

section \<open>Properties\<close>

text \<open>C0.
  A scan of the Ruby scanner returns from every well-formed state. It reports a token that
  is valid, or one the checks in front of the content functions stand for; it keeps the
  state well formed; and the stack of literals and the queue of heredocs change as the
  reported token says: an opening pushes a literal of its own kind at depth 1,
  \<open>STRING_END\<close> removes the innermost, \<open>HEREDOC_START\<close> appends to the queue,
  \<open>HEREDOC_BODY_START\<close> marks its first entry and \<open>HEREDOC_BODY_END\<close> removes it. A scan
  that reports nothing can change the depth of the innermost literal only.
\<close>
theorem ruby_scan_stacks:
  assumes "ts_lexer E rest" and "ruby_wf s"
  shows "\<exists>b s' l'. ruby_scan E v s l = Some (b, s', l') \<and> ruby_wf s'
     \<and> (if b then ruby_may_report v (result_symbol l') \<and> ruby_effect (result_symbol l') s s' else ruby_depth_only s s')"
  using runs_tripleD [OF ts_lexer.runs_ruby_scan [OF assms, unfolded ruby_post_def]] by simp

theorem ruby_scan_stacks_witness:
  "ruby_wf ruby_create \<and> (\<exists>b s' l'. ruby_scan list_env (\<lambda>t. t = STRING_START) ruby_create (lex_string NONE '' %q(a(b)c)'')
      = Some (b, s', l') \<and> ruby_wf s'
     \<and> (if b then ruby_may_report (\<lambda>t. t = STRING_START) (result_symbol l') \<and> ruby_effect (result_symbol l') ruby_create s'
        else ruby_depth_only ruby_create s'))"
  by (rule conjI [OF ruby_wf_create ruby_scan_stacks [OF ts_lexer_list_env ruby_wf_create]])

end
