(* ===== verification/Ruby_Save.thy ===== *)
theory Ruby_Save
  imports Ruby_Scan
begin

text \<open>
  What saving a Ruby scanner keeps, how far it writes, and where the contents of literals
  and heredocs end.
\<close>

section \<open>Saving and restoring\<close>

definition ruby_view :: "ruby_scanner \<Rightarrow> literal list \<times> heredoc list" where
  "ruby_view s = (literal_stack s, open_heredocs s)"

text \<open>The fields that are saved as one byte fit into one.\<close>

definition ruby_small :: "ruby_scanner \<Rightarrow> bool" where
  "ruby_small s \<longleftrightarrow> list_all (\<lambda>x. unat (nesting_depth x) < 256) (literal_stack s)
     \<and> list_all (\<lambda>h. length (hd_word h) < 256) (open_heredocs s)"

definition ruby_saves :: "ruby_scanner \<Rightarrow> bool" where
  "ruby_saves s \<longleftrightarrow> ruby_wf s \<and> ruby_small s \<and> ruby_serialize s \<noteq> []
     \<and> length (ruby_serialize s) \<le> TREE_SITTER_SERIALIZATION_BUFFER_SIZE"

definition ruby_put_heredoc :: "heredoc \<Rightarrow> byte list" where
  "ruby_put_heredoc h =
     [bool_byte (end_word_indentation_allowed h), bool_byte (hd_interpolation h), bool_byte (started h),
      of_nat (length (hd_word h))] @ hd_word h"

lemma ruby_put_heredocs_Some:
  assumes "ruby_put_heredocs sz hs = Some bs"
  shows "bs = concat (map ruby_put_heredoc hs)" and "hs = [] \<or> sz + length bs \<le> TREE_SITTER_SERIALIZATION_BUFFER_SIZE + 1"
    and "length hs * 4 \<le> length bs"
  using assms
  by (induction sz hs arbitrary: bs rule: ruby_put_heredocs.induct)
    (auto simp: ruby_put_heredoc_def TREE_SITTER_SERIALIZATION_BUFFER_SIZE_def split: if_splits bind_splits)

lemma length_ruby_put_literals [simp]: "length (concat (map ruby_put_literal xs)) = 5 * length xs"
  by (induction xs) (simp_all add: ruby_put_literal_def)

lemma ruby_serialize_cases:
  assumes "ruby_serialize s \<noteq> []"
  shows "ruby_serialize s = of_nat (length (literal_stack s)) # concat (map ruby_put_literal (literal_stack s))
       @ of_nat (length (open_heredocs s)) # concat (map ruby_put_heredoc (open_heredocs s))"
    and "length (literal_stack s) < 256" and "length (open_heredocs s) < 256"
    and "length (ruby_serialize s) \<le> TREE_SITTER_SERIALIZATION_BUFFER_SIZE + 1"
proof -
  let ?n = "length (literal_stack s)"
  from assms have n: "?n * 5 + 2 < 1024"
    by (auto simp: ruby_serialize_def Let_def TREE_SITTER_SERIALIZATION_BUFFER_SIZE_def split: if_splits)
  from assms n obtain bs where bs: "ruby_put_heredocs (?n * 5 + 2) (open_heredocs s) = Some bs"
    by (auto simp: ruby_serialize_def Let_def split: if_splits option.splits)
  note put = ruby_put_heredocs_Some [OF bs]
  have eq: "ruby_serialize s = of_nat ?n # concat (map ruby_put_literal (literal_stack s)) @ of_nat (length (open_heredocs s)) # bs"
    using n bs by (simp add: ruby_serialize_def TREE_SITTER_SERIALIZATION_BUFFER_SIZE_def)
  with put(1) show "ruby_serialize s = of_nat (length (literal_stack s)) # concat (map ruby_put_literal (literal_stack s))
       @ of_nat (length (open_heredocs s)) # concat (map ruby_put_heredoc (open_heredocs s))" by simp
  show "?n < 256" using n by simp
  show "length (open_heredocs s) < 256" using put(2,3) by (auto simp: TREE_SITTER_SERIALIZATION_BUFFER_SIZE_def)
  show "length (ruby_serialize s) \<le> TREE_SITTER_SERIALIZATION_BUFFER_SIZE + 1"
    unfolding eq using put(1,2) n by (auto simp: TREE_SITTER_SERIALIZATION_BUFFER_SIZE_def)
qed

text \<open>
  Saving writes at most one byte more than the buffer holds, and four heredocs with long
  end words make it write that byte: the test in front of a heredoc counts two bytes besides
  the word, where four are written.
\<close>

lemma ruby_serialize_overrun:
  "\<exists>s. ruby_wf s \<and> ruby_small s \<and> length (ruby_serialize s) = TREE_SITTER_SERIALIZATION_BUFFER_SIZE + 1"
proof -
  let ?h = "\<lambda>n. \<lparr>hd_word = replicate n 65, end_word_indentation_allowed = False, hd_interpolation = True, started = False\<rparr>"
  let ?s = "ruby_create\<lparr>open_heredocs := [?h 251, ?h 251, ?h 251, ?h 254]\<rparr>"
  have "ruby_wf ?s" "ruby_small ?s" by (simp_all add: ruby_wf_def ruby_small_def ruby_create_def)
  moreover have "length (ruby_serialize ?s) = TREE_SITTER_SERIALIZATION_BUFFER_SIZE + 1"
    by (simp add: ruby_serialize_def ruby_create_def TREE_SITTER_SERIALIZATION_BUFFER_SIZE_def)
  ultimately show ?thesis by blast
qed

lemma ruby_literal_restored:
  assumes "ruby_literal_ok x" and "unat (nesting_depth x) < 256"
  shows "ruby_get_literal (ruby_put_literal x @ xs) = Some (x, xs)"
proof -
  have t: "unat (of_nat (lit_type x) :: byte) = lit_type x"
    using assms(1) by (auto simp: ruby_literal_ok_def ruby_literal_starts_def)
  have d: "uint (word_of_int i :: byte) = i" if "0 \<le> i" "i < 128" for i
    using that by (simp add: uint_word_of_int)
  have "ucast (ucast (nesting_depth x) :: byte) = nesting_depth x"
    using assms(2) by (simp add: word_unat_eq_iff unsigned_ucast_eq take_bit_eq_mod unat_mod_distrib)
  with t d assms(1) show ?thesis
    by (cases x) (simp add: ruby_put_literal_def ruby_literal_ok_def)
qed

lemma ruby_heredoc_restored:
  assumes "length (hd_word h) < 256"
  shows "ruby_get_heredoc (ruby_put_heredoc h @ xs) = Some (h, xs)"
  using assms by (cases h) (simp add: ruby_put_heredoc_def unat_of_nat_8)

lemma ruby_restore:
  assumes "ruby_wf s" and "ruby_small s" and "ruby_serialize s \<noteq> []"
  shows "ruby_deserialize t (ruby_serialize s) = Some (s\<lparr>has_leading_whitespace := False\<rparr>)"
proof -
  have lits: "get_many ruby_get_literal (length (literal_stack s)) (concat (map ruby_put_literal (literal_stack s)) @ xs)
      = Some (literal_stack s, xs)" for xs
    using assms by (intro get_many_concat ruby_literal_restored) (auto simp: ruby_wf_def ruby_small_def list_all_iff)
  have hds: "get_many ruby_get_heredoc (length (open_heredocs s)) (concat (map ruby_put_heredoc (open_heredocs s)) @ xs)
      = Some (open_heredocs s, xs)" for xs
    using assms by (intro get_many_concat ruby_heredoc_restored) (auto simp: ruby_small_def list_all_iff)
  note cases = ruby_serialize_cases [OF assms(3)]
  show ?thesis
    using lits hds [of "[]"] cases(2,3) unfolding cases(1) ruby_deserialize_def
    by (cases s) (simp add: ruby_reset_def unat_of_nat_8)
qed

lemma ruby_serialize_view: "ruby_view s = ruby_view t \<Longrightarrow> ruby_serialize s = ruby_serialize t"
  unfolding ruby_serialize_def ruby_view_def prod.inject by (elim conjE) (simp only:)

lemma ruby_scan_view:
  assumes "ruby_view s = ruby_view t"
  shows "ruby_scan E v s l = ruby_scan E v t l"
proof -
  have "s\<lparr>has_leading_whitespace := False\<rparr> = t\<lparr>has_leading_whitespace := False\<rparr>"
    using assms by (cases s; cases t) (simp add: ruby_view_def)
  then show ?thesis by (simp add: ruby_scan_def)
qed

definition ruby_call :: "'l env \<Rightarrow> ruby_scanner \<Rightarrow> (ruby_token \<Rightarrow> bool) \<times> 'l ruby_lexer \<Rightarrow> ((bool \<times> 'l ruby_lexer) \<times> ruby_scanner) option" where
  "ruby_call E s = (\<lambda>(v, l). map_option (\<lambda>(b, s, l). ((b, l), s)) (ruby_scan E v s l))"

interpretation ruby: resettable_scanner ruby_serialize ruby_deserialize ruby_saves ruby_view ruby_create
proof
  show "length (ruby_serialize s) \<le> TREE_SITTER_SERIALIZATION_BUFFER_SIZE" if "ruby_saves s" for s
    using that by (simp add: ruby_saves_def)
  show "\<exists>s'. ruby_deserialize t (ruby_serialize s) = Some s' \<and> ruby_view s' = ruby_view s" if "ruby_saves s" for s t
    using that by (simp add: ruby_saves_def ruby_restore ruby_view_def)
  show "\<exists>s'. ruby_deserialize t [] = Some s' \<and> ruby_view s' = ruby_view ruby_create" for t
    by (simp add: ruby_deserialize_def ruby_reset_def ruby_create_def ruby_view_def)
qed

interpretation ruby_parse: resumable_scanner ruby_serialize ruby_deserialize ruby_saves ruby_view "ruby_call E" for E :: "'l env"
proof
  fix s t assume view: "ruby_view s = ruby_view t"
  show "map_option (\<lambda>(x, s'). (x, ruby_view s')) (ruby_call E s i) = map_option (\<lambda>(x, t'). (x, ruby_view t')) (ruby_call E t i)" for i
    by (simp add: ruby_call_def ruby_scan_view [OF view] split: prod.splits)
  show "ruby_saves s = ruby_saves t"
    using view ruby_serialize_view [OF view] by (simp add: ruby_saves_def ruby_wf_def ruby_small_def ruby_view_def)
  show "ruby_serialize s = ruby_serialize t" by (rule ruby_serialize_view [OF view])
qed

section \<open>The end of a heredoc\<close>

context ts_lexer_marks
begin

text \<open>Reading the end word, from any place in it.\<close>

lemma ruby_heredoc_word_run:
  assumes "open_heredocs s = h # hs" and "hd_word h = u @ w" and "rest (raw l) = map sint w @ xs"
  shows "\<exists>l'. c_loop (ruby_heredoc_step E s) (length u, True, has, l) = c_loop (ruby_heredoc_step E s) (length (hd_word h), True, has, l')
     \<and> rest (raw l') = xs \<and> pos (raw l') = pos (raw l) + length w \<and> token_end (raw l') = token_end (raw l)
     \<and> result_symbol l' = result_symbol l"
  using assms
proof (induction w arbitrary: u l)
  case Nil
  then show ?case by auto
next
  case (Cons c w)
  have "ruby_heredoc_step E s (length u, True, has, l) = Some (Next (length (u @ [c]), True, has, advance E l))"
    using Cons.prems by (simp add: ruby_heredoc_step_def ruby_heredoc_word_end_def and_then_def)
  moreover have "rest (raw (advance E l)) = map sint w @ xs" using Cons.prems by simp
  ultimately show ?case using Cons.IH [of "u @ [c]" "advance E l"] Cons.prems by (simp add: c_loop_Next)
qed

lemmas ruby_heredoc_whole_word = ruby_heredoc_word_run [where u = "[]", simplified]

lemma ruby_heredoc_end_run:
  assumes "open_heredocs s = h # hs" and "hd_word h \<noteq> []"
    and "rest (raw l) = map sint (hd_word h) @ bs @ nl # cs" and "set bs \<subseteq> {32, 9}" and "is_newline nl"
  shows "\<exists>l'. ruby_scan_heredoc_content E s l = Some (True, s\<lparr>open_heredocs := hs\<rparr>, l') \<and> result_symbol l' = HEREDOC_BODY_END
     \<and> rest (raw l') = nl # cs \<and> token_end (raw l') = pos (raw l) + length (hd_word h)"
proof -
  obtain l1 where l1: "c_loop (ruby_heredoc_step E s) (0, True, False, l) = c_loop (ruby_heredoc_step E s) (length (hd_word h), True, False, l1)"
    "rest (raw l1) = bs @ nl # cs" "pos (raw l1) = pos (raw l) + length (hd_word h)"
    using ruby_heredoc_whole_word [OF assms(1) refl assms(3), of False] by auto
  have "dropWhile is_blank (bs @ nl # cs) = nl # cs"
    using assms(4,5) by (subst dropWhile_append2) auto
  then have "runs (advance_while E is_blank (mark_end E l1)) (\<lambda>l'. rest (raw l') = nl # cs)"
    by (intro wp_advance_while) (simp_all add: l1(2))
  then obtain l2 where l2: "advance_while E is_blank (mark_end E l1) = Some l2" "rest (raw l2) = nl # cs"
    by (auto simp: runs_def split: option.splits)
  have "token_end (raw l2) = pos (raw l1)" using advance_while_token_end [OF l2(1)] by simp
  moreover have "ruby_heredoc_step E s (length (hd_word h), True, False, l1)
      = Some (Return (ruby_heredoc_done s False l2))"
    using assms(1,5) l2 by (simp add: ruby_heredoc_step_def ruby_heredoc_word_end_def and_then_def)
  ultimately show ?thesis
    using l1 l2 assms(1) by (simp add: ruby_scan_heredoc_content_def c_loop_Return ruby_heredoc_done_def)
qed

lemma ruby_heredoc_twice_run:
  assumes "open_heredocs s = h # hs" and "hd_word h \<noteq> []" and "sint (hd (hd_word h)) \<notin> {32, 9, 10, 13}"
    and "rest (raw l) = map sint (hd_word h) @ map sint (hd_word h) @ nl # cs" and "is_newline nl"
  shows "\<exists>l'. ruby_scan_heredoc_content E s l = Some (True, s, l') \<and> result_symbol l' = HEREDOC_CONTENT
     \<and> token_end (raw l') = pos (raw l) + length (hd_word h)"
proof -
  let ?w = "hd_word h"
  let ?loop = "c_loop (ruby_heredoc_step E s)"
  obtain l1 where l1: "?loop (0, True, False, l) = ?loop (length ?w, True, False, l1)"
    "rest (raw l1) = map sint ?w @ nl # cs" "pos (raw l1) = pos (raw l) + length ?w"
    using ruby_heredoc_whole_word [OF assms(1) refl assms(4), of False] by auto
  obtain c w where w: "?w = c # w" using assms(2) by (cases ?w) auto
  with assms(3) have c: "sint c \<noteq> 32" "sint c \<noteq> 9" "sint c \<noteq> 10" "sint c \<noteq> 13" by auto
  have la: "lookahead E l1 = sint c" using l1(2) w by simp
  have "advance_while E is_blank (mark_end E l1) = Some (mark_end E l1)"
    using la c by (intro advance_while_stop) simp
  then have "ruby_heredoc_step E s (length ?w, True, False, l1) = Some (Next (1, True, True, advance E (mark_end E l1)))"
    using assms(1) la c w l1(2) by (simp add: ruby_heredoc_step_def ruby_heredoc_word_end_def and_then_def)
  moreover have "ruby_heredoc_step E s (0, True, True, mark_end E l1) = Some (Next (1, True, True, advance E (mark_end E l1)))"
    using assms(1) la w l1(2) by (simp add: ruby_heredoc_step_def ruby_heredoc_word_end_def and_then_def)
  ultimately have again: "?loop (0, True, False, l) = ?loop (0, True, True, mark_end E l1)"
    using l1(1) by (simp add: c_loop_Next)
  obtain l2 where l2: "?loop (0, True, True, mark_end E l1) = ?loop (length ?w, True, True, l2)"
    "rest (raw l2) = nl # cs" "token_end (raw l2) = pos (raw l1)"
    using ruby_heredoc_whole_word [OF assms(1) refl, of "mark_end E l1" "nl # cs" True] l1(2) by auto
  have "advance_while E is_blank l2 = Some l2"
    using l2(2) assms(5) by (intro advance_while_stop) auto
  then have "ruby_heredoc_step E s (length ?w, True, True, l2) = Some (Return (ruby_heredoc_done s True l2))"
    using assms(1,5) l2(2) by (simp add: ruby_heredoc_step_def ruby_heredoc_word_end_def and_then_def)
  then show ?thesis
    using again l1(3) l2 assms(1) by (simp add: ruby_scan_heredoc_content_def c_loop_Return ruby_heredoc_done_def)
qed

end

section \<open>The end of a literal\<close>

text \<open>
  The specification: the input from the delimiter on that closes a literal of \<open>n\<close> open
  brackets. A backslash hides the character behind it.
\<close>

fun literal_end :: "int \<Rightarrow> int \<Rightarrow> nat \<Rightarrow> int list \<Rightarrow> int list option" where
  "literal_end oc cl n [] = None"
| "literal_end oc cl n (c # cs) =
     (if c = cl then if n = 1 then Some (c # cs) else literal_end oc cl (n - 1) cs
      else if c = oc then literal_end oc cl (n + 1) cs
      else if c = 92 then (case cs of [] \<Rightarrow> None | _ # ds \<Rightarrow> literal_end oc cl n ds)
      else literal_end oc cl n cs)"

lemma literal_end_suffix: "literal_end oc cl n cs = Some ds \<Longrightarrow> length ds \<le> length cs"
proof (induction oc cl n cs rule: literal_end.induct)
  case (2 oc cl n c cs)
  show ?case
  proof (cases "c \<noteq> cl \<and> c \<noteq> oc \<and> c = 92")
    case True
    with 2 show ?thesis by (cases cs) simp_all
  next
    case False
    with 2 show ?thesis by (auto split: if_split_asm)
  qed
qed simp

context ts_lexer_marks
begin

definition ruby_literal_post :: "ruby_scanner \<Rightarrow> bool \<Rightarrow> int list \<Rightarrow> int list option \<Rightarrow> 'a ruby_result \<Rightarrow> bool" where
  "ruby_literal_post s has cs e = (\<lambda>(b, s', l').
     case e of
       None \<Rightarrow> \<not> b
     | Some ds \<Rightarrow> b \<and> token_end (raw l') = pos (raw l') \<and>
         (if has \<or> ds \<noteq> cs
          then result_symbol l' = STRING_CONTENT \<and> s' = ruby_set_depth 1 s \<and> rest (raw l') = ds
          else result_symbol l' = STRING_END \<and> s' = s\<lparr>literal_stack := butlast (literal_stack s)\<rparr> \<and> rest (raw l') = tl ds))"

lemma ruby_literal_post_Cons:
  assumes "ruby_literal_post s True cs e r" and "e = literal_end oc cl n cs" and "length cs < length cs'"
  shows "ruby_literal_post s has cs' e r"
  using assms literal_end_suffix [of oc cl n cs] by (auto simp: ruby_literal_post_def split: option.splits)

lemma ruby_literal_step_plain:
  assumes "literal_stack s = ys @ [x]" and "lit_type x \<in> {STRING_START, SYMBOL_START}" and "\<not> lit_interpolation x"
  shows "ruby_literal_step E s (has, d, l) =
     (if lookahead E l = close_delimiter x then ruby_literal_close E s (has, d, l)
      else if lookahead E l = open_delimiter x then Some (Next (True, d + 1, advance E l))
      else if lookahead E l = 92 then Some (Next (True, d, advance E (advance E l)))
      else if rest (raw l) = [] then Some (Return (False, ruby_set_depth d s, mark_end E (advance E l)))
      else Some (Next (True, d, advance E l)))"
proof -
  from assms(2) have "lit_type x \<noteq> STRING_ARRAY_START" "lit_type x \<noteq> SYMBOL_ARRAY_START" by auto
  then show ?thesis
    unfolding ruby_literal_step_def prod.case Let_def by (simp add: assms(1,3) cong: if_cong split del: if_split)
qed

lemma runs_ruby_literal_end:
  assumes x: "literal_stack s = ys @ [x]" "lit_type x \<in> {STRING_START, SYMBOL_START}" "\<not> lit_interpolation x"
      "ruby_literal_ok x" "close_delimiter x \<noteq> 0"
    and d: "unat d = n" "1 \<le> n" "n + remaining l < 2 ^ 32"
  shows "runs (c_loop (ruby_literal_step E s) (has, d, l))
    (ruby_literal_post s has (rest (raw l)) (literal_end (open_delimiter x) (close_delimiter x) n (rest (raw l))))"
  using d
proof (induction "remaining l" arbitrary: has d n l rule: less_induct)
  case less
  note step = runs_c_loop_unfold [of _ "(has, d, l)"] ruby_literal_step_plain [OF x(1-3)]
  let ?stop = "\<lambda>n. literal_end (open_delimiter x) (close_delimiter x) n"
  let ?Q = "ruby_literal_post s has (rest (raw l)) (?stop n (rest (raw l)))"
  from x(4,5) have oc: "open_delimiter x \<noteq> 0" by (simp add: ruby_literal_ok_def)
  have more: "runs (c_loop (ruby_literal_step E s) (True, d', l')) ?Q"
    if "remaining l' < remaining l" "unat d' = n'" "1 \<le> n'" "n' + remaining l' < 2 ^ 32"
      "?stop n (rest (raw l)) = ?stop n' (rest (raw l'))" for d' n' l'
    by (rule runs_weaken [OF less.hyps [OF that(1-4)]]) (use ruby_literal_post_Cons that(1,5) in simp)
  show ?case
  proof (cases "rest (raw l)")
    case Nil
    then show ?thesis using oc x(5) by (simp add: step ruby_literal_post_def)
  next
    case (Cons c cs)
    have up: "unat (d + 1) = n + 1" using less.prems Cons by (simp add: unat_word_ariths)
    have down: "unat (d - 1) = n - 1" using less.prems by (simp add: unat_sub word_le_nat_alt)
    have one: "d = 1 \<longleftrightarrow> n = 1" using less.prems(1) by (auto simp: word_unat_eq_iff)
    consider "c = close_delimiter x" "n = 1" | "c = close_delimiter x" "n \<noteq> 1" | "c \<noteq> close_delimiter x" "c = open_delimiter x"
      | "c \<noteq> close_delimiter x" "c \<noteq> open_delimiter x" "c = 92" | "c \<noteq> close_delimiter x" "c \<noteq> open_delimiter x" "c \<noteq> 92" by blast
    then show ?thesis
    proof cases
      case 1
      then show ?thesis using Cons x(1,2) one
        by (subst step(1)) (auto simp: step(2) ruby_literal_close_def Let_def ruby_literal_post_def)
    next
      case 2
      then show ?thesis using Cons less.prems more [of "advance E (mark_end E l)" "d - 1" "n - 1"] one down
        by (simp add: step ruby_literal_close_def)
    next
      case 3
      then show ?thesis using Cons less.prems more [of "advance E l" "d + 1" "n + 1"] up by (simp add: step)
    next
      case 4
      then show ?thesis using Cons less.prems more [of "advance E (advance E l)" d n] by (cases cs) (simp_all add: step)
    next
      case 5
      then show ?thesis using Cons less.prems more [of "advance E l" d n] by (simp add: step)
    qed
  qed
qed

end

section \<open>A percent sign in front of a blank\<close>

definition ruby_blank_literal :: literal where
  "ruby_blank_literal =
     \<lparr>lit_type = STRING_START, open_delimiter = 0, close_delimiter = 0, nesting_depth = 1, lit_interpolation = True\<rparr>"

context ts_lexer
begin

lemma ruby_percent_blank_start:
  assumes "rest (raw l) = 37 # b # cs" and "b \<in> {32, 9, 10, 13}" and "v STRING_START" and "\<not> v LINE_BREAK" and "\<not> v FORWARD_SLASH"
  shows "ruby_scan E v s l = Some (True, ruby_push_literal ruby_blank_literal (s\<lparr>has_leading_whitespace := False\<rparr>),
       set_symbol STRING_START (advance E (advance E l)))"
proof -
  let ?s = "s\<lparr>has_leading_whitespace := False\<rparr>" and ?l = "set_symbol NONE l"
  have c: "lookahead E ?l = 37" "lookahead E (advance E ?l) = b" using assms(1) by simp_all
  have "ruby_whitespace_step E v ok (False, ?s, ?l) = Some (Return (True, ?s, ?l))" for ok
    using assms(4) c by (simp add: ruby_whitespace_step_def)
  then have 1: "ruby_scan_whitespace E v ?s ?l = Some (True, ?s, ?l)"
    by (simp add: ruby_scan_whitespace_def c_loop_Return)
  have 2: "ruby_scan_switch E v (?s, ?l) = Some (Next (?s, ?l))" "ruby_scan_identifier E v (?s, ?l) = Some (Next (?s, ?l))"
    using c by (simp_all add: ruby_scan_switch_def ruby_scan_identifier_def iswalpha_def iswupper_def)
  have "map_of ruby_percent_kinds b = None" "map_of ruby_brackets b = None"
    using assms(2) by (auto simp: ruby_percent_kinds_def ruby_brackets_def)
  then have 3: "ruby_scan_open_delimiter E v ?s ruby_new_literal ?l = (True, ruby_blank_literal, advance E (advance E ?l))"
    using assms(2,3,5) c
    by (auto simp: ruby_scan_open_delimiter_def ruby_percent_delimiter_def ruby_new_literal_def ruby_blank_literal_def Let_def)
  show ?thesis
    using assms(3) 1 2 3 c
    by (simp add: ruby_scan_def ruby_scan_start_def and_then_def then_return_def ruby_blank_literal_def advance_def)
qed

lemma runs_ruby_blank_content:
  assumes "last (literal_stack s) = ruby_blank_literal" and "set (rest (raw l)) \<inter> {0, 35, 92} = {}" and "has \<or> rest (raw l) \<noteq> []"
  shows "runs (c_loop (ruby_literal_step E s) (has, 1, l))
     (\<lambda>(b, s', l'). b \<and> s' = ruby_set_depth 1 s \<and> result_symbol l' = STRING_CONTENT \<and> rest (raw l') = [])"
  using assms(2,3)
proof (induction "rest (raw l)" arbitrary: has l)
  case Nil
  then show ?case
    using assms(1) by (subst runs_c_loop_unfold) (simp add: ruby_literal_step_def ruby_literal_close_def ruby_blank_literal_def)
next
  case (Cons c cs)
  from Cons(2) have r: "rest (raw l) = c # cs" by simp
  with Cons(1) [of "advance E l" True] Cons(3)
  have "runs (c_loop (ruby_literal_step E s) (True, 1, advance E l))
     (\<lambda>(b, s', l'). b \<and> s' = ruby_set_depth 1 s \<and> result_symbol l' = STRING_CONTENT \<and> rest (raw l') = [])" by simp
  with r Cons(3) show ?case
    using assms(1) by (subst runs_c_loop_unfold) (simp add: ruby_literal_step_def ruby_blank_literal_def)
qed

end

section \<open>Properties\<close>

text \<open>C24.
  A saved Ruby scanner is restored with all of its literals and heredocs, if the depths of
  the literals and the lengths of the end words fit into a byte; where the scanner gives up
  saving because the state is too large, a new scanner comes back instead. At most one
  byte more than the buffer holds is written, and some state makes it write that byte.
\<close>
theorem ruby_serialize_roundtrip:
  assumes "ruby_wf s" and "ruby_small s"
  shows "ruby_deserialize t (ruby_serialize s) =
       Some (if ruby_serialize s = [] then ruby_create else s\<lparr>has_leading_whitespace := False\<rparr>)
     \<and> length (ruby_serialize s) \<le> TREE_SITTER_SERIALIZATION_BUFFER_SIZE + 1
     \<and> (\<exists>s'. ruby_wf s' \<and> ruby_small s' \<and> length (ruby_serialize s') = TREE_SITTER_SERIALIZATION_BUFFER_SIZE + 1)"
proof (cases "ruby_serialize s = []")
  case True
  with ruby_serialize_overrun show ?thesis by (cases t) (simp add: ruby_deserialize_def ruby_reset_def ruby_create_def)
qed (use ruby_serialize_cases(4) [of s] ruby_serialize_overrun in \<open>simp add: ruby_restore assms\<close>)

theorem ruby_serialize_roundtrip_witness:
  "ruby_deserialize ruby_create (ruby_serialize (ruby_push_literal ruby_blank_literal ruby_create)) =
     Some (if ruby_serialize (ruby_push_literal ruby_blank_literal ruby_create) = [] then ruby_create
           else (ruby_push_literal ruby_blank_literal ruby_create)\<lparr>has_leading_whitespace := False\<rparr>)
   \<and> length (ruby_serialize (ruby_push_literal ruby_blank_literal ruby_create)) \<le> TREE_SITTER_SERIALIZATION_BUFFER_SIZE + 1
   \<and> (\<exists>s'. ruby_wf s' \<and> ruby_small s' \<and> length (ruby_serialize s') = TREE_SITTER_SERIALIZATION_BUFFER_SIZE + 1)"
  by (rule ruby_serialize_roundtrip)
    (simp_all add: ruby_wf_def ruby_small_def ruby_push_literal_def ruby_blank_literal_def ruby_create_def ruby_literal_ok_def)

text \<open>C30.
  A scan of a heredoc that starts at its end word, followed by blanks and a line end, ends
  the heredoc with a token that covers the word and removes it from the queue. Nothing asks
  for the start of a line, so the word also ends the heredoc behind an interpolation in the
  middle of one.
\<close>
theorem ruby_heredoc_end:
  assumes "ts_lexer_marks E rest pos token_end"
    and "\<not> v STRING_START" and "v HEREDOC_CONTENT \<or> v HEREDOC_BODY_END" and "literal_stack s = [] \<or> \<not> (v STRING_CONTENT \<or> v STRING_END)"
    and "open_heredocs s = h # hs" and "hd_word h \<noteq> []"
    and "rest (raw l) = map sint (hd_word h) @ bs @ nl # cs" and "set bs \<subseteq> {32, 9}" and "nl = 10 \<or> nl = 13"
  shows "\<exists>l'. ruby_scan E v s l = Some (True, s\<lparr>has_leading_whitespace := False, open_heredocs := hs\<rparr>, l')
     \<and> result_symbol l' = HEREDOC_BODY_END \<and> rest (raw l') = nl # cs \<and> token_end (raw l') = pos (raw l) + length (hd_word h)"
  using ts_lexer_marks.ruby_heredoc_end_run [OF assms(1), of "s\<lparr>has_leading_whitespace := False\<rparr>" h hs l bs nl cs] assms(2-)
  by (auto simp: ruby_scan_def)

definition ruby_heredoc_example :: ruby_scanner where
  "ruby_heredoc_example = ruby_create\<lparr>open_heredocs :=
     [\<lparr>hd_word = [65, 66], end_word_indentation_allowed = False, hd_interpolation = True, started = True\<rparr>]\<rparr>"

theorem ruby_heredoc_end_witness:
  "\<exists>l'. ruby_scan list_env (\<lambda>t. t = HEREDOC_CONTENT) ruby_heredoc_example (lex_string NONE (''AB '' @ [CHR 0x0A] @ ''x''))
       = Some (True, ruby_heredoc_example\<lparr>has_leading_whitespace := False, open_heredocs := []\<rparr>, l')
     \<and> result_symbol l' = HEREDOC_BODY_END \<and> ll_rest (raw l') = [10, 120] \<and> ll_end (raw l') = 0 + length ([65, 66] :: byte list)"
  using ruby_heredoc_end [OF list_lexer.ts_lexer_marks_axioms, of "\<lambda>t. t = HEREDOC_CONTENT" ruby_heredoc_example _ "[]"
      "lex_string NONE (''AB '' @ [CHR 0x0A] @ ''x'')" "[32]" 10 "[120]"]
  by (simp add: ruby_heredoc_example_def ruby_create_def lex_string_def)

text \<open>A line that holds the end word twice ends a heredoc: the scan reports the first word as
  content, and the scan of what follows it ends the heredoc there. After a word that is not
  followed by a line end the scanner goes on looking for it.
\<close>
lemma ruby_heredoc_word_twice:
  assumes "ts_lexer_marks E rest pos token_end"
    and "\<not> v STRING_START" and "v HEREDOC_CONTENT \<or> v HEREDOC_BODY_END" and "literal_stack s = [] \<or> \<not> (v STRING_CONTENT \<or> v STRING_END)"
    and "open_heredocs s = h # hs" and "hd_word h \<noteq> []" and "sint (hd (hd_word h)) \<notin> {32, 9, 10, 13}" and "nl = 10 \<or> nl = 13"
    and "rest (raw l) = map sint (hd_word h) @ map sint (hd_word h) @ nl # cs"
    and "rest (raw l2) = map sint (hd_word h) @ nl # cs"
  shows "\<exists>s' l' l2'. ruby_scan E v s l = Some (True, s', l') \<and> result_symbol l' = HEREDOC_CONTENT
     \<and> token_end (raw l') = pos (raw l) + length (hd_word h)
     \<and> ruby_scan E v s' l2 = Some (True, s'\<lparr>open_heredocs := hs\<rparr>, l2') \<and> result_symbol l2' = HEREDOC_BODY_END"
proof -
  let ?s = "s\<lparr>has_leading_whitespace := False\<rparr>"
  have "ruby_scan E v s l = ruby_scan_heredoc_content E ?s l" "ruby_scan E v ?s l2 = ruby_scan_heredoc_content E ?s l2"
    using assms(2-5) by (auto simp: ruby_scan_def)
  with ts_lexer_marks.ruby_heredoc_twice_run [OF assms(1), of ?s h hs l nl cs]
    ts_lexer_marks.ruby_heredoc_end_run [OF assms(1), of ?s h hs l2 "[]" nl cs] assms(5-)
  show ?thesis by auto
qed

text \<open>C10.
  The content of a string or symbol literal without interpolation goes up to the delimiter
  that closes it, over nested pairs of delimiters and escaped characters; at that delimiter
  the literal ends; and if there is none the scan reports nothing. This is for a delimiter that
  is not NUL, a literal that is well formed in the sense of \<open>ruby_literal_ok\<close> and at least one
  deep, and an input short enough for the 32-bit depth not to wrap.
\<close>
theorem ruby_literal_content_end:
  assumes "ts_lexer_marks E rest pos token_end"
    and "literal_stack s = xs @ [x]" and "lit_type x \<in> {STRING_START, SYMBOL_START}" and "\<not> lit_interpolation x"
    and "ruby_literal_ok x" and "close_delimiter x \<noteq> 0"
    and "1 \<le> unat (nesting_depth x)" and "unat (nesting_depth x) + length (rest (raw l)) < 2 ^ 32"
  shows "\<exists>b s' l'. ruby_scan_literal_content E s l = Some (b, s', l') \<and>
     (case literal_end (open_delimiter x) (close_delimiter x) (unat (nesting_depth x)) (rest (raw l)) of
        None \<Rightarrow> \<not> b
      | Some ds \<Rightarrow> b \<and> token_end (raw l') = pos (raw l') \<and>
          (if ds \<noteq> rest (raw l)
           then result_symbol l' = STRING_CONTENT \<and> s' = ruby_set_depth 1 s \<and> rest (raw l') = ds
           else result_symbol l' = STRING_END \<and> s' = s\<lparr>literal_stack := xs\<rparr> \<and> rest (raw l') = tl ds))"
proof -
  note run = ts_lexer_marks.runs_ruby_literal_end [OF assms(1-6) refl assms(7,8), of False]
  show ?thesis
    using runs_tripleD [OF run [unfolded ts_lexer_marks.ruby_literal_post_def [OF assms(1)]]]
    by (cases "literal_end (open_delimiter x) (close_delimiter x) (unat (nesting_depth x)) (rest (raw l))")
      (auto simp: ruby_scan_literal_content_def assms(2) split: if_splits)
qed

definition ruby_literal_example :: literal where
  "ruby_literal_example =
     \<lparr>lit_type = STRING_START, open_delimiter = 40, close_delimiter = 41, nesting_depth = 1, lit_interpolation = False\<rparr>"

theorem ruby_literal_content_end_witness:
  "\<exists>b s' l'. ruby_scan_literal_content list_env (ruby_push_literal ruby_literal_example ruby_create) (lex_string NONE ''a(b)c)d'')
     = Some (b, s', l') \<and> b \<and> ll_end (raw l') = ll_pos (raw l') \<and> result_symbol l' = STRING_CONTENT
       \<and> s' = ruby_set_depth 1 (ruby_push_literal ruby_literal_example ruby_create) \<and> ll_rest (raw l') = [41, 100]"
  using ruby_literal_content_end [OF list_lexer.ts_lexer_marks_axioms, of "ruby_push_literal ruby_literal_example ruby_create" "[]"
      ruby_literal_example "lex_string NONE ''a(b)c)d''"]
  by (simp add: ruby_push_literal_def ruby_literal_example_def ruby_create_def ruby_literal_ok_def lex_string_def)

text \<open>A percent sign in front of a blank opens a string where no division can stand, as the
  language has it, but the blank is not kept as its delimiter: the content of the string is
  all of the rest of the input (if there is no escape, interpolation or NUL in it).
\<close>
lemma ruby_percent_blank_runs_on:
  assumes "ts_lexer E rest" and "rest (raw l) = 37 # b # cs" and "b \<in> {32, 9, 10, 13}"
    and "v STRING_START" and "\<not> v LINE_BREAK" and "\<not> v FORWARD_SLASH"
    and "cs \<noteq> []" and "set cs \<inter> {0, 35, 92} = {}" and "\<not> v' STRING_START" and "v' STRING_CONTENT"
  shows "\<exists>s' l' l''. ruby_scan E v s l = Some (True, s', l') \<and> result_symbol l' = STRING_START \<and> rest (raw l') = cs
     \<and> ruby_scan E v' s' l' = Some (True, s', l'') \<and> result_symbol l'' = STRING_CONTENT \<and> rest (raw l'') = []"
proof -
  let ?s = "ruby_push_literal ruby_blank_literal (s\<lparr>has_leading_whitespace := False\<rparr>)"
    and ?l = "set_symbol STRING_START (advance E (advance E l))"
  have start: "ruby_scan E v s l = Some (True, ?s, ?l)"
    using assms(2-6) by (rule ts_lexer.ruby_percent_blank_start [OF assms(1)])
  have r: "rest (raw ?l) = cs" using assms(2) by (simp add: ts_lexer.rest_ops [OF assms(1)])
  have "ruby_set_depth 1 ?s = ?s" by (simp add: ruby_set_depth_def ruby_push_literal_def ruby_blank_literal_def)
  moreover have run: "runs (c_loop (ruby_literal_step E ?s) (False, 1, ?l))
     (\<lambda>(b, s', l'). b \<and> s' = ruby_set_depth 1 ?s \<and> result_symbol l' = STRING_CONTENT \<and> rest (raw l') = [])"
    by (rule ts_lexer.runs_ruby_blank_content [OF assms(1)]) (use r assms(7,8) in \<open>simp_all add: ruby_push_literal_def\<close>)
  moreover have "?s\<lparr>has_leading_whitespace := False\<rparr> = ?s" "literal_stack ?s = literal_stack s @ [ruby_blank_literal]"
    "nesting_depth ruby_blank_literal = 1"
    by (cases s, simp_all add: ruby_push_literal_def ruby_blank_literal_def)
  then have "ruby_scan E v' ?s ?l = c_loop (ruby_literal_step E ?s) (False, 1, ?l)"
    using assms(9,10) by (simp add: ruby_scan_def ruby_scan_literal_content_def)
  ultimately show ?thesis using start r runs_tripleD [OF run] by auto
qed

end
