(* ===== verification/Bash_Scanner.thy ===== *)
theory Bash_Scanner
  imports TS_Serialize
begin

text \<open>
  The Bash scanner, \<^verbatim>\<open>bash/src/scanner.c\<close>: heredocs, concatenations, variable names, test
  operators, regular expressions, extended globs, words of an expansion and brace ranges.
  Its state is the stack of heredocs, the innermost last, and the depth of the parentheses
  in which the last glob was left.

  The scan function is one long function with jumps between its blocks. A block is a
  definition; a jump to a label is a call of the block that starts there, which goes on to
  the blocks behind it. The theory holds the model; what is shown of it is in \<open>Bash_Scan\<close>.
\<close>

section \<open>Tokens and state\<close>

datatype bash_token = HEREDOC_START | SIMPLE_HEREDOC_BODY | HEREDOC_BODY_BEGINNING | HEREDOC_CONTENT | HEREDOC_END
  | FILE_DESCRIPTOR | EMPTY_VALUE | CONCAT | VARIABLE_NAME | TEST_OPERATOR | REGEX | REGEX_NO_SLASH | REGEX_NO_SPACE
  | EXPANSION_WORD | EXTGLOB_PATTERN | BARE_DOLLAR | BRACE_START | IMMEDIATE_DOUBLE_HASH | EXTERNAL_EXPANSION_SYM_HASH
  | EXTERNAL_EXPANSION_SYM_BANG | EXTERNAL_EXPANSION_SYM_EQUAL | CLOSING_BRACE | CLOSING_BRACKET | HEREDOC_ARROW
  | HEREDOC_ARROW_DASH | NEWLINE | OPENING_PAREN | ESAC | ERROR_RECOVERY

record bash_heredoc =
  is_raw :: bool
  started :: bool
  allows_indent :: bool
  delimiter :: "byte list"
  current_leading_word :: "byte list"

definition heredoc_new :: bash_heredoc where
  "heredoc_new = \<lparr>is_raw = False, started = False, allows_indent = False, delimiter = [], current_leading_word = []\<rparr>"

record bash_scanner =
  last_glob_paren_depth :: byte
  ext_was_in_double_quote :: bool
  ext_saw_outside_quote :: bool
  heredocs :: "bash_heredoc list"

type_synonym 'l bash_lexer = "('l, bash_token) TSLexer"

type_synonym 'l bash_result = "bool \<times> bash_scanner \<times> 'l bash_lexer"

type_synonym 'l bash_state = "bash_scanner \<times> 'l bash_lexer"

type_synonym valid = "bash_token \<Rightarrow> bool"

definition bash_create :: bash_scanner where
  "bash_create =
     \<lparr>last_glob_paren_depth = 0, ext_was_in_double_quote = False, ext_saw_outside_quote = False, heredocs = []\<rparr>"

definition in_error_recovery :: "valid \<Rightarrow> bool" where
  "in_error_recovery v = v ERROR_RECOVERY"

definition reset_heredoc :: "bash_heredoc \<Rightarrow> bash_heredoc" where
  "reset_heredoc h = h\<lparr>is_raw := False, started := False, allows_indent := False, delimiter := []\<rparr>"

definition bash_reset :: "bash_scanner \<Rightarrow> bash_scanner" where
  "bash_reset s = s\<lparr>heredocs := map reset_heredoc (heredocs s)\<rparr>"

text \<open>Writing through the pointer to the innermost heredoc.\<close>

definition bash_set_heredoc :: "bash_heredoc \<Rightarrow> bash_scanner \<Rightarrow> bash_scanner" where
  "bash_set_heredoc h s = s\<lparr>heredocs := butlast (heredocs s) @ [h]\<rparr>"

section \<open>Saving and restoring\<close>

text \<open>The loop over the heredocs; \<open>None\<close> when the function gives up and returns 0.\<close>

fun bash_put_heredocs :: "nat \<Rightarrow> bash_heredoc list \<Rightarrow> byte list option" where
  "bash_put_heredocs sz [] = Some []"
| "bash_put_heredocs sz (h # hs) =
     (if sz + 3 + 4 + length (delimiter h) \<ge> TREE_SITTER_SERIALIZATION_BUFFER_SIZE then None
      else
        do { bs \<leftarrow> bash_put_heredocs (sz + 3 + 4 + length (delimiter h)) hs;
             Some ([bool_byte (is_raw h), bool_byte (started h), bool_byte (allows_indent h)]
               @ le32 (of_nat (length (delimiter h))) @ delimiter h @ bs) })"

definition bash_serialize :: "bash_scanner \<Rightarrow> byte list" where
  "bash_serialize s =
     (case bash_put_heredocs 4 (heredocs s) of
        None \<Rightarrow> []
      | Some bs \<Rightarrow>
          [last_glob_paren_depth s, bool_byte (ext_was_in_double_quote s), bool_byte (ext_saw_outside_quote s),
           of_nat (length (heredocs s))] @ bs)"

fun bash_get_heredoc :: "bash_heredoc \<Rightarrow> byte list \<Rightarrow> (bash_heredoc \<times> byte list) option" where
  "bash_get_heredoc h (r # st # a # buffer) =
     do { (n, buffer) \<leftarrow> get32 buffer;
          (d, buffer) \<leftarrow> get_bytes (unat n) buffer;
          Some (h\<lparr>is_raw := (r \<noteq> 0), started := (st \<noteq> 0), allows_indent := (a \<noteq> 0), delimiter := d\<rparr>, buffer) }"
| "bash_get_heredoc h _ = None"

text \<open>The heredocs the scanner already has are written over one by one; those behind them stay.\<close>

fun bash_get_heredocs :: "nat \<Rightarrow> bash_heredoc list \<Rightarrow> byte list \<Rightarrow> (bash_heredoc list \<times> byte list) option" where
  "bash_get_heredocs 0 old buffer = Some (old, buffer)"
| "bash_get_heredocs (Suc n) old buffer =
     do { (h, buffer) \<leftarrow> bash_get_heredoc (case old of [] \<Rightarrow> heredoc_new | h # _ \<Rightarrow> h) buffer;
          (hs, buffer) \<leftarrow> bash_get_heredocs n (tl old) buffer;
          Some (h # hs, buffer) }"

fun bash_deserialize :: "bash_scanner \<Rightarrow> byte list \<Rightarrow> bash_scanner option" where
  "bash_deserialize s [] = Some (bash_reset s)"
| "bash_deserialize s (d # q # o' # n # buffer) =
     do { (hs, buffer) \<leftarrow> bash_get_heredocs (unat n) (heredocs s) buffer;
          if buffer = [] then
            Some (s\<lparr>last_glob_paren_depth := d, ext_was_in_double_quote := (q \<noteq> 0), ext_saw_outside_quote := (o' \<noteq> 0), heredocs := hs\<rparr>)
          else None }"
| "bash_deserialize s _ = None"

section \<open>Words and heredocs\<close>

definition bash_word_step :: "'l env \<Rightarrow> int \<Rightarrow> bool \<times> byte list \<times> 'l bash_lexer \<Rightarrow>
    (bool \<times> byte list \<times> 'l bash_lexer, bool \<times> byte list \<times> 'l bash_lexer) flow option" where
  "bash_word_step E quote = (\<lambda>(empty, w, l).
     let c = lookahead E l in
     if c \<noteq> 0 \<and> \<not> (if quote \<noteq> 0 then c = quote \<or> c = ch CHR 0x0D \<or> c = ch CHR 0x0A else iswspace E c) then
       let l = (if c = ch CHR 0x5C then advance E l else l) in
       if c = ch CHR 0x5C \<and> lookahead E l = 0 then Some (Return (False, w, l))
       else Some (Next (False, w @ [word_of_int (lookahead E l)], advance E l))
     else
       Some (Return (\<not> empty, w @ [0], if quote \<noteq> 0 \<and> c = quote then advance E l else l)))"

definition bash_advance_word :: "'l env \<Rightarrow> byte list \<Rightarrow> 'l bash_lexer \<Rightarrow> (bool \<times> byte list \<times> 'l bash_lexer) option" where
  "bash_advance_word E w l =
     (let c = lookahead E l in
      if c = ch CHR 0x27 \<or> c = ch CHR 0x22 then c_loop (bash_word_step E c) (True, w, advance E l)
      else c_loop (bash_word_step E 0) (True, w, l))"

definition bash_scan_bare_dollar :: "'l env \<Rightarrow> 'l bash_lexer \<Rightarrow> (bool \<times> 'l bash_lexer) option" where
  "bash_scan_bare_dollar E l =
     do { l \<leftarrow> while_option (\<lambda>l. iswspace E (lookahead E l) \<and> lookahead E l \<noteq> ch CHR 0x0A \<and> \<not> eof E l) (skip E) l;
          if lookahead E l = ch CHR ''$'' then
            let l = mark_end E (set_symbol BARE_DOLLAR (advance E l)) in
            Some (iswspace E (lookahead E l) \<or> eof E l \<or> lookahead E l = ch CHR 0x22, l)
          else Some (False, l) }"

definition bash_scan_heredoc_start :: "'l env \<Rightarrow> bash_heredoc \<Rightarrow> 'l bash_lexer \<Rightarrow> (bool \<times> bash_heredoc \<times> 'l bash_lexer) option" where
  "bash_scan_heredoc_start E h l =
     do { l \<leftarrow> skip_while E (iswspace E) l;
          let l = set_symbol HEREDOC_START l;
              h = h\<lparr>is_raw := lookahead E l \<in> set (map ch [CHR 0x27, CHR 0x22, CHR 0x5C])\<rparr> in
          do { (found_delimiter, w, l) \<leftarrow> bash_advance_word E (delimiter h) l;
               Some (found_delimiter, h\<lparr>delimiter := (if found_delimiter then w else [])\<rparr>, l) } }"

text \<open>\<^verbatim>\<open>strcmp\<close> tested for equality; \<open>None\<close> when it reads behind the end of an array.\<close>

fun strcmp_eq :: "byte list \<Rightarrow> byte list \<Rightarrow> bool option" where
  "strcmp_eq (a # as) (b # bs) = (if a \<noteq> b then Some False else if a = 0 then Some True else strcmp_eq as bs)"
| "strcmp_eq _ _ = None"

definition bash_leading_step :: "'l env \<Rightarrow> byte list \<Rightarrow> byte list \<times> 'l bash_lexer \<Rightarrow>
    (byte list \<times> 'l bash_lexer, byte list \<times> 'l bash_lexer) flow option" where
  "bash_leading_step E d = (\<lambda>(w, l).
     if lookahead E l \<noteq> 0 \<and> lookahead E l \<noteq> ch CHR 0x0A then
       if length d \<le> length w then None
       else if sint (d ! length w) = lookahead E l
       then Some (Next (w @ [word_of_int (lookahead E l)], advance E l))
       else Some (Return (w, l))
     else Some (Return (w, l)))"

definition bash_scan_heredoc_end_identifier :: "'l env \<Rightarrow> bash_heredoc \<Rightarrow> 'l bash_lexer \<Rightarrow>
    (bool \<times> bash_heredoc \<times> 'l bash_lexer) option" where
  "bash_scan_heredoc_end_identifier E h l =
     (if delimiter h = [] then Some (False, h\<lparr>current_leading_word := [0]\<rparr>, l)
      else
        do { (w, l) \<leftarrow> c_loop (bash_leading_step E (delimiter h)) ([], l);
             b \<leftarrow> strcmp_eq (w @ [0]) (delimiter h);
             Some (b, h\<lparr>current_leading_word := w @ [0]\<rparr>, l) })"

section \<open>Heredoc bodies\<close>

definition bash_content_dollar :: "'l env \<Rightarrow> bash_token \<Rightarrow> bool \<times> 'l bash_state \<Rightarrow> (bool \<times> 'l bash_state, 'l bash_result) flow" where
  "bash_content_dollar E middle = (\<lambda>(did_advance, s, l).
     let h = last (heredocs s) in
     if is_raw h then Next (True, s, advance E l)
     else if did_advance then
       let l = advance E (set_symbol middle (mark_end E l));
           s = bash_set_heredoc (h\<lparr>started := True\<rparr>) s in
       if iswalpha E (lookahead E l) \<or> lookahead E l = ch CHR ''{'' \<or> lookahead E l = ch CHR ''('' then Return (True, s, l)
       else Next (did_advance, s, l)
     else if middle = HEREDOC_BODY_BEGINNING \<and> get_column E l = 0
     then Return (True, bash_set_heredoc (h\<lparr>started := True\<rparr>) s, set_symbol middle l)
     else Return (False, s, l))"

definition bash_content_newline :: "'l env \<Rightarrow> bash_token \<Rightarrow> bash_token \<Rightarrow> bool \<times> 'l bash_state \<Rightarrow>
    (bool \<times> 'l bash_state, 'l bash_result) flow option" where
  "bash_content_newline E middle end_type = (\<lambda>(did_advance, s, l).
     let h = last (heredocs s);
         l = (if \<not> did_advance then skip E l else advance E l) in
     do { l \<leftarrow> (if allows_indent h then advance_while E (iswspace E) l else Some l);
          (b, h, l) \<leftarrow> bash_scan_heredoc_end_identifier E h
             (mark_end E (set_symbol (if started h then middle else end_type) l));
          let s = bash_set_heredoc h s in
          if b then Some (Return (True, if result_symbol l = HEREDOC_END then s\<lparr>heredocs := butlast (heredocs s)\<rparr> else s, l))
          else Some (Next (True, s, l)) })"

definition bash_content_default :: "'l env \<Rightarrow> bash_token \<Rightarrow> bash_token \<Rightarrow> bool \<times> 'l bash_state \<Rightarrow>
    (bool \<times> 'l bash_state, 'l bash_result) flow option" where
  "bash_content_default E middle end_type = (\<lambda>(did_advance, s, l).
     if get_column E l = 0 then
       do { l \<leftarrow> (if did_advance then advance_while E (iswspace E) l else skip_while E (iswspace E) l);
            (b, h, l) \<leftarrow> bash_scan_heredoc_end_identifier E (last (heredocs s))
               (if end_type \<noteq> SIMPLE_HEREDOC_BODY then set_symbol middle l else mark_end E (set_symbol end_type l));
            let s = bash_set_heredoc h s in
            if b then Some (Return (True, s, l)) else Some (Next (True, s, advance E l)) }
     else Some (Next (True, s, advance E l)))"

definition bash_content_step :: "'l env \<Rightarrow> bash_token \<Rightarrow> bash_token \<Rightarrow> bool \<times> 'l bash_state \<Rightarrow>
    (bool \<times> 'l bash_state, 'l bash_result) flow option" where
  "bash_content_step E middle end_type = (\<lambda>(did_advance, s, l).
     let c = lookahead E l in
     if c = 0 then
       if eof E l \<and> did_advance
       then Some (Return (True, bash_set_heredoc (reset_heredoc (last (heredocs s))) s, set_symbol end_type l))
       else Some (Return (False, s, l))
     else if c = ch CHR 0x5C then Some (Next (True, s, advance E (advance E l)))
     else if c = ch CHR ''$'' then Some (bash_content_dollar E middle (did_advance, s, l))
     else if c = ch CHR 0x0A then bash_content_newline E middle end_type (did_advance, s, l)
     else bash_content_default E middle end_type (did_advance, s, l))"

definition bash_scan_heredoc_content :: "'l env \<Rightarrow> bash_token \<Rightarrow> bash_token \<Rightarrow> 'l bash_state \<Rightarrow> 'l bash_result option" where
  "bash_scan_heredoc_content E middle end_type = (\<lambda>(s, l).
     if heredocs s = [] then None else c_loop (bash_content_step E middle end_type) (False, s, l))"

section \<open>The last blocks of the scan: brace ranges and words of an expansion\<close>

definition isdigit :: "int \<Rightarrow> bool" where
  "isdigit c \<longleftrightarrow> ch CHR ''0'' \<le> c \<and> c \<le> ch CHR ''9''"

definition bash_brace_start :: "'l env \<Rightarrow> valid \<Rightarrow> 'l bash_state \<Rightarrow> 'l bash_result option" where
  "bash_brace_start E v = (\<lambda>(s, l).
     if v BRACE_START \<and> \<not> in_error_recovery v then
       do { l \<leftarrow> skip_while E (iswspace E) l;
            if lookahead E l \<noteq> ch CHR ''{'' then Some (False, s, l)
            else
              do { l \<leftarrow> advance_while E isdigit (mark_end E (advance E l));
                   if lookahead E l \<noteq> ch CHR ''.'' then Some (False, s, l)
                   else
                     let l = advance E l in
                     if lookahead E l \<noteq> ch CHR ''.'' then Some (False, s, l)
                     else
                       do { l \<leftarrow> advance_while E isdigit (advance E l);
                            if lookahead E l \<noteq> ch CHR ''}'' then Some (False, s, l)
                            else Some (True, s, set_symbol BRACE_START l) } } }
     else Some (False, s, l))"

text \<open>Behind a dollar sign: the start of an expansion that ends the word.\<close>

definition bash_starts_expansion :: "'l env \<Rightarrow> int \<Rightarrow> bool" where
  "bash_starts_expansion E c \<longleftrightarrow> c = ch CHR ''{'' \<or> c = ch CHR ''('' \<or> c = ch CHR 0x27 \<or> iswalnum E c"

definition bash_paren_step :: "'l env \<Rightarrow> bash_scanner \<Rightarrow> bool \<times> bool \<times> 'l bash_lexer \<Rightarrow>
    (bool \<times> bool \<times> 'l bash_lexer, (bool \<times> bool \<times> 'l bash_lexer, 'l bash_result) flow) flow option" where
  "bash_paren_step E s = (\<lambda>(once, space, l).
     if lookahead E l \<noteq> ch CHR '')'' \<and> \<not> eof E l then
       if lookahead E l = ch CHR ''$'' then
         let l = advance E (mark_end E l) in
         if bash_starts_expansion E (lookahead E l) then Some (Return (Return (once, s, set_symbol EXPANSION_WORD l)))
         else Some (Next (True, space, l))
       else
         Some (Next (once \<or> \<not> iswspace E (lookahead E l), space \<or> iswspace E (lookahead E l), advance E l))
     else Some (Return (Next (once, space, l))))"

definition bash_expansion_paren :: "'l env \<Rightarrow> bash_scanner \<Rightarrow> bool \<times> bool \<times> 'l bash_lexer \<Rightarrow>
    (bool \<times> bool \<times> 'l bash_lexer, 'l bash_result) flow option" where
  "bash_expansion_paren E s = (\<lambda>(once, space, l).
     if lookahead E l = ch CHR ''('' \<and> \<not> (once \<or> space) then
       and_then (c_loop (bash_paren_step E s) (once, space, advance E (mark_end E l)))
         (\<lambda>(once, space, l).
            let l = mark_end E l in
            if lookahead E l = ch CHR '')'' then
              let l = mark_end E (advance E l) in
              if lookahead E l = ch CHR ''}'' then Some (Return (False, s, l)) else Some (Next (True, space, l))
            else Some (Return (False, s, l)))
     else Some (Next (once, space, l)))"

definition bash_expansion_dollar :: "'l env \<Rightarrow> bash_scanner \<Rightarrow> bool \<times> bool \<times> 'l bash_lexer \<Rightarrow>
    (bool \<times> bool \<times> 'l bash_lexer, 'l bash_result) flow option" where
  "bash_expansion_dollar E s = (\<lambda>(once, space, l).
     if lookahead E l = ch CHR ''$'' then
       let l = advance E (mark_end E l) in
       if bash_starts_expansion E (lookahead E l) then Some (Return (once, s, set_symbol EXPANSION_WORD l))
       else Some (Next (True, space, l))
     else Some (Next (once, space, l)))"

definition bash_expansion_step :: "'l env \<Rightarrow> bash_scanner \<Rightarrow> bool \<times> bool \<times> 'l bash_lexer \<Rightarrow>
    (bool \<times> bool \<times> 'l bash_lexer, 'l bash_result) flow option" where
  "bash_expansion_step E s = (\<lambda>(once, space, l).
     if lookahead E l = ch CHR 0x22 then Some (Return (False, s, l))
     else
       and_then (bash_expansion_dollar E s (once, space, l)) (\<lambda>(once, space, l).
       if lookahead E l = ch CHR ''}''
       then Some (Return (once \<or> space, s, set_symbol EXPANSION_WORD (mark_end E l)))
       else
         and_then (bash_expansion_paren E s (once, space, l)) (\<lambda>(once, space, l).
         if lookahead E l = ch CHR 0x27 \<or> eof E l then Some (Return (False, s, l))
         else Some (Next (once \<or> \<not> iswspace E (lookahead E l), space \<or> iswspace E (lookahead E l), advance E l)))))"

definition bash_expansion_word :: "'l env \<Rightarrow> valid \<Rightarrow> 'l bash_state \<Rightarrow> 'l bash_result option" where
  "bash_expansion_word E v = (\<lambda>(s, l).
     if v EXPANSION_WORD then c_loop (bash_expansion_step E s) (False, False, l)
     else bash_brace_start E v (s, l))"

section \<open>Extended globs\<close>

text \<open>The word \<^verbatim>\<open>esac\<close>: whether it stands here in front of white space, and how far the input was read to see it.\<close>

definition bash_esac :: "'l env \<Rightarrow> 'l bash_lexer \<Rightarrow> bool \<times> 'l bash_lexer" where
  "bash_esac E l =
     (let l = advance E (mark_end E l) in
      if lookahead E l = ch CHR ''s'' then
        let l = advance E l in
        if lookahead E l = ch CHR ''a'' then
          let l = advance E l in
          if lookahead E l = ch CHR ''c'' then
            let l = advance E l in (iswspace E (lookahead E l), l)
          else (False, l)
        else (False, l)
      else (False, l))"

definition bash_extglob_backslash :: "'l env \<Rightarrow> 'l bash_state \<Rightarrow> ('l bash_state, 'l bash_result) flow option" where
  "bash_extglob_backslash E = (\<lambda>(s, l).
     if lookahead E l = ch CHR 0x5C then
       let l = advance E l; c = lookahead E l in
       if (iswspace E c \<or> c = ch CHR 0x22) \<and> c \<noteq> ch CHR 0x0D \<and> c \<noteq> ch CHR 0x0A then Some (Next (s, advance E l))
       else Some (Return (False, s, l))
     else Some (Next (s, l)))"

definition bash_extglob_paren :: "'l env \<Rightarrow> 'l bash_state \<Rightarrow> ('l bash_state, 'l bash_result) flow option" where
  "bash_extglob_paren E = (\<lambda>(s, l).
     if lookahead E l = ch CHR '')'' \<and> last_glob_paren_depth s = 0 then
       let l = advance E (mark_end E l) in
       if iswspace E (lookahead E l) then Some (Return (False, s, l)) else Some (Next (s, l))
     else Some (Next (s, l)))"

definition bash_extglob_first :: "'l env \<Rightarrow> 'l bash_state \<Rightarrow> ('l bash_state, 'l bash_result) flow option" where
  "bash_extglob_first E = (\<lambda>(s, l).
     if lookahead E l \<noteq> ch CHR ''['' then
       if lookahead E l = ch CHR ''e'' then
         (case bash_esac E l of (True, l) \<Rightarrow> Some (Return (False, s, l)) | (False, l) \<Rightarrow> Some (Next (s, l)))
       else Some (Next (s, advance E l))
     else Some (Next (s, l)))"

definition bash_extglob_dash :: "'l env \<Rightarrow> 'l bash_state \<Rightarrow> ('l bash_state, 'l bash_result) flow option" where
  "bash_extglob_dash E = (\<lambda>(s, l).
     if lookahead E l = ch CHR ''-'' then
       do { l \<leftarrow> advance_while E (iswalnum E) (advance E (mark_end E l));
            if lookahead E l \<in> set (map ch ('')'' @ [CHR 0x5C] @ ''.'')) then Some (Return (False, s, l))
            else Some (Next (s, mark_end E l)) }
     else Some (Next (s, l)))"

definition bash_extglob_stop :: "'l env \<Rightarrow> bool \<Rightarrow> 'l bash_state \<Rightarrow> ('l bash_state, 'l bash_result) flow option" where
  "bash_extglob_stop E was_non_alpha = (\<lambda>(s, l).
     and_then
       (if lookahead E l = ch CHR '')'' \<and> last_glob_paren_depth s = 0 then
          let l = advance E (mark_end E l) in
          if iswspace E (lookahead E l) then Some (Return (was_non_alpha, s, set_symbol EXTGLOB_PATTERN l))
          else Some (Next (s, l))
        else Some (Next (s, l))) (\<lambda>(s, l).
     if iswspace E (lookahead E l)
     then Some (Return (True, s\<lparr>last_glob_paren_depth := 0\<rparr>, set_symbol EXTGLOB_PATTERN (mark_end E l)))
     else
       and_then
         (if lookahead E l = ch CHR ''$'' then
            let l = advance E (mark_end E l) in
            if lookahead E l = ch CHR ''{'' \<or> lookahead E l = ch CHR ''(''
            then Some (Return (True, s, set_symbol EXTGLOB_PATTERN l)) else Some (Next (s, l))
          else Some (Next (s, l))) (\<lambda>(s, l).
       if lookahead E l = ch CHR ''|''
       then Some (Return (True, s, set_symbol EXTGLOB_PATTERN (advance E (mark_end E l))))
       else if \<not> iswalnum E (lookahead E l) \<and> lookahead E l \<notin> set (map ch (''('' @ [CHR 0x22] @ ''[?/'' @ [CHR 0x5C] @ ''_*''))
       then Some (Return (False, s, l))
       else Some (Next (s, l)))))"

record bash_depths =
  paren_depth :: "32 word"
  bracket_depth :: "32 word"
  brace_depth :: "32 word"

text \<open>The brackets of the loop of a glob; the flag is \<^verbatim>\<open>done\<close>.\<close>

definition bash_count :: "int \<Rightarrow> bash_depths \<Rightarrow> bool \<times> bash_depths" where
  "bash_count c d =
     (if c = ch CHR ''('' then (False, d\<lparr>paren_depth := paren_depth d + 1\<rparr>)
      else if c = ch CHR ''['' then (False, d\<lparr>bracket_depth := bracket_depth d + 1\<rparr>)
      else if c = ch CHR ''{'' then (False, d\<lparr>brace_depth := brace_depth d + 1\<rparr>)
      else if c = ch CHR '')'' then (paren_depth d = 0, d\<lparr>paren_depth := paren_depth d - 1\<rparr>)
      else if c = ch CHR '']'' then (bracket_depth d = 0, d\<lparr>bracket_depth := bracket_depth d - 1\<rparr>)
      else if c = ch CHR ''}'' then (brace_depth d = 0, d\<lparr>brace_depth := brace_depth d - 1\<rparr>)
      else (False, d))"

definition bash_glob_special :: "'l env \<Rightarrow> int \<Rightarrow> bool" where
  "bash_glob_special E c \<longleftrightarrow> \<not> iswalpha E c \<and> c \<noteq> ch CHR ''.'' \<and> c \<noteq> ch CHR 0x5C"

definition bash_glob_leave :: "'l env \<Rightarrow> bool \<Rightarrow> byte \<Rightarrow> 'l bash_state \<Rightarrow> 'l bash_result" where
  "bash_glob_leave E saw d = (\<lambda>(s, l). (saw, s\<lparr>last_glob_paren_depth := d\<rparr>, set_symbol EXTGLOB_PATTERN l))"

definition bash_glob_char :: "'l env \<Rightarrow> bash_scanner \<Rightarrow> bash_depths \<Rightarrow> bool \<times> 'l bash_lexer \<Rightarrow>
    (bool \<times> bash_depths \<times> 'l bash_lexer, 'l bash_result) flow option" where
  "bash_glob_char E s d = (\<lambda>(saw, l).
     let was_space = iswspace E (lookahead E l) in
     and_then
       (if lookahead E l = ch CHR ''$'' then
          let saw = (saw \<or> bash_glob_special E (lookahead E l));
              l = advance E (mark_end E l) in
          if lookahead E l = ch CHR ''('' \<or> lookahead E l = ch CHR ''{''
          then Some (Return (bash_glob_leave E saw (ucast (paren_depth d)) (s, l))) else Some (Next (saw, l))
        else Some (Next (saw, l))) (\<lambda>(saw, l).
     if was_space \<or> lookahead E l = ch CHR 0x22 then Some (Return (bash_glob_leave E saw 0 (s, mark_end E l)))
     else
       let saw = (saw \<or> bash_glob_special E (lookahead E l));
           l' = advance E l;
           l' = (if lookahead E l = ch CHR 0x5C \<and> (iswspace E (lookahead E l') \<or> lookahead E l' = ch CHR 0x22)
                 then advance E l' else l') in
       Some (Next (saw, d, mark_end E l'))))"

definition bash_glob_step :: "'l env \<Rightarrow> bash_scanner \<Rightarrow> bool \<times> bash_depths \<times> 'l bash_lexer \<Rightarrow>
    (bool \<times> bash_depths \<times> 'l bash_lexer, 'l bash_result) flow option" where
  "bash_glob_step E s = (\<lambda>(saw, d, l).
     let (fin, d) = bash_count (lookahead E l) d in
     if lookahead E l = 0 then Some (Return (False, s, l))
     else
       let bar = (lookahead E l = ch CHR ''|'');
           l = (if bar then advance E (mark_end E l) else l) in
       if bar \<and> paren_depth d = 0 \<and> bracket_depth d = 0 \<and> brace_depth d = 0
       then Some (Return (True, s, set_symbol EXTGLOB_PATTERN l))
       else if fin then Some (Return (bash_glob_leave E saw 0 (s, l)))
       else bash_glob_char E s d (saw, l))"

definition bash_extglob :: "'l env \<Rightarrow> valid \<Rightarrow> 'l bash_state \<Rightarrow> 'l bash_result option" where
  "bash_extglob E v = (\<lambda>(s, l).
     if v EXTGLOB_PATTERN \<and> \<not> in_error_recovery v then
       do { l \<leftarrow> skip_while E (iswspace E) l;
            if lookahead E l \<in> set (map ch (''?*+@!-)'' @ [CHR 0x5C] @ ''.['')) \<or> iswalpha E (lookahead E l) then
              then_return
                (and_then (bash_extglob_backslash E (s, l)) (bash_extglob_paren E))
                (\<lambda>(s, l).
                   let was_non_alpha = (\<not> iswalpha E (lookahead E l)) in
                   then_return
                     (and_then (and_then (bash_extglob_first E (s, mark_end E l)) (bash_extglob_dash E)) (bash_extglob_stop E was_non_alpha))
                     (\<lambda>(s, l). c_loop (bash_glob_step E s)
                        (was_non_alpha, \<lparr>paren_depth = ucast (last_glob_paren_depth s), bracket_depth = 0, brace_depth = 0\<rparr>, l)))
            else Some (False, s\<lparr>last_glob_paren_depth := 0\<rparr>, l) }
     else bash_expansion_word E v (s, l))"

section \<open>Regular expressions\<close>

record bash_regex_state = bash_depths +
  advanced_once :: bool
  found_non_alnumdollarunderdash :: bool
  last_was_escape :: bool
  in_single_quote :: bool

text \<open>The switch on the character, without the cases of NUL and of a quote; the flag is \<^verbatim>\<open>done\<close>.\<close>

definition bash_regex_count :: "int \<Rightarrow> bash_regex_state \<Rightarrow> bool \<times> bash_regex_state" where
  "bash_regex_count c d =
     (let d' = d\<lparr>last_was_escape := (c = ch CHR 0x5C)\<rparr> in
      if c = ch CHR ''('' then (False, d'\<lparr>paren_depth := paren_depth d + 1\<rparr>)
      else if c = ch CHR ''['' then (False, d'\<lparr>bracket_depth := bracket_depth d + 1\<rparr>)
      else if c = ch CHR ''{'' then (False, if last_was_escape d then d' else d'\<lparr>brace_depth := brace_depth d + 1\<rparr>)
      else if c = ch CHR '')'' then (paren_depth d = 0, d'\<lparr>paren_depth := paren_depth d - 1\<rparr>)
      else if c = ch CHR '']'' then (bracket_depth d = 0, d'\<lparr>bracket_depth := bracket_depth d - 1\<rparr>)
      else if c = ch CHR ''}'' then (brace_depth d = 0, d'\<lparr>brace_depth := brace_depth d - 1\<rparr>)
      else (False, d'))"

definition bash_regex_any :: "'l env \<Rightarrow> bash_regex_state \<times> 'l bash_lexer \<Rightarrow> (bash_regex_state \<times> 'l bash_lexer, 'l bash_result) flow" where
  "bash_regex_any E = (\<lambda>(st, l).
     let was_space = (\<not> in_single_quote st \<and> iswspace E (lookahead E l));
         l = advance E l in
     Next (st\<lparr>advanced_once := True\<rparr>, if \<not> was_space \<or> paren_depth st > 0 then mark_end E l else l))"

definition bash_regex_no_slash :: "'l env \<Rightarrow> bash_scanner \<Rightarrow> bash_regex_state \<times> 'l bash_lexer \<Rightarrow>
    (bash_regex_state \<times> 'l bash_lexer, 'l bash_result) flow" where
  "bash_regex_no_slash E s = (\<lambda>(st, l).
     let c = lookahead E l in
     if c = ch CHR ''/'' then Return (advanced_once st, s, set_symbol REGEX_NO_SLASH (mark_end E l))
     else if c = ch CHR 0x5C then
       let l = advance E l in
       Next (st\<lparr>advanced_once := True\<rparr>,
         if \<not> eof E l \<and> lookahead E l \<noteq> ch CHR ''['' \<and> lookahead E l \<noteq> ch CHR ''/'' then mark_end E (advance E l) else l)
     else
       let was_space = (\<not> in_single_quote st \<and> iswspace E c); l = advance E l in
       Next (st\<lparr>advanced_once := True\<rparr>, if \<not> was_space then mark_end E l else l))"

definition bash_regex_no_space :: "'l env \<Rightarrow> bash_scanner \<Rightarrow> bash_regex_state \<times> 'l bash_lexer \<Rightarrow>
    (bash_regex_state \<times> 'l bash_lexer, 'l bash_result) flow" where
  "bash_regex_no_space E s = (\<lambda>(st, l).
     let c = lookahead E l in
     if c = ch CHR 0x5C then
       let l = advance E l in
       Next (st\<lparr>found_non_alnumdollarunderdash := True\<rparr>, if \<not> eof E l then advance E l else l)
     else if c = ch CHR ''$'' then
       let l = advance E (mark_end E l) in
       if lookahead E l = ch CHR ''('' then Return (False, s, l)
       else if iswspace E (lookahead E l) then Return (True, s, mark_end E (set_symbol REGEX_NO_SPACE l))
       else Next (st, l)
     else
       let was_space = (\<not> in_single_quote st \<and> iswspace E c) in
       if was_space \<and> paren_depth st = 0
       then Return (found_non_alnumdollarunderdash st, s, set_symbol REGEX_NO_SPACE (mark_end E l))
       else
         Next (if \<not> iswalnum E c \<and> c \<noteq> ch CHR ''$'' \<and> c \<noteq> ch CHR ''-'' \<and> c \<noteq> ch CHR ''_''
               then st\<lparr>found_non_alnumdollarunderdash := True\<rparr> else st, advance E l))"

definition bash_regex_step :: "'l env \<Rightarrow> valid \<Rightarrow> bash_scanner \<Rightarrow> bash_regex_state \<times> 'l bash_lexer \<Rightarrow>
    (bash_regex_state \<times> 'l bash_lexer, 'l bash_result) flow option" where
  "bash_regex_step E v s = (\<lambda>(st, l).
     let (st, l) = (if in_single_quote st \<and> lookahead E l = ch CHR 0x27
                    then (st\<lparr>in_single_quote := False\<rparr>, mark_end E (advance E l)) else (st, l));
         c = lookahead E l in
     if c = 0 then Some (Return (False, s, l))
     else if c = ch CHR 0x27
     then Some (Next (st\<lparr>in_single_quote := \<not> in_single_quote st, advanced_once := True, last_was_escape := False\<rparr>, advance E l))
     else
       let (fin, st) = bash_regex_count c st in
       if fin then
         Some (Return (\<not> (v REGEX \<and> \<not> advanced_once st), s,
           set_symbol (if v REGEX_NO_SLASH then REGEX_NO_SLASH else if v REGEX_NO_SPACE then REGEX_NO_SPACE else REGEX) l))
       else if v REGEX then Some (bash_regex_any E (st, l))
       else if v REGEX_NO_SLASH then Some (bash_regex_no_slash E s (st, l))
       else if v REGEX_NO_SPACE then Some (bash_regex_no_space E s (st, l))
       else Some (Next (st, l)))"

definition bash_regex :: "'l env \<Rightarrow> valid \<Rightarrow> 'l bash_state \<Rightarrow> 'l bash_result option" where
  "bash_regex E v = (\<lambda>(s, l).
     if (v REGEX \<or> v REGEX_NO_SLASH \<or> v REGEX_NO_SPACE) \<and> \<not> in_error_recovery v then
       do { l \<leftarrow> (if v REGEX \<or> v REGEX_NO_SPACE then skip_while E (iswspace E) l else Some l);
            let c = lookahead E l in
            if c \<noteq> ch CHR 0x22 \<and> c \<noteq> ch CHR 0x27 \<or> (c = ch CHR ''$'' \<or> c = ch CHR 0x27) \<and> v REGEX_NO_SLASH
               \<or> c = ch CHR 0x27 \<and> v REGEX_NO_SPACE
            then
              let dollar = (c = ch CHR ''$'' \<and> v REGEX_NO_SLASH);
                  l = (if dollar then advance E (mark_end E l) else l) in
              if dollar \<and> lookahead E l = ch CHR ''('' then Some (False, s, l)
              else
                c_loop (bash_regex_step E v s)
                  (\<lparr>paren_depth = 0, bracket_depth = 0, brace_depth = 0, advanced_once = False,
                    found_non_alnumdollarunderdash = False, last_was_escape = False, in_single_quote = False\<rparr>, mark_end E l)
            else bash_extglob E v (s, l) }
     else bash_extglob E v (s, l))"

section \<open>The first blocks of the scan\<close>

definition advance_until :: "'l env \<Rightarrow> int \<Rightarrow> ('l, 't) TSLexer \<Rightarrow> ('l, 't) TSLexer option" where
  "advance_until E c l = while_option (\<lambda>l. lookahead E l \<noteq> c \<and> \<not> eof E l) (advance E) l"

definition bash_concat_first :: "'l env \<Rightarrow> valid \<Rightarrow> 'l bash_state \<Rightarrow> ('l bash_state, 'l bash_result) flow option" where
  "bash_concat_first E v = (\<lambda>(s, l).
     let c = lookahead E l in
     if \<not> (c = 0 \<or> iswspace E c \<or> c \<in> set (map ch ''><)(;&|'') \<or> c = ch CHR ''}'' \<and> v CLOSING_BRACE
           \<or> c = ch CHR '']'' \<and> v CLOSING_BRACKET) then
       let l = set_symbol CONCAT l in
       if c = ch CHR ''`'' then
         do { l \<leftarrow> advance_until E (ch CHR ''`'') (advance E (mark_end E l));
              if eof E l then Some (Return (False, s, l))
              else
                let l = (if lookahead E l = ch CHR ''`'' then advance E l else l) in
                Some (Return (iswspace E (lookahead E l) \<or> eof E l, s, l)) }
       else if c = ch CHR 0x5C then
         let l = advance E (mark_end E l) in
         if lookahead E l \<in> set (map ch [CHR 0x22, CHR 0x27, CHR 0x5C]) then Some (Return (True, s, l))
         else if eof E l then Some (Return (False, s, l))
         else Some (Next (s, l))
       else Some (Return (True, s, l))
     else Some (Next (s, l)))"

definition bash_scan_concat :: "'l env \<Rightarrow> valid \<Rightarrow> 'l bash_state \<Rightarrow> ('l bash_state, 'l bash_result) flow option" where
  "bash_scan_concat E v x =
     (if v CONCAT \<and> \<not> in_error_recovery v then
        and_then (bash_concat_first E v x) (\<lambda>(s, l).
          if iswspace E (lookahead E l) \<and> v CLOSING_BRACE \<and> \<not> v EXPANSION_WORD
          then Some (Return (True, s, set_symbol CONCAT l)) else Some (Next (s, l)))
      else Some (Next x))"

definition bash_scan_double_hash :: "'l env \<Rightarrow> valid \<Rightarrow> 'l bash_state \<Rightarrow> ('l bash_state, 'l bash_result) flow option" where
  "bash_scan_double_hash E v = (\<lambda>(s, l).
     if v IMMEDIATE_DOUBLE_HASH \<and> \<not> in_error_recovery v \<and> lookahead E l = ch CHR ''#'' then
       let l = advance E (mark_end E l) in
       if lookahead E l = ch CHR ''#'' then
         let l = advance E l in
         if lookahead E l \<noteq> ch CHR ''}'' then Some (Return (True, s, mark_end E (set_symbol IMMEDIATE_DOUBLE_HASH l)))
         else Some (Next (s, l))
       else Some (Next (s, l))
     else Some (Next (s, l)))"

definition bash_scan_expansion_sym :: "'l env \<Rightarrow> valid \<Rightarrow> 'l bash_state \<Rightarrow> ('l bash_state, 'l bash_result) flow option" where
  "bash_scan_expansion_sym E v = (\<lambda>(s, l).
     let c = lookahead E l;
         sym = (\<lambda>c. c = ch CHR ''#'' \<or> c = ch CHR ''='' \<or> c = ch CHR ''!'') in
     if v EXTERNAL_EXPANSION_SYM_HASH \<and> \<not> in_error_recovery v \<and> sym c then
       let l = set_symbol (if c = ch CHR ''#'' then EXTERNAL_EXPANSION_SYM_HASH
                 else if c = ch CHR ''!'' then EXTERNAL_EXPANSION_SYM_BANG else EXTERNAL_EXPANSION_SYM_EQUAL) l in
       do { l \<leftarrow> advance_while E sym (mark_end E (advance E l));
            l \<leftarrow> skip_while E (iswspace E) l;
            Some (Return (lookahead E l = ch CHR ''}'', s, l)) }
     else Some (Next (s, l)))"

definition bash_scan_empty_value :: "'l env \<Rightarrow> valid \<Rightarrow> 'l bash_state \<Rightarrow> ('l bash_state, 'l bash_result) flow option" where
  "bash_scan_empty_value E v = (\<lambda>(s, l).
     if v EMPTY_VALUE \<and> (iswspace E (lookahead E l) \<or> eof E l \<or> lookahead E l = ch CHR '';'' \<or> lookahead E l = ch CHR ''&'')
     then Some (Return (True, s, set_symbol EMPTY_VALUE l)) else Some (Next (s, l)))"

definition bash_scan_heredoc_end :: "'l env \<Rightarrow> valid \<Rightarrow> 'l bash_state \<Rightarrow> ('l bash_state, 'l bash_result) flow option" where
  "bash_scan_heredoc_end E v = (\<lambda>(s, l).
     if v HEREDOC_END \<and> heredocs s \<noteq> [] then
       do { (b, h, l) \<leftarrow> bash_scan_heredoc_end_identifier E (last (heredocs s)) l;
            Some (if b then Return (True, s\<lparr>heredocs := butlast (heredocs s)\<rparr>, set_symbol HEREDOC_END l)
                  else Next (bash_set_heredoc h s, l)) }
     else Some (Next (s, l)))"

definition bash_scan_heredoc :: "'l env \<Rightarrow> valid \<Rightarrow> 'l bash_state \<Rightarrow> ('l bash_state, 'l bash_result) flow option" where
  "bash_scan_heredoc E v = (\<lambda>(s, l).
     if (v HEREDOC_BODY_BEGINNING \<or> v SIMPLE_HEREDOC_BODY) \<and> heredocs s \<noteq> [] \<and> \<not> started (last (heredocs s))
        \<and> \<not> in_error_recovery v
     then map_option Return (bash_scan_heredoc_content E HEREDOC_BODY_BEGINNING SIMPLE_HEREDOC_BODY (s, l))
     else
       and_then (bash_scan_heredoc_end E v (s, l)) (\<lambda>(s, l).
       if v HEREDOC_CONTENT \<and> heredocs s \<noteq> [] \<and> started (last (heredocs s)) \<and> \<not> in_error_recovery v
       then map_option Return (bash_scan_heredoc_content E HEREDOC_CONTENT HEREDOC_END (s, l))
       else if v HEREDOC_START \<and> \<not> in_error_recovery v \<and> heredocs s \<noteq> [] then
         do { (b, h, l) \<leftarrow> bash_scan_heredoc_start E (last (heredocs s)) l;
              Some (Return (b, bash_set_heredoc h s, l)) }
       else Some (Next (s, l))))"

section \<open>Test operators\<close>

definition bash_test_backslash :: "'l env \<Rightarrow> valid \<Rightarrow> 'l bash_state \<Rightarrow> ('l bash_state, 'l bash_result) flow option" where
  "bash_test_backslash E v = (\<lambda>(s, l).
     if lookahead E l = ch CHR 0x5C then
       if v EXTGLOB_PATTERN then map_option Return (bash_extglob E v (s, l))
       else if v REGEX_NO_SPACE then map_option Return (bash_regex E v (s, l))
       else
         let l = skip E l in
         if eof E l then Some (Return (False, s, l))
         else
           and_then
             (if lookahead E l = ch CHR 0x0D then
                let l = skip E l in Some (Next (s, if lookahead E l = ch CHR 0x0A then skip E l else l))
              else if lookahead E l = ch CHR 0x0A then Some (Next (s, skip E l))
              else Some (Return (False, s, l)))
             (\<lambda>(s, l). do { l \<leftarrow> skip_while E (iswspace E) l; Some (Next (s, l)) })
     else Some (Next (s, l)))"

definition bash_test_newline :: "'l env \<Rightarrow> valid \<Rightarrow> 'l bash_state \<Rightarrow> ('l bash_state, 'l bash_result) flow option" where
  "bash_test_newline E v = (\<lambda>(s, l).
     if lookahead E l = ch CHR 0x0A \<and> \<not> v NEWLINE
     then do { l \<leftarrow> skip_while E (iswspace E) (skip E l); Some (Next (s, l)) }
     else Some (Next (s, l)))"

definition bash_test_dash :: "'l env \<Rightarrow> valid \<Rightarrow> 'l bash_state \<Rightarrow> ('l bash_state, 'l bash_result) flow option" where
  "bash_test_dash E v = (\<lambda>(s, l).
     if lookahead E l = ch CHR ''-'' then
       let l = advance E l; advanced_once = iswalpha E (lookahead E l) in
       do { l \<leftarrow> advance_while E (iswalpha E) l;
            Some
              (if iswspace E (lookahead E l) \<and> advanced_once then
                 let l = advance E (mark_end E l) in
                 if lookahead E l = ch CHR ''}'' \<and> v CLOSING_BRACE then
                   if v EXPANSION_WORD then Return (True, s, set_symbol EXPANSION_WORD (mark_end E l))
                   else Return (False, s, l)
                 else Return (True, s, set_symbol TEST_OPERATOR l)
               else if iswspace E (lookahead E l) \<and> v EXTGLOB_PATTERN then Return (True, s, set_symbol EXTGLOB_PATTERN l)
               else Next (s, l)) }
     else Some (Next (s, l)))"

definition bash_try_dollar :: "'l env \<Rightarrow> valid \<Rightarrow> 'l bash_state \<Rightarrow> ('l bash_state, 'l bash_result) flow option" where
  "bash_try_dollar E v = (\<lambda>(s, l).
     if v BARE_DOLLAR \<and> \<not> in_error_recovery v then
       do { (b, l) \<leftarrow> bash_scan_bare_dollar E l; Some (if b then Return (True, s, l) else Next (s, l)) }
     else Some (Next (s, l)))"

definition bash_scan_test_operator :: "'l env \<Rightarrow> valid \<Rightarrow> 'l bash_state \<Rightarrow> ('l bash_state, 'l bash_result) flow option" where
  "bash_scan_test_operator E v = (\<lambda>(s, l).
     if v TEST_OPERATOR \<and> \<not> v EXPANSION_WORD then
       do { l \<leftarrow> skip_while E (\<lambda>c. iswspace E c \<and> c \<noteq> ch CHR 0x0A) l;
            and_then (and_then (and_then (bash_test_backslash E v (s, l)) (bash_test_newline E v)) (bash_test_dash E v)) (bash_try_dollar E v) }
     else Some (Next (s, l)))"

section \<open>Names, file descriptors and heredoc arrows\<close>

definition bash_name_blank_step :: "'l env \<Rightarrow> valid \<Rightarrow> bash_scanner \<Rightarrow> 'l bash_lexer \<Rightarrow>
    ('l bash_lexer, ('l bash_state, 'l bash_result) flow) flow option" where
  "bash_name_blank_step E v s l =
     (let c = lookahead E l in
      if (c = ch CHR '' '' \<or> c = ch CHR 0x09 \<or> c = ch CHR 0x0D \<or> c = ch CHR 0x0A \<and> \<not> v NEWLINE) \<and> \<not> v EXPANSION_WORD
      then Some (Next (skip E l))
      else if c = ch CHR 0x5C then
        let l = skip E l in
        if eof E l then Some (Return (Return (True, s, set_symbol VARIABLE_NAME (mark_end E l))))
        else
          let l = (if lookahead E l = ch CHR 0x0D then skip E l else l) in
          if lookahead E l = ch CHR 0x0A then Some (Next (skip E l))
          else if lookahead E l = ch CHR 0x5C \<and> v EXPANSION_WORD
          then map_option (Return \<circ> Return) (bash_expansion_word E v (s, l))
          else Some (Return (Return (False, s, l)))
      else Some (Return (Next (s, l))))"

definition bash_name_special :: "'l env \<Rightarrow> valid \<Rightarrow> 'l bash_state \<Rightarrow> ('l bash_state, 'l bash_result) flow option" where
  "bash_name_special E v = (\<lambda>(s, l).
     if \<not> v EXPANSION_WORD \<and> lookahead E l \<in> set (map ch ''*@?-0_'') then
       let l = advance E (mark_end E l) in
       if lookahead E l \<in> set (map ch ''=[:-%#/'') then Some (Return (False, s, l))
       else if v EXTGLOB_PATTERN \<and> iswspace E (lookahead E l)
       then Some (Return (True, s, set_symbol EXTGLOB_PATTERN (mark_end E l)))
       else Some (Next (s, l))
     else Some (Next (s, l)))"

definition bash_push_heredoc :: "bash_heredoc \<Rightarrow> bash_scanner \<Rightarrow> bash_scanner" where
  "bash_push_heredoc h s = s\<lparr>heredocs := heredocs s @ [h]\<rparr>"

definition bash_heredoc_arrow :: "'l env \<Rightarrow> valid \<Rightarrow> 'l bash_state \<Rightarrow> ('l bash_state, 'l bash_result) flow option" where
  "bash_heredoc_arrow E v = (\<lambda>(s, l).
     if v HEREDOC_ARROW \<and> lookahead E l = ch CHR ''<'' then
       let l = advance E l in
       if lookahead E l = ch CHR ''<'' then
         let l = advance E l in
         if lookahead E l = ch CHR ''-''
         then Some (Return (True, bash_push_heredoc (heredoc_new\<lparr>allows_indent := True\<rparr>) s, set_symbol HEREDOC_ARROW_DASH (advance E l)))
         else if lookahead E l = ch CHR ''<'' \<or> lookahead E l = ch CHR ''='' then Some (Return (False, s, l))
         else Some (Return (True, bash_push_heredoc heredoc_new s, set_symbol HEREDOC_ARROW l))
       else Some (Return (False, s, l))
     else Some (Next (s, l)))"

definition bash_name_step :: "'l env \<Rightarrow> bool \<times> 'l bash_lexer \<Rightarrow> (bool \<times> 'l bash_lexer, bool \<times> 'l bash_lexer) flow option" where
  "bash_name_step E = (\<lambda>(is_number, l).
     if iswdigit E (lookahead E l) then Some (Next (is_number, advance E l))
     else if iswalpha E (lookahead E l) \<or> lookahead E l = ch CHR ''_'' then Some (Next (False, advance E l))
     else Some (Return (is_number, l)))"

definition bash_name_end :: "'l env \<Rightarrow> valid \<Rightarrow> bash_scanner \<Rightarrow> bool \<times> 'l bash_lexer \<Rightarrow> 'l bash_result" where
  "bash_name_end E v s = (\<lambda>(is_number, l).
     let c = lookahead E l in
     if is_number \<and> v FILE_DESCRIPTOR \<and> (c = ch CHR ''>'' \<or> c = ch CHR ''<'') then (True, s, set_symbol FILE_DESCRIPTOR l)
     else if v VARIABLE_NAME then
       if c = ch CHR ''+'' then
         let l = advance E (mark_end E l) in
         if lookahead E l = ch CHR ''='' \<or> lookahead E l = ch CHR '':'' \<or> v CLOSING_BRACE
         then (True, s, set_symbol VARIABLE_NAME l) else (False, s, l)
       else if c = ch CHR ''/'' then (False, s, l)
       else if c = ch CHR ''='' \<or> c = ch CHR ''['' \<or> c = ch CHR '':'' \<and> \<not> v CLOSING_BRACE \<and> \<not> v OPENING_PAREN
          \<or> c = ch CHR ''%'' \<or> c = ch CHR ''#'' \<and> \<not> is_number \<or> c = ch CHR ''@'' \<or> c = ch CHR ''-'' \<and> v CLOSING_BRACE
       then (True, s, set_symbol VARIABLE_NAME (mark_end E l))
       else if c = ch CHR ''?'' then
         let l = advance E (mark_end E l) in (iswalpha E (lookahead E l), s, set_symbol VARIABLE_NAME l)
       else (False, s, l)
     else (False, s, l))"

definition bash_name :: "'l env \<Rightarrow> valid \<Rightarrow> 'l bash_state \<Rightarrow> 'l bash_result option" where
  "bash_name E v = (\<lambda>(s, l).
     let c = lookahead E l in
     if iswdigit E c \<or> iswalpha E c \<or> c = ch CHR ''_''
     then map_option (bash_name_end E v s) (c_loop (bash_name_step E) (iswdigit E c, advance E l))
     else if c = ch CHR ''{'' then bash_brace_start E v (s, l)
     else if v EXPANSION_WORD then bash_expansion_word E v (s, l)
     else if v EXTGLOB_PATTERN then bash_extglob E v (s, l)
     else Some (False, s, l))"

definition bash_scan_name :: "'l env \<Rightarrow> valid \<Rightarrow> 'l bash_state \<Rightarrow> ('l bash_state, 'l bash_result) flow option" where
  "bash_scan_name E v = (\<lambda>(s, l).
     if (v VARIABLE_NAME \<or> v FILE_DESCRIPTOR \<or> v HEREDOC_ARROW) \<and> \<not> v REGEX_NO_SLASH \<and> \<not> in_error_recovery v
     then map_option Return
       (then_return
         (and_then (and_then (c_loop (bash_name_blank_step E v s) l) (bash_name_special E v)) (bash_heredoc_arrow E v))
         (bash_name E v))
     else Some (Next (s, l)))"

section \<open>The scan function\<close>

definition bash_scan :: "'l env \<Rightarrow> valid \<Rightarrow> bash_scanner \<Rightarrow> 'l bash_lexer \<Rightarrow> 'l bash_result option" where
  "bash_scan E v s l =
     then_return
       (and_then (and_then (and_then (and_then (and_then (and_then (and_then
         (bash_scan_concat E v (s, l))
         (bash_scan_double_hash E v))
         (bash_scan_expansion_sym E v))
         (bash_scan_empty_value E v))
         (bash_scan_heredoc E v))
         (bash_scan_test_operator E v))
         (bash_scan_name E v))
         (bash_try_dollar E v))
       (bash_regex E v)"

end
