(* ===== verification/Bash_Scan.thy ===== *)
theory Bash_Scan
  imports Bash_Scanner
begin

text \<open>
  What a scan of the Bash scanner does to the stack of heredocs: the scan returns, every
  delimiter stays a terminated string, and the stack changes as the reported token says.
\<close>

declare length_tl [simp del]

section \<open>The state\<close>

text \<open>
  A delimiter is unset or ends with the NUL the scanner appends to it. The word read at the
  start of a line is scratch space: \<open>bash_heredocs\<close> leaves it out.
\<close>

definition bash_wf :: "bash_scanner \<Rightarrow> bool" where
  "bash_wf s \<longleftrightarrow> list_all (\<lambda>h. delimiter h = [] \<or> last (delimiter h) = 0) (heredocs s)"

definition bash_heredocs :: "bash_scanner \<Rightarrow> bash_heredoc list" where
  "bash_heredocs s = map (\<lambda>h. h\<lparr>current_leading_word := []\<rparr>) (heredocs s)"

definition bash_same :: "valid \<Rightarrow> bash_scanner \<Rightarrow> bash_scanner \<Rightarrow> bool" where
  "bash_same v s s' \<longleftrightarrow> bash_heredocs s' = bash_heredocs s
     \<and> (last_glob_paren_depth s' = last_glob_paren_depth s \<or> v EXTGLOB_PATTERN)"

definition bash_last :: "bash_scanner \<Rightarrow> bash_scanner \<Rightarrow> (bash_heredoc \<Rightarrow> bash_heredoc) \<Rightarrow> bool" where
  "bash_last s s' f \<longleftrightarrow> bash_heredocs s \<noteq> [] \<and> bash_heredocs s' = butlast (bash_heredocs s) @ [f (last (bash_heredocs s))]"

definition bash_unstarted :: "bash_scanner \<Rightarrow> bool" where
  "bash_unstarted s \<longleftrightarrow> bash_heredocs s \<noteq> [] \<and> \<not> started (last (bash_heredocs s))"

text \<open>What a token means for the stack; \<open>e\<close> says that the scan has read all of the input.\<close>

definition bash_effect :: "bool \<Rightarrow> bash_token \<Rightarrow> bash_scanner \<Rightarrow> bash_scanner \<Rightarrow> bool" where
  "bash_effect e t s s' =
     (if t = HEREDOC_ARROW then bash_heredocs s' = bash_heredocs s @ [heredoc_new]
      else if t = HEREDOC_ARROW_DASH then bash_heredocs s' = bash_heredocs s @ [heredoc_new\<lparr>allows_indent := True\<rparr>]
      else if t = HEREDOC_START then
        (\<exists>r d. bash_last s s' (\<lambda>h. h\<lparr>is_raw := r, delimiter := d\<rparr>) \<and> d \<noteq> [] \<and> last d = 0)
      else if t = HEREDOC_BODY_BEGINNING then bash_unstarted s \<and> bash_last s s' (\<lambda>h. h\<lparr>started := True\<rparr>)
      else if t = SIMPLE_HEREDOC_BODY then bash_unstarted s \<and>
        (bash_heredocs s' = bash_heredocs s \<or> bash_last s s' (\<lambda>h. h\<lparr>started := True\<rparr>) \<or> e \<and> bash_last s s' reset_heredoc)
      else if t = HEREDOC_END then
        bash_heredocs s \<noteq> [] \<and> bash_heredocs s' = butlast (bash_heredocs s) \<or> e \<and> bash_last s s' reset_heredoc
      else bash_heredocs s' = bash_heredocs s)"

definition bash_may_report :: "valid \<Rightarrow> bash_token \<Rightarrow> bool" where
  "bash_may_report v t \<longleftrightarrow> v t
     \<or> t \<in> {HEREDOC_BODY_BEGINNING, SIMPLE_HEREDOC_BODY} \<and> (v HEREDOC_BODY_BEGINNING \<or> v SIMPLE_HEREDOC_BODY)
     \<or> t = HEREDOC_END \<and> v HEREDOC_CONTENT \<or> t = HEREDOC_ARROW_DASH \<and> v HEREDOC_ARROW
     \<or> t = VARIABLE_NAME \<and> (v FILE_DESCRIPTOR \<or> v HEREDOC_ARROW)
     \<or> t \<in> {EXTERNAL_EXPANSION_SYM_BANG, EXTERNAL_EXPANSION_SYM_EQUAL} \<and> v EXTERNAL_EXPANSION_SYM_HASH"

text \<open>
  A scan that reports nothing can still have changed the innermost heredoc: it is marked as
  started at a dollar sign that turns out to start no expansion, and it loses its delimiter
  when none is found.
\<close>

definition bash_unreported :: "valid \<Rightarrow> bash_scanner \<Rightarrow> bash_scanner \<Rightarrow> bool" where
  "bash_unreported v s s' \<longleftrightarrow> bash_heredocs s' = bash_heredocs s
     \<or> (v HEREDOC_BODY_BEGINNING \<or> v SIMPLE_HEREDOC_BODY) \<and> bash_unstarted s \<and> bash_last s s' (\<lambda>h. h\<lparr>started := True\<rparr>)
     \<or> v HEREDOC_START \<and> (\<exists>r. bash_last s s' (\<lambda>h. h\<lparr>is_raw := r, delimiter := []\<rparr>))"

definition bash_post :: "'l env \<Rightarrow> valid \<Rightarrow> bash_scanner \<Rightarrow> 'l bash_result \<Rightarrow> bool" where
  "bash_post E v s r \<longleftrightarrow> (case r of (b, s', l') \<Rightarrow>
     bash_wf s' \<and> (last_glob_paren_depth s' = last_glob_paren_depth s \<or> v EXTGLOB_PATTERN) \<and>
     (if b then bash_may_report v (result_symbol l') \<and> bash_effect (eof E l') (result_symbol l') s s'
      else bash_unreported v s s'))"

abbreviation bash_neutral :: "bash_token \<Rightarrow> bool" where
  "bash_neutral t \<equiv> t \<notin> {HEREDOC_ARROW, HEREDOC_ARROW_DASH, HEREDOC_START, HEREDOC_BODY_BEGINNING, SIMPLE_HEREDOC_BODY, HEREDOC_END}"

text \<open>What the blocks promise that do not deal with heredocs.\<close>

definition bash_plain :: "valid \<Rightarrow> bash_scanner \<Rightarrow> 'l bash_result \<Rightarrow> bool" where
  "bash_plain v s r \<longleftrightarrow> (case r of (b, s', l') \<Rightarrow>
     bash_same v s s' \<and> (b \<longrightarrow> bash_neutral (result_symbol l') \<and> bash_may_report v (result_symbol l')))"

lemma bash_wf_iff: "bash_wf s \<longleftrightarrow> list_all (\<lambda>h. delimiter h = [] \<or> last (delimiter h) = 0) (bash_heredocs s)"
  by (simp add: bash_wf_def bash_heredocs_def list.pred_map comp_def)

lemma bash_same_refl [simp]: "bash_same v s s"
  by (simp add: bash_same_def)

lemma bash_same_trans: "bash_same v s s' \<Longrightarrow> bash_same v s' s'' \<Longrightarrow> bash_same v s s''"
  by (auto simp: bash_same_def)

lemma bash_same_depth [simp]: "v EXTGLOB_PATTERN \<Longrightarrow> bash_same v s (s'\<lparr>last_glob_paren_depth := d\<rparr>) \<longleftrightarrow> bash_same v s s'"
  by (simp add: bash_same_def bash_heredocs_def)

lemma bash_plain_post:
  assumes "bash_wf s0" and "bash_same v s0 s" and "bash_plain v s r"
  shows "bash_post E v s0 r"
  using assms by (auto simp: bash_plain_def bash_post_def bash_same_def bash_wf_iff bash_effect_def bash_unreported_def split: prod.splits)

lemma bash_may_report_valid: "v t \<Longrightarrow> bash_may_report v t"
  by (simp add: bash_may_report_def)

lemma bash_plain_fail [simp]: "bash_plain v s (False, s', l) \<longleftrightarrow> bash_same v s s'"
  by (simp add: bash_plain_def)

lemma bash_plain_valid:
  "bash_same v s s' \<Longrightarrow> bash_neutral (result_symbol l) \<Longrightarrow> v (result_symbol l) \<Longrightarrow> bash_plain v s (b, s', l)"
  by (simp add: bash_plain_def bash_may_report_valid)

section \<open>The last blocks\<close>

lemma isdigit_0 [simp]: "\<not> isdigit 0"
  by (simp add: isdigit_def)

context ts_lexer
begin

abbreviation bash_left :: "'l bash_lexer \<Rightarrow> nat" where
  "bash_left l \<equiv> length (rest (raw l))"

lemma bash_tl [simp]: "length (tl xs) \<le> length xs"
  by (simp add: length_tl)

lemma bash_tl_less [simp]: "lookahead E l \<noteq> 0 \<Longrightarrow> length (tl (rest (raw l))) < bash_left l"
  using remaining_pos [of l] by (simp add: length_tl)

lemma bash_tl_less' [simp]: "rest (raw l) \<noteq> [] \<Longrightarrow> length (tl (rest (raw l))) < bash_left l"
  by (cases "rest (raw l)") simp_all

lemma bash_less:
  assumes "lookahead E l \<noteq> 0" and "bash_left l \<le> n"
  shows "length (tl (rest (raw l))) < n" "length (tl (tl (rest (raw l)))) < n" "length (tl (tl (tl (rest (raw l))))) < n"
proof -
  show "length (tl (rest (raw l))) < n" using less_le_trans [OF bash_tl_less [OF assms(1)] assms(2)] .
  then show "length (tl (tl (rest (raw l)))) < n" "length (tl (tl (tl (rest (raw l))))) < n" by (simp_all add: length_tl)
qed

lemma runs_bash_brace_start: "runs (bash_brace_start E v (s, l)) (bash_plain v s)"
  unfolding bash_brace_start_def prod.case Let_def
  by (auto simp: bash_plain_valid runs_if intro!: wp_while_le)

lemma runs_bash_paren:
  assumes "v EXPANSION_WORD"
  shows "runs (c_loop (bash_paren_step E s) (once, space, l)) (case_flow (\<lambda>(once, space, l'). bash_left l' \<le> bash_left l) (bash_plain v s))"
proof (rule runs_c_loop [where m = "\<lambda>(once, space, l'). bash_left l'" and I = "\<lambda>(once, space, l'). bash_left l' \<le> bash_left l"], goal_cases)
  case (2 x)
  obtain o1 s1 l1 where x: "x = (o1, s1, l1)" by (cases x)
  have "length (tl (rest (raw l1))) \<le> bash_left l" using 2 x by (auto simp: length_tl)
  with 2 x assms show ?case
    unfolding x bash_paren_step_def prod.case Let_def
    by (intro runs_ifI) (auto simp: bash_plain_valid)
qed simp

lemma runs_bash_expansion_word: "runs (bash_expansion_word E v (s, l)) (bash_plain v s)"
proof (cases "v EXPANSION_WORD")
  case False
  then show ?thesis by (simp add: bash_expansion_word_def runs_bash_brace_start)
next
  case True
  have "runs (c_loop (bash_expansion_step E s) (False, False, l)) (bash_plain v s)"
  proof (rule runs_c_loop [where m = "\<lambda>(once, space, l'). bash_left l'" and I = "\<lambda>_. True"], goal_cases)
    case (2 x)
    obtain o1 s1 l1 where x: "x = (o1, s1, l1)" by (cases x)
    let ?I = "\<lambda>(once :: bool, space :: bool, l'). bash_left l' \<le> bash_left l1"
    have dollar: "runs (bash_expansion_dollar E s (o1, s1, l1)) (case_flow ?I (bash_plain v s))"
      unfolding bash_expansion_dollar_def prod.case Let_def
      by (intro runs_ifI) (use True in \<open>auto simp: bash_plain_valid\<close>)
    have paren: "runs (bash_expansion_paren E s y) (case_flow ?I (bash_plain v s))" if "?I y" for y
    proof -
      obtain o2 s2 l2 where y: "y = (o2, s2, l2)" by (cases y)
      have le: "length (tl (rest (raw l2))) \<le> bash_left l1" using that y by (auto simp: length_tl)
      have tl: "length (tl (rest (raw l3))) \<le> bash_left l1" if "bash_left l3 \<le> bash_left l1" for l3 :: "'l bash_lexer"
        using that by (simp add: length_tl)
      show ?thesis
        unfolding y bash_expansion_paren_def prod.case
      proof (rule runs_ifI, goal_cases)
        case 1
        have "runs (c_loop (bash_paren_step E s) (o2, s2, advance E (mark_end E l2))) (case_flow ?I (bash_plain v s))"
          by (rule runs_weaken [OF runs_bash_paren [where v = v, OF True]]) (use le in \<open>auto split: flow.splits\<close>)
        then show ?case
          by (rule runs_and_then_inv) (auto simp: Let_def tl runs_if)
      qed (use that y in simp)
    qed
    have less: "length (tl (rest (raw l3))) < bash_left l1" if "bash_left l3 \<le> bash_left l1" "rest (raw l3) \<noteq> []" for l3 :: "'l bash_lexer"
      using that by (cases "rest (raw l3)") auto
    show ?case
      unfolding x bash_expansion_step_def prod.case
    proof (rule runs_ifI, goal_cases)
      case 2
      show ?case
      proof (rule runs_and_then_inv [OF dollar], goal_cases)
        case (1 y)
        obtain o2 s2 l2 where y: "y = (o2, s2, l2)" by (cases y)
        show ?case
          unfolding y prod.case
        proof (rule runs_ifI, goal_cases)
          case 2
          from 1 y have "?I (o2, s2, l2)" by simp
          then show ?case
            by (rule runs_and_then_inv [OF paren]) (auto simp: less runs_if)
        qed (use True in \<open>simp add: bash_plain_valid\<close>)
      qed
    qed simp
  qed simp
  with True show ?thesis by (simp add: bash_expansion_word_def)
qed

text \<open>A block that leaves the scanner alone when it falls through.\<close>

abbreviation bash_falls :: "valid \<Rightarrow> bash_scanner \<Rightarrow> ('l bash_state, 'l bash_result) flow \<Rightarrow> bool" where
  "bash_falls v s \<equiv> case_flow (\<lambda>(s', l). s' = s) (bash_plain v s)"

lemma bash_falls_seq:
  assumes "runs c (bash_falls v s)" and "\<And>l. runs (f (s, l)) (bash_falls v s)"
  shows "runs (and_then c f) (bash_falls v s)"
  by (rule runs_and_then_inv [OF assms(1)]) (use assms(2) in auto)

lemma bash_falls_return:
  assumes "runs c (bash_falls v s)" and "\<And>l. runs (f (s, l)) (bash_plain v s)"
  shows "runs (then_return c f) (bash_plain v s)"
  by (rule runs_then_return_inv [OF assms(1)]) (use assms(2) in auto)

lemma runs_bash_glob_loop:
  assumes "v EXTGLOB_PATTERN"
  shows "runs (c_loop (bash_glob_step E s) (saw, d, l)) (bash_plain v s)"
proof (rule runs_c_loop [where m = "\<lambda>(saw, d, l'). bash_left l'" and I = "\<lambda>_. True"], goal_cases)
  case (2 x)
  obtain w1 d1 l1 where x: "x = (w1, d1, l1)" by (cases x)
  obtain fin d2 where count: "bash_count (lookahead E l1) d1 = (fin, d2)" by (cases "bash_count (lookahead E l1) d1")
  have leave: "bash_plain v s (bash_glob_leave E b n (s, l'))" for b n and l' :: "'l bash_lexer"
    using assms by (simp add: bash_glob_leave_def bash_plain_valid)
  have char: "runs (bash_glob_char E s d2 (w1, l2)) (case_flow (\<lambda>y. True \<and> (case y of (saw, d, l') \<Rightarrow> bash_left l') < bash_left l1) (bash_plain v s))"
    if "bash_left l2 \<le> bash_left l1" "lookahead E l2 \<noteq> 0 \<or> bash_left l2 < bash_left l1" for l2
  proof -
    have less: "length (tl (rest (raw l2))) < bash_left l1" "length (tl (tl (rest (raw l2)))) < bash_left l1"
      "length (tl (tl (tl (rest (raw l2))))) < bash_left l1"
      using that bash_less [of l2 "bash_left l1"] by (auto simp: length_tl)
    show ?thesis
      unfolding bash_glob_char_def prod.case Let_def by (auto simp: leave less runs_if)
  qed
  show ?case
    unfolding x bash_glob_step_def prod.case count Let_def
    by (intro runs_ifI) (use assms in \<open>auto simp: leave bash_plain_valid intro!: char\<close>)
qed simp

lemma bash_esac_keeps: "bash_esac E l = (b, l') \<Longrightarrow> result_symbol l' = result_symbol l"
  by (auto simp: bash_esac_def Let_def split: if_splits)

lemma runs_bash_extglob_blocks:
  assumes "v EXTGLOB_PATTERN"
  shows "runs (bash_extglob_backslash E (s, l)) (bash_falls v s)" "runs (bash_extglob_paren E (s, l)) (bash_falls v s)"
    "runs (bash_extglob_first E (s, l)) (bash_falls v s)" "runs (bash_extglob_dash E (s, l)) (bash_falls v s)"
    "runs (bash_extglob_stop E b (s, l)) (bash_falls v s)"
proof -
  show "runs (bash_extglob_backslash E (s, l)) (bash_falls v s)" by (simp add: bash_extglob_backslash_def Let_def)
  show "runs (bash_extglob_paren E (s, l)) (bash_falls v s)" by (simp add: bash_extglob_paren_def Let_def)
  show "runs (bash_extglob_first E (s, l)) (bash_falls v s)"
    by (auto simp: bash_extglob_first_def split: prod.splits bool.splits)
  show "runs (bash_extglob_dash E (s, l)) (bash_falls v s)"
    unfolding bash_extglob_dash_def prod.case by (auto simp: runs_if intro!: wp_while_le)
  show "runs (bash_extglob_stop E b (s, l)) (bash_falls v s)"
    unfolding bash_extglob_stop_def prod.case Let_def
  proof (rule bash_falls_seq, goal_cases)
    case (2 l)
    show ?case
      unfolding prod.case
    proof (rule runs_ifI, goal_cases)
      case 2
      show ?case
        by (rule bash_falls_seq; (unfold prod.case)?; intro runs_ifI) (use assms in \<open>simp_all add: bash_plain_valid\<close>)
    qed (use assms in \<open>simp add: bash_plain_valid\<close>)
  qed (use assms in \<open>simp add: bash_plain_valid\<close>)
qed

lemma runs_bash_extglob: "runs (bash_extglob E v (s, l)) (bash_plain v s)"
proof (cases "v EXTGLOB_PATTERN \<and> \<not> in_error_recovery v")
  case False
  show ?thesis unfolding bash_extglob_def prod.case if_not_P [OF False] by (rule runs_bash_expansion_word)
next
  case True
  then have v: "v EXTGLOB_PATTERN" by simp
  note blocks = runs_bash_extglob_blocks [where v = v, OF v]
  show ?thesis
    unfolding bash_extglob_def prod.case if_P [OF True] runs_bind
  proof (rule wp_while_le(2), simp, rule runs_ifI, goal_cases)
    case (1 l1)
    show ?case
    proof (rule bash_falls_return, goal_cases)
      case (2 l)
      show ?case unfolding prod.case Let_def by (rule bash_falls_return, intro bash_falls_seq blocks) (simp add: runs_bash_glob_loop v)
    qed (intro bash_falls_seq blocks)
  qed (simp add: v)
qed

lemma runs_bash_regex_loop:
  assumes "v REGEX \<or> v REGEX_NO_SLASH \<or> v REGEX_NO_SPACE"
  shows "runs (c_loop (bash_regex_step E v s) (st, l)) (bash_plain v s)"
proof (rule runs_c_loop [where m = "\<lambda>(st, l'). bash_left l'" and I = "\<lambda>_. True"], goal_cases)
  case (2 x)
  obtain st1 l1 where x: "x = (st1, l1)" by (cases x)
  define st2 where "st2 = (if in_single_quote st1 \<and> lookahead E l1 = ch CHR 0x27 then st1\<lparr>in_single_quote := False\<rparr> else st1)"
  define l2 where "l2 = (if in_single_quote st1 \<and> lookahead E l1 = ch CHR 0x27 then mark_end E (advance E l1) else l1)"
  have pair: "(if in_single_quote st1 \<and> lookahead E l1 = ch CHR 0x27
      then (st1\<lparr>in_single_quote := False\<rparr>, mark_end E (advance E l1)) else (st1, l1)) = (st2, l2)"
    by (simp add: st2_def l2_def)
  obtain fin st3 where count: "bash_regex_count (lookahead E l2) st2 = (fin, st3)" by (cases "bash_regex_count (lookahead E l2) st2")
  have le: "bash_left l2 \<le> bash_left l1" by (simp add: l2_def)
  note less = bash_less(1,2) [OF _ le]
  let ?Q = "case_flow (\<lambda>y. True \<and> (case y of (st, l') \<Rightarrow> bash_left l') < (case x of (st, l') \<Rightarrow> bash_left l')) (bash_plain v s)"
  have "?Q (bash_regex_any E (st3, l2))" if "lookahead E l2 \<noteq> 0"
    using less [OF that] x by (simp add: bash_regex_any_def Let_def)
  moreover have "?Q (bash_regex_no_slash E s (st3, l2))" if "lookahead E l2 \<noteq> 0" "v REGEX_NO_SLASH"
    using less [OF that(1)] that(2) x by (auto simp: bash_regex_no_slash_def Let_def bash_plain_valid)
  moreover have "?Q (bash_regex_no_space E s (st3, l2))" if "lookahead E l2 \<noteq> 0" "v REGEX_NO_SPACE"
    using less [OF that(1)] that(2) x by (auto simp: bash_regex_no_space_def Let_def bash_plain_valid)
  moreover have "bash_plain v s (b, s, set_symbol (if v REGEX_NO_SLASH then REGEX_NO_SLASH else if v REGEX_NO_SPACE then REGEX_NO_SPACE else REGEX) l2)" for b
    using assms by (auto simp: bash_plain_valid)
  ultimately show ?case
    unfolding x bash_regex_step_def prod.case Let_def [of "if in_single_quote _ \<and> _ then _ else _"] pair Let_def count
    by (intro runs_ifI) (use assms less x in auto)
qed simp

lemma runs_bash_regex: "runs (bash_regex E v (s, l)) (bash_plain v s)"
proof (cases "(v REGEX \<or> v REGEX_NO_SLASH \<or> v REGEX_NO_SPACE) \<and> \<not> in_error_recovery v")
  case False
  show ?thesis unfolding bash_regex_def prod.case if_not_P [OF False] by (rule runs_bash_extglob)
next
  case True
  have skip: "runs (if v REGEX \<or> v REGEX_NO_SPACE then skip_while E (iswspace E) l else Some l) (\<lambda>_. True)"
    by (intro runs_ifI wp_while_le) simp_all
  show ?thesis
    unfolding bash_regex_def prod.case if_P [OF True] runs_bind Let_def
    by (rule runs_weaken [OF skip], intro runs_ifI runs_bash_extglob runs_bash_regex_loop) (use True in simp_all)
qed

section \<open>The first blocks\<close>

lemma runs_advance_until:
  assumes "\<And>l'. result_symbol l' = result_symbol l \<Longrightarrow> Q l'"
  shows "runs (advance_until E c l) Q"
  unfolding advance_until_def
  by (rule runs_while_option [where m = "\<lambda>l'. length (rest (raw l'))" and I = "\<lambda>l'. result_symbol l' = result_symbol l"])
    (use assms in \<open>auto simp: length_tl\<close>)

lemma runs_bash_scan_concat: "runs (bash_scan_concat E v (s, l)) (bash_falls v s)"
proof (cases "v CONCAT \<and> \<not> in_error_recovery v")
  case True
  then have v: "v CONCAT" by simp
  have "runs (bash_concat_first E v (s, l)) (bash_falls v s)"
    unfolding bash_concat_first_def prod.case Let_def runs_bind
    by (intro runs_ifI) (use v in \<open>auto simp: bash_plain_valid runs_if intro!: runs_advance_until\<close>)
  then show ?thesis
    unfolding bash_scan_concat_def if_P [OF True] by (rule bash_falls_seq) (use v in \<open>simp add: bash_plain_valid\<close>)
qed (auto simp: bash_scan_concat_def)

lemma bash_may_report_sym: "v EXTERNAL_EXPANSION_SYM_HASH \<Longrightarrow>
    bash_may_report v EXTERNAL_EXPANSION_SYM_HASH \<and> bash_may_report v EXTERNAL_EXPANSION_SYM_BANG \<and> bash_may_report v EXTERNAL_EXPANSION_SYM_EQUAL"
  by (simp add: bash_may_report_def)

lemma runs_bash_small_blocks:
  "runs (bash_scan_double_hash E v (s, l)) (bash_falls v s)"
  "runs (bash_scan_expansion_sym E v (s, l)) (bash_falls v s)"
  "runs (bash_scan_empty_value E v (s, l)) (bash_falls v s)"
proof -
  show "runs (bash_scan_double_hash E v (s, l)) (bash_falls v s)"
    by (simp add: bash_scan_double_hash_def bash_plain_valid Let_def)
  show "runs (bash_scan_expansion_sym E v (s, l)) (bash_falls v s)"
    unfolding bash_scan_expansion_sym_def prod.case Let_def
    by (auto simp: runs_if bash_plain_def bash_may_report_sym intro!: wp_while_le)
  show "runs (bash_scan_empty_value E v (s, l)) (bash_falls v s)"
    by (simp add: bash_scan_empty_value_def bash_plain_valid)
qed

lemma runs_bash_bare_dollar: "runs (bash_scan_bare_dollar E l) (\<lambda>(b, l'). b \<longrightarrow> result_symbol l' = BARE_DOLLAR)"
proof -
  have "runs (while_option (\<lambda>l. iswspace E (lookahead E l) \<and> lookahead E l \<noteq> ch CHR 0x0A \<and> \<not> eof E l) (skip E) l) (\<lambda>_. True)"
    by (rule runs_while_option [where m = bash_left and I = "\<lambda>_. True"]) simp_all
  then show ?thesis unfolding bash_scan_bare_dollar_def runs_bind by (rule runs_weaken) (simp add: Let_def)
qed

lemma runs_bash_try_dollar: "runs (bash_try_dollar E v (s, l)) (bash_falls v s)"
  unfolding bash_try_dollar_def prod.case
  by (intro runs_ifI) (auto simp: bash_plain_valid intro!: runs_weaken [OF runs_bash_bare_dollar])

lemma runs_bash_test_operator: "runs (bash_scan_test_operator E v (s, l)) (bash_falls v s)"
proof (cases "v TEST_OPERATOR \<and> \<not> v EXPANSION_WORD")
  case True
  then have v: "v TEST_OPERATOR" "\<not> v EXPANSION_WORD" by simp_all
  have jump: "runs (map_option Return (f E v (s, l'))) (bash_falls v s)" if "runs (f E v (s, l')) (bash_plain v s)" for f and l' :: "'l bash_lexer"
    using that by simp
  have backslash: "runs (bash_test_backslash E v (s, l')) (bash_falls v s)" for l'
    unfolding bash_test_backslash_def prod.case Let_def
    by (intro runs_ifI jump runs_bash_extglob runs_bash_regex; (rule bash_falls_seq)?) (auto intro!: wp_while_le)
  have newline: "runs (bash_test_newline E v (s, l')) (bash_falls v s)" for l'
    unfolding bash_test_newline_def prod.case by (auto simp: runs_if intro!: wp_while_le)
  have dash: "runs (bash_test_dash E v (s, l')) (bash_falls v s)" for l'
    unfolding bash_test_dash_def prod.case Let_def by (auto simp: runs_if v bash_plain_valid intro!: wp_while_le)
  show ?thesis
    unfolding bash_scan_test_operator_def prod.case if_P [OF True] runs_bind
    by (rule wp_while_le(2), simp, intro bash_falls_seq backslash newline dash runs_bash_try_dollar)
next
  case False
  show ?thesis unfolding bash_scan_test_operator_def prod.case if_not_P [OF False] by simp
qed

end

section \<open>Heredocs\<close>

text \<open>The bytes of a delimiter up to its NUL are what the start of a line is compared with.\<close>

definition c_string :: "byte list \<Rightarrow> byte list" where
  "c_string d = takeWhile (\<lambda>b. b \<noteq> 0) d"

lemma strcmp_eq_prefix:
  assumes "take (length w) d = w" and "0 \<notin> set w" and "length w < length d"
  shows "strcmp_eq (w @ [0]) d = Some (d ! length w = 0)" and "d ! length w = 0 \<longleftrightarrow> w = c_string d"
proof -
  obtain e where d: "d = w @ e" using assms(1) by (metis append_take_drop_id)
  with assms(3) obtain a e' where e: "e = a # e'" by (cases e) auto
  have "strcmp_eq (w @ [0]) (w @ e) = strcmp_eq [0] e" using assms(2) by (induction w) auto
  then show "strcmp_eq (w @ [0]) d = Some (d ! length w = 0)" using d e by (cases "a = 0") simp_all
  have "c_string d = w @ takeWhile (\<lambda>b. b \<noteq> 0) e"
    unfolding c_string_def d using assms(2) by (intro takeWhile_append2) auto
  then show "d ! length w = 0 \<longleftrightarrow> w = c_string d" using d e by simp
qed

definition bash_at :: "bash_scanner \<Rightarrow> bash_heredoc list \<Rightarrow> bash_heredoc \<Rightarrow> bool \<Rightarrow> byte list \<Rightarrow> bash_scanner" where
  "bash_at s hs h b w = s\<lparr>heredocs := hs @ [h\<lparr>started := b, current_leading_word := w\<rparr>]\<rparr>"

lemma bash_at_simps [simp]:
  "heredocs (bash_at s hs h b w) = hs @ [h\<lparr>started := b, current_leading_word := w\<rparr>]"
  "bash_set_heredoc (h\<lparr>started := b', current_leading_word := w'\<rparr>) (bash_at s hs h b w) = bash_at s hs h b' w'"
  "bash_set_heredoc (h\<lparr>current_leading_word := w', started := b'\<rparr>) (bash_at s hs h b w) = bash_at s hs h b' w'"
  "last_glob_paren_depth (bash_at s hs h b w) = last_glob_paren_depth s"
  "heredocs s = hs @ [h] \<Longrightarrow> bash_at s hs h (started h) (current_leading_word h) = s"
  by (simp_all add: bash_at_def bash_set_heredoc_def)

lemma bash_glob_set [simp]: "last_glob_paren_depth (bash_set_heredoc h s) = last_glob_paren_depth s"
  by (simp add: bash_set_heredoc_def)

lemma bash_heredocs_append [simp]: "heredocs s = hs @ [h] \<Longrightarrow>
    bash_heredocs s = map (\<lambda>h. h\<lparr>current_leading_word := []\<rparr>) hs @ [h\<lparr>current_leading_word := []\<rparr>]"
  by (simp add: bash_heredocs_def)

text \<open>The body of a heredoc: both pairs of tokens the function is called with.\<close>

definition bash_body :: "bash_token \<Rightarrow> bash_token \<Rightarrow> bash_heredoc \<Rightarrow> bool" where
  "bash_body middle end_type h \<longleftrightarrow> middle = HEREDOC_BODY_BEGINNING \<and> end_type = SIMPLE_HEREDOC_BODY \<and> \<not> started h
     \<or> middle = HEREDOC_CONTENT \<and> end_type = HEREDOC_END \<and> started h"

definition bash_body_post :: "'l env \<Rightarrow> bash_token \<Rightarrow> bash_token \<Rightarrow> bash_scanner \<Rightarrow> bash_heredoc list \<Rightarrow> bash_heredoc \<Rightarrow> 'l bash_result \<Rightarrow> bool" where
  "bash_body_post E middle end_type s hs h = (\<lambda>(ok, s', l').
     if ok then
       result_symbol l' = middle \<and> (\<exists>w. s' = bash_at s hs h True w)
       \<or> result_symbol l' = end_type \<and> end_type = SIMPLE_HEREDOC_BODY \<and> (\<exists>b w. s' = bash_at s hs h b w)
       \<or> result_symbol l' = end_type \<and> eof E l' \<and> (\<exists>w. s' = s\<lparr>heredocs := hs @ [reset_heredoc (h\<lparr>current_leading_word := w\<rparr>)]\<rparr>)
     else (\<exists>b w. s' = bash_at s hs h b w \<and> (started h \<longrightarrow> b)))"

definition bash_body_inv :: "bash_scanner \<Rightarrow> bash_heredoc list \<Rightarrow> bash_heredoc \<Rightarrow> bash_scanner \<Rightarrow> bool" where
  "bash_body_inv s hs h s' \<longleftrightarrow> (\<exists>b w. s' = bash_at s hs h b w \<and> (started h \<longrightarrow> b))"

lemma bash_body_inv_at [simp]: "(started h \<longrightarrow> b) \<Longrightarrow> bash_body_inv s hs h (bash_at s hs h b w)"
  by (auto simp: bash_body_inv_def)

lemma bash_body_posts:
  "result_symbol l = middle \<Longrightarrow> bash_body_post E middle end_type s hs h (True, bash_at s hs h True w, l)"
  "result_symbol l = SIMPLE_HEREDOC_BODY \<Longrightarrow> bash_body_post E middle SIMPLE_HEREDOC_BODY s hs h (True, bash_at s hs h b w, l)"
  "(started h \<longrightarrow> b) \<Longrightarrow> bash_body_post E middle end_type s hs h (False, bash_at s hs h b w, l)"
  by (auto simp: bash_body_post_def)

lemma bash_post_cong:
  assumes "bash_same v s0 s"
  shows "bash_post E v s r = bash_post E v s0 r"
proof -
  have same: "bash_heredocs s = bash_heredocs s0" "last_glob_paren_depth s = last_glob_paren_depth s0 \<or> v EXTGLOB_PATTERN"
    using assms by (simp_all add: bash_same_def)
  then have last: "bash_last s = bash_last s0" by (simp add: fun_eq_iff bash_last_def)
  have un: "bash_unstarted s = bash_unstarted s0" by (simp add: bash_unstarted_def same(1))
  have "bash_effect e t s = bash_effect e t s0" for e t by (simp add: fun_eq_iff bash_effect_def last same(1) un)
  with same(2) show ?thesis unfolding bash_post_def bash_unreported_def same(1) last un by (cases "v EXTGLOB_PATTERN") simp_all
qed

lemma bash_body_post_imp:
  assumes "bash_wf s" and h: "heredocs s = hs @ [h]" and body: "bash_body middle end_type h"
    and v: "middle = HEREDOC_BODY_BEGINNING \<Longrightarrow> v HEREDOC_BODY_BEGINNING \<or> v SIMPLE_HEREDOC_BODY" "middle = HEREDOC_CONTENT \<Longrightarrow> v HEREDOC_CONTENT"
    and r: "bash_body_post E middle end_type s hs h r"
  shows "bash_post E v s r"
proof -
  obtain ok s' l' where x: "r = (ok, s', l')" by (cases r)
  have wf: "bash_wf (bash_at s hs h b w)" "bash_wf (s\<lparr>heredocs := hs @ [reset_heredoc (h\<lparr>current_leading_word := w\<rparr>)]\<rparr>)" for b w
    using assms(1) h by (simp_all add: bash_wf_def reset_heredoc_def)
  have at: "bash_last s (bash_at s hs h b w) (\<lambda>h. h\<lparr>started := b\<rparr>)" for b w
    by (simp add: bash_last_def bash_heredocs_def h)
  have reset: "bash_last s (s\<lparr>heredocs := hs @ [reset_heredoc (h\<lparr>current_leading_word := w\<rparr>)]\<rparr>) reset_heredoc" for w
    by (simp add: bash_last_def bash_heredocs_def h reset_heredoc_def)
  have same: "bash_heredocs (bash_at s hs h (started h) w) = bash_heredocs s" for w
    by (cases h) (simp add: bash_heredocs_def h)
  have sameT: "bash_heredocs (bash_at s hs h True w) = bash_heredocs s" if "started h" for w
    using same [of w] that by simp
  have un: "bash_unstarted s" if "\<not> started h" using that by (simp add: bash_unstarted_def bash_heredocs_def h)
  show ?thesis
  proof (cases ok)
    case False
    with r x obtain b w where s': "s' = bash_at s hs h b w" "started h \<longrightarrow> b" by (auto simp: bash_body_post_def)
    with same have "bash_heredocs s' = bash_heredocs s" if "b \<longleftrightarrow> started h" using that by simp
    with False at un s' body v show ?thesis unfolding x by (cases b; cases "started h") (auto simp: bash_post_def bash_unreported_def bash_body_def wf)
  next
    case True
    have sym: "middle \<noteq> end_type" using body by (auto simp: bash_body_def)
    from r x True consider (mid) w where "result_symbol l' = middle" "s' = bash_at s hs h True w"
      | (simple) b w where "result_symbol l' = SIMPLE_HEREDOC_BODY" "end_type = SIMPLE_HEREDOC_BODY" "s' = bash_at s hs h b w"
      | (stop) w where "result_symbol l' = end_type" "eof E l'" "s' = s\<lparr>heredocs := hs @ [reset_heredoc (h\<lparr>current_leading_word := w\<rparr>)]\<rparr>"
      by (auto simp: bash_body_post_def)
    then show ?thesis
    proof cases
      case mid
      then show ?thesis using body v True at [of True] un
        unfolding x by (auto simp: bash_post_def wf bash_body_def bash_effect_def bash_may_report_def sameT simp del: bash_heredocs_append)
    next
      case simple
      then show ?thesis using body v True at [of True] same un
        unfolding x by (cases b) (auto simp: bash_post_def wf bash_body_def bash_effect_def bash_may_report_def)
    next
      case stop
      then show ?thesis using body v True reset un
        unfolding x by (auto simp: bash_post_def wf bash_body_def bash_effect_def bash_may_report_def)
    qed
  qed
qed

context ts_lexer
begin

lemma runs_bash_end_identifier:
  assumes "delimiter h = [] \<or> last (delimiter h) = 0"
  shows "runs (bash_scan_heredoc_end_identifier E h l) (\<lambda>(b, h', l'). \<exists>w.
     h' = h\<lparr>current_leading_word := w @ [0]\<rparr> \<and> result_symbol l' = result_symbol l \<and> rest (raw l) = map sint w @ rest (raw l')
     \<and> (b \<longleftrightarrow> delimiter h \<noteq> [] \<and> w = c_string (delimiter h)) \<and> take (length w) (delimiter h) = w \<and> 0 \<notin> set w
     \<and> (b \<or> delimiter h = [] \<or> lookahead E l' \<in> {0, 10} \<or> lookahead E l' \<noteq> sint (delimiter h ! length w)))"
proof (cases "delimiter h = []")
  case True
  then show ?thesis by (simp add: bash_scan_heredoc_end_identifier_def)
next
  case False
  let ?d = "delimiter h"
  let ?I = "\<lambda>(w, l'). take (length w) ?d = w \<and> 0 \<notin> set w \<and> length w < length ?d \<and> rest (raw l) = map sint w @ rest (raw l')
     \<and> result_symbol l' = result_symbol l"
  let ?stop = "\<lambda>(w, l'). ?I (w, l') \<and> (lookahead E l' \<in> {0, 10} \<or> lookahead E l' \<noteq> sint (?d ! length w))"
  have "runs (c_loop (bash_leading_step E ?d) ([], l)) ?stop"
  proof (rule runs_c_loop [where m = "\<lambda>(w, l'). bash_left l'" and I = ?I], goal_cases)
    case 1
    then show ?case using False by simp
  next
    case (2 x)
    obtain w l1 where x: "x = (w, l1)" by (cases x)
    with 2 have I: "take (length w) ?d = w" "0 \<notin> set w" "length w < length ?d" "rest (raw l) = map sint w @ rest (raw l1)"
      "result_symbol l1 = result_symbol l" by auto
    show ?case
    proof (cases "lookahead E l1 \<noteq> 0 \<and> lookahead E l1 \<noteq> 10 \<and> sint (?d ! length w) = lookahead E l1")
      case True
      let ?c = "?d ! length w"
      have c: "word_of_int (lookahead E l1) = ?c" using True by (metis scast_eq scast_id)
      from True have nz: "?c \<noteq> 0" by auto
      have "Suc (length w) < length ?d"
      proof (rule ccontr)
        assume "\<not> ?thesis"
        with I(3) have "length w = length ?d - 1" by linarith
        then have "?c = last ?d" by (simp add: last_conv_nth False)
        with assms False nz show False by simp
      qed
      moreover have "take (Suc (length w)) ?d = w @ [?c]" using I(1,3) by (simp add: take_Suc_conv_app_nth)
      moreover from True have "rest (raw l1) \<noteq> []" by (auto simp: not_eof)
      then obtain a cs where r: "rest (raw l1) = a # cs" by (cases "rest (raw l1)") auto
      moreover have "a \<noteq> 0" "a \<noteq> 10" "sint ?c = a" "word_of_int a = ?c" using True c lookahead_Cons [OF r] by simp_all
      ultimately show ?thesis
        using I nz unfolding x bash_leading_step_def prod.case by simp
    next
      case False
      then show ?thesis using I unfolding x bash_leading_step_def prod.case by (auto simp: not_le)
    qed
  qed
  then show ?thesis
    unfolding bash_scan_heredoc_end_identifier_def if_not_P [OF False] runs_bind
    by (rule runs_weaken) (use False strcmp_eq_prefix in \<open>auto\<close>)
qed

abbreviation bash_body_flow where
  "bash_body_flow middle end_type s hs h n \<equiv>
     case_flow (\<lambda>(did :: bool, s', l'). bash_body_inv s hs h s' \<and> bash_left l' < n) (bash_body_post E middle end_type s hs h)"

lemma bash_content_dollar_ok:
  assumes "lookahead E l = 36" and "started h \<longrightarrow> b"
  shows "bash_body_flow middle end_type s hs h (bash_left l) (bash_content_dollar E middle (did, bash_at s hs h b w, l))"
proof -
  have "lookahead E l \<noteq> 0" using assms(1) by simp
  note less = bash_less [OF this order_refl]
  show ?thesis
    using assms(2) less by (simp add: bash_content_dollar_def Let_def bash_body_posts split: flow.split)
qed

lemma runs_bash_content_newline:
  assumes d: "delimiter h = [] \<or> last (delimiter h) = 0" and body: "bash_body middle end_type h"
    and "lookahead E l = 10" and b: "started h \<longrightarrow> b"
  shows "runs (bash_content_newline E middle end_type (did, bash_at s hs h b w, l)) (bash_body_flow middle end_type s hs h (bash_left l))"
proof -
  have "lookahead E l \<noteq> 0" using assms(3) by simp
  note less = bash_less [OF this order_refl]
  have skip: "runs (if a then advance_while E (iswspace E) (if c then skip E l else advance E l) else Some (if c then skip E l else advance E l))
      (\<lambda>l'. bash_left l' < bash_left l)" for a c
    by (cases c; intro runs_ifI wp_while_le(1)) (use less in auto)
  let ?h = "h\<lparr>started := b, current_leading_word := w\<rparr>"
  have id: "runs (bash_scan_heredoc_end_identifier E ?h l') (\<lambda>(b', h', l''). (\<exists>w'. h' = h\<lparr>started := b, current_leading_word := w'\<rparr>)
      \<and> result_symbol l'' = result_symbol l' \<and> bash_left l'' \<le> bash_left l')" for l'
    by (rule runs_weaken [OF runs_bash_end_identifier]) (use d in auto)
  show ?thesis
    unfolding bash_content_newline_def prod.case Let_def runs_bind bash_at_simps last_snoc
  proof (rule runs_weaken [OF skip], rule runs_weaken [OF id], goal_cases)
    case (1 l1 r)
    obtain b' h' l2 where r: "r = (b', h', l2)" by (cases r)
    with 1 obtain w' where h': "h' = h\<lparr>started := b, current_leading_word := w'\<rparr>" and l2: "bash_left l2 < bash_left l"
      "result_symbol l2 = (if b then middle else end_type)" by auto
    show ?case
      using body b l2 unfolding r h' prod.case by (auto simp: bash_body_def bash_body_posts)
  qed
qed

lemma runs_bash_content_default:
  assumes d: "delimiter h = [] \<or> last (delimiter h) = 0" and body: "bash_body middle end_type h"
    and "lookahead E l \<noteq> 0" and b: "started h \<longrightarrow> b"
  shows "runs (bash_content_default E middle end_type (did, bash_at s hs h b w, l)) (bash_body_flow middle end_type s hs h (bash_left l))"
proof -
  note less = bash_less [OF assms(3) order_refl]
  have skip: "runs (if did then advance_while E (iswspace E) l else skip_while E (iswspace E) l) (\<lambda>l'. bash_left l' \<le> bash_left l)"
    by (intro runs_ifI wp_while_le) simp_all
  have tl: "length (tl (rest (raw l'))) < bash_left l" if "bash_left l' \<le> bash_left l" for l' :: "'l bash_lexer"
    using that less(1) by (cases "rest (raw l')") (auto simp: length_tl)
  let ?h = "h\<lparr>started := b, current_leading_word := w\<rparr>"
  have id: "runs (bash_scan_heredoc_end_identifier E ?h l') (\<lambda>(b', h', l''). (\<exists>w'. h' = h\<lparr>started := b, current_leading_word := w'\<rparr>)
      \<and> result_symbol l'' = result_symbol l' \<and> bash_left l'' \<le> bash_left l')" for l'
    by (rule runs_weaken [OF runs_bash_end_identifier]) (use d in auto)
  show ?thesis
    unfolding bash_content_default_def prod.case Let_def bash_at_simps last_snoc
  proof (rule runs_ifI, goal_cases)
    case 1
    show ?case
      unfolding runs_bind
    proof (rule runs_weaken [OF skip], rule runs_weaken [OF id], goal_cases)
      case (1 l1 r)
      obtain b' h' l2 where r: "r = (b', h', l2)" by (cases r)
      with 1 obtain w' where h': "h' = h\<lparr>started := b, current_leading_word := w'\<rparr>" and l2: "bash_left l2 \<le> bash_left l"
        "result_symbol l2 = (if end_type \<noteq> SIMPLE_HEREDOC_BODY then middle else end_type)"
        by (cases "end_type = SIMPLE_HEREDOC_BODY") auto
      show ?case
        using body b l2 tl [OF l2(1)] unfolding r h' prod.case by (auto simp: bash_body_def bash_body_posts)
    qed
  qed (use less b in simp)
qed

lemma runs_bash_heredoc_content:
  assumes h: "heredocs s = hs @ [h]" "delimiter h = [] \<or> last (delimiter h) = 0" and body: "bash_body middle end_type h"
  shows "runs (bash_scan_heredoc_content E middle end_type (s, l)) (bash_body_post E middle end_type s hs h)"
proof -
  have "runs (c_loop (bash_content_step E middle end_type) (False, s, l)) (bash_body_post E middle end_type s hs h)"
  proof (rule runs_c_loop [where m = "\<lambda>(did, s', l'). bash_left l'" and I = "\<lambda>(did, s', l'). bash_body_inv s hs h s'"], goal_cases)
    case 1
    show ?case using bash_body_inv_at [of h "started h" s hs "current_leading_word h"] h(1) by simp
  next
    case (2 x)
    obtain did s1 l1 where x: "x = (did, s1, l1)" by (cases x)
    with 2 obtain b w where s1: "s1 = bash_at s hs h b w" and b: "started h \<longrightarrow> b" by (auto simp: bash_body_inv_def)
    have eof: "rest (raw l1) = [] \<Longrightarrow> bash_body_post E middle end_type s hs h (True, bash_set_heredoc (reset_heredoc (last (heredocs s1))) s1, set_symbol end_type l1)"
      unfolding s1 by (auto simp: bash_body_post_def bash_set_heredoc_def reset_heredoc_def bash_at_def)
    have "runs (bash_content_step E middle end_type (did, s1, l1)) (bash_body_flow middle end_type s hs h (bash_left l1))"
      unfolding bash_content_step_def prod.case Let_def
    proof (intro runs_ifI, goal_cases)
      case 3
      then show ?case using b bash_less [of l1 "bash_left l1"] unfolding s1 by simp
    next
      case 4
      then show ?case unfolding s1 runs_Some by (intro bash_content_dollar_ok) (use b in simp_all)
    next
      case 5
      then show ?case unfolding s1 by (intro runs_bash_content_newline) (use b h(2) body in simp_all)
    next
      case 6
      then show ?case unfolding s1 by (intro runs_bash_content_default) (use b h(2) body in simp_all)
    qed (use eof s1 b in \<open>simp_all add: bash_body_posts\<close>)
    then show ?case unfolding x by (rule runs_weaken) (auto split: flow.splits)
  qed
  then show ?thesis by (simp add: bash_scan_heredoc_content_def h(1))
qed

lemma runs_bash_advance_word:
  "runs (bash_advance_word E w l) (\<lambda>(b, w', l'). result_symbol l' = result_symbol l \<and> (b \<longrightarrow> w' \<noteq> [] \<and> last w' = 0))"
proof -
  have "runs (c_loop (bash_word_step E q) (e, w, l1)) (\<lambda>(b, w', l'). result_symbol l' = result_symbol l \<and> (b \<longrightarrow> w' \<noteq> [] \<and> last w' = 0))"
    if "result_symbol l1 = result_symbol l" for q e l1
  proof (rule runs_c_loop [where m = "\<lambda>(e, w, l'). bash_left l'" and I = "\<lambda>(e, w, l'). result_symbol l' = result_symbol l"], goal_cases)
    case (2 x)
    then show ?case
      by (cases x) (auto simp: bash_word_step_def Let_def length_tl)
  qed (use that in simp)
  then show ?thesis by (simp add: bash_advance_word_def Let_def)
qed

lemma runs_bash_heredoc_start:
  assumes "bash_wf s" and "heredocs s \<noteq> []" and "v HEREDOC_START"
  shows "runs (do { (b, h, l) \<leftarrow> bash_scan_heredoc_start E (last (heredocs s)) l; Some (Return (b, bash_set_heredoc h s, l)) })
     (case_flow J (bash_post E v s))"
proof -
  obtain hs h where h: "heredocs s = hs @ [h]" using assms(2) by (metis append_butlast_last_id)
  have ok: "bash_post E v s (b, bash_set_heredoc (h\<lparr>is_raw := r, delimiter := (if b then w else [])\<rparr>) s, l')"
    if "result_symbol l' = HEREDOC_START" "b \<longrightarrow> w \<noteq> [] \<and> last w = 0" for b r w and l' :: "'l bash_lexer"
  proof -
    have "bash_wf (bash_set_heredoc (h\<lparr>is_raw := r, delimiter := (if b then w else [])\<rparr>) s)"
      using assms(1) h that(2) by (auto simp: bash_wf_def bash_set_heredoc_def)
    moreover have "bash_last s (bash_set_heredoc (h\<lparr>is_raw := r, delimiter := (if b then w else [])\<rparr>) s)
        (\<lambda>h. h\<lparr>is_raw := r, delimiter := (if b then w else [])\<rparr>)"
      by (simp add: bash_last_def bash_heredocs_def bash_set_heredoc_def h)
    ultimately show ?thesis
      using that assms(3) by (cases b) (auto simp: bash_post_def bash_effect_def bash_unreported_def bash_may_report_valid)
  qed
  show ?thesis
    unfolding bash_scan_heredoc_start_def runs_bind Let_def h last_snoc
  proof (rule wp_while_le(2), simp, goal_cases)
    case (1 l1)
    show ?case by (rule runs_weaken [OF runs_bash_advance_word]) (auto intro!: ok [simplified])
  qed
qed

lemma runs_bash_scan_heredoc_end:
  assumes "bash_wf s"
  shows "runs (bash_scan_heredoc_end E v (s, l))
     (case_flow (\<lambda>(s', l'). bash_wf s' \<and> bash_same v s s') (bash_post E v s))"
proof (cases "v HEREDOC_END \<and> heredocs s \<noteq> []")
  case True
  then obtain hs h where h: "heredocs s = hs @ [h]" by (metis append_butlast_last_id)
  then have d: "delimiter h = [] \<or> last (delimiter h) = 0" using assms by (simp add: bash_wf_def)
  have keep: "bash_wf (bash_set_heredoc (h\<lparr>current_leading_word := w\<rparr>) s)"
    "bash_same v s (bash_set_heredoc (h\<lparr>current_leading_word := w\<rparr>) s)" for w
    using assms h by (simp_all add: bash_wf_def bash_set_heredoc_def bash_heredocs_def bash_same_def)
  have pop: "bash_post E v s (True, s\<lparr>heredocs := hs\<rparr>, set_symbol HEREDOC_END l')" for l'
    using assms h True by (auto simp: bash_post_def bash_wf_def bash_effect_def bash_heredocs_def bash_may_report_valid)
  show ?thesis
    unfolding bash_scan_heredoc_end_def prod.case if_P [OF True] runs_bind
    unfolding h last_snoc
    by (rule runs_weaken [OF runs_bash_end_identifier [OF d]]) (auto simp: keep pop)
next
  case False
  show ?thesis unfolding bash_scan_heredoc_end_def prod.case if_not_P [OF False] by (simp add: assms)
qed

lemma runs_bash_content_post:
  assumes "bash_wf s" and "heredocs s \<noteq> []" and "bash_body middle end_type (last (heredocs s))"
    and "middle = HEREDOC_BODY_BEGINNING \<Longrightarrow> v HEREDOC_BODY_BEGINNING \<or> v SIMPLE_HEREDOC_BODY" "middle = HEREDOC_CONTENT \<Longrightarrow> v HEREDOC_CONTENT"
  shows "runs (map_option Return (bash_scan_heredoc_content E middle end_type (s, l))) (case_flow J (bash_post E v s))"
proof -
  obtain hs h where h: "heredocs s = hs @ [h]" using assms(2) by (metis append_butlast_last_id)
  then have d: "delimiter h = [] \<or> last (delimiter h) = 0" and body: "bash_body middle end_type h"
    using assms(1,3) by (simp_all add: bash_wf_def)
  show ?thesis
    unfolding runs_map_option flow.case
    by (rule runs_weaken [OF runs_bash_heredoc_content [OF h d body]]) (rule bash_body_post_imp [OF assms(1) h body assms(4,5)])
qed

lemma runs_bash_scan_heredoc:
  assumes "bash_wf s"
  shows "runs (bash_scan_heredoc E v (s, l))
     (case_flow (\<lambda>(s', l'). bash_wf s' \<and> bash_same v s s') (bash_post E v s))"
    (is "runs _ (case_flow ?J _)")
  unfolding bash_scan_heredoc_def prod.case
proof (rule runs_ifI, goal_cases)
  case 1
  then show ?case by (intro runs_bash_content_post assms) (auto simp: bash_body_def)
next
  case 2
  show ?case
  proof (rule runs_and_then_inv [OF runs_bash_scan_heredoc_end [OF assms]], goal_cases)
    case (1 x)
    obtain s' l' where x: "x = (s', l')" by (cases x)
    with 1 have s': "bash_wf s'" "bash_same v s s'" by auto
    have post: "bash_post E v s = bash_post E v s'" by (intro ext) (rule bash_post_cong [OF s'(2), symmetric])
    show ?case
      unfolding x prod.case post
      by (intro runs_ifI runs_bash_content_post runs_bash_heredoc_start s'(1)) (use s' in \<open>auto simp: bash_body_def\<close>)
  qed
qed

section \<open>Names\<close>

lemma runs_bash_name_blanks:
  assumes "v VARIABLE_NAME \<or> v FILE_DESCRIPTOR \<or> v HEREDOC_ARROW"
  shows "runs (c_loop (bash_name_blank_step E v s) l) (bash_falls v s)"
proof (rule runs_c_loop [where m = bash_left and I = "\<lambda>_. True"], goal_cases)
  case (2 l1)
  have may: "bash_may_report v VARIABLE_NAME" using assms by (auto simp: bash_may_report_def)
  have less: "length (tl (rest (raw l1))) < bash_left l1" "length (tl (tl (rest (raw l1)))) < bash_left l1" "length (tl (tl (tl (rest (raw l1))))) < bash_left l1"
    if "lookahead E l1 \<noteq> 0" using bash_less [OF that order_refl] by simp_all
  have word: "runs (map_option (Return \<circ> Return) (bash_expansion_word E v (s, l')))
     (case_flow (\<lambda>s'. True \<and> bash_left s' < n) (bash_falls v s))" for n l'
    by (simp add: runs_bash_expansion_word)
  show ?case
    unfolding bash_name_blank_step_def Let_def
    by (intro runs_ifI word) (use less may in \<open>auto simp: bash_plain_def\<close>)
qed simp

lemma runs_bash_name_loop: "runs (c_loop (bash_name_step E) (n, l)) (\<lambda>_. True)"
  by (rule runs_c_loop [where m = "\<lambda>(n, l'). bash_left l'" and I = "\<lambda>_. True"])
    (auto simp: bash_name_step_def split: prod.splits intro!: bash_tl_less)

lemma bash_name_end_plain: "bash_plain v s (bash_name_end E v s (n, l))"
  unfolding bash_name_end_def prod.case Let_def
  by (simp add: bash_plain_valid)

lemma runs_bash_name: "runs (bash_name E v (s, l)) (bash_plain v s)"
  unfolding bash_name_def prod.case Let_def
  by (intro runs_ifI runs_bash_brace_start runs_bash_expansion_word runs_bash_extglob)
    (auto intro!: runs_weaken [OF runs_bash_name_loop] simp: bash_name_end_plain)

lemma runs_bash_scan_name:
  assumes "bash_wf s"
  shows "runs (bash_scan_name E v (s, l)) (case_flow (\<lambda>(s', l'). s' = s) (bash_post E v s))"
proof (cases "(v VARIABLE_NAME \<or> v FILE_DESCRIPTOR \<or> v HEREDOC_ARROW) \<and> \<not> v REGEX_NO_SLASH \<and> \<not> in_error_recovery v")
  case True
  have plain: "bash_post E v s r" if "bash_plain v s r" for r
    by (rule bash_plain_post [OF assms bash_same_refl that])
  have special: "runs (bash_name_special E v (s, l')) (bash_falls v s)" for l'
    unfolding bash_name_special_def prod.case Let_def by (simp add: bash_plain_valid)
  have first: "runs (and_then (c_loop (bash_name_blank_step E v s) l) (bash_name_special E v)) (bash_falls v s)"
    by (intro bash_falls_seq runs_bash_name_blanks special) (use True in simp)
  have push: "bash_post E v s (True, bash_push_heredoc h s, set_symbol t l')"
    if "v HEREDOC_ARROW" "t = HEREDOC_ARROW \<and> h = heredoc_new \<or> t = HEREDOC_ARROW_DASH \<and> h = heredoc_new\<lparr>allows_indent := True\<rparr>" for h t l'
    using that assms
    by (auto simp: bash_post_def bash_push_heredoc_def bash_wf_def bash_heredocs_def bash_effect_def bash_may_report_def heredoc_new_def)
  have fail: "bash_post E v s (False, s, l')" for l' by (rule plain) simp
  have arrow: "runs (bash_heredoc_arrow E v (s, l')) (case_flow (\<lambda>(s', l'). s' = s) (bash_post E v s))" for l'
    unfolding bash_heredoc_arrow_def prod.case Let_def by (intro runs_ifI) (auto simp: push fail)
  have "runs (and_then (and_then (c_loop (bash_name_blank_step E v s) l) (bash_name_special E v)) (bash_heredoc_arrow E v))
     (case_flow (\<lambda>(s', l'). s' = s) (bash_post E v s))"
  proof (rule runs_and_then_inv [where I = "\<lambda>(s', l'). s' = s"])
    show "runs (and_then (c_loop (bash_name_blank_step E v s) l) (bash_name_special E v)) (case_flow (\<lambda>(s', l'). s' = s) (bash_post E v s))"
      by (rule runs_weaken [OF first]) (auto split: flow.splits intro: plain)
  qed (use arrow in auto)
  then have "runs (then_return (and_then (and_then (c_loop (bash_name_blank_step E v s) l) (bash_name_special E v)) (bash_heredoc_arrow E v)) (bash_name E v))
     (bash_post E v s)"
    by (rule runs_then_return_inv) (auto intro: runs_weaken [OF runs_bash_name] plain)
  then show ?thesis unfolding bash_scan_name_def prod.case if_P [OF True] by simp
next
  case False
  show ?thesis unfolding bash_scan_name_def prod.case if_not_P [OF False] by simp
qed

section \<open>The scan\<close>

lemma runs_bash_scan:
  assumes "bash_wf s"
  shows "runs (bash_scan E v s l) (bash_post E v s)"
proof -
  let ?J = "\<lambda>(s', l' :: 'l bash_lexer). bash_wf s' \<and> bash_same v s s'"
  have conv: "bash_post E v s r" if "bash_post E v s1 r" "bash_same v s s1" for s1 and r :: "'l bash_result"
    using that(1) bash_post_cong [OF that(2), where E = E and r = r] by simp
  have weak: "bash_post E v s r" if "bash_plain v s1 r" "bash_wf s1" "bash_same v s s1" for s1 and r :: "'l bash_result"
    using conv bash_plain_post [OF that(2) bash_same_refl that(1)] that(3) .
  have plain: "runs c (case_flow ?J (bash_post E v s))"
    if "runs c (bash_falls v s1)" "bash_wf s1" "bash_same v s s1" for c s1
    by (rule runs_weaken [OF that(1)]) (use that(2,3) in \<open>auto split: flow.splits intro: weak\<close>)
  have heredoc: "runs (bash_scan_heredoc E v (s1, l1)) (case_flow ?J (bash_post E v s))" if "bash_wf s1" "bash_same v s s1" for s1 l1
    by (rule runs_weaken [OF runs_bash_scan_heredoc [OF that(1)]]) (use that in \<open>auto split: flow.splits intro: conv bash_same_trans\<close>)
  have name: "runs (bash_scan_name E v (s1, l1)) (case_flow ?J (bash_post E v s))" if "bash_wf s1" "bash_same v s s1" for s1 l1
    by (rule runs_weaken [OF runs_bash_scan_name [OF that(1)]]) (use that in \<open>auto split: flow.splits intro: conv bash_same_trans\<close>)
  have seq: "runs (and_then c f) (case_flow ?J (bash_post E v s))"
    if "runs c (case_flow ?J (bash_post E v s))" "\<And>s1 l1. bash_wf s1 \<Longrightarrow> bash_same v s s1 \<Longrightarrow> runs (f (s1, l1)) (case_flow ?J (bash_post E v s))"
    for c :: "('l bash_state, 'l bash_result) flow option" and f
    by (rule runs_and_then_inv [OF that(1)]) (use that(2) in auto)
  have regex: "runs (bash_regex E v (s1, l1)) (bash_post E v s)" if "bash_wf s1" "bash_same v s s1" for s1 l1
    by (rule runs_weaken [OF runs_bash_regex]) (rule weak [OF _ that])
  note first = plain [OF runs_bash_scan_concat assms bash_same_refl]
    and blocks = runs_bash_small_blocks [THEN plain] runs_bash_test_operator [THEN plain] runs_bash_try_dollar [THEN plain]
  show ?thesis
    unfolding bash_scan_def
  proof (rule runs_then_return_inv [where I = ?J], goal_cases)
    case 1
    show ?case
      by (assumption | rule seq first heredoc name blocks)+
  qed (use regex in auto)
qed

end

section \<open>Properties\<close>

lemma bash_wf_create: "bash_wf bash_create"
  by (simp add: bash_wf_def bash_create_def)

text \<open>C0.
  A scan of the Bash scanner returns from every state whose delimiters are terminated, and
  keeps them so. It reports a token that is valid (or one of those the tests in front of a
  block stand for), and the stack of heredocs changes as the token says. The arrows push a
  new heredoc; \<open>HEREDOC_START\<close> gives the innermost its delimiter. The two tokens that start a
  body come only while the innermost is not started: \<open>HEREDOC_BODY_BEGINNING\<close> marks it as
  started; \<open>SIMPLE_HEREDOC_BODY\<close>, the whole body, leaves it as it is or marks it as started,
  or clears it, which happens only at the end of the input. \<open>HEREDOC_END\<close> removes the innermost
  or, only at the end of the input, clears it. Every other token leaves the stack alone. A scan
  that reports nothing leaves it alone, too, or has marked the innermost as started where its
  body may start, or has taken its delimiter where \<open>HEREDOC_START\<close> is valid. The depth of the
  last glob changes only where a glob is valid.
\<close>
theorem bash_scan_heredocs:
  assumes "ts_lexer E rest" and "bash_wf s"
  shows "\<exists>b s' l'. bash_scan E v s l = Some (b, s', l') \<and> bash_wf s'
     \<and> (last_glob_paren_depth s' = last_glob_paren_depth s \<or> v EXTGLOB_PATTERN)
     \<and> (if b then bash_may_report v (result_symbol l') \<and> bash_effect (eof E l') (result_symbol l') s s'
        else bash_unreported v s s')"
  using runs_tripleD [OF ts_lexer.runs_bash_scan [OF assms, unfolded bash_post_def]] by simp

theorem bash_scan_heredocs_witness:
  "bash_wf bash_create \<and> (\<exists>b s' l'. bash_scan list_env (\<lambda>t. t = HEREDOC_ARROW) bash_create (lex_string ESAC ''<<-E'')
      = Some (b, s', l') \<and> bash_wf s'
     \<and> (last_glob_paren_depth s' = last_glob_paren_depth bash_create \<or> (\<lambda>t. t = HEREDOC_ARROW) EXTGLOB_PATTERN)
     \<and> (if b then bash_may_report (\<lambda>t. t = HEREDOC_ARROW) (result_symbol l')
            \<and> bash_effect (eof list_env l') (result_symbol l') bash_create s'
        else bash_unreported (\<lambda>t. t = HEREDOC_ARROW) bash_create s'))"
  by (rule conjI [OF bash_wf_create bash_scan_heredocs [OF ts_lexer_list_env bash_wf_create]])

end
