(* ===== verification/Bash_Save.thy ===== *)
theory Bash_Save
  imports Bash_Scan
begin

text \<open>
  What saving a Bash scanner keeps and what restoring leaves of the old state, and how the
  scanner finds the end of a heredoc, misses an expansion in one and reads a brace range.
\<close>

section \<open>Saving and restoring\<close>

definition bash_put_heredoc :: "bash_heredoc \<Rightarrow> byte list" where
  "bash_put_heredoc h =
     [bool_byte (is_raw h), bool_byte (started h), bool_byte (allows_indent h)] @ le32 (of_nat (length (delimiter h))) @ delimiter h"

lemma bash_put_heredocs_Some:
  assumes "bash_put_heredocs sz hs = Some bs"
  shows "bs = concat (map bash_put_heredoc hs)" and "hs = [] \<or> sz + length bs < TREE_SITTER_SERIALIZATION_BUFFER_SIZE"
    and "length hs * 7 \<le> length bs" and "list_all (\<lambda>h. length (delimiter h) < TREE_SITTER_SERIALIZATION_BUFFER_SIZE) hs"
  using assms
  by (induction sz hs arbitrary: bs rule: bash_put_heredocs.induct)
    (auto simp: bash_put_heredoc_def TREE_SITTER_SERIALIZATION_BUFFER_SIZE_def split: if_splits bind_splits)

lemma bash_get_put_heredoc:
  assumes "length (delimiter h) < TREE_SITTER_SERIALIZATION_BUFFER_SIZE"
  shows "bash_get_heredoc old (bash_put_heredoc h @ bs) = Some (h\<lparr>current_leading_word := current_leading_word old\<rparr>, bs)"
  using assms by (cases h; cases old) (simp add: bash_put_heredoc_def unat_of_nat_32 TREE_SITTER_SERIALIZATION_BUFFER_SIZE_def)

lemma bash_get_put_heredocs:
  assumes "list_all (\<lambda>h. length (delimiter h) < TREE_SITTER_SERIALIZATION_BUFFER_SIZE) hs"
  shows "\<exists>hs'. bash_get_heredocs (length hs) old (concat (map bash_put_heredoc hs) @ bs) = Some (hs' @ drop (length hs) old, bs)
     \<and> map (\<lambda>h. h\<lparr>current_leading_word := []\<rparr>) hs' = map (\<lambda>h. h\<lparr>current_leading_word := []\<rparr>) hs"
  using assms
proof (induction hs arbitrary: old)
  case (Cons h hs)
  obtain hs' where "bash_get_heredocs (length hs) (tl old) (concat (map bash_put_heredoc hs) @ bs) = Some (hs' @ drop (length hs) (tl old), bs)"
    "map (\<lambda>h. h\<lparr>current_leading_word := []\<rparr>) hs' = map (\<lambda>h. h\<lparr>current_leading_word := []\<rparr>) hs"
    using Cons.IH [of "tl old"] Cons.prems by auto
  moreover have "drop (length hs) (tl old) = drop (length (h # hs)) old" by (simp add: drop_Suc)
  ultimately show ?case using Cons.prems by (simp add: bash_get_put_heredoc)
qed simp

lemma bash_restore:
  assumes "bash_serialize s \<noteq> []"
  shows "\<exists>s'. bash_deserialize t (bash_serialize s) = Some s'
     \<and> bash_heredocs s' = bash_heredocs s @ drop (length (heredocs s)) (bash_heredocs t)
     \<and> last_glob_paren_depth s' = last_glob_paren_depth s \<and> ext_was_in_double_quote s' = ext_was_in_double_quote s
     \<and> ext_saw_outside_quote s' = ext_saw_outside_quote s"
    and "length (bash_serialize s) < TREE_SITTER_SERIALIZATION_BUFFER_SIZE"
proof -
  from assms obtain bs where bs: "bash_put_heredocs 4 (heredocs s) = Some bs"
    by (auto simp: bash_serialize_def split: option.splits)
  note put = bash_put_heredocs_Some [OF bs]
  have n: "length (heredocs s) < 256" using put(2,3) by (auto simp: TREE_SITTER_SERIALIZATION_BUFFER_SIZE_def)
  obtain hs' where hs': "bash_get_heredocs (length (heredocs s)) (heredocs t) bs = Some (hs' @ drop (length (heredocs s)) (heredocs t), [])"
    "map (\<lambda>h. h\<lparr>current_leading_word := []\<rparr>) hs' = bash_heredocs s"
    using bash_get_put_heredocs [OF put(4), of "heredocs t" "[]"] put(1) by (auto simp: bash_heredocs_def)
  show "\<exists>s'. bash_deserialize t (bash_serialize s) = Some s'
     \<and> bash_heredocs s' = bash_heredocs s @ drop (length (heredocs s)) (bash_heredocs t)
     \<and> last_glob_paren_depth s' = last_glob_paren_depth s \<and> ext_was_in_double_quote s' = ext_was_in_double_quote s
     \<and> ext_saw_outside_quote s' = ext_saw_outside_quote s"
    using hs' n by (simp add: bash_serialize_def bs unat_of_nat_8 bash_heredocs_def drop_map)
  show "length (bash_serialize s) < TREE_SITTER_SERIALIZATION_BUFFER_SIZE"
    using put(2) bs put(1) by (auto simp: bash_serialize_def TREE_SITTER_SERIALIZATION_BUFFER_SIZE_def)
qed

text \<open>
  Restored into a new scanner the state is the saved one. Restored into a scanner that has
  been used it is not, as shown below, so the contract holds for new scanners only.
\<close>

definition bash_view :: "bash_scanner \<Rightarrow> byte \<times> bool \<times> bool \<times> bash_heredoc list" where
  "bash_view s = (last_glob_paren_depth s, ext_was_in_double_quote s, ext_saw_outside_quote s, bash_heredocs s)"

interpretation bash: resettable_scanner bash_serialize "\<lambda>_. bash_deserialize bash_create" "\<lambda>s. bash_serialize s \<noteq> []" bash_view bash_create
proof
  fix s assume s: "bash_serialize s \<noteq> []"
  show "length (bash_serialize s) \<le> TREE_SITTER_SERIALIZATION_BUFFER_SIZE" using bash_restore(2) [OF s] by simp
  show "\<exists>s'. bash_deserialize bash_create (bash_serialize s) = Some s' \<and> bash_view s' = bash_view s"
    using bash_restore(1) [OF s, of bash_create] by (auto simp: bash_view_def bash_heredocs_def bash_create_def)
next
  show "\<exists>s'. bash_deserialize bash_create [] = Some s' \<and> bash_view s' = bash_view bash_create"
    by (simp add: bash_reset_def bash_create_def)
qed

section \<open>The end of a heredoc\<close>

lemma c_string_eq: "last d = 0 \<Longrightarrow> d \<noteq> [] \<Longrightarrow> length (c_string d) < length d \<and> take (length (c_string d)) d = c_string d \<and> 0 \<notin> set (c_string d)"
proof -
  assume d: "last d = 0" "d \<noteq> []"
  have "0 \<in> set d" using last_in_set [OF d(2)] d(1) by simp
  then have "c_string d \<noteq> d" by (auto simp: c_string_def takeWhile_eq_all_conv)
  moreover have split: "d = c_string d @ dropWhile (\<lambda>b. b \<noteq> 0) d" by (simp add: c_string_def)
  ultimately have "length (c_string d) < length d" by (metis append_self_conv length_append length_greater_0_conv less_add_same_cancel1)
  moreover have "take (length (c_string d)) d = c_string d" by (subst (2) split) simp
  moreover have "0 \<notin> set (c_string d)" by (auto simp: c_string_def dest: set_takeWhileD)
  ultimately show ?thesis by simp
qed

context ts_lexer
begin

lemma runs_bash_end_identifier_iff:
  assumes "delimiter h \<noteq> []" and "last (delimiter h) = 0" and "10 \<notin> set (c_string (delimiter h))"
  shows "runs (bash_scan_heredoc_end_identifier E h l) (\<lambda>(b, h', l').
     (b \<longleftrightarrow> take (length (c_string (delimiter h))) (rest (raw l)) = map sint (c_string (delimiter h)))
     \<and> (b \<longrightarrow> rest (raw l') = drop (length (c_string (delimiter h))) (rest (raw l))))"
proof (rule runs_weaken [OF runs_bash_end_identifier], goal_cases)
  case (2 r)
  let ?d = "delimiter h" and ?c = "c_string (delimiter h)"
  obtain b h' l' where r: "r = (b, h', l')" by (cases r)
  with 2 assms(1) obtain w where w: "rest (raw l) = map sint w @ rest (raw l')" "b \<longleftrightarrow> w = ?c" "take (length w) ?d = w" "0 \<notin> set w"
    "b \<or> lookahead E l' \<in> {0, 10} \<or> lookahead E l' \<noteq> sint (?d ! length w)" by auto
  note c = c_string_eq [OF assms(2,1)]
  have "b" if eq: "take (length ?c) (rest (raw l)) = map sint ?c"
  proof (rule ccontr)
    assume nb: "\<not> b"
    have "?d ! length ?c = 0" using nth_length_takeWhile [of "\<lambda>b. b \<noteq> 0" ?d] c by (auto simp: c_string_def)
    moreover have "w ! length ?c = ?d ! length ?c" if "length ?c < length w" using that w(3) by (metis nth_take)
    ultimately have "\<not> length ?c < length w" using w(4) by (metis nth_mem)
    moreover have "length w \<noteq> length ?c" using w(2,3) c nb by auto
    ultimately have less: "length w < length ?c" by simp
    have at: "?c ! length w = ?d ! length w" using c less by (metis nth_take)
    have "length ?c \<le> length (rest (raw l))" using arg_cong [OF eq, of length] by simp
    with less have "rest (raw l) ! length w = sint (?c ! length w)" using arg_cong [OF eq, of "\<lambda>xs. xs ! length w"] by simp
    moreover have "rest (raw l') \<noteq> []" using \<open>length ?c \<le> length (rest (raw l))\<close> less w(1) by (auto simp: w(1))
    ultimately have la: "lookahead E l' = sint (?c ! length w)" using w(1) by (cases "rest (raw l')") (simp_all add: nth_append)
    have mem: "?c ! length w \<in> set ?c" using less by simp
    have "?c ! length w \<noteq> 0" using mem c by auto
    then have "sint (?c ! length w) \<noteq> sint (0 :: byte)" by (metis word_eq_iff_signed)
    moreover have "?c ! length w \<noteq> 10" using mem assms(3) by auto
    then have "sint (?c ! length w) \<noteq> sint (10 :: byte)" by (metis word_eq_iff_signed)
    ultimately show False using w(5) nb la at by simp
  qed
  then show ?case using w(1,2) r by auto
qed (use assms in simp)

text \<open>A dollar sign behind the blanks at the start of a line is read as plain text.\<close>

lemma runs_bash_dollar_swallowed:
  assumes r: "rest (raw l) = ws @ 36 # cs" "ws \<noteq> []" "\<forall>c \<in> set ws. iswspace E c" "hd ws \<noteq> 10" and col: "get_column E l = 0"
    and h: "heredocs s = hs @ [h]" "delimiter h \<noteq> []" "last (delimiter h) = 0" "hd (delimiter h) \<notin> {0, 36}"
  shows "runs (bash_content_step E middle end_type (did, s, l))
     (\<lambda>x. \<exists>s' l'. x = Next (True, s', l') \<and> rest (raw l') = cs \<and> bash_heredocs s' = bash_heredocs s)"
proof -
  have la: "lookahead E l = hd ws" using r(1,2) by (cases ws) simp_all
  have sp: "iswspace E (hd ws)" using r(2,3) by simp
  then have "hd ws \<noteq> 0" "hd ws \<noteq> 92" "hd ws \<noteq> 36" by (auto simp: iswspace_def)
  then have step: "bash_content_step E middle end_type (did, s, l) = bash_content_default E middle end_type (did, s, l)"
    using la r(4) by (simp add: bash_content_step_def)
  have "\<not> iswspace E 36" by (simp add: iswspace_def)
  with r(3) have "dropWhile (iswspace E) (ws @ 36 # cs) = 36 # cs" by (subst dropWhile_append2) simp_all
  then have skip: "runs (if did then advance_while E (iswspace E) l else skip_while E (iswspace E) l) (\<lambda>l'. rest (raw l') = 36 # cs)"
    by (intro runs_ifI wp_advance_while wp_skip_while) (simp_all add: r(1))
  have id: "runs (bash_scan_heredoc_end_identifier E h l') (\<lambda>(b, h', l''). \<not> b \<and> (\<exists>w. h' = h\<lparr>current_leading_word := w\<rparr>) \<and> rest (raw l'') = 36 # cs)"
    if l': "rest (raw l') = 36 # cs" for l'
  proof (rule runs_weaken [OF runs_bash_end_identifier], goal_cases)
    case (2 x)
    obtain b h' l'' where x: "x = (b, h', l'')" by (cases x)
    with 2 h(2) obtain w where w: "h' = h\<lparr>current_leading_word := w @ [0]\<rparr>" "rest (raw l') = map sint w @ rest (raw l'')"
      "b \<longleftrightarrow> w = c_string (delimiter h)" "take (length w) (delimiter h) = w" by auto
    have "w = []"
    proof (cases w)
      case (Cons a w')
      with w(4) have "hd (delimiter h) = a" by (cases "delimiter h") auto
      moreover have "sint a = sint (36 :: byte)" using w(2) Cons l' by simp
      then have "a = 36" by (metis word_eq_iff_signed)
      ultimately show ?thesis using h(4) by simp
    qed simp
    moreover have "c_string (delimiter h) \<noteq> []" using h(2,4) by (cases "delimiter h") (auto simp: c_string_def)
    ultimately show ?case using w x l' by auto
  qed (use h in simp)
  show ?thesis
    unfolding step bash_content_default_def prod.case if_P [OF col] runs_bind
    unfolding h(1) last_snoc
    by (rule runs_weaken [OF skip], rule runs_weaken [OF id]) (auto simp: h(1) bash_set_heredoc_def bash_heredocs_def)
qed

end

section \<open>Brace ranges\<close>

definition bash_range :: "int list \<Rightarrow> bool" where
  "bash_range cs \<longleftrightarrow> (\<exists>ds es ts. cs = 123 # ds @ [46, 46] @ es @ 125 # ts \<and> list_all isdigit ds \<and> list_all isdigit es)"

lemma split_digits:
  assumes "\<not> isdigit x"
  shows "(\<exists>ds ts. cs = ds @ x # ts \<and> list_all isdigit ds \<and> P ts) \<longleftrightarrow> (\<exists>ts. dropWhile isdigit cs = x # ts \<and> P ts)"
proof
  assume "\<exists>ds ts. cs = ds @ x # ts \<and> list_all isdigit ds \<and> P ts"
  then obtain ds ts where "cs = ds @ x # ts" "list_all isdigit ds" "P ts" by blast
  moreover from this have "dropWhile isdigit cs = x # ts"
    using assms by (simp add: list_all_iff dropWhile_append2)
  ultimately show "\<exists>ts. dropWhile isdigit cs = x # ts \<and> P ts" by blast
next
  assume "\<exists>ts. dropWhile isdigit cs = x # ts \<and> P ts"
  then obtain ts where ts: "dropWhile isdigit cs = x # ts" "P ts" by blast
  have "cs = takeWhile isdigit cs @ x # ts" using takeWhile_dropWhile_id [of isdigit cs] ts(1) by simp
  moreover have "list_all isdigit (takeWhile isdigit cs)" by (auto simp: list_all_iff dest: set_takeWhileD)
  ultimately show "\<exists>ds ts. cs = ds @ x # ts \<and> list_all isdigit ds \<and> P ts" using ts(2) by blast
qed

lemma bash_range_iff:
  "bash_range cs \<longleftrightarrow> (\<exists>xs ys zs. cs = 123 # xs \<and> dropWhile isdigit xs = 46 # 46 # ys \<and> dropWhile isdigit ys = 125 # zs)"
proof -
  have dot: "\<not> isdigit 46" "\<not> isdigit 125" by (simp_all add: isdigit_def)
  have "bash_range cs \<longleftrightarrow> (\<exists>xs. cs = 123 # xs \<and> (\<exists>ds us. xs = ds @ 46 # us \<and> list_all isdigit ds
      \<and> (\<exists>ys. us = 46 # ys \<and> (\<exists>es ts. ys = es @ 125 # ts \<and> list_all isdigit es \<and> True))))"
    unfolding bash_range_def append.simps by blast
  then show ?thesis unfolding split_digits [OF dot(1)] split_digits [OF dot(2)] by blast
qed

context ts_lexer
begin

lemma runs_bash_brace_range:
  assumes "v BRACE_START" and "\<not> in_error_recovery v"
  shows "runs (bash_brace_start E v (s, l)) (\<lambda>(b, s', l'). s' = s \<and> (b \<longleftrightarrow> bash_range (dropWhile (iswspace E) (rest (raw l))))
     \<and> (b \<longrightarrow> result_symbol l' = BRACE_START))"
proof -
  have c: "v BRACE_START \<and> \<not> in_error_recovery v" using assms by simp
  have at: "lookahead E l' = c \<longleftrightarrow> (\<exists>xs. rest (raw l') = c # xs)" if "c \<noteq> 0" for c and l' :: "'l bash_lexer"
    using that by (cases "rest (raw l')") auto
  let ?range = "bash_range (dropWhile (iswspace E) (rest (raw l)))"
  show ?thesis
    unfolding bash_brace_start_def prod.case if_P [OF c] runs_bind Let_def
  proof (rule wp_skip_while, simp, rule runs_ifI, goal_cases)
    case (1 l1)
    then have "\<not> ?range" by (auto simp: bash_range_iff)
    then show ?case by simp
  next
    case (2 l1)
    then obtain xs where xs: "rest (raw l1) = 123 # xs" using at [of 123 l1] by auto
    with 2 have r1: "?range \<longleftrightarrow> (\<exists>ys zs. dropWhile isdigit xs = 46 # 46 # ys \<and> dropWhile isdigit ys = 125 # zs)"
      by (simp add: bash_range_iff)
    show ?case
      unfolding runs_bind
    proof (rule wp_advance_while, simp, goal_cases)
      case (1 l2)
      with xs have r2: "dropWhile isdigit xs = rest (raw l2)" by simp
      show ?case
      proof (cases "lookahead E l2 = 46 \<and> lookahead E (advance E l2) = 46")
        case True
        then obtain ys where ys: "rest (raw l2) = 46 # 46 # ys" using at [of 46 l2] at [of 46 "advance E l2"] by auto
        with True r1 r2 have r3: "?range \<longleftrightarrow> (\<exists>zs. dropWhile isdigit ys = 125 # zs)" by simp
        have "runs (advance_while E isdigit (advance E (advance E l2))) (\<lambda>l'. dropWhile isdigit ys = rest (raw l') \<and> (lookahead E l' = 125 \<longleftrightarrow> ?range))"
          by (rule wp_advance_while) (use ys r3 at [of 125] in auto)
        with True show ?thesis by (auto simp: runs_if elim!: runs_weaken)
      next
        case False
        then have "\<not> ?range" using r1 r2 by auto
        then show ?thesis using False by auto
      qed
    qed
  qed
qed

end

section \<open>Properties\<close>

text \<open>C25.
  Restoring a saved Bash scanner gives the saved heredocs, followed by the heredocs that the
  scanner it is restored into has beyond their number: a stack that has shrunk comes back
  with stale heredocs on top of it. A state too large to be saved is not restored; the
  scanner keeps as many heredocs as it has, all of them cleared. What is saved fits the
  buffer.
\<close>
theorem bash_restore_keeps_stale:
  "\<exists>s'. bash_deserialize t (bash_serialize s) = Some s'
     \<and> bash_heredocs s' = (if bash_serialize s = [] then map reset_heredoc (bash_heredocs t)
          else bash_heredocs s @ drop (length (heredocs s)) (bash_heredocs t))
     \<and> length (bash_serialize s) < TREE_SITTER_SERIALIZATION_BUFFER_SIZE"
proof (cases "bash_serialize s = []")
  case True
  then show ?thesis
    by (simp add: bash_reset_def bash_heredocs_def reset_heredoc_def TREE_SITTER_SERIALIZATION_BUFFER_SIZE_def)
next
  case False
  then show ?thesis using bash_restore [OF False] by auto
qed

text \<open>C31.
  Where the end of a heredoc may come, any input that starts with the delimiter ends the
  heredoc and removes it: nothing asks that the line ends behind the delimiter. This is for a
  heredoc that has started and a delimiter without NUL and newline, where none of the tokens is
  valid that are tried first (concatenation, the double number sign, the symbols of an expansion
  and the empty value).
\<close>
theorem bash_heredoc_end_any_suffix:
  assumes "ts_lexer E rest" and "v HEREDOC_END"
    and "\<not> v CONCAT" and "\<not> v IMMEDIATE_DOUBLE_HASH" and "\<not> v EXTERNAL_EXPANSION_SYM_HASH" and "\<not> v EMPTY_VALUE"
    and "heredocs s = hs @ [h]" and "started h" and "delimiter h = d @ [0]" and "0 \<notin> set d" and "10 \<notin> set d"
    and "rest (raw l) = map sint d @ cs"
  shows "\<exists>l'. bash_scan E v s l = Some (True, s\<lparr>heredocs := hs\<rparr>, l') \<and> result_symbol l' = HEREDOC_END \<and> rest (raw l') = cs"
proof -
  have d: "c_string (delimiter h) = d" unfolding c_string_def assms(9) using assms(10) by (subst takeWhile_append2) auto
  have "runs (bash_scan_heredoc_end_identifier E h l) (\<lambda>(b, h', l').
     (b \<longleftrightarrow> take (length d) (rest (raw l)) = map sint d) \<and> (b \<longrightarrow> rest (raw l') = drop (length d) (rest (raw l))))"
    using ts_lexer.runs_bash_end_identifier_iff [OF assms(1), of h l] assms(9,11) d by simp
  then obtain h' l' where "bash_scan_heredoc_end_identifier E h l = Some (True, h', l')" "rest (raw l') = cs"
    using assms(12) by (auto simp: runs_def split: option.splits)
  then have "bash_scan_heredoc E v (s, l) = Some (Return (True, s\<lparr>heredocs := hs\<rparr>, set_symbol HEREDOC_END l'))" "rest (raw l') = cs"
    using assms(2,7,8) by (simp_all add: bash_scan_heredoc_def bash_scan_heredoc_end_def and_then_def)
  then show ?thesis
    using assms(3-6)
    by (simp add: bash_scan_def bash_scan_concat_def bash_scan_double_hash_def bash_scan_expansion_sym_def bash_scan_empty_value_def
        and_then_def then_return_def)
qed

definition bash_heredoc_example :: bash_heredoc where
  "bash_heredoc_example = heredoc_new\<lparr>started := True, delimiter := [69, 0]\<rparr>"

theorem bash_heredoc_end_any_suffix_witness:
  "\<exists>l'. bash_scan list_env (\<lambda>t. t = HEREDOC_END) (bash_create\<lparr>heredocs := [bash_heredoc_example]\<rparr>) (lex_string ESAC ''Ex'')
     = Some (True, bash_create\<lparr>heredocs := []\<rparr>, l') \<and> result_symbol l' = HEREDOC_END \<and> ll_rest (raw l') = [120]"
  using bash_heredoc_end_any_suffix [OF ts_lexer_list_env, of "\<lambda>t. t = HEREDOC_END" "bash_create\<lparr>heredocs := [bash_heredoc_example]\<rparr>" "[]"
      bash_heredoc_example "[69]" "lex_string ESAC ''Ex''" "[120]"]
  by (simp add: bash_heredoc_example_def heredoc_new_def bash_create_def lex_string_def)

text \<open>A dollar sign that follows the blanks at the start of a line of a heredoc is text: the
  step of the loop that reads the blanks compares what follows with the delimiter and then
  reads one more character without looking at it. The expansion that starts there is lost.
\<close>
lemma bash_heredoc_dollar_swallowed:
  assumes "ts_lexer E rest" and "rest (raw l) = ws @ 36 # cs" and "ws \<noteq> []" and "\<forall>c \<in> set ws. iswspace E c" and "hd ws \<noteq> 10"
    and "get_column E l = 0" and "heredocs s = hs @ [h]" and "delimiter h \<noteq> []" and "last (delimiter h) = 0" and "hd (delimiter h) \<notin> {0, 36}"
  shows "\<exists>s' l'. bash_content_step E middle end_type (did, s, l) = Some (Next (True, s', l'))
     \<and> rest (raw l') = cs \<and> bash_heredocs s' = bash_heredocs s"
  using ts_lexer.runs_bash_dollar_swallowed [OF assms, of middle end_type did]
  by (auto simp: runs_def split: option.splits)

text \<open>
  A whole scan with this step in it: the body of a heredoc whose only line is an indented
  expansion is reported as a simple body, up to its last line.
\<close>

lemma bash_heredoc_dollar_lost:
  "map_option (\<lambda>(b, s, l). (b, result_symbol l, ll_end (raw l)))
     (bash_scan list_env (\<lambda>t. t = SIMPLE_HEREDOC_BODY \<or> t = HEREDOC_BODY_BEGINNING)
       (bash_create\<lparr>heredocs := [heredoc_new\<lparr>delimiter := [69, 0]\<rparr>]\<rparr>)
       (lex_string ESAC ([CHR 0x0A] @ '' $x'' @ [CHR 0x0A] @ ''E'' @ [CHR 0x0A])))
   = Some (True, SIMPLE_HEREDOC_BODY, 5)"
  by code_simp

text \<open>C37.
  Where only a brace range is expected, the scan reports one exactly when the input behind
  white space is an opening brace, digits, two dots, digits and a closing brace (both runs
  of digits can be empty).
\<close>
theorem bash_brace_range_exact:
  assumes "ts_lexer E rest" and "\<And>t. v t \<longleftrightarrow> t = BRACE_START"
  shows "\<exists>b l'. bash_scan E v s l = Some (b, s, l') \<and> (b \<longleftrightarrow> bash_range (dropWhile (iswspace E) (rest (raw l))))
     \<and> (b \<longrightarrow> result_symbol l' = BRACE_START)"
proof -
  have "bash_scan E v s l = bash_brace_start E v (s, l)"
    by (simp add: assms(2) bash_scan_def bash_scan_concat_def bash_scan_double_hash_def bash_scan_expansion_sym_def
        bash_scan_empty_value_def bash_scan_heredoc_def bash_scan_heredoc_end_def bash_scan_test_operator_def
        bash_scan_name_def bash_try_dollar_def bash_regex_def bash_extglob_def bash_expansion_word_def and_then_def then_return_def)
  moreover have "v BRACE_START" "\<not> in_error_recovery v" using assms(2) by (simp_all add: in_error_recovery_def)
  ultimately show ?thesis
    using runs_tripleD [OF ts_lexer.runs_bash_brace_range [OF assms(1), of v s l]] by auto
qed

theorem bash_brace_range_exact_witness:
  "\<exists>b l'. bash_scan list_env (\<lambda>t. t = BRACE_START) bash_create (lex_string ESAC '' {1..10}'') = Some (b, bash_create, l')
     \<and> (b \<longleftrightarrow> bash_range (dropWhile (iswspace list_env) (ll_rest (raw (lex_string ESAC '' {1..10}'')))))
     \<and> (b \<longrightarrow> result_symbol l' = BRACE_START)"
  by (rule bash_brace_range_exact [OF ts_lexer_list_env]) simp

end
