(* ===== verification/TypeScript_Scanner.thy ===== *)
theory TypeScript_Scanner
  imports TS_Lexer
begin

text \<open>
  The scanner of the TypeScript and TSX grammars, \<^verbatim>\<open>typescript/common/scanner.h\<close> (the copy
  in \<^verbatim>\<open>tsx/common\<close> is the same): automatic semicolons, the question mark of the conditional
  operator, template strings, HTML-like comments and JSX text. It keeps no state.

  Shown here: the scan returns and which tokens it can report; a question mark is
  reported when it has the form of the operator, \<open>tsx_conditional\<close>, and no point directly behind it.
\<close>

datatype tsx_token =
    AUTOMATIC_SEMICOLON
  | TEMPLATE_CHARS
  | TERNARY_QMARK
  | HTML_COMMENT
  | LOGICAL_OR
  | ESCAPE_SEQUENCE
  | REGEX_PATTERN
  | JSX_TEXT
  | FUNCTION_SIGNATURE_AUTOMATIC_SEMICOLON
  | ERROR_RECOVERY

type_synonym 'l tsx_lexer = "('l, tsx_token) TSLexer"

section \<open>Operations\<close>

definition tsx_template_step :: "'l env \<Rightarrow> bool \<times> 'l tsx_lexer \<Rightarrow> (bool \<times> 'l tsx_lexer, bool \<times> 'l tsx_lexer) flow option" where
  "tsx_template_step E = (\<lambda>(has_content, l).
     let l = mark_end E l; c = lookahead E l in
     if c = ch CHR ''`'' then Some (Return (has_content, l))
     else if c = 0 then Some (Return (False, l))
     else if c = ch CHR ''$'' then
       let l = advance E l in
       if lookahead E l = ch CHR ''{'' then Some (Return (has_content, l)) else Some (Next (True, l))
     else if c = ch CHR 0x5C then Some (Return (has_content, l))
     else Some (Next (True, advance E l)))"

definition tsx_scan_template_chars :: "'l env \<Rightarrow> 'l tsx_lexer \<Rightarrow> (bool \<times> 'l tsx_lexer) option" where
  "tsx_scan_template_chars E l = c_loop (tsx_template_step E) (False, set_symbol TEMPLATE_CHARS l)"

text \<open>The inner loop over a block comment.\<close>

definition tsx_block_comment :: "'l env \<Rightarrow> 'l tsx_lexer \<Rightarrow> 'l tsx_lexer option" where
  "tsx_block_comment E =
     c_loop (\<lambda>l.
       if lookahead E l \<noteq> 0 then
         if lookahead E l = ch CHR ''*'' then
           let l = skip E l in
           if lookahead E l = ch CHR ''/'' then Some (Return (skip E l)) else Some (Next l)
         else Some (Next (skip E l))
       else Some (Return l))"

definition tsx_whitespace_step :: "'l env \<Rightarrow> bool \<times> 'l tsx_lexer \<Rightarrow> (bool \<times> 'l tsx_lexer, bool \<times> bool \<times> 'l tsx_lexer) flow option" where
  "tsx_whitespace_step E = (\<lambda>(scanned_comment, l).
     do { l \<leftarrow> skip_while E (iswspace E) l;
          if lookahead E l = ch CHR ''/'' then
            let l = skip E l in
            if lookahead E l = ch CHR ''/'' then
              do { l \<leftarrow> skip_while E (\<lambda>c. c \<noteq> 0 \<and> c \<noteq> ch CHR 0x0A) (skip E l); Some (Next (True, l)) }
            else if lookahead E l = ch CHR ''*'' then
              do { l \<leftarrow> tsx_block_comment E (skip E l); Some (Next (scanned_comment, l)) }
            else Some (Return (False, scanned_comment, l))
          else Some (Return (True, scanned_comment, l)) })"

definition tsx_scan_whitespace_and_comments :: "'l env \<Rightarrow> bool \<Rightarrow> 'l tsx_lexer \<Rightarrow> (bool \<times> bool \<times> 'l tsx_lexer) option" where
  "tsx_scan_whitespace_and_comments E scanned_comment l = c_loop (tsx_whitespace_step E) (scanned_comment, l)"

fun tsx_skip_word :: "'l env \<Rightarrow> string \<Rightarrow> 'l tsx_lexer \<Rightarrow> bool \<times> 'l tsx_lexer" where
  "tsx_skip_word E [] l = (True, l)"
| "tsx_skip_word E (c # cs) l = (if lookahead E l \<noteq> ch c then (False, l) else tsx_skip_word E cs (skip E l))"

text \<open>The final \<^verbatim>\<open>switch\<close> of \<^verbatim>\<open>scan_automatic_semicolon\<close>.\<close>

definition tsx_semicolon_switch :: "'l env \<Rightarrow> (tsx_token \<Rightarrow> bool) \<Rightarrow> 'l tsx_lexer \<Rightarrow> bool \<times> 'l tsx_lexer" where
  "tsx_semicolon_switch E v l =
     (let c = lookahead E l in
      if c \<in> set (map ch ''`,.;*%><=?^|&/:'') then (False, l)
      else if c = ch CHR ''{'' then (\<not> v FUNCTION_SIGNATURE_AUTOMATIC_SEMICOLON, l)
      else if c = ch CHR ''('' \<or> c = ch CHR ''['' then (\<not> v LOGICAL_OR, l)
      else if c = ch CHR ''+'' then let l = skip E l in (lookahead E l = ch CHR ''+'', l)
      else if c = ch CHR ''-'' then let l = skip E l in (lookahead E l = ch CHR ''-'', l)
      else if c = ch CHR ''!'' then let l = skip E l in (lookahead E l \<noteq> ch CHR ''='', l)
      else if c = ch CHR ''i'' then
        let l = skip E l in
        if lookahead E l \<noteq> ch CHR ''n'' then (True, l)
        else
          let l = skip E l in
          if \<not> iswalpha E (lookahead E l) then (False, l)
          else
            (case tsx_skip_word E ''stanceof'' l of
               (False, l) \<Rightarrow> (True, l)
             | (True, l) \<Rightarrow> (iswalpha E (lookahead E l), l))
      else (True, l))"

definition tsx_semicolon_step :: "'l env \<Rightarrow> (tsx_token \<Rightarrow> bool) \<Rightarrow> 'l tsx_lexer \<Rightarrow>
    ('l tsx_lexer, ('l tsx_lexer, bool \<times> 'l tsx_lexer) flow) flow option" where
  "tsx_semicolon_step E v l =
     (let c = lookahead E l in
      if c = 0 then Some (Return (Return (True, l)))
      else if c = ch CHR ''}'' then
        do { l \<leftarrow> skip_while E (iswspace E) (skip E l);
             Some (Return (Return (if lookahead E l = ch CHR '':'' then v LOGICAL_OR else True, l))) }
      else if \<not> iswspace E c then Some (Return (Return (False, l)))
      else if c = ch CHR 0x0A then Some (Return (Next l))
      else Some (Next (skip E l)))"

definition tsx_scan_automatic_semicolon :: "'l env \<Rightarrow> (tsx_token \<Rightarrow> bool) \<Rightarrow> 'l tsx_lexer \<Rightarrow> (bool \<times> bool \<times> 'l tsx_lexer) option" where
  "tsx_scan_automatic_semicolon E v l =
     do { x \<leftarrow> c_loop (tsx_semicolon_step E v) (mark_end E (set_symbol AUTOMATIC_SEMICOLON l));
          (case x of
             Return (b, l) \<Rightarrow> Some (b, False, l)
           | Next l \<Rightarrow>
               do { (ok, scanned_comment, l) \<leftarrow> tsx_scan_whitespace_and_comments E False (skip E l);
                    Some (if \<not> ok then (False, scanned_comment, l)
                          else case tsx_semicolon_switch E v l of (b, l) \<Rightarrow> (b, scanned_comment, l)) }) }"

definition tsx_scan_ternary_qmark :: "'l env \<Rightarrow> 'l tsx_lexer \<Rightarrow> (bool \<times> 'l tsx_lexer) option" where
  "tsx_scan_ternary_qmark E l =
     do { l \<leftarrow> skip_while E (iswspace E) l;
          if lookahead E l = ch CHR ''?'' then
            let l = advance E l in
            if lookahead E l = ch CHR ''?'' \<or> lookahead E l = ch CHR ''.'' then Some (False, l)
            else
              do { l \<leftarrow> advance_while E (iswspace E) (set_symbol TERNARY_QMARK (mark_end E l));
                   Some (if lookahead E l \<in> set (map ch '':),'') then (False, l)
                         else if lookahead E l = ch CHR ''.'' then
                           let l = advance E l in (iswdigit E (lookahead E l), l)
                         else (True, l)) }
          else Some (False, l) }"

fun tsx_advance_word :: "'l env \<Rightarrow> string \<Rightarrow> 'l tsx_lexer \<Rightarrow> bool \<times> 'l tsx_lexer" where
  "tsx_advance_word E [] l = (True, l)"
| "tsx_advance_word E (c # cs) l = (if lookahead E l \<noteq> ch c then (False, l) else tsx_advance_word E cs (advance E l))"

definition tsx_scan_closing_comment :: "'l env \<Rightarrow> 'l tsx_lexer \<Rightarrow> (bool \<times> 'l tsx_lexer) option" where
  "tsx_scan_closing_comment E l =
     do { l \<leftarrow> skip_while E (\<lambda>c. iswspace E c \<or> c = 0x2028 \<or> c = 0x2029) l;
          (case (if lookahead E l = ch CHR ''<'' then tsx_advance_word E ''<!--'' l
                 else if lookahead E l = ch CHR ''-'' then tsx_advance_word E ''-->'' l
                 else (False, l)) of
             (False, l) \<Rightarrow> Some (False, l)
           | (True, l) \<Rightarrow>
               do { l \<leftarrow> advance_while E (\<lambda>c. c \<noteq> 0 \<and> c \<noteq> ch CHR 0x0A \<and> c \<noteq> 0x2028 \<and> c \<noteq> 0x2029) l;
                    Some (True, mark_end E (set_symbol HTML_COMMENT l)) }) }"

definition tsx_jsx_step :: "'l env \<Rightarrow> bool \<times> bool \<times> 'l tsx_lexer \<Rightarrow>
    (bool \<times> bool \<times> 'l tsx_lexer, bool \<times> 'l tsx_lexer) flow option" where
  "tsx_jsx_step E = (\<lambda>(saw_text, at_newline, l).
     let c = lookahead E l in
     if c \<noteq> 0 \<and> c \<notin> set (map ch ''<>{}&'') then
       let is_wspace = iswspace E c in
       if c = ch CHR 0x0A then Some (Next (saw_text, True, advance E l))
       else
         let at_newline = (at_newline \<and> is_wspace) in
         Some (Next (saw_text \<or> \<not> at_newline, at_newline, advance E l))
     else Some (Return (saw_text, set_symbol JSX_TEXT l)))"

definition tsx_scan_jsx_text :: "'l env \<Rightarrow> 'l tsx_lexer \<Rightarrow> (bool \<times> 'l tsx_lexer) option" where
  "tsx_scan_jsx_text E l = c_loop (tsx_jsx_step E) (False, False, l)"

definition tsx_scan :: "'l env \<Rightarrow> (tsx_token \<Rightarrow> bool) \<Rightarrow> 'l tsx_lexer \<Rightarrow> (bool \<times> 'l tsx_lexer) option" where
  "tsx_scan E v l =
     (if v TEMPLATE_CHARS then
        if v AUTOMATIC_SEMICOLON then Some (False, l) else tsx_scan_template_chars E l
      else
        do { (b, l) \<leftarrow> (if v JSX_TEXT then tsx_scan_jsx_text E l else Some (False, l));
             if b then Some (True, l)
             else if v AUTOMATIC_SEMICOLON \<or> v FUNCTION_SIGNATURE_AUTOMATIC_SEMICOLON then
               do { (ret, scanned_comment, l) \<leftarrow> tsx_scan_automatic_semicolon E v l;
                    if \<not> ret \<and> \<not> scanned_comment \<and> v TERNARY_QMARK \<and> lookahead E l = ch CHR ''?''
                    then tsx_scan_ternary_qmark E l
                    else Some (ret, l) }
             else if v TERNARY_QMARK then tsx_scan_ternary_qmark E l
             else if v HTML_COMMENT \<and> \<not> v LOGICAL_OR \<and> \<not> v ESCAPE_SEQUENCE \<and> \<not> v REGEX_PATTERN
             then tsx_scan_closing_comment E l
             else Some (False, l) })"

section \<open>Every scan returns\<close>

definition tsx_reports :: "(tsx_token \<Rightarrow> bool) \<Rightarrow> tsx_token \<Rightarrow> bool" where
  "tsx_reports v t \<longleftrightarrow> t \<noteq> FUNCTION_SIGNATURE_AUTOMATIC_SEMICOLON
     \<and> (v t \<or> t = AUTOMATIC_SEMICOLON \<and> v FUNCTION_SIGNATURE_AUTOMATIC_SEMICOLON)"

context ts_lexer
begin

lemma runs_tsx_template_chars: "runs (tsx_scan_template_chars E l) (\<lambda>(b, l'). result_symbol l' = TEMPLATE_CHARS)"
  unfolding tsx_scan_template_chars_def
  by (rule runs_c_loop [where m = "\<lambda>(h, l'). remaining l'" and I = "\<lambda>(h, l'). result_symbol l' = TEMPLATE_CHARS"])
    (auto simp: tsx_template_step_def Let_def)

lemma runs_tsx_block_comment:
  "runs (tsx_block_comment E l) (\<lambda>l'. remaining l' \<le> remaining l \<and> result_symbol l' = result_symbol l)"
  unfolding tsx_block_comment_def
  by (rule runs_c_loop [where m = remaining and I = "\<lambda>l'. remaining l' \<le> remaining l \<and> result_symbol l' = result_symbol l"])
    (auto simp: Let_def)

lemma runs_tsx_whitespace: "runs (tsx_scan_whitespace_and_comments E a l) (\<lambda>(ok, a', l'). result_symbol l' = result_symbol l)"
  unfolding tsx_scan_whitespace_and_comments_def
proof (rule runs_c_loop [where m = "\<lambda>(a, l'). remaining l'" and I = "\<lambda>(a, l'). result_symbol l' = result_symbol l"], goal_cases)
  case (2 x)
  then obtain a l1 where x: "x = (a, l1)" and I: "result_symbol l1 = result_symbol l" by (cases x) auto
  show ?case
    unfolding x tsx_whitespace_step_def prod.case runs_bind Let_def
  proof (rule wp_skip_while, goal_cases)
    case (2 l2)
    show ?case
    proof (cases "lookahead E l2 = 47")
      case True
      then have "0 < remaining l2" by (intro remaining_pos) simp
      then have "remaining l2 - Suc 0 < remaining l1" using 2(2) by linarith
      with 2(5) I True show ?thesis
        by (auto intro!: wp_while_le runs_weaken [OF runs_tsx_block_comment])
    qed (use 2 I in auto)
  qed simp
qed simp

lemma tsx_skip_word_symbol: "result_symbol (snd (tsx_skip_word E w l)) = result_symbol l"
  by (induction w arbitrary: l) auto

lemma tsx_semicolon_switch_symbol: "result_symbol (snd (tsx_semicolon_switch E v l)) = result_symbol l"
  unfolding tsx_semicolon_switch_def Let_def
  by (auto simp del: tsx_skip_word.simps simp: if_distrib [of snd] split: prod.splits bool.splits
      dest: arg_cong [of "tsx_skip_word E _ _" _ "\<lambda>x. result_symbol (snd x)"] simp: tsx_skip_word_symbol)

lemma runs_tsx_semicolon_loop:
  assumes "result_symbol l = AUTOMATIC_SEMICOLON"
  shows "runs (c_loop (tsx_semicolon_step E v) l)
     (case_flow (\<lambda>l'. result_symbol l' = AUTOMATIC_SEMICOLON) (\<lambda>(b, l'). result_symbol l' = AUTOMATIC_SEMICOLON))"
  by (rule runs_c_loop [where m = remaining and I = "\<lambda>l'. result_symbol l' = AUTOMATIC_SEMICOLON"])
    (use assms in \<open>auto simp: tsx_semicolon_step_def Let_def intro!: wp_while_le\<close>)

lemma runs_tsx_automatic_semicolon:
  "runs (tsx_scan_automatic_semicolon E v l) (\<lambda>(b, a, l'). result_symbol l' = AUTOMATIC_SEMICOLON)"
  unfolding tsx_scan_automatic_semicolon_def runs_bind
  by (rule runs_weaken [OF runs_tsx_semicolon_loop])
    (auto split: flow.splits simp: split_def tsx_semicolon_switch_symbol intro!: runs_weaken [OF runs_tsx_whitespace])

lemma runs_tsx_ternary: "runs (tsx_scan_ternary_qmark E l) (\<lambda>(b, l'). b \<longrightarrow> result_symbol l' = TERNARY_QMARK)"
  unfolding tsx_scan_ternary_qmark_def by (auto simp: Let_def intro!: wp_while_le)

lemma runs_tsx_closing_comment: "runs (tsx_scan_closing_comment E l) (\<lambda>(b, l'). b \<longrightarrow> result_symbol l' = HTML_COMMENT)"
  unfolding tsx_scan_closing_comment_def by (auto intro!: wp_while_le split: prod.splits bool.splits)

lemma runs_tsx_jsx_text: "runs (tsx_scan_jsx_text E l) (\<lambda>(b, l'). result_symbol l' = JSX_TEXT)"
  unfolding tsx_scan_jsx_text_def
  by (rule runs_c_loop [where m = "\<lambda>(s, n, l'). remaining l'" and I = "\<lambda>_. True"]) (auto simp: tsx_jsx_step_def Let_def)

lemma runs_tsx_scan: "runs (tsx_scan E v l) (\<lambda>(b, l'). b \<longrightarrow> tsx_reports v (result_symbol l'))"
proof -
  have jsx: "runs (tsx_scan_jsx_text E l') (\<lambda>(b, l'). b \<longrightarrow> tsx_reports v (result_symbol l'))" if "v JSX_TEXT" for l'
    using that by (auto simp: tsx_reports_def intro!: runs_weaken [OF runs_tsx_jsx_text])
  have semi: "runs (tsx_scan_automatic_semicolon E v l') (\<lambda>(b, a, l'). b \<longrightarrow> tsx_reports v (result_symbol l'))"
    if "v AUTOMATIC_SEMICOLON \<or> v FUNCTION_SIGNATURE_AUTOMATIC_SEMICOLON" for l'
    using that by (auto simp: tsx_reports_def intro!: runs_weaken [OF runs_tsx_automatic_semicolon])
  have tern: "runs (tsx_scan_ternary_qmark E l') (\<lambda>(b, l'). b \<longrightarrow> tsx_reports v (result_symbol l'))" if "v TERNARY_QMARK" for l'
    using that by (auto simp: tsx_reports_def intro!: runs_weaken [OF runs_tsx_ternary])
  have html: "runs (tsx_scan_closing_comment E l') (\<lambda>(b, l'). b \<longrightarrow> tsx_reports v (result_symbol l'))" if "v HTML_COMMENT" for l'
    using that by (auto simp: tsx_reports_def intro!: runs_weaken [OF runs_tsx_closing_comment])
  have temp: "runs (tsx_scan_template_chars E l') (\<lambda>(b, l'). b \<longrightarrow> tsx_reports v (result_symbol l'))" if "v TEMPLATE_CHARS" for l'
    using that by (auto simp: tsx_reports_def intro!: runs_weaken [OF runs_tsx_template_chars])
  show ?thesis
    unfolding tsx_scan_def by (auto intro!: temp runs_weaken [OF jsx] runs_weaken [OF semi] tern html)
qed

end

section \<open>The conditional operator\<close>

abbreviation first_char :: "int list \<Rightarrow> int" where
  "first_char xs \<equiv> (case xs of [] \<Rightarrow> 0 | c # _ \<Rightarrow> c)"

text \<open>
  A question mark with the form of the conditional operator: no second one follows (the nullish
  operator), and the next text, after white space, is neither a colon, a closing parenthesis or
  a comma (an optional parameter) nor a point without a digit behind it (optional chaining).
\<close>

definition tsx_conditional :: "'l env \<Rightarrow> int list \<Rightarrow> bool" where
  "tsx_conditional E xs \<longleftrightarrow> (\<exists>ys. xs = ch CHR ''?'' # ys \<and> first_char ys \<noteq> ch CHR ''?''
     \<and> (let zs = dropWhile (iswspace E) ys in
        first_char zs \<notin> set (map ch '':),'') \<and> (first_char zs = ch CHR ''.'' \<longrightarrow> iswdigit E (first_char (tl zs)))))"

lemma advance_while_token_end_runs:
  assumes "ts_lexer_marks E rest pos token_end" and "runs (advance_while E p l) Q"
  shows "runs (advance_while E p l) (\<lambda>l'. Q l' \<and> token_end (raw l') = token_end (raw l))"
  using assms(2) ts_lexer_marks.advance_while_token_end [OF assms(1), of p l] by (auto simp: runs_def)

context ts_lexer_marks
begin

lemma runs_tsx_ternary_iff:
  assumes "dropWhile (iswspace E) (rest (raw l)) = xs"
  shows "runs (tsx_scan_ternary_qmark E l) (\<lambda>(b, l').
     (b \<longleftrightarrow> tsx_conditional E xs \<and> first_char (tl xs) \<noteq> 46)
     \<and> (b \<longrightarrow> result_symbol l' = TERNARY_QMARK
         \<and> token_end (raw l') = pos (raw l) + length (takeWhile (iswspace E) (rest (raw l))) + 1))"
  unfolding tsx_scan_ternary_qmark_def runs_bind
proof (rule wp_skip_while_marks, simp, unfold assms, goal_cases)
  case (1 l1)
  show ?case
  proof (cases "lookahead E l1 = 63")
    case False
    with 1 show ?thesis by (cases xs) (auto simp: tsx_conditional_def)
  next
    case True
    then obtain ys where ys: "xs = 63 # ys" using 1(1) by (cases xs) auto
    have la: "lookahead E (advance E l1) = first_char ys" using 1(1) ys by (simp add: lookahead_view)
    show ?thesis
    proof (cases "first_char ys = 63 \<or> first_char ys = 46")
      case True
      with \<open>lookahead E l1 = 63\<close> la ys show ?thesis by (auto simp: tsx_conditional_def)
    next
      case False
      let ?l = "set_symbol TERNARY_QMARK (mark_end E (advance E l1))"
      have "runs (advance_while E (iswspace E) ?l) (\<lambda>l2. rest (raw l2) = dropWhile (iswspace E) ys \<and> result_symbol l2 = TERNARY_QMARK)"
        by (rule wp_advance_while) (simp_all add: 1(1) ys)
      from advance_while_token_end_runs [OF ts_lexer_marks_axioms this] 1 ys
      have "runs (advance_while E (iswspace E) ?l) (\<lambda>l2. rest (raw l2) = dropWhile (iswspace E) ys \<and> result_symbol l2 = TERNARY_QMARK
          \<and> token_end (raw l2) = pos (raw l) + length (takeWhile (iswspace E) (rest (raw l))) + 1)"
        by (auto elim!: runs_weaken)
      then show ?thesis
        using False \<open>lookahead E l1 = 63\<close> la ys
        by (auto elim!: runs_weaken simp: Let_def tsx_conditional_def lookahead_view)
    qed
  qed
qed

end

section \<open>Properties\<close>

text \<open>C40.
  Every scan of the TypeScript scanner returns. It reports a token that is valid, or an
  automatic semicolon where one behind a function signature is valid; the token for the
  latter is never reported.
\<close>
theorem tsx_scan_returns:
  assumes "ts_lexer E rest"
  shows "\<exists>b l'. tsx_scan E v l = Some (b, l') \<and> (b \<longrightarrow> tsx_reports v (result_symbol l'))"
  using ts_lexer.runs_tsx_scan [OF assms] by (rule runs_pairD)

theorem tsx_scan_returns_witness:
  "\<exists>b l'. tsx_scan list_env (\<lambda>t. t = FUNCTION_SIGNATURE_AUTOMATIC_SEMICOLON) (lex_string JSX_TEXT ([CHR 0x0A] @ ''x'')) = Some (b, l')
     \<and> (b \<longrightarrow> tsx_reports (\<lambda>t. t = FUNCTION_SIGNATURE_AUTOMATIC_SEMICOLON) (result_symbol l'))"
  by (rule tsx_scan_returns [OF ts_lexer_list_env])

text \<open>C39.
  Where the question mark of the conditional operator is valid (and no semicolon, template or
  JSX text), the scan skips white space and then reports exactly a question mark that has the
  form of this operator, which is not that of the nullish operator, of an optional parameter or
  of optional chaining; the token is the question mark alone. The one exception is a question
  mark with a point directly behind it: it is never reported, so not the one of \<open>a ?.5 : b\<close>
  either, although a digit behind the point makes it the conditional operator.
\<close>
theorem tsx_ternary_iff:
  assumes "ts_lexer_marks E rest pos token_end" and "v TERNARY_QMARK" and "\<not> v TEMPLATE_CHARS" and "\<not> v JSX_TEXT"
    and "\<not> v AUTOMATIC_SEMICOLON" and "\<not> v FUNCTION_SIGNATURE_AUTOMATIC_SEMICOLON"
    and "rest (raw l) = bs @ xs" and "\<forall>b\<in>set bs. iswspace E b" and "\<not> iswspace E (first_char xs)"
  shows "\<exists>b l'. tsx_scan E v l = Some (b, l') \<and> (b \<longleftrightarrow> tsx_conditional E xs \<and> first_char (tl xs) \<noteq> ch CHR ''.'')
     \<and> (b \<longrightarrow> result_symbol l' = TERNARY_QMARK \<and> token_end (raw l') = pos (raw l) + length bs + 1)"
proof -
  have "takeWhile (iswspace E) xs = []" "dropWhile (iswspace E) xs = xs" using assms(9) by (cases xs; simp)+
  with assms(7,8) have "takeWhile (iswspace E) (rest (raw l)) = bs" "dropWhile (iswspace E) (rest (raw l)) = xs"
    by (simp_all add: takeWhile_append2 dropWhile_append2)
  with runs_pairD [OF ts_lexer_marks.runs_tsx_ternary_iff [OF assms(1), of l xs]] assms(2-6)
  show ?thesis by (simp add: tsx_scan_def)
qed

theorem tsx_ternary_iff_witness:
  "(\<exists>l'. tsx_scan list_env (\<lambda>t. t = TERNARY_QMARK) (lex_string JSX_TEXT '' ? .5 : x'') = Some (True, l')
      \<and> result_symbol l' = TERNARY_QMARK \<and> ll_end (raw l') = 2)
   \<and> (\<exists>l'. tsx_scan list_env (\<lambda>t. t = TERNARY_QMARK) (lex_string JSX_TEXT '' ?.5 : x'') = Some (False, l'))"
proof -
  note ex = tsx_ternary_iff [OF list_lexer.ts_lexer_marks_axioms, of "\<lambda>t. t = TERNARY_QMARK" _ "[32]"]
  have "tsx_conditional list_env (map ch ''? .5 : x'')"
    by (simp add: tsx_conditional_def list_env_def iswspace_def iswdigit_def)
  with ex [of "lex_string JSX_TEXT '' ? .5 : x''" "map ch ''? .5 : x''"] ex [of "lex_string JSX_TEXT '' ?.5 : x''" "map ch ''?.5 : x''"]
  show ?thesis by (auto simp: lex_string_def list_env_def iswspace_def)
qed

end
