(* ===== verification/Php_Scanner.thy ===== *)
theory Php_Scanner
  imports TS_Serialize
begin

text \<open>
  The scanner of the PHP grammar, \<^verbatim>\<open>php/common/scanner.h\<close>: the contents of strings, of
  execution strings, heredocs and nowdocs, the stack of open heredocs, and the semicolon a
  closing tag stands for.

  Shown here: what a scan does to the heredocs; what saving and restoring keeps; that the
  content of a string stops in front of its quote and of everything that is not text; when
  a heredoc ends, and what its end word does elsewhere.
\<close>

datatype php_token =
    AUTOMATIC_SEMICOLON
  | ENCAPSED_STRING_CHARS
  | ENCAPSED_STRING_CHARS_AFTER_VARIABLE
  | EXECUTION_STRING_CHARS
  | EXECUTION_STRING_CHARS_AFTER_VARIABLE
  | ENCAPSED_STRING_CHARS_HEREDOC
  | ENCAPSED_STRING_CHARS_AFTER_VARIABLE_HEREDOC
  | EOF_TOKEN
  | HEREDOC_START
  | HEREDOC_END
  | NOWDOC_STRING
  | SENTINEL_ERROR

text \<open>A \<^verbatim>\<open>String\<close> is an array of \<^verbatim>\<open>int32_t\<close>; \<^verbatim>\<open>string_eq\<close>, which compares size and bytes, is equality.\<close>

type_synonym php_string = "32 word list"

record php_heredoc =
  end_word_indentation_allowed :: bool
  word :: php_string

record php_scanner =
  has_leading_whitespace :: bool
  heredocs :: "php_heredoc list"

type_synonym 'l php_lexer = "('l, php_token) TSLexer"

section \<open>State\<close>

definition heredoc_new :: php_heredoc where
  "heredoc_new = \<lparr>end_word_indentation_allowed = False, word = []\<rparr>"

definition reset_heredoc :: "php_heredoc \<Rightarrow> php_heredoc" where
  "reset_heredoc h = h\<lparr>word := [], end_word_indentation_allowed := False\<rparr>"

definition php_create :: php_scanner where
  "php_create = \<lparr>has_leading_whitespace = False, heredocs = []\<rparr>"

definition php_put_heredoc :: "php_heredoc \<Rightarrow> byte list" where
  "php_put_heredoc h = bool_byte (end_word_indentation_allowed h) # le32 (of_nat (length (word h))) @ concat (map le32 (word h))"

text \<open>\<open>None\<close> where a heredoc does not fit, for which the source returns 0.\<close>

fun php_put_heredocs :: "nat \<Rightarrow> php_heredoc list \<Rightarrow> byte list option" where
  "php_put_heredocs sz [] = Some []"
| "php_put_heredocs sz (h # hs) =
     (let word_size = 4 * length (word h) in
      if TREE_SITTER_SERIALIZATION_BUFFER_SIZE \<le> sz + 5 + word_size then None
      else do { bs \<leftarrow> php_put_heredocs (sz + 5 + word_size) hs; Some (php_put_heredoc h @ bs) })"

definition php_serialize :: "php_scanner \<Rightarrow> byte list" where
  "php_serialize s =
     (case php_put_heredocs 1 (heredocs s) of
        None \<Rightarrow> []
      | Some bs \<Rightarrow> of_nat (length (heredocs s)) # bs)"

definition php_get_heredoc :: "byte list \<Rightarrow> (php_heredoc \<times> byte list) option" where
  "php_get_heredoc buffer =
     do { (a, buffer) \<leftarrow> get8 buffer;
          (n, buffer) \<leftarrow> get32 buffer;
          (w, buffer) \<leftarrow> get_many get32 (unat n) buffer;
          Some (\<lparr>end_word_indentation_allowed = (a \<noteq> 0), word = w\<rparr>, buffer) }"

text \<open>
  The loop over the saved heredocs writes each over the one the scanner has at this index, or
  behind the last; both fields are written, so nothing of the old one is left. Those the
  scanner has beyond the saved ones stay.
\<close>

definition php_deserialize :: "php_scanner \<Rightarrow> byte list \<Rightarrow> php_scanner option" where
  "php_deserialize s buffer =
     (let s = s\<lparr>has_leading_whitespace := False, heredocs := map reset_heredoc (heredocs s)\<rparr> in
      case buffer of
        [] \<Rightarrow> Some s
      | open_heredoc_count # buffer \<Rightarrow>
          do { (hs, buffer) \<leftarrow> get_many php_get_heredoc (unat open_heredoc_count) buffer;
               if buffer = [] then Some (s\<lparr>heredocs := hs @ drop (length hs) (heredocs s)\<rparr>) else None })"

section \<open>Characters, words and white space\<close>

definition php_whitespace_step :: "'l env \<Rightarrow> 'l php_lexer \<Rightarrow> ('l php_lexer, bool \<times> 'l php_lexer) flow option" where
  "php_whitespace_step E l =
     do { l \<leftarrow> advance_while E (iswspace E) l;
          if lookahead E l = ch CHR ''/'' then
            let l = advance E l in
            if lookahead E l = ch CHR ''/'' then
              do { l \<leftarrow> advance_while E (\<lambda>c. c \<noteq> 0 \<and> c \<noteq> ch CHR 0x0A) (advance E l); Some (Next l) }
            else Some (Return (False, l))
          else Some (Return (True, l)) }"

definition php_scan_whitespace :: "'l env \<Rightarrow> 'l php_lexer \<Rightarrow> (bool \<times> 'l php_lexer) option" where
  "php_scan_whitespace E = c_loop (php_whitespace_step E)"

definition is_valid_name_char :: "'l env \<Rightarrow> int \<Rightarrow> bool" where
  "is_valid_name_char E c \<longleftrightarrow> iswalnum E c \<or> c = ch CHR ''_'' \<or> c \<ge> 0x80"

definition is_escapable_sequence :: "'l env \<Rightarrow> 'l php_lexer \<Rightarrow> bool \<times> 'l php_lexer" where
  "is_escapable_sequence E l =
     (let letter = lookahead E l in
      if letter \<in> set (map ch ''nrtvef$'') \<or> letter = ch CHR 0x5C \<or> letter = ch CHR 0x22 then (True, l)
      else if letter = ch CHR ''x'' then let l = advance E l in (iswxdigit E (lookahead E l), l)
      else if letter = ch CHR ''u'' then (True, l)
      else (iswdigit E letter \<and> ch CHR ''0'' \<le> letter \<and> letter \<le> ch CHR ''7'', l))"

definition php_scan_heredoc_word :: "'l env \<Rightarrow> 'l php_lexer \<Rightarrow> (php_string \<times> 'l php_lexer) option" where
  "php_scan_heredoc_word E l =
     while_option (\<lambda>(w, l). is_valid_name_char E (lookahead E l))
       (\<lambda>(w, l). (w @ [of_int (lookahead E l)], advance E l)) ([], l)"

section \<open>Contents\<close>

text \<open>
  The loop that compares the end word. Its state is \<^verbatim>\<open>end_tag_matched\<close>,
  \<^verbatim>\<open>has_consumed_content\<close> and the lexer.
\<close>

fun php_match_tag :: "'l env \<Rightarrow> php_string \<Rightarrow> bool \<times> bool \<times> 'l php_lexer \<Rightarrow> bool \<times> bool \<times> 'l php_lexer" where
  "php_match_tag E [] (matched, consumed, l) = (matched, consumed, l)"
| "php_match_tag E (w # ws) (matched, consumed, l) =
     (if lookahead E l \<noteq> sint w then (matched, consumed, l)
      else
        let l = advance E l in
        php_match_tag E ws (ws = [] \<and> (iswspace E (lookahead E l) \<or> lookahead E l \<in> set (map ch '';,)'')), True, l))"

text \<open>White space up to the end of the line, read as content.\<close>

definition php_line_blank :: "'l env \<Rightarrow> int \<Rightarrow> bool" where
  "php_line_blank E c \<longleftrightarrow> iswspace E c \<and> c \<noteq> ch CHR 0x0D \<and> c \<noteq> ch CHR 0x0A"

text \<open>The search for the end word, the same in nowdocs and heredocs: \<open>Return\<close> is the early \<^verbatim>\<open>return false\<close>.\<close>

definition php_end_tag :: "'l env \<Rightarrow> php_string \<Rightarrow> bool \<Rightarrow> 'l php_lexer \<Rightarrow> (bool \<times> 'l php_lexer, bool \<times> 'l php_lexer) flow option" where
  "php_end_tag E heredoc_tag consumed l =
     (case php_match_tag E heredoc_tag (False, consumed, l) of (matched, consumed, l) \<Rightarrow>
        if matched then
          do { l' \<leftarrow> advance_while E (php_line_blank E) l;
               if lookahead E l' \<in> set (map ch '';,)'') \<or> lookahead E l' = ch CHR 0x0A \<or> lookahead E l' = ch CHR 0x0D
               then Some (Return (False, l'))
               else Some (Next (consumed \<or> php_line_blank E (lookahead E l), l')) }
        else Some (Next (consumed, l)))"

definition php_nowdoc_step :: "'l env \<Rightarrow> bool \<times> 'l php_lexer \<Rightarrow> (bool \<times> 'l php_lexer, bool \<times> 'l php_lexer) flow option" where
  "php_nowdoc_step E = (\<lambda>(has_content, l).
     let l = mark_end E l in
     if lookahead E l = ch CHR 0x0A \<or> lookahead E l = ch CHR 0x0D then Some (Return (has_content, l))
     else if eof E l then Some (Return (False, l))
     else Some (Next (True, advance E l)))"

definition php_scan_nowdoc_string :: "'l env \<Rightarrow> php_scanner \<Rightarrow> 'l php_lexer \<Rightarrow> (bool \<times> 'l php_lexer) option" where
  "php_scan_nowdoc_string E s l =
     (if heredocs s = [] then Some (False, l)
      else
        do { l' \<leftarrow> advance_while E (iswspace E) l;
             then_return (php_end_tag E (word (last (heredocs s))) (iswspace E (lookahead E l)) l')
               (c_loop (php_nowdoc_step E)) })"

text \<open>
  The part of \<^verbatim>\<open>scan_encapsed_part_string\<close> in front of its loop.
\<close>

definition php_heredoc_prefix :: "'l env \<Rightarrow> php_scanner \<Rightarrow> bool \<Rightarrow> 'l php_lexer \<Rightarrow> (bool \<times> 'l php_lexer, bool \<times> 'l php_lexer) flow option" where
  "php_heredoc_prefix E s is_heredoc l =
     (if is_heredoc \<and> heredocs s \<noteq> [] then
        do { l' \<leftarrow> advance_while E (php_line_blank E) l;
             php_end_tag E (word (last (heredocs s))) (php_line_blank E (lookahead E l)) l' }
      else Some (Next (False, l)))"

text \<open>The branches for a backslash, a dollar sign and, behind a variable, a minus sign.\<close>

definition php_backslash :: "'l env \<Rightarrow> bool \<Rightarrow> bool \<Rightarrow> bool \<Rightarrow> 'l php_lexer \<Rightarrow> ('l php_lexer, bool \<times> 'l php_lexer) flow" where
  "php_backslash E has_content is_heredoc is_execution_string l =
     (let l = advance E l in
      if lookahead E l = ch CHR ''{'' then Next (advance E l)
      else if is_execution_string \<and> lookahead E l = ch CHR ''`'' then Return (has_content, l)
      else if is_heredoc \<and> lookahead E l = ch CHR 0x5C then Next (advance E l)
      else (case is_escapable_sequence E l of (b, l) \<Rightarrow> if b then Return (has_content, l) else Next l))"

definition php_dollar :: "'l env \<Rightarrow> bool \<Rightarrow> 'l php_lexer \<Rightarrow> ('l php_lexer, bool \<times> 'l php_lexer) flow" where
  "php_dollar E has_content l =
     (let l = advance E l in
      if is_valid_name_char E (lookahead E l) \<and> \<not> iswdigit E (lookahead E l) \<or> lookahead E l = ch CHR ''{''
      then Return (has_content, l)
      else Next l)"

definition php_arrow :: "'l env \<Rightarrow> bool \<Rightarrow> 'l php_lexer \<Rightarrow> ('l php_lexer, bool \<times> 'l php_lexer) flow" where
  "php_arrow E has_content l =
     (let l = advance E l in
      if lookahead E l = ch CHR ''>'' then
        let l = advance E l in
        if is_valid_name_char E (lookahead E l) then Return (has_content, l) else Next l
      else Next l)"

text \<open>
  One round of its loop: the \<^verbatim>\<open>switch\<close>, where \<open>Return\<close> is \<^verbatim>\<open>return has_content\<close> (or
  \<^verbatim>\<open>return false\<close> at the end of the input) and \<open>Next\<close> is \<^verbatim>\<open>break\<close>.
\<close>

definition php_encapsed_switch :: "'l env \<Rightarrow> bool \<Rightarrow> bool \<Rightarrow> bool \<Rightarrow> bool \<Rightarrow> 'l php_lexer \<Rightarrow> ('l php_lexer, bool \<times> 'l php_lexer) flow" where
  "php_encapsed_switch E has_content is_after_variable is_heredoc is_execution_string l =
     (let c = lookahead E l in
      if c = ch CHR 0x22 then
        if \<not> is_heredoc \<and> \<not> is_execution_string then Return (has_content, l) else Next (advance E l)
      else if c = ch CHR ''`'' then
        if is_execution_string then Return (has_content, l) else Next (advance E l)
      else if c = ch CHR 0x0A \<or> c = ch CHR 0x0D then
        if is_heredoc then Return (has_content, l) else Next (advance E l)
      else if c = ch CHR 0x5C then php_backslash E has_content is_heredoc is_execution_string l
      else if c = ch CHR ''$'' then php_dollar E has_content l
      else if c = ch CHR ''-'' \<and> is_after_variable then php_arrow E has_content l
      else if c = ch CHR ''-'' \<or> c = ch CHR ''['' then
        if is_after_variable then Return (has_content, l) else Next (advance E l)
      else if c = ch CHR ''{'' then
        let l = advance E l in
        if lookahead E l = ch CHR ''$'' then Return (has_content, l) else Next l
      else if eof E l then Return (False, l)
      else Next (advance E l))"

definition php_encapsed_step :: "'l env \<Rightarrow> bool \<Rightarrow> bool \<Rightarrow> bool \<times> bool \<times> 'l php_lexer \<Rightarrow>
    (bool \<times> bool \<times> 'l php_lexer, bool \<times> 'l php_lexer) flow option" where
  "php_encapsed_step E is_heredoc is_execution_string = (\<lambda>(has_content, is_after_variable, l).
     case php_encapsed_switch E has_content is_after_variable is_heredoc is_execution_string (mark_end E l) of
       Next l \<Rightarrow> Some (Next (True, False, l))
     | Return r \<Rightarrow> Some (Return r))"

definition php_scan_encapsed_part_string :: "'l env \<Rightarrow> php_scanner \<Rightarrow> bool \<Rightarrow> bool \<Rightarrow> bool \<Rightarrow> 'l php_lexer \<Rightarrow> (bool \<times> 'l php_lexer) option" where
  "php_scan_encapsed_part_string E s is_after_variable is_heredoc is_execution_string l =
     then_return (php_heredoc_prefix E s is_heredoc l)
       (\<lambda>(has_consumed_content, l).
          c_loop (php_encapsed_step E is_heredoc is_execution_string) (has_consumed_content, is_after_variable, l))"

section \<open>The scan\<close>

text \<open>The chain of tests for the six content tokens: the first that is valid, with its flags.\<close>

definition php_content_token :: "(php_token \<Rightarrow> bool) \<Rightarrow> (php_token \<times> bool \<times> bool \<times> bool) option" where
  "php_content_token v =
     (if v ENCAPSED_STRING_CHARS_AFTER_VARIABLE then Some (ENCAPSED_STRING_CHARS_AFTER_VARIABLE, True, False, False)
      else if v ENCAPSED_STRING_CHARS then Some (ENCAPSED_STRING_CHARS, False, False, False)
      else if v EXECUTION_STRING_CHARS_AFTER_VARIABLE then Some (EXECUTION_STRING_CHARS_AFTER_VARIABLE, True, False, True)
      else if v EXECUTION_STRING_CHARS then Some (EXECUTION_STRING_CHARS, False, False, True)
      else if v ENCAPSED_STRING_CHARS_AFTER_VARIABLE_HEREDOC then Some (ENCAPSED_STRING_CHARS_AFTER_VARIABLE_HEREDOC, True, True, False)
      else if v ENCAPSED_STRING_CHARS_HEREDOC then Some (ENCAPSED_STRING_CHARS_HEREDOC, False, True, False)
      else None)"

definition php_heredoc_end :: "'l env \<Rightarrow> php_scanner \<Rightarrow> 'l php_lexer \<Rightarrow> (bool \<times> php_scanner \<times> 'l php_lexer) option" where
  "php_heredoc_end E s l =
     (let l = set_symbol HEREDOC_END l in
      if heredocs s = [] then Some (False, s, l)
      else
        do { l \<leftarrow> skip_while E (iswspace E) l;
             (w, l) \<leftarrow> php_scan_heredoc_word E l;
             if w \<noteq> word (last (heredocs s)) then Some (False, s, l)
             else Some (True, s\<lparr>heredocs := butlast (heredocs s)\<rparr>, mark_end E l) })"

definition php_heredoc_start :: "'l env \<Rightarrow> php_scanner \<Rightarrow> 'l php_lexer \<Rightarrow> (bool \<times> php_scanner \<times> 'l php_lexer) option" where
  "php_heredoc_start E s l =
     do { l \<leftarrow> skip_while E (iswspace E) (set_symbol HEREDOC_START l);
          (w, l) \<leftarrow> php_scan_heredoc_word E l;
          if w = [] then Some (False, s, l)
          else Some (True, s\<lparr>heredocs := heredocs s @ [heredoc_new\<lparr>word := w\<rparr>]\<rparr>, mark_end E l) }"

definition php_scan :: "'l env \<Rightarrow> (php_token \<Rightarrow> bool) \<Rightarrow> php_scanner \<Rightarrow> 'l php_lexer \<Rightarrow> (bool \<times> php_scanner \<times> 'l php_lexer) option" where
  "php_scan E v s l =
     (if v SENTINEL_ERROR then Some (False, s, l)
      else
        let s = s\<lparr>has_leading_whitespace := False\<rparr>; l = mark_end E l in
        case php_content_token v of
          Some (t, is_after_variable, is_heredoc, is_execution_string) \<Rightarrow>
            map_option (\<lambda>(b, l). (b, s, l))
              (php_scan_encapsed_part_string E s is_after_variable is_heredoc is_execution_string (set_symbol t l))
        | None \<Rightarrow>
            if v NOWDOC_STRING then
              map_option (\<lambda>(b, l). (b, s, l)) (php_scan_nowdoc_string E s (set_symbol NOWDOC_STRING l))
            else if v HEREDOC_END then php_heredoc_end E s l
            else
              do { (b, l) \<leftarrow> php_scan_whitespace E l;
                   if \<not> b then Some (False, s, l)
                   else if v EOF_TOKEN \<and> eof E l then Some (True, s, set_symbol EOF_TOKEN l)
                   else if v HEREDOC_START then php_heredoc_start E s l
                   else if v AUTOMATIC_SEMICOLON then
                     let l = set_symbol AUTOMATIC_SEMICOLON l in
                     if lookahead E l \<noteq> ch CHR ''?'' then Some (False, s, l)
                     else let l = advance E l in Some (lookahead E l = ch CHR ''>'', s, l)
                   else Some (False, s, l) })"

section \<open>Every scan returns\<close>

definition php_scan_ok :: "(php_token \<Rightarrow> bool) \<Rightarrow> php_scanner \<Rightarrow> bool \<Rightarrow> php_scanner \<Rightarrow> php_token \<Rightarrow> bool" where
  "php_scan_ok v s b s' t \<longleftrightarrow>
     (b \<longrightarrow> v t)
     \<and> (if b \<and> t = HEREDOC_START then \<exists>w. w \<noteq> [] \<and> heredocs s' = heredocs s @ [heredoc_new\<lparr>word := w\<rparr>]
        else if b \<and> t = HEREDOC_END then \<exists>h. heredocs s = heredocs s' @ [h]
        else heredocs s' = heredocs s)"

context ts_lexer
begin

lemma runs_php_heredoc_word:
  "runs (php_scan_heredoc_word E l) (\<lambda>(w, l'). w = map of_int (takeWhile (is_valid_name_char E) (rest (raw l)))
     \<and> rest (raw l') = dropWhile (is_valid_name_char E) (rest (raw l)) \<and> result_symbol l' = result_symbol l)"
  unfolding php_scan_heredoc_word_def
proof (rule runs_while_option [where m = "\<lambda>(w, l'). remaining l'" and I = "\<lambda>(w, l').
      \<exists>cs. rest (raw l) = cs @ rest (raw l') \<and> w = map of_int cs \<and> list_all (is_valid_name_char E) cs \<and> result_symbol l' = result_symbol l"], goal_cases)
  case (2 x)
  then obtain w l' cs where x: "x = (w, l')" "rest (raw l) = cs @ rest (raw l')" "w = map of_int cs"
    "list_all (is_valid_name_char E) cs" "result_symbol l' = result_symbol l" "is_valid_name_char E (lookahead E l')"
    by (cases x) auto
  have "\<not> is_valid_name_char E 0" by (simp add: is_valid_name_char_def)
  with x(6) obtain d ds where "rest (raw l') = d # ds" by (cases "rest (raw l')") auto
  with x show ?case by (auto intro!: exI [of _ "cs @ [d]"])
next
  case (3 x)
  then obtain w l' cs where x: "x = (w, l')" "rest (raw l) = cs @ rest (raw l')" "w = map of_int cs"
    "list_all (is_valid_name_char E) cs" "result_symbol l' = result_symbol l" "\<not> is_valid_name_char E (lookahead E l')"
    by (cases x) auto
  have "takeWhile (is_valid_name_char E) (rest (raw l')) = []" "dropWhile (is_valid_name_char E) (rest (raw l')) = rest (raw l')"
    using x(6) by (cases "rest (raw l')"; simp)+
  with x show ?case by (auto simp: takeWhile_append2 dropWhile_append2 list_all_iff)
qed auto

lemma runs_php_whitespace: "runs (php_scan_whitespace E l) (\<lambda>(b, l'). result_symbol l' = result_symbol l)"
  unfolding php_scan_whitespace_def
proof (rule runs_c_loop [where m = remaining and I = "\<lambda>l'. result_symbol l' = result_symbol l"], goal_cases)
  case (2 l1)
  show ?case
    unfolding php_whitespace_step_def runs_bind Let_def
  proof (rule wp_advance_while, goal_cases)
    case (2 l2)
    show ?case
    proof (cases "lookahead E l2 = 47")
      case True
      then have "0 < remaining l2" by (intro remaining_pos) simp
      then have "remaining l2 - Suc 0 < remaining l1" using 2(2) by linarith
      with 2(5) \<open>result_symbol l1 = result_symbol l\<close> True show ?thesis by (auto intro!: wp_while_le)
    qed (use 2 \<open>result_symbol l1 = result_symbol l\<close> in auto)
  qed simp
qed simp

lemma php_match_tag_symbol: "result_symbol (snd (snd (php_match_tag E ws (m, c, l)))) = result_symbol l"
  by (induction ws arbitrary: m c l) (auto simp: Let_def)

lemma runs_php_end_tag:
  "runs (php_end_tag E w c l) (case_flow (\<lambda>(c', l'). result_symbol l' = result_symbol l) (\<lambda>(b, l'). \<not> b))"
  using php_match_tag_symbol [of w False c l]
  by (auto simp: php_end_tag_def php_line_blank_def split: prod.splits intro!: wp_while_le)

lemma runs_php_nowdoc: "runs (php_scan_nowdoc_string E s l) (\<lambda>(b, l'). b \<longrightarrow> result_symbol l' = result_symbol l)"
proof -
  have "runs (c_loop (php_nowdoc_step E) x) (\<lambda>(b, l'). b \<longrightarrow> result_symbol l' = result_symbol l)"
    if "result_symbol (snd x) = result_symbol l" for x
    by (rule runs_c_loop [where m = "\<lambda>(h, l'). remaining l'" and I = "\<lambda>(h, l'). result_symbol l' = result_symbol l"])
      (use that in \<open>auto simp: php_nowdoc_step_def Let_def\<close>)
  note loop = this
  show ?thesis
    unfolding php_scan_nowdoc_string_def
    by (auto intro!: wp_while_le runs_weaken [OF runs_php_end_tag] loop split: flow.splits)
qed

lemma is_escapable_sequence_props:
  assumes "is_escapable_sequence E l = (b, l')"
  shows "result_symbol l' = result_symbol l" and "remaining l' \<le> remaining l"
  using assms by (auto simp: is_escapable_sequence_def Let_def split: if_splits)

lemma php_branches_ok:
  assumes "rest (raw l) = c # cs"
  shows "case_flow (\<lambda>l'. result_symbol l' = result_symbol l \<and> remaining l' < remaining l) (\<lambda>(b, l'). result_symbol l' = result_symbol l)
      (php_backslash E hc hr ex l)"
    and "case_flow (\<lambda>l'. result_symbol l' = result_symbol l \<and> remaining l' < remaining l) (\<lambda>(b, l'). result_symbol l' = result_symbol l)
      (php_dollar E hc l)"
    and "case_flow (\<lambda>l'. result_symbol l' = result_symbol l \<and> remaining l' < remaining l) (\<lambda>(b, l'). result_symbol l' = result_symbol l)
      (php_arrow E hc l)"
proof -
  obtain b l' where e: "is_escapable_sequence E (advance E l) = (b, l')" by (cases "is_escapable_sequence E (advance E l)")
  note e' = is_escapable_sequence_props [OF e]
  show "case_flow (\<lambda>l'. result_symbol l' = result_symbol l \<and> remaining l' < remaining l) (\<lambda>(b, l'). result_symbol l' = result_symbol l)
      (php_backslash E hc hr ex l)"
    using e' assms by (auto simp: php_backslash_def Let_def e)
qed (use assms in \<open>auto simp: php_dollar_def php_arrow_def Let_def\<close>)

lemma php_encapsed_switch_ok:
  "case_flow (\<lambda>l'. result_symbol l' = result_symbol l \<and> remaining l' < remaining l) (\<lambda>(b, l'). result_symbol l' = result_symbol l)
     (php_encapsed_switch E hc av hr ex l)"
  by (cases "rest (raw l)") (simp_all add: php_encapsed_switch_def Let_def php_branches_ok)

lemma runs_php_encapsed:
  "runs (php_scan_encapsed_part_string E s av hr ex l) (\<lambda>(b, l'). b \<longrightarrow> result_symbol l' = result_symbol l)"
proof -
  have step: "runs (php_encapsed_step E hr ex (h, a, l1)) (case_flow
      (\<lambda>(h, a, l2). result_symbol l2 = result_symbol l1 \<and> remaining l2 < remaining l1) (\<lambda>(b, l2). result_symbol l2 = result_symbol l1))"
    for h a l1
    using php_encapsed_switch_ok [where hc = h and av = a and hr = hr and ex = ex and l = "mark_end E l1"] by (auto simp: php_encapsed_step_def split: flow.splits)
  have "runs (c_loop (php_encapsed_step E hr ex) (h, a, l1)) (\<lambda>(b, l'). b \<longrightarrow> result_symbol l' = result_symbol l)"
    if "result_symbol l1 = result_symbol l" for h a l1
    by (rule runs_c_loop [where m = "\<lambda>(h, a, l'). remaining l'" and I = "\<lambda>(h, a, l'). result_symbol l' = result_symbol l"])
      (use that in \<open>auto split: flow.splits intro!: runs_weaken [OF step]\<close>)
  note loop = this
  show ?thesis
    unfolding php_scan_encapsed_part_string_def
    by (rule runs_then_return_inv [where I = "\<lambda>(c, l'). result_symbol l' = result_symbol l"])
      (auto simp: php_heredoc_prefix_def php_line_blank_def intro!: wp_while_le runs_weaken [OF runs_php_end_tag] loop split: flow.splits)
qed

lemma php_content_token_valid: "php_content_token v = Some (t, x) \<Longrightarrow> v t \<and> t \<noteq> HEREDOC_START \<and> t \<noteq> HEREDOC_END"
  by (auto simp: php_content_token_def split: if_splits)

lemma runs_php_scan: "runs (php_scan E v s l) (\<lambda>(b, s', l'). php_scan_ok v s b s' (result_symbol l'))"
proof -
  have enc: "runs (php_scan_encapsed_part_string E s1 a h e l1) (\<lambda>(b, l'). php_scan_ok v s b s1 (result_symbol l'))"
    if "v (result_symbol l1)" "result_symbol l1 \<noteq> HEREDOC_START" "result_symbol l1 \<noteq> HEREDOC_END" "heredocs s1 = heredocs s" for s1 a h e l1
    by (rule runs_weaken [OF runs_php_encapsed]) (use that in \<open>auto simp: php_scan_ok_def\<close>)
  have now: "runs (php_scan_nowdoc_string E s1 (set_symbol NOWDOC_STRING l1)) (\<lambda>(b, l'). php_scan_ok v s b s1 (result_symbol l'))"
    if "v NOWDOC_STRING" "heredocs s1 = heredocs s" for s1 l1
    by (rule runs_weaken [OF runs_php_nowdoc]) (use that in \<open>auto simp: php_scan_ok_def\<close>)
  have fin: "runs (php_heredoc_end E s1 l1) (\<lambda>(b, s', l'). php_scan_ok v s b s' (result_symbol l'))"
    if "v HEREDOC_END" "heredocs s1 = heredocs s" for s1 l1
    unfolding php_heredoc_end_def Let_def
    using that by (auto intro!: wp_while_le runs_weaken [OF runs_php_heredoc_word] exI [of _ "last (heredocs s)"] simp: php_scan_ok_def)
  have start: "runs (php_heredoc_start E s1 l1) (\<lambda>(b, s', l'). php_scan_ok v s b s' (result_symbol l'))"
    if "v HEREDOC_START" "heredocs s1 = heredocs s" for s1 l1
    unfolding php_heredoc_start_def
    using that by (auto intro!: wp_while_le runs_weaken [OF runs_php_heredoc_word] simp: php_scan_ok_def)
  have fail: "php_scan_ok v s False s1 t" if "heredocs s1 = heredocs s" for s1 t using that by (simp add: php_scan_ok_def)
  have tok: "php_scan_ok v s b s1 t" if "heredocs s1 = heredocs s" "v t" "t \<noteq> HEREDOC_START" "t \<noteq> HEREDOC_END" for b s1 t
    using that by (simp add: php_scan_ok_def)
  show ?thesis
    unfolding php_scan_def Let_def
    by (auto split: option.splits intro!: runs_weaken [OF enc] runs_weaken [OF now] fin start fail tok runs_weaken [OF runs_php_whitespace] dest: php_content_token_valid)
qed

end

section \<open>Saving and restoring\<close>

lemma length_php_word [simp]: "length (concat (map le32 ws)) = 4 * length ws"
  by (induction ws) simp_all

lemma php_put_heredocs_Some:
  assumes "php_put_heredocs sz hs = Some bs"
  shows "bs = concat (map php_put_heredoc hs)" and "hs = [] \<or> sz + length bs < TREE_SITTER_SERIALIZATION_BUFFER_SIZE"
    and "length hs * 5 \<le> length bs" and "list_all (\<lambda>h. length (word h) < TREE_SITTER_SERIALIZATION_BUFFER_SIZE) hs"
  using assms
  by (induction hs arbitrary: sz bs)
    (fastforce simp: php_put_heredoc_def TREE_SITTER_SERIALIZATION_BUFFER_SIZE_def Let_def split: if_splits bind_splits)+

lemma php_get_put_heredoc:
  assumes "length (word h) < TREE_SITTER_SERIALIZATION_BUFFER_SIZE"
  shows "php_get_heredoc (php_put_heredoc h @ bs) = Some (h, bs)"
proof -
  have "get_many get32 (length (word h)) (concat (map le32 (word h)) @ bs) = Some (word h, bs)"
    by (rule get_many_concat) simp
  with assms show ?thesis
    by (cases h) (simp add: php_put_heredoc_def php_get_heredoc_def unat_of_nat_32 TREE_SITTER_SERIALIZATION_BUFFER_SIZE_def)
qed

lemma php_restore:
  assumes "php_serialize s \<noteq> []"
  shows "php_deserialize t (php_serialize s)
     = Some \<lparr>has_leading_whitespace = False, heredocs = heredocs s @ map reset_heredoc (drop (length (heredocs s)) (heredocs t))\<rparr>"
    and "length (php_serialize s) < TREE_SITTER_SERIALIZATION_BUFFER_SIZE"
proof -
  from assms obtain bs where bs: "php_put_heredocs 1 (heredocs s) = Some bs"
    by (auto simp: php_serialize_def split: option.splits)
  note put = php_put_heredocs_Some [OF bs]
  have ser: "php_serialize s = of_nat (length (heredocs s)) # bs" by (simp add: php_serialize_def bs del: One_nat_def)
  have n: "length (heredocs s) < 256" using put(2,3) by (auto simp: TREE_SITTER_SERIALIZATION_BUFFER_SIZE_def)
  have "get_many php_get_heredoc (length (heredocs s)) (concat (map php_put_heredoc (heredocs s)) @ []) = Some (heredocs s, [])"
    by (rule get_many_concat) (use put(4) in \<open>auto simp: list_all_iff intro: php_get_put_heredoc\<close>)
  then show "php_deserialize t (php_serialize s)
     = Some \<lparr>has_leading_whitespace = False, heredocs = heredocs s @ map reset_heredoc (drop (length (heredocs s)) (heredocs t))\<rparr>"
    using n put(1) by (simp add: ser php_deserialize_def unat_of_nat_8 drop_map)
  show "length (php_serialize s) < TREE_SITTER_SERIALIZATION_BUFFER_SIZE"
    using put(2) put(1) by (auto simp: ser TREE_SITTER_SERIALIZATION_BUFFER_SIZE_def)
qed

text \<open>
  As for Bash, the contract with the runtime holds for scanners that are new: only then the
  stack that is restored is the one that was saved.
\<close>

interpretation php: resettable_scanner php_serialize "\<lambda>_. php_deserialize php_create" "\<lambda>s. php_serialize s \<noteq> []" heredocs php_create
proof
  fix s assume s: "php_serialize s \<noteq> []"
  show "length (php_serialize s) \<le> TREE_SITTER_SERIALIZATION_BUFFER_SIZE" using php_restore(2) [OF s] by simp
  show "\<exists>s'. php_deserialize php_create (php_serialize s) = Some s' \<and> heredocs s' = heredocs s"
    using php_restore(1) [OF s, of php_create] by (simp add: php_create_def)
next
  show "\<exists>s'. php_deserialize php_create [] = Some s' \<and> heredocs s' = heredocs php_create"
    by (simp add: php_deserialize_def php_create_def)
qed

section \<open>The end of a heredoc\<close>

text \<open>
  The tests in front of the end of a heredoc fail.
\<close>

definition php_at_heredoc_end :: "(php_token \<Rightarrow> bool) \<Rightarrow> bool" where
  "php_at_heredoc_end v \<longleftrightarrow> v HEREDOC_END \<and> \<not> v SENTINEL_ERROR \<and> php_content_token v = None \<and> \<not> v NOWDOC_STRING"

definition php_next_word :: "'l env \<Rightarrow> int list \<Rightarrow> php_string" where
  "php_next_word E cs = map of_int (takeWhile (is_valid_name_char E) (dropWhile (iswspace E) cs))"

context ts_lexer
begin

lemma runs_php_heredoc_end_iff:
  assumes "php_at_heredoc_end v"
  shows "runs (php_scan E v s l) (\<lambda>(b, s', l'). b \<longleftrightarrow> heredocs s \<noteq> [] \<and> php_next_word E (rest (raw l)) = word (last (heredocs s)))"
proof -
  have "runs (skip_while E (iswspace E) l1) (\<lambda>l2. rest (raw l2) = dropWhile (iswspace E) (rest (raw l1)))" for l1 :: "'l php_lexer"
    by (rule wp_skip_while) simp_all
  note skip = this
  show ?thesis
    unfolding php_scan_def php_heredoc_end_def Let_def
    using assms
    by (auto simp: php_at_heredoc_end_def php_next_word_def intro!: runs_weaken [OF skip] runs_weaken [OF runs_php_heredoc_word])
qed

end

section \<open>The content of a string\<close>

definition php_quote :: "bool \<Rightarrow> int" where
  "php_quote is_execution_string = (if is_execution_string then ch CHR ''`'' else ch CHR 0x22)"

definition php_peek :: "int list \<Rightarrow> int" where
  "php_peek cs = (case cs of [] \<Rightarrow> 0 | c # _ \<Rightarrow> c)"

text \<open>An escape sequence, read behind its backslash.\<close>

definition php_escape :: "'l env \<Rightarrow> bool \<Rightarrow> int list \<Rightarrow> bool" where
  "php_escape E ex cs \<longleftrightarrow> php_peek cs \<in> set (map ch ''nrtvef$u'') \<union> {ch CHR 0x5C, ch CHR 0x22}
     \<or> ex \<and> php_peek cs = ch CHR ''`''
     \<or> php_peek cs = ch CHR ''x'' \<and> iswxdigit E (php_peek (tl cs))
     \<or> iswdigit E (php_peek cs) \<and> ch CHR ''0'' \<le> php_peek cs \<and> php_peek cs \<le> ch CHR ''7''"

text \<open>
  The places in front of which content stops: the quote, an escape sequence, the dollar sign of
  a variable, the brace of an interpolation and, directly behind a variable (\<open>av\<close>), what selects
  an element or a member of it.
\<close>

definition php_stops :: "'l env \<Rightarrow> bool \<Rightarrow> bool \<Rightarrow> int list \<Rightarrow> bool" where
  "php_stops E ex av ys = (case ys of [] \<Rightarrow> False | c # cs \<Rightarrow>
     c = php_quote ex
     \<or> c = ch CHR 0x5C \<and> php_escape E ex cs
     \<or> c = ch CHR ''$'' \<and> (is_valid_name_char E (php_peek cs) \<and> \<not> iswdigit E (php_peek cs) \<or> php_peek cs = ch CHR ''{'')
     \<or> c = ch CHR ''{'' \<and> php_peek cs = ch CHR ''$''
     \<or> av \<and> (c = ch CHR ''['' \<or> c = ch CHR ''-'' \<and> php_peek cs = ch CHR ''>'' \<and> is_valid_name_char E (php_peek (tl cs))))"

text \<open>
  The number of characters in front of the first such place, if there is one. A backslash in
  front of a brace takes the brace with it.
\<close>

function php_content_length :: "'l env \<Rightarrow> bool \<Rightarrow> bool \<Rightarrow> int list \<Rightarrow> nat option" where
  "php_content_length E ex av ys =
     (if ys = [] then None
      else if php_stops E ex av ys then Some 0
      else if hd ys = ch CHR 0x5C \<and> php_peek (tl ys) = ch CHR ''{''
      then map_option (\<lambda>n. n + 2) (php_content_length E ex False (tl (tl ys)))
      else map_option Suc (php_content_length E ex False (tl ys)))"
  by auto
termination by (relation "measure (\<lambda>(E, ex, av, ys). length ys)") (auto simp: length_tl)

declare php_content_length.simps [simp del]

lemma php_quote_neq: "c \<noteq> 96 \<Longrightarrow> c \<noteq> 34 \<Longrightarrow> c \<noteq> php_quote ex"
  by (simp add: php_quote_def)

lemma php_peek_simps [simp]: "php_peek [] = 0" "php_peek (c # cs) = c"
  by (simp_all add: php_peek_def)

lemma php_content_length_Nil [simp]: "php_content_length E ex av [] = None"
  by (simp add: php_content_length.simps)

lemma php_content_length_Cons:
  "php_content_length E ex av (c # cs) =
     (if php_stops E ex av (c # cs) then Some 0
      else if c = 92 \<and> php_peek cs = 123 then map_option (\<lambda>n. n + 2) (php_content_length E ex False (tl cs))
      else map_option Suc (php_content_length E ex False cs))"
  by (subst php_content_length.simps) simp

text \<open>Content in front of the first stop has no quote in it.\<close>

lemma php_content_no_quote: "php_content_length E ex av ys = Some n \<Longrightarrow> n < length ys \<and> php_quote ex \<notin> set (take n ys)"
proof (induction E ex av ys arbitrary: n rule: php_content_length.induct)
  case (1 E ex av ys)
  show ?case
  proof (cases "ys = [] \<or> php_stops E ex av ys")
    case True
    with 1(3) show ?thesis by (cases ys) (auto simp: php_content_length_Cons)
  next
    case False
    then obtain c cs where t: "ys = c # cs" "c \<noteq> php_quote ex" by (cases ys) (auto simp: php_stops_def)
    show ?thesis
    proof (cases "hd ys = ch CHR 0x5C \<and> php_peek (tl ys) = ch CHR ''{''")
      case True
      then obtain ds where cs: "cs = 123 # ds" using t by (cases cs) auto
      with True False t 1(3) obtain m where "php_content_length E ex False ds = Some m" "n = m + 2"
        by (auto simp: php_content_length_Cons)
      with 1(1) False True t cs show ?thesis by (auto simp: php_quote_def)
    next
      case no: False
      with False t 1(3) obtain m where "php_content_length E ex False cs = Some m" "n = Suc m"
        by (auto simp: php_content_length_Cons)
      with 1(2) False no t show ?thesis by auto
    qed
  qed
qed

context ts_lexer_marks
begin

lemma lookahead_peek: "lookahead E l = php_peek (rest (raw l))"
  by (simp add: lookahead_view php_peek_def)

text \<open>From \<open>l\<close> on, \<open>k\<close> characters have been read as content.\<close>

definition php_read :: "bool \<Rightarrow> bool \<Rightarrow> bool \<Rightarrow> ('a, php_token) TSLexer \<Rightarrow> nat \<Rightarrow> ('a, php_token) TSLexer \<Rightarrow> bool" where
  "php_read ex av a l k l' \<longleftrightarrow> k \<le> remaining l \<and> rest (raw l') = drop k (rest (raw l)) \<and> pos (raw l') = pos (raw l) + k
     \<and> result_symbol l' = result_symbol l
     \<and> php_content_length E ex av (rest (raw l)) = map_option (\<lambda>n. n + k) (php_content_length E ex a (rest (raw l')))"

abbreviation php_text_step :: "bool \<Rightarrow> bool \<Rightarrow> bool \<Rightarrow> ('a, php_token) TSLexer \<Rightarrow> (('a, php_token) TSLexer, bool \<times> ('a, php_token) TSLexer) flow \<Rightarrow> bool" where
  "php_text_step ex av hc l \<equiv> case_flow (\<lambda>l'. \<exists>k>0. php_read ex av False l k l')
     (\<lambda>(b, l'). token_end (raw l') = token_end (raw l) \<and> result_symbol l' = result_symbol l
        \<and> (if rest (raw l) = [] then \<not> b else php_stops E ex av (rest (raw l)) \<and> b = hc))"

lemma php_read_one:
  assumes "rest (raw l) = c # cs" and "\<not> php_stops E ex av (c # cs)" and "\<not> (c = 92 \<and> php_peek cs = 123)"
  shows "php_read ex av False l 1 (advance E l)"
  using assms by (auto simp: php_read_def php_content_length_Cons intro: option.map_cong0)

lemma php_read_brace:
  assumes "rest (raw l) = 92 # 123 # cs" and "\<not> php_stops E ex av (92 # 123 # cs)"
  shows "php_read ex av False l 2 (advance E (advance E l))"
  using assms by (auto simp: php_read_def php_content_length_Cons)

lemma php_read_two:
  assumes "rest (raw l) = c # d # cs" and "\<not> php_stops E ex av (c # d # cs)" and "d = 120 \<or> d = 62"
  shows "php_read ex av False l 2 (advance E (advance E l))"
proof -
  have "\<not> php_stops E ex False (d # cs)" using assms(3) by (auto simp: php_stops_def php_quote_def)
  then show ?thesis
    using assms
    by (auto simp: php_read_def php_content_length_Cons option.map_comp comp_def)
qed

lemma php_backslash_text:
  assumes "rest (raw l) = 92 # cs"
  shows "php_text_step ex av hc l (php_backslash E hc False ex l)"
proof -
  let ?l = "advance E l"
  have la: "lookahead E ?l = php_peek cs" "rest (raw ?l) = cs" "lookahead E (advance E ?l) = php_peek (tl cs)"
    using assms by (simp_all add: lookahead_peek)
  have stops: "php_stops E ex av (92 # cs) \<longleftrightarrow> php_escape E ex cs" by (simp add: php_stops_def php_quote_def)
  consider "php_peek cs = 123" | "php_peek cs \<noteq> 123" "php_escape E ex cs" | "php_peek cs \<noteq> 123" "\<not> php_escape E ex cs" by blast
  then show ?thesis
  proof cases
    case 1
    then obtain ds where cs: "cs = 123 # ds" by (cases cs) auto
    have "\<not> php_escape E ex cs" using 1 by (simp add: php_escape_def)
    with 1 cs assms stops php_read_brace [of l ds ex av] show ?thesis
      by (auto simp: php_backslash_def Let_def la intro!: exI [of _ 2])
  next
    case 2
    then show ?thesis
      using assms stops by (auto simp: php_backslash_def is_escapable_sequence_def php_escape_def Let_def la)
  next
    case 3
    have x: "php_read ex av False l 2 (advance E ?l)" if "php_peek cs = 120"
    proof -
      from that obtain ds where "cs = 120 # ds" by (cases cs) auto
      with 3 stops assms show ?thesis by (intro php_read_two) auto
    qed
    have "php_read ex av False l 1 ?l" using 3 stops assms by (intro php_read_one) auto
    with 3 x show ?thesis
      by (auto simp: php_backslash_def is_escapable_sequence_def php_escape_def Let_def la intro: exI [of _ 2] exI [of _ 1])
  qed
qed

lemma php_dollar_text:
  assumes "rest (raw l) = 36 # cs"
  shows "php_text_step ex av hc l (php_dollar E hc l)"
proof -
  have la: "lookahead E (advance E l) = php_peek cs" using assms by (simp add: lookahead_peek)
  show ?thesis
    using assms php_read_one [OF assms, of ex av]
    by (auto simp: php_dollar_def Let_def la php_stops_def php_quote_def intro: exI [of _ 1])
qed

lemma php_arrow_text:
  assumes "rest (raw l) = 45 # cs"
  shows "php_text_step ex True hc l (php_arrow E hc l)"
proof (cases "php_peek cs = 62")
  case True
  then obtain ds where cs: "cs = 62 # ds" by (cases cs) auto
  then have la: "lookahead E (advance E l) = 62" "lookahead E (advance E (advance E l)) = php_peek ds"
    using assms by (simp_all add: lookahead_peek)
  show ?thesis
    using assms cs php_read_two [of l 45 62 ds ex True]
    by (auto simp: php_arrow_def Let_def la php_stops_def php_quote_def intro: exI [of _ 2])
next
  case False
  then have la: "lookahead E (advance E l) \<noteq> 62" using assms by (simp add: lookahead_peek)
  show ?thesis
    using assms False la php_read_one [OF assms, of ex True]
    by (auto simp: php_arrow_def Let_def php_stops_def php_quote_def intro: exI [of _ 1])
qed

lemma php_switch_text: "php_text_step ex av hc l (php_encapsed_switch E hc av False ex l)"
proof (cases "rest (raw l)")
  case (Cons c cs)
  have one: "php_text_step ex av hc l (Next (advance E l))" if "\<not> php_stops E ex av (c # cs)" "c \<noteq> 92"
    using php_read_one [OF Cons that(1)] that(2) by (auto intro: exI [of _ 1])
  have la: "lookahead E l = c" "lookahead E (advance E l) = php_peek cs" "\<not> eof E l" using Cons by (simp_all add: lookahead_peek)
  have brace: "php_text_step ex av hc l (if php_peek cs = 36 then Return (hc, advance E l) else Next (advance E l))" if "c = 123"
    using one that Cons by (auto simp: php_stops_def php_quote_def)
  have quote: "php_text_step ex av hc l (Return (hc, l))" if "php_stops E ex av (c # cs)"
    using that Cons by simp
  consider "c = 34" | "c = 96" | "c = 92" | "c = 36" | "c = 45" | "c = 91" | "c = 123" | "c \<notin> {34, 96, 92, 36, 45, 91, 123}"
    by blast
  then show ?thesis
  proof cases
    case 3
    then show ?thesis using php_backslash_text [of l cs ex av hc] Cons by (simp add: php_encapsed_switch_def la)
  next
    case 4
    then show ?thesis using php_dollar_text [of l cs ex av hc] Cons by (simp add: php_encapsed_switch_def la)
  next
    case 5
    have "php_text_step ex av hc l (php_arrow E hc l)" if av
    proof -
      have av: "av = True" using that by simp
      show ?thesis unfolding av by (rule php_arrow_text [of l cs]) (use Cons 5 in simp)
    qed
    moreover have "php_text_step ex av hc l (Next (advance E l))" if "\<not> av"
      by (rule one) (use 5 that in \<open>simp_all add: php_stops_def php_quote_def\<close>)
    ultimately show ?thesis using 5 by (cases av) (simp_all only: php_encapsed_switch_def la Let_def, simp_all)
  next
    case 7
    then show ?thesis using brace by (simp add: php_encapsed_switch_def la Let_def)
  next
    case 8
    then have "\<not> php_stops E ex av (c # cs)" by (auto simp: php_stops_def php_quote_def)
    with 8 one show ?thesis by (auto simp: php_encapsed_switch_def la Let_def)
  qed (use one quote in \<open>auto simp: php_encapsed_switch_def la php_stops_def php_quote_def\<close>)
qed (simp add: php_encapsed_switch_def lookahead_view)

lemma php_read_trans:
  "php_read ex av a l k l1 \<Longrightarrow> php_read ex a a' l1 m l2 \<Longrightarrow> php_read ex av a' l (k + m) l2"
  by (auto simp: php_read_def option.map_comp comp_def ac_simps)

lemma runs_php_string_text:
  "runs (php_scan_encapsed_part_string E s av False ex l) (\<lambda>(b, l'). result_symbol l' = result_symbol l
     \<and> (case php_content_length E ex av (rest (raw l)) of None \<Rightarrow> \<not> b
        | Some n \<Rightarrow> (b \<longleftrightarrow> 0 < n) \<and> token_end (raw l') = pos (raw l) + n))" (is "runs _ ?Q")
proof -
  let ?I = "\<lambda>(h, a, l1). \<exists>k. php_read ex av a l k l1 \<and> (h \<longleftrightarrow> 0 < k)"
  have step: "runs (php_encapsed_step E False ex (h, a, l1)) (case_flow (\<lambda>(h', a', l2). ?I (h', a', l2) \<and> remaining l2 < remaining l1) ?Q)"
    if read: "php_read ex av a l k l1" and h: "h \<longleftrightarrow> 0 < k" for h a l1 k
  proof (cases "php_encapsed_switch E h a False ex (mark_end E l1)")
    case (Next l2)
    with php_switch_text [where ex = ex and av = a and hc = h and l = "mark_end E l1"] obtain m where m: "0 < m" "php_read ex a False (mark_end E l1) m l2" by auto
    then have m': "php_read ex a False l1 m l2" by (simp add: php_read_def)
    then have "remaining l2 = remaining l1 - m" "m \<le> remaining l1" by (simp_all add: php_read_def)
    with m(1) have "remaining l2 < remaining l1" by linarith
    with Next m(1) php_read_trans [OF read m'] show ?thesis
      by (auto simp: php_encapsed_step_def intro!: exI [of _ "k + m"])
  next
    case (Return r)
    obtain b l' where r: "r = (b, l')" by (cases r)
    from Return r php_switch_text [where ex = ex and av = a and hc = h and l = "mark_end E l1"]
    have l': "token_end (raw l') = pos (raw l1)" "result_symbol l' = result_symbol l1"
      "if rest (raw l1) = [] then \<not> b else php_stops E ex a (rest (raw l1)) \<and> b = h" by auto
    have "php_content_length E ex a (rest (raw l1)) = (if rest (raw l1) = [] then None else Some 0)"
      using l'(3) by (cases "rest (raw l1)") (simp_all add: php_content_length_Cons)
    with l' Return r read h show ?thesis by (auto simp: php_encapsed_step_def php_read_def split: if_splits)
  qed
  have "runs (c_loop (php_encapsed_step E False ex) (False, av, l)) ?Q"
  proof (rule runs_c_loop [where m = "\<lambda>(h, a, l1). remaining l1" and I = ?I], goal_cases)
    case 1
    show ?case by (auto simp: php_read_def option.map_ident)
  next
    case (2 x)
    then obtain h a l1 k where x: "x = (h, a, l1)" "php_read ex av a l k l1" "h \<longleftrightarrow> 0 < k" by (cases x) auto
    show ?case unfolding x(1) by (rule runs_weaken [OF step [OF x(2,3)]]) (auto split: flow.splits)
  qed
  then show ?thesis by (simp add: php_scan_encapsed_part_string_def php_heredoc_prefix_def then_return_def)
qed

end

section \<open>Properties\<close>

text \<open>C12.
  Every scan of the PHP scanner returns, and a token it reports is valid. The start of a
  heredoc pushes a heredoc with a word that is not empty, the end of one removes the last;
  nothing else changes the stack.
\<close>
theorem php_scan_heredocs:
  assumes "ts_lexer E rest"
  shows "\<exists>b s' l'. php_scan E v s l = Some (b, s', l') \<and> php_scan_ok v s b s' (result_symbol l')"
  using ts_lexer.runs_php_scan [OF assms] by (rule runs_tripleD)

theorem php_scan_heredocs_witness:
  "\<exists>b s' l'. php_scan list_env (\<lambda>t. t = HEREDOC_START) php_create (lex_string EOF_TOKEN '' EOT'') = Some (b, s', l')
     \<and> php_scan_ok (\<lambda>t. t = HEREDOC_START) php_create b s' (result_symbol l')"
  by (rule php_scan_heredocs [OF ts_lexer_list_env])

text \<open>
  Restoring a saved PHP scanner gives the saved heredocs, and behind them, with empty words,
  the heredocs that the scanner it is restored into has beyond their number. A state too
  large to be saved empties the words of all. What is saved fits the buffer.
\<close>
lemma php_restore_stack:
  "\<exists>s'. php_deserialize t (php_serialize s) = Some s'
     \<and> heredocs s' = (if php_serialize s = [] then map reset_heredoc (heredocs t)
          else heredocs s @ map reset_heredoc (drop (length (heredocs s)) (heredocs t)))
     \<and> length (php_serialize s) < TREE_SITTER_SERIALIZATION_BUFFER_SIZE"
proof (cases "php_serialize s = []")
  case True
  then show ?thesis by (simp add: php_deserialize_def TREE_SITTER_SERIALIZATION_BUFFER_SIZE_def)
next
  case False
  then show ?thesis using php_restore [OF False] by simp
qed

text \<open>C36.
  A scanner restored into one with more heredocs cannot close the heredoc that is open: the
  stale heredoc on top has an empty word, so the end is reported exactly where no word
  follows, and never at the word of the heredoc.
\<close>
theorem php_stale_heredoc_not_closed:
  assumes "ts_lexer E rest" and "php_at_heredoc_end v" and "php_serialize s \<noteq> []" and "length (heredocs s) < length (heredocs t)"
    and "php_deserialize t (php_serialize s) = Some s'"
  shows "\<exists>b s'' l'. php_scan E v s' l = Some (b, s'', l') \<and> (b \<longleftrightarrow> php_next_word E (rest (raw l)) = [])"
proof -
  have "heredocs s' = heredocs s @ map reset_heredoc (drop (length (heredocs s)) (heredocs t))"
    using php_restore(1) [OF assms(3), of t] assms(5) by auto
  moreover have "drop (length (heredocs s)) (heredocs t) \<noteq> []" using assms(4) by simp
  ultimately have "heredocs s' \<noteq> []" "word (last (heredocs s')) = []"
    by (simp_all add: last_map reset_heredoc_def)
  then show ?thesis
    using runs_tripleD [OF ts_lexer.runs_php_heredoc_end_iff [OF assms(1,2), of s' l]] by simp
qed

theorem php_stale_heredoc_not_closed_witness:
  "\<exists>b s'' l'. php_scan list_env (\<lambda>t. t = HEREDOC_END) \<lparr>has_leading_whitespace = False, heredocs = [heredoc_new\<lparr>word := [65]\<rparr>, heredoc_new]\<rparr>
       (lex_string EOF_TOKEN ''A'') = Some (b, s'', l') \<and> (b \<longleftrightarrow> php_next_word list_env (ll_rest (raw (lex_string EOF_TOKEN ''A''))) = [])"
proof (rule php_stale_heredoc_not_closed [OF ts_lexer_list_env])
  let ?s = "php_create\<lparr>heredocs := [heredoc_new\<lparr>word := [65]\<rparr>]\<rparr>"
    and ?t = "php_create\<lparr>heredocs := [heredoc_new\<lparr>word := [65]\<rparr>, heredoc_new\<lparr>word := [66]\<rparr>]\<rparr>"
  show s: "php_serialize ?s \<noteq> []"
    by (simp add: php_serialize_def heredoc_new_def TREE_SITTER_SERIALIZATION_BUFFER_SIZE_def)
  show "php_deserialize ?t (php_serialize ?s) = Some \<lparr>has_leading_whitespace = False, heredocs = [heredoc_new\<lparr>word := [65]\<rparr>, heredoc_new]\<rparr>"
    by (subst php_restore(1) [OF s]) (simp add: reset_heredoc_def heredoc_new_def)
qed (simp_all add: php_at_heredoc_end_def php_content_token_def)

text \<open>C13.
  The content of a string, or of a string to be executed, ends exactly in front of the first
  place that is its quote, an escape sequence, a dollar sign with the start of a name or a brace
  behind it, or an opening brace with a dollar sign behind it; directly behind a variable also in
  front of a bracket, or of an arrow with a name behind it. A brace behind a backslash is content.
  The token is reported if there is such a place and some content in front of it, and then it
  does not contain the quote; otherwise the scan reports nothing.
\<close>
theorem php_string_content_end:
  assumes "ts_lexer_marks E rest pos token_end" and "\<not> v SENTINEL_ERROR" and "php_content_token v = Some (t, av, False, ex)"
  shows "\<exists>b l'. php_scan E v s l = Some (b, s\<lparr>has_leading_whitespace := False\<rparr>, l') \<and> result_symbol l' = t \<and>
     (case php_content_length E ex av (rest (raw l)) of
        None \<Rightarrow> \<not> b
      | Some n \<Rightarrow> (b \<longleftrightarrow> 0 < n) \<and> token_end (raw l') = pos (raw l) + n \<and> php_quote ex \<notin> set (take n (rest (raw l))))"
proof -
  let ?l = "set_symbol t (mark_end E l)" and ?s = "s\<lparr>has_leading_whitespace := False\<rparr>"
  have L: "ts_lexer E rest" using assms(1) by (simp add: ts_lexer_marks_def)
  have eqs: "rest (raw ?l) = rest (raw l)" "pos (raw ?l) = pos (raw l)" "result_symbol ?l = t"
    using ts_lexer.rest_ops(3) [OF L, of l] ts_lexer_marks.pos_ops(3) [OF assms(1), of l] by simp_all
  obtain b l' where "php_scan_encapsed_part_string E ?s av False ex ?l = Some (b, l')" "result_symbol l' = t"
    "case php_content_length E ex av (rest (raw l)) of None \<Rightarrow> \<not> b
     | Some n \<Rightarrow> (b \<longleftrightarrow> 0 < n) \<and> token_end (raw l') = pos (raw l) + n"
    using runs_pairD [OF ts_lexer_marks.runs_php_string_text [OF assms(1), of ?s av ex ?l]] unfolding eqs by blast
  then show ?thesis
    using assms(2,3) php_content_no_quote [of E ex av "rest (raw l)"] by (auto simp: php_scan_def split: option.splits)
qed

theorem php_string_content_end_witness:
  "\<exists>l'. php_scan list_env (\<lambda>t. t = ENCAPSED_STRING_CHARS) php_create (lex_string EOF_TOKEN ''a$1$x'')
      = Some (True, php_create\<lparr>has_leading_whitespace := False\<rparr>, l')
     \<and> result_symbol l' = ENCAPSED_STRING_CHARS \<and> ll_end (raw l') = 3"
proof -
  have n: "php_content_length list_env False False (ll_rest (raw (lex_string EOF_TOKEN ''a$1$x''))) = Some 3"
    by (simp add: lex_string_def php_content_length_Cons php_stops_def php_quote_def php_escape_def is_valid_name_char_def
        iswalnum_def iswalpha_def iswdigit_def list_env_def)
  have "php_content_token (\<lambda>t. t = ENCAPSED_STRING_CHARS) = Some (ENCAPSED_STRING_CHARS, False, False, False)"
    by (simp add: php_content_token_def)
  from php_string_content_end [OF list_lexer.ts_lexer_marks_axioms _ this, of php_create "lex_string EOF_TOKEN ''a$1$x''"] n
  show ?thesis by (auto simp: lex_string_def)
qed

end
