(* ===== verification/Haskell_Unicode.thy ===== *)
theory Haskell_Unicode
  imports TS_Serialize
begin

text \<open>
  The character classes of the Haskell scanner, \<^verbatim>\<open>haskell/src/unicode.h\<close>. Each is a chain of
  tests for ranges of code points, and in a range a look at the bit of the code point in a
  table. The tables are data generated from the Unicode database, some 48,000 bytes; here they
  are a record of byte arrays \<open>T\<close>, and everything shown of the scanner holds for all contents.

  Shown here: no class contains a character below its first range, so none contains the value 0
  that stands for the end of the input, and the end of a line and the tabulator are no spaces.
\<close>

record hs_tables =
  bitmap_identifier_1 :: "byte list"
  bitmap_identifier_2 :: "byte list"
  bitmap_identifier_3 :: "byte list"
  bitmap_identifier_4 :: "byte list"
  bitmap_identifier_5 :: "byte list"
  bitmap_varid_start_1 :: "byte list"
  bitmap_varid_start_2 :: "byte list"
  bitmap_varid_start_3 :: "byte list"
  bitmap_varid_start_4 :: "byte list"
  bitmap_conid_start_1 :: "byte list"
  bitmap_conid_start_2 :: "byte list"
  bitmap_conid_start_3 :: "byte list"
  bitmap_conid_start_4 :: "byte list"
  bitmap_conid_start_5 :: "byte list"
  bitmap_symop_1 :: "byte list"
  bitmap_symop_2 :: "byte list"
  bitmap_symop_3 :: "byte list"
  bitmap_symop_4 :: "byte list"
  bitmap_symop_5 :: "byte list"
  bitmap_space :: "byte list"

text \<open>\<^verbatim>\<open>(bitmap[offset >> 3] & (1u << (offset & 7))) > 0\<close>; an index behind the table reads nothing.\<close>

definition hs_bit :: "byte list \<Rightarrow> int \<Rightarrow> bool" where
  "hs_bit t n = (let i = nat n div 8 in i < length t \<and> bit (t ! i) (nat n mod 8))"

definition is_identifier_char :: "hs_tables \<Rightarrow> int \<Rightarrow> bool" where
  "is_identifier_char T c =
     (if c < 48 then False
      else if c \<le> 19968 then hs_bit (bitmap_identifier_1 T) (c - 48)
      else if c < 40959 then False
      else if c \<le> 44032 then hs_bit (bitmap_identifier_2 T) (c - 40959)
      else if c < 55203 then False
      else if c \<le> 131072 then hs_bit (bitmap_identifier_3 T) (c - 55203)
      else if c < 173791 then False
      else if c \<le> 205743 then hs_bit (bitmap_identifier_4 T) (c - 173791)
      else if c < 917760 then False
      else if c \<le> 917999 then hs_bit (bitmap_identifier_5 T) (c - 917760)
      else False)"

definition is_varid_start_char :: "hs_tables \<Rightarrow> int \<Rightarrow> bool" where
  "is_varid_start_char T c =
     (if c < 97 then False
      else if c \<le> 19968 then hs_bit (bitmap_varid_start_1 T) (c - 97)
      else if c < 40959 then False
      else if c \<le> 44032 then hs_bit (bitmap_varid_start_2 T) (c - 40959)
      else if c < 55203 then False
      else if c \<le> 131072 then hs_bit (bitmap_varid_start_3 T) (c - 55203)
      else if c < 173791 then False
      else if c \<le> 205743 then hs_bit (bitmap_varid_start_4 T) (c - 173791)
      else False)"

definition is_conid_start_char :: "hs_tables \<Rightarrow> int \<Rightarrow> bool" where
  "is_conid_start_char T c =
     (if c < 65 then False
      else if c \<le> 11506 then hs_bit (bitmap_conid_start_1 T) (c - 65)
      else if c < 42560 then False
      else if c \<le> 42997 then hs_bit (bitmap_conid_start_2 T) (c - 42560)
      else if c < 65313 then False
      else if c \<le> 71871 then hs_bit (bitmap_conid_start_3 T) (c - 65313)
      else if c < 93760 then False
      else if c \<le> 93791 then hs_bit (bitmap_conid_start_4 T) (c - 93760)
      else if c < 119808 then False
      else if c \<le> 125217 then hs_bit (bitmap_conid_start_5 T) (c - 119808)
      else False)"

definition is_symop_char :: "hs_tables \<Rightarrow> int \<Rightarrow> bool" where
  "is_symop_char T c =
     (if c < 33 then False
      else if c \<le> 19967 then hs_bit (bitmap_symop_1 T) (c - 33)
      else if c < 42128 then False
      else if c \<le> 44011 then hs_bit (bitmap_symop_2 T) (c - 42128)
      else if c < 64297 then False
      else if c \<le> 77810 then hs_bit (bitmap_symop_3 T) (c - 64297)
      else if c < 92782 then False
      else if c \<le> 94178 then hs_bit (bitmap_symop_4 T) (c - 92782)
      else if c < 113820 then False
      else if c \<le> 129994 then hs_bit (bitmap_symop_5 T) (c - 113820)
      else False)"

definition is_space_char :: "hs_tables \<Rightarrow> int \<Rightarrow> bool" where
  "is_space_char T c =
     (if c < 32 \<or> c > 12288 then False else hs_bit (bitmap_space T) (c - 32))"

lemma hs_class_low [simp]:
  "c < 48 \<Longrightarrow> \<not> is_identifier_char T c"
  "c < 97 \<Longrightarrow> \<not> is_varid_start_char T c"
  "c < 65 \<Longrightarrow> \<not> is_conid_start_char T c"
  "c < 33 \<Longrightarrow> \<not> is_symop_char T c"
  "c < 32 \<Longrightarrow> \<not> is_space_char T c"
  by (simp_all add: is_identifier_char_def is_varid_start_char_def is_conid_start_char_def is_symop_char_def is_space_char_def)

text \<open>
  The ideographs of the blocks CJK Unified Ideographs and its extension B, and the Hangul syllables,
  are between the ranges of the tables, which hold only the first and the last of each block: no
  contents of the tables make one of them a character of an identifier.
\<close>

lemma hs_ideograph_no_identifier:
  assumes "19968 < c \<and> c < 40959 \<or> 44032 < c \<and> c < 55203 \<or> 131072 < c \<and> c < 173791"
  shows "\<not> is_identifier_char T c" and "\<not> is_varid_start_char T c"
  using assms by (auto simp: is_identifier_char_def is_varid_start_char_def)

text \<open>
  Tables for examples: the bits of the code points up to \<open>~\<close>, as the source has them, and
  nothing behind them.
\<close>

definition ascii_tables :: hs_tables where
  "ascii_tables = \<lparr>
     bitmap_identifier_1 = [255, 3, 254, 255, 255, 7, 254, 255, 255, 7],
     bitmap_identifier_2 = [],
     bitmap_identifier_3 = [],
     bitmap_identifier_4 = [],
     bitmap_identifier_5 = [],
     bitmap_varid_start_1 = [255, 255, 255, 3],
     bitmap_varid_start_2 = [],
     bitmap_varid_start_3 = [],
     bitmap_varid_start_4 = [],
     bitmap_conid_start_1 = [255, 255, 255, 3, 0, 0, 0, 0],
     bitmap_conid_start_2 = [],
     bitmap_conid_start_3 = [],
     bitmap_conid_start_4 = [],
     bitmap_conid_start_5 = [],
     bitmap_symop_1 = [127, 126, 0, 254, 0, 0, 0, 232, 0, 0, 0, 40],
     bitmap_symop_2 = [],
     bitmap_symop_3 = [],
     bitmap_symop_4 = [],
     bitmap_symop_5 = [],
     bitmap_space = [1, 0, 0, 0, 0, 0, 0, 0, 0, 0, 0, 0]\<rparr>"

end
