(* ===== verification/Haskell_Scanner.thy ===== *)
theory Haskell_Scanner
  imports Haskell_Unicode
begin

text \<open>
  The scanner of the Haskell grammar, \<^verbatim>\<open>haskell/src/scanner.c\<close>: layouts, operators,
  comments, pragmas, preprocessor lines and quasiquotes.

  The struct \<^verbatim>\<open>Env\<close> points to the lexer, the valid symbols and the state; in the record
  \<open>hs_env\<close> these are fields, with those of \<^verbatim>\<open>State\<close> and of its part \<^verbatim>\<open>Lookahead\<close> among them,
  and every function passes the record on. A function that reads characters gives its value
  and the new record. Indentations and the counters of comments, brackets and conditionals are
  \<^verbatim>\<open>uint32_t\<close> and words here; indexes into the lookahead and distances between them (\<open>offset\<close>,
  \<open>symop\<close>, \<open>ctr_reset\<close>), at most the length of the input, are numbers.

  The parameter \<open>T\<close> are the tables of the character classes, see \<open>Haskell_Unicode\<close>.
  Debug output, which \<^verbatim>\<open>TREE_SITTER_DEBUG\<close> turns on, is left out.
\<close>

section \<open>Symbols and data\<close>

datatype hs_symbol =
    FAIL | SEMICOLON | START | START_DO | START_CASE | START_IF | START_LET | START_QUOTE | START_EXPLICIT
  | END | END_EXPLICIT | START_BRACE | END_BRACE | START_TEXP | END_TEXP | WHERE | IN | ARROW | BAR | DERIVING
  | COMMENT | HADDOCK | CPP | PRAGMA | QQ_START | QQ_BODY | SPLICE | QUAL_DOT | TIGHT_DOT | PREFIX_DOT | DOTDOT
  | TIGHT_AT | PREFIX_AT | TIGHT_BANG | PREFIX_BANG | TIGHT_TILDE | PREFIX_TILDE | PREFIX_PERCENT | QUALIFIED_OP
  | LEFT_SECTION_OP | NO_SECTION_OP | MINUS | CONTEXT | INFIX | DATA_INFIX | TYPE_INSTANCE | VARSYM | CONSYM | UPDATE

datatype hs_sort =
    DeclLayout | DoLayout | CaseLayout | LetLayout | QuoteLayout | MultiWayIfLayout | Braces | TExp | ModuleHeader | NoContext

text \<open>The source compares context sorts by their position in the enumeration.\<close>

definition all_sorts :: "hs_sort list" where
  "all_sorts = [DeclLayout, DoLayout, CaseLayout, LetLayout, QuoteLayout, MultiWayIfLayout, Braces, TExp, ModuleHeader, NoContext]"

fun sort_code :: "hs_sort \<Rightarrow> nat" where
  "sort_code DeclLayout = 0" | "sort_code DoLayout = 1" | "sort_code CaseLayout = 2" | "sort_code LetLayout = 3"
| "sort_code QuoteLayout = 4" | "sort_code MultiWayIfLayout = 5" | "sort_code Braces = 6" | "sort_code TExp = 7"
| "sort_code ModuleHeader = 8" | "sort_code NoContext = 9"

lemma sort_code_inject: "sort_code x = sort_code y \<Longrightarrow> x = y"
  by (cases x; cases y; simp)

instantiation hs_sort :: linorder
begin

definition less_eq_hs_sort :: "hs_sort \<Rightarrow> hs_sort \<Rightarrow> bool" where
  "less_eq_hs_sort x y \<longleftrightarrow> sort_code x \<le> sort_code y"

definition less_hs_sort :: "hs_sort \<Rightarrow> hs_sort \<Rightarrow> bool" where
  "less_hs_sort x y \<longleftrightarrow> sort_code x < sort_code y"

instance
  by standard (auto simp: less_eq_hs_sort_def less_hs_sort_def dest: sort_code_inject)

end

record hs_context =
  sort :: hs_sort
  indent :: "32 word"

datatype hs_lexed =
    LNothing | LEof | LWhere | LIn | LThen | LElse | LDeriving | LModule | LUpper | LTick | LSymop | LSymopSpecial
  | LDotDot | LDotId | LDotSymop | LDotOpen | LDollar | LBang | LTilde | LAt | LPercent | LHash | LBar | LArrow
  | LCArrow | LTexpCloser | LQuoteClose | LPragma | LBlockComment | LLineComment | LBraceClose | LBraceOpen
  | LBracketOpen | LUnboxedClose | LSemi | LCppElse | LCpp

datatype hs_newline_state = NInactive | NInit | NProcess | NResume

record hs_newline =
  nl_state :: hs_newline_state
  nl_end :: hs_lexed
  nl_indent :: "32 word"
  nl_eof :: bool
  nl_no_semi :: bool
  nl_skip_semi :: bool
  nl_unsafe :: bool

text \<open>What \<^verbatim>\<open>memset\<close> leaves of a \<^verbatim>\<open>Newline\<close>.\<close>

definition newline_zero :: hs_newline where
  "newline_zero = \<lparr>nl_state = NInactive, nl_end = LNothing, nl_indent = 0, nl_eof = False, nl_no_semi = False,
     nl_skip_semi = False, nl_unsafe = False\<rparr>"

text \<open>The persistent state; \<open>contents\<close> and \<open>offset\<close> are the struct \<^verbatim>\<open>Lookahead\<close>.\<close>

record hs_state =
  contexts :: "hs_context list"
  newline :: hs_newline
  contents :: "int list"
  offset :: nat

type_synonym 'l hs_lexer = "('l, hs_symbol) TSLexer"

text \<open>The struct \<^verbatim>\<open>Env\<close>: a state with the lexer, the valid symbols and the length of the operator ahead.\<close>

record 'l hs_env = hs_state +
  lexer :: "'l hs_lexer"
  symbols :: "hs_symbol \<Rightarrow> bool"
  symop :: nat

definition env_new :: "'l hs_lexer \<Rightarrow> (hs_symbol \<Rightarrow> bool) \<Rightarrow> hs_state \<Rightarrow> 'l hs_env" where
  "env_new l v s = hs_state.extend s (hs_env.fields l v 0)"

abbreviation update_newline :: "(hs_newline \<Rightarrow> hs_newline) \<Rightarrow> 'l hs_env \<Rightarrow> 'l hs_env" where
  "update_newline f e \<equiv> e\<lparr>newline := f (newline e)\<rparr>"

definition reset_newline :: "'l hs_env \<Rightarrow> 'l hs_env" where
  "reset_newline e = e\<lparr>newline := newline_zero\<rparr>"

definition newline_active :: "'l hs_env \<Rightarrow> bool" where
  "newline_active e \<longleftrightarrow> nl_state (newline e) = NInit \<or> nl_state (newline e) = NProcess"

definition newline_init :: "'l hs_env \<Rightarrow> bool" where
  "newline_init e \<longleftrightarrow> nl_state (newline e) = NInit"

section \<open>Lexer interaction\<close>

definition hs_peek_char :: "'l env \<Rightarrow> 'l hs_env \<Rightarrow> int" where
  "hs_peek_char E e = lookahead E (lexer e)"

definition hs_eof :: "'l env \<Rightarrow> 'l hs_env \<Rightarrow> bool" where
  "hs_eof E e = eof E (lexer e)"

definition hs_column :: "'l env \<Rightarrow> 'l hs_env \<Rightarrow> 32 word" where
  "hs_column E e = (if hs_eof E e then 0 else of_nat (get_column E (lexer e)))"

definition hs_advance :: "'l env \<Rightarrow> 'l hs_env \<Rightarrow> 'l hs_env" where
  "hs_advance E e = (if hs_eof E e then e else e\<lparr>contents := contents e @ [hs_peek_char E e], lexer := advance E (lexer e)\<rparr>)"

definition hs_skip :: "'l env \<Rightarrow> 'l hs_env \<Rightarrow> 'l hs_env" where
  "hs_skip E e = e\<lparr>lexer := skip E (lexer e)\<rparr>"

definition hs_mark :: "'l env \<Rightarrow> 'l hs_env \<Rightarrow> 'l hs_env" where
  "hs_mark E e = e\<lparr>lexer := mark_end E (lexer e)\<rparr>"

definition set_result_symbol :: "hs_symbol \<Rightarrow> 'l hs_env \<Rightarrow> bool \<times> 'l hs_env" where
  "set_result_symbol r e = (if r \<noteq> FAIL then (True, e\<lparr>lexer := set_symbol r (lexer e)\<rparr>) else (False, e))"

abbreviation hs_valid :: "'l hs_env \<Rightarrow> hs_symbol \<Rightarrow> bool" where
  "hs_valid e s \<equiv> symbols e s"

definition finish_if_valid :: "hs_symbol \<Rightarrow> 'l hs_env \<Rightarrow> hs_symbol \<times> 'l hs_env" where
  "finish_if_valid s e = (if hs_valid e s then s else FAIL, e)"

text \<open>The macro \<^verbatim>\<open>SEQ\<close>: return what is not \<open>FAIL\<close>, else go on.\<close>

definition SEQ :: "(hs_symbol \<times> 'l hs_env) option \<Rightarrow> ('l hs_env \<Rightarrow> (hs_symbol \<times> 'l hs_env) option) \<Rightarrow> (hs_symbol \<times> 'l hs_env) option" where
  "SEQ c f = do { (r, e) \<leftarrow> c; if r \<noteq> FAIL then Some (r, e) else f e }"

section \<open>Lookahead\<close>

definition advance_over_abs :: "'l env \<Rightarrow> nat \<Rightarrow> 'l hs_env \<Rightarrow> 'l hs_env" where
  "advance_over_abs E a e = (hs_advance E ^^ (a + 1 - length (contents e))) e"

definition advance_over :: "'l env \<Rightarrow> nat \<Rightarrow> 'l hs_env \<Rightarrow> 'l hs_env" where
  "advance_over E rel e = advance_over_abs E (offset e + rel) e"

definition skip_over :: "'l env \<Rightarrow> nat \<Rightarrow> 'l hs_env \<Rightarrow> 'l hs_env" where
  "skip_over E rel e =
     (let e = (if offset e > length (contents e) then advance_over_abs E (offset e - 1) e else e) in
      (hs_skip E ^^ (offset e + rel + 1 - length (contents e))) e)"

definition advance_before :: "'l env \<Rightarrow> nat \<Rightarrow> 'l hs_env \<Rightarrow> 'l hs_env" where
  "advance_before E rel e = (if offset e + rel > 0 then advance_over_abs E (offset e + rel - 1) e else e)"

definition unsafe_peek :: "nat \<Rightarrow> 'l hs_env \<Rightarrow> int" where
  "unsafe_peek rel e = (let a = offset e + rel in if a < length (contents e) then contents e ! a else 0)"

definition peek :: "'l env \<Rightarrow> nat \<Rightarrow> 'l hs_env \<Rightarrow> int \<times> 'l hs_env" where
  "peek E rel e =
     (if offset e + rel < length (contents e) then (unsafe_peek rel e, e)
      else let e = advance_before E rel e in (hs_peek_char E e, e))"

definition char_at :: "'l env \<Rightarrow> nat \<Rightarrow> int \<Rightarrow> 'l hs_env \<Rightarrow> bool \<times> 'l hs_env" where
  "char_at E n c e = (case peek E n e of (d, e) \<Rightarrow> (d = c, e))"

definition reset_lookahead_abs :: "nat \<Rightarrow> 'l hs_env \<Rightarrow> 'l hs_env" where
  "reset_lookahead_abs a e = e\<lparr>offset := a, symop := 0\<rparr>"

definition reset_lookahead_to :: "nat \<Rightarrow> 'l hs_env \<Rightarrow> 'l hs_env" where
  "reset_lookahead_to rel e = reset_lookahead_abs (offset e + rel) e"

definition reset_lookahead :: "'l hs_env \<Rightarrow> 'l hs_env" where
  "reset_lookahead e = reset_lookahead_abs (length (contents e)) e"

definition no_lookahead :: "'l hs_env \<Rightarrow> bool" where
  "no_lookahead e \<longleftrightarrow> contents e = []"

definition start_column :: "'l env \<Rightarrow> 'l hs_env \<Rightarrow> 32 word" where
  "start_column E e = hs_column E e - of_nat (length (contents e))"

definition hs_advance_while :: "'l env \<Rightarrow> nat \<Rightarrow> (int \<Rightarrow> bool) \<Rightarrow> 'l hs_env \<Rightarrow> (nat \<times> 'l hs_env) option" where
  "hs_advance_while E i p e =
     c_loop (\<lambda>(i, e). case peek E i e of (c, e) \<Rightarrow> Some (if p c then Next (i + 1, e) else Return (i, e))) (i, e)"

definition advance_until_char :: "'l env \<Rightarrow> nat \<Rightarrow> int \<Rightarrow> 'l hs_env \<Rightarrow> (nat \<times> 'l hs_env) option" where
  "advance_until_char E i c e =
     c_loop (\<lambda>(i, e).
       if hs_eof E e then Some (Return (i, e))
       else case char_at E i c e of (b, e) \<Rightarrow> Some (if b then Return (i, e) else Next (i + 1, e))) (i, e)"

section \<open>Contexts\<close>

definition push_context :: "hs_sort \<Rightarrow> 32 word \<Rightarrow> 'l hs_env \<Rightarrow> 'l hs_env" where
  "push_context s n e = e\<lparr>contexts := contexts e @ [\<lparr>sort = s, indent = n\<rparr>]\<rparr>"

definition pop :: "'l hs_env \<Rightarrow> 'l hs_env" where
  "pop e = (if contexts e \<noteq> [] then e\<lparr>contexts := butlast (contexts e)\<rparr> else e)"

definition current_sort :: "hs_context list \<Rightarrow> hs_sort" where
  "current_sort cs = (if cs \<noteq> [] then sort (last cs) else NoContext)"

abbreviation current_context :: "'l hs_env \<Rightarrow> hs_sort" where
  "current_context e \<equiv> current_sort (contexts e)"

definition is_layout_context :: "'l hs_env \<Rightarrow> bool" where
  "is_layout_context e \<longleftrightarrow> current_context e < Braces"

definition is_semicolon_context :: "'l hs_env \<Rightarrow> bool" where
  "is_semicolon_context e \<longleftrightarrow> current_context e < MultiWayIfLayout"

text \<open>The loop from the top of the stack down to the first layout.\<close>

fun find_indent :: "hs_context list \<Rightarrow> 32 word" where
  "find_indent [] = 0"
| "find_indent (c # cs) = (if sort c < Braces then indent c else find_indent cs)"

definition current_indent :: "'l hs_env \<Rightarrow> 32 word" where
  "current_indent e = find_indent (rev (contexts e))"

definition indent_less :: "'l hs_env \<Rightarrow> 32 word \<Rightarrow> bool" where
  "indent_less e n \<longleftrightarrow> is_layout_context e \<and> n < current_indent e"

definition indent_lesseq :: "'l hs_env \<Rightarrow> 32 word \<Rightarrow> bool" where
  "indent_lesseq e n \<longleftrightarrow> is_layout_context e \<and> n \<le> current_indent e"

definition top_layout :: "'l hs_env \<Rightarrow> bool" where
  "top_layout e \<longleftrightarrow> length (contexts e) = 1"

definition in_module_header :: "'l hs_env \<Rightarrow> bool" where
  "in_module_header e \<longleftrightarrow> current_context e = ModuleHeader"

definition context_end_sym :: "hs_sort \<Rightarrow> hs_symbol" where
  "context_end_sym s = (if s = TExp then END_TEXP else if s = Braces then END_BRACE else if s < Braces then END else FAIL)"

definition uninitialized :: "'l hs_env \<Rightarrow> bool" where
  "uninitialized e \<longleftrightarrow> contexts e = []"

section \<open>Characters\<close>

definition is_newline :: "int \<Rightarrow> bool" where
  "is_newline c \<longleftrightarrow> c = 0x0A \<or> c = 0x0D \<or> c = 0x0C"

definition varid_start_char :: "hs_tables \<Rightarrow> int \<Rightarrow> bool" where
  "varid_start_char T c \<longleftrightarrow> c = ch CHR ''_'' \<or> is_varid_start_char T c"

definition is_id_char :: "hs_tables \<Rightarrow> int \<Rightarrow> bool" where
  "is_id_char T c \<longleftrightarrow> c = ch CHR ''_'' \<or> c = ch CHR 0x27 \<or> is_identifier_char T c"

definition is_inner_id_char :: "hs_tables \<Rightarrow> int \<Rightarrow> bool" where
  "is_inner_id_char T c \<longleftrightarrow> is_id_char T c \<or> c = ch CHR ''#''"

definition quoter_char :: "hs_tables \<Rightarrow> int \<Rightarrow> bool" where
  "quoter_char T c \<longleftrightarrow> is_id_char T c \<or> c = ch CHR ''.''"

definition reserved_symbolic :: "int \<Rightarrow> bool" where
  "reserved_symbolic c \<longleftrightarrow> c \<in> set (map ch ''(),;[]{}_'') \<or> c = ch CHR 0x60 \<or> c = ch CHR 0x22 \<or> c = ch CHR 0x27"

definition symop_char :: "hs_tables \<Rightarrow> int \<Rightarrow> bool" where
  "symop_char T c \<longleftrightarrow> is_symop_char T c \<and> \<not> reserved_symbolic c"

definition symop_lookahead :: "'l env \<Rightarrow> hs_tables \<Rightarrow> 'l hs_env \<Rightarrow> (nat \<times> 'l hs_env) option" where
  "symop_lookahead E T e =
     (if symop e = 0 then do { (n, e) \<leftarrow> hs_advance_while E 0 (symop_char T) e; Some (n, e\<lparr>symop := n\<rparr>) }
      else Some (symop e, e))"

definition is_symop :: "'l env \<Rightarrow> hs_tables \<Rightarrow> 'l hs_env \<Rightarrow> (bool \<times> 'l hs_env) option" where
  "is_symop E T e = do { (n, e) \<leftarrow> symop_lookahead E T e; Some (n > 0, e) }"

section \<open>Reading words and space\<close>

fun seq_from :: "'l env \<Rightarrow> string \<Rightarrow> nat \<Rightarrow> 'l hs_env \<Rightarrow> bool \<times> 'l hs_env" where
  "seq_from E [] i e = (True, snd (peek E i e))"
| "seq_from E (c # cs) i e = (case peek E i e of (d, e) \<Rightarrow> if ch c \<noteq> d then (False, e) else seq_from E cs (i + 1) e)"

abbreviation hs_seq :: "'l env \<Rightarrow> string \<Rightarrow> 'l hs_env \<Rightarrow> bool \<times> 'l hs_env" where
  "hs_seq E s \<equiv> seq_from E s 0"

definition take_line :: "'l env \<Rightarrow> 'l hs_env \<Rightarrow> 'l hs_env option" where
  "take_line E = while_option (\<lambda>e. \<not> hs_eof E e \<and> \<not> is_newline (hs_peek_char E e)) (hs_advance E)"

definition is_space_or_tab :: "int \<Rightarrow> bool" where
  "is_space_or_tab c \<longleftrightarrow> c = ch CHR '' '' \<or> c = 9"

definition escaped_line_step :: "'l env \<Rightarrow> 'l hs_env \<Rightarrow> ('l hs_env, 'l hs_env) flow option" where
  "escaped_line_step E e =
     do { e \<leftarrow> while_option (\<lambda>e. \<not> hs_eof E e \<and> \<not> is_newline (hs_peek_char E e) \<and> hs_peek_char E e \<noteq> ch CHR 0x5C) (hs_advance E) e;
          if hs_peek_char E e = ch CHR 0x5C then
            let e = hs_advance E e in
            if is_space_or_tab (hs_peek_char E e) then
              do { e \<leftarrow> while_option (\<lambda>e. is_space_or_tab (hs_peek_char E e)) (hs_advance E) e;
                   Some (Next (if is_newline (hs_peek_char E e) then hs_advance E e else e)) }
            else Some (Next (hs_advance E e))
          else Some (Return e) }"

definition take_line_escaped_newline :: "'l env \<Rightarrow> 'l hs_env \<Rightarrow> 'l hs_env option" where
  "take_line_escaped_newline E = c_loop (escaped_line_step E)"

definition skip_chars :: "'l env \<Rightarrow> (int \<Rightarrow> bool) \<Rightarrow> 'l hs_env \<Rightarrow> (bool \<times> 'l hs_env) option" where
  "skip_chars E p e =
     (if \<not> p (hs_peek_char E e) then Some (False, e)
      else do { e \<leftarrow> while_option (\<lambda>e. p (hs_peek_char E e)) (hs_skip E) (hs_skip E e); Some (True, e) })"

definition skip_space :: "'l env \<Rightarrow> hs_tables \<Rightarrow> 'l hs_env \<Rightarrow> (bool \<times> 'l hs_env) option" where
  "skip_space E T = skip_chars E (is_space_char T)"

definition skip_newlines :: "'l env \<Rightarrow> 'l hs_env \<Rightarrow> (bool \<times> 'l hs_env) option" where
  "skip_newlines E = skip_chars E is_newline"

datatype hs_space = NoSpace | Indented | BOL

definition skip_whitespace :: "'l env \<Rightarrow> hs_tables \<Rightarrow> 'l hs_env \<Rightarrow> (hs_space \<times> 'l hs_env) option" where
  "skip_whitespace E T e =
     c_loop (\<lambda>(space, e).
       do { (b, e) \<leftarrow> skip_space E T e;
            if b then Some (Next (Indented, e))
            else do { (b, e) \<leftarrow> skip_newlines E e; Some (if b then Next (BOL, e) else Return (space, e)) } }) (NoSpace, e)"

definition take_space_from :: "'l env \<Rightarrow> hs_tables \<Rightarrow> nat \<Rightarrow> 'l hs_env \<Rightarrow> (nat \<times> 'l hs_env) option" where
  "take_space_from E T i = hs_advance_while E i (is_space_char T)"

definition hs_token_end :: "hs_tables \<Rightarrow> int \<Rightarrow> bool" where
  "hs_token_end T c \<longleftrightarrow> \<not> is_inner_id_char T c"

definition token_from :: "'l env \<Rightarrow> hs_tables \<Rightarrow> string \<Rightarrow> nat \<Rightarrow> 'l hs_env \<Rightarrow> bool \<times> 'l hs_env" where
  "token_from E T s i e =
     (case seq_from E s i e of
        (False, e) \<Rightarrow> (False, e)
      | (True, e) \<Rightarrow> (case peek E (i + length s) e of (c, e) \<Rightarrow> (hs_token_end T c, e)))"

abbreviation hs_token :: "'l env \<Rightarrow> hs_tables \<Rightarrow> string \<Rightarrow> 'l hs_env \<Rightarrow> bool \<times> 'l hs_env" where
  "hs_token E T s \<equiv> token_from E T s 0"

fun any_token_from :: "'l env \<Rightarrow> hs_tables \<Rightarrow> string list \<Rightarrow> nat \<Rightarrow> 'l hs_env \<Rightarrow> bool \<times> 'l hs_env" where
  "any_token_from E T [] i e = (False, e)"
| "any_token_from E T (s # ss) i e = (case token_from E T s i e of (True, e) \<Rightarrow> (True, e) | (False, e) \<Rightarrow> any_token_from E T ss i e)"

definition match_symop :: "'l env \<Rightarrow> hs_tables \<Rightarrow> string \<Rightarrow> 'l hs_env \<Rightarrow> (bool \<times> 'l hs_env) option" where
  "match_symop E T target e =
     do { (n, e) \<leftarrow> symop_lookahead E T e;
          Some (if n = length target then hs_seq E target e else (False, e)) }"

definition conid :: "'l env \<Rightarrow> hs_tables \<Rightarrow> 'l hs_env \<Rightarrow> (nat \<times> 'l hs_env) option" where
  "conid E T e =
     (case peek E 0 e of (c, e) \<Rightarrow>
        if \<not> is_conid_start_char T c then Some (0, e) else hs_advance_while E 1 (is_inner_id_char T) e)"

datatype hs_qualified = NoQualifiedName | QualifiedTarget | QualifiedConid

definition qualified_step :: "'l env \<Rightarrow> hs_tables \<Rightarrow> ('l hs_env \<Rightarrow> (bool \<times> 'l hs_env) option) \<Rightarrow> bool \<times> 'l hs_env \<Rightarrow>
    (bool \<times> 'l hs_env, hs_qualified \<times> 'l hs_env) flow option" where
  "qualified_step E T name = (\<lambda>(qualified, e).
     do { (i, e) \<leftarrow> conid E T e;
          if i = 0 then Some (Return (NoQualifiedName, e))
          else
            (case char_at E i (ch CHR ''.'') e of
               (False, e) \<Rightarrow> Some (Return (if qualified then QualifiedConid else NoQualifiedName, e))
             | (True, e) \<Rightarrow>
                 do { (b, e) \<leftarrow> name (reset_lookahead_to (i + 1) e);
                      Some (if b then Return (QualifiedTarget, e) else Next (True, e)) }) })"

definition qualified_name :: "'l env \<Rightarrow> hs_tables \<Rightarrow> ('l hs_env \<Rightarrow> (bool \<times> 'l hs_env) option) \<Rightarrow> 'l hs_env \<Rightarrow> (hs_qualified \<times> 'l hs_env) option" where
  "qualified_name E T name e = c_loop (qualified_step E T name) (False, e)"

text \<open>The argument is one more than the index of the source, which counts down to -1.\<close>

fun odd_backslashes_before :: "'l env \<Rightarrow> nat \<Rightarrow> 'l hs_env \<Rightarrow> bool \<times> 'l hs_env" where
  "odd_backslashes_before E 0 e = (False, e)"
| "odd_backslashes_before E (Suc i) e =
     (case peek E i e of (c, e) \<Rightarrow>
        if c = ch CHR 0x5C then (case odd_backslashes_before E i e of (b, e) \<Rightarrow> (\<not> b, e)) else (False, e))"

definition take_string_literal :: "'l env \<Rightarrow> 'l hs_env \<Rightarrow> (nat \<times> 'l hs_env) option" where
  "take_string_literal E e =
     c_loop (\<lambda>(i, e).
       do { (i, e) \<leftarrow> advance_until_char E i (ch CHR 0x22) e;
            if hs_eof E e then Some (Return (i + 1, e))
            else case odd_backslashes_before E i e of (b, e) \<Rightarrow> Some (if b then Next (i + 1, e) else Return (i + 1, e)) }) (1, e)"

definition take_char_literal :: "'l env \<Rightarrow> 'l hs_env \<Rightarrow> (nat \<times> 'l hs_env) option" where
  "take_char_literal E e =
     (case char_at E 1 (ch CHR 0x5C) e of
        (True, e) \<Rightarrow> do { (i, e) \<leftarrow> advance_until_char E 2 (ch CHR 0x27) e; Some (i + 2, e) }
      | (False, e) \<Rightarrow> (case char_at E 2 (ch CHR 0x27) e of (b, e) \<Rightarrow> Some (if b then 3 else 1, e)))"

section \<open>Preprocessor directives\<close>

datatype hs_cpp = CppNothing | CppStart | CppElse | CppEnd | CppOther

definition cpp_cond_start :: "'l env \<Rightarrow> hs_tables \<Rightarrow> nat \<Rightarrow> 'l hs_env \<Rightarrow> bool \<times> 'l hs_env" where
  "cpp_cond_start E T = any_token_from E T [''if'', ''ifdef'', ''ifndef'']"

definition cpp_cond_else :: "'l env \<Rightarrow> hs_tables \<Rightarrow> nat \<Rightarrow> 'l hs_env \<Rightarrow> bool \<times> 'l hs_env" where
  "cpp_cond_else E T = any_token_from E T [''else'', ''elif'', ''elifdef'', ''elifndef'']"

definition cpp_cond_end :: "'l env \<Rightarrow> hs_tables \<Rightarrow> nat \<Rightarrow> 'l hs_env \<Rightarrow> bool \<times> 'l hs_env" where
  "cpp_cond_end E T = token_from E T ''endif''"

definition cpp_directive_other :: "'l env \<Rightarrow> hs_tables \<Rightarrow> nat \<Rightarrow> 'l hs_env \<Rightarrow> bool \<times> 'l hs_env" where
  "cpp_directive_other E T i e =
     (case any_token_from E T [''define'', ''undef'', ''include'', ''pragma'', ''error'', ''warning'', ''line''] i e of
        (True, e) \<Rightarrow> (True, e)
      | (False, e) \<Rightarrow>
          (case peek E i e of (c, e) \<Rightarrow>
             if is_newline c then (True, e)
             else case char_at E 1 (ch CHR ''!'') e of (b, e) \<Rightarrow> (b \<and> uninitialized e, e)))"

text \<open>The chain of tests in \<^verbatim>\<open>cpp_directive\<close>.\<close>

definition cpp_kind :: "'l env \<Rightarrow> hs_tables \<Rightarrow> nat \<Rightarrow> 'l hs_env \<Rightarrow> hs_cpp \<times> 'l hs_env" where
  "cpp_kind E T i e =
     (case cpp_cond_start E T i e of
        (True, e) \<Rightarrow> (CppStart, e)
      | (False, e) \<Rightarrow>
          (case cpp_cond_else E T i e of
             (True, e) \<Rightarrow> (CppElse, e)
           | (False, e) \<Rightarrow>
               (case cpp_cond_end E T i e of
                  (True, e) \<Rightarrow> (CppEnd, e)
                | (False, e) \<Rightarrow> (case cpp_directive_other E T i e of (b, e) \<Rightarrow> (if b then CppOther else CppNothing, e)))))"

definition cpp_directive :: "'l env \<Rightarrow> hs_tables \<Rightarrow> 'l hs_env \<Rightarrow> (hs_cpp \<times> 'l hs_env) option" where
  "cpp_directive E T e =
     (case char_at E 0 (ch CHR ''#'') e of
        (False, e) \<Rightarrow> Some (CppNothing, e)
      | (True, e) \<Rightarrow> do { (i, e) \<leftarrow> take_space_from E T 1 e; Some (cpp_kind E T i e) })"

section \<open>Starting layouts\<close>

definition start_brace :: "'l hs_env \<Rightarrow> hs_symbol \<times> 'l hs_env" where
  "start_brace e = (if hs_valid e START_BRACE then (START_BRACE, push_context Braces 0 e) else (FAIL, e))"

definition end_brace :: "'l hs_env \<Rightarrow> hs_symbol \<times> 'l hs_env" where
  "end_brace e = (if hs_valid e END_BRACE \<and> current_context e = Braces then (END_BRACE, pop e) else (FAIL, e))"

text \<open>The loop from \<open>START\<close> to the symbol in front of \<open>END\<close>.\<close>

definition valid_layout_start_sym :: "'l hs_env \<Rightarrow> hs_symbol" where
  "valid_layout_start_sym e =
     (case filter (hs_valid e) [START, START_DO, START_CASE, START_IF, START_LET, START_QUOTE, START_EXPLICIT] of
        [] \<Rightarrow> FAIL
      | s # _ \<Rightarrow> s)"

definition layout_sort :: "hs_symbol \<Rightarrow> hs_sort" where
  "layout_sort s = (case s of
     START_DO \<Rightarrow> DoLayout
   | START_CASE \<Rightarrow> CaseLayout
   | START_IF \<Rightarrow> MultiWayIfLayout
   | START_LET \<Rightarrow> LetLayout
   | START_QUOTE \<Rightarrow> QuoteLayout
   | _ \<Rightarrow> DeclLayout)"

record hs_start_layout =
  sl_sym :: hs_symbol
  sl_sort :: hs_sort

definition valid_layout_start :: "hs_lexed \<Rightarrow> 'l hs_env \<Rightarrow> hs_start_layout" where
  "valid_layout_start next e =
     (let start = \<lparr>sl_sym = valid_layout_start_sym e, sl_sort = NoContext\<rparr> in
      if uninitialized e \<or> sl_sym start = FAIL then start
      else
        let s = layout_sort (sl_sym start) in
        if next = LBar then start\<lparr>sl_sort := s\<rparr>
        else if next = LBraceOpen then
          if newline_active e then start else \<lparr>sl_sym = START_EXPLICIT, sl_sort = Braces\<rparr>
        else if s = MultiWayIfLayout then start
        else start\<lparr>sl_sort := s\<rparr>)"

definition indent_can_start_layout :: "hs_sort \<Rightarrow> 32 word \<Rightarrow> 'l hs_env \<Rightarrow> bool" where
  "indent_can_start_layout s n e =
     (if current_context e = Braces then True
      else let cur = current_indent e in n > cur \<or> n = cur \<and> s = DoLayout)"

definition start_layout :: "'l env \<Rightarrow> hs_start_layout \<Rightarrow> 32 word \<Rightarrow> 'l hs_env \<Rightarrow> hs_symbol \<times> 'l hs_env" where
  "start_layout E start n e =
     (if in_module_header e then (sl_sym start, push_context (sl_sort start) n (pop e))
      else if sl_sort start = Braces then (sl_sym start, push_context (sl_sort start) n (hs_mark E e))
      else if \<not> indent_can_start_layout (sl_sort start) n e then (FAIL, e)
      else (sl_sym start, push_context (sl_sort start) n e))"

definition start_layout_interior :: "'l env \<Rightarrow> hs_lexed \<Rightarrow> 'l hs_env \<Rightarrow> hs_symbol \<times> 'l hs_env" where
  "start_layout_interior E next e =
     (let start = valid_layout_start next e in
      if sl_sort start = NoContext then (FAIL, e) else start_layout E start (start_column E e) e)"

definition start_layout_newline :: "'l env \<Rightarrow> 'l hs_env \<Rightarrow> hs_symbol \<times> 'l hs_env" where
  "start_layout_newline E e =
     (let start = valid_layout_start (nl_end (newline e)) e in
      if sl_sort start = NoContext then (FAIL, e)
      else
        case start_layout E start (nl_indent (newline e)) e of (r, e) \<Rightarrow>
          (r, if r \<noteq> FAIL then update_newline (nl_no_semi_update (\<lambda>_. True)) e else e))"

definition texp_context :: "'l hs_env \<Rightarrow> hs_symbol \<times> 'l hs_env" where
  "texp_context e =
     (if hs_valid e START_TEXP then (START_TEXP, push_context TExp 0 e)
      else if hs_valid e END_TEXP \<and> current_context e = TExp then (END_TEXP, pop e)
      else (FAIL, e))"

section \<open>Ending layouts\<close>

definition end_layout :: "'l hs_env \<Rightarrow> hs_symbol \<times> 'l hs_env" where
  "end_layout e = (if hs_valid e END then (END, pop e) else (FAIL, e))"

definition end_layout_brace :: "'l env \<Rightarrow> 'l hs_env \<Rightarrow> hs_symbol \<times> 'l hs_env" where
  "end_layout_brace E e =
     (if hs_valid e END_EXPLICIT \<and> current_context e = Braces
      then (END_EXPLICIT, pop (hs_mark E (advance_over E 0 e)))
      else (FAIL, e))"

definition end_layout_indent :: "'l hs_env \<Rightarrow> hs_symbol \<times> 'l hs_env" where
  "end_layout_indent e =
     (if hs_valid e END \<and> indent_less e (nl_indent (newline e)) then
        if top_layout e
        then (UPDATE, e\<lparr>contexts := butlast (contexts e) @ [(last (contexts e))\<lparr>indent := nl_indent (newline e)\<rparr>]\<rparr>)
        else (END, pop (update_newline (nl_skip_semi_update (\<lambda>_. False)) e))
      else (FAIL, e))"

definition end_layout_infix :: "'l hs_env \<Rightarrow> hs_symbol \<times> 'l hs_env" where
  "end_layout_infix e = (if \<not> hs_valid e VARSYM \<and> \<not> hs_valid e CONSYM then end_layout e else (FAIL, e))"

definition end_layout_where :: "'l hs_env \<Rightarrow> hs_symbol \<times> 'l hs_env" where
  "end_layout_where e = (if hs_valid e END \<and> \<not> hs_valid e WHERE \<and> is_layout_context e then end_layout e else (FAIL, e))"

definition end_layout_in :: "'l hs_env \<Rightarrow> hs_symbol \<times> 'l hs_env" where
  "end_layout_in e = (if hs_valid e END \<and> (\<not> hs_valid e IN \<or> current_context e = LetLayout) then end_layout e else (FAIL, e))"

definition end_layout_deriving :: "'l hs_env \<Rightarrow> hs_symbol \<times> 'l hs_env" where
  "end_layout_deriving e =
     (if hs_valid e END \<and> \<not> hs_valid e DERIVING \<and> \<not> top_layout e \<and> current_context e = DeclLayout then end_layout e else (FAIL, e))"

text \<open>The loop over the contexts below the top.\<close>

fun texp_below :: "hs_context list \<Rightarrow> bool" where
  "texp_below [] = False"
| "texp_below (c # cs) =
     (if sort c = TExp \<or> sort c = Braces then True else if sort c > Braces then False else texp_below cs)"

definition layouts_in_texp :: "'l hs_env \<Rightarrow> bool" where
  "layouts_in_texp e \<longleftrightarrow> is_layout_context e \<and> length (contexts e) > 1 \<and> texp_below (tl (rev (contexts e)))"

definition token_end_layout_texp :: "'l hs_env \<Rightarrow> hs_symbol \<times> 'l hs_env" where
  "token_end_layout_texp e = (if hs_valid e END \<and> layouts_in_texp e then end_layout e else (FAIL, e))"

text \<open>The loop of \<^verbatim>\<open>force_end_context\<close>, over the contexts from the top down.\<close>

fun force_end :: "(hs_symbol \<Rightarrow> bool) \<Rightarrow> hs_context list \<Rightarrow> hs_symbol \<times> hs_context list" where
  "force_end v [] = (FAIL, [])"
| "force_end v (c # cs) =
     (let s = context_end_sym (sort c) in if s \<noteq> FAIL \<and> v s then (s, cs) else force_end v cs)"

definition force_end_context :: "'l hs_env \<Rightarrow> hs_symbol \<times> 'l hs_env" where
  "force_end_context e = (case force_end (symbols e) (rev (contexts e)) of (r, cs) \<Rightarrow> (r, e\<lparr>contexts := rev cs\<rparr>))"

section \<open>Operators\<close>

definition opening_token :: "'l env \<Rightarrow> hs_tables \<Rightarrow> nat \<Rightarrow> 'l hs_env \<Rightarrow> bool \<times> 'l hs_env" where
  "opening_token E T i e =
     (case peek E i e of (c, e) \<Rightarrow>
        if c \<in> {0x27E6, 0x2987, ch CHR ''('', ch CHR ''['', ch CHR 0x22} then (True, e)
        else if c = ch CHR ''{'' then (case peek E (i + 1) e of (d, e) \<Rightarrow> (d \<noteq> ch CHR ''-'', e))
        else (is_id_char T c, e))"

definition valid_symop_two_chars :: "int \<Rightarrow> int \<Rightarrow> bool" where
  "valid_symop_two_chars c d =
     (if c = ch CHR ''='' then d \<noteq> ch CHR ''>''
      else if c = ch CHR ''<'' then d \<noteq> ch CHR ''-''
      else if c = ch CHR '':'' then d \<noteq> ch CHR '':''
      else True)"

definition lex_prefix :: "'l env \<Rightarrow> hs_tables \<Rightarrow> hs_lexed \<Rightarrow> 'l hs_env \<Rightarrow> hs_lexed \<times> 'l hs_env" where
  "lex_prefix E T t e = (case opening_token E T 1 e of (b, e) \<Rightarrow> (if b then t else LSymop, e))"

definition lex_splice :: "hs_tables \<Rightarrow> int \<Rightarrow> hs_lexed" where
  "lex_splice T c = (if varid_start_char T c \<or> c = ch CHR ''('' then LDollar else LSymop)"

text \<open>The three parts of \<^verbatim>\<open>lex_symop\<close>: operators of one, of two and of more characters.\<close>

definition lex_symop_1 :: "'l env \<Rightarrow> hs_tables \<Rightarrow> 'l hs_env \<Rightarrow> hs_lexed \<times> 'l hs_env" where
  "lex_symop_1 E T e =
     (let c = unsafe_peek 0 e in
      if c = ch CHR ''?'' then (case peek E 1 e of (d, e) \<Rightarrow> (if varid_start_char T d then LNothing else LSymop, e))
      else if c = ch CHR ''#'' then (case char_at E 1 (ch CHR '')'') e of (b, e) \<Rightarrow> (if b then LUnboxedClose else LHash, e))
      else if c = ch CHR ''|'' then (case char_at E 1 (ch CHR '']'') e of (b, e) \<Rightarrow> (if b then LQuoteClose else LBar, e))
      else if c = ch CHR ''!'' then lex_prefix E T LBang e
      else if c = ch CHR ''~'' then lex_prefix E T LTilde e
      else if c = ch CHR ''@'' then lex_prefix E T LAt e
      else if c = ch CHR ''%'' then lex_prefix E T LPercent e
      else if c = ch CHR ''$'' then (case peek E 1 e of (d, e) \<Rightarrow> (lex_splice T d, e))
      else if c = ch CHR ''.'' then
        (case peek E 1 e of (d, e) \<Rightarrow>
           if is_id_char T d then (LDotId, e)
           else case opening_token E T 1 e of (b, e) \<Rightarrow> (if b then LDotOpen else LSymop, e))
      else if c = 0x2192 \<or> c = 0x22B8 then (LArrow, e)
      else if c = 0x21D2 then (LCArrow, e)
      else if c = ch CHR ''='' \<or> c = 0x27E7 \<or> c = 0x2988 then (LTexpCloser, e)
      else if c = ch CHR ''*'' \<or> c = ch CHR ''-'' then (LSymopSpecial, e)
      else if c \<in> {ch CHR 0x5C, 0x2190, 0x2200, 0x2237, 0x2605, 0x27E6, 0x2919, 0x291A, 0x291B, 0x291C, 0x2987} then (LNothing, e)
      else (LSymop, e))"

definition lex_symop_2 :: "'l env \<Rightarrow> hs_tables \<Rightarrow> 'l hs_env \<Rightarrow> hs_lexed \<times> 'l hs_env" where
  "lex_symop_2 E T e =
     (case hs_seq E ''->'' e of
        (True, e) \<Rightarrow> (LArrow, e)
      | (False, e) \<Rightarrow>
          (case hs_seq E ''=>'' e of
             (True, e) \<Rightarrow> (LCArrow, e)
           | (False, e) \<Rightarrow>
               (let c = unsafe_peek 0 e; d = unsafe_peek 1 e in
                if c = ch CHR ''$'' then
                  if d = ch CHR ''$'' then (case peek E 2 e of (x, e) \<Rightarrow> (lex_splice T x, e)) else (LSymop, e)
                else if c = ch CHR ''|'' then
                  if d = ch CHR ''|'' then (case char_at E 2 (ch CHR '']'') e of (b, e) \<Rightarrow> (if b then LQuoteClose else LSymop, e))
                  else (LSymop, e)
                else if c = ch CHR ''.'' then (if d = ch CHR ''.'' then LDotDot else LDotSymop, e)
                else if c = ch CHR ''#'' then (if d = ch CHR ''#'' \<or> d = ch CHR ''|'' then LSymopSpecial else LSymop, e)
                else (if valid_symop_two_chars c d then LSymop else LNothing, e))))"

definition lex_symop_3 :: "'l env \<Rightarrow> 'l hs_env \<Rightarrow> hs_lexed \<times> 'l hs_env" where
  "lex_symop_3 E e =
     (let c = unsafe_peek 0 e in
      if c = ch CHR ''-'' then (case hs_seq E ''->.'' e of (b, e) \<Rightarrow> (if b then LArrow else LSymop, e))
      else if c = ch CHR ''.'' then (LDotSymop, e)
      else (LSymop, e))"

definition lex_symop :: "'l env \<Rightarrow> hs_tables \<Rightarrow> 'l hs_env \<Rightarrow> (hs_lexed \<times> 'l hs_env) option" where
  "lex_symop E T e =
     do { (n, e) \<leftarrow> symop_lookahead E T e;
          Some (if n = 0 then (LNothing, e)
                else if n = 1 then lex_symop_1 E T e
                else if n = 2 then lex_symop_2 E T e
                else lex_symop_3 E e) }"

definition left_section_op :: "'l env \<Rightarrow> hs_tables \<Rightarrow> nat \<Rightarrow> 'l hs_env \<Rightarrow> (hs_symbol \<times> 'l hs_env) option" where
  "left_section_op E T i e =
     (if hs_valid e LEFT_SECTION_OP then
        do { (space, e) \<leftarrow> skip_whitespace E T (advance_before E i e);
             Some (case char_at E i (ch CHR '')'') e of
               (True, e) \<Rightarrow> (LEFT_SECTION_OP, e)
             | (False, e) \<Rightarrow> if space \<noteq> NoSpace then finish_if_valid NO_SECTION_OP e else (FAIL, e)) }
      else Some (FAIL, e))"

definition left_section_ticked :: "'l env \<Rightarrow> hs_tables \<Rightarrow> 'l hs_env \<Rightarrow> (hs_symbol \<times> 'l hs_env) option" where
  "left_section_ticked E T e =
     (if hs_valid e LEFT_SECTION_OP then
        do { (i, e) \<leftarrow> advance_until_char E 1 (ch CHR 0x60) e;
             (case char_at E i (ch CHR 0x60) e of
                (True, e) \<Rightarrow> left_section_op E T (i + 1) e
              | (False, e) \<Rightarrow> Some (FAIL, e)) }
      else Some (FAIL, e))"

definition left_section_symop :: "'l env \<Rightarrow> hs_tables \<Rightarrow> 'l hs_env \<Rightarrow> (hs_symbol \<times> 'l hs_env) option" where
  "left_section_symop E T e = do { (i, e) \<leftarrow> symop_lookahead E T e; left_section_op E T i e }"

definition finish_symop :: "'l env \<Rightarrow> hs_tables \<Rightarrow> hs_symbol \<Rightarrow> 'l hs_env \<Rightarrow> (hs_symbol \<times> 'l hs_env) option" where
  "finish_symop E T s e =
     (if hs_valid e s \<or> hs_valid e LEFT_SECTION_OP then SEQ (left_section_symop E T e) (\<lambda>e. Some (s, hs_mark E e))
      else Some (FAIL, e))"

definition tight_op :: "bool \<Rightarrow> hs_symbol \<Rightarrow> 'l hs_env \<Rightarrow> hs_symbol \<times> 'l hs_env" where
  "tight_op whitespace s e = (if \<not> whitespace then finish_if_valid s e else (FAIL, e))"

definition prefix_or_varsym :: "'l env \<Rightarrow> hs_tables \<Rightarrow> bool \<Rightarrow> hs_symbol \<Rightarrow> 'l hs_env \<Rightarrow> (hs_symbol \<times> 'l hs_env) option" where
  "prefix_or_varsym E T whitespace s e =
     SEQ (Some (if whitespace then finish_if_valid s e else (FAIL, e))) (finish_symop E T VARSYM)"

definition tight_or_varsym :: "'l env \<Rightarrow> hs_tables \<Rightarrow> bool \<Rightarrow> hs_symbol \<Rightarrow> 'l hs_env \<Rightarrow> (hs_symbol \<times> 'l hs_env) option" where
  "tight_or_varsym E T whitespace s e = SEQ (Some (tight_op whitespace s e)) (finish_symop E T VARSYM)"

definition infix_or_varsym :: "'l env \<Rightarrow> hs_tables \<Rightarrow> bool \<Rightarrow> hs_symbol \<Rightarrow> hs_symbol \<Rightarrow> 'l hs_env \<Rightarrow> (hs_symbol \<times> 'l hs_env) option" where
  "infix_or_varsym E T whitespace prefix tight e =
     SEQ (Some (finish_if_valid (if whitespace then prefix else tight) e)) (finish_symop E T VARSYM)"

definition qualified_op :: "'l env \<Rightarrow> hs_tables \<Rightarrow> 'l hs_env \<Rightarrow> (hs_symbol \<times> 'l hs_env) option" where
  "qualified_op E T e =
     do { (q, e) \<leftarrow> qualified_name E T (is_symop E T) e;
          if q = QualifiedTarget then SEQ (left_section_symop E T e) (\<lambda>e. Some (QUALIFIED_OP, e)) else Some (FAIL, e) }"

section \<open>Tokens\<close>

definition is_qq_start :: "'l env \<Rightarrow> hs_tables \<Rightarrow> 'l hs_env \<Rightarrow> (bool \<times> 'l hs_env) option" where
  "is_qq_start E T e = do { (i, e) \<leftarrow> hs_advance_while E 1 (quoter_char T) e; Some (char_at E i (ch CHR ''|'') e) }"

definition try_end_token :: "'l env \<Rightarrow> hs_tables \<Rightarrow> string \<Rightarrow> hs_lexed \<Rightarrow> 'l hs_env \<Rightarrow> hs_lexed \<times> 'l hs_env" where
  "try_end_token E T target match e = (case hs_token E T target e of (b, e) \<Rightarrow> (if b then match else LNothing, e))"

definition only_minus :: "'l env \<Rightarrow> hs_tables \<Rightarrow> 'l hs_env \<Rightarrow> (bool \<times> 'l hs_env) option" where
  "only_minus E T e =
     do { (i, e) \<leftarrow> hs_advance_while E 2 (\<lambda>c. c = ch CHR ''-'') e;
          Some (case peek E i e of (c, e) \<Rightarrow> (\<not> symop_char T c, e)) }"

definition line_comment_herald :: "'l env \<Rightarrow> hs_tables \<Rightarrow> 'l hs_env \<Rightarrow> (bool \<times> 'l hs_env) option" where
  "line_comment_herald E T e = (case hs_seq E ''--'' e of (True, e) \<Rightarrow> only_minus E T e | (False, e) \<Rightarrow> Some (False, e))"

definition lex_cpp :: "'l env \<Rightarrow> hs_tables \<Rightarrow> 'l hs_env \<Rightarrow> (hs_lexed \<times> 'l hs_env) option" where
  "lex_cpp E T e =
     do { (d, e) \<leftarrow> cpp_directive E T e;
          Some (case d of CppElse \<Rightarrow> LCppElse | CppNothing \<Rightarrow> LNothing | _ \<Rightarrow> LCpp, e) }"

definition lex_brace :: "'l env \<Rightarrow> 'l hs_env \<Rightarrow> hs_lexed \<times> 'l hs_env" where
  "lex_brace E e =
     (case char_at E 1 (ch CHR ''-'') e of
        (True, e) \<Rightarrow> (case char_at E 2 (ch CHR ''#'') e of (b, e) \<Rightarrow> (if b then LPragma else LBlockComment, e))
      | (False, e) \<Rightarrow> (LNothing, e))"

definition lex_extras :: "'l env \<Rightarrow> hs_tables \<Rightarrow> bool \<Rightarrow> 'l hs_env \<Rightarrow> (hs_lexed \<times> 'l hs_env) option" where
  "lex_extras E T bol e =
     (case peek E 0 e of (c, e) \<Rightarrow>
        if c = ch CHR ''{'' then
          Some (lex_brace E e)
        else if c = ch CHR ''#'' then if bol then lex_cpp E T e else Some (LNothing, e)
        else if c = ch CHR ''-'' then do { (b, e) \<leftarrow> line_comment_herald E T e; Some (if b then LLineComment else LNothing, e) }
        else Some (LNothing, e))"

text \<open>The \<^verbatim>\<open>switch\<close> of \<^verbatim>\<open>lex\<close> for characters that are not symbolic.\<close>

definition lex_char :: "'l env \<Rightarrow> hs_tables \<Rightarrow> int \<Rightarrow> 'l hs_env \<Rightarrow> (hs_lexed \<times> 'l hs_env) option" where
  "lex_char E T c e =
     (if c = ch CHR ''w'' then Some (try_end_token E T ''where'' LWhere e)
      else if c = ch CHR ''i'' then Some (try_end_token E T ''in'' LIn e)
      else if c = ch CHR ''t'' then Some (try_end_token E T ''then'' LThen e)
      else if c = ch CHR ''e'' then Some (try_end_token E T ''else'' LElse e)
      else if c = ch CHR ''d'' then Some (try_end_token E T ''deriving'' LDeriving e)
      else if c = ch CHR ''m'' then
        Some (if uninitialized e \<or> in_module_header e then try_end_token E T ''module'' LModule e else (LNothing, e))
      else if c = ch CHR ''{'' then Some (LBraceOpen, e)
      else if c = ch CHR ''}'' then Some (LBraceClose, e)
      else if c = ch CHR '';'' then Some (LSemi, e)
      else if c = ch CHR 0x60 then Some (LTick, e)
      else if c = ch CHR ''['' then
        if hs_valid e QQ_START then do { (b, e) \<leftarrow> is_qq_start E T e; Some (if b then LBracketOpen else LNothing, e) }
        else Some (LNothing, e)
      else if c \<in> set (map ch '']),'') then Some (LTexpCloser, e)
      else Some (if is_conid_start_char T c then LUpper else LNothing, e))"

definition lex :: "'l env \<Rightarrow> hs_tables \<Rightarrow> bool \<Rightarrow> 'l hs_env \<Rightarrow> (hs_lexed \<times> 'l hs_env) option" where
  "lex E T bol e =
     do { (t, e) \<leftarrow> lex_extras E T bol e;
          if t \<noteq> LNothing then Some (t, e)
          else case peek E 0 e of (c, e) \<Rightarrow> if symop_char T c then lex_symop E T e else lex_char E T c e }"

section \<open>Preprocessor lines, comments, pragmas and quasiquotes\<close>

definition cpp_else_step :: "'l env \<Rightarrow> hs_tables \<Rightarrow> bool \<Rightarrow> 32 word \<times> 'l hs_env \<Rightarrow> (32 word \<times> 'l hs_env, 'l hs_env) flow option" where
  "cpp_else_step E T emit = (\<lambda>(nesting, e).
     do { e \<leftarrow> take_line_escaped_newline E e;
          (d, e) \<leftarrow> cpp_directive E T (reset_lookahead (hs_advance E (if emit then hs_mark E e else e)));
          let nesting = (case d of CppStart \<Rightarrow> nesting + 1 | CppEnd \<Rightarrow> nesting - 1 | _ \<Rightarrow> nesting);
          Some (if \<not> hs_eof E e \<and> nesting > 0 then Next (nesting, e) else Return e) })"

definition cpp_else :: "'l env \<Rightarrow> hs_tables \<Rightarrow> bool \<Rightarrow> 'l hs_env \<Rightarrow> (hs_symbol \<times> 'l hs_env) option" where
  "cpp_else E T emit e = do { e \<leftarrow> c_loop (cpp_else_step E T emit) (1, e); Some (if emit then CPP else FAIL, e) }"

definition cpp_line :: "'l env \<Rightarrow> 'l hs_env \<Rightarrow> (hs_symbol \<times> 'l hs_env) option" where
  "cpp_line E e = do { e \<leftarrow> take_line_escaped_newline E e; Some (CPP, hs_mark E e) }"

definition comment_type_step :: "'l env \<Rightarrow> hs_tables \<Rightarrow> nat \<times> 'l hs_env \<Rightarrow> (nat \<times> 'l hs_env, hs_symbol \<times> 'l hs_env) flow option" where
  "comment_type_step E T = (\<lambda>(i, e).
     if hs_eof E e then Some (Return (COMMENT, e))
     else
       case peek E i e of (c, e) \<Rightarrow>
         Some (if c = ch CHR ''|'' \<or> c = ch CHR ''^'' then Return (HADDOCK, e)
               else if \<not> is_space_char T c then Return (COMMENT, e)
               else Next (i + 1, e)))"

definition comment_type :: "'l env \<Rightarrow> hs_tables \<Rightarrow> 'l hs_env \<Rightarrow> (hs_symbol \<times> 'l hs_env) option" where
  "comment_type E T e =
     do { (i, e) \<leftarrow> hs_advance_while E 2 (\<lambda>c. c = ch CHR ''-'') e; c_loop (comment_type_step E T) (i, e) }"

definition inline_comment_step :: "'l env \<Rightarrow> hs_tables \<Rightarrow> 'l hs_env \<Rightarrow> ('l hs_env, 'l hs_env) flow option" where
  "inline_comment_step E T e =
     do { e \<leftarrow> take_line E e;
          (b, e) \<leftarrow> line_comment_herald E T (reset_lookahead (hs_advance E (hs_mark E e)));
          Some (if b then Next e else Return e) }"

definition inline_comment :: "'l env \<Rightarrow> hs_tables \<Rightarrow> 'l hs_env \<Rightarrow> (hs_symbol \<times> 'l hs_env) option" where
  "inline_comment E T e =
     do { (s, e) \<leftarrow> comment_type E T e; e \<leftarrow> c_loop (inline_comment_step E T) e; Some (s, e) }"

definition block_comment_step :: "'l env \<Rightarrow> 32 word \<times> 32 word \<times> 'l hs_env \<Rightarrow> (32 word \<times> 32 word \<times> 'l hs_env, 32 word \<times> 'l hs_env) flow option" where
  "block_comment_step E = (\<lambda>(col, level, e).
     if hs_eof E e then Some (Return (col, e))
     else
       let col = col + 1; c = hs_peek_char E e; e = hs_advance E e in
       if c = ch CHR ''{'' then
         if hs_peek_char E e = ch CHR ''-'' then Some (Next (col + 1, level + 1, hs_advance E e)) else Some (Next (col, level, e))
       else if c = ch CHR ''-'' then
         if hs_peek_char E e = ch CHR ''}'' then
           let e = hs_advance E e; col = col + 1 in
           if level = 0 then Some (Return (col, e)) else Some (Next (col, level - 1, e))
         else Some (Next (col, level, e))
       else if is_newline c then Some (Next (0, level, e))
       else if c = 9 then Some (Next (col + 7, level, e))
       else Some (Next (col, level, e)))"

definition consume_block_comment :: "'l env \<Rightarrow> 32 word \<Rightarrow> 'l hs_env \<Rightarrow> (32 word \<times> 'l hs_env) option" where
  "consume_block_comment E col e = c_loop (block_comment_step E) (col, 0, e)"

definition block_comment :: "'l env \<Rightarrow> hs_tables \<Rightarrow> 'l hs_env \<Rightarrow> (hs_symbol \<times> 'l hs_env) option" where
  "block_comment E T e =
     do { (s, e) \<leftarrow> comment_type E T e;
          (col, e) \<leftarrow> consume_block_comment E (of_nat (length (contents e))) e;
          Some (s, hs_mark E e) }"

definition consume_pragma :: "'l env \<Rightarrow> 'l hs_env \<Rightarrow> (bool \<times> 'l hs_env) option" where
  "consume_pragma E e =
     (case hs_seq E ''{-#'' e of
        (False, e) \<Rightarrow> Some (False, e)
      | (True, e) \<Rightarrow>
          do { e \<leftarrow> c_loop (\<lambda>e.
                 case hs_seq E ''#-}'' e of (b, e) \<Rightarrow>
                   Some (if \<not> b \<and> \<not> hs_eof E e then Next (advance_over E 0 (reset_lookahead e)) else Return e)) e;
               Some (True, e) })"

definition pragma :: "'l env \<Rightarrow> 'l hs_env \<Rightarrow> (hs_symbol \<times> 'l hs_env) option" where
  "pragma E e =
     do { (b, e) \<leftarrow> consume_pragma E e;
          Some (if b then
                  let e = hs_mark E e in
                  (PRAGMA, if nl_state (newline e) \<noteq> NInactive then update_newline (nl_state_update (\<lambda>_. NResume)) e else e)
                else (FAIL, e)) }"

definition qq_body :: "'l env \<Rightarrow> 'l hs_env \<Rightarrow> (hs_symbol \<times> 'l hs_env) option" where
  "qq_body E = c_loop (\<lambda>e.
     if hs_eof E e then Some (Return (QQ_BODY, e))
     else if hs_peek_char E e = 0x27E7 then Some (Return (QQ_BODY, hs_mark E e))
     else if hs_peek_char E e = ch CHR ''|'' then
       let e = hs_advance E (hs_mark E e) in
       if hs_peek_char E e = ch CHR '']'' then Some (Return (QQ_BODY, e)) else Some (Next e)
     else Some (Next (hs_advance E e)))"

section \<open>Semicolons\<close>

definition explicit_semicolon :: "'l hs_env \<Rightarrow> hs_symbol \<times> 'l hs_env" where
  "explicit_semicolon e =
     (if hs_valid e SEMICOLON \<and> \<not> nl_skip_semi (newline e)
      then (UPDATE, update_newline (nl_skip_semi_update (\<lambda>_. True)) e)
      else (FAIL, e))"

definition resolve_semicolon :: "hs_lexed \<Rightarrow> 'l hs_env \<Rightarrow> hs_symbol \<times> 'l hs_env" where
  "resolve_semicolon next e =
     (if nl_skip_semi (newline e) \<and> next \<notin> {LLineComment, LBlockComment, LPragma, LSemi}
      then (UPDATE, update_newline (nl_skip_semi_update (\<lambda>_. False)) e)
      else (FAIL, e))"

definition semicolon :: "'l hs_env \<Rightarrow> hs_symbol \<times> 'l hs_env" where
  "semicolon e =
     (if is_semicolon_context e \<and> \<not> (nl_no_semi (newline e) \<or> nl_skip_semi (newline e)) \<and> indent_lesseq e (nl_indent (newline e))
      then (SEMICOLON, update_newline (nl_no_semi_update (\<lambda>_. True)) e)
      else (FAIL, e))"

section \<open>Dispatch\<close>

definition process_token_safe :: "'l env \<Rightarrow> hs_tables \<Rightarrow> hs_lexed \<Rightarrow> 'l hs_env \<Rightarrow> (hs_symbol \<times> 'l hs_env) option" where
  "process_token_safe E T next e =
     (if next = LWhere then Some (end_layout_where e)
      else if next = LIn then Some (end_layout_in e)
      else if next = LThen \<or> next = LElse then Some (end_layout e)
      else if next = LDeriving then Some (end_layout_deriving e)
      else if next = LBar then Some (if \<not> hs_valid e BAR then end_layout e else (FAIL, e))
      else if next = LPragma then pragma E e
      else if next = LBlockComment then block_comment E T e
      else if next = LLineComment then inline_comment E T e
      else if next = LCppElse then cpp_else E T True e
      else if next = LCpp then cpp_line E e
      else if next \<in> {LSymop, LTick, LHash} then Some (end_layout_infix e)
      else if next = LUnboxedClose then SEQ (Some (token_end_layout_texp e)) (\<lambda>e. Some (end_layout_infix e))
      else if next = LArrow then Some (if \<not> hs_valid e ARROW then token_end_layout_texp e else (FAIL, e))
      else if next = LTexpCloser then Some (token_end_layout_texp e)
      else if next = LQuoteClose then Some (end_layout e)
      else Some (FAIL, e))"

definition process_token_symop :: "'l env \<Rightarrow> hs_tables \<Rightarrow> bool \<Rightarrow> hs_lexed \<Rightarrow> 'l hs_env \<Rightarrow> (hs_symbol \<times> 'l hs_env) option" where
  "process_token_symop E T whitespace next e =
     (if next = LDotDot then SEQ (Some (finish_if_valid DOTDOT e)) (\<lambda>e. Some (tight_op whitespace QUAL_DOT e))
      else if next = LDotId then
        SEQ (Some (finish_if_valid (if whitespace then PREFIX_DOT else TIGHT_DOT) e)) (\<lambda>e. Some (tight_op whitespace QUAL_DOT e))
      else if next = LDotSymop then tight_or_varsym E T whitespace QUAL_DOT e
      else if next = LDotOpen then prefix_or_varsym E T whitespace PREFIX_DOT e
      else if next = LBang then infix_or_varsym E T whitespace PREFIX_BANG TIGHT_BANG e
      else if next = LTilde then infix_or_varsym E T whitespace PREFIX_TILDE TIGHT_TILDE e
      else if next = LAt then infix_or_varsym E T whitespace PREFIX_AT TIGHT_AT e
      else if next = LPercent then prefix_or_varsym E T whitespace PREFIX_PERCENT e
      else if next = LSymop then
        (case char_at E 0 (ch CHR '':'') e of (b, e) \<Rightarrow> finish_symop E T (if b then CONSYM else VARSYM) e)
      else if next = LSymopSpecial then
        SEQ (left_section_symop E T e) (\<lambda>e.
          if hs_valid e MINUS then do { (b, e) \<leftarrow> match_symop E T ''-'' e; Some (if b then MINUS else FAIL, e) }
          else Some (FAIL, e))
      else if next = LUnboxedClose \<or> next = LHash then left_section_symop E T e
      else if next = LTick then left_section_ticked E T e
      else if next = LUpper then
        if hs_valid e QUALIFIED_OP \<or> hs_valid e LEFT_SECTION_OP then qualified_op E T e else Some (FAIL, e)
      else Some (FAIL, e))"

definition process_token_splice :: "hs_lexed \<Rightarrow> 'l hs_env \<Rightarrow> hs_symbol \<times> 'l hs_env" where
  "process_token_splice next e = (if next = LDollar then finish_if_valid SPLICE e else (FAIL, e))"

definition process_token_interior :: "'l env \<Rightarrow> hs_tables \<Rightarrow> hs_lexed \<Rightarrow> 'l hs_env \<Rightarrow> (hs_symbol \<times> 'l hs_env) option" where
  "process_token_interior E T next e =
     (if next = LBraceClose then SEQ (Some (end_layout_brace E e)) (\<lambda>e. Some (token_end_layout_texp e))
      else if next = LModule then Some (FAIL, e)
      else if next = LSemi then Some (explicit_semicolon e)
      else if next = LBracketOpen then Some (QQ_START, e)
      else SEQ (process_token_safe E T next e) (\<lambda>e. Some (start_layout_interior E next e)))"

definition process_token_init :: "'l env \<Rightarrow> 32 word \<Rightarrow> hs_lexed \<Rightarrow> 'l hs_env \<Rightarrow> hs_symbol \<times> 'l hs_env" where
  "process_token_init E n next e =
     (if next = LModule then (UPDATE, push_context ModuleHeader 0 e)
      else if next = LBraceOpen then (START_EXPLICIT, push_context Braces n (hs_mark E (advance_over E 0 e)))
      else (START, push_context DeclLayout n e))"

section \<open>Newlines\<close>

definition newline_extras :: "'l env \<Rightarrow> hs_tables \<Rightarrow> hs_space \<Rightarrow> 'l hs_env \<Rightarrow> (hs_symbol \<times> 'l hs_env) option" where
  "newline_extras E T space e =
     do { (next, e) \<leftarrow> lex_extras E T (space = BOL \<or> space = NoSpace \<and> newline_init e) e; process_token_safe E T next e }"

text \<open>The end of \<^verbatim>\<open>newline_process\<close>, behind the reset of the newline state.\<close>

definition newline_final :: "'l env \<Rightarrow> hs_tables \<Rightarrow> 32 word \<Rightarrow> hs_lexed \<Rightarrow> 'l hs_env \<Rightarrow> (hs_symbol \<times> 'l hs_env) option" where
  "newline_final E T n t e =
     SEQ (if uninitialized e then Some (process_token_init E n t e)
          else SEQ (process_token_symop E T True t e) (\<lambda>e. Some (process_token_splice t e)))
       (\<lambda>e. Some (UPDATE, e))"

definition newline_process :: "'l env \<Rightarrow> hs_tables \<Rightarrow> 'l hs_env \<Rightarrow> (hs_symbol \<times> 'l hs_env) option" where
  "newline_process E T e =
     (let n = nl_indent (newline e); t = nl_end (newline e) in
      SEQ (Some (end_layout_indent e)) (\<lambda>e.
      SEQ (process_token_safe E T t e) (\<lambda>e.
        do { (space, e) \<leftarrow> skip_whitespace E T e;
             let e = hs_mark E e;
             SEQ (if nl_unsafe (newline e) then newline_extras E T space e else Some (FAIL, e)) (\<lambda>e.
             SEQ (Some (if \<not> nl_eof (newline e) then start_layout_newline E e else (FAIL, e))) (\<lambda>e.
             SEQ (Some (semicolon e)) (\<lambda>e.
               newline_final E T n t (reset_newline e)))) })))"

definition newline_post :: "'l env \<Rightarrow> hs_tables \<Rightarrow> 'l hs_env \<Rightarrow> (hs_symbol \<times> 'l hs_env) option" where
  "newline_post E T e =
     do { (r, e) \<leftarrow> newline_process E T e;
          Some (r, if newline_init e then update_newline (nl_state_update (\<lambda>_. NProcess)) e else e) }"

text \<open>
  The loop reads into a \<^verbatim>\<open>Newline\<close>, that of the state or another; it is passed beside the state. The
  \<^verbatim>\<open>switch\<close> over the token is \<open>newline_token\<close>.
\<close>

definition newline_token :: "'l env \<Rightarrow> hs_tables \<Rightarrow> hs_lexed \<Rightarrow> hs_newline \<Rightarrow> 'l hs_env \<Rightarrow>
    (hs_newline \<times> 'l hs_env, hs_newline \<times> 'l hs_env) flow option" where
  "newline_token E T t nl e =
     (if t = LEof then Some (Return (nl\<lparr>nl_indent := 0, nl_eof := True\<rparr>, e))
      else if t = LThen \<or> t = LElse \<or> t = LSemi then Some (Return (nl\<lparr>nl_no_semi := True\<rparr>, e))
      else if t = LBlockComment then
        do { (n, e) \<leftarrow> consume_block_comment E (nl_indent nl + 2) e; Some (Next (nl\<lparr>nl_indent := n\<rparr>, reset_lookahead e)) }
      else if t = LLineComment then do { e \<leftarrow> take_line E e; Some (Next (nl\<lparr>nl_indent := 0\<rparr>, reset_lookahead e)) }
      else if t = LCppElse then
        do { (r, e) \<leftarrow> cpp_else E T False e; e \<leftarrow> take_line_escaped_newline E e; Some (Next (nl, reset_lookahead e)) }
      else if t = LCpp then do { e \<leftarrow> take_line_escaped_newline E e; Some (Next (nl, reset_lookahead e)) }
      else Some (Return (nl, e)))"

definition newline_lookahead_step :: "'l env \<Rightarrow> hs_tables \<Rightarrow> hs_newline \<times> 'l hs_env \<Rightarrow>
    (hs_newline \<times> 'l hs_env, hs_newline \<times> 'l hs_env) flow option" where
  "newline_lookahead_step E T = (\<lambda>(nl, e).
     case peek E 0 e of (c, e) \<Rightarrow>
       if is_newline c then Some (Next (nl\<lparr>nl_indent := 0\<rparr>, reset_lookahead (skip_over E 0 e)))
       else if c = 9 then Some (Next (nl\<lparr>nl_indent := nl_indent nl + 8\<rparr>, reset_lookahead (skip_over E 0 e)))
       else if is_space_char T c then Some (Next (nl\<lparr>nl_indent := nl_indent nl + 1\<rparr>, reset_lookahead (skip_over E 0 e)))
       else
         do { (t, e) \<leftarrow> lex E T (nl_indent nl = 0) e;
              newline_token E T t (nl\<lparr>nl_end := t, nl_unsafe := nl_unsafe nl \<or> \<not> no_lookahead e\<rparr>) e })"

definition newline_lookahead :: "'l env \<Rightarrow> hs_tables \<Rightarrow> hs_newline \<Rightarrow> 'l hs_env \<Rightarrow> (hs_newline \<times> 'l hs_env) option" where
  "newline_lookahead E T nl e = c_loop (newline_lookahead_step E T) (nl, e)"

definition newline_start :: "'l env \<Rightarrow> hs_tables \<Rightarrow> 'l hs_env \<Rightarrow> (hs_symbol \<times> 'l hs_env) option" where
  "newline_start E T e =
     do { (nl, e) \<leftarrow> newline_lookahead E T ((newline e)\<lparr>nl_state := NInit\<rparr>) e;
          let e = e\<lparr>newline := nl\<rparr>;
          if nl_unsafe nl then Some (UPDATE, e) else newline_post E T e }"

definition newline_resume :: "'l env \<Rightarrow> hs_tables \<Rightarrow> 'l hs_env \<Rightarrow> (hs_symbol \<times> 'l hs_env) option" where
  "newline_resume E T e =
     (let n = nl_indent (newline e) in
      do { (b, e) \<leftarrow> skip_space E T e;
           newline_start E T (update_newline (nl_indent_update (\<lambda>_. n)) (reset_newline e)) })"

section \<open>Constraints\<close>

datatype hs_ctr = CtrUndecided | CtrImpossible | CtrArrowFound | CtrInfixFound | CtrEqualsFound | CtrBarFound

record hs_ctr_state =
  ctr_reset :: nat
  ctr_brackets :: "32 word"
  ctr_context :: bool
  ctr_infix :: bool
  ctr_data_infix :: bool
  ctr_type_instance :: bool

definition ctr_zero :: hs_ctr_state where
  "ctr_zero = \<lparr>ctr_reset = 0, ctr_brackets = 0, ctr_context = False, ctr_infix = False, ctr_data_infix = False,
     ctr_type_instance = False\<rparr>"

definition ctr_bracket_open :: "hs_ctr_state \<Rightarrow> hs_ctr \<times> hs_ctr_state" where
  "ctr_bracket_open s = (CtrUndecided, s\<lparr>ctr_brackets := ctr_brackets s + 1, ctr_reset := 1\<rparr>)"

definition ctr_bracket_close :: "hs_ctr_state \<Rightarrow> hs_ctr \<times> hs_ctr_state" where
  "ctr_bracket_close s =
     (if ctr_brackets s = 0 then (CtrImpossible, s)
      else (CtrUndecided, s\<lparr>ctr_brackets := ctr_brackets s - 1, ctr_reset := 1\<rparr>))"

definition ctr_stop_on_token :: "'l env \<Rightarrow> hs_tables \<Rightarrow> string \<Rightarrow> 'l hs_env \<Rightarrow> hs_ctr \<times> 'l hs_env" where
  "ctr_stop_on_token E T target e = (case hs_token E T target e of (b, e) \<Rightarrow> (if b then CtrImpossible else CtrUndecided, e))"

definition ctr_top :: "'l env \<Rightarrow> hs_tables \<Rightarrow> hs_lexed \<Rightarrow> 'l hs_env \<Rightarrow> hs_ctr \<times> 'l hs_env" where
  "ctr_top E T next e =
     (if next = LCArrow then (CtrArrowFound, e)
      else if next \<in> {LSymop, LSymopSpecial, LTilde, LTick} then (CtrInfixFound, e)
      else if next = LBar then (CtrBarFound, e)
      else if next \<in> {LArrow, LWhere, LDotDot, LSemi} then (CtrImpossible, e)
      else case peek E 0 e of (c, e) \<Rightarrow>
        if c = ch CHR ''='' then (CtrEqualsFound, e)
        else if next = LTexpCloser then (CtrImpossible, e)
        else if c = 0x2200 then (CtrImpossible, e)
        else if c = ch CHR '':'' then
          (case char_at E 1 (ch CHR '':'') e of (b, e) \<Rightarrow> (if b then CtrImpossible else CtrUndecided, e))
        else if c = ch CHR ''f'' then
          (case ctr_stop_on_token E T ''forall'' e of (r, e) \<Rightarrow>
             if r \<noteq> CtrUndecided then (r, e) else ctr_stop_on_token E T ''family'' e)
        else if c = ch CHR ''i'' then ctr_stop_on_token E T ''instance'' e
        else (CtrUndecided, e))"

text \<open>
  The \<^verbatim>\<open>switch\<close> of \<^verbatim>\<open>ctr_lookahead_step\<close>: \<open>Return\<close> where it returns, \<open>Next\<close> where it breaks.
\<close>

definition ctr_switch :: "'l env \<Rightarrow> hs_tables \<Rightarrow> hs_lexed \<Rightarrow> hs_ctr_state \<Rightarrow> 'l hs_env \<Rightarrow>
    (hs_ctr_state \<times> 'l hs_env, hs_ctr \<times> hs_ctr_state \<times> 'l hs_env) flow option" where
  "ctr_switch E T next s e =
     (let s = s\<lparr>ctr_reset := 1\<rparr>;
          ret = (\<lambda>(r, s) e. Some (Return (r, s, e))) in
      if next = LBraceClose then ret (ctr_bracket_close s) e
      else if next = LUnboxedClose then
        (case ctr_bracket_close s of (r, s) \<Rightarrow>
           if r \<noteq> CtrUndecided then ret (r, s) e else ret (CtrUndecided, s\<lparr>ctr_reset := 2\<rparr>) e)
      else if next = LBraceOpen then ret (ctr_bracket_open s) e
      else if next = LSymopSpecial \<or> next = LSymop then
        do { (n, e) \<leftarrow> symop_lookahead E T e; Some (Next (s\<lparr>ctr_reset := n\<rparr>, e)) }
      else if next = LUpper then do { (n, e) \<leftarrow> conid E T e; ret (CtrUndecided, s\<lparr>ctr_reset := n\<rparr>) e }
      else if next = LDotId then ret (CtrUndecided, s) e
      else if next = LPragma then
        do { (b, e) \<leftarrow> consume_pragma E e; ret (CtrUndecided, if b then s\<lparr>ctr_reset := 3\<rparr> else s) e }
      else if next = LTexpCloser \<or> next = LNothing then
        (case peek E 0 e of (c, e) \<Rightarrow>
           if c = ch CHR '')'' \<or> c = ch CHR '']'' then ret (ctr_bracket_close s) e
           else if c = ch CHR ''('' \<or> c = ch CHR ''['' then ret (ctr_bracket_open s) e
           else if c = ch CHR 0x22 then do { (n, e) \<leftarrow> take_string_literal E e; ret (CtrUndecided, s\<lparr>ctr_reset := n\<rparr>) e }
           else if c = ch CHR 0x27 then do { (n, e) \<leftarrow> take_char_literal E e; ret (CtrUndecided, s\<lparr>ctr_reset := n\<rparr>) e }
           else if varid_start_char T c then
             do { (n, e) \<leftarrow> hs_advance_while E 1 (is_id_char T) e; Some (Next (s\<lparr>ctr_reset := n\<rparr>, e)) }
           else Some (Next (s, e)))
      else Some (Next (s, e)))"

definition ctr_lookahead_step :: "'l env \<Rightarrow> hs_tables \<Rightarrow> hs_lexed \<Rightarrow> hs_ctr_state \<Rightarrow> 'l hs_env \<Rightarrow>
    (hs_ctr \<times> hs_ctr_state \<times> 'l hs_env) option" where
  "ctr_lookahead_step E T next s e =
     then_return (ctr_switch E T next s e) (\<lambda>(s, e).
       if ctr_brackets s \<noteq> 0 then Some (CtrUndecided, s, e)
       else case ctr_top E T next e of (r, e) \<Rightarrow> Some (r, s, e))"

text \<open>The \<^verbatim>\<open>switch\<close> over the result in \<^verbatim>\<open>constraint_lookahead\<close>, with the new \<^verbatim>\<open>done\<close>.\<close>

definition ctr_result :: "'l env \<Rightarrow> hs_ctr \<Rightarrow> hs_ctr_state \<Rightarrow> 'l hs_env \<Rightarrow> bool \<times> hs_ctr_state \<times> 'l hs_env" where
  "ctr_result E r s e =
     (case r of
        CtrArrowFound \<Rightarrow> (True, s\<lparr>ctr_context := True\<rparr>, e)
      | CtrInfixFound \<Rightarrow>
          (case char_at E 0 (ch CHR '':'') e of (b, e) \<Rightarrow>
             (case (if b then (True, e) else char_at E 0 (ch CHR 0x60) e) of (d, e) \<Rightarrow>
                (\<not> hs_valid e CONTEXT, s\<lparr>ctr_data_infix := (if d then True else ctr_data_infix s), ctr_infix := True\<rparr>, e)))
      | CtrEqualsFound \<Rightarrow> (\<not> hs_valid e TYPE_INSTANCE, s\<lparr>ctr_type_instance := True\<rparr>, e)
      | CtrBarFound \<Rightarrow> (True, s\<lparr>ctr_type_instance := False\<rparr>, e)
      | CtrImpossible \<Rightarrow> (True, s, e)
      | CtrUndecided \<Rightarrow> (False, s, e))"

definition constraint_step :: "'l env \<Rightarrow> hs_tables \<Rightarrow> hs_ctr_state \<times> 'l hs_env \<Rightarrow>
    (hs_ctr_state \<times> 'l hs_env, hs_ctr_state \<times> 'l hs_env) flow option" where
  "constraint_step E T = (\<lambda>(s, e).
     if hs_eof E e then Some (Return (s, e))
     else
       do { (nl, e) \<leftarrow> newline_lookahead E T (newline_zero\<lparr>nl_indent := 99999\<rparr>) e;
            if nl_indent nl \<le> current_indent e \<and> current_context e \<noteq> Braces then Some (Return (s, e))
            else
              do { (r, s, e) \<leftarrow> ctr_lookahead_step E T (nl_end nl) s e;
                   let (stop, s, e) = ctr_result E r s e;
                   let e = reset_lookahead_to (ctr_reset s) e;
                   let s = s\<lparr>ctr_reset := 0\<rparr>;
                   Some (if stop then Return (s, e) else Next (s, e)) } })"

definition constraint_lookahead :: "'l env \<Rightarrow> hs_tables \<Rightarrow> 'l hs_env \<Rightarrow> (hs_symbol \<times> 'l hs_env) option" where
  "constraint_lookahead E T e =
     do { (s, e) \<leftarrow> c_loop (constraint_step E T) (ctr_zero, e);
          SEQ (Some (if ctr_context s then finish_if_valid CONTEXT e else (FAIL, e))) (\<lambda>e.
          SEQ (Some (if ctr_infix s then finish_if_valid INFIX e else (FAIL, e))) (\<lambda>e.
          SEQ (Some (if ctr_data_infix s then finish_if_valid DATA_INFIX e else (FAIL, e))) (\<lambda>e.
          Some (if ctr_type_instance s then finish_if_valid TYPE_INSTANCE e else (FAIL, e))))) }"

section \<open>The scan\<close>

definition process_token_constraint :: "'l env \<Rightarrow> hs_tables \<Rightarrow> 'l hs_env \<Rightarrow> (hs_symbol \<times> 'l hs_env) option" where
  "process_token_constraint E T e =
     (if hs_valid e CONTEXT \<or> hs_valid e INFIX \<or> hs_valid e DATA_INFIX \<or> hs_valid e TYPE_INSTANCE
      then constraint_lookahead E T e else Some (FAIL, e))"

definition interior :: "'l env \<Rightarrow> hs_tables \<Rightarrow> bool \<Rightarrow> 'l hs_env \<Rightarrow> (hs_symbol \<times> 'l hs_env) option" where
  "interior E T whitespace e =
     do { (next, e) \<leftarrow> lex E T False e;
          SEQ (Some (resolve_semicolon next e)) (\<lambda>e.
          SEQ (process_token_interior E T next e) (\<lambda>e.
          SEQ (process_token_symop E T whitespace next e) (\<lambda>e.
          SEQ (process_token_constraint E T e) (\<lambda>e.
          Some (process_token_splice next e))))) }"

definition pre_ws_commands :: "'l env \<Rightarrow> hs_tables \<Rightarrow> 'l hs_env \<Rightarrow> (hs_symbol \<times> 'l hs_env) option" where
  "pre_ws_commands E T e =
     SEQ (Some (texp_context e)) (\<lambda>e.
     SEQ (Some (start_brace e)) (\<lambda>e.
     SEQ (Some (end_brace e)) (\<lambda>e.
     if hs_valid e QQ_BODY then qq_body E e
     else if newline_active e then newline_post E T e
     else if nl_state (newline e) = NResume then newline_resume E T e
     else Some (FAIL, e))))"

definition scan_main :: "'l env \<Rightarrow> hs_tables \<Rightarrow> 'l hs_env \<Rightarrow> (hs_symbol \<times> 'l hs_env) option" where
  "scan_main E T e =
     SEQ (pre_ws_commands E T (hs_mark E e)) (\<lambda>e.
       do { (whitespace, e) \<leftarrow> skip_space E T e;
            if is_newline (hs_peek_char E e) then newline_start E T e
            else if \<not> hs_eof E e then interior E T whitespace e
            else Some (FAIL, e) })"

definition process_result :: "'l env \<Rightarrow> hs_symbol \<Rightarrow> 'l hs_env \<Rightarrow> bool \<times> 'l hs_env" where
  "process_result E r e =
     (case (if r = FAIL \<and> hs_eof E e \<and> no_lookahead e then
              let e = hs_mark E e in
              if hs_valid e END then (END, pop e)
              else if hs_valid e SEMICOLON then (SEMICOLON, e)
              else force_end_context e
            else (r, e)) of (r, e) \<Rightarrow> set_result_symbol r e)"

definition hs_scan_env :: "'l env \<Rightarrow> hs_tables \<Rightarrow> 'l hs_env \<Rightarrow> (bool \<times> 'l hs_env) option" where
  "hs_scan_env E T e =
     (if hs_valid e FAIL then Some (False, e)
      else do { (r, e) \<leftarrow> scan_main E T e; Some (process_result E r e) })"

section \<open>The interface\<close>

definition hs_create :: hs_state where
  "hs_create = \<lparr>contexts = [], newline = newline_zero, contents = [], offset = 0\<rparr>"

definition hs_scan :: "'l env \<Rightarrow> hs_tables \<Rightarrow> (hs_symbol \<Rightarrow> bool) \<Rightarrow> hs_state \<Rightarrow> 'l hs_lexer \<Rightarrow> (bool \<times> hs_state \<times> 'l hs_lexer) option" where
  "hs_scan E T v s l = do { (b, e) \<leftarrow> hs_scan_env E T (env_new l v s); Some (b, hs_state.truncate e, lexer e) }"

text \<open>
  \<^verbatim>\<open>memcpy\<close> of the structs \<^verbatim>\<open>Persist\<close> (a count and a \<^verbatim>\<open>Newline\<close>, 20 bytes) and \<^verbatim>\<open>Context\<close> (8
  bytes): enumerations and \<^verbatim>\<open>uint32_t\<close> take four bytes, a \<^verbatim>\<open>bool\<close> one, and there is no padding.
\<close>

definition all_lexed :: "hs_lexed list" where
  "all_lexed =
     [LNothing, LEof, LWhere, LIn, LThen, LElse, LDeriving, LModule, LUpper, LTick, LSymop, LSymopSpecial, LDotDot,
      LDotId, LDotSymop, LDotOpen, LDollar, LBang, LTilde, LAt, LPercent, LHash, LBar, LArrow, LCArrow, LTexpCloser,
      LQuoteClose, LPragma, LBlockComment, LLineComment, LBraceClose, LBraceOpen, LBracketOpen, LUnboxedClose, LSemi,
      LCppElse, LCpp]"

definition put_enum :: "'a list \<Rightarrow> 'a \<Rightarrow> byte list" where
  "put_enum xs x = le32 (of_nat (length (takeWhile (\<lambda>y. y \<noteq> x) xs)))"

definition get_enum :: "'a list \<Rightarrow> byte list \<Rightarrow> ('a \<times> byte list) option" where
  "get_enum xs bs = do { (n, bs) \<leftarrow> get32 bs; if unat n < length xs then Some (xs ! unat n, bs) else None }"

definition put_newline :: "hs_newline \<Rightarrow> byte list" where
  "put_newline nl =
     put_enum [NInactive, NInit, NProcess, NResume] (nl_state nl) @ put_enum all_lexed (nl_end nl) @ le32 (nl_indent nl)
     @ [bool_byte (nl_eof nl), bool_byte (nl_no_semi nl), bool_byte (nl_skip_semi nl), bool_byte (nl_unsafe nl)]"

definition get_bool :: "byte list \<Rightarrow> (bool \<times> byte list) option" where
  "get_bool bs = do { (b, bs) \<leftarrow> get8 bs; Some (b \<noteq> 0, bs) }"

definition get_newline :: "byte list \<Rightarrow> (hs_newline \<times> byte list) option" where
  "get_newline bs =
     do { (s, bs) \<leftarrow> get_enum [NInactive, NInit, NProcess, NResume] bs;
          (t, bs) \<leftarrow> get_enum all_lexed bs;
          (n, bs) \<leftarrow> get32 bs;
          (a, bs) \<leftarrow> get_bool bs; (b, bs) \<leftarrow> get_bool bs; (c, bs) \<leftarrow> get_bool bs; (d, bs) \<leftarrow> get_bool bs;
          Some (\<lparr>nl_state = s, nl_end = t, nl_indent = n, nl_eof = a, nl_no_semi = b, nl_skip_semi = c, nl_unsafe = d\<rparr>, bs) }"

definition put_context :: "hs_context \<Rightarrow> byte list" where
  "put_context c = put_enum all_sorts (sort c) @ le32 (indent c)"

definition get_context :: "byte list \<Rightarrow> (hs_context \<times> byte list) option" where
  "get_context bs = do { (s, bs) \<leftarrow> get_enum all_sorts bs; (n, bs) \<leftarrow> get32 bs; Some (\<lparr>sort = s, indent = n\<rparr>, bs) }"

definition hs_serialize :: "hs_state \<Rightarrow> byte list" where
  "hs_serialize s =
     (if 20 + 8 * length (contexts s) > TREE_SITTER_SERIALIZATION_BUFFER_SIZE then []
      else le32 (of_nat (length (contexts s))) @ put_newline (newline s) @ concat (map put_context (contexts s)))"

definition hs_deserialize :: "hs_state \<Rightarrow> byte list \<Rightarrow> hs_state option" where
  "hs_deserialize s buffer =
     (if buffer = [] then Some (hs_create\<lparr>newline := newline_zero\<lparr>nl_state := NResume\<rparr>\<rparr>)
      else
        do { (n, buffer) \<leftarrow> get32 buffer;
             (nl, buffer) \<leftarrow> get_newline buffer;
             (cs, buffer) \<leftarrow> get_many get_context (unat n) buffer;
             Some (s\<lparr>newline := nl, contexts := cs, contents := [], offset := 0\<rparr>) })"

end
