(* ===== verification/Haskell_Lookahead.thy ===== *)
theory Haskell_Lookahead
  imports Haskell_Scanner
begin

text \<open>
  The lookahead buffer of the Haskell scanner. What has been copied to the buffer and what is
  still to be read is one list of characters, \<open>hs_view\<close>, and looking ahead does not change
  it: \<open>peek\<close> gives the character of the list at an index, \<open>seq_from\<close> compares a word with a
  segment of it, and so on, however far the lexer has advanced. From this the loops of the
  scanner are shown to end.
\<close>

definition nth0 :: "int list \<Rightarrow> nat \<Rightarrow> int" where
  "nth0 xs n = (if n < length xs then xs ! n else 0)"

lemma nth0_nonzero: "nth0 xs n \<noteq> 0 \<Longrightarrow> n < length xs"
  by (simp add: nth0_def split: if_splits)

lemma nth0_simps [simp]: "nth0 [] n = 0" "nth0 (x # xs) 0 = x" "nth0 (x # xs) (Suc n) = nth0 xs n"
  by (simp_all add: nth0_def)

lemma nth0_drop: "nth0 (drop k xs) n = nth0 xs (k + n)"
  by (auto simp: nth0_def)

context ts_lexer
begin

definition hs_view :: "'l hs_env \<Rightarrow> int list" where
  "hs_view e = contents e @ rest (raw (lexer e))"

abbreviation to_read :: "'l hs_env \<Rightarrow> nat" where
  "to_read e \<equiv> remaining (lexer e)"

text \<open>What is ahead of the offset.\<close>

abbreviation ahead :: "'l hs_env \<Rightarrow> int list" where
  "ahead e \<equiv> drop (offset e) (hs_view e)"

text \<open>
  Three relations between the environments before and after a step: \<open>hs_frame\<close>, that the
  contexts, the newline state and the symbols are kept and no character is given back;
  \<open>hs_steps\<close>, that also the offset does not go back in the input; \<open>hs_looks\<close>, that the step
  only looks ahead.
\<close>

definition hs_frame :: "'l hs_env \<Rightarrow> 'l hs_env \<Rightarrow> bool" where
  "hs_frame e e' \<longleftrightarrow> contexts e' = contexts e \<and> newline e' = newline e \<and> symbols e' = symbols e \<and> to_read e' \<le> to_read e"

definition hs_steps :: "'l hs_env \<Rightarrow> 'l hs_env \<Rightarrow> bool" where
  "hs_steps e e' \<longleftrightarrow> hs_frame e e' \<and> length (ahead e') \<le> length (ahead e)"

definition hs_looks :: "'l hs_env \<Rightarrow> 'l hs_env \<Rightarrow> bool" where
  "hs_looks e e' \<longleftrightarrow> hs_view e' = hs_view e \<and> offset e' = offset e \<and> contexts e' = contexts e \<and> newline e' = newline e
     \<and> symbols e' = symbols e \<and> length (contents e) \<le> length (contents e') \<and> (symop e \<noteq> 0 \<longrightarrow> symop e' = symop e)"

lemma length_view: "length (hs_view e) = length (contents e) + to_read e"
  by (simp add: hs_view_def)

lemma hs_looks_refl [simp]: "hs_looks e e"
  by (simp add: hs_looks_def)

lemma hs_looks_trans [trans]: "hs_looks e e' \<Longrightarrow> hs_looks e' e'' \<Longrightarrow> hs_looks e e''"
  by (auto simp: hs_looks_def)

lemma hs_frame_refl [simp]: "hs_frame e e"
  by (simp add: hs_frame_def)

lemma hs_frame_trans [trans]: "hs_frame e e' \<Longrightarrow> hs_frame e' e'' \<Longrightarrow> hs_frame e e''"
  by (auto simp: hs_frame_def)

lemma hs_steps_refl [simp]: "hs_steps e e"
  by (simp add: hs_steps_def)

lemma hs_steps_trans [trans]: "hs_steps e e' \<Longrightarrow> hs_steps e' e'' \<Longrightarrow> hs_steps e e''"
  by (auto simp: hs_steps_def intro: hs_frame_trans)

lemma hs_looks_steps: "hs_looks e e' \<Longrightarrow> hs_steps e e'"
  using length_view [of e] length_view [of e'] by (auto simp: hs_looks_def hs_steps_def hs_frame_def)

lemma hs_looks_frame: "hs_looks e e' \<Longrightarrow> hs_frame e e'"
  using hs_looks_steps by (simp add: hs_steps_def)

lemma hs_steps_frame: "hs_steps e e' \<Longrightarrow> hs_frame e e'"
  by (simp add: hs_steps_def)

lemma hs_eof_view [simp]: "hs_eof E e \<longleftrightarrow> rest (raw (lexer e)) = []"
  by (simp add: hs_eof_def)

lemma hs_peek_char_view: "hs_peek_char E e = nth0 (hs_view e) (length (contents e))"
  by (simp add: hs_peek_char_def lookahead_view hs_view_def nth0_def nth_append split: list.splits)

lemma hs_peek_char_nonzero: "hs_peek_char E e \<noteq> 0 \<Longrightarrow> 0 < to_read e"
  unfolding hs_peek_char_def by (rule remaining_pos)

section \<open>Advancing\<close>

lemma hs_looks_advance [simp]: "hs_looks e (hs_advance E e)"
  by (cases "rest (raw (lexer e))") (auto simp: hs_looks_def hs_advance_def hs_view_def hs_peek_char_def)

lemma length_hs_advance: "length (contents (hs_advance E e)) = min (length (contents e) + 1) (length (hs_view e))"
  by (cases "rest (raw (lexer e))") (auto simp: hs_advance_def hs_view_def)

lemma to_read_advance: "to_read (hs_advance E e) = to_read e - 1"
  by (simp add: hs_advance_def)

lemma hs_looks_funpow: "hs_looks e ((hs_advance E ^^ n) e)"
  by (induction n) (auto intro: hs_looks_trans)

lemma length_funpow_advance:
  "length (contents ((hs_advance E ^^ n) e)) = min (length (contents e) + n) (length (hs_view e))"
proof (induction n)
  case 0
  then show ?case by (simp add: length_view)
next
  case (Suc n)
  have "hs_view ((hs_advance E ^^ n) e) = hs_view e" using hs_looks_funpow [of e n] by (simp add: hs_looks_def)
  then show ?case using Suc by (simp add: length_hs_advance)
qed

lemma hs_looks_over_abs [simp]: "hs_looks e (advance_over_abs E a e)"
  by (simp add: advance_over_abs_def hs_looks_funpow)

lemma length_over_abs:
  "length (contents (advance_over_abs E a e)) = max (length (contents e)) (min (a + 1) (length (hs_view e)))"
  by (simp add: advance_over_abs_def length_funpow_advance length_view)

lemma hs_looks_over [simp]: "hs_looks e (advance_over E i e)"
  by (simp add: advance_over_def)

lemma hs_looks_before [simp]: "hs_looks e (advance_before E i e)"
  by (simp add: advance_before_def)

lemma length_before:
  "length (contents (advance_before E i e)) = max (length (contents e)) (min (offset e + i) (length (hs_view e)))"
  by (auto simp: advance_before_def length_over_abs)

section \<open>Peeking\<close>

lemma peek_value: "fst (peek E i e) = nth0 (hs_view e) (offset e + i)"
proof (cases "offset e + i < length (contents e)")
  case True
  then show ?thesis by (simp add: peek_def unsafe_peek_def hs_view_def nth0_def nth_append)
next
  case False
  let ?e = "advance_before E i e"
  have "hs_view ?e = hs_view e" using hs_looks_before [of e i] by (simp add: hs_looks_def)
  moreover have "length (contents ?e) = min (offset e + i) (length (hs_view e))"
    using False length_before [of i e] length_view [of e] by simp
  ultimately have "hs_peek_char E ?e = nth0 (hs_view e) (offset e + i)" by (simp add: hs_peek_char_view nth0_def min_def)
  with False show ?thesis by (simp add: peek_def Let_def)
qed

lemma peek_looks: "hs_looks e (snd (peek E i e))"
  by (simp add: peek_def Let_def)

lemma peek_length: "min (offset e + i) (length (hs_view e)) \<le> length (contents (snd (peek E i e)))"
  by (auto simp: peek_def Let_def length_before)

lemma wp_peek:
  assumes "\<And>e'. hs_looks e e' \<Longrightarrow> min (offset e + i) (length (hs_view e)) \<le> length (contents e') \<Longrightarrow>
    P (nth0 (hs_view e) (offset e + i)) e'"
  shows "case_prod P (peek E i e)"
  using assms [OF peek_looks peek_length] peek_value [of i e] by (simp add: split_def)

lemma wp_char_at:
  assumes "\<And>e'. hs_looks e e' \<Longrightarrow> min (offset e + i) (length (hs_view e)) \<le> length (contents e') \<Longrightarrow>
    P (nth0 (hs_view e) (offset e + i) = c) e'"
  shows "case_prod P (char_at E i c e)"
  unfolding char_at_def using assms [OF peek_looks peek_length] peek_value [of i e] by (simp add: split_def)

text \<open>A word is compared with a segment of the view.\<close>

lemma seq_from_iff:
  "fst (seq_from E s i e) \<longleftrightarrow> (\<forall>k < length s. nth0 (hs_view e) (offset e + i + k) = ch (s ! k))"
proof (induction s arbitrary: i e)
  case (Cons c s)
  obtain d e' where p: "peek E i e = (d, e')" by (cases "peek E i e")
  have d: "d = nth0 (hs_view e) (offset e + i)" and l: "hs_looks e e'"
    using peek_value [of i e] peek_looks [of e i] p by simp_all
  have "hs_view e' = hs_view e" "offset e' = offset e" using l by (simp_all add: hs_looks_def)
  then have "fst (seq_from E s (i + 1) e') \<longleftrightarrow> (\<forall>k < length s. nth0 (hs_view e) (offset e + i + Suc k) = ch (s ! k))"
    using Cons.IH [of "i + 1" e'] by simp
  then show ?case
    using d p by (auto simp: All_less_Suc2)
qed simp

lemma seq_from_looks: "hs_looks e (snd (seq_from E s i e))"
proof (induction s arbitrary: i e)
  case (Cons c s)
  obtain d e' where p: "peek E i e = (d, e')" by (cases "peek E i e")
  then have "hs_looks e e'" using peek_looks [of e i] by simp
  with Cons.IH [of e' "i + 1"] p show ?case by (auto intro: hs_looks_trans)
qed (simp add: peek_looks)

section \<open>Words\<close>

lemma looks_case:
  assumes "hs_looks e (snd p)" and "\<And>r e'. hs_looks e e' \<Longrightarrow> hs_looks e (snd (f r e'))"
  shows "hs_looks e (snd (case_prod f p))"
  using assms by (cases p) simp

lemma peek_looks_from: "hs_looks e0 e \<Longrightarrow> hs_looks e0 (snd (peek E i e))"
  by (rule hs_looks_trans [OF _ peek_looks])

lemma char_at_looks_from: "hs_looks e0 e \<Longrightarrow> hs_looks e0 (snd (char_at E i c e))"
  unfolding char_at_def by (auto intro!: looks_case peek_looks_from)

lemma seq_from_looks_from: "hs_looks e0 e \<Longrightarrow> hs_looks e0 (snd (seq_from E s i e))"
  by (rule hs_looks_trans [OF _ seq_from_looks])

lemma token_from_looks_from: "hs_looks e0 e \<Longrightarrow> hs_looks e0 (snd (token_from E T s i e))"
  unfolding token_from_def by (auto split: bool.splits intro!: looks_case peek_looks_from seq_from_looks_from)

lemma any_token_from_looks_from: "hs_looks e0 e \<Longrightarrow> hs_looks e0 (snd (any_token_from E T ss i e))"
proof (induction ss arbitrary: e)
  case (Cons s ss)
  show ?case
    unfolding any_token_from.simps
    by (rule looks_case [OF token_from_looks_from [OF Cons.prems]]) (simp add: Cons.IH split: bool.split)
qed simp

lemma odd_backslashes_looks_from: "hs_looks e0 e \<Longrightarrow> hs_looks e0 (snd (odd_backslashes_before E n e))"
proof (induction n arbitrary: e)
  case (Suc n)
  show ?case
    unfolding odd_backslashes_before.simps
    by (rule looks_case [OF peek_looks_from [OF Suc.prems]]) (auto intro!: looks_case Suc.IH)
qed simp

lemma opening_token_looks_from: "hs_looks e0 e \<Longrightarrow> hs_looks e0 (snd (opening_token E T i e))"
  unfolding opening_token_def by (auto intro!: looks_case peek_looks_from)

lemmas looks_from = looks_case peek_looks_from char_at_looks_from seq_from_looks_from token_from_looks_from
  any_token_from_looks_from odd_backslashes_looks_from opening_token_looks_from

lemma cpp_looks_from:
  assumes "hs_looks e0 e"
  shows "hs_looks e0 (snd (cpp_cond_start E T i e))" and "hs_looks e0 (snd (cpp_cond_else E T i e))"
    and "hs_looks e0 (snd (cpp_cond_end E T i e))" and "hs_looks e0 (snd (cpp_directive_other E T i e))"
  using assms unfolding cpp_cond_start_def cpp_cond_else_def cpp_cond_end_def cpp_directive_other_def
  by (auto split: bool.splits simp del: any_token_from.simps intro!: looks_from)

lemma cpp_kind_looks_from: "hs_looks e0 e \<Longrightarrow> hs_looks e0 (snd (cpp_kind E T i e))"
  unfolding cpp_kind_def by (auto split: bool.splits intro!: looks_case cpp_looks_from)

lemma lex_prefix_looks_from: "hs_looks e0 e \<Longrightarrow> hs_looks e0 (snd (lex_prefix E T t e))"
  unfolding lex_prefix_def by (auto intro!: looks_from)

lemma lex_symop_looks_from:
  assumes "hs_looks e0 e"
  shows "hs_looks e0 (snd (lex_symop_1 E T e))" and "hs_looks e0 (snd (lex_symop_2 E T e))" and "hs_looks e0 (snd (lex_symop_3 E e))"
  using assms unfolding lex_symop_1_def lex_symop_2_def lex_symop_3_def Let_def
  by (auto split: bool.splits simp del: seq_from.simps intro!: looks_from lex_prefix_looks_from)

lemma try_end_token_looks_from: "hs_looks e0 e \<Longrightarrow> hs_looks e0 (snd (try_end_token E T s t e))"
  unfolding try_end_token_def by (auto intro!: looks_from)

text \<open>The form in which these are used in a larger function.\<close>

lemma wp_looks: "(\<And>e. hs_looks e (snd (f e))) \<Longrightarrow> (\<And>r e'. hs_looks e e' \<Longrightarrow> P r e') \<Longrightarrow> case_prod P (f e)"
  by (metis case_prod_unfold)

section \<open>Loops over the lookahead\<close>

lemma takeWhile_nth0:
  assumes "\<not> p 0" and "\<And>k. k < m \<Longrightarrow> p (nth0 xs k)" and "\<not> p (nth0 xs m)"
  shows "length (takeWhile p xs) = m"
  using assms(2,3)
proof (induction xs arbitrary: m)
  case Nil
  then show ?case using assms(1) by (cases m) auto
next
  case (Cons x xs)
  show ?case
  proof (cases m)
    case 0
    with Cons.prems show ?thesis by simp
  next
    case (Suc m')
    have "length (takeWhile p xs) = m'"
      by (rule Cons.IH) (use Cons.prems(1) [of "Suc _"] Cons.prems(2) Suc in auto)
    moreover have "p x" using Cons.prems(1) [of 0] Suc by simp
    ultimately show ?thesis using Suc by simp
  qed
qed

lemma runs_hs_advance_while:
  assumes "\<not> p 0"
  shows "runs (hs_advance_while E i p e) (\<lambda>(n, e'). hs_looks e e' \<and> n = i + length (takeWhile p (drop i (ahead e)))
     \<and> min (offset e + n) (length (hs_view e)) \<le> length (contents e'))"
  unfolding hs_advance_while_def
proof (rule runs_c_loop [where m = "\<lambda>(j, e'). Suc (length (hs_view e)) - (offset e + j)" and I = "\<lambda>(j, e').
      hs_looks e e' \<and> i \<le> j \<and> (\<forall>k. i \<le> k \<longrightarrow> k < j \<longrightarrow> p (nth0 (hs_view e) (offset e + k)))"], goal_cases)
  case (2 x)
  then obtain j e1 where x: "x = (j, e1)" and l: "hs_looks e e1" and ij: "i \<le> j"
    and all: "\<forall>k. i \<le> k \<longrightarrow> k < j \<longrightarrow> p (nth0 (hs_view e) (offset e + k))" by (cases x) auto
  have v: "hs_view e1 = hs_view e" "offset e1 = offset e" using l by (simp_all add: hs_looks_def)
  show ?case
    unfolding x prod.case runs_prod
  proof (rule wp_peek, goal_cases)
    case (1 e2)
    have l2: "hs_looks e e2" using l 1(1) by (rule hs_looks_trans)
    show ?case
    proof (cases "p (nth0 (hs_view e) (offset e + j))")
      case True
      then have "offset e + j < length (hs_view e)" using assms nth0_nonzero by metis
      with True l2 ij all v show ?thesis by (auto simp: less_Suc_eq)
    next
      case False
      have "p (nth0 (hs_view e) (i + (offset e + k)))" if "k < j - i" for k
        using all [rule_format, of "i + k"] that by (simp add: ac_simps)
      then have "length (takeWhile p (drop i (ahead e))) = j - i"
        by (intro takeWhile_nth0) (use assms False ij in \<open>auto simp: nth0_drop ac_simps\<close>)
      with False l2 ij v 1(2) show ?thesis by simp
    qed
  qed
qed simp

lemma runs_advance_until_char:
  "runs (advance_until_char E i c e) (\<lambda>(n, e'). hs_looks e e' \<and> i \<le> n
     \<and> (rest (raw (lexer e')) = [] \<or> nth0 (hs_view e) (offset e + n) = c))"
  unfolding advance_until_char_def
proof (rule runs_c_loop [where m = "\<lambda>(j, e'). to_read e' + (length (hs_view e) - (offset e + j))" and I = "\<lambda>(j, e'). hs_looks e e' \<and> i \<le> j"], goal_cases)
  case (2 x)
  then obtain j e1 where x: "x = (j, e1)" and l: "hs_looks e e1" and ij: "i \<le> j" by (cases x) auto
  have v: "hs_view e1 = hs_view e" "offset e1 = offset e" using l by (simp_all add: hs_looks_def)
  show ?case
  proof (cases "rest (raw (lexer e1)) = []")
    case False
    show ?thesis
      unfolding x prod.case hs_eof_view if_not_P [OF False] runs_prod
    proof (rule wp_char_at, goal_cases)
      case (1 e2)
      have l2: "hs_looks e e2" using l 1(1) by (rule hs_looks_trans)
      have len: "length (contents e2) + to_read e2 = length (hs_view e)" "length (contents e1) + to_read e1 = length (hs_view e)"
        using length_view [of e2] length_view [of e1] l2 v by (simp_all add: hs_looks_def)
      have "0 < to_read e1" using False by simp
      have "length (contents e1) \<le> length (contents e2)" using 1(1) by (simp add: hs_looks_def)
      moreover have "min (offset e + j) (length (hs_view e)) \<le> length (contents e2)" using 1(2) v by simp
      ultimately have "to_read e2 + (length (hs_view e) - Suc (offset e + j)) < to_read e1 + (length (hs_view e) - (offset e + j))"
        using len \<open>0 < to_read e1\<close> by linarith
      with l2 ij v show ?case by auto
    qed
  qed (use x l ij in auto)
qed simp

end

end
