(* ===== verification/Haskell_Lex.thy ===== *)
theory Haskell_Lex
  imports Haskell_Lookahead
begin

text \<open>
  The functions of the Haskell scanner that read ahead, up to \<open>lex\<close>: each of them returns and
  only looks, and what \<open>lex\<close> says of the token ahead fits what is there.
\<close>

lemma symop_char_0 [simp]: "\<not> symop_char T 0"
  by (simp add: symop_char_def)

lemma id_char_0 [simp]: "\<not> is_id_char T 0" "\<not> is_inner_id_char T 0" "\<not> quoter_char T 0" "\<not> varid_start_char T 0"
  by (simp_all add: is_id_char_def is_inner_id_char_def quoter_char_def varid_start_char_def)

lemma is_newline_0 [simp]: "\<not> is_newline 0"
  by (simp add: is_newline_def)

context ts_lexer
begin

section \<open>Lines and white space\<close>

lemma runs_advance_chars:
  assumes "\<And>e. P e \<Longrightarrow> rest (raw (lexer e)) \<noteq> []"
  shows "runs (while_option P (hs_advance E) e) (\<lambda>e'. hs_looks e e' \<and> \<not> P e')"
proof (rule runs_while_option [where m = to_read and I = "hs_looks e"])
  fix s assume "hs_looks e s" and "P s"
  then show "hs_looks e (hs_advance E s) \<and> to_read (hs_advance E s) < to_read s"
    using assms [of s] by (auto simp: to_read_advance intro: hs_looks_trans [OF _ hs_looks_advance])
qed auto

lemma runs_take_line: "runs (take_line E e) (\<lambda>e'. hs_looks e e' \<and> (rest (raw (lexer e')) = [] \<or> is_newline (hs_peek_char E e')))"
  unfolding take_line_def by (rule runs_weaken [OF runs_advance_chars]) auto

lemma hs_peek_char_rest: "hs_peek_char E e \<noteq> 0 \<Longrightarrow> rest (raw (lexer e)) \<noteq> []"
  using hs_peek_char_nonzero by auto

lemma runs_take_line_escaped: "runs (take_line_escaped_newline E e) (hs_looks e)"
  unfolding take_line_escaped_newline_def
proof (rule runs_c_loop [where m = to_read and I = "hs_looks e"], goal_cases)
  case (2 e1)
  show ?case
    unfolding escaped_line_step_def runs_bind
  proof (rule runs_weaken [OF runs_advance_chars], simp, goal_cases)
    case (1 e2)
    have l: "hs_looks e e2" using 2 1 by (blast intro: hs_looks_trans)
    have r2: "to_read e2 \<le> to_read e1" using 1 hs_looks_frame [of e1 e2] by (simp add: hs_frame_def)
    show ?case
    proof (cases "hs_peek_char E e2 = 92")
      case True
      let ?e = "hs_advance E e2"
      have "0 < to_read e2" using True by (intro hs_peek_char_nonzero) simp
      then have "to_read ?e < to_read e1" using r2 to_read_advance [of e2] by linarith
      moreover have le: "hs_looks e ?e" by (rule hs_looks_trans [OF l hs_looks_advance])
      moreover have "runs (while_option (\<lambda>e. is_space_or_tab (hs_peek_char E e)) (hs_advance E) ?e) (hs_looks ?e)"
        by (rule runs_weaken [OF runs_advance_chars]) (auto simp: is_space_or_tab_def intro!: hs_peek_char_rest)
      moreover have "hs_looks e (hs_advance E e') \<and> to_read (hs_advance E e') < to_read e1"
        "hs_looks e e' \<and> to_read e' < to_read e1" if "hs_looks ?e e'" for e'
        using that le hs_looks_frame [OF that] \<open>to_read ?e < to_read e1\<close>
        by (auto simp: hs_frame_def to_read_advance intro: hs_looks_trans [OF _ hs_looks_advance] hs_looks_trans)
      ultimately show ?thesis
        using True by (auto simp: Let_def elim!: runs_weaken)
    qed (use l in simp)
  qed
qed simp

text \<open>Skipping does not touch the buffer.\<close>

definition hs_skips :: "'l hs_env \<Rightarrow> 'l hs_env \<Rightarrow> bool" where
  "hs_skips e e' \<longleftrightarrow> (\<exists>l. e' = e\<lparr>lexer := l\<rparr> \<and> remaining l \<le> to_read e)"

lemma hs_skips_refl [simp]: "hs_skips e e"
  by (auto simp: hs_skips_def intro!: exI [of _ "lexer e"])

lemma hs_skips_trans [trans]: "hs_skips e e' \<Longrightarrow> hs_skips e' e'' \<Longrightarrow> hs_skips e e''"
  by (auto simp: hs_skips_def)

lemma hs_skips_le: "hs_skips e e' \<Longrightarrow> to_read e' \<le> to_read e"
  by (auto simp: hs_skips_def)

lemma hs_skips_steps: "hs_skips e e' \<Longrightarrow> hs_steps e e'"
  by (auto simp: hs_skips_def hs_steps_def hs_frame_def hs_view_def)

lemma hs_skips_skip [simp]: "hs_skips e (hs_skip E e)"
  by (auto simp: hs_skips_def hs_skip_def)

lemma to_read_skip [simp]: "to_read (hs_skip E e) = to_read e - 1"
  by (simp add: hs_skip_def)

lemma runs_skip_chars:
  assumes "\<not> p 0"
  shows "runs (skip_chars E p e) (\<lambda>(b, e'). hs_skips e e' \<and> (b \<longrightarrow> to_read e' < to_read e) \<and> \<not> p (hs_peek_char E e'))"
proof (cases "p (hs_peek_char E e)")
  case True
  then have pos: "0 < to_read e" using hs_peek_char_nonzero assms by metis
  have "runs (while_option (\<lambda>e. p (hs_peek_char E e)) (hs_skip E) (hs_skip E e))
     (\<lambda>e'. hs_skips e e' \<and> to_read e' < to_read e \<and> \<not> p (hs_peek_char E e'))"
  proof (rule runs_while_option [where m = to_read and I = "\<lambda>e'. hs_skips e e' \<and> to_read e' < to_read e"])
    fix s assume I: "hs_skips e s \<and> to_read s < to_read e" and p: "p (hs_peek_char E s)"
    then have "0 < to_read s" using hs_peek_char_nonzero assms by metis
    with I show "(hs_skips e (hs_skip E s) \<and> to_read (hs_skip E s) < to_read e) \<and> to_read (hs_skip E s) < to_read s"
      by (auto intro: hs_skips_trans [OF _ hs_skips_skip])
  qed (use pos in auto)
  with True show ?thesis by (auto simp: skip_chars_def elim!: runs_weaken)
qed (simp add: skip_chars_def)

lemma runs_skip_space:
  "runs (skip_space E T e) (\<lambda>(b, e'). hs_skips e e' \<and> (b \<longrightarrow> to_read e' < to_read e) \<and> \<not> is_space_char T (hs_peek_char E e'))"
  unfolding skip_space_def by (rule runs_skip_chars) simp

lemma runs_skip_newlines:
  "runs (skip_newlines E e) (\<lambda>(b, e'). hs_skips e e' \<and> (b \<longrightarrow> to_read e' < to_read e) \<and> \<not> is_newline (hs_peek_char E e'))"
  unfolding skip_newlines_def by (rule runs_skip_chars) simp

lemma runs_skip_whitespace: "runs (skip_whitespace E T e) (\<lambda>(sp, e'). hs_skips e e')"
  unfolding skip_whitespace_def
  by (rule runs_c_loop [where m = "\<lambda>(sp, e'). to_read e'" and I = "\<lambda>(sp, e'). hs_skips e e'"])
    (auto intro!: runs_weaken [OF runs_skip_space] runs_weaken [OF runs_skip_newlines] intro: hs_skips_trans
      dest: hs_skips_le)

section \<open>Names and literals\<close>

lemma runs_symop_lookahead: "runs (symop_lookahead E T e) (\<lambda>(n, e'). hs_looks e e' \<and> symop e' = n)"
proof -
  have "hs_looks e (e'\<lparr>symop := n\<rparr>)" if "symop e = 0" "hs_looks e e'" for e' n
    using that by (auto simp: hs_looks_def hs_view_def)
  then show ?thesis
    unfolding symop_lookahead_def
    by (auto intro!: runs_weaken [OF runs_hs_advance_while])
qed

lemma runs_is_symop: "runs (is_symop E T e) (\<lambda>(b, e'). hs_looks e e')"
  unfolding is_symop_def by (auto intro!: runs_weaken [OF runs_symop_lookahead])

lemma runs_take_space_from:
  "runs (take_space_from E T i e) (\<lambda>(n, e'). hs_looks e e' \<and> i \<le> n \<and> min (offset e + i) (length (hs_view e)) \<le> length (contents e'))"
  unfolding take_space_from_def by (rule runs_weaken [OF runs_hs_advance_while]) (auto simp: min_def split: if_splits)

lemma runs_match_symop: "runs (match_symop E T s e) (\<lambda>(b, e'). hs_looks e e')"
proof -
  have "hs_looks e e''" if "hs_looks e e'" "hs_seq E s e' = (b, e'')" for e' b e''
    using seq_from_looks_from [OF that(1), of s 0] that(2) by simp
  then show ?thesis unfolding match_symop_def by (auto intro!: runs_weaken [OF runs_symop_lookahead])
qed

lemma runs_conid:
  "runs (conid E T e) (\<lambda>(n, e'). hs_looks e e' \<and> (n = 0 \<longleftrightarrow> \<not> is_conid_start_char T (nth0 (hs_view e) (offset e))))"
  unfolding conid_def runs_prod
  by (rule wp_peek) (auto intro!: runs_weaken [OF runs_hs_advance_while] intro: hs_looks_trans)

lemma reset_lookahead_to_simps [simp]:
  "contexts (reset_lookahead_to n e) = contexts e" "newline (reset_lookahead_to n e) = newline e"
  "symbols (reset_lookahead_to n e) = symbols e" "lexer (reset_lookahead_to n e) = lexer e"
  "offset (reset_lookahead_to n e) = offset e + n" "contents (reset_lookahead_to n e) = contents e"
  "hs_view (reset_lookahead_to n e) = hs_view e"
  by (simp_all add: reset_lookahead_to_def reset_lookahead_abs_def hs_view_def)

lemma reset_lookahead_simps [simp]:
  "contexts (reset_lookahead e) = contexts e" "newline (reset_lookahead e) = newline e"
  "symbols (reset_lookahead e) = symbols e" "lexer (reset_lookahead e) = lexer e"
  "offset (reset_lookahead e) = length (contents e)" "contents (reset_lookahead e) = contents e"
  "hs_view (reset_lookahead e) = hs_view e"
  by (simp_all add: reset_lookahead_def reset_lookahead_abs_def hs_view_def)

lemma hs_steps_reset_to [simp]: "hs_steps e (reset_lookahead_to n e)"
  by (simp add: hs_steps_def hs_frame_def)

lemma runs_qualified_name: "runs (qualified_name E T (is_symop E T) e) (\<lambda>(q, e'). hs_steps e e')"
  unfolding qualified_name_def
proof (rule runs_c_loop [where m = "\<lambda>(q, e'). length (ahead e')" and I = "\<lambda>(q, e'). hs_steps e e'"], goal_cases)
  case (2 x)
  then obtain q e1 where x: "x = (q, e1)" and I: "hs_steps e e1" by (cases x) auto
  show ?case
    unfolding x qualified_step_def prod.case runs_bind
  proof (rule runs_weaken [OF runs_conid], clarify, goal_cases)
    case (1 n e2)
    have s2: "hs_steps e e2" using I hs_looks_steps [OF 1(1)] by (rule hs_steps_trans)
    have v2: "hs_view e2 = hs_view e1" "offset e2 = offset e1" using 1 by (simp_all add: hs_looks_def)
    show ?case
    proof (cases "n = 0")
      case False
      show ?thesis
        unfolding if_not_P [OF False] runs_prod
      proof (rule wp_char_at, goal_cases)
        case (1 e3)
        have s3: "hs_steps e e3" using s2 hs_looks_steps [OF 1(1)] by (rule hs_steps_trans)
        have v3: "hs_view e3 = hs_view e1" "offset e3 = offset e1" using 1 v2 by (simp_all add: hs_looks_def)
        let ?e = "reset_lookahead_to (n + 1) e3"
        have s: "hs_steps e ?e" by (rule hs_steps_trans [OF s3 hs_steps_reset_to])
        have "length (ahead ?e) < length (ahead e1)" if "nth0 (hs_view e2) (offset e2 + n) = 46"
          using nth0_nonzero [of "hs_view e2" "offset e2 + n"] that v2 v3 by simp
        moreover have "hs_steps e e4" "length (ahead e4) \<le> length (ahead ?e)" if "hs_looks ?e e4" for e4
          using hs_steps_trans [OF s hs_looks_steps [OF that]] hs_looks_steps [OF that] by (auto simp: hs_steps_def)
        ultimately show ?case
          using s3 by (fastforce split: bool.split intro!: runs_weaken [OF runs_is_symop])
      qed
    qed (use s2 in simp)
  qed
qed simp

lemma runs_take_string_literal: "runs (take_string_literal E e) (\<lambda>(n, e'). hs_looks e e' \<and> 0 < n)"
  unfolding take_string_literal_def
proof (rule runs_c_loop [where m = "\<lambda>(i, e'). length (hs_view e) - (offset e + i)" and I = "\<lambda>(i, e'). hs_looks e e'"], goal_cases)
  case (2 x)
  then obtain i e1 where x: "x = (i, e1)" and l: "hs_looks e e1" by (cases x) auto
  have v: "hs_view e1 = hs_view e" "offset e1 = offset e" using l by (simp_all add: hs_looks_def)
  show ?case
    unfolding x prod.case runs_bind
  proof (rule runs_weaken [OF runs_advance_until_char], clarify, goal_cases)
    case (1 n e2)
    have l2: "hs_looks e e2" using l 1(1) by (rule hs_looks_trans)
    have "length (hs_view e) - Suc (offset e + n) < length (hs_view e) - (offset e + i)" if "rest (raw (lexer e2)) \<noteq> []"
      using 1 that nth0_nonzero [of "hs_view e" "offset e + n"] v by auto
    moreover have "hs_looks e e3" if "odd_backslashes_before E n e2 = (b, e3)" for b e3
      using odd_backslashes_looks_from [OF l2, of n] that by simp
    ultimately show ?case using l2 by (auto split: prod.splits)
  qed
qed simp

lemma looks_pairD: "p = (r, e') \<Longrightarrow> hs_looks e0 (snd p) \<Longrightarrow> hs_looks e0 e'"
  by simp

lemmas looksD = looks_pairD [OF _ peek_looks_from] looks_pairD [OF _ char_at_looks_from] looks_pairD [OF _ seq_from_looks_from]
  looks_pairD [OF _ token_from_looks_from]

lemma wp_char_at_from:
  assumes "hs_looks e0 e" and "\<And>b e'. hs_looks e0 e' \<Longrightarrow> P b e'"
  shows "case_prod P (char_at E i c e)"
  using char_at_looks_from [OF assms(1), of i c] assms(2) by (cases "char_at E i c e") simp

lemma runs_take_char_literal: "runs (take_char_literal E e) (\<lambda>(n, e'). hs_looks e e' \<and> 0 < n)"
  unfolding take_char_literal_def runs_prod
  by (intro wp_char_at_from [OF hs_looks_refl])
    (auto split: bool.split prod.splits intro!: runs_weaken [OF runs_advance_until_char] intro: looksD hs_looks_trans)

section \<open>Tokens\<close>

text \<open>\<open>hs_seen e i e'\<close>: the character at index \<open>i\<close> has been looked at.\<close>

definition hs_seen :: "'l hs_env \<Rightarrow> nat \<Rightarrow> 'l hs_env \<Rightarrow> bool" where
  "hs_seen e i e' \<longleftrightarrow> hs_looks e e' \<and> min (offset e + i) (length (hs_view e)) \<le> length (contents e')"

lemma hs_seen_looks: "hs_seen e i e' \<Longrightarrow> hs_looks e e'"
  by (simp add: hs_seen_def)

lemma hs_seen_trans: "hs_seen e i e' \<Longrightarrow> hs_looks e' e'' \<Longrightarrow> hs_seen e i e''"
  by (auto simp: hs_seen_def hs_looks_def)

lemma hs_looks_seen: "hs_looks e e' \<Longrightarrow> hs_seen e' i e'' \<Longrightarrow> hs_seen e i e''"
  by (auto simp: hs_seen_def hs_looks_def)

lemma hs_seen_mono: "hs_seen e i e' \<Longrightarrow> j \<le> i \<Longrightarrow> hs_seen e j e'"
  by (auto simp: hs_seen_def min_def split: if_splits)

lemma wp_peek_seen:
  "hs_looks e0 e \<Longrightarrow> (\<And>e'. hs_seen e0 i e' \<Longrightarrow> P (nth0 (hs_view e0) (offset e0 + i)) e') \<Longrightarrow> case_prod P (peek E i e)"
  by (rule wp_peek) (auto simp: hs_seen_def hs_looks_def)

lemma wp_char_at_seen:
  "hs_looks e0 e \<Longrightarrow> (\<And>e'. hs_seen e0 i e' \<Longrightarrow> P (nth0 (hs_view e0) (offset e0 + i) = c) e') \<Longrightarrow> case_prod P (char_at E i c e)"
  by (rule wp_char_at) (auto simp: hs_seen_def hs_looks_def)

text \<open>A token that starts at the offset has been read beyond its first character.\<close>

definition hs_inside :: "'l hs_env \<Rightarrow> 'l hs_env \<Rightarrow> bool" where
  "hs_inside e e' \<longleftrightarrow> hs_looks e e' \<and> offset e < length (contents e')"

lemma hs_seen_inside: "hs_seen e 1 e' \<Longrightarrow> nth0 (hs_view e) (offset e) \<noteq> 0 \<Longrightarrow> hs_inside e e'"
  using nth0_nonzero [of "hs_view e" "offset e"] by (auto simp: hs_seen_def hs_inside_def)

lemma hs_inside_trans: "hs_inside e e' \<Longrightarrow> hs_looks e' e'' \<Longrightarrow> hs_inside e e''"
  by (auto simp: hs_inside_def hs_looks_def)

lemma runs_cpp_directive:
  "runs (cpp_directive E T e) (\<lambda>(d, e'). hs_seen e 0 e' \<and> (d \<noteq> CppNothing \<longrightarrow> hs_inside e e'))"
  unfolding cpp_directive_def runs_prod
proof (rule wp_char_at_seen [OF hs_looks_refl], goal_cases)
  case (1 e1)
  have "hs_seen e 0 e4 \<and> (d \<noteq> CppNothing \<longrightarrow> hs_inside e e4)"
    if "nth0 (hs_view e) (offset e) = 35" "hs_seen e1 1 e2" "hs_looks e2 e4" for e2 e4 d
  proof -
    have "hs_seen e 1 e4" using hs_seen_trans [OF hs_looks_seen [OF hs_seen_looks [OF 1] that(2)] that(3)] .
    then show ?thesis using that(1) by (auto intro: hs_seen_mono hs_seen_inside)
  qed
  note fin = this
  have "runs (take_space_from E T 1 e1) (\<lambda>(n, e2). hs_seen e1 1 e2)"
    by (rule runs_weaken [OF runs_take_space_from]) (auto simp: hs_seen_def)
  then show ?case
    using 1 fin [OF _ _ looks_pairD [OF _ cpp_kind_looks_from [OF hs_looks_refl]]]
    by (auto split: bool.split elim!: runs_weaken)
qed

lemma seq_from_seen: "fst (seq_from E s i e) \<Longrightarrow> hs_seen e (i + length s) (snd (seq_from E s i e))"
proof (induction s arbitrary: i e)
  case Nil
  then show ?case using peek_looks [of e i] peek_length [of e i] by (simp add: hs_seen_def)
next
  case (Cons c s)
  obtain d e' where p: "peek E i e = (d, e')" by (cases "peek E i e")
  then have "hs_looks e e'" using peek_looks [of e i] by simp
  moreover have "hs_seen e' (i + 1 + length s) (snd (seq_from E s (i + 1) e'))"
    using Cons.IH [of "i + 1" e'] Cons.prems p by (auto split: if_splits)
  ultimately show ?case using Cons.prems p by (auto split: if_splits intro: hs_looks_seen)
qed

lemma runs_only_minus: "runs (only_minus E T e) (\<lambda>(b, e'). hs_looks e e')"
  unfolding only_minus_def
  by (auto split: prod.splits intro!: runs_weaken [OF runs_hs_advance_while] intro: looksD)

lemma runs_line_comment_herald: "runs (line_comment_herald E T e) (\<lambda>(b, e'). hs_looks e e' \<and> (b \<longrightarrow> hs_inside e e'))"
proof -
  obtain b e1 where s: "hs_seq E ''--'' e = (b, e1)" by (cases "hs_seq E ''--'' e") auto
  have l: "hs_looks e e1" using seq_from_looks [of e "''--''" 0] s by simp
  have "hs_inside e e1" if b
  proof (rule hs_seen_inside)
    have "fst (hs_seq E ''--'' e)" using s that by simp
    then show "hs_seen e 1 e1" using seq_from_seen [of "''--''" 0 e] s by (auto intro: hs_seen_mono)
    show "nth0 (hs_view e) (offset e) \<noteq> 0"
      using seq_from_iff [of "''--''" 0 e] s that by (auto simp del: seq_from.simps)
  qed
  then show ?thesis
    unfolding line_comment_herald_def s prod.case
    using l by (auto simp del: seq_from.simps split: bool.split intro!: runs_weaken [OF runs_only_minus] intro: hs_looks_trans hs_inside_trans)
qed

abbreviation hs_extras :: "hs_lexed set" where
  "hs_extras \<equiv> {LPragma, LBlockComment, LLineComment, LCppElse, LCpp}"

lemma runs_lex_cpp:
  "runs (lex_cpp E T e) (\<lambda>(t, e'). hs_seen e 0 e' \<and> t \<in> {LNothing, LCppElse, LCpp} \<and> (t \<noteq> LNothing \<longrightarrow> hs_inside e e'))"
  unfolding lex_cpp_def by (auto intro!: runs_weaken [OF runs_cpp_directive] split: hs_cpp.split)

lemma lex_brace_inside:
  assumes "lex_brace E e = (t, e')" and "nth0 (hs_view e) (offset e) \<noteq> 0"
  shows "hs_looks e e' \<and> t \<in> {LNothing, LPragma, LBlockComment} \<and> (t \<noteq> LNothing \<longrightarrow> hs_inside e e')"
proof -
  have "case_prod (\<lambda>t e'. hs_looks e e' \<and> t \<in> {LNothing, LPragma, LBlockComment} \<and> (t \<noteq> LNothing \<longrightarrow> hs_inside e e')) (lex_brace E e)"
    unfolding lex_brace_def prod.case_distrib [of "case_prod _"] bool.case_distrib [of "case_prod _"] prod.case
  proof (rule wp_char_at_seen [OF hs_looks_refl], goal_cases)
    case (1 e1)
    then have "hs_inside e e1" using hs_seen_inside assms(2) by simp
    then have "hs_inside e e2" if "hs_looks e1 e2" for e2 using that by (rule hs_inside_trans)
    then show ?case
      using hs_seen_looks [OF 1] by (auto simp: hs_inside_def split: bool.split if_splits intro!: wp_char_at_from [OF hs_looks_refl])
  qed
  then show ?thesis using assms(1) by simp
qed

lemma runs_lex_extras:
  "runs (lex_extras E T bol e) (\<lambda>(t, e'). hs_seen e 0 e' \<and> t \<in> insert LNothing hs_extras \<and> (t \<noteq> LNothing \<longrightarrow> hs_inside e e'))"
  unfolding lex_extras_def runs_prod
proof (rule wp_peek_seen [OF hs_looks_refl], goal_cases)
  case (1 e1)
  have l1: "hs_looks e e1" using 1 by (rule hs_seen_looks)
  have v: "hs_view e1 = hs_view e" "offset e1 = offset e" using l1 by (simp_all add: hs_looks_def)
  have inside: "hs_inside e e2" if "hs_inside e1 e2" for e2
    using that l1 by (auto simp: hs_inside_def hs_looks_def)
  have seen: "hs_seen e 0 e2" if "hs_looks e1 e2" for e2 using 1 that by (rule hs_seen_trans)
  have comment: "runs (line_comment_herald E T e1) (\<lambda>(b, e2). hs_seen e 0 e2 \<and> (b \<longrightarrow> hs_inside e e2))"
    by (rule runs_weaken [OF runs_line_comment_herald]) (auto intro: seen inside)
  have cpp: "runs (lex_cpp E T e1) (\<lambda>(t, e2). hs_seen e 0 e2 \<and> t \<in> insert LNothing hs_extras \<and> (t \<noteq> LNothing \<longrightarrow> hs_inside e e2))"
    by (rule runs_weaken [OF runs_lex_cpp]) (auto intro: seen inside dest: hs_seen_looks)
  show ?case
    using cpp comment seen [OF hs_looks_refl] lex_brace_inside [of e1] seen inside v
    by (auto split: prod.split if_splits elim!: runs_weaken)
qed

section \<open>The lexer\<close>

lemma fst_case: "(\<And>r e'. fst (f r e') \<in> S) \<Longrightarrow> fst (case_prod f p) \<in> S"
  by (cases p) simp

definition symop_tokens :: "hs_lexed set" where
  "symop_tokens = {LNothing, LSymop, LSymopSpecial, LUnboxedClose, LHash, LQuoteClose, LBar, LBang, LTilde, LAt, LPercent,
     LDollar, LDotId, LDotOpen, LDotDot, LDotSymop, LArrow, LCArrow, LTexpCloser}"

lemma symop_token_members [simp]:
  "LNothing \<in> symop_tokens" "LSymop \<in> symop_tokens" "LSymopSpecial \<in> symop_tokens" "LUnboxedClose \<in> symop_tokens" "LHash \<in> symop_tokens"
  "LQuoteClose \<in> symop_tokens" "LBar \<in> symop_tokens" "LBang \<in> symop_tokens" "LTilde \<in> symop_tokens" "LAt \<in> symop_tokens"
  "LPercent \<in> symop_tokens" "LDollar \<in> symop_tokens" "LDotId \<in> symop_tokens" "LDotOpen \<in> symop_tokens" "LDotDot \<in> symop_tokens"
  "LDotSymop \<in> symop_tokens" "LArrow \<in> symop_tokens" "LCArrow \<in> symop_tokens" "LTexpCloser \<in> symop_tokens"
  by (simp_all add: symop_tokens_def)

lemma lex_prefix_tokens: "t \<in> symop_tokens \<Longrightarrow> fst (lex_prefix E T t e) \<in> symop_tokens"
  unfolding lex_prefix_def by (rule fst_case) simp

lemma lex_symop_tokens:
  "fst (lex_symop_1 E T e) \<in> symop_tokens" "fst (lex_symop_2 E T e) \<in> symop_tokens" "fst (lex_symop_3 E e) \<in> symop_tokens"
  unfolding lex_symop_1_def lex_symop_2_def lex_symop_3_def Let_def lex_splice_def
  by (simp_all del: seq_from.simps add: lex_prefix_tokens fst_case split: bool.split)

lemma runs_lex_symop:
  "runs (lex_symop E T e) (\<lambda>(t, e'). hs_looks e e' \<and> t \<in> symop_tokens \<and> (t \<noteq> LNothing \<longrightarrow> 0 < symop e'))"
proof -
  let ?Q = "\<lambda>(t, e'). hs_looks e e' \<and> t \<in> symop_tokens \<and> (t \<noteq> LNothing \<longrightarrow> 0 < symop e')"
  have fin: "?Q p" if "hs_looks e e1" "0 < symop e1" "fst p \<in> symop_tokens" "hs_looks e1 (snd p)" for e1 p
    using that by (cases p) (auto simp: hs_looks_def)
  note toks = lex_symop_looks_from [OF hs_looks_refl] lex_symop_tokens
  have "?Q (if symop e1 = 0 then (LNothing, e1) else if symop e1 = 1 then lex_symop_1 E T e1
      else if symop e1 = 2 then lex_symop_2 E T e1 else lex_symop_3 E e1)" if "hs_looks e e1" for e1
  proof (cases "symop e1 = 0")
    case False
    then have "0 < symop e1" by simp
    note fin = fin [OF that this]
    show ?thesis
      unfolding if_not_P [OF False] by (intro fin) (simp_all only: toks if_distrib [of fst] if_distrib [of snd] if_cancel split: if_split, blast+)
  qed (use that in simp)
  then show ?thesis
    unfolding lex_symop_def runs_bind by (intro runs_weaken [OF runs_symop_lookahead]) (clarsimp simp only: runs_Some prod.case)
qed

abbreviation char_tokens :: "hs_lexed set" where
  "char_tokens \<equiv> {LNothing, LWhere, LIn, LThen, LElse, LDeriving, LModule, LBraceOpen, LBraceClose, LSemi, LTick, LBracketOpen,
     LTexpCloser, LUpper}"

lemma runs_lex_char:
  "runs (lex_char E T c e) (\<lambda>(t, e'). hs_looks e e' \<and> t \<in> char_tokens \<and> (t = LUpper \<longrightarrow> is_conid_start_char T c)
     \<and> (t = LBracketOpen \<longrightarrow> symbols e QQ_START))"
proof -
  define Q where "Q = (\<lambda>(t, e'). hs_looks e e' \<and> t \<in> char_tokens \<and> (t = LUpper \<longrightarrow> is_conid_start_char T c)
     \<and> (t = LBracketOpen \<longrightarrow> symbols e QQ_START))"
  have pair: "Q (t, e') \<longleftrightarrow> hs_looks e e' \<and> t \<in> char_tokens \<and> (t = LUpper \<longrightarrow> is_conid_start_char T c)
     \<and> (t = LBracketOpen \<longrightarrow> symbols e QQ_START)" for t e' by (simp add: Q_def)
  have tok: "Q (try_end_token E T s m e)" if "m \<in> char_tokens - {LUpper, LBracketOpen}" for s m
    using try_end_token_looks_from [OF hs_looks_refl, of e T s m] that
    by (cases "hs_token E T s e") (auto simp: try_end_token_def pair)
  have qq: "runs (is_qq_start E T e) (\<lambda>(b, e'). hs_looks e e')"
    unfolding is_qq_start_def
    by (auto split: prod.splits intro!: runs_weaken [OF runs_hs_advance_while] intro: looksD(2))
  have "runs (do { (b, e) \<leftarrow> is_qq_start E T e; Some (if b then LBracketOpen else LNothing, e) }) Q" if "symbols e QQ_START"
    using that by (auto simp: pair split: if_splits intro!: runs_weaken [OF qq])
  then have "runs (lex_char E T c e) Q"
    unfolding lex_char_def by (intro runs_ifI) (simp_all add: tok pair del: runs_bind)
  then show ?thesis by (simp add: Q_def)
qed

text \<open>What \<open>lex\<close> says of the token ahead.\<close>

definition hs_lexed_ok :: "hs_tables \<Rightarrow> 'l hs_env \<Rightarrow> hs_lexed \<Rightarrow> 'l hs_env \<Rightarrow> bool" where
  "hs_lexed_ok T e t e' \<longleftrightarrow> hs_seen e 0 e' \<and> t \<noteq> LEof \<and> (t \<in> hs_extras \<longrightarrow> hs_inside e e')
     \<and> (t \<in> {LSymop, LSymopSpecial} \<longrightarrow> 0 < symop e') \<and> (t = LUpper \<longrightarrow> is_conid_start_char T (nth0 (hs_view e) (offset e)))
     \<and> (t = LBracketOpen \<longrightarrow> symbols e QQ_START)"

lemma runs_lex: "runs (lex E T bol e) (\<lambda>(t, e'). hs_lexed_ok T e t e')"
  unfolding lex_def runs_bind
proof (rule runs_weaken [OF runs_lex_extras], clarify, goal_cases)
  case (1 t e1)
  have l: "hs_looks e e1" using 1(1) by (rule hs_seen_looks)
  show ?case
  proof (cases "t = LNothing")
    case True
    then have t: "\<not> t \<noteq> LNothing" by simp
    show ?thesis
      unfolding if_not_P [OF t] runs_prod
    proof (rule wp_peek_seen [OF l], goal_cases)
      case (1 e2)
      have s: "hs_seen e 0 e3" if "hs_looks e2 e3" for e3
        using hs_seen_trans [OF 1 that] by (rule hs_seen_mono) simp
      have y: "symbols e2 = symbols e" using hs_seen_looks [OF 1] by (simp add: hs_looks_def)
      show ?case
        by (rule runs_ifI; rule runs_weaken, rule runs_lex_symop runs_lex_char)
          (use s y in \<open>auto simp: hs_lexed_ok_def symop_tokens_def\<close>)
    qed
  qed (use 1 in \<open>auto simp: hs_lexed_ok_def\<close>)
qed

end

end
