(* ===== verification/Haskell_Scan.thy ===== *)
theory Haskell_Scan
  imports Haskell_Lex
begin

text \<open>
  What a scan of the Haskell scanner does: the loops over comments, pragmas, newlines and
  constraints end, and the symbol that is reported tells how the stack of layout contexts has
  changed.
\<close>

text \<open>The newline flags that looking for the next token keeps or sets.\<close>

definition same_newline :: "hs_newline \<Rightarrow> hs_newline \<Rightarrow> bool" where
  "same_newline nl nl' \<longleftrightarrow> nl_state nl' = nl_state nl \<and> nl_eof nl' = nl_eof nl \<and> nl_skip_semi nl' = nl_skip_semi nl
     \<and> (nl_no_semi nl \<longrightarrow> nl_no_semi nl') \<and> (nl_unsafe nl \<longrightarrow> nl_unsafe nl')"

lemma same_newline_updates [simp]:
  assumes "same_newline nl n"
  shows "same_newline nl n" "same_newline nl (n\<lparr>nl_indent := i\<rparr>)" "same_newline nl (n\<lparr>nl_end := t\<rparr>)" "same_newline nl (n\<lparr>nl_no_semi := True\<rparr>)"
    "same_newline nl (n\<lparr>nl_end := t, nl_unsafe := nl_unsafe n \<or> b\<rparr>)"
  using assms by (auto simp: same_newline_def)

context ts_lexer
begin

section \<open>Extras\<close>

lemma hs_looks_mark [simp]: "hs_looks e (hs_mark E e)"
  by (simp add: hs_looks_def hs_mark_def hs_view_def)

lemma hs_mark_simps [simp]:
  "contexts (hs_mark E e) = contexts e" "newline (hs_mark E e) = newline e" "symbols (hs_mark E e) = symbols e"
  "contents (hs_mark E e) = contents e" "to_read (hs_mark E e) = to_read e"
  by (simp_all add: hs_mark_def)

lemma hs_frame_reset [simp]: "hs_frame e (reset_lookahead e') \<longleftrightarrow> hs_frame e e'"
  by (simp add: hs_frame_def)

lemma hs_frame_looks: "hs_frame e e' \<Longrightarrow> hs_looks e' e'' \<Longrightarrow> hs_frame e e''"
  using hs_looks_frame by (blast intro: hs_frame_trans)

lemma hs_frame_le: "hs_frame e e' \<Longrightarrow> to_read e' \<le> to_read e"
  by (simp add: hs_frame_def)

lemma hs_looks_le: "hs_looks e e' \<Longrightarrow> to_read e' \<le> to_read e"
  by (rule hs_frame_le [OF hs_looks_frame])

lemma ahead_reset [simp]: "length (ahead (reset_lookahead e)) = to_read e"
  by (simp add: length_view)

lemma hs_inside_reset_less: "hs_inside (reset_lookahead e) e' \<Longrightarrow> to_read e' < to_read e"
  using length_view [of e] length_view [of e'] by (auto simp: hs_inside_def hs_looks_def)

lemma hs_inside_less: "hs_inside e e' \<Longrightarrow> to_read e' < length (ahead e)"
  using length_view [of e'] by (auto simp: hs_inside_def hs_looks_def)

lemma hs_seen_le: "hs_seen e 0 e' \<Longrightarrow> to_read e' \<le> length (ahead e)"
  using length_view [of e'] by (auto simp: hs_seen_def hs_looks_def min_def split: if_splits)

lemma runs_comment_type: "runs (comment_type E T e) (\<lambda>(s, e'). hs_looks e e' \<and> s \<in> {COMMENT, HADDOCK})"
proof -
  have "runs (c_loop (comment_type_step E T) (i, e1)) (\<lambda>(s, e'). hs_looks e e' \<and> s \<in> {COMMENT, HADDOCK})"
    if "hs_looks e e1" for i e1
  proof (rule runs_c_loop [where m = "\<lambda>(i, e'). length (hs_view e) - (offset e + i)" and I = "\<lambda>(i, e'). hs_looks e e'"], goal_cases)
    case (2 x)
    then obtain j e2 where x: "x = (j, e2)" and l: "hs_looks e e2" by (cases x) auto
    obtain c e3 where p: "peek E j e2 = (c, e3)" by (cases "peek E j e2")
    have l3: "hs_looks e e3" using looksD(1) [OF p l] .
    have "offset e + j < length (hs_view e)" if "is_space_char T c"
    proof (rule nth0_nonzero)
      have "c = nth0 (hs_view e) (offset e + j)" using peek_value [of j e2] p l by (simp add: hs_looks_def)
      then show "nth0 (hs_view e) (offset e + j) \<noteq> 0" using that by (auto dest: hs_class_low(5))
    qed
    with x l l3 p show ?case by (auto simp: comment_type_step_def)
  qed (use that in simp)
  then show ?thesis
    unfolding comment_type_def by (auto intro!: runs_weaken [OF runs_hs_advance_while])
qed

lemma runs_inline_comment: "runs (inline_comment E T e) (\<lambda>(s, e'). hs_frame e e' \<and> s \<in> {COMMENT, HADDOCK})"
proof -
  have "runs (c_loop (inline_comment_step E T) e1) (hs_frame e)" if "hs_frame e e1" for e1
  proof (rule runs_c_loop [where m = to_read and I = "hs_frame e"], goal_cases)
    case (2 e2)
    show ?case
      unfolding inline_comment_step_def runs_bind
    proof (rule runs_weaken [OF runs_take_line], rule runs_weaken [OF runs_line_comment_herald], clarify, goal_cases)
      case (1 e3 b e4)
      let ?e = "hs_advance E (hs_mark E e3)"
      have l: "hs_looks e2 ?e" using 1(1) by (blast intro: hs_looks_trans hs_looks_mark hs_looks_advance)
      have "hs_frame e (reset_lookahead ?e)" using hs_frame_looks [OF 2 l] by simp
      then have "hs_frame e e4" using 1(3) by (rule hs_frame_looks)
      moreover have "to_read e4 < to_read e2" if b
        using hs_inside_reset_less [of ?e e4] that 1(4) hs_looks_le [OF l] by simp
      ultimately show ?case by simp
    qed
  qed (use that in simp)
  then show ?thesis
    unfolding inline_comment_def by (auto intro!: runs_weaken [OF runs_comment_type] dest!: hs_looks_frame intro: runs_weaken)
qed

lemma runs_consume_block_comment: "runs (consume_block_comment E col e) (\<lambda>(n, e'). hs_looks e e')"
  unfolding consume_block_comment_def
proof (rule runs_c_loop [where m = "\<lambda>(c, k, e'). to_read e'" and I = "\<lambda>(c, k, e'). hs_looks e e'"], goal_cases)
  case (2 x)
  then obtain c k e1 where x: "x = (c, k, e1)" and l: "hs_looks e e1" by (cases x) auto
  let ?e = "hs_advance E e1"
  have l1: "hs_looks e ?e" "hs_looks e (hs_advance E ?e)" using l by (blast intro: hs_looks_trans hs_looks_advance)+
  have "to_read ?e < to_read e1 \<and> to_read (hs_advance E ?e) < to_read e1" if "rest (raw (lexer e1)) \<noteq> []"
    using that by (auto simp: to_read_advance)
  with x l l1 show ?case by (auto simp: block_comment_step_def Let_def)
qed simp

lemma runs_block_comment: "runs (block_comment E T e) (\<lambda>(s, e'). hs_frame e e' \<and> s \<in> {COMMENT, HADDOCK})"
  unfolding block_comment_def
  by (auto intro!: runs_weaken [OF runs_comment_type] runs_weaken [OF runs_consume_block_comment]
      intro: hs_looks_frame hs_looks_trans hs_looks_mark)

lemma hs_steps_le: "hs_steps e e' \<Longrightarrow> to_read e' \<le> to_read e"
  by (simp add: hs_steps_def hs_frame_def)

lemma hs_steps_reset: "hs_steps e e' \<Longrightarrow> to_read e' \<le> length (ahead e') \<Longrightarrow> hs_steps e (reset_lookahead e')"
  by (auto simp: hs_steps_def length_view)

lemma advance_over_reset: "to_read (advance_over E 0 (reset_lookahead e)) = to_read e - 1"
  by (simp add: advance_over_def advance_over_abs_def to_read_advance)

lemma runs_consume_pragma: "runs (consume_pragma E e) (\<lambda>(b, e'). hs_steps e e')"
proof -
  have "runs (c_loop (\<lambda>e. case hs_seq E ''#-}'' e of (b, e) \<Rightarrow>
         Some (if \<not> b \<and> \<not> hs_eof E e then Next (advance_over E 0 (reset_lookahead e)) else Return e)) e1) (hs_steps e)"
    if "hs_steps e e1" for e1
  proof (rule runs_c_loop [where m = to_read and I = "hs_steps e"], goal_cases)
    case (2 e2)
    obtain b e3 where s: "hs_seq E ''#-}'' e2 = (b, e3)" by (cases "hs_seq E ''#-}'' e2") auto
    have l: "hs_looks e2 e3" using looksD(3) [OF s hs_looks_refl] .
    have "hs_seen e2 0 e3"
    proof -
      obtain c e' where p: "peek E 0 e2 = (c, e')" by (cases "peek E 0 e2")
      have "hs_seen e2 0 e'" using peek_looks [of e2 0] peek_length [of e2 0] p by (simp add: hs_seen_def)
      moreover have "hs_looks e' e3"
        using s p seq_from_looks_from [OF hs_looks_refl, of e' "''-}''" 1] by (auto split: if_splits)
      ultimately show ?thesis by (rule hs_seen_trans)
    qed
    then have "to_read e3 \<le> length (ahead e2)" by (rule hs_seen_le)
    then have s3: "hs_steps e (reset_lookahead e3)"
      using 2 l hs_steps_trans [OF 2 hs_looks_steps [OF l]] by (intro hs_steps_reset) (auto simp: hs_looks_def)
    let ?e = "advance_over E 0 (reset_lookahead e3)"
    have "hs_steps e ?e" by (rule hs_steps_trans [OF s3 hs_looks_steps]) simp
    moreover have "to_read ?e < to_read e2" if "rest (raw (lexer e3)) \<noteq> []"
    proof -
      have "0 < to_read e3" using that by simp
      then show ?thesis using hs_looks_le [OF l] by (simp only: advance_over_reset)
    qed
    moreover have "hs_steps e e3" by (rule hs_steps_trans [OF 2 hs_looks_steps [OF l]])
    ultimately show ?case by (simp add: s del: seq_from.simps)
  qed (use that in simp)
  note loop = this
  obtain b e1 where s: "hs_seq E ''{-#'' e = (b, e1)" by (cases "hs_seq E ''{-#'' e") auto
  have "hs_steps e e1" by (rule hs_looks_steps [OF looksD(3) [OF s hs_looks_refl]])
  with loop show ?thesis
    unfolding consume_pragma_def s by (auto split: bool.split elim!: runs_weaken simp del: seq_from.simps)
qed

lemma runs_qq_body: "runs (qq_body E e) (\<lambda>(s, e'). hs_frame e e' \<and> s = QQ_BODY)"
  unfolding qq_body_def
proof (rule runs_c_loop [where m = to_read and I = "hs_looks e"], goal_cases)
  case (2 e1)
  have l: "hs_looks e (hs_mark E e1)" "hs_looks e (hs_advance E (hs_mark E e1))" "hs_looks e (hs_advance E e1)"
    using 2 by (blast intro: hs_looks_trans hs_looks_advance hs_looks_mark)+
  have "to_read (hs_advance E (hs_mark E e1)) < to_read e1 \<and> to_read (hs_advance E e1) < to_read e1" if "rest (raw (lexer e1)) \<noteq> []"
    using that by (auto simp: to_read_advance)
  with l 2 show ?case by (auto simp: Let_def intro: hs_looks_frame)
qed simp

lemma runs_cpp_else: "runs (cpp_else E T emit e) (\<lambda>(s, e'). hs_frame e e' \<and> s = (if emit then CPP else FAIL))"
proof -
  have "runs (c_loop (cpp_else_step E T emit) (1, e)) (hs_frame e)"
  proof (rule runs_c_loop [where m = "\<lambda>(n, e'). to_read e'" and I = "\<lambda>(n, e'). hs_frame e e'"], goal_cases)
    case (2 x)
    then obtain n e1 where x: "x = (n, e1)" and I: "hs_frame e e1" by (cases x) auto
    show ?case
      unfolding x cpp_else_step_def prod.case runs_bind
    proof (rule runs_weaken [OF runs_take_line_escaped], rule runs_weaken [OF runs_cpp_directive], clarify, goal_cases)
      case (1 e2 d e3)
      let ?e = "hs_advance E (if emit then hs_mark E e2 else e2)"
      have l: "hs_looks e1 ?e" using 1(1) by (auto intro: hs_looks_trans [OF _ hs_looks_advance] hs_looks_trans [OF _ hs_looks_mark])
      have l3: "hs_looks (reset_lookahead ?e) e3" using 1(2) by (rule hs_seen_looks)
      have "hs_frame e e3" using hs_frame_looks [OF _ l3] hs_frame_looks [OF I l] by simp
      moreover have "to_read e3 < to_read e1" if "rest (raw (lexer e3)) \<noteq> []"
      proof -
        have "to_read e3 \<le> to_read ?e" using hs_looks_le [OF l3] by simp
        moreover have "to_read ?e = to_read e2 - 1" by (auto simp: to_read_advance)
        moreover have "0 < to_read e3" using that by simp
        ultimately show ?thesis using hs_looks_le [OF 1(1)] by linarith
      qed
      ultimately show ?case by (auto simp: Let_def)
    qed
  qed simp
  then show ?thesis unfolding cpp_else_def by (auto elim!: runs_weaken)
qed

lemma runs_cpp_line: "runs (cpp_line E e) (\<lambda>(s, e'). hs_frame e e' \<and> s = CPP)"
  unfolding cpp_line_def by (auto intro!: runs_weaken [OF runs_take_line_escaped] intro: hs_looks_frame hs_looks_trans hs_looks_mark)

section \<open>Newlines\<close>

lemma hs_frame_skips: "hs_frame e e' \<Longrightarrow> hs_skips e' e'' \<Longrightarrow> hs_frame e e''"
  using hs_skips_steps hs_steps_frame by (blast intro: hs_frame_trans)

lemma hs_looks_inside: "hs_looks e e' \<Longrightarrow> hs_inside e' e'' \<Longrightarrow> hs_inside e e''"
  by (auto simp: hs_inside_def hs_looks_def)

lemma hs_inside_frame_reset:
  assumes "hs_inside e e1" and "hs_frame e1 e2"
  shows "hs_steps e (reset_lookahead e2) \<and> length (ahead (reset_lookahead e2)) < length (ahead e)"
proof -
  have "to_read e2 < length (ahead e)" using hs_inside_less [OF assms(1)] hs_frame_le [OF assms(2)] by linarith
  moreover have "hs_frame e e2" using assms by (auto simp: hs_inside_def intro: hs_frame_trans hs_looks_frame)
  ultimately show ?thesis unfolding hs_steps_def ahead_reset by simp
qed

lemma skip_over_reset:
  assumes "hs_seen e 0 e1" and "nth0 (hs_view e) (offset e) \<noteq> 0"
  shows "hs_steps e (reset_lookahead (skip_over E 0 e1)) \<and> length (ahead (reset_lookahead (skip_over E 0 e1))) < length (ahead e)"
proof -
  have l: "hs_looks e e1" using assms(1) by (rule hs_seen_looks)
  then have v: "hs_view e1 = hs_view e" "offset e1 = offset e" by (simp_all add: hs_looks_def)
  have o: "offset e < length (hs_view e)" using assms(2) by (rule nth0_nonzero)
  then have "offset e \<le> length (contents e1)" using assms(1) by (simp add: hs_seen_def)
  then have "skip_over E 0 e1 = (if offset e = length (contents e1) then hs_skip E e1 else e1)"
    using v by (simp add: skip_over_def Let_def)
  moreover have "to_read e1 \<le> length (ahead e)" using assms(1) by (rule hs_seen_le)
  moreover have "to_read e1 = length (hs_view e) - length (contents e1)" using length_view [of e1] v by simp
  ultimately have "to_read (skip_over E 0 e1) < length (ahead e)" using o \<open>offset e \<le> length (contents e1)\<close> by auto
  moreover have "hs_skips e1 (skip_over E 0 e1)"
    using \<open>skip_over E 0 e1 = _\<close> by simp
  then have "hs_frame e (skip_over E 0 e1)" using hs_looks_frame [OF l] by (rule hs_frame_skips [rotated])
  ultimately show ?thesis unfolding hs_steps_def ahead_reset by simp
qed

text \<open>What \<open>newline_lookahead\<close> says of the token behind the white space and the comments.\<close>

definition hs_token_ahead :: "hs_tables \<Rightarrow> hs_lexed \<Rightarrow> 'l hs_env \<Rightarrow> bool" where
  "hs_token_ahead T t e \<longleftrightarrow> t \<notin> {LEof, LBlockComment, LLineComment, LCppElse, LCpp}
     \<and> (t \<in> {LSymop, LSymopSpecial} \<longrightarrow> 0 < symop e) \<and> (t = LUpper \<longrightarrow> is_conid_start_char T (nth0 (hs_view e) (offset e)))"

text \<open>The part of the loop behind the call of \<open>lex\<close>.\<close>

lemma runs_newline_token:
  assumes t: "hs_lexed_ok T e t e1" and n: "same_newline nl n"
    and stop: "\<And>n'. same_newline nl n' \<Longrightarrow> nl_end n' = nl_end n \<Longrightarrow> t \<notin> {LBlockComment, LLineComment, LCppElse, LCpp} \<Longrightarrow> Q (Return (n', e1))"
    and step: "\<And>n' e2. same_newline nl n' \<Longrightarrow> t \<in> hs_extras \<Longrightarrow> hs_frame e1 e2 \<Longrightarrow> Q (Next (n', reset_lookahead e2))"
  shows "runs (newline_token E T t n e1) Q"
  unfolding newline_token_def
proof (intro runs_ifI)
  assume "t = LEof"
  then show "runs (Some (Return (n\<lparr>nl_indent := 0, nl_eof := True\<rparr>, e1))) Q" using t by (simp add: hs_lexed_ok_def)
next
  assume "t = LBlockComment"
  then show "runs (do { (i, e) \<leftarrow> consume_block_comment E (nl_indent n + 2) e1; Some (Next (n\<lparr>nl_indent := i\<rparr>, reset_lookahead e)) }) Q"
    using n by (auto intro!: runs_weaken [OF runs_consume_block_comment] step dest: hs_looks_frame)
next
  assume "t = LLineComment"
  then show "runs (do { e \<leftarrow> take_line E e1; Some (Next (n\<lparr>nl_indent := 0\<rparr>, reset_lookahead e)) }) Q"
    using n by (auto intro!: runs_weaken [OF runs_take_line] step dest: hs_looks_frame)
next
  assume "t = LCppElse"
  then show "runs (do { (r, e) \<leftarrow> cpp_else E T False e1; e \<leftarrow> take_line_escaped_newline E e; Some (Next (n, reset_lookahead e)) }) Q"
    using n by (auto intro!: runs_weaken [OF runs_cpp_else] runs_weaken [OF runs_take_line_escaped] step intro: hs_frame_looks)
next
  assume "t = LCpp"
  then show "runs (do { e \<leftarrow> take_line_escaped_newline E e1; Some (Next (n, reset_lookahead e)) }) Q"
    using n by (auto intro!: runs_weaken [OF runs_take_line_escaped] step dest: hs_looks_frame)
qed (use n in \<open>auto intro!: stop\<close>)

lemma runs_newline_lookahead:
  "runs (newline_lookahead E T nl e) (\<lambda>(nl', e'). hs_steps e e' \<and> to_read e' \<le> length (ahead e) \<and> same_newline nl nl' \<and> hs_token_ahead T (nl_end nl') e')"
  unfolding newline_lookahead_def
proof (rule runs_c_loop [where m = "\<lambda>(n, e'). length (ahead e')" and I = "\<lambda>(n, e'). hs_steps e e' \<and> same_newline nl n"], goal_cases)
  case (2 x)
  then obtain n e1 where x: "x = (n, e1)" and s: "hs_steps e e1" and n: "same_newline nl n" by (cases x) auto
  let ?c = "nth0 (hs_view e1) (offset e1)"
  show ?case
    unfolding x newline_lookahead_step_def prod.case runs_prod
  proof (rule wp_peek_seen [OF hs_looks_refl], simp only: add_0_right, goal_cases)
    case (1 e2)
    have l2: "hs_looks e1 e2" using 1 by (rule hs_seen_looks)
    have skip: "hs_steps e (reset_lookahead (skip_over E 0 e2))" "length (ahead (reset_lookahead (skip_over E 0 e2))) < length (ahead e1)"
      if "is_newline ?c \<or> ?c = 9 \<or> is_space_char T ?c"
    proof -
      have "?c \<noteq> 0" using that by (auto simp: is_newline_def dest: hs_class_low(5))
      then show "hs_steps e (reset_lookahead (skip_over E 0 e2))" "length (ahead (reset_lookahead (skip_over E 0 e2))) < length (ahead e1)"
        using skip_over_reset [OF 1] s by (blast intro: hs_steps_trans)+
    qed
    have comment: "hs_steps e (reset_lookahead e4)" "length (ahead (reset_lookahead e4)) < length (ahead e1)"
      if "hs_lexed_ok T e2 t e3" "t \<in> hs_extras" "hs_frame e3 e4" for t e3 e4
    proof -
      have "hs_inside e2 e3" using that(1,2) unfolding hs_lexed_ok_def by blast
      with l2 have "hs_inside e1 e3" by (rule hs_looks_inside)
      then show "hs_steps e (reset_lookahead e4)" "length (ahead (reset_lookahead e4)) < length (ahead e1)"
        using hs_inside_frame_reset [OF _ that(3)] s by (blast intro: hs_steps_trans)+
    qed
    have stop: "hs_steps e e3 \<and> to_read e3 \<le> length (ahead e) \<and> (t \<notin> {LBlockComment, LLineComment, LCppElse, LCpp} \<longrightarrow> hs_token_ahead T t e3)"
      if "hs_lexed_ok T e2 t e3" for t e3
    proof -
      have s3: "hs_seen e2 0 e3" using that unfolding hs_lexed_ok_def by blast
      have l: "hs_looks e1 e3" "hs_seen e1 0 e3"
        using hs_looks_trans [OF l2 hs_seen_looks [OF s3]] hs_looks_seen [OF l2 s3] .
      moreover have "hs_view e3 = hs_view e2" "offset e3 = offset e2" using hs_seen_looks [OF s3] unfolding hs_looks_def by blast+
      moreover have "to_read e3 \<le> length (ahead e)" using hs_seen_le [OF l(2)] s unfolding hs_steps_def by linarith
      moreover have "hs_steps e e3" by (rule hs_steps_trans [OF s hs_looks_steps [OF l(1)]])
      ultimately show ?thesis using that unfolding hs_token_ahead_def hs_lexed_ok_def by simp
    qed
    show ?case
    proof (intro runs_ifI, goal_cases)
      case 4
      show ?case
        unfolding runs_bind
      proof (rule runs_weaken [OF runs_lex], clarify, rule runs_newline_token [where nl = nl], goal_cases)
        case (3 t e3 n')
        then show ?case using stop [OF 3(1)] by simp
      next
        case (4 t e3 n' e4)
        then show ?case using comment [OF 4(1,3,4)] by (simp del: length_drop)
      qed (use n in \<open>simp_all\<close>)
    qed (use skip n in \<open>simp_all del: length_drop\<close>)
  qed
qed (simp add: same_newline_def)

section \<open>Constraints\<close>

lemma looks_from_steps: "hs_steps e0 e \<Longrightarrow> hs_looks e e' \<Longrightarrow> hs_steps e0 e'"
  using hs_looks_steps by (blast intro: hs_steps_trans)

lemma runs_ctr_switch:
  assumes t: "hs_token_ahead T t e"
  shows "runs (ctr_switch E T t s e) (case_flow (\<lambda>(s', e'). hs_steps e e' \<and> 0 < ctr_reset s') (\<lambda>(r, s', e'). hs_steps e e' \<and> 0 < ctr_reset s'))"
proof -
  define Q where "Q = case_flow (\<lambda>(s' :: hs_ctr_state, e'). hs_steps e e' \<and> 0 < ctr_reset s') (\<lambda>(r :: hs_ctr, s' :: hs_ctr_state, e'). hs_steps e e' \<and> 0 < ctr_reset s')"
  have Q: "Q (Next (s', e')) \<longleftrightarrow> hs_steps e e' \<and> 0 < ctr_reset s'" "Q (Return (r, s', e')) \<longleftrightarrow> hs_steps e e' \<and> 0 < ctr_reset s'" for r s' e'
    by (simp_all add: Q_def)
  have brackets: "0 < ctr_reset s' \<Longrightarrow> 0 < ctr_reset (snd (ctr_bracket_close s'))" "0 < ctr_reset (snd (ctr_bracket_open s'))"
    for s' :: hs_ctr_state by (simp_all add: ctr_bracket_close_def ctr_bracket_open_def)
  have ret: "runs (case_prod (\<lambda>r s e. Some (Return (r, s, e))) p e') Q" if "0 < ctr_reset (snd p)" "hs_steps e e'" for p e'
    using that by (cases p) (simp add: Q)
  have other: "runs (case peek E 0 e of (c, e) \<Rightarrow>
           if c = ch CHR '')'' \<or> c = ch CHR '']'' then case_prod (\<lambda>r s e. Some (Return (r, s, e))) (ctr_bracket_close (s\<lparr>ctr_reset := 1\<rparr>)) e
           else if c = ch CHR ''('' \<or> c = ch CHR ''['' then case_prod (\<lambda>r s e. Some (Return (r, s, e))) (ctr_bracket_open (s\<lparr>ctr_reset := 1\<rparr>)) e
           else if c = ch CHR 0x22 then do { (n, e) \<leftarrow> take_string_literal E e; case_prod (\<lambda>r s e. Some (Return (r, s, e))) (CtrUndecided, s\<lparr>ctr_reset := 1, ctr_reset := n\<rparr>) e }
           else if c = ch CHR 0x27 then do { (n, e) \<leftarrow> take_char_literal E e; case_prod (\<lambda>r s e. Some (Return (r, s, e))) (CtrUndecided, s\<lparr>ctr_reset := 1, ctr_reset := n\<rparr>) e }
           else if varid_start_char T c then
             do { (n, e) \<leftarrow> hs_advance_while E 1 (is_id_char T) e; Some (Next (s\<lparr>ctr_reset := 1, ctr_reset := n\<rparr>, e)) }
           else Some (Next (s\<lparr>ctr_reset := 1\<rparr>, e))) Q"
    unfolding runs_prod
  proof (rule wp_peek, goal_cases)
    case (1 e1)
    have l: "hs_steps e e2" if "hs_looks e1 e2" for e2 using looks_from_steps [OF hs_looks_steps [OF 1(1)] that] .
    show ?case
      by (intro runs_ifI; (unfold runs_bind)?)
        (auto simp: Q l intro!: ret brackets runs_weaken [OF runs_take_string_literal] runs_weaken [OF runs_take_char_literal]
          runs_weaken [OF runs_hs_advance_while])
  qed
  have sym: "0 < symop e'" if "t = LSymopSpecial \<or> t = LSymop" "hs_looks e e'" for e'
    using t that by (auto simp: hs_token_ahead_def hs_looks_def)
  have upper: "is_conid_start_char T (nth0 (hs_view e) (offset e))" if "t = LUpper" using t that by (simp add: hs_token_ahead_def)
  have "runs (ctr_switch E T t s e) Q"
    unfolding ctr_switch_def Let_def
  proof (intro runs_ifI, goal_cases)
    case 8
    show ?case by (rule other)
  qed (auto simp: Q ctr_bracket_close_def intro!: ret brackets runs_weaken [OF runs_symop_lookahead] runs_weaken [OF runs_conid]
        runs_weaken [OF runs_consume_pragma] sym hs_looks_steps dest: upper)
  then show ?thesis by (simp add: Q_def)
qed

lemma ctr_stop_looks_from: "hs_looks e0 e \<Longrightarrow> hs_looks e0 (snd (ctr_stop_on_token E T s e))"
  unfolding ctr_stop_on_token_def by (auto intro!: looks_from)

lemma ctr_top_looks_from: "hs_looks e0 e \<Longrightarrow> hs_looks e0 (snd (ctr_top E T t e))"
  unfolding ctr_top_def if_distrib [of snd]
  by (auto simp: ctr_stop_looks_from intro!: looks_from split: if_split)

lemma ctr_result_looks: "hs_looks e (snd (snd (ctr_result E r s e)))"
proof -
  obtain b e1 where c: "char_at E 0 (ch CHR '':'') e = (b, e1)" by (cases "char_at E 0 (ch CHR '':'') e")
  obtain d e2 where d: "char_at E 0 (ch CHR 0x60) e1 = (d, e2)" by (cases "char_at E 0 (ch CHR 0x60) e1")
  have "hs_looks e e1" using looksD(2) [OF c hs_looks_refl] .
  with looksD(2) [OF d this] c d show ?thesis by (cases r) (auto simp: ctr_result_def split: if_split)
qed

lemma ctr_result_reset: "ctr_reset (fst (snd (ctr_result E r s e))) = ctr_reset s"
  unfolding ctr_result_def by (auto split: hs_ctr.split prod.split if_splits)

lemma runs_ctr_lookahead_step:
  assumes t: "hs_token_ahead T t e"
  shows "runs (ctr_lookahead_step E T t s e) (\<lambda>(r, s', e'). hs_steps e e' \<and> 0 < ctr_reset s')"
proof -
  have "hs_steps e e2" if "hs_steps e e1" "ctr_top E T t e1 = (r, e2)" for e1 r e2
    using ctr_top_looks_from [OF hs_looks_refl, of e1 T t] that looks_from_steps by simp
  then show ?thesis
    unfolding ctr_lookahead_step_def by (intro runs_then_return_inv [OF runs_ctr_switch [OF t]]) (auto split: prod.split)
qed

lemma runs_constraint_loop: "runs (c_loop (constraint_step E T) (s, e)) (\<lambda>(s', e'). hs_frame e e')"
proof (rule runs_c_loop [where I = "\<lambda>(s, e'). hs_frame e e'"
      and m = "\<lambda>(s, e'). length (ahead e') + (if rest (raw (lexer e')) = [] then 0 else 1)"], goal_cases)
  case (2 x)
  then obtain s1 e1 where x: "x = (s1, e1)" and f: "hs_frame e e1" by (cases x) auto
  show ?case
  proof (cases "rest (raw (lexer e1)) = []")
    case False
    show ?thesis
      unfolding x constraint_step_def prod.case hs_eof_view if_not_P [OF False] runs_bind
    proof (rule runs_weaken [OF runs_newline_lookahead], clarify, goal_cases)
      case (1 nl e2)
      have f2: "hs_frame e e2" using f hs_steps_frame [OF 1(1)] by (rule hs_frame_trans)
      show ?case
      proof (rule runs_ifI, use f2 in simp, unfold runs_bind, rule runs_weaken [OF runs_ctr_lookahead_step [OF 1(4)]], clarify, goal_cases)
        case (1 r s3 e3)
        obtain stop s4 e4 where res: "ctr_result E r s3 e3 = (stop, s4, e4)" by (cases "ctr_result E r s3 e3")
        have l4: "hs_looks e3 e4" and r4: "0 < ctr_reset s4"
          using ctr_result_looks [of e3 r s3] ctr_result_reset [of r s3 e3] res 1(3) by simp_all
        have s4: "hs_steps e2 e4" using 1(2) l4 by (rule looks_from_steps)
        let ?e = "reset_lookahead_to (ctr_reset s4) e4"
        have "hs_frame e ?e" using hs_frame_trans [OF f2 hs_steps_frame [OF hs_steps_trans [OF s4 hs_steps_reset_to]]] .
        moreover have "length (ahead ?e) + (if rest (raw (lexer ?e)) = [] then 0 else 1) < length (ahead e1) + 1"
        proof (cases "length (ahead e1) = 0")
          case True
          then have "to_read e2 = 0" using \<open>to_read e2 \<le> _\<close> by linarith
          then have "to_read e4 = 0" using hs_steps_le [OF s4] by linarith
          moreover have "length (ahead ?e) = 0" using True s4 \<open>hs_steps e1 e2\<close> by (simp add: hs_steps_def)
          ultimately show ?thesis by simp
        next
          case False
          have "length (ahead ?e) \<le> length (ahead e4) - 1" using r4 by simp
          moreover have "length (ahead e4) \<le> length (ahead e1)" using s4 \<open>hs_steps e1 e2\<close> unfolding hs_steps_def by linarith
          ultimately have "length (ahead ?e) < length (ahead e1)" using False by linarith
          then show ?thesis by (simp del: length_drop)
        qed
        ultimately show ?case using False res by (simp add: Let_def)
      qed
    qed
  qed (use f x in \<open>simp add: constraint_step_def\<close>)
qed simp

text \<open>\<open>hs_reports S e\<close>: the stack is kept and the symbol is \<open>FAIL\<close> or a valid one of \<open>S\<close>.\<close>

definition hs_reports :: "hs_symbol set \<Rightarrow> 'l hs_env \<Rightarrow> hs_symbol \<times> 'l hs_env \<Rightarrow> bool" where
  "hs_reports S e = (\<lambda>(r, e'). hs_frame e e' \<and> (r = FAIL \<or> r \<in> S \<and> symbols e r))"

lemma runs_constraint_lookahead: "runs (constraint_lookahead E T e) (hs_reports {CONTEXT, INFIX, DATA_INFIX, TYPE_INSTANCE} e)"
  unfolding constraint_lookahead_def runs_bind
  by (rule runs_weaken [OF runs_constraint_loop]) (auto simp: hs_reports_def SEQ_def finish_if_valid_def hs_frame_def)

end

end
