(* ===== verification/Haskell_Layout.thy ===== *)
theory Haskell_Layout
  imports Haskell_Scan
begin

text \<open>
  The layout stack of the Haskell scanner. \<open>layout_step r cs cs'\<close> is the abstract specification: the
  stacks that the symbol \<open>r\<close> may lead to from the stack \<open>cs\<close>. The stacks that it reaches are well
  formed, and every scan is one of its steps. The layouts that a newline closes are closed one by
  one, before the semicolon for the line.
\<close>

section \<open>The abstract layout stack\<close>

definition start_sorts :: "hs_symbol \<Rightarrow> hs_sort set" where
  "start_sorts r =
     (if r = START_EXPLICIT then {Braces, DeclLayout}
      else if r \<in> {START, START_DO, START_CASE, START_IF, START_LET, START_QUOTE} then {layout_sort r}
      else {})"

text \<open>A layout is deeper than the layout around it; a \<^verbatim>\<open>do\<close> may be as deep. In braces any column will do.\<close>

definition can_start :: "hs_context list \<Rightarrow> hs_sort \<Rightarrow> 32 word \<Rightarrow> bool" where
  "can_start cs s n \<longleftrightarrow> s = Braces \<or> cs = [] \<or> current_sort cs = Braces \<or> find_indent (rev cs) < n
     \<or> find_indent (rev cs) = n \<and> s = DoLayout"

abbreviation moving :: "hs_symbol set" where
  "moving \<equiv> {START, START_DO, START_CASE, START_IF, START_LET, START_QUOTE, START_EXPLICIT, END, END_EXPLICIT,
     START_BRACE, END_BRACE, START_TEXP, END_TEXP}"

inductive layout_step :: "hs_symbol \<Rightarrow> hs_context list \<Rightarrow> hs_context list \<Rightarrow> bool" where
  l_keep: "r \<notin> moving \<Longrightarrow> layout_step r cs cs"
| l_texp: "layout_step START_TEXP cs (cs @ [\<lparr>sort = TExp, indent = 0\<rparr>])"
| l_brace: "layout_step START_BRACE cs (cs @ [\<lparr>sort = Braces, indent = 0\<rparr>])"
| l_start: "s \<in> start_sorts r \<Longrightarrow> current_sort cs \<noteq> ModuleHeader \<Longrightarrow> can_start cs s n \<Longrightarrow>
    layout_step r cs (cs @ [\<lparr>sort = s, indent = n\<rparr>])"
| l_module: "s \<in> start_sorts r \<Longrightarrow> sort c = ModuleHeader \<Longrightarrow> layout_step r (cs @ [c]) (cs @ [\<lparr>sort = s, indent = n\<rparr>])"
| l_end: "layout_step END cs (butlast cs)"
| l_explicit: "sort c = Braces \<Longrightarrow> layout_step END_EXPLICIT (cs @ [c]) cs"
| l_close: "r \<in> {END_TEXP, END_BRACE} \<Longrightarrow> context_end_sym (sort c) = r \<Longrightarrow> layout_step r (cs @ c # ds) cs"
| l_header: "layout_step UPDATE [] [\<lparr>sort = ModuleHeader, indent = 0\<rparr>]"
| l_dedent: "sort c < Braces \<Longrightarrow> n < indent c \<Longrightarrow> layout_step UPDATE [c] [c\<lparr>indent := n\<rparr>]"
| l_abandon: "layout_step FAIL cs []"

text \<open>The stack from the top down: the layouts of a nest get deeper.\<close>

fun nested :: "hs_context list \<Rightarrow> bool" where
  "nested [] = True"
| "nested (c # cs) = (nested cs \<and> (sort c < Braces \<longrightarrow> can_start (rev cs) (sort c) (indent c)))"

definition hs_wf :: "hs_context list \<Rightarrow> bool" where
  "hs_wf cs \<longleftrightarrow> nested (rev cs) \<and> NoContext \<notin> sort ` set cs \<and> ModuleHeader \<notin> sort ` set (tl cs)"

lemma nested_append: "nested (xs @ ys) \<Longrightarrow> nested ys"
  by (induction xs) auto

lemma sort_less_Braces: "s < Braces \<longleftrightarrow> s \<in> {DeclLayout, DoLayout, CaseLayout, LetLayout, QuoteLayout, MultiWayIfLayout}"
  by (cases s) (simp_all add: less_hs_sort_def)

lemma start_sorts_real: "s \<in> start_sorts r \<Longrightarrow> s \<noteq> NoContext \<and> s \<noteq> ModuleHeader \<and> s \<noteq> TExp"
  by (auto simp: start_sorts_def layout_sort_def split: if_splits)

lemma tl_append_subset: "set (tl cs) \<subseteq> set (tl (cs @ ds))"
  by (cases cs) auto

lemma hs_wf_prefix: "hs_wf (cs @ ds) \<Longrightarrow> hs_wf cs"
  unfolding hs_wf_def using tl_append_subset [of cs ds] nested_append [of "rev ds" "rev cs"] by auto

lemma hs_wf_snoc:
  assumes "hs_wf cs" and "s \<noteq> NoContext" and "s \<noteq> ModuleHeader" and "s < Braces \<longrightarrow> can_start cs s n"
  shows "hs_wf (cs @ [\<lparr>sort = s, indent = n\<rparr>])"
  using assms by (cases cs) (auto simp: hs_wf_def)

theorem layout_step_wf: "layout_step r cs cs' \<Longrightarrow> hs_wf cs \<Longrightarrow> hs_wf cs'"
proof (induction rule: layout_step.induct)
  case (l_module s r c cs n)
  have "cs = []" using l_module.prems l_module.hyps(2) by (cases cs) (auto simp: hs_wf_def)
  then show ?case using hs_wf_snoc [of "[]" s n] start_sorts_real [OF l_module.hyps(1)] by (simp add: hs_wf_def can_start_def)
next
  case (l_end cs)
  then show ?case by (cases cs rule: rev_cases) (auto dest: hs_wf_prefix)
next
  case (l_start s r cs n)
  then show ?case using start_sorts_real [of s r] by (auto intro!: hs_wf_snoc)
qed (auto intro: hs_wf_prefix hs_wf_snoc simp: sort_less_Braces, auto simp: hs_wf_def can_start_def)

section \<open>Results of the parts of a scan\<close>

text \<open>The symbols that are reported without a look at the valid symbols.\<close>

definition hs_unguarded :: "hs_symbol set" where
  "hs_unguarded = {SEMICOLON, START, START_EXPLICIT, COMMENT, HADDOCK, CPP, PRAGMA, UPDATE, VARSYM, CONSYM, QUALIFIED_OP}"

context ts_lexer
begin

definition hs_result :: "'l hs_env \<Rightarrow> hs_symbol \<times> 'l hs_env \<Rightarrow> bool" where
  "hs_result e = (\<lambda>(r, e').
     if r = FAIL then hs_frame e e'
     else layout_step r (contexts e) (contexts e') \<and> symbols e' = symbols e
       \<and> (nl_eof (newline e') \<longrightarrow> nl_eof (newline e)) \<and> (symbols e r \<or> r \<in> hs_unguarded))"

lemma result_fail: "hs_frame e e' \<Longrightarrow> hs_result e (FAIL, e')"
  by (simp add: hs_result_def)

lemma result_failD: "hs_result e (FAIL, e') \<Longrightarrow> hs_frame e e'"
  by (simp add: hs_result_def)

lemma result_keep: "r \<notin> moving \<Longrightarrow> hs_frame e e' \<Longrightarrow> symbols e r \<or> r \<in> hs_unguarded \<Longrightarrow> hs_result e (r, e')"
  by (auto simp: hs_result_def hs_frame_def intro: l_keep)

lemma result_trans: "hs_frame e e' \<Longrightarrow> hs_result e' p \<Longrightarrow> hs_result e p"
  by (cases p) (auto simp: hs_result_def hs_frame_def)

lemma runs_SEQ:
  assumes "runs c (hs_result e)" and "\<And>e'. hs_frame e e' \<Longrightarrow> runs (f e') (hs_result e)"
  shows "runs (SEQ c f) (hs_result e)"
  unfolding SEQ_def runs_bind
  by (rule runs_weaken [OF assms(1)]) (use assms(2) result_failD in auto)

lemma runs_result_trans: "hs_frame e e' \<Longrightarrow> runs c (hs_result e') \<Longrightarrow> runs c (hs_result e)"
  by (erule runs_weaken) (rule result_trans)

lemma result_finish_if_valid: "r \<notin> moving \<Longrightarrow> hs_frame e e' \<Longrightarrow> hs_result e (finish_if_valid r e')"
  by (auto simp: finish_if_valid_def hs_frame_def intro!: result_fail result_keep)

lemma pop_contexts [simp]: "contexts (pop e) = butlast (contexts e)"
  by (simp add: pop_def)

lemma pop_simps [simp]: "newline (pop e) = newline e" "symbols (pop e) = symbols e" "lexer (pop e) = lexer e"
  by (simp_all add: pop_def)

lemma result_end: "hs_frame e e' \<Longrightarrow> hs_result e (end_layout e')"
  by (auto simp: end_layout_def hs_result_def hs_frame_def intro: l_end)

lemmas end_layout_defs = end_layout_infix_def end_layout_where_def end_layout_in_def end_layout_deriving_def token_end_layout_texp_def

lemma result_ends:
  assumes "hs_frame e e'"
  shows "hs_result e (end_layout_infix e')" "hs_result e (end_layout_where e')" "hs_result e (end_layout_in e')"
    "hs_result e (end_layout_deriving e')" "hs_result e (token_end_layout_texp e')"
  using assms by (auto simp: end_layout_defs intro: result_fail result_end)

lemma current_sort_last: "current_sort cs = s \<Longrightarrow> s \<noteq> NoContext \<Longrightarrow> \<exists>ds c. cs = ds @ [c] \<and> sort c = s"
  by (cases cs rule: rev_cases) (auto simp: current_sort_def split: if_splits)

lemma layout_step_close:
  "current_sort cs = Braces \<Longrightarrow> layout_step END_BRACE cs (butlast cs)" "current_sort cs = Braces \<Longrightarrow> layout_step END_EXPLICIT cs (butlast cs)"
  "current_sort cs = TExp \<Longrightarrow> layout_step END_TEXP cs (butlast cs)"
  by (auto dest!: current_sort_last intro!: l_explicit l_close [where ds = "[]"] simp: context_end_sym_def)

lemma result_pre_ws:
  assumes "hs_frame e e'"
  shows "hs_result e (texp_context e')" "hs_result e (start_brace e')" "hs_result e (end_brace e')"
  using assms layout_step_close [of "contexts e"]
  by (auto simp: hs_result_def texp_context_def start_brace_def end_brace_def push_context_def hs_frame_def
      intro: l_texp l_brace)

lemma result_end_brace: "hs_frame e e' \<Longrightarrow> hs_result e (end_layout_brace E e')"
  using layout_step_close [of "contexts e"] hs_looks_over [of e' 0]
  by (auto simp: end_layout_brace_def hs_result_def hs_frame_def hs_looks_def)

lemma result_end_indent:
  assumes "hs_frame e e'"
  shows "hs_result e (end_layout_indent e')"
proof (cases "hs_valid e' END \<and> indent_less e' (nl_indent (newline e'))")
  case True
  show ?thesis
  proof (cases "top_layout e'")
    case top: True
    then obtain c where c: "contexts e' = [c]" by (auto simp: top_layout_def length_Suc_conv)
    moreover have e: "contexts e = contexts e'" using assms by (simp add: hs_frame_def)
    ultimately have "sort c < Braces" "nl_indent (newline e') < indent c"
      using True by (auto simp: indent_less_def is_layout_context_def current_indent_def current_sort_def split: if_splits)
    then have "layout_step UPDATE (contexts e) [c\<lparr>indent := nl_indent (newline e')\<rparr>]" unfolding e c by (rule l_dedent)
    moreover have "contexts e = [c]" using e c by simp
    ultimately show ?thesis using True top assms
      by (simp add: end_layout_indent_def hs_result_def hs_frame_def hs_unguarded_def)
  qed (use True assms in \<open>auto simp: end_layout_indent_def hs_result_def hs_frame_def intro: l_end\<close>)
qed (use assms in \<open>auto simp: end_layout_indent_def intro: result_fail\<close>)

lemma result_start_layout:
  assumes "hs_frame e e'" and s: "sl_sort st \<in> start_sorts (sl_sym st)" and v: "symbols e (sl_sym st) \<or> sl_sym st \<in> hs_unguarded"
  shows "hs_result e (start_layout E st n e')"
proof -
  have "sl_sym st \<noteq> FAIL" using s by (auto simp: start_sorts_def)
  show ?thesis
  proof (cases "in_module_header e'")
    case True
    then have "\<exists>ds c. contexts e' = ds @ [c] \<and> sort c = ModuleHeader" unfolding in_module_header_def by (intro current_sort_last) auto
    then show ?thesis using True assms \<open>sl_sym st \<noteq> FAIL\<close>
      by (auto simp: start_layout_def hs_result_def push_context_def hs_frame_def intro!: l_module)
  next
    case False
    have "can_start (contexts e) (sl_sort st) n" if "sl_sort st = Braces \<or> indent_can_start_layout (sl_sort st) n e'"
      using that assms(1) by (auto simp: can_start_def indent_can_start_layout_def current_indent_def hs_frame_def Let_def split: if_splits)
    then show ?thesis using False assms \<open>sl_sym st \<noteq> FAIL\<close>
      by (auto simp: start_layout_def hs_result_def push_context_def hs_frame_def in_module_header_def intro!: l_start)
  qed
qed

lemma filter_head: "filter p xs = x # ys \<Longrightarrow> x \<in> set xs \<and> p x"
  by (drule arg_cong [where f = set]) auto

lemma valid_start_sym:
  "valid_layout_start_sym e = FAIL
   \<or> symbols e (valid_layout_start_sym e) \<and> layout_sort (valid_layout_start_sym e) \<in> start_sorts (valid_layout_start_sym e)"
proof -
  define ss where "ss = [START, START_DO, START_CASE, START_IF, START_LET, START_QUOTE, START_EXPLICIT]"
  have "layout_sort r \<in> start_sorts r" if "r \<in> set ss" for r
    using that by (auto simp: ss_def start_sorts_def layout_sort_def)
  then show ?thesis
    unfolding valid_layout_start_sym_def ss_def [symmetric] by (auto split: list.split dest!: filter_head)
qed

lemma valid_layout_start_ok:
  assumes "st = valid_layout_start t e" and "sl_sort st \<noteq> NoContext"
  shows "sl_sort st \<in> start_sorts (sl_sym st) \<and> (symbols e (sl_sym st) \<or> sl_sym st \<in> hs_unguarded)"
  using assms valid_start_sym [of e]
  by (auto simp: valid_layout_start_def Let_def start_sorts_def [of START_EXPLICIT] hs_unguarded_def split: if_splits)

lemma result_start_interior: "hs_frame e e' \<Longrightarrow> hs_result e (start_layout_interior E t e')"
  using valid_layout_start_ok [OF refl, of t e']
  by (auto simp: start_layout_interior_def Let_def hs_frame_def intro: result_fail intro!: result_start_layout)

lemma result_update_newline:
  assumes "hs_result e (r, e')" and "r \<noteq> FAIL \<Longrightarrow> contexts e'' = contexts e' \<and> symbols e'' = symbols e' \<and> (nl_eof (newline e'') \<longrightarrow> nl_eof (newline e'))"
    and "r = FAIL \<Longrightarrow> e'' = e'"
  shows "hs_result e (r, e'')"
  using assms by (auto simp: hs_result_def)

lemma result_start_newline: "hs_frame e e' \<Longrightarrow> hs_result e (start_layout_newline E e')"
proof -
  assume f: "hs_frame e e'"
  define st where "st = valid_layout_start (nl_end (newline e')) e'"
  show ?thesis
  proof (cases "sl_sort st = NoContext")
    case False
    obtain r e1 where r: "start_layout E st (nl_indent (newline e')) e' = (r, e1)" by fastforce
    have "hs_result e (r, e1)"
      unfolding r [symmetric] using valid_layout_start_ok [OF st_def False] f by (intro result_start_layout) (auto simp: hs_frame_def)
    then show ?thesis using False r by (auto simp: start_layout_newline_def Let_def st_def [symmetric] elim!: result_update_newline)
  qed (use f in \<open>simp add: start_layout_newline_def Let_def st_def [symmetric] result_fail\<close>)
qed

lemma result_semicolons:
  assumes "hs_frame e e'"
  shows "hs_result e (semicolon e')" "hs_result e (explicit_semicolon e')" "hs_result e (resolve_semicolon t e')"
  using assms by (auto simp: semicolon_def explicit_semicolon_def resolve_semicolon_def hs_result_def hs_frame_def hs_unguarded_def intro: l_keep)

lemma runs_frame_result:
  assumes "runs c (\<lambda>(r, e'). hs_frame e e' \<and> r \<in> S)" and "\<And>r. r \<in> S \<Longrightarrow> r \<notin> moving \<and> (symbols e r \<or> r \<in> hs_unguarded)"
  shows "runs c (hs_result e)"
  by (rule runs_weaken [OF assms(1)]) (use assms(2) in \<open>auto intro!: result_keep\<close>)

lemma runs_pragma: "runs (pragma E e) (hs_result e)"
  unfolding pragma_def runs_bind
  by (rule runs_weaken [OF runs_consume_pragma])
    (auto simp: hs_result_def hs_unguarded_def hs_steps_def hs_frame_def Let_def intro: l_keep)

lemma runs_token_safe:
  assumes f: "hs_frame e e'"
  shows "runs (process_token_safe E T t e') (hs_result e)"
proof -
  have "runs (block_comment E T e') (hs_result e')" "runs (inline_comment E T e') (hs_result e')"
    by (rule runs_frame_result [OF runs_block_comment], simp add: hs_unguarded_def, blast,
      rule runs_frame_result [OF runs_inline_comment], simp add: hs_unguarded_def, blast)
  moreover have "runs (cpp_else E T True e') (hs_result e')" "runs (cpp_line E e') (hs_result e')"
    by (auto intro!: runs_weaken [OF runs_cpp_else] runs_weaken [OF runs_cpp_line] result_keep simp: hs_unguarded_def)
  ultimately have "runs (process_token_safe E T t e') (hs_result e')"
    unfolding process_token_safe_def
    by (intro runs_ifI runs_pragma runs_SEQ) (simp_all add: result_end result_ends result_fail)
  then show ?thesis by (rule runs_result_trans [OF f])
qed

section \<open>Operators\<close>

lemma char_at_frame: "hs_frame e0 e \<Longrightarrow> char_at E i c e = (b, e') \<Longrightarrow> hs_frame e0 e'"
  using char_at_looks_from [OF hs_looks_refl, of e i c] by (auto intro: hs_frame_looks)

lemma runs_left_section_op:
  assumes f: "hs_frame e e'"
  shows "runs (left_section_op E T i e') (hs_result e)"
proof (cases "hs_valid e' LEFT_SECTION_OP")
  case True
  have v: "symbols e LEFT_SECTION_OP" using True f by (simp add: hs_frame_def)
  have "hs_result e (case char_at E i (ch CHR '')'') e1 of (True, e) \<Rightarrow> (LEFT_SECTION_OP, e)
      | (False, e) \<Rightarrow> if sp \<noteq> NoSpace then finish_if_valid NO_SECTION_OP e else (FAIL, e))" if "hs_skips (advance_before E i e') e1" for sp e1
  proof -
    have "hs_frame e e1" using hs_frame_skips [OF hs_frame_looks [OF f hs_looks_before] that] .
    then have "hs_frame e e2" if "char_at E i (ch CHR '')'') e1 = (b, e2)" for b e2 using that by (rule char_at_frame)
    then show ?thesis using v by (auto split: prod.split bool.split intro!: result_keep result_finish_if_valid result_fail)
  qed
  then show ?thesis using True unfolding left_section_op_def by (auto intro!: runs_weaken [OF runs_skip_whitespace])
qed (use f in \<open>simp add: left_section_op_def result_fail\<close>)

lemma runs_left_section_symop:
  assumes f: "hs_frame e e'"
  shows "runs (left_section_symop E T e') (hs_result e)"
  unfolding left_section_symop_def
  by (auto intro!: runs_weaken [OF runs_symop_lookahead] runs_left_section_op hs_frame_looks [OF f])

lemma runs_left_section_ticked:
  assumes f: "hs_frame e e'"
  shows "runs (left_section_ticked E T e') (hs_result e)"
proof -
  have "hs_frame e e2" if "hs_looks e' e1" "char_at E i c e1 = (b, e2)" for e1 i c b e2
    using char_at_frame [OF hs_frame_looks [OF f that(1)] that(2)] .
  then show ?thesis
    unfolding left_section_ticked_def
    by (auto simp: f split: prod.splits bool.split intro!: runs_weaken [OF runs_advance_until_char] runs_left_section_op result_fail)
qed

lemma runs_finish_symop:
  assumes "hs_frame e e'" and "r \<in> {VARSYM, CONSYM}"
  shows "runs (finish_symop E T r e') (hs_result e)"
  unfolding finish_symop_def
  using assms by (auto intro!: runs_SEQ runs_left_section_symop result_keep result_fail simp: hs_unguarded_def dest: hs_frame_looks [OF _ hs_looks_mark])

lemma result_tight_op: "r \<notin> moving \<Longrightarrow> hs_frame e e' \<Longrightarrow> hs_result e (tight_op w r e')"
  by (auto simp: tight_op_def intro: result_fail result_finish_if_valid)

lemma runs_or_varsym:
  assumes "hs_frame e e'"
  shows "r \<notin> moving \<Longrightarrow> runs (prefix_or_varsym E T w r e') (hs_result e)"
    and "r \<notin> moving \<Longrightarrow> runs (tight_or_varsym E T w r e') (hs_result e)"
    and "r \<notin> moving \<Longrightarrow> r' \<notin> moving \<Longrightarrow> runs (infix_or_varsym E T w r r' e') (hs_result e)"
  unfolding prefix_or_varsym_def tight_or_varsym_def infix_or_varsym_def
  using assms by (auto intro!: runs_SEQ runs_finish_symop result_tight_op result_finish_if_valid result_fail)

lemma runs_qualified_op:
  assumes f: "hs_frame e e'"
  shows "runs (qualified_op E T e') (hs_result e)"
  unfolding qualified_op_def runs_bind
proof (rule runs_weaken [OF runs_qualified_name], clarify, goal_cases)
  case (1 q e1)
  have "hs_frame e e1" using f hs_steps_frame [OF 1] by (rule hs_frame_trans)
  then show ?case
    by (auto intro!: runs_SEQ runs_left_section_symop result_keep result_fail simp: hs_unguarded_def)
qed

lemma runs_token_symop:
  assumes f: "hs_frame e e'"
  shows "runs (process_token_symop E T w t e') (hs_result e)"
proof -
  have op: "runs (case char_at E 0 (ch CHR '':'') e' of (b, e) \<Rightarrow> finish_symop E T (if b then CONSYM else VARSYM) e) (hs_result e)"
    using char_at_frame [OF f] by (auto split: prod.split intro!: runs_finish_symop)
  have minus: "runs (if hs_valid e1 MINUS then do { (b, e) \<leftarrow> match_symop E T ''-'' e1; Some (if b then MINUS else FAIL, e) }
      else Some (FAIL, e1)) (hs_result e)" if "hs_frame e e1" for e1
  proof (rule runs_ifI)
    assume v: "hs_valid e1 MINUS"
    show "runs (do { (b, e) \<leftarrow> match_symop E T ''-'' e1; Some (if b then MINUS else FAIL, e) }) (hs_result e)"
      unfolding runs_bind
    proof (rule runs_weaken [OF runs_match_symop], clarify, goal_cases)
      case (1 b e2)
      have "symbols e MINUS" using v that by (simp add: hs_frame_def)
      with hs_frame_looks [OF that 1] show ?case by (cases b) (auto intro: result_keep result_fail)
    qed
  qed (use that in \<open>simp add: result_fail\<close>)
  show ?thesis
    unfolding process_token_symop_def
    by (intro runs_ifI runs_SEQ op minus runs_or_varsym f runs_left_section_symop runs_left_section_ticked runs_qualified_op)
      (simp_all add: f result_finish_if_valid result_tight_op result_fail)
qed

lemma result_splice: "hs_frame e e' \<Longrightarrow> hs_result e (process_token_splice t e')"
  by (auto simp: process_token_splice_def intro: result_fail result_finish_if_valid)

section \<open>Newlines\<close>

text \<open>A newline is always answered: the result is a symbol.\<close>

definition hs_answer :: "'l hs_env \<Rightarrow> hs_symbol \<times> 'l hs_env \<Rightarrow> bool" where
  "hs_answer e p \<longleftrightarrow> hs_result e p \<and> fst p \<noteq> FAIL"

lemma runs_SEQ_answer:
  assumes "runs c (hs_result e)" and "\<And>e'. hs_frame e e' \<Longrightarrow> runs (f e') (hs_answer e)"
  shows "runs (SEQ c f) (hs_answer e)"
  unfolding SEQ_def runs_bind
  by (rule runs_weaken [OF assms(1)]) (use assms(2) result_failD in \<open>auto simp: hs_answer_def\<close>)

lemma answer_env:
  assumes "hs_answer e' p" and "contexts e' = contexts e" "symbols e' = symbols e" "nl_eof (newline e') \<longrightarrow> nl_eof (newline e)"
  shows "hs_answer e p"
  using assms by (cases p) (auto simp: hs_answer_def hs_result_def)

lemma runs_answer_env:
  assumes "runs c (hs_answer e')" and "contexts e' = contexts e" "symbols e' = symbols e" "nl_eof (newline e') \<longrightarrow> nl_eof (newline e)"
  shows "runs c (hs_answer e)"
  using assms(1) by (rule runs_weaken) (rule answer_env [OF _ assms(2-4)])

lemma runs_answer_result:
  assumes "hs_frame e e'" and "runs c (hs_answer e')"
  shows "runs c (hs_result e)"
  by (rule runs_weaken [OF assms(2)]) (use assms(1) in \<open>auto simp: hs_answer_def intro: result_trans\<close>)

lemma answer_update: "hs_frame e e' \<Longrightarrow> hs_answer e (UPDATE, e')"
  by (auto simp: hs_answer_def hs_unguarded_def intro!: result_keep)

lemma result_init:
  assumes "contexts e = []"
  shows "hs_result e (process_token_init E n t e)"
  using assms hs_looks_over [of e 0] l_start [of Braces START_EXPLICIT "[]" n] l_start [of DeclLayout START "[]" n]
  by (auto simp: process_token_init_def hs_result_def push_context_def hs_unguarded_def hs_looks_def start_sorts_def layout_sort_def
      current_sort_def can_start_def intro: l_header)

lemma runs_newline_final: "runs (newline_final E T n t e) (hs_answer e)"
  unfolding newline_final_def
proof (rule runs_SEQ_answer)
  show "runs (if uninitialized e then Some (process_token_init E n t e)
      else SEQ (process_token_symop E T True t e) (\<lambda>e. Some (process_token_splice t e))) (hs_result e)"
    by (intro runs_ifI runs_SEQ runs_token_symop) (simp_all add: uninitialized_def result_init result_splice)
qed (simp add: answer_update)

lemma runs_newline_extras: "hs_frame e e' \<Longrightarrow> runs (newline_extras E T sp e') (hs_result e)"
  unfolding newline_extras_def
  by (auto intro!: runs_weaken [OF runs_lex_extras] runs_token_safe dest!: hs_seen_looks intro: hs_frame_looks)

lemma runs_newline_process: "runs (newline_process E T e) (hs_answer e)"
  unfolding newline_process_def Let_def
proof (intro runs_SEQ_answer, goal_cases)
  case (3 e1 e2)
  show ?case
    unfolding runs_bind
  proof (rule runs_weaken [OF runs_skip_whitespace], clarify, goal_cases)
    case (1 sp e3)
    have f: "hs_frame e (hs_mark E e3)" using hs_frame_looks [OF hs_frame_skips [OF 3(2) 1] hs_looks_mark] .
    show ?case
    proof (intro runs_SEQ_answer, goal_cases)
      case (4 e4 e5 e6)
      then show ?case by (intro runs_answer_env [OF runs_newline_final]) (auto simp: hs_frame_def reset_newline_def newline_zero_def)
    qed (use f in \<open>auto intro: runs_newline_extras result_fail result_start_newline result_semicolons\<close>)
  qed
qed (auto intro: result_end_indent runs_token_safe)

lemma runs_newline_post: "runs (newline_post E T e) (hs_answer e)"
  unfolding newline_post_def runs_bind
  by (rule runs_weaken [OF runs_newline_process]) (auto simp: hs_answer_def elim!: result_update_newline)

lemma runs_newline_start: "runs (newline_start E T e) (hs_answer e)"
  unfolding newline_start_def runs_bind
proof (rule runs_weaken [OF runs_newline_lookahead], clarify, goal_cases)
  case (1 nl e1)
  have f: "contexts (e1\<lparr>newline := nl\<rparr>) = contexts e" "symbols (e1\<lparr>newline := nl\<rparr>) = symbols e"
    "nl_eof (newline (e1\<lparr>newline := nl\<rparr>)) \<longrightarrow> nl_eof (newline e)"
    using 1(1,3) by (auto simp: hs_steps_def hs_frame_def same_newline_def)
  have "runs (if nl_unsafe nl then Some (UPDATE, e1\<lparr>newline := nl\<rparr>) else newline_post E T (e1\<lparr>newline := nl\<rparr>)) (hs_answer (e1\<lparr>newline := nl\<rparr>))"
    by (intro runs_ifI runs_newline_post) (simp add: answer_update)
  from runs_answer_env [OF this f] show ?case by (simp add: Let_def)
qed

lemma runs_newline_resume: "runs (newline_resume E T e) (hs_answer e)"
  unfolding newline_resume_def Let_def runs_bind
proof (rule runs_weaken [OF runs_skip_space], clarify, rule runs_answer_env [OF runs_newline_start], goal_cases)
  case (1 b e1)
  then show ?case using hs_skips_steps [of e e1] by (simp add: reset_newline_def hs_steps_def hs_frame_def)
next
  case (2 b e1)
  then show ?case using hs_skips_steps [of e e1] by (simp add: reset_newline_def hs_steps_def hs_frame_def)
qed (simp add: reset_newline_def newline_zero_def)

section \<open>The scan\<close>

lemma runs_token_interior:
  assumes f: "hs_frame e e'" and q: "t = LBracketOpen \<Longrightarrow> symbols e QQ_START"
  shows "runs (process_token_interior E T t e') (hs_result e)"
  unfolding process_token_interior_def
  by (intro runs_ifI runs_SEQ runs_token_safe)
    (use f q in \<open>auto intro: result_end_brace result_ends result_fail result_semicolons result_keep result_start_interior\<close>)

lemma runs_token_constraint: "hs_frame e e' \<Longrightarrow> runs (process_token_constraint E T e') (hs_result e)"
  unfolding process_token_constraint_def
  by (auto simp: hs_reports_def intro!: runs_weaken [OF runs_constraint_lookahead] result_fail intro: result_keep hs_frame_trans)
    (auto simp: hs_frame_def intro!: result_keep)

lemma runs_interior: "runs (interior E T w e) (hs_result e)"
  unfolding interior_def runs_bind
proof (rule runs_weaken [OF runs_lex], clarify, goal_cases)
  case (1 t e1)
  have "hs_seen e 0 e1" "t = LBracketOpen \<Longrightarrow> symbols e QQ_START" using 1 unfolding hs_lexed_ok_def by blast+
  moreover have "hs_frame e e1" by (rule hs_looks_frame [OF hs_seen_looks]) fact
  ultimately show ?case
    by (intro runs_SEQ runs_token_interior runs_token_symop runs_token_constraint) (auto intro: result_semicolons result_splice)
qed

lemma runs_pre_ws: "runs (pre_ws_commands E T e) (hs_result e)"
proof -
  have qq: "runs (qq_body E e') (hs_result e)" if "hs_frame e e'" "hs_valid e' QQ_BODY" for e'
    using that by (intro runs_weaken [OF runs_qq_body]) (auto intro!: result_keep intro: hs_frame_trans simp: hs_frame_def)
  show ?thesis
    unfolding pre_ws_commands_def
    by (intro runs_SEQ runs_ifI)
      (auto intro: result_pre_ws result_fail qq runs_answer_result [OF _ runs_newline_post] runs_answer_result [OF _ runs_newline_resume])
qed

lemma runs_scan_main: "runs (scan_main E T e) (hs_result e)"
proof -
  have mark: "hs_frame e (hs_mark E e)" by (rule hs_looks_frame) simp
  have "runs (do { (w, e) \<leftarrow> skip_space E T e1; if is_newline (hs_peek_char E e) then newline_start E T e
      else if \<not> hs_eof E e then interior E T w e else Some (FAIL, e) }) (hs_result e)" if "hs_frame e e1" for e1
    unfolding runs_bind
  proof (rule runs_weaken [OF runs_skip_space], clarify, goal_cases)
    case (1 w e2)
    have "hs_frame e e2" using hs_frame_skips [OF that 1(1)] .
    then show ?case
      by (intro runs_ifI) (auto intro: result_fail runs_result_trans [OF _ runs_interior] runs_answer_result [OF _ runs_newline_start])
  qed
  then show ?thesis
    unfolding scan_main_def by (intro runs_SEQ runs_result_trans [OF mark runs_pre_ws])
qed

lemma force_end_close:
  assumes "force_end v cs = (r, cs')" and "\<not> v END"
  shows "r = FAIL \<and> cs' = [] \<or> v r \<and> r \<in> {END_TEXP, END_BRACE} \<and> (\<exists>c ds. cs = ds @ c # cs' \<and> context_end_sym (sort c) = r)"
  using assms
proof (induction cs)
  case (Cons c cs)
  show ?case
  proof (cases "context_end_sym (sort c) \<noteq> FAIL \<and> v (context_end_sym (sort c))")
    case True
    then show ?thesis using Cons.prems
      by (auto simp: Let_def context_end_sym_def split: if_splits intro: exI [of _ "[]"])
  next
    case False
    then have "force_end v cs = (r, cs')" using Cons.prems by (auto simp: Let_def)
    with Cons.IH Cons.prems(2) show ?thesis by (metis append_Cons)
  qed
qed auto

definition hs_scanned :: "'l hs_env \<Rightarrow> bool \<times> 'l hs_env \<Rightarrow> bool" where
  "hs_scanned e = (\<lambda>(b, e'). let r = if b then result_symbol (lexer e') else FAIL in
     layout_step r (contexts e) (contexts e') \<and> (b \<longrightarrow> r \<noteq> FAIL \<and> (symbols e r \<or> r \<in> hs_unguarded))
     \<and> (\<not> b \<longrightarrow> contexts e' = contexts e \<or> contexts e' = [] \<and> rest (raw (lexer e')) = [])
     \<and> (nl_eof (newline e') \<longrightarrow> nl_eof (newline e)))"

lemma layout_step_same: "layout_step FAIL cs cs"
  by (rule l_keep) simp

lemma scanned_symbol:
  assumes "hs_result e p"
  shows "hs_scanned e (case_prod set_result_symbol p)"
  using assms by (cases p) (auto simp: set_result_symbol_def hs_result_def hs_scanned_def hs_frame_def intro: layout_step_same)

lemma scanned_eof:
  assumes f: "hs_frame e e'" and eof: "rest (raw (lexer e')) = []"
  shows "hs_scanned e (case_prod set_result_symbol
    (if hs_valid e' END then (END, pop e') else if hs_valid e' SEMICOLON then (SEMICOLON, e') else force_end_context e'))"
proof (cases "hs_valid e' END \<or> hs_valid e' SEMICOLON")
  case True
  then have "hs_result e (if hs_valid e' END then (END, pop e') else (SEMICOLON, e'))"
    using f by (auto simp: hs_result_def hs_frame_def intro: l_end l_keep)
  from scanned_symbol [OF this] show ?thesis using True by auto
next
  case False
  obtain r cs where r: "force_end (symbols e') (rev (contexts e')) = (r, cs)" by fastforce
  have "layout_step r (contexts e) (rev cs) \<and> (r \<noteq> FAIL \<longrightarrow> symbols e r) \<and> (r = FAIL \<longrightarrow> cs = [])"
    using force_end_close [OF r] False f by (auto simp: hs_frame_def rev_eq_append_conv intro: l_abandon l_close)
  then show ?thesis
    using False r f eof by (auto simp: force_end_context_def set_result_symbol_def hs_scanned_def hs_frame_def)
qed

lemma runs_hs_scan_env: "runs (hs_scan_env E T e) (hs_scanned e)"
proof -
  have "hs_scanned e (process_result E r e')" if "hs_result e (r, e')" for r e'
  proof (cases "r = FAIL \<and> hs_eof E e' \<and> no_lookahead e'")
    case True
    have "hs_frame e (hs_mark E e')" using that True hs_frame_looks [OF _ hs_looks_mark] by (blast dest: result_failD)
    moreover have "rest (raw (lexer (hs_mark E e'))) = []" using True by (simp add: hs_mark_def)
    ultimately show ?thesis using scanned_eof unfolding process_result_def if_P [OF True] Let_def by blast
  next
    case False
    then show ?thesis using scanned_symbol [OF that] by (auto simp: process_result_def)
  qed
  moreover have "hs_scanned e (False, e)" by (simp add: hs_scanned_def layout_step_same)
  ultimately show ?thesis
    unfolding hs_scan_env_def by (intro runs_ifI) (auto intro!: runs_weaken [OF runs_scan_main])
qed

end

lemma runs_hs_scan:
  assumes "ts_lexer E rest"
  shows "runs (hs_scan E T v s l) (\<lambda>(b, s', l'). layout_step (if b then result_symbol l' else FAIL) (contexts s) (contexts s')
      \<and> (b \<longrightarrow> result_symbol l' \<noteq> FAIL \<and> (v (result_symbol l') \<or> result_symbol l' \<in> hs_unguarded))
      \<and> (\<not> b \<longrightarrow> contexts s' = contexts s \<or> contexts s' = [] \<and> rest (raw l') = []) \<and> (nl_eof (newline s') \<longrightarrow> nl_eof (newline s)))"
  unfolding hs_scan_def runs_bind
  by (rule runs_weaken [OF ts_lexer.runs_hs_scan_env [OF assms]])
    (auto simp: ts_lexer.hs_scanned_def [OF assms] env_new_def hs_state.defs hs_env.defs Let_def)

text \<open>C1. The Haskell scan returns on every input and refines the abstract layout stack: the stack after the scan
  is the one before it, changed as \<open>layout_step\<close> says for the reported symbol. The start of a layout
  pushes a context of its sort (START_EXPLICIT one of braces or declarations), deeper than the layout around it (a do may be as deep; inside braces,
  as the first context and for explicit braces every column will do), or replaces the module header
  on top; the start of a bracket or brace pushes its context at column 0. END pops the top context,
  END_EXPLICIT the braces on top, END_TEXP and END_BRACE cut the stack below a context of their kind.
  UPDATE keeps the stack, or puts the module header on the empty one, or moves the only layout to the
  left. Every other symbol keeps the stack. A scan without a token keeps it too, or, at the end of
  the input, empties it. The reported symbol is not FAIL, and it is a valid one or one of those that the
  scanner does not check (\<open>hs_unguarded\<close>).\<close>

theorem hs_scan_layout:
  assumes "ts_lexer E rest"
  shows "\<exists>b s' l'. hs_scan E T v s l = Some (b, s', l')
     \<and> layout_step (if b then result_symbol l' else FAIL) (contexts s) (contexts s')
     \<and> (\<not> b \<longrightarrow> contexts s' = contexts s \<or> contexts s' = [] \<and> rest (raw l') = [])
     \<and> (b \<longrightarrow> result_symbol l' \<noteq> FAIL \<and> (v (result_symbol l') \<or> result_symbol l' \<in> hs_unguarded))"
  by (rule runs_tripleD, rule runs_weaken [OF runs_hs_scan [OF assms]]) auto

theorem hs_scan_layout_witness:
  "\<exists>b s' l'. hs_scan list_env ascii_tables (\<lambda>r. r = START_DO) (hs_create\<lparr>contexts := [\<lparr>sort = DeclLayout, indent = 0\<rparr>]\<rparr>)
       (lex_string FAIL ''  x'') = Some (b, s', l')
     \<and> layout_step (if b then result_symbol l' else FAIL) [\<lparr>sort = DeclLayout, indent = 0\<rparr>] (contexts s')
     \<and> (\<not> b \<longrightarrow> contexts s' = [\<lparr>sort = DeclLayout, indent = 0\<rparr>] \<or> contexts s' = [] \<and> ll_rest (raw l') = [])
     \<and> (b \<longrightarrow> result_symbol l' \<noteq> FAIL \<and> (result_symbol l' = START_DO \<or> result_symbol l' \<in> hs_unguarded))"
  using hs_scan_layout [OF ts_lexer_list_env, of ascii_tables "\<lambda>r. r = START_DO"
      "hs_create\<lparr>contexts := [\<lparr>sort = DeclLayout, indent = 0\<rparr>]\<rparr>" "lex_string FAIL ''  x''"] by simp

end
