(* ===== verification/Haskell_Save.thy ===== *)
theory Haskell_Save
  imports Haskell_Layout
begin

text \<open>
  The Haskell scanner between scans: what \<open>hs_serialize\<close> writes is what \<open>hs_deserialize\<close> reads, the
  states that saved scans reach have a well-formed layout stack, and the layouts that a newline
  closes are closed one by one before the line's semicolon, however the lexer stands.
\<close>

section \<open>Saving and restoring\<close>

lemma get_put_enum:
  assumes "x \<in> set xs" and "length xs < 4294967296"
  shows "get_enum xs (put_enum xs x @ bs) = Some (x, bs)"
proof -
  let ?n = "length (takeWhile (\<lambda>y. y \<noteq> x) xs)"
  have n: "?n < length xs" using assms(1) by (induction xs) auto
  then have "xs ! ?n = x" using nth_length_takeWhile [of "\<lambda>y. y \<noteq> x" xs] by simp
  with n assms(2) show ?thesis by (simp add: get_enum_def put_enum_def unat_of_nat_32)
qed

lemma all_enums: "x \<in> set all_sorts" "t \<in> set all_lexed" "n \<in> set [NInactive, NInit, NProcess, NResume]"
  subgoal by (cases x) (simp_all add: all_sorts_def)
  subgoal by (cases t) (simp_all add: all_lexed_def)
  subgoal by (cases n) simp_all
  done

lemma length_all: "length all_sorts = 10" "length all_lexed = 37"
  by (simp_all add: all_sorts_def all_lexed_def)

lemma length_put_enum [simp]: "length (put_enum xs x) = 4"
  by (simp add: put_enum_def)

lemma get_bool_byte [simp]: "get_bool (bool_byte b # bs) = Some (b, bs)"
  by (simp add: get_bool_def bool_byte_def)

lemma get_put_newline: "get_newline (put_newline nl @ bs) = Some (nl, bs)"
  by (simp add: get_newline_def put_newline_def get_put_enum all_enums(2) all_enums(3) [simplified] length_all)

lemma get_put_context: "get_context (put_context c @ bs) = Some (c, bs)"
  by (simp add: get_context_def put_context_def get_put_enum all_enums(1) length_all)

lemma length_put_newline [simp]: "length (put_newline nl) = 16"
  by (simp add: put_newline_def)

lemma length_put_contexts [simp]: "length (concat (map put_context cs)) = 8 * length cs"
  by (induction cs) (simp_all add: put_context_def)

definition hs_saves :: "hs_state \<Rightarrow> bool" where
  "hs_saves s \<longleftrightarrow> length (contexts s) \<le> 125"

definition hs_reset :: hs_state where
  "hs_reset = hs_create\<lparr>newline := newline_zero\<lparr>nl_state := NResume\<rparr>\<rparr>"

lemma hs_restore:
  "hs_deserialize t (hs_serialize s) =
     Some (if hs_saves s then t\<lparr>contexts := contexts s, newline := newline s, contents := [], offset := 0\<rparr> else hs_reset)"
proof (cases "hs_saves s")
  case True
  then have ser: "hs_serialize s = le32 (of_nat (length (contexts s))) @ put_newline (newline s) @ concat (map put_context (contexts s))"
    by (simp add: hs_serialize_def hs_saves_def TREE_SITTER_SERIALIZATION_BUFFER_SIZE_def)
  have "get_many get_context (length (contexts s)) (concat (map put_context (contexts s))) = Some (contexts s, [])"
    using get_many_concat [of "contexts s" get_context put_context "[]"] by (simp add: get_put_context)
  with True show ?thesis
    unfolding ser by (simp add: hs_deserialize_def get_put_newline unat_of_nat_32 hs_saves_def)
next
  case False
  then show ?thesis
    by (simp add: hs_serialize_def hs_deserialize_def hs_saves_def hs_reset_def TREE_SITTER_SERIALIZATION_BUFFER_SIZE_def)
qed

lemma hs_serialize_fits: "length (hs_serialize s) \<le> TREE_SITTER_SERIALIZATION_BUFFER_SIZE"
  by (simp add: hs_serialize_def TREE_SITTER_SERIALIZATION_BUFFER_SIZE_def)

interpretation hs: resettable_scanner hs_serialize hs_deserialize hs_saves "\<lambda>s. (contexts s, newline s)" hs_reset
proof
  show "\<exists>s'. hs_deserialize t [] = Some s' \<and> (contexts s', newline s') = (contexts hs_reset, newline hs_reset)" for t
    by (simp add: hs_deserialize_def hs_reset_def)
qed (simp_all add: hs_restore hs_serialize_fits)

section \<open>Reachable states\<close>

text \<open>The states of a scanner: a new one, one after a scan, one that has been saved and restored.\<close>

inductive hs_reachable :: "'l env \<Rightarrow> hs_tables \<Rightarrow> hs_state \<Rightarrow> bool" for E T where
  reach_create: "hs_reachable E T hs_create"
| reach_scan: "hs_reachable E T s \<Longrightarrow> hs_scan E T v s l = Some (b, s', l') \<Longrightarrow> hs_reachable E T s'"
| reach_restore: "hs_reachable E T s \<Longrightarrow> hs_deserialize t (hs_serialize s) = Some s' \<Longrightarrow> hs_reachable E T s'"

lemma hs_reachable_inv:
  assumes "ts_lexer E rest" and "hs_reachable E T s"
  shows "hs_wf (contexts s) \<and> \<not> nl_eof (newline s)"
  using assms(2)
proof induction
  case (reach_scan s v l b s' l')
  then show ?case using runs_result [OF runs_hs_scan [OF assms(1)] reach_scan.hyps(2)] layout_step_wf by auto
qed (auto simp: hs_restore hs_create_def hs_reset_def hs_wf_def newline_zero_def split: if_splits)

section \<open>Newlines\<close>

text \<open>
  The tokens for a new line of indentation \<open>n\<close>, from the layout algorithm: an end for every layout
  that is deeper, then a semicolon if the layout that is left is as deep. The layout at the bottom
  is not closed but moved to the left. The last symbol ends the work on the newline.
\<close>

definition line_tokens :: "32 word \<Rightarrow> hs_context \<Rightarrow> hs_symbol list" where
  "line_tokens n c = (if sort c < MultiWayIfLayout \<and> indent c = n then [SEMICOLON, UPDATE] else [UPDATE])"

fun layout_tokens :: "32 word \<Rightarrow> hs_context list \<Rightarrow> hs_symbol list" where
  "layout_tokens n [] = []"
| "layout_tokens n (c # cs) =
     (if sort c < Braces \<and> n < indent c then
        if cs = [] then UPDATE # line_tokens n (c\<lparr>indent := n\<rparr>) else END # layout_tokens n cs
      else line_tokens n c)"

fun layout_left :: "32 word \<Rightarrow> hs_context list \<Rightarrow> hs_context list" where
  "layout_left n [] = []"
| "layout_left n (c # cs) =
     (if sort c < Braces \<and> n < indent c then if cs = [] then [c\<lparr>indent := n\<rparr>] else layout_left n cs else c # cs)"

text \<open>Scans one after the other, the state saved and restored before each.\<close>

fun hs_scans :: "'l env \<Rightarrow> hs_tables \<Rightarrow> (hs_symbol \<Rightarrow> bool) \<Rightarrow> hs_state \<Rightarrow> 'l hs_lexer list \<Rightarrow> (hs_symbol list \<times> hs_state) option" where
  "hs_scans E T v s [] = Some ([], s)"
| "hs_scans E T v s (l # ls) =
     do { s \<leftarrow> hs_deserialize s (hs_serialize s);
          (b, s, l) \<leftarrow> hs_scan E T v s l;
          (rs, s) \<leftarrow> hs_scans E T v s ls;
          Some ((if b then result_symbol l else FAIL) # rs, s) }"

text \<open>A newline whose next token is an ordinary word.\<close>

definition line_start :: "hs_newline_state \<Rightarrow> 32 word \<Rightarrow> bool \<Rightarrow> hs_newline" where
  "line_start st n semi = \<lparr>nl_state = st, nl_end = LNothing, nl_indent = n, nl_eof = False, nl_no_semi = semi,
     nl_skip_semi = False, nl_unsafe = False\<rparr>"

text \<open>The parser may end a layout, but neither start one nor go on with brackets or quasiquotes.\<close>

definition line_valid :: "(hs_symbol \<Rightarrow> bool) \<Rightarrow> bool" where
  "line_valid v \<longleftrightarrow> v END \<and> (\<forall>r \<in> {FAIL, START_TEXP, END_TEXP, START_BRACE, END_BRACE, QQ_BODY, START, START_DO, START_CASE,
     START_IF, START_LET, START_QUOTE, START_EXPLICIT}. \<not> v r)"

context ts_lexer
begin

lemma scan_active:
  assumes v: "line_valid v" and nl: "newline s = line_start st n semi" and st: "st \<in> {NInit, NProcess}"
    and post: "runs (newline_post E T (hs_mark E (env_new l v s))) (\<lambda>(r, e'). r \<noteq> FAIL \<and> r = r0 \<and> contexts e' = cs \<and> newline e' = nl')"
  shows "runs (hs_scan E T v s l) (\<lambda>(b, s', l'). b \<and> result_symbol l' = r0 \<and> contexts s' = cs \<and> newline s' = nl')"
proof -
  let ?e = "hs_mark E (env_new l v s)"
  have e: "symbols ?e = v" "newline ?e = line_start st n semi"
    using nl by (simp_all add: env_new_def hs_state.defs hs_env.defs)
  have "pre_ws_commands E T ?e = newline_post E T ?e"
    using v e st by (auto simp: pre_ws_commands_def texp_context_def start_brace_def end_brace_def SEQ_def line_valid_def
        newline_active_def line_start_def)
  then have "runs (scan_main E T (env_new l v s)) (\<lambda>(r, e'). r \<noteq> FAIL \<and> r = r0 \<and> contexts e' = cs \<and> newline e' = nl')"
    using post unfolding scan_main_def SEQ_def by (auto elim!: runs_weaken)
  moreover have "\<not> v FAIL" using v by (simp add: line_valid_def)
  ultimately show ?thesis
    unfolding hs_scan_def hs_scan_env_def
    by (auto simp: env_new_def hs_state.defs hs_env.defs process_result_def set_result_symbol_def elim!: runs_weaken)
qed

lemma last_context:
  assumes "contexts e = ds @ [c]"
  shows "is_layout_context e \<longleftrightarrow> sort c < Braces" "is_semicolon_context e \<longleftrightarrow> sort c < MultiWayIfLayout"
    "top_layout e \<longleftrightarrow> ds = []" "sort c < Braces \<Longrightarrow> current_indent e = indent c" "\<not> uninitialized e"
  using assms
  by (simp_all add: is_layout_context_def is_semicolon_context_def top_layout_def current_indent_def current_sort_def uninitialized_def)

lemma post_end:
  assumes v: "line_valid (symbols e)" and nl: "newline e = line_start st n semi" and st: "st \<in> {NInit, NProcess}"
    and cs: "contexts e = ds @ [c]" and c: "sort c < Braces" "n < indent c"
  shows "runs (newline_post E T e) (\<lambda>(r, e'). r \<noteq> FAIL \<and> r = (if ds = [] then UPDATE else END)
     \<and> contexts e' = (if ds = [] then [c\<lparr>indent := n\<rparr>] else ds) \<and> newline e' = line_start NProcess n semi)"
proof -
  have "hs_valid e END \<and> indent_less e (nl_indent (newline e))"
    using v nl c last_context [OF cs] by (simp add: line_valid_def indent_less_def line_start_def)
  then show ?thesis
    using st nl cs last_context [OF cs]
    by (auto simp: newline_post_def newline_process_def SEQ_def Let_def end_layout_indent_def newline_init_def line_start_def)
qed

lemma no_start:
  assumes "line_valid (symbols e)"
  shows "start_layout_newline E e = (FAIL, e)"
  using assms by (simp add: start_layout_newline_def valid_layout_start_def valid_layout_start_sym_def line_valid_def Let_def)

lemma post_line:
  assumes v: "line_valid (symbols e)" and nl: "newline e = line_start st n semi" and st: "st \<in> {NInit, NProcess}"
    and cs: "contexts e = ds @ [c]" and c: "\<not> (sort c < Braces \<and> n < indent c)"
  shows "runs (newline_post E T e) (\<lambda>(r, e'). r \<noteq> FAIL
     \<and> r = (if \<not> semi \<and> sort c < MultiWayIfLayout \<and> indent c = n then SEMICOLON else UPDATE) \<and> contexts e' = contexts e
     \<and> newline e' = (if \<not> semi \<and> sort c < MultiWayIfLayout \<and> indent c = n then line_start NProcess n True else newline_zero))"
proof -
  have "\<not> indent_less e n" using c last_context [OF cs] by (auto simp: indent_less_def)
  then have safe: "end_layout_indent e = (FAIL, e)" "process_token_safe E T (nl_end (newline e)) e = Some (FAIL, e)"
    using nl by (simp_all add: end_layout_indent_def process_token_safe_def line_start_def)
  have lay: "sort c < MultiWayIfLayout \<Longrightarrow> sort c < Braces" by (cases "sort c") (simp_all add: less_hs_sort_def)
  let ?b = "\<not> semi \<and> sort c < MultiWayIfLayout \<and> indent c = n"
  have semi: "semicolon e2 = (if ?b then (SEMICOLON, e2\<lparr>newline := line_start st n True\<rparr>) else (FAIL, e2))"
    if "contexts e2 = contexts e" "newline e2 = newline e" for e2
    using last_context [of e2 ds c] that cs c nl lay
    by (auto simp: semicolon_def indent_lesseq_def line_start_def)
  have final: "newline_final E T n LNothing (reset_newline e2) = Some (UPDATE, reset_newline e2)" if "contexts e2 = contexts e" for e2
    using that cs by (simp add: newline_final_def SEQ_def uninitialized_def reset_newline_def process_token_symop_def process_token_splice_def)
  have "runs (newline_process E T e) (\<lambda>(r, e'). r = (if ?b then SEMICOLON else UPDATE) \<and> contexts e' = contexts e
      \<and> newline e' = (if ?b then line_start st n True else newline_zero))"
    unfolding newline_process_def Let_def safe SEQ_def Option.bind.bind_lunit prod.case runs_bind simp_thms if_False runs_bind
  proof (rule runs_weaken [OF runs_skip_whitespace], clarify, goal_cases)
    case (1 sp e1)
    define e2 where "e2 = hs_mark E e1"
    have e: "contexts e2 = contexts e" "newline e2 = newline e" "symbols e2 = symbols e" using 1 by (auto simp: hs_skips_def e2_def)
    have "start_layout_newline E e2 = (FAIL, e2)" using v e by (simp add: no_start)
    moreover have "\<not> nl_unsafe (newline e2)" "\<not> nl_eof (newline e2)" "nl_end (newline e) = LNothing" "nl_indent (newline e) = n"
      using nl e by (simp_all add: line_start_def)
    ultimately show ?case
      unfolding e2_def [symmetric] by (simp add: semi [OF e(1,2)] final [OF e(1)]) (simp add: e reset_newline_def)
  qed
  then show ?thesis
    using st unfolding newline_post_def
    by (auto simp: newline_init_def line_start_def newline_zero_def elim!: runs_weaken split: if_splits)
qed

lemma scans_step:
  assumes v: "line_valid v" and s: "hs_saves s" "newline s = line_start st n semi" and st: "st \<in> {NInit, NProcess}"
    and post: "\<And>e. contexts e = contexts s \<Longrightarrow> newline e = newline s \<Longrightarrow> symbols e = v \<Longrightarrow>
      runs (newline_post E T e) (\<lambda>(r, e'). r \<noteq> FAIL \<and> r = r0 \<and> contexts e' = cs \<and> newline e' = nl')"
    and more: "\<And>s'. contexts s' = cs \<Longrightarrow> newline s' = nl' \<Longrightarrow> runs (hs_scans E T v s' ls) (\<lambda>(rs, s'). rs = rs0 \<and> P s')"
  shows "runs (hs_scans E T v s (l # ls)) (\<lambda>(rs, s'). rs = r0 # rs0 \<and> P s')"
proof -
  let ?s = "s\<lparr>contexts := contexts s, newline := newline s, contents := [], offset := 0\<rparr>"
  have "runs (hs_scan E T v ?s l) (\<lambda>(b, s', l'). b \<and> result_symbol l' = r0 \<and> contexts s' = cs \<and> newline s' = nl')"
    using s by (intro scan_active [OF v _ st] post) (simp_all add: env_new_def hs_state.defs hs_env.defs)
  then have "runs (hs_scan E T v ?s l) (\<lambda>(b, s', l'). runs (hs_scans E T v s' ls)
      (\<lambda>(rs, s'). (if b then result_symbol l' else FAIL) # rs = r0 # rs0 \<and> P s'))"
    by (rule runs_weaken) (auto intro!: runs_weaken [OF more])
  then show ?thesis using s(1) by (simp add: hs_restore split_def)
qed

lemma scans_line:
  assumes v: "line_valid v" and s: "hs_saves s" "newline s = line_start st n semi" and st: "st \<in> {NInit, NProcess}"
    and cs: "contexts s = ds @ [c]" and c: "\<not> (sort c < Braces \<and> n < indent c)"
    and ls: "length ls = length (if semi then [UPDATE] else line_tokens n c)"
  shows "runs (hs_scans E T v s ls) (\<lambda>(rs, s'). rs = (if semi then [UPDATE] else line_tokens n c)
     \<and> contexts s' = contexts s \<and> newline s' = newline_zero)"
  using s st cs ls
proof (induction ls arbitrary: s st semi)
  case (Cons l ls)
  let ?b = "\<not> semi \<and> sort c < MultiWayIfLayout \<and> indent c = n"
  have "runs (hs_scans E T v s' ls) (\<lambda>(rs, s''). rs = (if ?b then [UPDATE] else []) \<and> contexts s'' = contexts s \<and> newline s'' = newline_zero)"
    if "contexts s' = contexts s" "newline s' = (if ?b then line_start NProcess n True else newline_zero)" for s'
  proof (cases ?b)
    case True
    then show ?thesis using Cons.IH [of s' NProcess True] Cons.prems that by (simp add: hs_saves_def line_tokens_def)
  qed (use Cons.prems that in \<open>auto simp: line_tokens_def split: if_splits\<close>)
  note more = this
  have "runs (newline_post E T e) (\<lambda>(r, e'). r \<noteq> FAIL \<and> r = (if ?b then SEMICOLON else UPDATE) \<and> contexts e' = contexts s
      \<and> newline e' = (if ?b then line_start NProcess n True else newline_zero))"
    if "contexts e = contexts s" "newline e = newline s" "symbols e = v" for e
    using post_line [of e st n semi ds c T] v c that Cons.prems(2-4) by simp
  note post = this
  have tokens: "(if semi then [UPDATE] else line_tokens n c) = (if ?b then SEMICOLON else UPDATE) # (if ?b then [UPDATE] else [])"
    by (auto simp: line_tokens_def)
  show ?case
    unfolding tokens by (rule scans_step [OF v Cons.prems(1-3) post more])
qed (simp add: line_tokens_def split: if_splits)

lemma scans_newline:
  assumes v: "line_valid v" and "hs_saves s" and "newline s = line_start st n False" and "st \<in> {NInit, NProcess}"
    and "contexts s = rev cs" and "cs \<noteq> []" and "length ls = length (layout_tokens n cs)"
  shows "runs (hs_scans E T v s ls) (\<lambda>(rs, s'). rs = layout_tokens n cs \<and> contexts s' = rev (layout_left n cs) \<and> newline s' = newline_zero)"
  using assms(2-)
proof (induction cs arbitrary: s st ls)
  case (Cons c cs)
  have cs: "contexts s = rev cs @ [c]" using Cons.prems(4) by simp
  show ?case
  proof (cases "sort c < Braces \<and> n < indent c")
    case True
    obtain l ls' where ls: "ls = l # ls'" using Cons.prems(6) True by (cases ls) (auto split: if_splits)
    let ?cs = "if cs = [] then [c\<lparr>indent := n\<rparr>] else rev cs"
    let ?rs = "if cs = [] then line_tokens n (c\<lparr>indent := n\<rparr>) else layout_tokens n cs"
    have post: "runs (newline_post E T e) (\<lambda>(r, e'). r \<noteq> FAIL \<and> r = (if cs = [] then UPDATE else END) \<and> contexts e' = ?cs
        \<and> newline e' = line_start NProcess n False)"
      if "contexts e = contexts s" "newline e = newline s" "symbols e = v" for e
      using post_end [of e st n False "rev cs" c T] v True that Cons.prems(2,3) cs by simp
    have more: "runs (hs_scans E T v s' ls') (\<lambda>(rs, s''). rs = ?rs \<and> contexts s'' = rev (layout_left n (c # cs)) \<and> newline s'' = newline_zero)"
      if s': "contexts s' = ?cs" "newline s' = line_start NProcess n False" for s'
    proof (cases "cs = []")
      case top: True
      show ?thesis
        using scans_line [OF v _ s'(2), of "[]" "c\<lparr>indent := n\<rparr>" ls' T] s' True top ls Cons.prems(6) by (simp add: hs_saves_def)
    next
      case False
      then show ?thesis
        using Cons.IH [of s' NProcess ls'] s' True ls Cons.prems by (simp add: hs_saves_def)
    qed
    have "layout_tokens n (c # cs) = (if cs = [] then UPDATE else END) # ?rs" using True by simp
    then show ?thesis unfolding ls by (simp only: scans_step [OF v Cons.prems(1-3) post more])
  next
    case False
    then show ?thesis using scans_line [OF v Cons.prems(1-3) cs False, of ls T] Cons.prems(6) cs by auto
  qed
qed simp

end

text \<open>C0. Liveness of the layout algorithm: when the Haskell scanner has met a new line of indentation \<open>n\<close>
  that starts with an ordinary word, the scans that follow, each from the saved state and wherever
  the lexer stands, report exactly the tokens of the layout algorithm: an end for every layout that
  is deeper than the line, a semicolon if the layout that is left is as deep, and an UPDATE with
  which the newline is done; the stack is what the algorithm leaves of it. The layout at the bottom
  is not ended but moved to the left, with an UPDATE of its own. This is for a stack of 1 to 125
  contexts, and for valid symbols with END among them but no start of a layout, no bracket or brace
  and no quasiquote.\<close>

theorem hs_newline_done:
  assumes "ts_lexer E rest" and "line_valid v" and "hs_saves s" and "contexts s \<noteq> []"
    and "newline s = line_start NProcess n False" and "length ls = length (layout_tokens n (rev (contexts s)))"
  shows "\<exists>s'. hs_scans E T v s ls = Some (layout_tokens n (rev (contexts s)), s')
     \<and> contexts s' = rev (layout_left n (rev (contexts s))) \<and> newline s' = newline_zero"
proof -
  have "runs (hs_scans E T v s ls) (\<lambda>(rs, s'). rs = layout_tokens n (rev (contexts s))
      \<and> contexts s' = rev (layout_left n (rev (contexts s))) \<and> newline s' = newline_zero)"
    by (rule ts_lexer.scans_newline [OF assms(1-3,5)]) (use assms(4,6) in auto)
  then show ?thesis by (auto dest!: runs_pairD)
qed

theorem hs_newline_done_witness:
  "\<exists>s'. hs_scans list_env ascii_tables (\<lambda>r. r = END \<or> r = SEMICOLON)
       (hs_create\<lparr>contexts := [\<lparr>sort = DeclLayout, indent = 0\<rparr>, \<lparr>sort = DoLayout, indent = 2\<rparr>, \<lparr>sort = CaseLayout, indent = 4\<rparr>],
          newline := line_start NProcess 0 False\<rparr>)
       (replicate 4 (lex_string FAIL ''x = 1'')) = Some ([END, END, SEMICOLON, UPDATE], s')
     \<and> contexts s' = [\<lparr>sort = DeclLayout, indent = 0\<rparr>] \<and> newline s' = newline_zero"
  using hs_newline_done [OF ts_lexer_list_env, of "\<lambda>r. r = END \<or> r = SEMICOLON" "hs_create\<lparr>contexts := [\<lparr>sort = DeclLayout, indent = 0\<rparr>,
        \<lparr>sort = DoLayout, indent = 2\<rparr>, \<lparr>sort = CaseLayout, indent = 4\<rparr>], newline := line_start NProcess 0 False\<rparr>" 0
      "replicate 4 (lex_string FAIL ''x = 1'')" ascii_tables]
  by (simp add: line_valid_def hs_saves_def line_tokens_def less_hs_sort_def)

text \<open>C3. In every state that a Haskell scanner reaches by scans, saves and restores, the layouts on the stack
  get deeper from the bottom to the top (a do block may be as deep as the layout around it, and
  braces start afresh), the module header can only be at the bottom, and the flag for the end of the
  input, which the documentation of the newline mode describes, is not set.\<close>

theorem hs_reachable_wf:
  assumes "ts_lexer E rest" and "hs_reachable E T s"
  shows "hs_wf (contexts s) \<and> \<not> nl_eof (newline s)"
  by (rule hs_reachable_inv [OF assms])

theorem hs_reachable_wf_witness:
  "\<exists>b s' l'. hs_scan list_env ascii_tables (\<lambda>r. r = START_TEXP) hs_create (lex_string FAIL ''(x)'') = Some (b, s', l')
     \<and> hs_wf (contexts s') \<and> \<not> nl_eof (newline s')"
proof -
  obtain b s' l' where s: "hs_scan list_env ascii_tables (\<lambda>r. r = START_TEXP) hs_create (lex_string FAIL ''(x)'') = Some (b, s', l')"
    using runs_tripleD [OF runs_hs_scan [OF ts_lexer_list_env]] by blast
  with hs_reachable_wf [OF ts_lexer_list_env reach_scan [OF reach_create s]] show ?thesis by simp
qed

text \<open>C21. A Haskell scanner with at most 125 contexts is restored exactly (with an empty lookahead buffer); a
  larger one comes back as a new scanner that looks for a newline. The saved bytes always fit.\<close>

theorem hs_serialize_roundtrip:
  "hs_deserialize t (hs_serialize s) =
     Some (if length (contexts s) \<le> 125 then t\<lparr>contexts := contexts s, newline := newline s, contents := [], offset := 0\<rparr> else hs_reset)
   \<and> length (hs_serialize s) \<le> TREE_SITTER_SERIALIZATION_BUFFER_SIZE"
  using hs_restore [of t s] hs_serialize_fits [of s] by (simp add: hs_saves_def)

end
