(* ===== verification/Haskell_Comments.thy ===== *)
theory Haskell_Comments
  imports Haskell_Scan
begin

text \<open>
  Block comments of the Haskell scanner: where a comment ends, and the comments that do not end
  where they should.
\<close>

text \<open>
  What is left behind a comment of which \<open>cs\<close> is to be read, \<open>k\<close> comments inside the outermost one:
  the reference for the loop over the characters. The depth is a \<^verbatim>\<open>uint32_t\<close>.
\<close>

fun comment_rest :: "32 word \<Rightarrow> int list \<Rightarrow> int list" where
  "comment_rest k (c # d # cs) =
     (if c = 123 \<and> d = 45 then comment_rest (k + 1) cs
      else if c = 45 \<and> d = 125 then if k = 0 then cs else comment_rest (k - 1) cs
      else comment_rest k (d # cs))"
| "comment_rest k cs = []"

text \<open>A bar or a caret in front of the text makes it documentation; the space in front of them does not matter.\<close>

definition comment_symbol :: "int \<Rightarrow> hs_symbol" where
  "comment_symbol c = (if c = 124 \<or> c = 94 then HADDOCK else COMMENT)"

lemma takeWhile_replicate_front: "nth0 ys 0 \<noteq> x \<Longrightarrow> length (takeWhile (\<lambda>c. c = x) (replicate n x @ ys)) = n"
  by (induction n) (cases ys; simp)+

definition comment_blank :: "hs_tables \<Rightarrow> int \<Rightarrow> bool" where
  "comment_blank T c \<longleftrightarrow> is_space_char T c \<and> c \<noteq> 124 \<and> c \<noteq> 94"

lemma comment_blank_0 [simp]: "\<not> comment_blank T 0"
  by (simp add: comment_blank_def)

context ts_lexer
begin

lemma peek_length_exact:
  "length (contents (snd (peek E i e))) = max (length (contents e)) (min (offset e + i) (length (hs_view e)))"
  using length_view [of e] by (auto simp: peek_def Let_def length_before max_def min_def)

text \<open>The lexer has read exactly the first \<open>i\<close> characters behind the offset.\<close>

definition hs_at :: "'l hs_env \<Rightarrow> nat \<Rightarrow> 'l hs_env \<Rightarrow> bool" where
  "hs_at e i e' \<longleftrightarrow> hs_looks e e' \<and> length (contents e') = min (offset e + i) (length (hs_view e))"

lemma hs_at_rest: "hs_at e i e' \<Longrightarrow> rest (raw (lexer e')) = drop i (ahead e)"
proof -
  assume a: "hs_at e i e'"
  have "rest (raw (lexer e')) = drop (length (contents e')) (hs_view e')" by (simp add: hs_view_def)
  then show ?thesis using a by (auto simp: hs_at_def hs_looks_def min_def ac_simps split: if_splits)
qed

lemma wp_peek_at:
  assumes "hs_at e j e1" and "j \<le> i" and "\<And>e'. hs_at e i e' \<Longrightarrow> P (nth0 (ahead e) i) e'"
  shows "case_prod P (peek E i e1)"
proof -
  have v: "hs_view e1 = hs_view e" "offset e1 = offset e" using assms(1) by (simp_all add: hs_at_def hs_looks_def)
  have "hs_at e i (snd (peek E i e1))"
    using assms(1,2) peek_looks_from [of e e1 i] peek_length_exact [of i e1] v by (auto simp: hs_at_def)
  with assms(3) peek_value [of i e1] v show ?thesis by (cases "peek E i e1") (simp add: nth0_drop)
qed

lemma runs_advance_while_at:
  assumes "\<not> p 0" and "hs_at e k e1" and "k \<le> i"
  shows "runs (hs_advance_while E i p e1) (\<lambda>(n, e'). n = i + length (takeWhile p (drop i (ahead e))) \<and> hs_at e n e')"
proof -
  have "runs (hs_advance_while E i p e1) (\<lambda>(n, e'). hs_at e n e')"
    unfolding hs_advance_while_def
  proof (rule runs_c_loop [where m = "\<lambda>(j, e'). Suc (length (ahead e)) - j" and I = "\<lambda>(j, e'). \<exists>k \<le> j. hs_at e k e'"], goal_cases)
    case (2 x)
    then obtain j k e2 where x: "x = (j, e2)" and k: "k \<le> j" "hs_at e k e2" by (cases x) auto
    show ?case
      unfolding x prod.case runs_prod
    proof (rule wp_peek_at [OF k(2,1)], goal_cases)
      case (1 e3)
      have "j < length (ahead e)" if "p (nth0 (ahead e) j)" using that assms(1) nth0_nonzero by metis
      with 1 show ?case by (auto intro: exI [of _ j] simp del: length_drop)
    qed
  qed (use assms in auto)
  moreover have "runs (hs_advance_while E i p e1) (\<lambda>(n, e'). n = i + length (takeWhile p (drop i (ahead e))))"
    using runs_hs_advance_while [where p = p and e = e1 and i = i] assms by (auto simp: hs_at_def hs_looks_def elim!: runs_weaken)
  ultimately show ?thesis by (rule runs_weaken [OF runs_conj]) auto
qed

lemma takeWhile_nth0_Cons:
  assumes "\<not> p 0"
  shows "p (nth0 xs i) \<Longrightarrow> takeWhile p (drop i xs) = nth0 xs i # takeWhile p (drop (Suc i) xs)"
    and "\<not> p (nth0 xs i) \<Longrightarrow> takeWhile p (drop i xs) = []"
proof -
  show "takeWhile p (drop i xs) = nth0 xs i # takeWhile p (drop (Suc i) xs)" if p: "p (nth0 xs i)"
  proof -
    have i: "i < length xs" using p assms nth0_nonzero by metis
    then have "nth0 xs i = xs ! i" by (simp add: nth0_def)
    with p show ?thesis using Cons_nth_drop_Suc [OF i] by (metis takeWhile.simps(2))
  qed
  show "takeWhile p (drop i xs) = []" if "\<not> p (nth0 xs i)"
    using that nth0_drop [of i xs 0] by (cases "drop i xs") auto
qed

lemma runs_comment_type_loop:
  assumes "hs_at e k e1" and "k \<le> i" and "k < i \<longrightarrow> drop k (ahead e) \<noteq> []" and "length (takeWhile (comment_blank T) (drop i (ahead e))) = n"
  shows "runs (c_loop (comment_type_step E T) (i, e1)) (\<lambda>(r, e'). r = comment_symbol (nth0 (ahead e) (i + n)) \<and> hs_at e (i + n) e')"
  using assms
proof (induction n arbitrary: i k e1)
  case 0
  show ?case
  proof (cases "rest (raw (lexer e1)) = []")
    case True
    then have "k = i \<and> length (ahead e) \<le> i" using 0 hs_at_rest [OF 0(1)] by auto
    with True 0 show ?thesis by (subst runs_c_loop_unfold) (simp add: comment_type_step_def comment_symbol_def nth0_def)
  next
    case False
    have "\<not> comment_blank T (nth0 (ahead e) i)" using 0(4) takeWhile_nth0_Cons(1) [of "comment_blank T" "ahead e" i] by auto
    then show ?thesis
      using False by (subst runs_c_loop_unfold) (simp add: comment_type_step_def, rule wp_peek_at [OF 0(1,2)], auto simp: comment_symbol_def comment_blank_def)
  qed
next
  case (Suc n)
  have sp: "comment_blank T (nth0 (ahead e) i)"
    using Suc.prems(4) takeWhile_nth0_Cons(2) [of "comment_blank T" "ahead e" i] by fastforce
  then have "nth0 (ahead e) i \<noteq> 0" by auto
  then have i: "i < length (ahead e)" by (rule nth0_nonzero)
  have n: "length (takeWhile (comment_blank T) (drop (i + 1) (ahead e))) = n"
    using Suc.prems(4) takeWhile_nth0_Cons(1) [of "comment_blank T" "ahead e" i] sp by auto
  have "rest (raw (lexer e1)) \<noteq> []" using hs_at_rest [OF Suc.prems(1)] Suc.prems(2) i by simp
  moreover have "runs (c_loop (comment_type_step E T) (i + 1, e')) (\<lambda>(r, e'). r = comment_symbol (nth0 (ahead e) (i + Suc n)) \<and> hs_at e (i + Suc n) e')"
    if "hs_at e i e'" for e'
    using Suc.IH [OF that, of "i + 1"] n i by simp
  ultimately show ?case
    using sp by (subst runs_c_loop_unfold) (simp add: comment_type_step_def, rule wp_peek_at [OF Suc.prems(1,2)], auto simp: comment_blank_def)
qed

lemma runs_comment_type_exact:
  assumes "hs_at e k e1" and "k \<le> 2" and "ahead e = 123 # 45 # replicate n 45 @ sp @ zs" and "\<forall>c \<in> set sp. comment_blank T c"
    and "\<not> comment_blank T (nth0 zs 0)" and "nth0 (sp @ zs) 0 \<noteq> 45"
  shows "runs (comment_type E T e1) (\<lambda>(r, e'). r = comment_symbol (nth0 zs 0) \<and> rest (raw (lexer e')) = zs \<and> hs_looks e e')"
proof -
  have dashes: "length (takeWhile (\<lambda>c. c = 45) (drop 2 (ahead e))) = n"
    using takeWhile_replicate_front [of "sp @ zs" 45 n] assms(3,6) by (simp add: numeral_2_eq_2)
  have d: "drop (2 + n) (ahead e) = sp @ zs" using assms(3) by (simp add: numeral_2_eq_2)
  then have "takeWhile (comment_blank T) (drop (2 + n) (ahead e)) = sp"
    using assms(4,5) by (cases zs) (auto simp: takeWhile_append)
  then have sp: "length (takeWhile (comment_blank T) (drop (2 + n) (ahead e))) = length sp" by (rule arg_cong)
  have zs: "drop (2 + n + length sp) (ahead e) = zs" using arg_cong [OF d, of "drop (length sp)"] by (simp add: ac_simps)
  have "runs (hs_advance_while E 2 (\<lambda>c. c = ch CHR ''-'') e1) (\<lambda>(i, e'). i = 2 + n \<and> hs_at e (2 + n) e')"
    using dashes by (intro runs_weaken [OF runs_advance_while_at [OF _ assms(1,2)]]) auto
  moreover have "runs (c_loop (comment_type_step E T) (2 + n, e2)) (\<lambda>(r, e'). r = comment_symbol (nth0 zs 0) \<and> rest (raw (lexer e')) = zs \<and> hs_looks e e')"
    if "hs_at e (2 + n) e2" for e2
  proof (rule runs_weaken [OF runs_comment_type_loop [OF that order.refl _ sp]], simp, clarify, goal_cases)
    case (1 r e')
    then show ?case
      using hs_at_rest [OF 1] nth0_drop [of "2 + n + length sp" "ahead e" 0] zs by (simp add: hs_at_def del: drop_drop)
  qed
  ultimately show ?thesis
    unfolding comment_type_def runs_bind by (auto elim!: runs_weaken)
qed

lemma runs_consume_exact:
  "runs (consume_block_comment E col e) (\<lambda>(c, e'). rest (raw (lexer e')) = comment_rest 0 (rest (raw (lexer e))))"
  unfolding consume_block_comment_def
proof (rule runs_c_loop [where m = "\<lambda>(c, k, e'). to_read e'"
      and I = "\<lambda>(c, k, e'). comment_rest k (rest (raw (lexer e'))) = comment_rest 0 (rest (raw (lexer e)))"], goal_cases)
  case (2 x)
  then obtain c k e1 where x: "x = (c, k, e1)" and I: "comment_rest k (rest (raw (lexer e1))) = comment_rest 0 (rest (raw (lexer e)))"
    by (cases x) auto
  have adv: "rest (raw (lexer (hs_advance E e'))) = tl (rest (raw (lexer e')))" for e' by (simp add: hs_advance_def)
  have pk: "hs_peek_char E e' = nth0 (rest (raw (lexer e'))) 0" for e' by (simp add: hs_peek_char_def lookahead_view split: list.split)
  consider "rest (raw (lexer e1)) = []" | a where "rest (raw (lexer e1)) = [a]" | a b cs where "rest (raw (lexer e1)) = a # b # cs"
    by (metis neq_Nil_conv)
  then show ?case
    by cases (use I in \<open>auto simp: x block_comment_step_def Let_def adv pk\<close>)
qed simp

lemma runs_block_comment_exact:
  assumes "hs_at e k e1" and "k \<le> 2" and "ahead e = 123 # 45 # replicate n 45 @ sp @ zs"
    and "\<forall>c \<in> set sp. comment_blank T c" and "\<not> comment_blank T (nth0 zs 0)" and "nth0 (sp @ zs) 0 \<noteq> 45"
  shows "runs (block_comment E T e1) (\<lambda>(r, e'). r = comment_symbol (nth0 zs 0) \<and> rest (raw (lexer e')) = comment_rest 0 zs
     \<and> (\<exists>x. raw (lexer e') = lexer_mark_end E x))"
  unfolding block_comment_def runs_bind
  by (rule runs_weaken [OF runs_comment_type_exact [OF assms]]) (auto simp: hs_mark_def mark_end_def rest_mark_end intro!: runs_weaken [OF runs_consume_exact])

text \<open>The scan reaches the comment.\<close>

lemma peek_atD:
  assumes "peek E i e1 = (c, e2)" and "hs_at e j e1" and "j \<le> i"
  shows "c = nth0 (ahead e) i \<and> hs_at e i e2"
  using wp_peek_at [OF assms(2,3), of "\<lambda>c e'. c = nth0 (ahead e) i \<and> hs_at e i e'"] assms(1) by simp

lemma runs_lex_block_comment:
  assumes e: "hs_at e 0 e" and c: "nth0 (ahead e) 0 = 123" "nth0 (ahead e) 1 = 45" "nth0 (ahead e) 2 \<noteq> 35"
  shows "runs (lex E T b e) (\<lambda>(t, e'). t = LBlockComment \<and> hs_at e 2 e')"
proof -
  obtain c0 e0 where p0: "peek E 0 e = (c0, e0)" by fastforce
  note a0 = peek_atD [OF p0 e order.refl]
  obtain c1 e1 where p1: "peek E 1 e0 = (c1, e1)" by fastforce
  note a1 = peek_atD [OF p1 conjunct2 [OF a0] zero_le]
  obtain c2 e2 where p2: "peek E 2 e1 = (c2, e2)" by fastforce
  note a2 = peek_atD [OF p2 conjunct2 [OF a1] one_le_numeral]
  have "lex_extras E T b e = Some (LBlockComment, e2)"
    using a0 a1 a2 c p0 p1 p2 by (simp add: lex_extras_def lex_brace_def char_at_def)
  then show ?thesis using a2 by (simp add: lex_def)
qed

lemma runs_scan_block_comment:
  assumes v: "\<forall>r \<in> {FAIL, START_TEXP, END_TEXP, START_BRACE, END_BRACE, QQ_BODY}. \<not> v r" and nl: "nl_state (newline s) = NInactive"
    and s: "contents s = []" "offset s = 0" and l: "rest (raw l) = 123 # 45 # replicate n 45 @ sp @ zs"
    and sp: "\<not> is_space_char T 123" "\<forall>c \<in> set sp. comment_blank T c" "\<not> comment_blank T (nth0 zs 0)" "nth0 (sp @ zs) 0 \<noteq> 45"
    and "nth0 (replicate n 45 @ sp @ zs) 0 \<noteq> 35"
  shows "runs (hs_scan E T v s l) (\<lambda>(b, s', l'). b \<and> result_symbol l' = comment_symbol (nth0 zs 0) \<and> rest (raw l') = comment_rest 0 zs
     \<and> (\<exists>x. raw l' = lexer_mark_end E x))"
proof -
  let ?e = "hs_mark E (env_new l v s)"
  have e: "symbols ?e = v" "newline ?e = newline s" "contents ?e = []" "offset ?e = 0" "rest (raw (lexer ?e)) = 123 # 45 # replicate n 45 @ sp @ zs"
    using s l by (simp_all add: env_new_def hs_state.defs hs_env.defs hs_mark_def)
  then have a: "ahead ?e = 123 # 45 # replicate n 45 @ sp @ zs" by (simp add: hs_view_def)
  have pk: "hs_peek_char E ?e = 123" using e(3,5) by (simp add: hs_peek_char_view hs_view_def)
  have pre: "pre_ws_commands E T ?e = Some (FAIL, ?e)" "skip_space E T ?e = Some (False, ?e)"
    using v nl e pk sp(1)
    by (simp_all add: pre_ws_commands_def texp_context_def start_brace_def end_brace_def SEQ_def newline_active_def skip_space_def skip_chars_def)
  have "runs (lex E T False ?e) (\<lambda>(t, e'). t = LBlockComment \<and> hs_at ?e 2 e')"
    by (rule runs_lex_block_comment) (use e a assms(10) in \<open>simp_all add: hs_at_def hs_view_def numeral_2_eq_2\<close>)
  then have "runs (interior E T False ?e) (\<lambda>(r, e'). r = comment_symbol (nth0 zs 0) \<and> rest (raw (lexer e')) = comment_rest 0 zs
      \<and> (\<exists>x. raw (lexer e') = lexer_mark_end E x))"
    unfolding interior_def runs_bind
  proof (rule runs_weaken, clarify, goal_cases)
    case (1 t e1)
    have "process_token_interior E T LBlockComment e1 = SEQ (block_comment E T e1) (\<lambda>e. Some (start_layout_interior E LBlockComment e))"
      by (simp add: process_token_interior_def process_token_safe_def)
    then show ?case
      using runs_block_comment_exact [OF 1(2) order.refl a sp(2-4)]
      by (auto simp: resolve_semicolon_def SEQ_def comment_symbol_def elim!: runs_weaken)
  qed
  then show ?thesis
    using v pre pk e(5) unfolding hs_scan_def hs_scan_env_def scan_main_def SEQ_def
    by (auto simp: env_new_def hs_state.defs hs_env.defs process_result_def set_result_symbol_def is_newline_def comment_symbol_def
        simp del: hs_peek_char_view elim!: runs_weaken)
qed

end

lemma comment_rest_no_dash: "45 \<notin> set cs \<Longrightarrow> comment_rest k cs = []"
  by (induction k cs rule: comment_rest.induct) auto

lemma ascii_braces: "\<not> is_space_char ascii_tables 123" "\<not> is_space_char ascii_tables 125" "\<not> comment_blank ascii_tables 97"
  by (simp_all add: comment_blank_def is_space_char_def hs_bit_def ascii_tables_def)

text \<open>C32. A Haskell block comment, with nested comments in it: the scan reports a comment (documentation when its
  text starts with a bar or a caret), and the end of the token is where the reference for nested
  comments says, the text behind it being left to read. But the dashes and the space behind the
  opening are read before the comment's end is looked for. This is for a scan from a restored state
  in the middle of a line (no newline is being processed), where no bracket, brace or quasiquote
  symbol is valid, for a comment that is no pragma; brace and space are told apart by the tables.\<close>

theorem hs_block_comment_end:
  assumes "ts_lexer_marks E rest pos token_end" and "\<forall>r \<in> {FAIL, START_TEXP, END_TEXP, START_BRACE, END_BRACE, QQ_BODY}. \<not> v r"
    and "nl_state (newline s) = NInactive" and "contents s = []" and "offset s = 0"
    and "rest (raw l) = 123 # 45 # replicate n 45 @ sp @ zs" and "nth0 (replicate n 45 @ sp @ zs) 0 \<noteq> 35"
    and "\<not> is_space_char T 123" and "\<forall>c \<in> set sp. comment_blank T c" and "\<not> comment_blank T (nth0 zs 0)" and "nth0 (sp @ zs) 0 \<noteq> 45"
  shows "\<exists>s' l'. hs_scan E T v s l = Some (True, s', l') \<and> result_symbol l' = comment_symbol (nth0 zs 0)
     \<and> rest (raw l') = comment_rest 0 zs \<and> token_end (raw l') = pos (raw l')"
proof -
  have L: "ts_lexer E rest" using assms(1) by (simp add: ts_lexer_marks_def)
  have "token_end (lexer_mark_end E x) = pos (lexer_mark_end E x)" for x
    using assms(1) by (simp add: ts_lexer_marks_def ts_lexer_marks_axioms_def)
  then show ?thesis
    using runs_tripleD [OF ts_lexer.runs_scan_block_comment [OF L assms(2-6) assms(8-11,7)]] by auto
qed

theorem hs_block_comment_end_witness:
  "\<exists>s' l'. hs_scan list_env ascii_tables (\<lambda>r. r = COMMENT) hs_create (lex_string FAIL ''{-a{-b-}-}c'') = Some (True, s', l')
     \<and> result_symbol l' = COMMENT \<and> ll_rest (raw l') = [99] \<and> ll_end (raw l') = ll_pos (raw l')"
  using hs_block_comment_end [OF list_lexer.ts_lexer_marks_axioms, of "\<lambda>r. r = COMMENT" hs_create "lex_string FAIL ''{-a{-b-}-}c''" 0 "[]"
      "[97, 123, 45, 98, 45, 125, 45, 125, 99]" ascii_tables]
  by (simp add: hs_create_def newline_zero_def lex_string_def ascii_braces comment_symbol_def)

text \<open>C33. A comment that consists of dashes, the shortest of them written as two braces with two dashes in
  between, is not closed by its brace: since the dashes have been read already, the scan looks for
  another end, and when no dash follows it takes in the rest of the file. This is for a scan from a
  restored state in the middle of a line (no newline is being processed), where no bracket, brace or
  quasiquote symbol is valid, and tables in which braces are no space.\<close>

theorem hs_dashes_comment_unclosed:
  assumes "ts_lexer E rest" and "\<forall>r \<in> {FAIL, START_TEXP, END_TEXP, START_BRACE, END_BRACE, QQ_BODY}. \<not> v r"
    and "nl_state (newline s) = NInactive" and "contents s = []" and "offset s = 0"
    and "rest (raw l) = 123 # 45 # replicate (Suc n) 45 @ 125 # cs" and "45 \<notin> set cs"
    and "\<not> is_space_char T 123" and "\<not> is_space_char T 125"
  shows "\<exists>s' l'. hs_scan E T v s l = Some (True, s', l') \<and> result_symbol l' = COMMENT \<and> rest (raw l') = []"
proof -
  have "comment_rest 0 (125 # cs) = []" using assms(7) by (intro comment_rest_no_dash) auto
  then show ?thesis
    using runs_tripleD [OF ts_lexer.runs_scan_block_comment [OF assms(1-5), of l "Suc n" "[]" "125 # cs" T]] assms(6,8,9)
    by (auto simp: comment_blank_def comment_symbol_def)
qed

theorem hs_dashes_comment_unclosed_witness:
  "\<exists>s' l'. hs_scan list_env ascii_tables (\<lambda>r. r = COMMENT) hs_create (lex_string FAIL ''{--} x = 1'') = Some (True, s', l')
     \<and> result_symbol l' = COMMENT \<and> ll_rest (raw l') = []"
  using hs_dashes_comment_unclosed [OF ts_lexer_list_env, of "\<lambda>r. r = COMMENT" hs_create "lex_string FAIL ''{--} x = 1''" 0
      "[32, 120, 32, 61, 32, 49]" ascii_tables]
  by (simp add: hs_create_def newline_zero_def lex_string_def ascii_braces)

end
