(* ===== verification/Spec2Isabelle.thy ===== *)
theory Spec2Isabelle
  imports
    Toml_Scanner Css_Scanner Cpp_Scanner Lua_Scanner Julia_Scanner JavaScript_Scanner
    Html_Scanner Xml_Scanner Python_Scanner CSharp_Scanner Hcl_Scanner Scala_Scanner
    Yaml_Scalars Yaml_Save Ruby_Save Bash_Save TypeScript_Scanner Php_Scanner
    Haskell_Save Haskell_Comments
begin

text \<open>
  \<^bold>\<open>The program.\<close> Graphit Code reads the source trees of a project in many languages and
  builds a graph of their symbols. Its front end (\<^verbatim>\<open>crates/graphit-ast\<close>) parses the
  sources with tree-sitter. A tree-sitter grammar is a generated table-driven parser
  (\<^verbatim>\<open>parser.c\<close>) and, where the language is not context free, an \<^emph>\<open>external scanner\<close>
  written by hand in C. These scanners, in
  \<^verbatim>\<open>src/crates/graphit-ast/grammars/tree_sitter/<language>/src/scanner.c\<close>, are the C code
  of the repository that is written by hand, and this development is about them. All
  paths below are relative to \<^verbatim>\<open>grammars/tree_sitter\<close>.

  \<^bold>\<open>How the parts interact.\<close> When the parser needs a token the grammar declares external,
  the tree-sitter runtime calls \<^verbatim>\<open>scan\<close> of the grammar with a scanner object, a lexer
  and the array \<^verbatim>\<open>valid_symbols\<close> of the tokens that may come. The scanner reads
  characters through the callbacks of \<^verbatim>\<open>TSLexer\<close>, marks the end of the token, stores its
  kind in \<^verbatim>\<open>result_symbol\<close> and returns whether there is a token. After each token the
  runtime saves the object with \<^verbatim>\<open>serialize\<close> into a buffer of 1024 bytes, and before a
  scan it restores one with \<^verbatim>\<open>deserialize\<close>, so the parser can go back and try another
  way. What has to hold of a scanner is therefore: \<^verbatim>\<open>scan\<close> returns on every input (the
  application would hang otherwise) and stays inside its own data; the tokens it reports
  are among those asked for and cover the right text; its state follows the tokens it
  has reported; and \<^verbatim>\<open>serialize\<close> writes no more than the buffer holds and loses nothing.

  \<^bold>\<open>The library.\<close>
  \<^item> \<open>TS_Prelude\<close>: the control flow of C statements (a loop body or a block goes on with a
    state or returns from the function), loops as the partial function \<open>c_loop\<close> whose value
    \<open>None\<close> is a loop that does not return, and the rules that a loop with a decreasing
    measure returns (\<open>runs\<close>).
  \<^item> \<open>TS_Lexer\<close>: \<^verbatim>\<open>TSLexer\<close> of \<^verbatim>\<open>tree_sitter/parser.h\<close> and the functions of
    \<^verbatim>\<open>wctype.h\<close>. The runtime is not in the repository: it is the parameter \<open>E\<close> of every
    operation, and what its documentation promises is the locale \<open>ts_lexer\<close>, extended by
    \<open>ts_lexer_marks\<close> for the end of the token. The lemmas about scanning loops are proved
    in these locales and so are those of the components. The lexer over a list of code
    points interprets both; the witnesses use it.
  \<^item> \<open>TS_Serialize\<close>: bytes and the little-endian integers the scanners copy with
    \<^verbatim>\<open>memcpy\<close>, and the contract of saving and restoring as locales: \<open>external_scanner\<close> (what
    was saved comes back), \<open>resettable_scanner\<close> (an empty buffer gives a new scanner) and
    \<open>resumable_scanner\<close> (a parse that saves and restores around every scan gives the same
    results as one that does not). Each scanner with a state interprets what it satisfies.

  \<^bold>\<open>The components.\<close> One theory models one scanner, with the names of the source and a
  prefix for the language; a definition models a function or a block of a long function,
  and returns the changed scanner and lexer. Every \<^verbatim>\<open>scan\<close>, \<^verbatim>\<open>serialize\<close> and
  \<^verbatim>\<open>deserialize\<close> is modelled whole.
  \<^item> \<open>Toml_Scanner\<close> (\<^verbatim>\<open>toml\<close>): ends of multi-line strings, line endings.
  \<^item> \<open>Css_Scanner\<close> (\<^verbatim>\<open>css\<close>): descendant combinators and pseudo-class colons.
  \<^item> \<open>Cpp_Scanner\<close> (\<^verbatim>\<open>cpp\<close>): raw strings and their delimiters.
  \<^item> \<open>Lua_Scanner\<close> (\<^verbatim>\<open>lua\<close>): long brackets of strings and comments.
  \<^item> \<open>Julia_Scanner\<close> (\<^verbatim>\<open>julia\<close>): nested comments and string contents.
  \<^item> \<open>JavaScript_Scanner\<close> (\<^verbatim>\<open>javascript\<close>): automatic semicolons, templates, JSX text.
  \<^item> \<open>TypeScript_Scanner\<close> (\<^verbatim>\<open>typescript/common/scanner.h\<close>, the same file as \<^verbatim>\<open>tsx/common/scanner.h\<close>):
    automatic semicolons, the conditional operator, templates, JSX text.
  \<^item> \<open>Php_Scanner\<close> (\<^verbatim>\<open>php/common/scanner.h\<close>): contents of strings, heredocs and nowdocs.
  \<^item> \<open>Html_Scanner\<close> (\<^verbatim>\<open>html\<close>, with \<^verbatim>\<open>tag.h\<close>): the stack of open elements, implicit end
    tags, comments and raw text.
  \<^item> \<open>Xml_Scanner\<close> (\<^verbatim>\<open>xml/xml\<close>, with \<^verbatim>\<open>xml/common/scanner.h\<close>): element names, processing
    instructions, CDATA.
  \<^item> \<open>Python_Scanner\<close> (\<^verbatim>\<open>python\<close>): indentation, newlines and string literals.
  \<^item> \<open>CSharp_Scanner\<close> (\<^verbatim>\<open>c-sharp\<close>): raw and interpolated strings.
  \<^item> \<open>Hcl_Scanner\<close> (\<^verbatim>\<open>hcl\<close>): templates and heredocs.
  \<^item> \<open>Scala_Scanner\<close> (\<^verbatim>\<open>scala\<close>): indentation, automatic semicolons, strings.
  \<^item> \<open>Yaml_Schema\<close> (\<^verbatim>\<open>yaml/src/schema.core.c\<close>): the state machine that types plain scalars.
  \<^item> \<open>Yaml_Scanner\<close> (\<^verbatim>\<open>yaml/src/scanner.c\<close>): block structure, directives, tags, anchors and
    scalars. Its lemmas are in theories of their own: \<open>Yaml_Blocks\<close> for what each function
    keeps of the stacks, \<open>Yaml_Scan\<close> for the blocks of the scan put together, \<open>Yaml_Scalars\<close>
    for the text and type of scalars, \<open>Yaml_Save\<close> for saving and restoring.
  \<^item> \<open>Ruby_Scanner\<close> (\<^verbatim>\<open>ruby\<close>): literals, heredocs, operators and line breaks; \<open>Ruby_Scan\<close>
    shows what a scan does to the literals and heredocs, \<open>Ruby_Save\<close> what saving keeps and
    where contents end.
  \<^item> \<open>Bash_Scanner\<close> (\<^verbatim>\<open>bash\<close>): heredocs, names, test operators, regular expressions, globs and
    expansions; \<open>Bash_Scan\<close> shows what a scan does to the heredocs, \<open>Bash_Save\<close> what
    restoring leaves of the old ones and how heredocs and brace ranges are read.
  \<^item> \<open>Haskell_Scanner\<close> (\<^verbatim>\<open>haskell\<close>, with the character classes of \<^verbatim>\<open>unicode.h\<close> in
    \<open>Haskell_Unicode\<close>, whose bitmaps are a parameter): layouts, operators, comments, pragmas,
    preprocessor lines and the lookahead for constraints. \<open>Haskell_Lookahead\<close> shows that
    looking ahead does not change what is read, \<open>Haskell_Lex\<close> and \<open>Haskell_Scan\<close> that the
    loops return, \<open>Haskell_Layout\<close> gives the layout stack as an abstract transition system
    that the scan refines, \<open>Haskell_Save\<close> follows the stack through sequences of saved scans
    (reachable states, and the tokens of a new line one after the other), \<open>Haskell_Comments\<close>
    shows where block comments end.

  \<^bold>\<open>What is shown.\<close> For every scanner that the scan returns, with the invariant of its
  state, the tokens it may report and what each of them did to the state; for those with
  a state what saving and restoring keeps, on every state and not only on those that fit;
  and for each the behaviour that makes the scanner hard: where a string, comment or
  section ends, which delimiters match, which token an indentation gives, and for YAML
  that the state machine computes the languages of the specification. Where the code
  does something else than its comments or the language say, the theorem states what it
  does (counters that wrap modulo 256 or 65536, a write one byte past the buffer, ends of
  sections that are missed).

  \<^bold>\<open>Conventions.\<close> An operation whose result is an \<open>option\<close> gives \<open>None\<close> when a loop does
  not return, an assertion fails, \<^verbatim>\<open>abort\<close> is called, an empty array is popped or a
  buffer is read behind its end; the theorems show that it gives \<open>Some\<close>. No fuel is used.
  Characters are the code points of \<^verbatim>\<open>lookahead\<close> as \<open>int\<close>; counters, indentations and
  bytes are words of the width the source gives them. Positions in an array or in the lookahead
  (the index into an end word or delimiter and its length, the sizes that serialization adds up,
  the offset and the lengths of the Haskell lookahead) are numbers: they are bounded by the
  length of the array or of the text that was read. \<^verbatim>\<open>wchar_t\<close> has 32 bits and \<^verbatim>\<open>char\<close> is signed and integers are
  stored with the low byte first, as on the platforms the application is built for.
  Memory allocation is assumed to succeed, and the growth of arrays is not modelled: an
  array is a list. \<^verbatim>\<open>destroy\<close>, which only frees memory, has no counterpart.

  \<^bold>\<open>Not modelled.\<close> The generated parsers (tables); the scanners kept as \<^verbatim>\<open>.inc\<close> files, which
  are no C files of the tree; the tree-sitter headers; the debug output of the Haskell scanner;
  and the parts of the application in Rust, C++ and TypeScript.
\<close>

end
